(* ===== verification/Rust_Str.thy ===== *)
theory Rust_Str
  imports Oxo_Prelude
begin

text \<open>
  The parts of Rust's \<open>str\<close>, \<open>slice\<close> and integer-parsing library that the Oxo sources call.
  A Rust \<open>&str\<close> or \<open>String\<close> is a HOL \<open>string\<close> read byte for byte: one \<open>char\<close> per UTF-8
  byte. That its bytes are valid UTF-8, which Rust's type guarantees, is the predicate
  \<open>rust_str\<close>; \<open>as_bytes\<close> and \<open>from_utf8\<close> convert to and from raw bytes. \<open>trim\<close> strips
  every code point with the Unicode property White\_Space, \<open>parse_uint\<close> is \<open>str::parse\<close>
  for the unsigned integer types (an optional plus sign, decimal digits, overflow is an error).
\<close>

section \<open>Bytes and characters\<close>

definition byte :: "char \<Rightarrow> u8" where
  "byte c = of_char c"

definition byte_char :: "u8 \<Rightarrow> char" where
  "byte_char b = char_of (unat b)"

definition as_bytes :: "string \<Rightarrow> u8 list" where
  "as_bytes s = map byte s"

definition is_ascii_uppercase :: "u8 \<Rightarrow> bool" where
  "is_ascii_uppercase b \<longleftrightarrow> 0x41 \<le> b \<and> b \<le> 0x5A"

definition is_ascii_lowercase :: "u8 \<Rightarrow> bool" where
  "is_ascii_lowercase b \<longleftrightarrow> 0x61 \<le> b \<and> b \<le> 0x7A"

definition is_ascii_digit :: "u8 \<Rightarrow> bool" where
  "is_ascii_digit b \<longleftrightarrow> 0x30 \<le> b \<and> b \<le> 0x39"

definition is_ascii_hexdigit :: "u8 \<Rightarrow> bool" where
  "is_ascii_hexdigit b \<longleftrightarrow>
     is_ascii_digit b \<or> (0x41 \<le> b \<and> b \<le> 0x46) \<or> (0x61 \<le> b \<and> b \<le> 0x66)"

definition is_ascii_alphanumeric :: "u8 \<Rightarrow> bool" where
  "is_ascii_alphanumeric b \<longleftrightarrow> is_ascii_digit b \<or> is_ascii_uppercase b \<or> is_ascii_lowercase b"

definition lower_char :: "char \<Rightarrow> char" where
  "lower_char c = (if is_ascii_uppercase (byte c) then byte_char (byte c + 0x20) else c)"

definition to_ascii_lowercase :: "string \<Rightarrow> string" where
  "to_ascii_lowercase s = map lower_char s"

definition eq_ignore_ascii_case :: "string \<Rightarrow> string \<Rightarrow> bool" where
  "eq_ignore_ascii_case a b \<longleftrightarrow> to_ascii_lowercase a = to_ascii_lowercase b"

section \<open>UTF-8\<close>

definition utf8_cont :: "u8 \<Rightarrow> bool" where
  "utf8_cont b \<longleftrightarrow> 0x80 \<le> b \<and> b \<le> 0xBF"

definition utf8_second3 :: "u8 \<Rightarrow> u8 \<Rightarrow> bool" where
  "utf8_second3 a b \<longleftrightarrow>
     (if a = 0xE0 then 0xA0 \<le> b \<and> b \<le> 0xBF
      else if a = 0xED then 0x80 \<le> b \<and> b \<le> 0x9F
      else utf8_cont b)"

definition utf8_second4 :: "u8 \<Rightarrow> u8 \<Rightarrow> bool" where
  "utf8_second4 a b \<longleftrightarrow>
     (if a = 0xF0 then 0x90 \<le> b \<and> b \<le> 0xBF
      else if a = 0xF4 then 0x80 \<le> b \<and> b \<le> 0x8F
      else utf8_cont b)"

fun utf8_valid :: "u8 list \<Rightarrow> bool" where
  "utf8_valid [] = True"
| "utf8_valid (a # r) =
     (if a < 0x80 then utf8_valid r
      else if 0xC2 \<le> a \<and> a \<le> 0xDF then
        (case r of b # r' \<Rightarrow> utf8_cont b \<and> utf8_valid r' | _ \<Rightarrow> False)
      else if 0xE0 \<le> a \<and> a \<le> 0xEF then
        (case r of b # c # r' \<Rightarrow> utf8_second3 a b \<and> utf8_cont c \<and> utf8_valid r' | _ \<Rightarrow> False)
      else if 0xF0 \<le> a \<and> a \<le> 0xF4 then
        (case r of b # c # d # r' \<Rightarrow>
           utf8_second4 a b \<and> utf8_cont c \<and> utf8_cont d \<and> utf8_valid r' | _ \<Rightarrow> False)
      else False)"

definition rust_str :: "string \<Rightarrow> bool" where
  "rust_str s \<longleftrightarrow> utf8_valid (as_bytes s)"

definition from_utf8 :: "u8 list \<Rightarrow> string option" where
  "from_utf8 bs = (if utf8_valid bs then Some (map byte_char bs) else None)"

section \<open>Searching and splitting\<close>

definition starts_with :: "'a list \<Rightarrow> 'a list \<Rightarrow> bool" where
  "starts_with s p \<longleftrightarrow> take (length p) s = p"

definition ends_with :: "'a list \<Rightarrow> 'a list \<Rightarrow> bool" where
  "ends_with s p \<longleftrightarrow> length p \<le> length s \<and> drop (length s - length p) s = p"

definition strip_prefix :: "'a list \<Rightarrow> 'a list \<Rightarrow> 'a list option" where
  "strip_prefix s p = (if starts_with s p then Some (drop (length p) s) else None)"

fun contains_str :: "'a list \<Rightarrow> 'a list \<Rightarrow> bool" where
  "contains_str [] p = (p = [])"
| "contains_str (x # xs) p = (starts_with (x # xs) p \<or> contains_str xs p)"

fun split_on :: "'a \<Rightarrow> 'a list \<Rightarrow> 'a list list" where
  "split_on c [] = [[]]"
| "split_on c (x # xs) =
     (if x = c then [] # split_on c xs
      else (case split_on c xs of [] \<Rightarrow> [[x]] | w # ws \<Rightarrow> (x # w) # ws))"

fun split_once :: "'a \<Rightarrow> 'a list \<Rightarrow> ('a list \<times> 'a list) option" where
  "split_once c [] = None"
| "split_once c (x # xs) =
     (if x = c then Some ([], xs)
      else map_option (\<lambda>(a, b). (x # a, b)) (split_once c xs))"

definition rsplit_once :: "'a \<Rightarrow> 'a list \<Rightarrow> ('a list \<times> 'a list) option" where
  "rsplit_once c s = map_option (\<lambda>(b, a). (rev a, rev b)) (split_once c (rev s))"

fun split_once_str :: "'a list \<Rightarrow> 'a list \<Rightarrow> ('a list \<times> 'a list) option" where
  "split_once_str p [] = (if p = [] then Some ([], []) else None)"
| "split_once_str p (x # xs) =
     (if starts_with (x # xs) p then Some ([], drop (length p) (x # xs))
      else map_option (\<lambda>(a, b). (x # a, b)) (split_once_str p xs))"

text \<open>\<open>str::split\<close> with the two-byte separator CR LF.\<close>

fun split_crlf :: "string \<Rightarrow> string list" where
  "split_crlf [] = [[]]"
| "split_crlf [x] = [[x]]"
| "split_crlf (x # y # xs) =
     (if x = CHR 0x0D \<and> y = CHR 0x0A then [] # split_crlf xs
      else (case split_crlf (y # xs) of [] \<Rightarrow> [[x]] | w # ws \<Rightarrow> (x # w) # ws))"

section \<open>Trimming\<close>

text \<open>The UTF-8 encodings of the code points with the property White\_Space.\<close>

definition white_space :: "string list" where
  "white_space =
     [[CHR 0x20], [CHR 0x09], [CHR 0x0A], [CHR 0x0B], [CHR 0x0C], [CHR 0x0D],
      [CHR 0xC2, CHR 0x85], [CHR 0xC2, CHR 0xA0], [CHR 0xE1, CHR 0x9A, CHR 0x80],
      [CHR 0xE2, CHR 0x80, CHR 0x80], [CHR 0xE2, CHR 0x80, CHR 0x81], [CHR 0xE2, CHR 0x80, CHR 0x82],
      [CHR 0xE2, CHR 0x80, CHR 0x83], [CHR 0xE2, CHR 0x80, CHR 0x84], [CHR 0xE2, CHR 0x80, CHR 0x85],
      [CHR 0xE2, CHR 0x80, CHR 0x86], [CHR 0xE2, CHR 0x80, CHR 0x87], [CHR 0xE2, CHR 0x80, CHR 0x88],
      [CHR 0xE2, CHR 0x80, CHR 0x89], [CHR 0xE2, CHR 0x80, CHR 0x8A], [CHR 0xE2, CHR 0x80, CHR 0xA8],
      [CHR 0xE2, CHR 0x80, CHR 0xA9], [CHR 0xE2, CHR 0x80, CHR 0xAF], [CHR 0xE2, CHR 0x81, CHR 0x9F],
      [CHR 0xE3, CHR 0x80, CHR 0x80]]"

fun strip_any :: "'a list list \<Rightarrow> 'a list \<Rightarrow> 'a list option" where
  "strip_any [] s = None"
| "strip_any (p # ps) s =
     (if p \<noteq> [] \<and> starts_with s p then Some (drop (length p) s) else strip_any ps s)"

lemma strip_any_shorter: "strip_any ps s = Some s' \<Longrightarrow> length s' < length s"
proof (induction ps)
  case (Cons p ps)
  show ?case
  proof (cases "p \<noteq> [] \<and> starts_with s p")
    case True
    then have "length p \<le> length s" "0 < length p"
      by (auto simp: starts_with_def) (metis length_take min.cobounded1)
    moreover from True Cons.prems have "length s' = length s - length p" by auto
    ultimately show ?thesis by linarith
  next
    case False
    with Cons show ?thesis by auto
  qed
qed simp

function trim_with :: "'a list list \<Rightarrow> 'a list \<Rightarrow> 'a list" where
  "trim_with ps s = (case strip_any ps s of None \<Rightarrow> s | Some s' \<Rightarrow> trim_with ps s')"
  by pat_completeness auto
termination
  by (relation "measure (\<lambda>(ps, s). length s)") (auto dest: strip_any_shorter)

declare trim_with.simps [simp del]

definition trim_start :: "string \<Rightarrow> string" where
  "trim_start s = trim_with white_space s"

definition trim_end :: "string \<Rightarrow> string" where
  "trim_end s = rev (trim_with (map rev white_space) (rev s))"

definition trim :: "string \<Rightarrow> string" where
  "trim s = trim_end (trim_start s)"

text \<open>\<open>trim_matches([' ', '\t'])\<close>.\<close>

definition trim_blanks :: "string \<Rightarrow> string" where
  "trim_blanks s =
     rev (dropWhile (\<lambda>c. c = CHR '' '' \<or> c = CHR 0x09)
       (rev (dropWhile (\<lambda>c. c = CHR '' '' \<or> c = CHR 0x09) s)))"

fun split_whitespace_acc :: "nat \<Rightarrow> string \<Rightarrow> string \<Rightarrow> string list" where
  "split_whitespace_acc 0 acc s = (if acc = [] then [] else [acc])"
| "split_whitespace_acc (Suc n) acc s =
     (case s of [] \<Rightarrow> (if acc = [] then [] else [acc])
      | c # r \<Rightarrow> (case strip_any white_space s of
          Some s' \<Rightarrow> (if acc = [] then split_whitespace_acc n [] s'
                      else acc # split_whitespace_acc n [] s')
        | None \<Rightarrow> split_whitespace_acc n (acc @ [c]) r))"

text \<open>Every step consumes at least one byte, so \<open>length s\<close> steps read the whole string.\<close>

definition split_whitespace :: "string \<Rightarrow> string list" where
  "split_whitespace s = split_whitespace_acc (length s) [] s"

section \<open>Integers as text\<close>

definition digit_value :: "char \<Rightarrow> nat" where
  "digit_value c = unat (byte c) - 48"

definition hex_value :: "char \<Rightarrow> nat" where
  "hex_value c =
     (let b = unat (byte c) in
      if b \<le> 57 then b - 48 else if b \<le> 70 then b - 55 else b - 87)"

fun digits_value :: "nat \<Rightarrow> string \<Rightarrow> nat" where
  "digits_value acc [] = acc"
| "digits_value acc (c # cs) = digits_value (acc * 10 + digit_value c) cs"

fun hex_digits_value :: "nat \<Rightarrow> string \<Rightarrow> nat" where
  "hex_digits_value acc [] = acc"
| "hex_digits_value acc (c # cs) = hex_digits_value (acc * 16 + hex_value c) cs"

definition strip_plus :: "string \<Rightarrow> string" where
  "strip_plus s = (case s of c # r \<Rightarrow> if c = CHR ''+'' then r else s | [] \<Rightarrow> s)"

definition parse_uint :: "nat \<Rightarrow> string \<Rightarrow> nat option" where
  "parse_uint lim s =
     (let ds = strip_plus s in
      if ds \<noteq> [] \<and> list_all (\<lambda>c. is_ascii_digit (byte c)) ds \<and> digits_value 0 ds \<le> lim
      then Some (digits_value 0 ds) else None)"

definition parse_hex :: "nat \<Rightarrow> string \<Rightarrow> nat option" where
  "parse_hex lim s =
     (let ds = strip_plus s in
      if ds \<noteq> [] \<and> list_all (\<lambda>c. is_ascii_hexdigit (byte c)) ds \<and> hex_digits_value 0 ds \<le> lim
      then Some (hex_digits_value 0 ds) else None)"

definition digit_char :: "nat \<Rightarrow> char" where
  "digit_char d = char_of (48 + d)"

fun to_string :: "nat \<Rightarrow> string" where
  "to_string n = (if n < 10 then [digit_char n] else to_string (n div 10) @ [digit_char (n mod 10)])"

declare to_string.simps [simp del]

definition hex_char :: "nat \<Rightarrow> char" where
  "hex_char d = (if d < 10 then char_of (48 + d) else char_of (87 + d))"

fun to_hex :: "nat \<Rightarrow> string" where
  "to_hex n = (if n < 16 then [hex_char n] else to_hex (n div 16) @ [hex_char (n mod 16)])"

declare to_hex.simps [simp del]

section \<open>Lemmas\<close>

lemma unat_byte: "unat (byte c) = of_char c"
proof -
  have "byte c = of_nat (of_char c)" by (simp add: byte_def of_nat_of_char)
  moreover have "of_char c < (256 :: nat)" by (rule nat_of_char_less_256)
  ultimately show ?thesis by (simp add: unat_of_nat)
qed

lemma byte_char_byte [simp]: "byte_char (byte c) = c"
  by (simp add: byte_char_def unat_byte)

lemma byte_char_of: "n < 256 \<Longrightarrow> byte (char_of n) = of_nat n"
  by (rule word_unat_eq_iff [THEN iffD2]) (simp add: unat_byte unat_of_nat)

lemma byte_byte_char [simp]: "byte (byte_char b) = b"
proof -
  have "unat b < 256" using unsigned_less [of b, where 'a = nat] by simp
  then show ?thesis by (simp add: byte_char_def byte_char_of)
qed

lemma byte_eq_iff [simp]: "byte c = byte d \<longleftrightarrow> c = d"
  by (metis byte_char_byte)

lemma length_as_bytes [simp]: "length (as_bytes s) = length s"
  by (simp add: as_bytes_def)

lemma as_bytes_append [simp]: "as_bytes (a @ b) = as_bytes a @ as_bytes b"
  by (simp add: as_bytes_def)

lemma as_bytes_map_byte_char [simp]: "as_bytes (map byte_char bs) = bs"
  by (simp add: as_bytes_def comp_def)

lemma map_byte_char_as_bytes [simp]: "map byte_char (as_bytes s) = s"
  by (simp add: as_bytes_def comp_def)

lemma from_utf8_as_bytes [simp]: "from_utf8 (as_bytes s) = (if rust_str s then Some s else None)"
  by (simp add: from_utf8_def rust_str_def)

lemma from_utf8_Some: "from_utf8 bs = Some s \<longleftrightarrow> rust_str s \<and> as_bytes s = bs"
  by (auto simp: from_utf8_def rust_str_def)

lemma lower_char_idem [simp]: "lower_char (lower_char c) = lower_char c"
proof (cases "is_ascii_uppercase (byte c)")
  case True
  then have "\<not> is_ascii_uppercase (byte c + 0x20)"
    by (simp add: is_ascii_uppercase_def word_le_nat_alt unat_word_ariths)
  with True show ?thesis by (simp add: lower_char_def)
qed (simp add: lower_char_def)

lemma to_ascii_lowercase_idem [simp]: "to_ascii_lowercase (to_ascii_lowercase s) = to_ascii_lowercase s"
  by (simp add: to_ascii_lowercase_def comp_def)

lemma length_to_ascii_lowercase [simp]: "length (to_ascii_lowercase s) = length s"
  by (simp add: to_ascii_lowercase_def)

lemma to_ascii_lowercase_id:
  "list_all (\<lambda>c. \<not> is_ascii_uppercase (byte c)) s \<Longrightarrow> to_ascii_lowercase s = s"
  by (induction s) (auto simp: to_ascii_lowercase_def lower_char_def)

lemma eq_ignore_ascii_case_refl [simp]: "eq_ignore_ascii_case s s"
  by (simp add: eq_ignore_ascii_case_def)

lemma split_on_nonempty [simp]: "split_on c s \<noteq> []"
  by (induction s) (auto split: list.splits)

lemma split_on_pieces: "w \<in> set (split_on c s) \<Longrightarrow> c \<notin> set w"
  by (induction s arbitrary: w) (auto split: list.splits if_splits)

lemma split_once_Some:
  "split_once c s = Some (a, b) \<longleftrightarrow> s = a @ c # b \<and> c \<notin> set a"
  by (induction s arbitrary: a b) (auto simp: Cons_eq_append_conv)

lemma split_once_None: "split_once c s = None \<longleftrightarrow> c \<notin> set s"
  by (induction s) auto

lemma rsplit_once_Some:
  "rsplit_once c s = Some (a, b) \<longleftrightarrow> s = a @ c # b \<and> c \<notin> set b"
proof
  assume "rsplit_once c s = Some (a, b)"
  then obtain x y where "split_once c (rev s) = Some (x, y)" "a = rev y" "b = rev x"
    by (auto simp: rsplit_once_def)
  then have "rev s = x @ c # y \<and> c \<notin> set x" by (simp add: split_once_Some)
  then have "s = rev (x @ c # y)" by (metis rev_rev_ident)
  with \<open>a = rev y\<close> \<open>b = rev x\<close> \<open>rev s = _ \<and> _\<close> show "s = a @ c # b \<and> c \<notin> set b" by simp
next
  assume "s = a @ c # b \<and> c \<notin> set b"
  then have "split_once c (rev s) = Some (rev b, rev a)" by (simp add: split_once_Some)
  then show "rsplit_once c s = Some (a, b)" by (simp add: rsplit_once_def)
qed

lemma starts_with_append: "starts_with s p \<longleftrightarrow> (\<exists>r. s = p @ r)"
  by (auto simp: starts_with_def intro: exI [of _ "drop (length p) s"])
    (metis append_take_drop_id)

subsection \<open>Printing a number and reading it back\<close>

lemma byte_digit_char: "d < 10 \<Longrightarrow> byte (digit_char d) = 48 + of_nat d"
  by (simp add: digit_char_def byte_char_of)

lemma digit_char_props:
  assumes "d < 10"
  shows "is_ascii_digit (byte (digit_char d))" and "digit_value (digit_char d) = d"
    and "digit_char d \<noteq> CHR ''+''"
proof -
  have u: "unat (byte (digit_char d)) = 48 + d"
    using assms by (simp add: byte_digit_char unat_word_ariths unat_of_nat)
  then show "is_ascii_digit (byte (digit_char d))" "digit_value (digit_char d) = d"
    using assms by (simp_all add: is_ascii_digit_def word_le_nat_alt digit_value_def)
  show "digit_char d \<noteq> CHR ''+''"
    using u by (auto simp: byte_def)
qed

lemma digits_value_append:
  "digits_value acc (a @ b) = digits_value (digits_value acc a) b"
  by (induction a arbitrary: acc) auto

lemma to_string_digits: "list_all (\<lambda>c. is_ascii_digit (byte c)) (to_string n)"
  by (induction n rule: to_string.induct) (subst to_string.simps, auto simp: digit_char_props)

lemma to_string_value: "digits_value 0 (to_string n) = n"
proof (induction n rule: to_string.induct)
  case (1 n)
  then show ?case
    by (cases "n < 10") (simp_all add: to_string.simps [of n] digit_char_props digits_value_append)
qed

lemma to_string_nonempty [simp]: "to_string n \<noteq> []"
  by (subst to_string.simps) simp

lemma strip_plus_digits:
  "list_all (\<lambda>c. is_ascii_digit (byte c)) s \<Longrightarrow> strip_plus s = s"
  by (cases s) (auto simp: strip_plus_def is_ascii_digit_def byte_def)

lemma parse_uint_to_string: "n \<le> lim \<Longrightarrow> parse_uint lim (to_string n) = Some n"
  by (simp add: parse_uint_def strip_plus_digits to_string_digits to_string_value Let_def)

lemma parse_uint_bound: "parse_uint lim s = Some n \<Longrightarrow> n \<le> lim"
  by (auto simp: parse_uint_def Let_def split: if_splits)

subsection \<open>Text with nothing to trim\<close>

definition is_ascii_graphic :: "u8 \<Rightarrow> bool" where
  "is_ascii_graphic b \<longleftrightarrow> 0x21 \<le> b \<and> b \<le> 0x7E"

lemma white_space_ends:
  assumes "p \<in> set white_space"
  shows "p \<noteq> []" and "\<not> is_ascii_graphic (byte (hd p))" and "\<not> is_ascii_graphic (byte (last p))"
  using assms by (auto simp: white_space_def is_ascii_graphic_def byte_def)

lemma strip_any_None:
  "strip_any ps s = None \<longleftrightarrow> (\<forall>p \<in> set ps. p \<noteq> [] \<longrightarrow> \<not> starts_with s p)"
  by (induction ps) auto

lemma trim_with_id: "strip_any ps s = None \<Longrightarrow> trim_with ps s = s"
  by (simp add: trim_with.simps)

lemma starts_with_hd: "starts_with s p \<Longrightarrow> p \<noteq> [] \<Longrightarrow> hd p = hd s"
  by (auto simp: starts_with_append)

lemma trim_start_graphic:
  assumes "is_ascii_graphic (byte (hd s))"
  shows "trim_start s = s"
proof -
  have "strip_any white_space s = None"
    using assms white_space_ends(2) by (auto simp: strip_any_None) (metis starts_with_hd)
  then show ?thesis by (simp add: trim_start_def trim_with_id)
qed

lemma trim_end_graphic:
  assumes "is_ascii_graphic (byte (last s))"
  shows "trim_end s = s"
proof (cases "s = []")
  case True
  have "strip_any (map rev white_space) [] = None"
    by (auto simp: strip_any_None starts_with_def)
  with True show ?thesis by (simp add: trim_end_def trim_with_id)
next
  case False
  have "strip_any (map rev white_space) (rev s) = None"
    using assms white_space_ends(3) False
    by (auto simp: strip_any_None) (metis hd_rev starts_with_hd rev_is_Nil_conv)
  then show ?thesis by (simp add: trim_end_def trim_with_id)
qed

lemma trim_graphic:
  "is_ascii_graphic (byte (hd s)) \<Longrightarrow> is_ascii_graphic (byte (last s)) \<Longrightarrow> trim s = s"
  by (simp add: trim_def trim_start_graphic trim_end_graphic)

lemmas eval_trim = trim_graphic trim_start_graphic trim_end_graphic is_ascii_graphic_def byte_def

section \<open>UTF-8 text\<close>

definition ascii_str :: "string \<Rightarrow> bool" where
  "ascii_str s = list_all (\<lambda>c. (of_char c :: nat) < 128) s"

lemma ascii_rust_str:
  assumes "ascii_str s"
  shows "rust_str s"
proof -
  have "utf8_valid (as_bytes s)"
    using assms
  proof (induction s)
    case (Cons c s)
    then have "byte c < 0x80" by (simp add: ascii_str_def word_less_nat_alt unat_byte)
    with Cons show ?case by (simp add: ascii_str_def as_bytes_def)
  qed (simp add: as_bytes_def)
  then show ?thesis by (simp add: rust_str_def)
qed

end
