(* ===== verification/Rust_Net.thy ===== *)
theory Rust_Net
  imports Rust_Str
begin

text \<open>
  Rust's \<open>IpAddr\<close> and \<open>SocketAddr\<close> as far as the Oxo sources use them: the value types, the
  loopback test, the text parsers of \<open>core::net\<close> (IPv4 with no leading zeros, IPv6 with one
  \<open>::\<close> and an embedded IPv4 tail, bracketed socket addresses with an optional scope id) and
  the \<open>Display\<close> forms (the longest run of zero groups is compressed). A parser step is a
  function from the unread text to an optional value and the remaining text.
\<close>

type_synonym u128 = "128 word"

datatype ip_addr = V4 u32 | V6 u128

datatype socket_addr = SockV4 u32 u16 | SockV6 u128 u16 u32 u32

fun sock_ip :: "socket_addr \<Rightarrow> ip_addr" where
  "sock_ip (SockV4 ip port) = V4 ip"
| "sock_ip (SockV6 ip port flow scope) = V6 ip"

fun sock_port :: "socket_addr \<Rightarrow> u16" where
  "sock_port (SockV4 ip port) = port"
| "sock_port (SockV6 ip port flow scope) = port"

fun is_loopback :: "ip_addr \<Rightarrow> bool" where
  "is_loopback (V4 a) = (drop_bit 24 a = 127)"
| "is_loopback (V6 a) = (a = 1)"

definition V4_LOCALHOST :: u32 where "V4_LOCALHOST = 0x7F000001"

section \<open>Parsing\<close>

type_synonym 'a parser = "string \<Rightarrow> ('a \<times> string) option"

definition read_given_char :: "char \<Rightarrow> unit parser" where
  "read_given_char c s = (case s of [] \<Rightarrow> None | x # r \<Rightarrow> if x = c then Some ((), r) else None)"

definition read_digits :: "(char \<Rightarrow> bool) \<Rightarrow> (nat \<Rightarrow> string \<Rightarrow> nat) \<Rightarrow> nat option \<Rightarrow> bool \<Rightarrow> nat \<Rightarrow> nat parser" where
  "read_digits isd val max_digits allow_zero_prefix lim s =
     (let ds = takeWhile isd s; n = length ds in
      if n = 0 then None
      else if (case max_digits of Some k \<Rightarrow> n > k | None \<Rightarrow> False) then None
      else if \<not> allow_zero_prefix \<and> hd ds = CHR ''0'' \<and> n > 1 then None
      else if val 0 ds > lim then None
      else Some (val 0 ds, dropWhile isd s))"

definition read_dec :: "nat option \<Rightarrow> bool \<Rightarrow> nat \<Rightarrow> nat parser" where
  "read_dec = read_digits (\<lambda>c. is_ascii_digit (byte c)) digits_value"

definition read_hex :: "nat option \<Rightarrow> bool \<Rightarrow> nat \<Rightarrow> nat parser" where
  "read_hex = read_digits (\<lambda>c. is_ascii_hexdigit (byte c)) hex_digits_value"

definition read_ipv4 :: "u32 parser" where
  "read_ipv4 s =
     Option.bind (read_dec (Some 3) False 255 s) (\<lambda>(a, s).
     Option.bind (read_given_char (CHR ''.'') s) (\<lambda>(_, s).
     Option.bind (read_dec (Some 3) False 255 s) (\<lambda>(b, s).
     Option.bind (read_given_char (CHR ''.'') s) (\<lambda>(_, s).
     Option.bind (read_dec (Some 3) False 255 s) (\<lambda>(c, s).
     Option.bind (read_given_char (CHR ''.'') s) (\<lambda>(_, s).
     Option.bind (read_dec (Some 3) False 255 s) (\<lambda>(d, s).
     Some (of_nat (((a * 256 + b) * 256 + c) * 256 + d), s))))))))"

definition read_separator :: "nat \<Rightarrow> 'a parser \<Rightarrow> 'a parser" where
  "read_separator i p s =
     (if i > 0 then Option.bind (read_given_char (CHR '':'') s) (\<lambda>(_, s). p s) else p s)"

text \<open>The first argument is the number of group slots left, the second the index of the next.\<close>

fun read_groups :: "nat \<Rightarrow> nat \<Rightarrow> string \<Rightarrow> nat list \<times> bool \<times> string" where
  "read_groups 0 i s = ([], False, s)"
| "read_groups (Suc n) i s =
     (case (if n \<ge> 1 then read_separator i read_ipv4 s else None) of
        Some (w, s') \<Rightarrow> ([unat (drop_bit 16 w), unat (take_bit 16 w)], True, s')
      | None \<Rightarrow>
          (case read_separator i (read_hex (Some 4) True 65535) s of
             None \<Rightarrow> ([], False, s)
           | Some (g, s') \<Rightarrow>
               (let (gs, v4, s'') = read_groups n (Suc i) s' in (g # gs, v4, s''))))"

definition groups_value :: "nat list \<Rightarrow> u128" where
  "groups_value gs = of_nat (foldl (\<lambda>acc g. acc * 65536 + g) 0 gs)"

definition read_ipv6 :: "u128 parser" where
  "read_ipv6 s =
     (let (head, v4, s) = read_groups 8 0 s in
      if length head = 8 then Some (groups_value head, s)
      else if v4 then None
      else
        Option.bind (read_given_char (CHR '':'') s) (\<lambda>(_, s).
        Option.bind (read_given_char (CHR '':'') s) (\<lambda>(_, s).
        let (tail, _, s) = read_groups (8 - (length head + 1)) 0 s in
        Some (groups_value (head @ replicate (8 - length head - length tail) 0 @ tail), s))))"

definition read_ip :: "ip_addr parser" where
  "read_ip s =
     (case read_ipv4 s of
        Some (a, r) \<Rightarrow> Some (V4 a, r)
      | None \<Rightarrow> map_option (\<lambda>(a, r). (V6 a, r)) (read_ipv6 s))"

definition read_port :: "u16 parser" where
  "read_port s =
     Option.bind (read_given_char (CHR '':'') s) (\<lambda>(_, s).
     map_option (\<lambda>(n, s). (of_nat n, s)) (read_dec None True 65535 s))"

definition read_scope_id :: "u32 parser" where
  "read_scope_id s =
     Option.bind (read_given_char (CHR ''%'') s) (\<lambda>(_, s).
     map_option (\<lambda>(n, s). (of_nat n, s)) (read_dec None True 4294967295 s))"

definition read_socket_v4 :: "socket_addr parser" where
  "read_socket_v4 s =
     Option.bind (read_ipv4 s) (\<lambda>(ip, s).
     Option.bind (read_port s) (\<lambda>(port, s). Some (SockV4 ip port, s)))"

definition read_socket_v6 :: "socket_addr parser" where
  "read_socket_v6 s =
     Option.bind (read_given_char (CHR ''['') s) (\<lambda>(_, s).
     Option.bind (read_ipv6 s) (\<lambda>(ip, s).
     let (scope, s) = (case read_scope_id s of None \<Rightarrow> (0, s) | Some (x, s') \<Rightarrow> (x, s')) in
     Option.bind (read_given_char (CHR '']'') s) (\<lambda>(_, s).
     Option.bind (read_port s) (\<lambda>(port, s). Some (SockV6 ip port 0 scope, s)))))"

definition parse_all_input :: "'a parser \<Rightarrow> string \<Rightarrow> 'a option" where
  "parse_all_input p s = (case p s of Some (a, []) \<Rightarrow> Some a | _ \<Rightarrow> None)"

definition parse_ip :: "string \<Rightarrow> ip_addr option" where
  "parse_ip = parse_all_input read_ip"

definition parse_socket_addr :: "string \<Rightarrow> socket_addr option" where
  "parse_socket_addr s =
     parse_all_input (\<lambda>s. case read_socket_v4 s of Some r \<Rightarrow> Some r | None \<Rightarrow> read_socket_v6 s) s"

section \<open>Display\<close>

definition show_ipv4 :: "u32 \<Rightarrow> string" where
  "show_ipv4 a =
     to_string (unat (drop_bit 24 a)) @ ''.'' @ to_string (unat (take_bit 8 (drop_bit 16 a))) @ ''.'' @
     to_string (unat (take_bit 8 (drop_bit 8 a))) @ ''.'' @ to_string (unat (take_bit 8 a))"

definition ipv6_segments :: "u128 \<Rightarrow> nat list" where
  "ipv6_segments a = map (\<lambda>i. unat (take_bit 16 (drop_bit (16 * (7 - i)) a))) [0..<8]"

fun zero_run :: "nat list \<Rightarrow> nat \<Rightarrow> nat \<times> nat \<Rightarrow> nat \<times> nat \<Rightarrow> nat \<times> nat" where
  "zero_run [] i cur longest = longest"
| "zero_run (g # gs) i (start, len) longest =
     (if g = 0 then
        (let start' = (if len = 0 then i else start); len' = len + 1;
             longest' = (if len' > snd longest then (start', len') else longest)
         in zero_run gs (i + 1) (start', len') longest')
      else zero_run gs (i + 1) (0, 0) longest)"

fun join_groups :: "nat list \<Rightarrow> string" where
  "join_groups [] = []"
| "join_groups [g] = to_hex g"
| "join_groups (g # gs) = to_hex g @ '':'' @ join_groups gs"

definition show_ipv6 :: "u128 \<Rightarrow> string" where
  "show_ipv6 a =
     (let gs = ipv6_segments a in
      if take 6 gs = [0, 0, 0, 0, 0, 65535] then ''::ffff:'' @ show_ipv4 (ucast a)
      else
        (let (start, len) = zero_run gs 0 (0, 0) (0, 0) in
         if len > 1 then join_groups (take start gs) @ ''::'' @ join_groups (drop (start + len) gs)
         else join_groups gs))"

fun show_ip :: "ip_addr \<Rightarrow> string" where
  "show_ip (V4 a) = show_ipv4 a"
| "show_ip (V6 a) = show_ipv6 a"

fun show_socket_addr :: "socket_addr \<Rightarrow> string" where
  "show_socket_addr (SockV4 ip port) = show_ipv4 ip @ '':'' @ to_string (unat port)"
| "show_socket_addr (SockV6 ip port flow scope) =
     (if scope = 0 then ''['' @ show_ipv6 ip @ '']:'' @ to_string (unat port)
      else ''['' @ show_ipv6 ip @ ''%'' @ to_string (unat scope) @ '']:'' @ to_string (unat port))"

section \<open>An IPv4 socket address survives printing\<close>

lemma to_string_hd: "0 < n \<Longrightarrow> hd (to_string n) \<noteq> CHR ''0''"
proof (induction n rule: to_string.induct)
  case (1 n)
  show ?case
  proof (cases "n < 10")
    case True
    with 1(2) have "of_char (digit_char n) \<noteq> (48 :: nat)"
      using byte_digit_char [OF True] unat_byte [of "digit_char n"] by (simp add: unat_word_ariths unat_of_nat)
    with True show ?thesis by (auto simp: to_string.simps [of n])
  qed (use 1 in \<open>simp add: to_string.simps [of n]\<close>)
qed

lemma to_string_length3: "n \<le> 255 \<Longrightarrow> length (to_string n) \<le> 3"
  by (simp add: to_string.simps [of n] to_string.simps [of "n div 10"] to_string.simps [of "n div 10 div 10"])

lemma not_digit_dot: "\<not> is_ascii_digit (byte (CHR ''.''))" "\<not> is_ascii_digit (byte (CHR '':''))"
  by (simp_all add: is_ascii_digit_def byte_def)

lemma read_dec_to_string:
  assumes "n \<le> lim" and "case k of Some m \<Rightarrow> length (to_string n) \<le> m | None \<Rightarrow> True"
    and "rest = [] \<or> \<not> is_ascii_digit (byte (hd rest))"
  shows "read_dec k z lim (to_string n @ rest) = Some (n, rest)"
proof -
  have digits: "\<forall>c \<in> set (to_string n). is_ascii_digit (byte c)"
    using to_string_digits [of n] by (simp add: list_all_iff)
  have "takeWhile (\<lambda>c. is_ascii_digit (byte c)) (to_string n @ rest) = to_string n"
    "dropWhile (\<lambda>c. is_ascii_digit (byte c)) (to_string n @ rest) = rest"
    using digits assms(3) by (cases rest; simp)+
  moreover have "hd (to_string n) = CHR ''0'' \<Longrightarrow> length (to_string n) = 1"
    using to_string_hd [of n] by (cases "n = 0") (auto simp: to_string.simps [of 0])
  ultimately show ?thesis
    using assms(1,2) by (auto simp: read_dec_def read_digits_def Let_def to_string_value split: option.splits)
qed

lemma octets_value:
  "((unat (drop_bit 24 a) * 256 + unat (take_bit 8 (drop_bit 16 a))) * 256 +
     unat (take_bit 8 (drop_bit 8 a))) * 256 + unat (take_bit 8 a) = unat (a :: u32)"
proof -
  define n q1 q2 where "n = unat a" and "q1 = n div 256" and "q2 = q1 div 256"
  have "unat (drop_bit 24 a) = q2 div 256" "unat (take_bit 8 (drop_bit 16 a)) = q2 mod 256"
    "unat (take_bit 8 (drop_bit 8 a)) = q1 mod 256" "unat (take_bit 8 a) = n mod 256"
    by (simp_all add: unsigned_drop_bit_eq unsigned_take_bit_eq drop_bit_eq_div take_bit_eq_mod n_def q1_def
        q2_def div_mult2_eq [symmetric] unat_div unat_mod)
  moreover have "q2 div 256 * 256 + q2 mod 256 = q2" "q2 * 256 + q1 mod 256 = q1" "q1 * 256 + n mod 256 = n"
    unfolding q2_def q1_def by simp_all
  ultimately show ?thesis by (simp only: n_def)
qed

lemma octet_bound: "unat (take_bit 8 (w :: u32)) \<le> 255" "unat (drop_bit 24 (w :: u32)) \<le> 255"
proof -
  have "unat w div 2 ^ 24 < 256" using unsigned_less [of w, where 'a = nat] by (simp add: less_mult_imp_div_less)
  then show "unat (drop_bit 24 w) \<le> 255" by (simp add: drop_bit_eq_div unat_div)
  have "unat w mod 256 < 256" by simp
  then show "unat (take_bit 8 w) \<le> 255"
    by (simp add: take_bit_eq_mod unat_mod)
qed

lemma read_ipv4_show:
  assumes "rest = [] \<or> \<not> is_ascii_digit (byte (hd rest))"
  shows "read_ipv4 (show_ipv4 a @ rest) = Some (a, rest)"
proof -
  have dec: "read_dec (Some 3) False 255 (to_string n @ r) = Some (n, r)"
    if "n \<le> 255" "r = [] \<or> \<not> is_ascii_digit (byte (hd r))" for n r
    using that to_string_length3 by (intro read_dec_to_string) simp_all
  have "of_nat (((unat (drop_bit 24 a) * 256 + unat (take_bit 8 (drop_bit 16 a))) * 256 +
      unat (take_bit 8 (drop_bit 8 a))) * 256 + unat (take_bit 8 a)) = a"
    unfolding octets_value by simp
  then show ?thesis
    using assms by (simp add: read_ipv4_def show_ipv4_def dec octet_bound not_digit_dot read_given_char_def
        del: of_nat_add of_nat_mult)
qed

lemma parse_show_socket_v4: "parse_socket_addr (show_socket_addr (SockV4 a p)) = Some (SockV4 a p)"
proof -
  have "unat p \<le> 65535" using unsigned_less [of p, where 'a = nat] by simp
  then have "read_dec None True 65535 (to_string (unat p)) = Some (unat p, [])"
    using read_dec_to_string [of "unat p" 65535 None "[]" True] by simp
  moreover have "read_ipv4 (show_ipv4 a @ CHR '':'' # to_string (unat p)) = Some (a, CHR '':'' # to_string (unat p))"
    by (rule read_ipv4_show) (simp add: not_digit_dot)
  ultimately show ?thesis
    by (simp add: parse_socket_addr_def parse_all_input_def read_socket_v4_def read_port_def read_given_char_def)
qed

end
