(* ===== verification/Core_Lib.thy ===== *)
theory Core_Lib
  imports Rust_Net
begin

text \<open>
  \<open>crates/oxo-core/src/lib.rs\<close>: the canned \<open>RackResponse\<close> values, the process configuration
  with its boot-time guards (\<open>Config::from_env_pairs\<close>, split here into one definition per
  numbered step of the function) and the two header-name predicates every hop applies before a
  client header can reach the application. Reading the configuration file and parsing its JSON
  are parameters: \<open>fs\<close> returns the text or the printed error, \<open>json\<close> the record or the
  printed error.
\<close>

section \<open>Constants and data\<close>

definition DEFAULT_PORT :: u16 where "DEFAULT_PORT = 9292"
definition DEFAULT_MAX_BODY_BYTES :: usize where "DEFAULT_MAX_BODY_BYTES = 1024 * 1024"
definition DEFAULT_MAX_CONNECTIONS :: usize where "DEFAULT_MAX_CONNECTIONS = 64"
definition DEFAULT_HEADER_READ_TIMEOUT_SECS :: nat where "DEFAULT_HEADER_READ_TIMEOUT_SECS = 15"
definition DEFAULT_REQUEST_TIMEOUT_SECS :: nat where "DEFAULT_REQUEST_TIMEOUT_SECS = 30"
definition DEFAULT_MAX_CONNECTION_SECS :: nat where "DEFAULT_MAX_CONNECTION_SECS = 0"
definition DEFAULT_MAX_HEADER_COUNT :: usize where "DEFAULT_MAX_HEADER_COUNT = 100"
definition DEFAULT_MAX_READ_BUF_BYTES :: usize where "DEFAULT_MAX_READ_BUF_BYTES = 64 * 1024"
definition MIN_READ_BUF_BYTES :: usize where "MIN_READ_BUF_BYTES = 8192"

lemmas config_constants =
  DEFAULT_PORT_def DEFAULT_MAX_BODY_BYTES_def DEFAULT_MAX_CONNECTIONS_def
  DEFAULT_HEADER_READ_TIMEOUT_SECS_def DEFAULT_REQUEST_TIMEOUT_SECS_def
  DEFAULT_MAX_CONNECTION_SECS_def DEFAULT_MAX_HEADER_COUNT_def DEFAULT_MAX_READ_BUF_BYTES_def
  MIN_READ_BUF_BYTES_def

record rack_request =
  rq_method :: string
  rq_path :: string
  rq_query_string :: string
  rq_server_name :: string
  rq_server_port :: u16
  rq_url_scheme :: string
  rq_headers :: "(string \<times> string) list"
  rq_body :: "u8 list"

record rack_response =
  rs_status :: u16
  rs_headers :: "(string \<times> string) list"
  rs_body :: "u8 list"

definition rack_text :: "u16 \<Rightarrow> u8 list \<Rightarrow> rack_response" where
  "rack_text status body =
     \<lparr>rs_status = status,
      rs_headers =
        [(''content-type'', ''text/plain; charset=utf-8''),
         (''content-length'', to_string (length body))],
      rs_body = body\<rparr>"

definition internal_error :: rack_response where
  "internal_error = rack_text 500 (as_bytes ''Internal Server Error'')"

definition payload_too_large :: rack_response where
  "payload_too_large = rack_text 413 (as_bytes ''Payload Too Large'')"

definition bad_gateway :: rack_response where
  "bad_gateway = rack_text 502 (as_bytes ''Bad Gateway (worker unreachable)'')"

definition service_unavailable :: rack_response where
  "service_unavailable =
     (let r = rack_text 503 (as_bytes ''Service Unavailable (worker restarting)'')
      in r\<lparr>rs_headers := rs_headers r @ [(''retry-after'', ''1'')]\<rparr>)"

definition gateway_timeout :: rack_response where
  "gateway_timeout = rack_text 504 (as_bytes ''Gateway Timeout (worker too slow)'')"

datatype handler_error =
  HandlerBodyTooLarge
| RubyError string
| WorkerError string
| HandlerIo string
| WorkerUnavailable
| WorkerUnreachable string

datatype handler_kind = Supervised | Embedded
datatype env = Development | Production
datatype worker_kind = Puma | Shim

record config =
  cfg_env :: env
  cfg_bind :: socket_addr
  cfg_handler :: handler_kind
  cfg_worker :: worker_kind
  cfg_app :: string
  cfg_max_body_bytes :: usize
  cfg_max_connections :: usize
  cfg_header_read_timeout_secs :: nat
  cfg_request_timeout_secs :: nat
  cfg_max_connection_secs :: nat
  cfg_max_header_count :: usize
  cfg_max_read_buf_bytes :: usize
  cfg_allow_public_bind :: bool

definition is_public_bind :: "config \<Rightarrow> bool" where
  "is_public_bind c \<longleftrightarrow> \<not> is_loopback (sock_ip (cfg_bind c))"

definition default_config :: config where
  "default_config =
     \<lparr>cfg_env = Development,
      cfg_bind = SockV4 V4_LOCALHOST DEFAULT_PORT,
      cfg_handler = Supervised,
      cfg_worker = Puma,
      cfg_app = ''ruby/trivial_app.ru'',
      cfg_max_body_bytes = DEFAULT_MAX_BODY_BYTES,
      cfg_max_connections = DEFAULT_MAX_CONNECTIONS,
      cfg_header_read_timeout_secs = DEFAULT_HEADER_READ_TIMEOUT_SECS,
      cfg_request_timeout_secs = DEFAULT_REQUEST_TIMEOUT_SECS,
      cfg_max_connection_secs = DEFAULT_MAX_CONNECTION_SECS,
      cfg_max_header_count = DEFAULT_MAX_HEADER_COUNT,
      cfg_max_read_buf_bytes = DEFAULT_MAX_READ_BUF_BYTES,
      cfg_allow_public_bind = False\<rparr>"

record file_config =
  fc_env :: "env option"
  fc_bind :: "string option"
  fc_handler :: "handler_kind option"
  fc_worker :: "worker_kind option"
  fc_app :: "string option"
  fc_max_body_bytes :: "usize option"
  fc_max_connections :: "usize option"
  fc_header_read_timeout_secs :: "nat option"
  fc_request_timeout_secs :: "nat option"
  fc_max_connection_secs :: "nat option"
  fc_max_header_count :: "usize option"
  fc_max_read_buf_bytes :: "usize option"

definition default_file_config :: file_config where
  "default_file_config =
     \<lparr>fc_env = None, fc_bind = None, fc_handler = None, fc_worker = None, fc_app = None,
      fc_max_body_bytes = None, fc_max_connections = None, fc_header_read_timeout_secs = None,
      fc_request_timeout_secs = None, fc_max_connection_secs = None,
      fc_max_header_count = None, fc_max_read_buf_bytes = None\<rparr>"

datatype config_error =
  InvalidBind string string
| ProductionMustSpecify string string
| PublicBindRequiresOptIn socket_addr
| InvalidConfigFile string string
| InvalidValue string string

section \<open>Configuration\<close>

text \<open>\<open>HashMap::collect\<close> keeps the last value of a key; blank values count as unset.\<close>

definition env_get :: "(string \<times> string) list \<Rightarrow> string \<Rightarrow> string option" where
  "env_get pairs k =
     (case map_of (rev pairs) k of
        None \<Rightarrow> None
      | Some s \<Rightarrow> (let t = trim s in if t = [] then None else Some t))"

type_synonym getter = "string \<Rightarrow> string option"

definition unwrap_or :: "'a option \<Rightarrow> 'a \<Rightarrow> 'a" where
  "unwrap_or m d = (case m of None \<Rightarrow> d | Some x \<Rightarrow> x)"

definition or_else :: "'a option \<Rightarrow> 'a option \<Rightarrow> 'a option" where
  "or_else m n = (case m of None \<Rightarrow> n | Some x \<Rightarrow> Some x)"

definition load_file_config ::
  "(string \<Rightarrow> string + string) \<Rightarrow> (string \<Rightarrow> string + file_config) \<Rightarrow> getter \<Rightarrow> config_error + file_config" where
  "load_file_config fs json get =
     (case get ''OXO_CONFIG'' of
        None \<Rightarrow> Inr default_file_config
      | Some path \<Rightarrow>
          and_then (map_err (InvalidConfigFile path) (fs path)) (\<lambda>txt.
          map_err (InvalidConfigFile path) (json txt)))"

definition resolve_env :: "getter \<Rightarrow> file_config \<Rightarrow> config_error + env" where
  "resolve_env get file =
     (case get ''OXO_ENV'' of
        Some v \<Rightarrow>
          if v = ''production'' then Inr Production
          else if v = ''development'' then Inr Development
          else Inl (InvalidValue ''OXO_ENV'' v)
      | None \<Rightarrow> Inr (unwrap_or (fc_env file) Development))"

definition resolve_handler :: "getter \<Rightarrow> file_config \<Rightarrow> config_error + handler_kind option" where
  "resolve_handler get file =
     (case get ''OXO_HANDLER'' of
        Some v \<Rightarrow>
          if v = ''supervised'' then Inr (Some Supervised)
          else if v = ''embedded'' then Inr (Some Embedded)
          else Inl (InvalidValue ''OXO_HANDLER'' v)
      | None \<Rightarrow> Inr (fc_handler file))"

definition resolve_worker :: "getter \<Rightarrow> file_config \<Rightarrow> config_error + worker_kind" where
  "resolve_worker get file =
     (case get ''OXO_WORKER'' of
        Some v \<Rightarrow>
          if v = ''puma'' then Inr Puma
          else if v = ''shim'' then Inr Shim
          else Inl (InvalidValue ''OXO_WORKER'' v)
      | None \<Rightarrow> Inr (unwrap_or (fc_worker file) Puma))"

definition production_guard :: "env \<Rightarrow> string option \<Rightarrow> handler_kind option \<Rightarrow> config_error + unit" where
  "production_guard app_env bind_str handler =
     (if app_env = Production then
        if bind_str = None then
          Inl (ProductionMustSpecify ''bind address'' (''OXO_BIND or the config file '' @ CHR 0x27 # ''bind'' @ [CHR 0x27]))
        else if handler = None then
          Inl (ProductionMustSpecify ''handler'' (''OXO_HANDLER or the config file '' @ CHR 0x27 # ''handler'' @ [CHR 0x27]))
        else Inr ()
      else Inr ())"

text \<open>The message is the \<open>Display\<close> text of \<open>AddrParseError\<close> for a socket address.\<close>

definition resolve_bind :: "string option \<Rightarrow> config_error + socket_addr" where
  "resolve_bind bind_str =
     (case bind_str of
        Some s \<Rightarrow> ok_or (InvalidBind s ''invalid socket address syntax'') (parse_socket_addr s)
      | None \<Rightarrow> Inr (SockV4 V4_LOCALHOST DEFAULT_PORT))"

definition public_bind_opt_in :: "getter \<Rightarrow> bool" where
  "public_bind_opt_in get \<longleftrightarrow>
     get ''OXO_INSECURE_PUBLIC_BIND'' = Some ''1'' \<or> get ''OXO_INSECURE_PUBLIC_BIND'' = Some ''true''"

definition bind_fence :: "socket_addr \<Rightarrow> bool \<Rightarrow> config_error + unit" where
  "bind_fence bind allow =
     (if \<not> is_loopback (sock_ip bind) \<and> \<not> allow then Inl (PublicBindRequiresOptIn bind) else Inr ())"

text \<open>
  One numeric knob: the environment variable, else the file, else the default. \<open>usize\<close> and
  \<open>u64\<close> have the same range on the 64-bit targets.
\<close>

definition resolve_knob :: "getter \<Rightarrow> string \<Rightarrow> nat option \<Rightarrow> nat \<Rightarrow> config_error + nat" where
  "resolve_knob get name file_field dflt =
     (case get name of
        Some s \<Rightarrow> ok_or (InvalidValue name s) (parse_uint U64_MAX s)
      | None \<Rightarrow> Inr (unwrap_or file_field dflt))"

definition read_buf_guard :: "usize \<Rightarrow> config_error + unit" where
  "read_buf_guard n =
     (if n \<noteq> 0 \<and> n < MIN_READ_BUF_BYTES then
        Inl (InvalidValue ''OXO_MAX_READ_BUF_BYTES''
          (''must be 0 or >= '' @ to_string MIN_READ_BUF_BYTES @ '', got '' @ to_string n))
      else Inr ())"

definition resolve_app :: "getter \<Rightarrow> file_config \<Rightarrow> string" where
  "resolve_app get file = unwrap_or (or_else (get ''OXO_APP'') (fc_app file)) ''ruby/trivial_app.ru''"

definition resolve_limits ::
  "getter \<Rightarrow> file_config \<Rightarrow> config_error + nat \<times> nat \<times> nat \<times> nat \<times> nat \<times> nat \<times> nat" where
  "resolve_limits get file =
     and_then (resolve_knob get ''OXO_MAX_BODY_BYTES'' (fc_max_body_bytes file)
       DEFAULT_MAX_BODY_BYTES) (\<lambda>body.
     and_then (resolve_knob get ''OXO_MAX_CONNECTIONS'' (fc_max_connections file)
       DEFAULT_MAX_CONNECTIONS) (\<lambda>conns.
     and_then (resolve_knob get ''OXO_HEADER_READ_TIMEOUT_SECS'' (fc_header_read_timeout_secs file)
       DEFAULT_HEADER_READ_TIMEOUT_SECS) (\<lambda>head_secs.
     and_then (resolve_knob get ''OXO_REQUEST_TIMEOUT_SECS'' (fc_request_timeout_secs file)
       DEFAULT_REQUEST_TIMEOUT_SECS) (\<lambda>req_secs.
     and_then (resolve_knob get ''OXO_MAX_CONNECTION_SECS'' (fc_max_connection_secs file)
       DEFAULT_MAX_CONNECTION_SECS) (\<lambda>conn_secs.
     and_then (resolve_knob get ''OXO_MAX_HEADER_COUNT'' (fc_max_header_count file)
       DEFAULT_MAX_HEADER_COUNT) (\<lambda>hdrs.
     and_then (resolve_knob get ''OXO_MAX_READ_BUF_BYTES'' (fc_max_read_buf_bytes file)
       DEFAULT_MAX_READ_BUF_BYTES) (\<lambda>buf.
     and_then (read_buf_guard buf) (\<lambda>_.
     Inr (body, conns, head_secs, req_secs, conn_secs, hdrs, buf)))))))))"

definition resolve_config :: "getter \<Rightarrow> file_config \<Rightarrow> config_error + config" where
  "resolve_config get file =
     and_then (resolve_env get file) (\<lambda>app_env.
     let bind_str = or_else (get ''OXO_BIND'') (fc_bind file) in
     and_then (resolve_handler get file) (\<lambda>handler_kind.
     and_then (resolve_worker get file) (\<lambda>worker.
     and_then (production_guard app_env bind_str handler_kind) (\<lambda>_.
     and_then (resolve_bind bind_str) (\<lambda>bind.
     let handler = unwrap_or handler_kind Supervised;
         allow = public_bind_opt_in get in
     and_then (bind_fence bind allow) (\<lambda>_.
     and_then (resolve_limits get file)
       (\<lambda>(body, conns, head_secs, req_secs, conn_secs, hdrs, buf).
     Inr \<lparr>cfg_env = app_env, cfg_bind = bind, cfg_handler = handler, cfg_worker = worker,
          cfg_app = resolve_app get file, cfg_max_body_bytes = body, cfg_max_connections = conns,
          cfg_header_read_timeout_secs = head_secs, cfg_request_timeout_secs = req_secs,
          cfg_max_connection_secs = conn_secs, cfg_max_header_count = hdrs,
          cfg_max_read_buf_bytes = buf, cfg_allow_public_bind = allow\<rparr>)))))))"

definition from_env_pairs ::
  "(string \<Rightarrow> string + string) \<Rightarrow> (string \<Rightarrow> string + file_config) \<Rightarrow> (string \<times> string) list
     \<Rightarrow> config_error + config" where
  "from_env_pairs fs json pairs =
     and_then (load_file_config fs json (env_get pairs)) (resolve_config (env_get pairs))"

section \<open>Header names\<close>

definition normalize_header_name :: "string \<Rightarrow> string option" where
  "normalize_header_name name =
     (if CHR ''_'' \<in> set name then None else Some (to_ascii_lowercase name))"

definition is_client_forwarding_header :: "string \<Rightarrow> bool" where
  "is_client_forwarding_header name \<longleftrightarrow>
     name \<in> set
       [''forwarded'', ''x-real-ip'', ''client-ip'', ''true-client-ip'', ''cf-connecting-ip'',
        ''cf-pseudo-ipv4'', ''x-client-ip'', ''fastly-client-ip'', ''fly-client-ip'',
        ''x-cluster-client-ip'', ''x-original-forwarded-for'', ''x-original-for'',
        ''x-appengine-user-ip'', ''x-azure-clientip'', ''x-azure-socketip'', ''x-proxyuser-ip'',
        ''x-forwarded'']
     \<or> starts_with name ''x-forwarded-''"

section \<open>What a resolved configuration guarantees\<close>

lemmas resolve_defs =
  resolve_env_def resolve_handler_def resolve_worker_def resolve_app_def resolve_limits_def
  resolve_knob_def

lemma read_buf_guard_Inr [result_simps]:
  "read_buf_guard n = Inr u \<longleftrightarrow> n = 0 \<or> MIN_READ_BUF_BYTES \<le> n"
  by (auto simp: read_buf_guard_def)

lemma bind_fence_Inr [result_simps]:
  "bind_fence b allow = Inr u \<longleftrightarrow> is_loopback (sock_ip b) \<or> allow"
  by (auto simp: bind_fence_def)

lemma production_guard_Inr [result_simps]:
  "production_guard e b h = Inr u \<longleftrightarrow> (e = Production \<longrightarrow> b \<noteq> None \<and> h \<noteq> None)"
  by (auto simp: production_guard_def)

lemma resolve_limits_Inr:
  assumes "resolve_limits get file = Inr (body, conns, hs, rs, cs, hdrs, buf)"
  shows "buf = 0 \<or> MIN_READ_BUF_BYTES \<le> buf"
  using assms by (simp only: resolve_limits_def and_then_eq_Inr) (elim exE conjE, simp add: read_buf_guard_Inr)

lemma resolve_handler_source:
  "resolve_handler get file = Inr h \<Longrightarrow> h \<noteq> None \<Longrightarrow>
     get ''OXO_HANDLER'' \<noteq> None \<or> fc_handler file \<noteq> None"
  by (auto simp: resolve_handler_def split: option.splits)

text \<open>Two configuration files that agree wherever the environment is silent.\<close>

definition same_where_unset :: "getter \<Rightarrow> file_config \<Rightarrow> file_config \<Rightarrow> bool" where
  "same_where_unset get f g \<longleftrightarrow>
     (get ''OXO_ENV'' = None \<longrightarrow> fc_env f = fc_env g) \<and>
     (get ''OXO_BIND'' = None \<longrightarrow> fc_bind f = fc_bind g) \<and>
     (get ''OXO_HANDLER'' = None \<longrightarrow> fc_handler f = fc_handler g) \<and>
     (get ''OXO_WORKER'' = None \<longrightarrow> fc_worker f = fc_worker g) \<and>
     (get ''OXO_APP'' = None \<longrightarrow> fc_app f = fc_app g) \<and>
     (get ''OXO_MAX_BODY_BYTES'' = None \<longrightarrow> fc_max_body_bytes f = fc_max_body_bytes g) \<and>
     (get ''OXO_MAX_CONNECTIONS'' = None \<longrightarrow> fc_max_connections f = fc_max_connections g) \<and>
     (get ''OXO_HEADER_READ_TIMEOUT_SECS'' = None \<longrightarrow>
        fc_header_read_timeout_secs f = fc_header_read_timeout_secs g) \<and>
     (get ''OXO_REQUEST_TIMEOUT_SECS'' = None \<longrightarrow>
        fc_request_timeout_secs f = fc_request_timeout_secs g) \<and>
     (get ''OXO_MAX_CONNECTION_SECS'' = None \<longrightarrow>
        fc_max_connection_secs f = fc_max_connection_secs g) \<and>
     (get ''OXO_MAX_HEADER_COUNT'' = None \<longrightarrow> fc_max_header_count f = fc_max_header_count g) \<and>
     (get ''OXO_MAX_READ_BUF_BYTES'' = None \<longrightarrow>
        fc_max_read_buf_bytes f = fc_max_read_buf_bytes g)"

lemma resolve_knob_masks:
  "(get name = None \<longrightarrow> a = b) \<Longrightarrow> resolve_knob get name a d = resolve_knob get name b d"
  by (auto simp: resolve_knob_def split: option.splits)

lemma resolve_limits_masks:
  assumes "same_where_unset get f g"
  shows "resolve_limits get f = resolve_limits get g"
  using assms resolve_knob_masks [of get "''OXO_MAX_BODY_BYTES''" "fc_max_body_bytes f" "fc_max_body_bytes g"]
    resolve_knob_masks [of get "''OXO_MAX_CONNECTIONS''" "fc_max_connections f" "fc_max_connections g"]
    resolve_knob_masks [of get "''OXO_HEADER_READ_TIMEOUT_SECS''"
      "fc_header_read_timeout_secs f" "fc_header_read_timeout_secs g"]
    resolve_knob_masks [of get "''OXO_REQUEST_TIMEOUT_SECS''"
      "fc_request_timeout_secs f" "fc_request_timeout_secs g"]
    resolve_knob_masks [of get "''OXO_MAX_CONNECTION_SECS''"
      "fc_max_connection_secs f" "fc_max_connection_secs g"]
    resolve_knob_masks [of get "''OXO_MAX_HEADER_COUNT''" "fc_max_header_count f" "fc_max_header_count g"]
    resolve_knob_masks [of get "''OXO_MAX_READ_BUF_BYTES''"
      "fc_max_read_buf_bytes f" "fc_max_read_buf_bytes g"]
  by (simp add: same_where_unset_def resolve_limits_def)

text \<open>
  A configuration that resolves is safe to boot: it binds a non-loopback address only when
  OXO\_INSECURE\_PUBLIC\_BIND was set to 1 or true, in production both the bind address and the
  handler were given explicitly, by the environment or the configuration file, and the read
  buffer is either left to hyper or at least hyper's minimum.
\<close>

theorem from_env_pairs_safe:
  assumes "from_env_pairs fs json pairs = Inr c"
  shows "(is_public_bind c \<longrightarrow> cfg_allow_public_bind c) \<and>
    (cfg_allow_public_bind c \<longleftrightarrow>
       env_get pairs ''OXO_INSECURE_PUBLIC_BIND'' \<in> {Some ''1'', Some ''true''}) \<and>
    (cfg_max_read_buf_bytes c = 0 \<or> MIN_READ_BUF_BYTES \<le> cfg_max_read_buf_bytes c) \<and>
    (\<exists>fc. load_file_config fs json (env_get pairs) = Inr fc \<and>
      (cfg_env c = Production \<longrightarrow>
         (env_get pairs ''OXO_BIND'' \<noteq> None \<or> fc_bind fc \<noteq> None) \<and>
         (env_get pairs ''OXO_HANDLER'' \<noteq> None \<or> fc_handler fc \<noteq> None)))"
proof -
  let ?get = "env_get pairs"
  from assms obtain fc where fc: "load_file_config fs json ?get = Inr fc"
    and "resolve_config ?get fc = Inr c"
    by (auto simp: from_env_pairs_def and_then_eq_Inr)
  then obtain h lim where
    h: "resolve_handler ?get fc = Inr h" and
    guard: "production_guard (cfg_env c) (or_else (?get ''OXO_BIND'') (fc_bind fc)) h = Inr ()" and
    fence: "bind_fence (cfg_bind c) (cfg_allow_public_bind c) = Inr ()" and
    allow: "cfg_allow_public_bind c = public_bind_opt_in ?get" and
    lim: "resolve_limits ?get fc = Inr lim" and
    buf: "cfg_max_read_buf_bytes c = snd (snd (snd (snd (snd (snd lim)))))"
    by (auto simp: resolve_config_def and_then_eq_Inr Let_def split: prod.splits)
  have "cfg_max_read_buf_bytes c = 0 \<or> MIN_READ_BUF_BYTES \<le> cfg_max_read_buf_bytes c"
    using lim buf resolve_limits_Inr by (cases lim) auto
  moreover have "cfg_env c = Production \<longrightarrow>
      (?get ''OXO_BIND'' \<noteq> None \<or> fc_bind fc \<noteq> None) \<and>
      (?get ''OXO_HANDLER'' \<noteq> None \<or> fc_handler fc \<noteq> None)"
    using guard resolve_handler_source [OF h]
    by (auto simp: production_guard_Inr or_else_def split: option.splits)
  ultimately show ?thesis
    using fc fence allow
    by (auto simp: bind_fence_Inr is_public_bind_def public_bind_opt_in_def)
qed


lemmas eval_parse_ip =
  read_ipv4_def read_dec_def read_digits_def read_given_char_def is_ascii_digit_def byte_def
  digit_value_def

definition sample_env :: "(string \<times> string) list" where
  "sample_env =
     [(''OXO_ENV'', ''production''), (''OXO_BIND'', ''10.0.0.7:80''),
      (''OXO_HANDLER'', ''supervised''), (''OXO_INSECURE_PUBLIC_BIND'', ''1'')]"

lemma sample_env_resolves:
  "from_env_pairs (\<lambda>_. Inl ''no file'') (\<lambda>_. Inl ''no json'') sample_env =
     Inr (default_config\<lparr>cfg_env := Production, cfg_bind := SockV4 0x0A000007 80,
            cfg_allow_public_bind := True\<rparr>)"
proof -
  have "parse_socket_addr ''10.0.0.7:80'' = Some (SockV4 0x0A000007 80)"
    by (simp add: parse_socket_addr_def parse_all_input_def read_socket_v4_def read_port_def eval_parse_ip)
  then show ?thesis
    by (simp add: from_env_pairs_def load_file_config_def resolve_config_def resolve_defs
      sample_env_def env_get_def eval_trim unwrap_or_def or_else_def production_guard_def
      resolve_bind_def bind_fence_def public_bind_opt_in_def read_buf_guard_def default_config_def
      default_file_config_def config_constants)
qed

theorem from_env_pairs_safe_witness:
  "is_public_bind (default_config\<lparr>cfg_env := Production, cfg_bind := SockV4 0x0A000007 80,
       cfg_allow_public_bind := True\<rparr>) \<and>
   env_get sample_env ''OXO_INSECURE_PUBLIC_BIND'' \<in> {Some ''1'', Some ''true''}"
  using from_env_pairs_safe [OF sample_env_resolves] by (simp add: is_public_bind_def)

text \<open>
  With an empty environment the resolved configuration is the \<open>Default\<close> value: the two
  sets of defaults in the source agree, and neither the file system nor the JSON parser is used.
\<close>

theorem from_env_pairs_empty: "from_env_pairs fs json [] = Inr default_config"
  by (simp add: from_env_pairs_def load_file_config_def resolve_config_def resolve_defs env_get_def
      unwrap_or_def or_else_def production_guard_def resolve_bind_def bind_fence_def
      public_bind_opt_in_def read_buf_guard_def default_config_def default_file_config_def
      config_constants V4_LOCALHOST_def)

text \<open>
  The environment overrides the configuration file: whatever the file says in a field whose
  variable is set (to a non-blank value) has no influence on the outcome, errors included.
\<close>

theorem env_overrides_file:
  assumes "same_where_unset (env_get pairs) f g"
  shows "resolve_config (env_get pairs) f = resolve_config (env_get pairs) g"
proof -
  let ?get = "env_get pairs"
  have "resolve_env ?get f = resolve_env ?get g"
    using assms by (auto simp: same_where_unset_def resolve_env_def split: option.splits)
  moreover have "resolve_handler ?get f = resolve_handler ?get g"
    using assms by (auto simp: same_where_unset_def resolve_handler_def split: option.splits)
  moreover have "resolve_worker ?get f = resolve_worker ?get g"
    using assms by (auto simp: same_where_unset_def resolve_worker_def split: option.splits)
  moreover have "or_else (?get ''OXO_BIND'') (fc_bind f) = or_else (?get ''OXO_BIND'') (fc_bind g)"
    using assms by (auto simp: same_where_unset_def or_else_def split: option.splits)
  moreover have "resolve_app ?get f = resolve_app ?get g"
    using assms by (auto simp: same_where_unset_def resolve_app_def or_else_def split: option.splits)
  ultimately show ?thesis
    using resolve_limits_masks [OF assms] by (simp add: resolve_config_def)
qed

theorem env_overrides_file_witness:
  "resolve_config (env_get [(''OXO_ENV'', ''development'')]) (default_file_config\<lparr>fc_env := Some Production\<rparr>) =
   resolve_config (env_get [(''OXO_ENV'', ''development'')]) default_file_config"
  by (rule env_overrides_file)
    (simp add: same_where_unset_def env_get_def eval_trim default_file_config_def)

section \<open>What the header predicates guarantee\<close>

lemma normalize_header_name_Some:
  "normalize_header_name n = Some m \<longleftrightarrow> CHR ''_'' \<notin> set n \<and> m = to_ascii_lowercase n"
  by (auto simp: normalize_header_name_def)

lemma lower_char_upper_range:
  assumes "is_ascii_uppercase (byte c)"
  shows "unat (byte (lower_char c)) = unat (byte c) + 32" "65 \<le> unat (byte c)" "unat (byte c) \<le> 90"
  using assms by (simp_all add: lower_char_def is_ascii_uppercase_def word_le_nat_alt unat_word_ariths)

lemma lower_char_eq_underscore: "lower_char c = CHR ''_'' \<longleftrightarrow> c = CHR ''_''"
proof (cases "is_ascii_uppercase (byte c)")
  case True
  then have "unat (byte (lower_char c)) \<noteq> 95"
    using lower_char_upper_range by fastforce
  with True show ?thesis by (auto simp: byte_def is_ascii_uppercase_def)
qed (simp add: lower_char_def)

lemma to_ascii_lowercase_underscore:
  "CHR ''_'' \<in> set (to_ascii_lowercase s) \<longleftrightarrow> CHR ''_'' \<in> set s"
  by (auto simp: to_ascii_lowercase_def image_iff) (metis lower_char_eq_underscore)+

end
