(* ===== verification/Edge_Cli.thy ===== *)
theory Edge_Cli
  imports Core_Lib
begin

text \<open>
  The command line of the edge, \<open>EdgeCliConfig\<close> of \<open>crates/oxo-pingora-edge/src/lib.rs\<close>: the
  parser \<open>parse_flags\<close> and the printer \<open>to_edge_args\<close> with which the service runner hands its
  resolved configuration to the edge child; and the basic \<open>EdgeConfig\<close> with its worker set. An
  \<open>OsString\<close> or \<open>PathBuf\<close> is its bytes, one character per byte, and need not be UTF-8. The one
  large match of the parser is three definitions, consecutive groups of its arms in the source's
  order, each falling through to the next. The text of an argument error is a datatype with one
  constructor per format string.
\<close>

section \<open>Data\<close>

type_synonym os_string = string
type_synonym path = string

datatype arg_message =
    NotUtf8 string os_string
  | UnknownArgument string
  | TakesNoValue string
  | RequiresValue string
  | MustNotBeEmpty string
  | ExpectedSocketAddress string
  | ExpectedPort string
  | ExpectedByteCount string
  | OtherMessage string

datatype edge_error =
    NonLoopbackBind socket_addr
  | WorkerSocketMustBeAbsolute path
  | WorkerSocketMissingParent path
  | RuntimeDirUnavailable path string
  | RuntimeDirSymlink path
  | RuntimeDirNotDirectory path
  | RuntimeDirMode path u32
  | WorkerSocketSymlink path
  | WorkerSocketNotSocket path
  | WorkerSocketMode path u32
  | WorkerSocketUnavailable path string
  | TlsFileUnavailable string path string
  | TlsFileSymlink string path
  | TlsFileNotFile string path
  | TlsPrivateKeyMode path u32
  | TlsCertificateName path string string
  | ZeroMaxBody
  | NoWorkersConfigured
  | UnsupportedPlatform
  | ConfigEnv string arg_message
  | Pingora string
  | Acme string

record edge_cli_config =
  ec_worker_sockets :: "path list"
  ec_max_body_bytes :: "u64 option"
  ec_http_bind :: "socket_addr option"
  ec_https_bind :: "socket_addr option"
  ec_fqdn :: "string option"
  ec_public_origin_port :: "u16 option"
  ec_tls_cert :: "path option"
  ec_tls_key :: "path option"
  ec_tls_h2 :: "bool option"
  ec_acme_state_path :: "path option"
  ec_acme_issue_once :: bool
  ec_acme_renew_once :: bool
  ec_acme_directory_url :: "string option"
  ec_acme_contacts :: "string list"
  ec_acme_accept_terms :: bool
  ec_acme_allow_production_directory :: bool
  ec_public_mode :: "string option"
  ec_public_identity :: "string option"
  ec_trusted_proxy_cidrs :: "string list"
  ec_max_in_flight_per_identity :: "u64 option"
  ec_max_in_flight_requests :: "u64 option"
  ec_header_read_timeout_ms :: "u64 option"
  ec_keepalive_idle_timeout_ms :: "u64 option"
  ec_max_connection_secs :: "u64 option"
  ec_long_lived_max_connections :: "u64 option"
  ec_long_lived_max_buffered_bytes :: "u64 option"
  ec_long_lived_downstream_write_timeout_ms :: "u64 option"
  ec_drain_grace_ms :: "u64 option"
  ec_admin_bind :: "socket_addr option"
  ec_action_cable_bind :: "socket_addr option"
  ec_grpc_bind :: "socket_addr option"
  ec_sse_enabled :: "bool option"
  ec_keepalive_enabled :: "bool option"
  ec_max_requests_per_connection :: "u64 option"
  ec_h2_max_concurrent_streams :: "u64 option"
  ec_h2_max_reset_streams :: "u64 option"
  ec_request_log :: "string option"
  ec_worker_hop :: "string option"
  ec_worker_dispatch :: "string option"
  ec_worker_cap :: "u64 option"
  ec_edge_threads :: "u64 option"
  ec_listener_tasks :: "u64 option"
  ec_static_mounts :: "string list"
  ec_static_rails_preset :: "path option"
  ec_serve_rails :: "path option"
  ec_prod_enabled :: "bool option"
  ec_check_config :: bool

definition default_cli :: edge_cli_config where
  "default_cli = \<lparr>
     ec_worker_sockets = [], ec_max_body_bytes = None, ec_http_bind = None,
     ec_https_bind = None, ec_fqdn = None, ec_public_origin_port = None,
     ec_tls_cert = None, ec_tls_key = None, ec_tls_h2 = None,
     ec_acme_state_path = None, ec_acme_issue_once = False, ec_acme_renew_once = False,
     ec_acme_directory_url = None, ec_acme_contacts = [], ec_acme_accept_terms = False,
     ec_acme_allow_production_directory = False, ec_public_mode = None, ec_public_identity = None,
     ec_trusted_proxy_cidrs = [], ec_max_in_flight_per_identity = None, ec_max_in_flight_requests = None,
     ec_header_read_timeout_ms = None, ec_keepalive_idle_timeout_ms = None, ec_max_connection_secs = None,
     ec_long_lived_max_connections = None, ec_long_lived_max_buffered_bytes = None, ec_long_lived_downstream_write_timeout_ms = None,
     ec_drain_grace_ms = None, ec_admin_bind = None, ec_action_cable_bind = None,
     ec_grpc_bind = None, ec_sse_enabled = None, ec_keepalive_enabled = None,
     ec_max_requests_per_connection = None, ec_h2_max_concurrent_streams = None, ec_h2_max_reset_streams = None,
     ec_request_log = None, ec_worker_hop = None, ec_worker_dispatch = None,
     ec_worker_cap = None, ec_edge_threads = None, ec_listener_tasks = None,
     ec_static_mounts = [], ec_static_rails_preset = None, ec_serve_rails = None,
     ec_prod_enabled = None, ec_check_config = False\<rparr>"

section \<open>Values\<close>

definition cli_utf8 :: "string \<Rightarrow> os_string \<Rightarrow> edge_error + string" where
  "cli_utf8 role v = (if rust_str v then Inr v else Inl (ConfigEnv ''argv'' (NotUtf8 role v)))"

definition reject_inline_value :: "string \<Rightarrow> os_string option \<Rightarrow> edge_error + unit" where
  "reject_inline_value flag inline =
     (if inline \<noteq> None then Inl (ConfigEnv ''argv'' (TakesNoValue flag)) else Inr ())"

definition take_cli_value ::
  "string \<Rightarrow> os_string option \<Rightarrow> os_string list \<Rightarrow> edge_error + (os_string \<times> os_string list)" where
  "take_cli_value flag inline args =
     (case inline of
        Some v \<Rightarrow> Inr (v, args)
      | None \<Rightarrow> (case args of v # rest \<Rightarrow> Inr (v, rest) | [] \<Rightarrow> Inl (ConfigEnv ''argv'' (RequiresValue flag))))"

definition cli_string_value :: "string \<Rightarrow> os_string \<Rightarrow> edge_error + string" where
  "cli_string_value flag v =
     and_then (cli_utf8 flag v) (\<lambda>v.
     if trim v = [] then Inl (ConfigEnv ''argv'' (MustNotBeEmpty flag)) else Inr v)"

definition parse_socket_arg :: "string \<Rightarrow> os_string \<Rightarrow> edge_error + socket_addr" where
  "parse_socket_arg flag v =
     and_then (cli_string_value flag v) (\<lambda>raw.
     ok_or (ConfigEnv ''argv'' (ExpectedSocketAddress flag)) (parse_socket_addr raw))"

definition parse_u16_arg :: "string \<Rightarrow> os_string \<Rightarrow> edge_error + u16" where
  "parse_u16_arg flag v =
     and_then (cli_string_value flag v) (\<lambda>raw.
     ok_or (ConfigEnv ''argv'' (ExpectedPort flag)) (map_option of_nat (parse_uint (2 ^ 16 - 1) raw)))"

definition parse_u64_arg :: "string \<Rightarrow> os_string \<Rightarrow> edge_error + u64" where
  "parse_u64_arg flag v =
     and_then (cli_string_value flag v) (\<lambda>raw.
     ok_or (ConfigEnv ''argv'' (ExpectedByteCount flag)) (map_option of_nat (parse_uint (2 ^ 64 - 1) raw)))"

definition os_path :: "string \<Rightarrow> os_string \<Rightarrow> edge_error + path" where
  "os_path flag v = Inr v"

section \<open>The parser\<close>

type_synonym arm_result = "edge_error + (edge_cli_config \<times> os_string list)"

definition switch_flag :: "string \<Rightarrow> os_string option \<Rightarrow> os_string list \<Rightarrow> edge_cli_config \<Rightarrow> arm_result" where
  "switch_flag flag inline args c = and_then (reject_inline_value flag inline) (\<lambda>_. Inr (c, args))"

definition value_flag ::
  "(string \<Rightarrow> os_string \<Rightarrow> edge_error + 'v) \<Rightarrow> string \<Rightarrow> os_string option \<Rightarrow> os_string list
     \<Rightarrow> ('v \<Rightarrow> edge_cli_config) \<Rightarrow> arm_result" where
  "value_flag parse flag inline args upd =
     and_then (take_cli_value flag inline args) (\<lambda>(v, rest).
     and_then (parse flag v) (\<lambda>x. Inr (upd x, rest)))"

definition parse_limit_flags :: "string \<Rightarrow> os_string option \<Rightarrow> os_string list \<Rightarrow> edge_cli_config \<Rightarrow> arm_result" where
  "parse_limit_flags flag inline args c =
     (if flag = ''--public-mode'' then
        value_flag cli_string_value flag inline args (\<lambda>v. c\<lparr>ec_public_mode := Some v\<rparr>)
      else if flag = ''--public-identity'' then
        value_flag cli_string_value flag inline args (\<lambda>v. c\<lparr>ec_public_identity := Some v\<rparr>)
      else if flag = ''--trusted-proxy-cidr'' then
        value_flag cli_string_value flag inline args (\<lambda>v. c\<lparr>ec_trusted_proxy_cidrs := ec_trusted_proxy_cidrs c @ [v]\<rparr>)
      else if flag = ''--max-in-flight-per-identity'' then
        value_flag parse_u64_arg flag inline args (\<lambda>v. c\<lparr>ec_max_in_flight_per_identity := Some v\<rparr>)
      else if flag = ''--max-in-flight-requests'' then
        value_flag parse_u64_arg flag inline args (\<lambda>v. c\<lparr>ec_max_in_flight_requests := Some v\<rparr>)
      else if flag = ''--header-read-timeout-ms'' then
        value_flag parse_u64_arg flag inline args (\<lambda>v. c\<lparr>ec_header_read_timeout_ms := Some v\<rparr>)
      else if flag = ''--keepalive-idle-timeout-ms'' then
        value_flag parse_u64_arg flag inline args (\<lambda>v. c\<lparr>ec_keepalive_idle_timeout_ms := Some v\<rparr>)
      else if flag = ''--max-connection-secs'' then
        value_flag parse_u64_arg flag inline args (\<lambda>v. c\<lparr>ec_max_connection_secs := Some v\<rparr>)
      else if flag = ''--long-lived-max-connections'' then
        value_flag parse_u64_arg flag inline args (\<lambda>v. c\<lparr>ec_long_lived_max_connections := Some v\<rparr>)
      else if flag = ''--long-lived-max-buffered-bytes'' then
        value_flag parse_u64_arg flag inline args (\<lambda>v. c\<lparr>ec_long_lived_max_buffered_bytes := Some v\<rparr>)
      else if flag = ''--long-lived-downstream-write-timeout-ms'' then
        value_flag parse_u64_arg flag inline args (\<lambda>v. c\<lparr>ec_long_lived_downstream_write_timeout_ms := Some v\<rparr>)
      else if flag = ''--drain-grace-ms'' then
        value_flag parse_u64_arg flag inline args (\<lambda>v. c\<lparr>ec_drain_grace_ms := Some v\<rparr>)
      else if flag = ''--admin-bind'' then
        value_flag parse_socket_arg flag inline args (\<lambda>v. c\<lparr>ec_admin_bind := Some v\<rparr>)
      else if flag = ''--action-cable-bind'' then
        value_flag parse_socket_arg flag inline args (\<lambda>v. c\<lparr>ec_action_cable_bind := Some v\<rparr>)
      else if flag = ''--grpc-bind'' then
        value_flag parse_socket_arg flag inline args (\<lambda>v. c\<lparr>ec_grpc_bind := Some v\<rparr>)
      else Inl (ConfigEnv ''argv'' (UnknownArgument flag)))"

definition parse_listener_flags :: "string \<Rightarrow> os_string option \<Rightarrow> os_string list \<Rightarrow> edge_cli_config \<Rightarrow> arm_result" where
  "parse_listener_flags flag inline args c =
     (if flag = ''--tls-h2'' then
        switch_flag flag inline args (c\<lparr>ec_tls_h2 := Some True\<rparr>)
      else if flag = ''--no-tls-h2'' then
        switch_flag flag inline args (c\<lparr>ec_tls_h2 := Some False\<rparr>)
      else if flag = ''--worker-socket'' then
        value_flag os_path flag inline args (\<lambda>v. c\<lparr>ec_worker_sockets := ec_worker_sockets c @ [v]\<rparr>)
      else if flag = ''--static-mount'' then
        value_flag cli_string_value flag inline args (\<lambda>v. c\<lparr>ec_static_mounts := ec_static_mounts c @ [v]\<rparr>)
      else if flag = ''--static-rails-preset'' then
        value_flag os_path flag inline args (\<lambda>v. c\<lparr>ec_static_rails_preset := Some v\<rparr>)
      else if flag = ''--max-body'' then
        value_flag parse_u64_arg flag inline args (\<lambda>v. c\<lparr>ec_max_body_bytes := Some v\<rparr>)
      else if flag = ''--http-bind'' then
        value_flag parse_socket_arg flag inline args (\<lambda>v. c\<lparr>ec_http_bind := Some v\<rparr>)
      else if flag = ''--https-bind'' then
        value_flag parse_socket_arg flag inline args (\<lambda>v. c\<lparr>ec_https_bind := Some v\<rparr>)
      else if flag = ''--fqdn'' then
        value_flag cli_string_value flag inline args (\<lambda>v. c\<lparr>ec_fqdn := Some v\<rparr>)
      else if flag = ''--public-origin-port'' then
        value_flag parse_u16_arg flag inline args (\<lambda>v. c\<lparr>ec_public_origin_port := Some v\<rparr>)
      else if flag = ''--tls-cert'' then
        value_flag os_path flag inline args (\<lambda>v. c\<lparr>ec_tls_cert := Some v\<rparr>)
      else if flag = ''--tls-key'' then
        value_flag os_path flag inline args (\<lambda>v. c\<lparr>ec_tls_key := Some v\<rparr>)
      else if flag = ''--acme-state-path'' then
        value_flag os_path flag inline args (\<lambda>v. c\<lparr>ec_acme_state_path := Some v\<rparr>)
      else if flag = ''--acme-issue-once'' then
        switch_flag flag inline args (c\<lparr>ec_acme_issue_once := True\<rparr>)
      else if flag = ''--acme-renew-once'' then
        switch_flag flag inline args (c\<lparr>ec_acme_renew_once := True\<rparr>)
      else if flag = ''--acme-directory-url'' then
        value_flag cli_string_value flag inline args (\<lambda>v. c\<lparr>ec_acme_directory_url := Some v\<rparr>)
      else if flag = ''--acme-contact'' then
        value_flag cli_string_value flag inline args (\<lambda>v. c\<lparr>ec_acme_contacts := ec_acme_contacts c @ [v]\<rparr>)
      else if flag = ''--acme-accept-terms'' then
        switch_flag flag inline args (c\<lparr>ec_acme_accept_terms := True\<rparr>)
      else if flag = ''--acme-allow-production-directory'' then
        switch_flag flag inline args (c\<lparr>ec_acme_allow_production_directory := True\<rparr>)
      else parse_limit_flags flag inline args c)"

definition parse_flag :: "string \<Rightarrow> os_string option \<Rightarrow> os_string list \<Rightarrow> edge_cli_config \<Rightarrow> arm_result" where
  "parse_flag flag inline args c =
     (if flag = ''--check-config'' then
        switch_flag flag inline args (c\<lparr>ec_check_config := True\<rparr>)
      else if flag = ''--sse'' then
        switch_flag flag inline args (c\<lparr>ec_sse_enabled := Some True\<rparr>)
      else if flag = ''--no-sse'' then
        switch_flag flag inline args (c\<lparr>ec_sse_enabled := Some False\<rparr>)
      else if flag = ''--serve-rails'' then
        value_flag os_path flag inline args (\<lambda>v. c\<lparr>ec_serve_rails := Some v\<rparr>)
      else if flag = ''--keepalive'' then
        switch_flag flag inline args (c\<lparr>ec_keepalive_enabled := Some True\<rparr>)
      else if flag = ''--no-keepalive'' then
        switch_flag flag inline args (c\<lparr>ec_keepalive_enabled := Some False\<rparr>)
      else if flag = ''--prod'' then
        switch_flag flag inline args (c\<lparr>ec_prod_enabled := Some True\<rparr>)
      else if flag = ''--no-prod'' then
        switch_flag flag inline args (c\<lparr>ec_prod_enabled := Some False\<rparr>)
      else if flag = ''--max-requests-per-connection'' then
        value_flag parse_u64_arg flag inline args (\<lambda>v. c\<lparr>ec_max_requests_per_connection := Some v\<rparr>)
      else if flag = ''--h2-max-concurrent-streams'' then
        value_flag parse_u64_arg flag inline args (\<lambda>v. c\<lparr>ec_h2_max_concurrent_streams := Some v\<rparr>)
      else if flag = ''--h2-max-reset-streams'' then
        value_flag parse_u64_arg flag inline args (\<lambda>v. c\<lparr>ec_h2_max_reset_streams := Some v\<rparr>)
      else if flag = ''--edge-threads'' then
        value_flag parse_u64_arg flag inline args (\<lambda>v. c\<lparr>ec_edge_threads := Some v\<rparr>)
      else if flag = ''--listener-tasks'' then
        value_flag parse_u64_arg flag inline args (\<lambda>v. c\<lparr>ec_listener_tasks := Some v\<rparr>)
      else if flag = ''--request-log'' then
        value_flag cli_string_value flag inline args (\<lambda>v. c\<lparr>ec_request_log := Some v\<rparr>)
      else if flag = ''--worker-hop'' then
        value_flag cli_string_value flag inline args (\<lambda>v. c\<lparr>ec_worker_hop := Some v\<rparr>)
      else if flag = ''--worker-dispatch'' then
        value_flag cli_string_value flag inline args (\<lambda>v. c\<lparr>ec_worker_dispatch := Some v\<rparr>)
      else if flag = ''--worker-cap'' then
        value_flag parse_u64_arg flag inline args (\<lambda>v. c\<lparr>ec_worker_cap := Some v\<rparr>)
      else parse_listener_flags flag inline args c)"

definition parse_arg :: "os_string \<Rightarrow> os_string list \<Rightarrow> edge_cli_config \<Rightarrow> arm_result" where
  "parse_arg arg args c =
     and_then (cli_utf8 ''flag'' arg) (\<lambda>raw.
     case split_once (CHR ''='') raw of
       Some (flag, v) \<Rightarrow> parse_flag flag (Some v) args c
     | None \<Rightarrow> parse_flag raw None args c)"

lemma switch_flag_args: "switch_flag flag inline args c = Inr (c', args') \<Longrightarrow> length args' \<le> length args"
  by (auto simp: switch_flag_def elim!: and_then_InrE)

lemma value_flag_args: "value_flag p flag inline args upd = Inr (c', args') \<Longrightarrow> length args' \<le> length args"
  by (auto simp: value_flag_def take_cli_value_def split: option.splits list.splits elim!: and_then_InrE)

lemmas arm_args = switch_flag_args value_flag_args

lemma parse_limit_flags_args:
  "parse_limit_flags flag inline args c = Inr (c', args') \<Longrightarrow> length args' \<le> length args"
  by (auto simp only: parse_limit_flags_def sum.distinct split: if_split_asm dest!: arm_args)

lemma parse_listener_flags_args:
  "parse_listener_flags flag inline args c = Inr (c', args') \<Longrightarrow> length args' \<le> length args"
  by (auto simp only: parse_listener_flags_def split: if_split_asm dest!: arm_args parse_limit_flags_args)

lemma parse_flag_args: "parse_flag flag inline args c = Inr (c', args') \<Longrightarrow> length args' \<le> length args"
  by (auto simp only: parse_flag_def split: if_split_asm dest!: arm_args parse_listener_flags_args)

lemma parse_arg_args: "parse_arg arg args c = Inr (c', args') \<Longrightarrow> length args' \<le> length args"
  by (auto simp: parse_arg_def split: option.splits elim!: and_then_InrE dest: parse_flag_args)

function parse_flags_loop :: "edge_cli_config \<Rightarrow> os_string list \<Rightarrow> edge_error + edge_cli_config" where
  "parse_flags_loop c [] = Inr c"
| "parse_flags_loop c (arg # args) =
     (case parse_arg arg args c of
        Inl e \<Rightarrow> Inl e
      | Inr (c', rest) \<Rightarrow> parse_flags_loop c' rest)"
  by pat_completeness auto
termination
  by (relation "measure (\<lambda>(c, args). length args)") (auto dest: parse_arg_args)

definition parse_flags :: "os_string list \<Rightarrow> edge_error + edge_cli_config" where
  "parse_flags flags = parse_flags_loop default_cli flags"

definition parse_from_args :: "os_string list \<Rightarrow> edge_error + edge_cli_config" where
  "parse_from_args args = parse_flags (drop 1 args)"

section \<open>The printer\<close>

definition push_arg :: "string \<Rightarrow> os_string \<Rightarrow> os_string list" where
  "push_arg flag v = [flag, v]"

definition push_some :: "string \<Rightarrow> ('v \<Rightarrow> os_string) \<Rightarrow> 'v option \<Rightarrow> os_string list" where
  "push_some flag show v = (case v of Some x \<Rightarrow> push_arg flag (show x) | None \<Rightarrow> [])"

definition push_each :: "string \<Rightarrow> os_string list \<Rightarrow> os_string list" where
  "push_each flag vs = concat (map (push_arg flag) vs)"

definition push_switch :: "string \<Rightarrow> bool \<Rightarrow> os_string list" where
  "push_switch flag b = (if b then [flag] else [])"

definition push_tri :: "string \<Rightarrow> string \<Rightarrow> bool option \<Rightarrow> os_string list" where
  "push_tri yes no v = (case v of Some True \<Rightarrow> [yes] | Some False \<Rightarrow> [no] | None \<Rightarrow> [])"

definition show_int :: "'w::len word \<Rightarrow> string" where
  "show_int w = to_string (unat w)"

definition os_string_of :: "string \<Rightarrow> os_string" where
  "os_string_of s = s"

definition listener_args :: "edge_cli_config \<Rightarrow> os_string list" where
  "listener_args c =
     push_each ''--worker-socket'' (ec_worker_sockets c) @
     push_some ''--max-body'' show_int (ec_max_body_bytes c) @
     push_some ''--http-bind'' show_socket_addr (ec_http_bind c) @
     push_some ''--https-bind'' show_socket_addr (ec_https_bind c) @
     push_some ''--fqdn'' os_string_of (ec_fqdn c) @
     push_some ''--public-origin-port'' show_int (ec_public_origin_port c) @
     push_some ''--tls-cert'' os_string_of (ec_tls_cert c) @
     push_some ''--tls-key'' os_string_of (ec_tls_key c) @
     push_tri ''--tls-h2'' ''--no-tls-h2'' (ec_tls_h2 c) @
     push_some ''--acme-state-path'' os_string_of (ec_acme_state_path c) @
     push_switch ''--acme-issue-once'' (ec_acme_issue_once c) @
     push_switch ''--acme-renew-once'' (ec_acme_renew_once c) @
     push_some ''--acme-directory-url'' os_string_of (ec_acme_directory_url c) @
     push_each ''--acme-contact'' (ec_acme_contacts c) @
     push_switch ''--acme-accept-terms'' (ec_acme_accept_terms c) @
     push_switch ''--acme-allow-production-directory'' (ec_acme_allow_production_directory c)"

definition limit_args :: "edge_cli_config \<Rightarrow> os_string list" where
  "limit_args c =
     push_some ''--public-mode'' os_string_of (ec_public_mode c) @
     push_some ''--public-identity'' os_string_of (ec_public_identity c) @
     push_each ''--trusted-proxy-cidr'' (ec_trusted_proxy_cidrs c) @
     push_some ''--max-in-flight-per-identity'' show_int (ec_max_in_flight_per_identity c) @
     push_some ''--max-in-flight-requests'' show_int (ec_max_in_flight_requests c) @
     push_some ''--header-read-timeout-ms'' show_int (ec_header_read_timeout_ms c) @
     push_some ''--keepalive-idle-timeout-ms'' show_int (ec_keepalive_idle_timeout_ms c) @
     push_some ''--max-connection-secs'' show_int (ec_max_connection_secs c) @
     push_some ''--long-lived-max-connections'' show_int (ec_long_lived_max_connections c) @
     push_some ''--long-lived-max-buffered-bytes'' show_int (ec_long_lived_max_buffered_bytes c) @
     push_some ''--long-lived-downstream-write-timeout-ms'' show_int (ec_long_lived_downstream_write_timeout_ms c) @
     push_some ''--drain-grace-ms'' show_int (ec_drain_grace_ms c) @
     push_some ''--admin-bind'' show_socket_addr (ec_admin_bind c) @
     push_some ''--action-cable-bind'' show_socket_addr (ec_action_cable_bind c) @
     push_some ''--grpc-bind'' show_socket_addr (ec_grpc_bind c)"

definition serving_args :: "edge_cli_config \<Rightarrow> os_string list" where
  "serving_args c =
     push_tri ''--sse'' ''--no-sse'' (ec_sse_enabled c) @
     push_tri ''--keepalive'' ''--no-keepalive'' (ec_keepalive_enabled c) @
     push_tri ''--prod'' ''--no-prod'' (ec_prod_enabled c) @
     push_some ''--max-requests-per-connection'' show_int (ec_max_requests_per_connection c) @
     push_some ''--h2-max-concurrent-streams'' show_int (ec_h2_max_concurrent_streams c) @
     push_some ''--h2-max-reset-streams'' show_int (ec_h2_max_reset_streams c) @
     push_some ''--edge-threads'' show_int (ec_edge_threads c) @
     push_some ''--listener-tasks'' show_int (ec_listener_tasks c) @
     push_some ''--request-log'' os_string_of (ec_request_log c) @
     push_some ''--worker-hop'' os_string_of (ec_worker_hop c) @
     push_some ''--worker-dispatch'' os_string_of (ec_worker_dispatch c) @
     push_some ''--worker-cap'' show_int (ec_worker_cap c) @
     push_each ''--static-mount'' (ec_static_mounts c) @
     push_some ''--static-rails-preset'' os_string_of (ec_static_rails_preset c) @
     push_some ''--serve-rails'' os_string_of (ec_serve_rails c) @
     push_switch ''--check-config'' (ec_check_config c)"

definition to_edge_args :: "edge_cli_config \<Rightarrow> os_string list" where
  "to_edge_args c = listener_args c @ limit_args c @ serving_args c"

section \<open>One flag\<close>

lemma parse_arg_plain:
  "ascii_str flag \<Longrightarrow> CHR ''='' \<notin> set flag \<Longrightarrow> parse_arg flag args c = parse_flag flag None args c"
  by (simp add: parse_arg_def cli_utf8_def ascii_rust_str split_once_None [THEN iffD2])

lemma flag_arms:
  "parse_arg ''--check-config'' args c =
     switch_flag ''--check-config'' None args (c\<lparr>ec_check_config := True\<rparr>)"
  "parse_arg ''--sse'' args c =
     switch_flag ''--sse'' None args (c\<lparr>ec_sse_enabled := Some True\<rparr>)"
  "parse_arg ''--no-sse'' args c =
     switch_flag ''--no-sse'' None args (c\<lparr>ec_sse_enabled := Some False\<rparr>)"
  "parse_arg ''--serve-rails'' args c =
     value_flag os_path ''--serve-rails'' None args (\<lambda>v. c\<lparr>ec_serve_rails := Some v\<rparr>)"
  "parse_arg ''--keepalive'' args c =
     switch_flag ''--keepalive'' None args (c\<lparr>ec_keepalive_enabled := Some True\<rparr>)"
  "parse_arg ''--no-keepalive'' args c =
     switch_flag ''--no-keepalive'' None args (c\<lparr>ec_keepalive_enabled := Some False\<rparr>)"
  "parse_arg ''--prod'' args c =
     switch_flag ''--prod'' None args (c\<lparr>ec_prod_enabled := Some True\<rparr>)"
  "parse_arg ''--no-prod'' args c =
     switch_flag ''--no-prod'' None args (c\<lparr>ec_prod_enabled := Some False\<rparr>)"
  "parse_arg ''--max-requests-per-connection'' args c =
     value_flag parse_u64_arg ''--max-requests-per-connection'' None args (\<lambda>v. c\<lparr>ec_max_requests_per_connection := Some v\<rparr>)"
  "parse_arg ''--h2-max-concurrent-streams'' args c =
     value_flag parse_u64_arg ''--h2-max-concurrent-streams'' None args (\<lambda>v. c\<lparr>ec_h2_max_concurrent_streams := Some v\<rparr>)"
  "parse_arg ''--h2-max-reset-streams'' args c =
     value_flag parse_u64_arg ''--h2-max-reset-streams'' None args (\<lambda>v. c\<lparr>ec_h2_max_reset_streams := Some v\<rparr>)"
  "parse_arg ''--edge-threads'' args c =
     value_flag parse_u64_arg ''--edge-threads'' None args (\<lambda>v. c\<lparr>ec_edge_threads := Some v\<rparr>)"
  "parse_arg ''--listener-tasks'' args c =
     value_flag parse_u64_arg ''--listener-tasks'' None args (\<lambda>v. c\<lparr>ec_listener_tasks := Some v\<rparr>)"
  "parse_arg ''--request-log'' args c =
     value_flag cli_string_value ''--request-log'' None args (\<lambda>v. c\<lparr>ec_request_log := Some v\<rparr>)"
  "parse_arg ''--worker-hop'' args c =
     value_flag cli_string_value ''--worker-hop'' None args (\<lambda>v. c\<lparr>ec_worker_hop := Some v\<rparr>)"
  "parse_arg ''--worker-dispatch'' args c =
     value_flag cli_string_value ''--worker-dispatch'' None args (\<lambda>v. c\<lparr>ec_worker_dispatch := Some v\<rparr>)"
  "parse_arg ''--worker-cap'' args c =
     value_flag parse_u64_arg ''--worker-cap'' None args (\<lambda>v. c\<lparr>ec_worker_cap := Some v\<rparr>)"
  "parse_arg ''--tls-h2'' args c =
     switch_flag ''--tls-h2'' None args (c\<lparr>ec_tls_h2 := Some True\<rparr>)"
  "parse_arg ''--no-tls-h2'' args c =
     switch_flag ''--no-tls-h2'' None args (c\<lparr>ec_tls_h2 := Some False\<rparr>)"
  "parse_arg ''--worker-socket'' args c =
     value_flag os_path ''--worker-socket'' None args (\<lambda>v. c\<lparr>ec_worker_sockets := ec_worker_sockets c @ [v]\<rparr>)"
  "parse_arg ''--static-mount'' args c =
     value_flag cli_string_value ''--static-mount'' None args (\<lambda>v. c\<lparr>ec_static_mounts := ec_static_mounts c @ [v]\<rparr>)"
  "parse_arg ''--static-rails-preset'' args c =
     value_flag os_path ''--static-rails-preset'' None args (\<lambda>v. c\<lparr>ec_static_rails_preset := Some v\<rparr>)"
  "parse_arg ''--max-body'' args c =
     value_flag parse_u64_arg ''--max-body'' None args (\<lambda>v. c\<lparr>ec_max_body_bytes := Some v\<rparr>)"
  "parse_arg ''--http-bind'' args c =
     value_flag parse_socket_arg ''--http-bind'' None args (\<lambda>v. c\<lparr>ec_http_bind := Some v\<rparr>)"
  "parse_arg ''--https-bind'' args c =
     value_flag parse_socket_arg ''--https-bind'' None args (\<lambda>v. c\<lparr>ec_https_bind := Some v\<rparr>)"
  "parse_arg ''--fqdn'' args c =
     value_flag cli_string_value ''--fqdn'' None args (\<lambda>v. c\<lparr>ec_fqdn := Some v\<rparr>)"
  "parse_arg ''--public-origin-port'' args c =
     value_flag parse_u16_arg ''--public-origin-port'' None args (\<lambda>v. c\<lparr>ec_public_origin_port := Some v\<rparr>)"
  "parse_arg ''--tls-cert'' args c =
     value_flag os_path ''--tls-cert'' None args (\<lambda>v. c\<lparr>ec_tls_cert := Some v\<rparr>)"
  "parse_arg ''--tls-key'' args c =
     value_flag os_path ''--tls-key'' None args (\<lambda>v. c\<lparr>ec_tls_key := Some v\<rparr>)"
  "parse_arg ''--acme-state-path'' args c =
     value_flag os_path ''--acme-state-path'' None args (\<lambda>v. c\<lparr>ec_acme_state_path := Some v\<rparr>)"
  "parse_arg ''--acme-issue-once'' args c =
     switch_flag ''--acme-issue-once'' None args (c\<lparr>ec_acme_issue_once := True\<rparr>)"
  "parse_arg ''--acme-renew-once'' args c =
     switch_flag ''--acme-renew-once'' None args (c\<lparr>ec_acme_renew_once := True\<rparr>)"
  "parse_arg ''--acme-directory-url'' args c =
     value_flag cli_string_value ''--acme-directory-url'' None args (\<lambda>v. c\<lparr>ec_acme_directory_url := Some v\<rparr>)"
  "parse_arg ''--acme-contact'' args c =
     value_flag cli_string_value ''--acme-contact'' None args (\<lambda>v. c\<lparr>ec_acme_contacts := ec_acme_contacts c @ [v]\<rparr>)"
  "parse_arg ''--acme-accept-terms'' args c =
     switch_flag ''--acme-accept-terms'' None args (c\<lparr>ec_acme_accept_terms := True\<rparr>)"
  "parse_arg ''--acme-allow-production-directory'' args c =
     switch_flag ''--acme-allow-production-directory'' None args (c\<lparr>ec_acme_allow_production_directory := True\<rparr>)"
  "parse_arg ''--public-mode'' args c =
     value_flag cli_string_value ''--public-mode'' None args (\<lambda>v. c\<lparr>ec_public_mode := Some v\<rparr>)"
  "parse_arg ''--public-identity'' args c =
     value_flag cli_string_value ''--public-identity'' None args (\<lambda>v. c\<lparr>ec_public_identity := Some v\<rparr>)"
  "parse_arg ''--trusted-proxy-cidr'' args c =
     value_flag cli_string_value ''--trusted-proxy-cidr'' None args (\<lambda>v. c\<lparr>ec_trusted_proxy_cidrs := ec_trusted_proxy_cidrs c @ [v]\<rparr>)"
  "parse_arg ''--max-in-flight-per-identity'' args c =
     value_flag parse_u64_arg ''--max-in-flight-per-identity'' None args (\<lambda>v. c\<lparr>ec_max_in_flight_per_identity := Some v\<rparr>)"
  "parse_arg ''--max-in-flight-requests'' args c =
     value_flag parse_u64_arg ''--max-in-flight-requests'' None args (\<lambda>v. c\<lparr>ec_max_in_flight_requests := Some v\<rparr>)"
  "parse_arg ''--header-read-timeout-ms'' args c =
     value_flag parse_u64_arg ''--header-read-timeout-ms'' None args (\<lambda>v. c\<lparr>ec_header_read_timeout_ms := Some v\<rparr>)"
  "parse_arg ''--keepalive-idle-timeout-ms'' args c =
     value_flag parse_u64_arg ''--keepalive-idle-timeout-ms'' None args (\<lambda>v. c\<lparr>ec_keepalive_idle_timeout_ms := Some v\<rparr>)"
  "parse_arg ''--max-connection-secs'' args c =
     value_flag parse_u64_arg ''--max-connection-secs'' None args (\<lambda>v. c\<lparr>ec_max_connection_secs := Some v\<rparr>)"
  "parse_arg ''--long-lived-max-connections'' args c =
     value_flag parse_u64_arg ''--long-lived-max-connections'' None args (\<lambda>v. c\<lparr>ec_long_lived_max_connections := Some v\<rparr>)"
  "parse_arg ''--long-lived-max-buffered-bytes'' args c =
     value_flag parse_u64_arg ''--long-lived-max-buffered-bytes'' None args (\<lambda>v. c\<lparr>ec_long_lived_max_buffered_bytes := Some v\<rparr>)"
  "parse_arg ''--long-lived-downstream-write-timeout-ms'' args c =
     value_flag parse_u64_arg ''--long-lived-downstream-write-timeout-ms'' None args (\<lambda>v. c\<lparr>ec_long_lived_downstream_write_timeout_ms := Some v\<rparr>)"
  "parse_arg ''--drain-grace-ms'' args c =
     value_flag parse_u64_arg ''--drain-grace-ms'' None args (\<lambda>v. c\<lparr>ec_drain_grace_ms := Some v\<rparr>)"
  "parse_arg ''--admin-bind'' args c =
     value_flag parse_socket_arg ''--admin-bind'' None args (\<lambda>v. c\<lparr>ec_admin_bind := Some v\<rparr>)"
  "parse_arg ''--action-cable-bind'' args c =
     value_flag parse_socket_arg ''--action-cable-bind'' None args (\<lambda>v. c\<lparr>ec_action_cable_bind := Some v\<rparr>)"
  "parse_arg ''--grpc-bind'' args c =
     value_flag parse_socket_arg ''--grpc-bind'' None args (\<lambda>v. c\<lparr>ec_grpc_bind := Some v\<rparr>)"
  by (simp_all add: parse_arg_plain ascii_str_def parse_flag_def parse_listener_flags_def parse_limit_flags_def)

section \<open>Values survive printing\<close>

definition str_ok :: "string \<Rightarrow> bool" where
  "str_ok s \<longleftrightarrow> rust_str s \<and> trim s \<noteq> []"

definition sock_ok :: "socket_addr \<Rightarrow> bool" where
  "sock_ok a \<longleftrightarrow> str_ok (show_socket_addr a) \<and> parse_socket_addr (show_socket_addr a) = Some a"

lemma graphic_str_ok:
  assumes "list_all (\<lambda>c. is_ascii_graphic (byte c)) s" and "s \<noteq> []"
  shows "str_ok s"
proof -
  have "ascii_str s"
    using assms by (auto simp: ascii_str_def list_all_iff is_ascii_graphic_def word_le_nat_alt unat_byte)
  moreover have "trim s = s"
    using assms by (intro trim_graphic) (auto simp: list_all_iff)
  ultimately show ?thesis using assms(2) ascii_rust_str by (simp add: str_ok_def)
qed

lemma digit_graphic: "is_ascii_digit b \<Longrightarrow> is_ascii_graphic b"
  by (auto simp: is_ascii_digit_def is_ascii_graphic_def word_le_nat_alt)

lemma sock_ok_v4: "sock_ok (SockV4 a p)"
proof -
  have "list_all (\<lambda>c. is_ascii_graphic (byte c)) (show_socket_addr (SockV4 a p))"
    using to_string_digits digit_graphic
    by (auto simp: show_ipv4_def list_all_iff is_ascii_graphic_def byte_def)
  then have "str_ok (show_socket_addr (SockV4 a p))"
    by (rule graphic_str_ok) (simp add: show_ipv4_def)
  then show ?thesis using parse_show_socket_v4 by (simp add: sock_ok_def)
qed

lemma to_string_str_ok: "str_ok (to_string n)"
  using to_string_digits digit_graphic by (intro graphic_str_ok) (auto simp: list_all_iff)

lemma cli_string_value_ok: "str_ok s \<Longrightarrow> cli_string_value flag s = Inr s"
  by (simp add: cli_string_value_def cli_utf8_def str_ok_def)

lemma parse_printed [simp]:
  "parse_u64_arg flag (show_int (x :: u64)) = Inr x"
  "parse_u16_arg flag (show_int (p :: u16)) = Inr p"
  "sock_ok a \<Longrightarrow> parse_socket_arg flag (show_socket_addr a) = Inr a"
  "str_ok s \<Longrightarrow> cli_string_value flag (os_string_of s) = Inr s"
  "os_path flag (os_string_of s) = Inr s"
proof -
  have "unat x \<le> 2 ^ 64 - 1" "unat p \<le> 2 ^ 16 - 1"
    using unsigned_less [of x, where 'a = nat] unsigned_less [of p, where 'a = nat] by simp_all
  then show "parse_u64_arg flag (show_int x) = Inr x" "parse_u16_arg flag (show_int p) = Inr p"
    by (simp_all add: parse_u64_arg_def parse_u16_arg_def show_int_def cli_string_value_ok to_string_str_ok
        parse_uint_to_string)
qed (simp_all add: parse_socket_arg_def sock_ok_def cli_string_value_ok os_string_of_def os_path_def)

lemma parse_flags_loop_step:
  "parse_arg arg args c = Inr (c', rest) \<Longrightarrow> parse_flags_loop c (arg # args) = parse_flags_loop c' rest"
  by simp

lemma value_flag_next [simp]:
  "parse flag v = Inr x \<Longrightarrow> value_flag parse flag None (v # rest) upd = Inr (upd x, rest)"
  by (simp add: value_flag_def take_cli_value_def)

lemma switch_flag_plain [simp]: "switch_flag flag None args c = Inr (c, args)"
  by (simp add: switch_flag_def reject_inline_value_def)

lemma loop_push_some:
  assumes "\<And>x. v = Some x \<Longrightarrow> parse_arg flag (show x # rest) c = Inr (upd (Some x), rest)"
    and "v = None \<Longrightarrow> upd None = c"
  shows "parse_flags_loop c (push_some flag show v @ rest) = parse_flags_loop (upd v) rest"
  using assms by (cases v) (simp_all add: push_some_def push_arg_def)

lemma loop_push_switch:
  assumes "parse_arg flag rest c = Inr (upd True, rest)" and "upd False = c"
  shows "parse_flags_loop c (push_switch flag b @ rest) = parse_flags_loop (upd b) rest"
  using assms by (cases b) (simp_all add: push_switch_def)

lemma loop_push_tri:
  assumes "parse_arg yes rest c = Inr (upd (Some True), rest)"
    and "parse_arg no rest c = Inr (upd (Some False), rest)" and "upd None = c"
  shows "parse_flags_loop c (push_tri yes no v @ rest) = parse_flags_loop (upd v) rest"
  using assms by (auto simp: push_tri_def split: option.split bool.split)

lemma loop_push_each:
  assumes "\<And>x vs rest. x \<in> set xs \<Longrightarrow> parse_arg flag (x # rest) (upd vs) = Inr (upd (vs @ [x]), rest)"
  shows "parse_flags_loop (upd vs) (push_each flag xs @ rest) = parse_flags_loop (upd (vs @ xs)) rest"
  using assms
proof (induction xs arbitrary: vs)
  case (Cons x xs)
  have "parse_arg flag (x # concat (map (push_arg flag) xs) @ rest) (upd vs) =
      Inr (upd (vs @ [x]), concat (map (push_arg flag) xs) @ rest)"
    using Cons.prems by simp
  with Cons show ?case by (simp add: push_each_def push_arg_def)
qed (simp add: push_each_def)

lemma loop_push_all:
  assumes "\<And>x vs rest. x \<in> set xs \<Longrightarrow> parse_arg flag (x # rest) (upd vs) = Inr (upd (vs @ [x]), rest)"
    and "upd [] = c"
  shows "parse_flags_loop c (push_each flag xs @ rest) = parse_flags_loop (upd xs) rest"
  using loop_push_each [of xs flag upd "[]" rest] assms by simp

section \<open>The round trip\<close>

definition printable :: "edge_cli_config \<Rightarrow> bool" where
  "printable c \<longleftrightarrow>
     pred_option sock_ok (ec_http_bind c) \<and>
     pred_option sock_ok (ec_https_bind c) \<and>
     pred_option str_ok (ec_fqdn c) \<and>
     pred_option str_ok (ec_acme_directory_url c) \<and>
     list_all str_ok (ec_acme_contacts c) \<and>
     pred_option str_ok (ec_public_mode c) \<and>
     pred_option str_ok (ec_public_identity c) \<and>
     list_all str_ok (ec_trusted_proxy_cidrs c) \<and>
     pred_option sock_ok (ec_admin_bind c) \<and>
     pred_option sock_ok (ec_action_cable_bind c) \<and>
     pred_option sock_ok (ec_grpc_bind c) \<and>
     pred_option str_ok (ec_request_log c) \<and>
     pred_option str_ok (ec_worker_hop c) \<and>
     pred_option str_ok (ec_worker_dispatch c) \<and>
     list_all str_ok (ec_static_mounts c)"

lemma loop_max_body_bytes:
  "ec_max_body_bytes c = None \<Longrightarrow> parse_flags_loop c (push_some ''--max-body'' show_int v @ rest) =
     parse_flags_loop (c\<lparr>ec_max_body_bytes := v\<rparr>) rest"
  by (rule loop_push_some [where upd = "\<lambda>v. c\<lparr>ec_max_body_bytes := v\<rparr>"]) (simp_all add: flag_arms)

lemma loop_http_bind:
  "ec_http_bind c = None \<Longrightarrow> pred_option sock_ok v \<Longrightarrow> parse_flags_loop c (push_some ''--http-bind'' show_socket_addr v @ rest) =
     parse_flags_loop (c\<lparr>ec_http_bind := v\<rparr>) rest"
  by (rule loop_push_some [where upd = "\<lambda>v. c\<lparr>ec_http_bind := v\<rparr>"]) (simp_all add: flag_arms)

lemma loop_https_bind:
  "ec_https_bind c = None \<Longrightarrow> pred_option sock_ok v \<Longrightarrow> parse_flags_loop c (push_some ''--https-bind'' show_socket_addr v @ rest) =
     parse_flags_loop (c\<lparr>ec_https_bind := v\<rparr>) rest"
  by (rule loop_push_some [where upd = "\<lambda>v. c\<lparr>ec_https_bind := v\<rparr>"]) (simp_all add: flag_arms)

lemma loop_fqdn:
  "ec_fqdn c = None \<Longrightarrow> pred_option str_ok v \<Longrightarrow> parse_flags_loop c (push_some ''--fqdn'' os_string_of v @ rest) =
     parse_flags_loop (c\<lparr>ec_fqdn := v\<rparr>) rest"
  by (rule loop_push_some [where upd = "\<lambda>v. c\<lparr>ec_fqdn := v\<rparr>"]) (simp_all add: flag_arms)

lemma loop_public_origin_port:
  "ec_public_origin_port c = None \<Longrightarrow> parse_flags_loop c (push_some ''--public-origin-port'' show_int v @ rest) =
     parse_flags_loop (c\<lparr>ec_public_origin_port := v\<rparr>) rest"
  by (rule loop_push_some [where upd = "\<lambda>v. c\<lparr>ec_public_origin_port := v\<rparr>"]) (simp_all add: flag_arms)

lemma loop_tls_cert:
  "ec_tls_cert c = None \<Longrightarrow> parse_flags_loop c (push_some ''--tls-cert'' os_string_of v @ rest) =
     parse_flags_loop (c\<lparr>ec_tls_cert := v\<rparr>) rest"
  by (rule loop_push_some [where upd = "\<lambda>v. c\<lparr>ec_tls_cert := v\<rparr>"]) (simp_all add: flag_arms)

lemma loop_tls_key:
  "ec_tls_key c = None \<Longrightarrow> parse_flags_loop c (push_some ''--tls-key'' os_string_of v @ rest) =
     parse_flags_loop (c\<lparr>ec_tls_key := v\<rparr>) rest"
  by (rule loop_push_some [where upd = "\<lambda>v. c\<lparr>ec_tls_key := v\<rparr>"]) (simp_all add: flag_arms)

lemma loop_acme_state_path:
  "ec_acme_state_path c = None \<Longrightarrow> parse_flags_loop c (push_some ''--acme-state-path'' os_string_of v @ rest) =
     parse_flags_loop (c\<lparr>ec_acme_state_path := v\<rparr>) rest"
  by (rule loop_push_some [where upd = "\<lambda>v. c\<lparr>ec_acme_state_path := v\<rparr>"]) (simp_all add: flag_arms)

lemma loop_acme_directory_url:
  "ec_acme_directory_url c = None \<Longrightarrow> pred_option str_ok v \<Longrightarrow> parse_flags_loop c (push_some ''--acme-directory-url'' os_string_of v @ rest) =
     parse_flags_loop (c\<lparr>ec_acme_directory_url := v\<rparr>) rest"
  by (rule loop_push_some [where upd = "\<lambda>v. c\<lparr>ec_acme_directory_url := v\<rparr>"]) (simp_all add: flag_arms)

lemma loop_public_mode:
  "ec_public_mode c = None \<Longrightarrow> pred_option str_ok v \<Longrightarrow> parse_flags_loop c (push_some ''--public-mode'' os_string_of v @ rest) =
     parse_flags_loop (c\<lparr>ec_public_mode := v\<rparr>) rest"
  by (rule loop_push_some [where upd = "\<lambda>v. c\<lparr>ec_public_mode := v\<rparr>"]) (simp_all add: flag_arms)

lemma loop_public_identity:
  "ec_public_identity c = None \<Longrightarrow> pred_option str_ok v \<Longrightarrow> parse_flags_loop c (push_some ''--public-identity'' os_string_of v @ rest) =
     parse_flags_loop (c\<lparr>ec_public_identity := v\<rparr>) rest"
  by (rule loop_push_some [where upd = "\<lambda>v. c\<lparr>ec_public_identity := v\<rparr>"]) (simp_all add: flag_arms)

lemma loop_max_in_flight_per_identity:
  "ec_max_in_flight_per_identity c = None \<Longrightarrow> parse_flags_loop c (push_some ''--max-in-flight-per-identity'' show_int v @ rest) =
     parse_flags_loop (c\<lparr>ec_max_in_flight_per_identity := v\<rparr>) rest"
  by (rule loop_push_some [where upd = "\<lambda>v. c\<lparr>ec_max_in_flight_per_identity := v\<rparr>"]) (simp_all add: flag_arms)

lemma loop_max_in_flight_requests:
  "ec_max_in_flight_requests c = None \<Longrightarrow> parse_flags_loop c (push_some ''--max-in-flight-requests'' show_int v @ rest) =
     parse_flags_loop (c\<lparr>ec_max_in_flight_requests := v\<rparr>) rest"
  by (rule loop_push_some [where upd = "\<lambda>v. c\<lparr>ec_max_in_flight_requests := v\<rparr>"]) (simp_all add: flag_arms)

lemma loop_header_read_timeout_ms:
  "ec_header_read_timeout_ms c = None \<Longrightarrow> parse_flags_loop c (push_some ''--header-read-timeout-ms'' show_int v @ rest) =
     parse_flags_loop (c\<lparr>ec_header_read_timeout_ms := v\<rparr>) rest"
  by (rule loop_push_some [where upd = "\<lambda>v. c\<lparr>ec_header_read_timeout_ms := v\<rparr>"]) (simp_all add: flag_arms)

lemma loop_keepalive_idle_timeout_ms:
  "ec_keepalive_idle_timeout_ms c = None \<Longrightarrow> parse_flags_loop c (push_some ''--keepalive-idle-timeout-ms'' show_int v @ rest) =
     parse_flags_loop (c\<lparr>ec_keepalive_idle_timeout_ms := v\<rparr>) rest"
  by (rule loop_push_some [where upd = "\<lambda>v. c\<lparr>ec_keepalive_idle_timeout_ms := v\<rparr>"]) (simp_all add: flag_arms)

lemma loop_max_connection_secs:
  "ec_max_connection_secs c = None \<Longrightarrow> parse_flags_loop c (push_some ''--max-connection-secs'' show_int v @ rest) =
     parse_flags_loop (c\<lparr>ec_max_connection_secs := v\<rparr>) rest"
  by (rule loop_push_some [where upd = "\<lambda>v. c\<lparr>ec_max_connection_secs := v\<rparr>"]) (simp_all add: flag_arms)

lemma loop_long_lived_max_connections:
  "ec_long_lived_max_connections c = None \<Longrightarrow> parse_flags_loop c (push_some ''--long-lived-max-connections'' show_int v @ rest) =
     parse_flags_loop (c\<lparr>ec_long_lived_max_connections := v\<rparr>) rest"
  by (rule loop_push_some [where upd = "\<lambda>v. c\<lparr>ec_long_lived_max_connections := v\<rparr>"]) (simp_all add: flag_arms)

lemma loop_long_lived_max_buffered_bytes:
  "ec_long_lived_max_buffered_bytes c = None \<Longrightarrow> parse_flags_loop c (push_some ''--long-lived-max-buffered-bytes'' show_int v @ rest) =
     parse_flags_loop (c\<lparr>ec_long_lived_max_buffered_bytes := v\<rparr>) rest"
  by (rule loop_push_some [where upd = "\<lambda>v. c\<lparr>ec_long_lived_max_buffered_bytes := v\<rparr>"]) (simp_all add: flag_arms)

lemma loop_long_lived_downstream_write_timeout_ms:
  "ec_long_lived_downstream_write_timeout_ms c = None \<Longrightarrow> parse_flags_loop c (push_some ''--long-lived-downstream-write-timeout-ms'' show_int v @ rest) =
     parse_flags_loop (c\<lparr>ec_long_lived_downstream_write_timeout_ms := v\<rparr>) rest"
  by (rule loop_push_some [where upd = "\<lambda>v. c\<lparr>ec_long_lived_downstream_write_timeout_ms := v\<rparr>"]) (simp_all add: flag_arms)

lemma loop_drain_grace_ms:
  "ec_drain_grace_ms c = None \<Longrightarrow> parse_flags_loop c (push_some ''--drain-grace-ms'' show_int v @ rest) =
     parse_flags_loop (c\<lparr>ec_drain_grace_ms := v\<rparr>) rest"
  by (rule loop_push_some [where upd = "\<lambda>v. c\<lparr>ec_drain_grace_ms := v\<rparr>"]) (simp_all add: flag_arms)

lemma loop_admin_bind:
  "ec_admin_bind c = None \<Longrightarrow> pred_option sock_ok v \<Longrightarrow> parse_flags_loop c (push_some ''--admin-bind'' show_socket_addr v @ rest) =
     parse_flags_loop (c\<lparr>ec_admin_bind := v\<rparr>) rest"
  by (rule loop_push_some [where upd = "\<lambda>v. c\<lparr>ec_admin_bind := v\<rparr>"]) (simp_all add: flag_arms)

lemma loop_action_cable_bind:
  "ec_action_cable_bind c = None \<Longrightarrow> pred_option sock_ok v \<Longrightarrow> parse_flags_loop c (push_some ''--action-cable-bind'' show_socket_addr v @ rest) =
     parse_flags_loop (c\<lparr>ec_action_cable_bind := v\<rparr>) rest"
  by (rule loop_push_some [where upd = "\<lambda>v. c\<lparr>ec_action_cable_bind := v\<rparr>"]) (simp_all add: flag_arms)

lemma loop_grpc_bind:
  "ec_grpc_bind c = None \<Longrightarrow> pred_option sock_ok v \<Longrightarrow> parse_flags_loop c (push_some ''--grpc-bind'' show_socket_addr v @ rest) =
     parse_flags_loop (c\<lparr>ec_grpc_bind := v\<rparr>) rest"
  by (rule loop_push_some [where upd = "\<lambda>v. c\<lparr>ec_grpc_bind := v\<rparr>"]) (simp_all add: flag_arms)

lemma loop_max_requests_per_connection:
  "ec_max_requests_per_connection c = None \<Longrightarrow> parse_flags_loop c (push_some ''--max-requests-per-connection'' show_int v @ rest) =
     parse_flags_loop (c\<lparr>ec_max_requests_per_connection := v\<rparr>) rest"
  by (rule loop_push_some [where upd = "\<lambda>v. c\<lparr>ec_max_requests_per_connection := v\<rparr>"]) (simp_all add: flag_arms)

lemma loop_h2_max_concurrent_streams:
  "ec_h2_max_concurrent_streams c = None \<Longrightarrow> parse_flags_loop c (push_some ''--h2-max-concurrent-streams'' show_int v @ rest) =
     parse_flags_loop (c\<lparr>ec_h2_max_concurrent_streams := v\<rparr>) rest"
  by (rule loop_push_some [where upd = "\<lambda>v. c\<lparr>ec_h2_max_concurrent_streams := v\<rparr>"]) (simp_all add: flag_arms)

lemma loop_h2_max_reset_streams:
  "ec_h2_max_reset_streams c = None \<Longrightarrow> parse_flags_loop c (push_some ''--h2-max-reset-streams'' show_int v @ rest) =
     parse_flags_loop (c\<lparr>ec_h2_max_reset_streams := v\<rparr>) rest"
  by (rule loop_push_some [where upd = "\<lambda>v. c\<lparr>ec_h2_max_reset_streams := v\<rparr>"]) (simp_all add: flag_arms)

lemma loop_request_log:
  "ec_request_log c = None \<Longrightarrow> pred_option str_ok v \<Longrightarrow> parse_flags_loop c (push_some ''--request-log'' os_string_of v @ rest) =
     parse_flags_loop (c\<lparr>ec_request_log := v\<rparr>) rest"
  by (rule loop_push_some [where upd = "\<lambda>v. c\<lparr>ec_request_log := v\<rparr>"]) (simp_all add: flag_arms)

lemma loop_worker_hop:
  "ec_worker_hop c = None \<Longrightarrow> pred_option str_ok v \<Longrightarrow> parse_flags_loop c (push_some ''--worker-hop'' os_string_of v @ rest) =
     parse_flags_loop (c\<lparr>ec_worker_hop := v\<rparr>) rest"
  by (rule loop_push_some [where upd = "\<lambda>v. c\<lparr>ec_worker_hop := v\<rparr>"]) (simp_all add: flag_arms)

lemma loop_worker_dispatch:
  "ec_worker_dispatch c = None \<Longrightarrow> pred_option str_ok v \<Longrightarrow> parse_flags_loop c (push_some ''--worker-dispatch'' os_string_of v @ rest) =
     parse_flags_loop (c\<lparr>ec_worker_dispatch := v\<rparr>) rest"
  by (rule loop_push_some [where upd = "\<lambda>v. c\<lparr>ec_worker_dispatch := v\<rparr>"]) (simp_all add: flag_arms)

lemma loop_worker_cap:
  "ec_worker_cap c = None \<Longrightarrow> parse_flags_loop c (push_some ''--worker-cap'' show_int v @ rest) =
     parse_flags_loop (c\<lparr>ec_worker_cap := v\<rparr>) rest"
  by (rule loop_push_some [where upd = "\<lambda>v. c\<lparr>ec_worker_cap := v\<rparr>"]) (simp_all add: flag_arms)

lemma loop_edge_threads:
  "ec_edge_threads c = None \<Longrightarrow> parse_flags_loop c (push_some ''--edge-threads'' show_int v @ rest) =
     parse_flags_loop (c\<lparr>ec_edge_threads := v\<rparr>) rest"
  by (rule loop_push_some [where upd = "\<lambda>v. c\<lparr>ec_edge_threads := v\<rparr>"]) (simp_all add: flag_arms)

lemma loop_listener_tasks:
  "ec_listener_tasks c = None \<Longrightarrow> parse_flags_loop c (push_some ''--listener-tasks'' show_int v @ rest) =
     parse_flags_loop (c\<lparr>ec_listener_tasks := v\<rparr>) rest"
  by (rule loop_push_some [where upd = "\<lambda>v. c\<lparr>ec_listener_tasks := v\<rparr>"]) (simp_all add: flag_arms)

lemma loop_static_rails_preset:
  "ec_static_rails_preset c = None \<Longrightarrow> parse_flags_loop c (push_some ''--static-rails-preset'' os_string_of v @ rest) =
     parse_flags_loop (c\<lparr>ec_static_rails_preset := v\<rparr>) rest"
  by (rule loop_push_some [where upd = "\<lambda>v. c\<lparr>ec_static_rails_preset := v\<rparr>"]) (simp_all add: flag_arms)

lemma loop_serve_rails:
  "ec_serve_rails c = None \<Longrightarrow> parse_flags_loop c (push_some ''--serve-rails'' os_string_of v @ rest) =
     parse_flags_loop (c\<lparr>ec_serve_rails := v\<rparr>) rest"
  by (rule loop_push_some [where upd = "\<lambda>v. c\<lparr>ec_serve_rails := v\<rparr>"]) (simp_all add: flag_arms)

lemma loop_acme_issue_once:
  "\<not> ec_acme_issue_once c \<Longrightarrow> parse_flags_loop c (push_switch ''--acme-issue-once'' v @ rest) =
     parse_flags_loop (c\<lparr>ec_acme_issue_once := v\<rparr>) rest"
  by (rule loop_push_switch [where upd = "\<lambda>v. c\<lparr>ec_acme_issue_once := v\<rparr>"]) (simp_all add: flag_arms)

lemma loop_acme_renew_once:
  "\<not> ec_acme_renew_once c \<Longrightarrow> parse_flags_loop c (push_switch ''--acme-renew-once'' v @ rest) =
     parse_flags_loop (c\<lparr>ec_acme_renew_once := v\<rparr>) rest"
  by (rule loop_push_switch [where upd = "\<lambda>v. c\<lparr>ec_acme_renew_once := v\<rparr>"]) (simp_all add: flag_arms)

lemma loop_acme_accept_terms:
  "\<not> ec_acme_accept_terms c \<Longrightarrow> parse_flags_loop c (push_switch ''--acme-accept-terms'' v @ rest) =
     parse_flags_loop (c\<lparr>ec_acme_accept_terms := v\<rparr>) rest"
  by (rule loop_push_switch [where upd = "\<lambda>v. c\<lparr>ec_acme_accept_terms := v\<rparr>"]) (simp_all add: flag_arms)

lemma loop_acme_allow_production_directory:
  "\<not> ec_acme_allow_production_directory c \<Longrightarrow> parse_flags_loop c (push_switch ''--acme-allow-production-directory'' v @ rest) =
     parse_flags_loop (c\<lparr>ec_acme_allow_production_directory := v\<rparr>) rest"
  by (rule loop_push_switch [where upd = "\<lambda>v. c\<lparr>ec_acme_allow_production_directory := v\<rparr>"]) (simp_all add: flag_arms)

lemma loop_check_config:
  "\<not> ec_check_config c \<Longrightarrow> parse_flags_loop c (push_switch ''--check-config'' v @ rest) =
     parse_flags_loop (c\<lparr>ec_check_config := v\<rparr>) rest"
  by (rule loop_push_switch [where upd = "\<lambda>v. c\<lparr>ec_check_config := v\<rparr>"]) (simp_all add: flag_arms)

lemma loop_tls_h2:
  "ec_tls_h2 c = None \<Longrightarrow> parse_flags_loop c (push_tri ''--tls-h2'' ''--no-tls-h2'' v @ rest) =
     parse_flags_loop (c\<lparr>ec_tls_h2 := v\<rparr>) rest"
  by (rule loop_push_tri [where upd = "\<lambda>v. c\<lparr>ec_tls_h2 := v\<rparr>"]) (simp_all add: flag_arms)

lemma loop_sse_enabled:
  "ec_sse_enabled c = None \<Longrightarrow> parse_flags_loop c (push_tri ''--sse'' ''--no-sse'' v @ rest) =
     parse_flags_loop (c\<lparr>ec_sse_enabled := v\<rparr>) rest"
  by (rule loop_push_tri [where upd = "\<lambda>v. c\<lparr>ec_sse_enabled := v\<rparr>"]) (simp_all add: flag_arms)

lemma loop_keepalive_enabled:
  "ec_keepalive_enabled c = None \<Longrightarrow> parse_flags_loop c (push_tri ''--keepalive'' ''--no-keepalive'' v @ rest) =
     parse_flags_loop (c\<lparr>ec_keepalive_enabled := v\<rparr>) rest"
  by (rule loop_push_tri [where upd = "\<lambda>v. c\<lparr>ec_keepalive_enabled := v\<rparr>"]) (simp_all add: flag_arms)

lemma loop_prod_enabled:
  "ec_prod_enabled c = None \<Longrightarrow> parse_flags_loop c (push_tri ''--prod'' ''--no-prod'' v @ rest) =
     parse_flags_loop (c\<lparr>ec_prod_enabled := v\<rparr>) rest"
  by (rule loop_push_tri [where upd = "\<lambda>v. c\<lparr>ec_prod_enabled := v\<rparr>"]) (simp_all add: flag_arms)

lemma loop_worker_sockets:
  "ec_worker_sockets c = [] \<Longrightarrow> parse_flags_loop c (push_each ''--worker-socket'' v @ rest) =
     parse_flags_loop (c\<lparr>ec_worker_sockets := v\<rparr>) rest"
  by (rule loop_push_all [where upd = "\<lambda>v. c\<lparr>ec_worker_sockets := v\<rparr>"])
    (simp_all add: flag_arms list_all_iff os_path_def cli_string_value_ok)

lemma loop_acme_contacts:
  "ec_acme_contacts c = [] \<Longrightarrow> list_all str_ok v \<Longrightarrow> parse_flags_loop c (push_each ''--acme-contact'' v @ rest) =
     parse_flags_loop (c\<lparr>ec_acme_contacts := v\<rparr>) rest"
  by (rule loop_push_all [where upd = "\<lambda>v. c\<lparr>ec_acme_contacts := v\<rparr>"])
    (simp_all add: flag_arms list_all_iff os_path_def cli_string_value_ok)

lemma loop_trusted_proxy_cidrs:
  "ec_trusted_proxy_cidrs c = [] \<Longrightarrow> list_all str_ok v \<Longrightarrow> parse_flags_loop c (push_each ''--trusted-proxy-cidr'' v @ rest) =
     parse_flags_loop (c\<lparr>ec_trusted_proxy_cidrs := v\<rparr>) rest"
  by (rule loop_push_all [where upd = "\<lambda>v. c\<lparr>ec_trusted_proxy_cidrs := v\<rparr>"])
    (simp_all add: flag_arms list_all_iff os_path_def cli_string_value_ok)

lemma loop_static_mounts:
  "ec_static_mounts c = [] \<Longrightarrow> list_all str_ok v \<Longrightarrow> parse_flags_loop c (push_each ''--static-mount'' v @ rest) =
     parse_flags_loop (c\<lparr>ec_static_mounts := v\<rparr>) rest"
  by (rule loop_push_all [where upd = "\<lambda>v. c\<lparr>ec_static_mounts := v\<rparr>"])
    (simp_all add: flag_arms list_all_iff os_path_def cli_string_value_ok)

lemmas loop_fields =
  loop_worker_sockets loop_max_body_bytes loop_http_bind loop_https_bind
  loop_fqdn loop_public_origin_port loop_tls_cert loop_tls_key
  loop_tls_h2 loop_acme_state_path loop_acme_issue_once loop_acme_renew_once
  loop_acme_directory_url loop_acme_contacts loop_acme_accept_terms loop_acme_allow_production_directory
  loop_public_mode loop_public_identity loop_trusted_proxy_cidrs loop_max_in_flight_per_identity
  loop_max_in_flight_requests loop_header_read_timeout_ms loop_keepalive_idle_timeout_ms loop_max_connection_secs
  loop_long_lived_max_connections loop_long_lived_max_buffered_bytes loop_long_lived_downstream_write_timeout_ms loop_drain_grace_ms
  loop_admin_bind loop_action_cable_bind loop_grpc_bind loop_sse_enabled
  loop_keepalive_enabled loop_prod_enabled loop_max_requests_per_connection loop_h2_max_concurrent_streams
  loop_h2_max_reset_streams loop_edge_threads loop_listener_tasks loop_request_log
  loop_worker_hop loop_worker_dispatch loop_worker_cap loop_static_mounts
  loop_static_rails_preset loop_serve_rails loop_check_config

lemma parse_edge_args:
  assumes "printable c"
  shows "parse_from_args (program # to_edge_args c) = Inr c"
proof -
  note last = loop_check_config [where rest = "[]", unfolded append_Nil2]
  have "parse_flags_loop default_cli (listener_args c @ limit_args c @ serving_args c) = Inr c"
    using assms unfolding printable_def listener_args_def limit_args_def serving_args_def append_assoc
    by (simp add: loop_fields last default_cli_def)
  then show ?thesis by (simp add: parse_from_args_def parse_flags_def to_edge_args_def)
qed

text \<open>
  C28: Every configuration survives the hop from the service runner to the edge child: parsing the
  arguments printed for a configuration succeeds and gives back the same configuration, whatever
  subset of the 47 settings is present, provided its string settings are non-blank UTF-8 and its
  socket addresses have a textual form (which every IPv4 socket address has).
\<close>
theorem cli_round_trip:
  assumes "printable c"
  shows "parse_from_args (program # to_edge_args c) = Inr c"
  using assms by (rule parse_edge_args)

definition sample_cli :: edge_cli_config where
  "sample_cli = default_cli\<lparr>ec_worker_sockets := [''/run/oxo/w0.sock'', ''/run/oxo/w1.sock''],
     ec_http_bind := Some (SockV4 0x7F000001 8080), ec_fqdn := Some ''shop.example'',
     ec_sse_enabled := Some False, ec_max_body_bytes := Some 1048576, ec_check_config := True\<rparr>"

theorem cli_round_trip_witness:
  "parse_from_args (''oxo-edge'' # to_edge_args sample_cli) = Inr sample_cli"
proof -
  have "str_ok ''shop.example''"
    by (rule graphic_str_ok) (simp_all add: is_ascii_graphic_def byte_def)
  then have "printable sample_cli"
    by (simp add: printable_def sample_cli_def default_cli_def sock_ok_v4)
  then show ?thesis by (rule cli_round_trip)
qed

end
