(* ===== verification/Edge_Config.thy ===== *)
theory Edge_Config
  imports Edge_Cli
begin

text \<open>
  The checks on worker sockets and TLS files of \<open>crates/oxo-pingora-edge/src/platform/fs_validate.rs\<close>,
  and \<open>EdgeConfig\<close> and \<open>WorkerSet\<close> of \<open>crates/oxo-pingora-edge/src/lib.rs\<close>. The file system is an
  argument: \<open>symlink_metadata\<close> of a path is the file's type and mode or an I/O error. The parent
  of a path is the one \<open>std::path::Path::parent\<close> computes for an absolute path: repeated slashes,
  a trailing slash and dot components are not components.
\<close>

unbundle bit_operations_syntax

section \<open>Files\<close>

datatype file_type = FtFile | FtDir | FtSymlink | FtSocket | FtOther

record metadata =
  md_file_type :: file_type
  md_mode :: u32

datatype io_error = NotFound string | OtherIo string

type_synonym file_system = "path \<Rightarrow> io_error + metadata"

fun io_message :: "io_error \<Rightarrow> string" where
  "io_message (NotFound m) = m"
| "io_message (OtherIo m) = m"

definition is_absolute :: "path \<Rightarrow> bool" where
  "is_absolute p \<longleftrightarrow> starts_with p ''/''"

definition no_component :: "string \<Rightarrow> bool" where
  "no_component s \<longleftrightarrow> s = [] \<or> s = ''.''"

definition trim_components :: "string list \<Rightarrow> string list" where
  "trim_components ps = rev (dropWhile no_component (rev ps))"

definition join_path :: "string list \<Rightarrow> path" where
  "join_path ps = (if ps = [] then ''/'' else concat (map (\<lambda>p. CHR ''/'' # p) ps))"

definition path_parent :: "path \<Rightarrow> path option" where
  "path_parent p =
     (let ps = trim_components (tl (split_on (CHR ''/'') p)) in
      if ps = [] then None else Some (join_path (trim_components (butlast ps))))"

definition validate_runtime_dir :: "file_system \<Rightarrow> path \<Rightarrow> edge_error + unit" where
  "validate_runtime_dir fs path =
     and_then (map_err (\<lambda>err. RuntimeDirUnavailable path (io_message err)) (fs path)) (\<lambda>md.
     if md_file_type md = FtSymlink then Inl (RuntimeDirSymlink path)
     else if md_file_type md \<noteq> FtDir then Inl (RuntimeDirNotDirectory path)
     else
       (let mode = md_mode md AND 0x1FF in
        if mode \<noteq> 0x1C0 then Inl (RuntimeDirMode path mode) else Inr ()))"

definition validate_tls_file :: "file_system \<Rightarrow> string \<Rightarrow> path \<Rightarrow> bool \<Rightarrow> edge_error + unit" where
  "validate_tls_file fs role path private_key =
     and_then (map_err (\<lambda>err. TlsFileUnavailable role path (io_message err)) (fs path)) (\<lambda>md.
     if md_file_type md = FtSymlink then Inl (TlsFileSymlink role path)
     else if md_file_type md \<noteq> FtFile then Inl (TlsFileNotFile role path)
     else if private_key then
       (let mode = md_mode md AND 0x1FF in
        if mode AND 0x3F \<noteq> 0 then Inl (TlsPrivateKeyMode path mode) else Inr ())
     else Inr ())"

definition validate_socket_if_present :: "file_system \<Rightarrow> path \<Rightarrow> edge_error + unit" where
  "validate_socket_if_present fs path =
     (case fs path of
        Inl (NotFound _) \<Rightarrow> Inr ()
      | Inl err \<Rightarrow> Inl (WorkerSocketUnavailable path (io_message err))
      | Inr md \<Rightarrow>
          if md_file_type md = FtSymlink then Inl (WorkerSocketSymlink path)
          else if md_file_type md \<noteq> FtSocket then Inl (WorkerSocketNotSocket path)
          else
            (let mode = md_mode md AND 0x1FF in
             if mode \<noteq> 0x180 then Inl (WorkerSocketMode path mode) else Inr ()))"

definition validate_worker_socket_path :: "file_system \<Rightarrow> path \<Rightarrow> edge_error + unit" where
  "validate_worker_socket_path fs path =
     (if \<not> is_absolute path then Inl (WorkerSocketMustBeAbsolute path)
      else
        and_then (ok_or (WorkerSocketMissingParent path)
          (Option.bind (path_parent path) (\<lambda>p. if p = [] then None else Some p))) (\<lambda>parent.
        and_then (validate_runtime_dir fs parent) (\<lambda>_. validate_socket_if_present fs path)))"

section \<open>Workers\<close>

datatype worker_slot_state = SlotReady | SlotDraining | SlotStopped | SlotFailed

record worker_slot =
  ws_id :: u32
  ws_generation :: u64
  ws_socket :: path
  ws_state :: worker_slot_state
  ws_draining :: bool

record worker_set =
  ws_slots :: "worker_slot list"

definition worker_set_ready :: "path list \<Rightarrow> worker_set" where
  "worker_set_ready sockets =
     \<lparr>ws_slots = map (\<lambda>(i, socket). \<lparr>ws_id = of_nat i, ws_generation = 1, ws_socket = socket,
        ws_state = SlotReady, ws_draining = False\<rparr>) (enumerate 0 sockets)\<rparr>"

definition single_ready :: "path \<Rightarrow> worker_set" where
  "single_ready socket = worker_set_ready [socket]"

definition ready_sockets :: "worker_set \<Rightarrow> path list" where
  "ready_sockets ws =
     map ws_socket (filter (\<lambda>s. ws_state s = SlotReady \<and> \<not> ws_draining s) (ws_slots ws))"

definition configured_socket :: "worker_set \<Rightarrow> path option" where
  "configured_socket ws = (case ws_slots ws of s # _ \<Rightarrow> Some (ws_socket s) | [] \<Rightarrow> None)"

section \<open>The configuration\<close>

record edge_config =
  eg_bind :: socket_addr
  eg_worker_socket :: path
  eg_worker_set :: worker_set
  eg_max_body_bytes :: u64
  eg_sse_enabled :: bool

fun validate_all :: "file_system \<Rightarrow> path list \<Rightarrow> edge_error + unit" where
  "validate_all fs [] = Inr ()"
| "validate_all fs (p # ps) = and_then (validate_worker_socket_path fs p) (\<lambda>_. validate_all fs ps)"

definition new_edge_config ::
  "file_system \<Rightarrow> socket_addr \<Rightarrow> path list \<Rightarrow> u64 \<Rightarrow> bool \<Rightarrow> edge_error + edge_config" where
  "new_edge_config fs bind sockets max_body allow_public_alpha =
     (if \<not> is_loopback (sock_ip bind) \<and> \<not> allow_public_alpha then Inl (NonLoopbackBind bind)
      else if max_body = 0 then Inl ZeroMaxBody
      else if sockets = [] then Inl NoWorkersConfigured
      else
        and_then (validate_all fs sockets) (\<lambda>_.
        Inr \<lparr>eg_bind = bind, eg_worker_socket = hd sockets, eg_worker_set = worker_set_ready sockets,
             eg_max_body_bytes = max_body, eg_sse_enabled = False\<rparr>))"

definition with_sse_enabled :: "bool \<Rightarrow> edge_config \<Rightarrow> edge_config" where
  "with_sse_enabled enabled c = c\<lparr>eg_sse_enabled := enabled\<rparr>"

section \<open>What validation establishes\<close>

definition has_mode :: "metadata \<Rightarrow> u32 \<Rightarrow> bool" where
  "has_mode md m \<longleftrightarrow> md_mode md AND 0x1FF = m"

definition private_dir :: "file_system \<Rightarrow> path \<Rightarrow> bool" where
  "private_dir fs p \<longleftrightarrow> (case fs p of Inr md \<Rightarrow> md_file_type md = FtDir \<and> has_mode md 0x1C0 | Inl _ \<Rightarrow> False)"

definition private_socket_or_absent :: "file_system \<Rightarrow> path \<Rightarrow> bool" where
  "private_socket_or_absent fs p \<longleftrightarrow>
     (case fs p of
        Inr md \<Rightarrow> md_file_type md = FtSocket \<and> has_mode md 0x180
      | Inl (NotFound _) \<Rightarrow> True
      | Inl (OtherIo _) \<Rightarrow> False)"

lemma validate_runtime_dir_iff: "validate_runtime_dir fs p = Inr () \<longleftrightarrow> private_dir fs p"
  by (cases "fs p") (auto simp: validate_runtime_dir_def private_dir_def has_mode_def Let_def)

lemma validate_socket_iff: "validate_socket_if_present fs p = Inr () \<longleftrightarrow> private_socket_or_absent fs p"
  by (auto simp: validate_socket_if_present_def private_socket_or_absent_def has_mode_def Let_def
      split: sum.split io_error.split)

lemma join_path_nonempty [simp]: "join_path ps \<noteq> []"
  by (cases ps) (simp_all add: join_path_def)

lemma path_parent_nonempty: "path_parent p = Some q \<Longrightarrow> q \<noteq> []"
  by (auto simp: path_parent_def Let_def split: if_splits)

definition socket_path_safe :: "file_system \<Rightarrow> path \<Rightarrow> bool" where
  "socket_path_safe fs p \<longleftrightarrow>
     is_absolute p \<and> private_socket_or_absent fs p \<and>
     (case path_parent p of Some d \<Rightarrow> private_dir fs d | None \<Rightarrow> False)"

lemma validate_worker_socket_path_iff:
  "validate_worker_socket_path fs p = Inr () \<longleftrightarrow> socket_path_safe fs p"
  by (auto simp: validate_worker_socket_path_def socket_path_safe_def validate_runtime_dir_iff
      validate_socket_iff and_then_eq_Inr dest: path_parent_nonempty split: option.splits)

lemma validate_all_iff: "validate_all fs ps = Inr () \<longleftrightarrow> list_all (socket_path_safe fs) ps"
  by (induction ps) (auto simp: and_then_eq_Inr validate_worker_socket_path_iff)

lemma ready_sockets_worker_set [simp]: "ready_sockets (worker_set_ready ps) = ps"
  by (simp add: ready_sockets_def worker_set_ready_def comp_def case_prod_beta filter_map)

lemma configured_socket_worker_set:
  "configured_socket (worker_set_ready ps) = (if ps = [] then None else Some (hd ps))"
  by (cases ps) (simp_all add: configured_socket_def worker_set_ready_def)

text \<open>
  The edge configuration is built exactly when it is safe: the bind is loopback or public
  exposure was requested, the body cap is not zero, there is a worker, and every worker socket is
  an absolute path in a directory that is no symlink and has mode 0700, and is itself absent or a
  socket of mode 0600. The configuration then keeps the caller's values and offers exactly the
  configured sockets, in order, as ready workers, the first one being the configured socket.
\<close>
theorem edge_config_safe:
  "(case new_edge_config fs bind sockets max_body alpha of
      Inr c \<Rightarrow>
        (is_loopback (sock_ip bind) \<or> alpha) \<and> max_body \<noteq> 0 \<and> sockets \<noteq> [] \<and>
        list_all (socket_path_safe fs) sockets \<and>
        eg_bind c = bind \<and> eg_max_body_bytes c = max_body \<and> \<not> eg_sse_enabled c \<and>
        ready_sockets (eg_worker_set c) = sockets \<and>
        configured_socket (eg_worker_set c) = Some (eg_worker_socket c)
    | Inl e \<Rightarrow>
        \<not> ((is_loopback (sock_ip bind) \<or> alpha) \<and> max_body \<noteq> 0 \<and> sockets \<noteq> [] \<and>
           list_all (socket_path_safe fs) sockets))"
  by (cases "validate_all fs sockets")
    (use validate_all_iff [of fs sockets] in \<open>auto simp: new_edge_config_def configured_socket_worker_set\<close>)

end
