(* ===== verification/Fairness.thy ===== *)
theory Fairness
  imports Core_Lib "HOL-Library.AList" "HOL-Library.Multiset"
begin

text \<open>
  \<open>crates/oxo-pingora-edge/src/platform/fairness.rs\<close>: the edge's admission control. The
  per-identity limiter works under a mutex, so its operations are functions on a record. The
  global in-flight limiter and the long-lived registry admit with a compare-and-exchange loop on
  an atomic counter: they share the step relation \<open>gate_step\<close>, in which threads interleave
  between the load and the exchange and a weak exchange may fail for no reason; a drop guard
  releases exactly once. Relaxed atomics on one location are totally ordered, which is what the
  relation uses; monotone statistics counters are natural numbers.
\<close>

section \<open>Per-identity limiter\<close>

record identity_limiter =
  il_max_per_identity :: "u64 option"
  il_active :: "(string \<times> u64) list"
  il_admitted_total :: nat
  il_saturation_total :: nat

record identity_snapshot =
  is_enabled :: bool
  is_max_per_identity :: "u64 option"
  is_active_in_flight :: u64
  is_tracked_identities :: usize
  is_admitted_total :: nat
  is_saturation_total :: nat

definition identity_limiter_new :: "u64 option \<Rightarrow> identity_limiter" where
  "identity_limiter_new m =
     \<lparr>il_max_per_identity = m, il_active = [], il_admitted_total = 0, il_saturation_total = 0\<rparr>"

text \<open>\<open>Inr (Some i)\<close> is an admission guard for the identity \<open>i\<close>, \<open>Inl ()\<close> a refusal.\<close>

definition identity_acquire :: "string \<Rightarrow> identity_limiter \<Rightarrow> (unit + string option) \<times> identity_limiter" where
  "identity_acquire identity l =
     (case il_max_per_identity l of
        None \<Rightarrow> (Inr None, l)
      | Some m \<Rightarrow>
          (let current = (case map_of (il_active l) identity of Some n \<Rightarrow> n | None \<Rightarrow> 0) in
           if current \<ge> m then
             (Inl (), l\<lparr>il_saturation_total := il_saturation_total l + 1\<rparr>)
           else
             (Inr (Some identity),
              l\<lparr>il_active := AList.update identity (current + 1) (il_active l),
                il_admitted_total := il_admitted_total l + 1\<rparr>)))"

text \<open>\<open>Drop for IdentityAdmission\<close>.\<close>

definition identity_release :: "string \<Rightarrow> identity_limiter \<Rightarrow> identity_limiter" where
  "identity_release identity l =
     (case map_of (il_active l) identity of
        Some n \<Rightarrow>
          if n > 1 then l\<lparr>il_active := AList.update identity (n - 1) (il_active l)\<rparr>
          else l\<lparr>il_active := AList.delete identity (il_active l)\<rparr>
      | None \<Rightarrow> l)"

definition identity_snapshot_of :: "identity_limiter \<Rightarrow> identity_snapshot" where
  "identity_snapshot_of l =
     \<lparr>is_enabled = (il_max_per_identity l \<noteq> None), is_max_per_identity = il_max_per_identity l,
      is_active_in_flight = sum_list (map snd (il_active l)),
      is_tracked_identities = length (il_active l),
      is_admitted_total = il_admitted_total l, is_saturation_total = il_saturation_total l\<rparr>"

section \<open>Counting gates\<close>

record gate =
  gt_active :: u64
  gt_admitted_total :: nat
  gt_refused_total :: nat
  gt_max_active_observed :: u64

definition gate_new :: gate where
  "gate_new = \<lparr>gt_active = 0, gt_admitted_total = 0, gt_refused_total = 0, gt_max_active_observed = 0\<rparr>"

text \<open>
  Where a thread is: outside, between the load and the exchange of \<open>acquire\<close> or \<open>try_admit\<close>
  (with the loaded value), in the loop of \<open>record_max_active\<close> (with the value to record and the
  one last read), or holding its admission.
\<close>

datatype phase = Outside | Loaded u64 | Recording u64 u64 | Holding

type_synonym threads = "nat \<Rightarrow> phase"

inductive gate_step :: "u64 \<Rightarrow> gate \<times> threads \<Rightarrow> gate \<times> threads \<Rightarrow> bool" for lim where
  gs_load: "th t = Outside \<Longrightarrow> gt_active g < lim \<Longrightarrow>
    gate_step lim (g, th) (g, th(t := Loaded (gt_active g)))"
| gs_refuse: "th t = Outside \<Longrightarrow> lim \<le> gt_active g \<Longrightarrow>
    gate_step lim (g, th) (g\<lparr>gt_refused_total := gt_refused_total g + 1\<rparr>, th)"
| gs_exchange: "th t = Loaded a \<Longrightarrow> gt_active g = a \<Longrightarrow>
    gate_step lim (g, th)
      (g\<lparr>gt_active := a + 1, gt_admitted_total := gt_admitted_total g + 1\<rparr>,
       th(t := Recording (a + 1) (gt_max_active_observed g)))"
| gs_retry: "th t = Loaded a \<Longrightarrow> gate_step lim (g, th) (g, th(t := Outside))"
| gs_recorded: "th t = Recording n cur \<Longrightarrow> n \<le> cur \<Longrightarrow> gate_step lim (g, th) (g, th(t := Holding))"
| gs_record: "th t = Recording n cur \<Longrightarrow> cur < n \<Longrightarrow> gt_max_active_observed g = cur \<Longrightarrow>
    gate_step lim (g, th) (g\<lparr>gt_max_active_observed := n\<rparr>, th(t := Holding))"
| gs_record_retry: "th t = Recording n cur \<Longrightarrow> cur < n \<Longrightarrow>
    gate_step lim (g, th) (g, th(t := Recording n (gt_max_active_observed g)))"
| gs_drop: "th t = Holding \<Longrightarrow>
    gate_step lim (g, th) (g\<lparr>gt_active := gt_active g - 1\<rparr>, th(t := Outside))"

text \<open>\<open>acquire\<close> when no other thread runs in between; \<open>None\<close> is a limiter with no limit.\<close>

definition record_max_active :: "u64 \<Rightarrow> gate \<Rightarrow> gate" where
  "record_max_active n g =
     (if n > gt_max_active_observed g then g\<lparr>gt_max_active_observed := n\<rparr> else g)"

definition global_acquire :: "u64 option \<Rightarrow> gate \<Rightarrow> (unit + bool) \<times> gate" where
  "global_acquire max_requests g =
     (case max_requests of
        None \<Rightarrow> (Inr False, g)
      | Some m \<Rightarrow>
          if gt_active g \<ge> m then (Inl (), g\<lparr>gt_refused_total := gt_refused_total g + 1\<rparr>)
          else
            (Inr True,
             record_max_active (gt_active g + 1)
               (g\<lparr>gt_active := gt_active g + 1, gt_admitted_total := gt_admitted_total g + 1\<rparr>)))"

definition global_release :: "gate \<Rightarrow> gate" where
  "global_release g = g\<lparr>gt_active := gt_active g - 1\<rparr>"

section \<open>Long-lived connections\<close>

record long_lived_limits =
  ll_max_connections :: u64
  ll_max_buffered_bytes :: u64

record registry =
  rg_limits :: long_lived_limits
  rg_gate :: gate
  rg_completed_total :: nat
  rg_drained_total :: nat
  rg_cancelled_total :: nat
  rg_downstream_timeout_total :: nat
  rg_bytes_streamed_total :: nat

record long_lived_admission =
  la_bytes_streamed :: u64
  la_completed :: bool
  la_drained :: bool

definition registry_new :: "long_lived_limits \<Rightarrow> registry" where
  "registry_new limits =
     \<lparr>rg_limits = limits, rg_gate = gate_new, rg_completed_total = 0, rg_drained_total = 0,
      rg_cancelled_total = 0, rg_downstream_timeout_total = 0, rg_bytes_streamed_total = 0\<rparr>"

definition try_admit :: "registry \<Rightarrow> long_lived_admission option \<times> registry" where
  "try_admit r =
     (let (res, g) = global_acquire (Some (ll_max_connections (rg_limits r))) (rg_gate r) in
      case res of
        Inl _ \<Rightarrow> (None, r\<lparr>rg_gate := g\<rparr>)
      | Inr _ \<Rightarrow>
          (Some \<lparr>la_bytes_streamed = 0, la_completed = False, la_drained = False\<rparr>, r\<lparr>rg_gate := g\<rparr>))"

definition record_bytes :: "u64 \<Rightarrow> long_lived_admission \<Rightarrow> registry \<Rightarrow> bool \<times> long_lived_admission \<times> registry" where
  "record_bytes n a r =
     (let a' = a\<lparr>la_bytes_streamed := saturating_add (la_bytes_streamed a) n\<rparr> in
      (la_bytes_streamed a' \<le> ll_max_buffered_bytes (rg_limits r), a',
       r\<lparr>rg_bytes_streamed_total := rg_bytes_streamed_total r + unat n\<rparr>))"

definition admission_complete :: "long_lived_admission \<Rightarrow> long_lived_admission" where
  "admission_complete a = a\<lparr>la_completed := True\<rparr>"

definition complete_drained :: "long_lived_admission \<Rightarrow> registry \<Rightarrow> long_lived_admission \<times> registry" where
  "complete_drained a r =
     (if la_drained a then (a\<lparr>la_completed := True\<rparr>, r)
      else (a\<lparr>la_drained := True, la_completed := True\<rparr>,
            r\<lparr>rg_drained_total := rg_drained_total r + 1\<rparr>))"

definition record_downstream_write_error :: "bool \<Rightarrow> registry \<Rightarrow> registry" where
  "record_downstream_write_error timed_out r =
     (if timed_out then r\<lparr>rg_downstream_timeout_total := rg_downstream_timeout_total r + 1\<rparr> else r)"

text \<open>\<open>Drop for LongLivedAdmission\<close>.\<close>

definition admission_drop :: "long_lived_admission \<Rightarrow> registry \<Rightarrow> registry" where
  "admission_drop a r =
     (let r = r\<lparr>rg_gate := global_release (rg_gate r)\<rparr> in
      if la_completed a then r\<lparr>rg_completed_total := rg_completed_total r + 1\<rparr>
      else r\<lparr>rg_cancelled_total := rg_cancelled_total r + 1\<rparr>)"

section \<open>Keepalive\<close>

record slow_client_policy =
  sp_header_read_timeout_ms :: u64
  sp_keepalive_idle_timeout_ms :: u64
  sp_max_connection_secs :: "u64 option"
  sp_pingora_tls_handshake_timeout_secs :: u64
  sp_keepalive_enabled :: bool
  sp_keepalive_request_limit :: "u32 option"

definition div_ceil :: "u64 \<Rightarrow> u64 \<Rightarrow> u64" where
  "div_ceil a b = (let q = a div b in if a mod b > 0 then q + 1 else q)"

definition keepalive_idle_secs :: "slow_client_policy \<Rightarrow> u64" where
  "keepalive_idle_secs p = max (div_ceil (sp_keepalive_idle_timeout_ms p) 1000) 1"

section \<open>The identity limiter\<close>

text \<open>
  The limiter's life with the outstanding admission guards as a ghost: a guard appears when
  \<open>acquire\<close> admits and disappears when it is dropped.
\<close>

inductive identity_reach :: "u64 \<Rightarrow> string multiset \<Rightarrow> identity_limiter \<Rightarrow> bool" for m where
  ir_new: "identity_reach m {#} (identity_limiter_new (Some m))"
| ir_admit: "identity_reach m held l \<Longrightarrow> identity_acquire i l = (Inr (Some j), l') \<Longrightarrow>
    identity_reach m (add_mset j held) l'"
| ir_refuse: "identity_reach m held l \<Longrightarrow> identity_acquire i l = (Inl (), l') \<Longrightarrow> identity_reach m held l'"
| ir_drop: "identity_reach m held l \<Longrightarrow> i \<in># held \<Longrightarrow>
    identity_reach m (held - {#i#}) (identity_release i l)"

definition identity_inv :: "u64 \<Rightarrow> string multiset \<Rightarrow> identity_limiter \<Rightarrow> bool" where
  "identity_inv m held l \<longleftrightarrow>
     il_max_per_identity l = Some m \<and> distinct (map fst (il_active l)) \<and>
     (\<forall>i. map_of (il_active l) i = (if i \<in># held then Some (of_nat (count held i)) else None)) \<and>
     (\<forall>i. count held i \<le> unat m)"

lemma unat_count:
  "identity_inv m held l \<Longrightarrow> unat (of_nat (count held i) :: u64) = count held i"
proof -
  assume "identity_inv m held l"
  then have "count held i \<le> unat m" by (simp add: identity_inv_def)
  then show ?thesis using unsigned_less [of m, where 'a = nat] by (simp add: unat_of_nat)
qed

lemma identity_current:
  assumes "identity_inv m held l"
  shows "(case map_of (il_active l) i of Some n \<Rightarrow> n | None \<Rightarrow> 0) = of_nat (count held i)"
  using assms by (simp add: identity_inv_def not_in_iff)

lemma identity_saturated:
  assumes "identity_inv m held l"
  shows "m \<le> of_nat (count held i) \<longleftrightarrow> unat m \<le> count held i"
  using unat_count [OF assms] by (simp add: word_le_nat_alt)

lemma identity_acquire_eq:
  assumes "identity_inv m held l"
  shows "identity_acquire i l =
    (if unat m \<le> count held i then (Inl (), l\<lparr>il_saturation_total := il_saturation_total l + 1\<rparr>)
     else (Inr (Some i),
       l\<lparr>il_active := AList.update i (of_nat (count held i) + 1) (il_active l),
         il_admitted_total := il_admitted_total l + 1\<rparr>))"
  using identity_current [OF assms, of i] identity_saturated [OF assms, of i] assms
  by (simp add: identity_acquire_def identity_inv_def Let_def)

lemma identity_admit_inv:
  assumes inv: "identity_inv m held l" and free: "count held i < unat m"
  shows "identity_inv m (add_mset i held)
    (l\<lparr>il_active := AList.update i (of_nat (count held i) + 1) (il_active l), il_admitted_total := k\<rparr>)"
  using inv free by (auto simp: identity_inv_def update_conv' distinct_update not_in_iff)

lemma identity_release_inv:
  assumes inv: "identity_inv m held l" and held: "i \<in># held"
  shows "identity_inv m (held - {#i#}) (identity_release i l)"
proof -
  let ?n = "count held i"
  have n: "0 < ?n" using held by simp
  have entry: "map_of (il_active l) i = Some (of_nat ?n)" using inv held by (simp add: identity_inv_def)
  have gt: "(1 :: u64) < of_nat ?n \<longleftrightarrow> 1 < ?n" using unat_count [OF inv, of i] by (simp add: word_less_nat_alt)
  have minus: "(of_nat ?n :: u64) - 1 = of_nat (?n - 1)" using n by (cases ?n) simp_all
  have le: "count (held - {#i#}) j \<le> unat m" for j
    using inv by (auto simp: identity_inv_def intro: order_trans [OF diff_le_self])
  show ?thesis
  proof (cases "1 < ?n")
    case True
    then have "i \<in># held - {#i#}" by (simp add: in_diff_count)
    with True inv entry gt minus le show ?thesis
      by (auto simp: identity_inv_def identity_release_def update_conv' distinct_update in_diff_count)
  next
    case False
    with n have one: "?n = 1" by linarith
    then have "i \<notin># held - {#i#}" by (simp add: in_diff_count)
    with False inv entry gt le show ?thesis
      by (auto simp: identity_inv_def identity_release_def delete_conv' distinct_delete in_diff_count one)
  qed
qed

lemma identity_inv_saturation:
  "identity_inv m held (l\<lparr>il_saturation_total := k\<rparr>) \<longleftrightarrow> identity_inv m held l"
  by (simp add: identity_inv_def)

lemma identity_reach_inv: "identity_reach m held l \<Longrightarrow> identity_inv m held l"
proof (induction rule: identity_reach.induct)
  case ir_new
  then show ?case by (simp add: identity_inv_def identity_limiter_new_def)
next
  case (ir_admit held l i j l')
  then show ?case
    using identity_acquire_eq [OF ir_admit.IH, of i] identity_admit_inv [OF ir_admit.IH, of i]
    by (auto split: if_splits)
next
  case (ir_refuse held l i l')
  then have "l' = l\<lparr>il_saturation_total := il_saturation_total l + 1\<rparr>"
    using identity_acquire_eq [OF ir_refuse.IH, of i] by (auto split: if_split_asm)
  with ir_refuse.IH show ?case by (simp only: identity_inv_saturation)
next
  case (ir_drop held l i)
  then show ?case using identity_release_inv by blast
qed

text \<open>
  C26: Per-identity fairness. However acquisitions and drops of guards for different identities
  interleave, the limiter's counter of an identity is the number of guards that identity holds (no
  entry when it holds none), no identity ever holds more than the limit, an acquisition is refused exactly when
  its own identity is at the limit (another identity's load never refuses it), and the map tracks
  exactly the identities with a request in flight, so it does not grow with identities seen.
\<close>

theorem identity_limiter_fair:
  assumes "identity_reach m held l"
  shows "(case map_of (il_active l) i of Some n \<Rightarrow> unat n | None \<Rightarrow> 0) = count held i \<and>
    (i \<notin># held \<longrightarrow> map_of (il_active l) i = None) \<and>
    count held i \<le> unat m \<and>
    (fst (identity_acquire i l) = Inl () \<longleftrightarrow> unat m \<le> count held i) \<and>
    is_tracked_identities (identity_snapshot_of l) = card (set_mset held)"
proof -
  have inv: "identity_inv m held l" using assms by (rule identity_reach_inv)
  have "fst ` set (il_active l) = set_mset held"
  proof -
    have "i \<in> fst ` set (il_active l) \<longleftrightarrow> i \<in># held" for i
      using inv map_of_eq_None_iff [of "il_active l" i] by (auto simp: identity_inv_def split: if_splits)
    then show ?thesis by blast
  qed
  then have "card (set_mset held) = card (set (map fst (il_active l)))" by simp
  also have "\<dots> = length (il_active l)"
    using inv distinct_card [of "map fst (il_active l)"] by (simp add: identity_inv_def)
  finally show ?thesis
    using inv identity_acquire_eq [OF inv, of i] unat_count [OF inv, of i]
    by (auto simp: identity_snapshot_of_def identity_inv_def not_in_iff)
qed

lemma sample_identity_reach:
  "identity_reach 1 {#''1.2.3.4''#} (snd (identity_acquire ''1.2.3.4'' (identity_limiter_new (Some 1))))"
  using ir_admit [OF ir_new, of "''1.2.3.4''" 1 "''1.2.3.4''"]
  by (simp add: identity_acquire_def identity_limiter_new_def Let_def)

theorem identity_limiter_fair_witness:
  "map_of (il_active (snd (identity_acquire ''1.2.3.4'' (identity_limiter_new (Some 1))))) ''9.9.9.9'' = None \<and>
   fst (identity_acquire ''1.2.3.4'' (snd (identity_acquire ''1.2.3.4'' (identity_limiter_new (Some 1))))) = Inl () \<and>
   fst (identity_acquire ''9.9.9.9'' (snd (identity_acquire ''1.2.3.4'' (identity_limiter_new (Some 1))))) \<noteq> Inl ()"
  using identity_limiter_fair [OF sample_identity_reach, of "''1.2.3.4''"]
    identity_limiter_fair [OF sample_identity_reach, of "''9.9.9.9''"]
  by simp

section \<open>The counting gate\<close>

definition in_flight :: "threads \<Rightarrow> nat set" where
  "in_flight th = {t. th t = Holding \<or> (\<exists>n cur. th t = Recording n cur)}"

definition gate_inv :: "u64 \<Rightarrow> gate \<times> threads \<Rightarrow> bool" where
  "gate_inv lim s =
     (case s of (g, th) \<Rightarrow>
       finite (in_flight th) \<and> unat (gt_active g) = card (in_flight th) \<and> gt_active g \<le> lim \<and>
       gt_max_active_observed g \<le> lim \<and>
       (\<forall>t a. th t = Loaded a \<longrightarrow> a < lim) \<and> (\<forall>t n cur. th t = Recording n cur \<longrightarrow> n \<le> lim))"

lemma in_flight_upd:
  "in_flight (th(t := Outside)) = in_flight th - {t}"
  "in_flight (th(t := Loaded a)) = in_flight th - {t}"
  "in_flight (th(t := Holding)) = insert t (in_flight th)"
  "in_flight (th(t := Recording n cur)) = insert t (in_flight th)"
  by (auto simp: in_flight_def)

lemma in_flight_iff:
  "th t = Outside \<Longrightarrow> t \<notin> in_flight th" "th t = Loaded a \<Longrightarrow> t \<notin> in_flight th"
  "th t = Holding \<Longrightarrow> t \<in> in_flight th" "th t = Recording n cur \<Longrightarrow> t \<in> in_flight th"
  by (auto simp: in_flight_def)

lemma word_succ_below: "(a :: u64) < lim \<Longrightarrow> unat (a + 1) = unat a + 1 \<and> a + 1 \<le> lim"
proof -
  assume "a < lim"
  then have less: "unat a < unat lim" by (simp add: word_less_nat_alt)
  moreover have "unat lim < 2 ^ 64" using unsigned_less [of lim, where 'a = nat] by simp
  ultimately have "unat (a + 1) = unat a + 1" by (subst unat_plus_no_wrap) simp_all
  with less show ?thesis by (simp add: word_le_nat_alt)
qed

lemma gate_inv_step:
  assumes "gate_inv lim s" and "gate_step lim s s'"
  shows "gate_inv lim s'"
  using assms(2,1)
proof (cases rule: gate_step.cases)
  case (gs_load th t g)
  with assms(1) show ?thesis
    using in_flight_iff(1) [of th t] by (auto simp: gate_inv_def in_flight_upd)
next
  case (gs_refuse th t g)
  with assms(1) show ?thesis by (auto simp: gate_inv_def)
next
  case (gs_exchange th t a g)
  have "a < lim" using assms(1) gs_exchange by (auto simp: gate_inv_def)
  from word_succ_below [OF this] assms(1) gs_exchange in_flight_iff(2) [of th t a] show ?thesis
    by (auto simp: gate_inv_def in_flight_upd)
next
  case (gs_retry th t a g)
  with assms(1) in_flight_iff(2) [of th t a] show ?thesis by (auto simp: gate_inv_def in_flight_upd)
next
  case (gs_recorded th t n cur g)
  with assms(1) in_flight_iff(4) [of th t n cur] show ?thesis
    by (auto simp: gate_inv_def in_flight_upd insert_absorb)
next
  case (gs_record th t n cur g)
  then have "n \<le> lim" using assms(1) by (simp add: gate_inv_def) blast
  with gs_record assms(1) in_flight_iff(4) [of th t n cur] show ?thesis
    by (auto simp: gate_inv_def in_flight_upd insert_absorb)
next
  case (gs_record_retry th t n cur g)
  then have "n \<le> lim" using assms(1) by (simp add: gate_inv_def) blast
  with gs_record_retry assms(1) in_flight_iff(4) [of th t n cur] show ?thesis
    by (auto simp: gate_inv_def in_flight_upd insert_absorb)
next
  case (gs_drop th t g)
  then have mem: "t \<in> in_flight th" by (simp add: in_flight_iff)
  have fin: "finite (in_flight th)" and act: "unat (gt_active g) = card (in_flight th)"
    and lim: "gt_active g \<le> lim"
    using assms(1) gs_drop by (auto simp: gate_inv_def)
  have "0 < card (in_flight th)" using mem fin card_gt_0_iff by blast
  then have "unat (gt_active g - 1) = card (in_flight th) - 1" "gt_active g - 1 \<le> lim"
    using act lim by (simp_all add: word_le_nat_alt unat_sub_if_size)
  with mem fin assms(1) gs_drop show ?thesis
    by (auto simp: gate_inv_def in_flight_upd card_Diff_singleton)
qed

definition gate_start :: "gate \<times> threads \<Rightarrow> bool" where
  "gate_start s \<longleftrightarrow> s = (gate_new, \<lambda>_. Outside)"

lemma gate_inv_start: "gate_start s \<Longrightarrow> gate_inv lim s"
  by (simp add: gate_start_def gate_inv_def gate_new_def in_flight_def)

interpretation gate_machine: invariant_machine gate_start "gate_step lim" "gate_inv lim" for lim
  by unfold_locales (erule gate_inv_start, erule gate_inv_step)

text \<open>
  The compare-and-exchange gates admit at most their limit. Whatever number of threads race
  through \<open>acquire\<close> or \<open>try_admit\<close>, with arbitrary interleaving, lost exchanges and spurious
  failures, in every reachable state the counter equals the number of admissions held, which is
  at most the limit (so the decrement on drop never wraps), and the recorded maximum never exceeds
  the limit.
\<close>

theorem gate_never_exceeds_limit:
  assumes "(gate_step lim)\<^sup>*\<^sup>* (gate_new, \<lambda>_. Outside) (g, th)"
  shows "finite (in_flight th) \<and> unat (gt_active g) = card (in_flight th) \<and>
    card (in_flight th) \<le> unat lim \<and> gt_max_active_observed g \<le> lim"
proof -
  have "gate_inv lim (g, th)"
    using gate_machine.reachable_inv [of "(gate_new, \<lambda>_. Outside)"] assms by (simp add: gate_start_def)
  then show ?thesis by (auto simp: gate_inv_def word_le_nat_alt)
qed

lemma sample_gate_run:
  "(gate_step 1)\<^sup>*\<^sup>* (gate_new, \<lambda>_. Outside)
     (gate_new\<lparr>gt_active := 1, gt_admitted_total := 1\<rparr>, (\<lambda>_. Outside)(0 := Recording 1 0))"
proof -
  have "gate_step 1 (gate_new, \<lambda>_. Outside) (gate_new, (\<lambda>_. Outside)(0 := Loaded 0))"
    using gs_load [of "\<lambda>_. Outside" 0 gate_new 1] by (simp add: gate_new_def)
  moreover have "gate_step 1 (gate_new, (\<lambda>_. Outside)(0 := Loaded 0))
      (gate_new\<lparr>gt_active := 1, gt_admitted_total := 1\<rparr>, (\<lambda>_. Outside)(0 := Recording 1 0))"
    using gs_exchange [of "(\<lambda>_. Outside)(0 := Loaded 0)" 0 0 gate_new 1] by (simp add: gate_new_def)
  ultimately show ?thesis by (meson rtranclp.rtrancl_into_rtrancl rtranclp.rtrancl_refl)
qed

theorem gate_never_exceeds_limit_witness:
  "card (in_flight ((\<lambda>_. Outside)(0 := Recording 1 0))) = 1"
  using gate_never_exceeds_limit [OF sample_gate_run] by (simp add: gate_new_def)

text \<open>
  A thread that runs \<open>acquire\<close> without interference gets its answer: the atomic description
  used by the other components is a run of the step relation, ending in a refusal exactly when
  the counter is at the limit and otherwise holding an admission, counted once.
\<close>

theorem global_acquire_runs:
  assumes "th t = Outside" and "global_acquire (Some lim) g = (res, g')"
  shows "(gate_step lim)\<^sup>*\<^sup>* (g, th) (g', if res = Inl () then th else th(t := Holding)) \<and>
    (res = Inl () \<longleftrightarrow> lim \<le> gt_active g)"
proof (cases "lim \<le> gt_active g")
  case True
  then have "res = Inl ()" "g' = g\<lparr>gt_refused_total := gt_refused_total g + 1\<rparr>"
    using assms(2) by (auto simp: global_acquire_def)
  with gs_refuse [of th t lim g, OF assms(1) True] True show ?thesis by auto
next
  case False
  let ?g1 = "g\<lparr>gt_active := gt_active g + 1, gt_admitted_total := gt_admitted_total g + 1\<rparr>"
  let ?n = "gt_active g + 1" and ?o = "gt_max_active_observed g"
  have res: "res = Inr True" and g': "g' = record_max_active ?n ?g1"
    using False assms(2) by (auto simp: global_acquire_def)
  have load: "gate_step lim (g, th) (g, th(t := Loaded (gt_active g)))"
    using False by (intro gs_load) (simp_all add: assms(1))
  have ex: "gate_step lim (g, th(t := Loaded (gt_active g))) (?g1, th(t := Recording ?n ?o))"
    using gs_exchange [of "th(t := Loaded (gt_active g))" t "gt_active g" g lim] by simp
  have rec: "gate_step lim (?g1, th(t := Recording ?n ?o)) (g', th(t := Holding))"
  proof (cases "?n \<le> ?o")
    case True
    then have "g' = ?g1" by (auto simp: g' record_max_active_def)
    with True show ?thesis
      using gs_recorded [of "th(t := Recording ?n ?o)" t ?n ?o lim ?g1] by simp
  next
    case False
    then show ?thesis
      using gs_record [of "th(t := Recording ?n ?o)" t ?n ?o ?g1 lim] by (simp add: g' record_max_active_def not_le)
  qed
  have "(gate_step lim)\<^sup>*\<^sup>* (g, th) (g', th(t := Holding))"
    using load ex rec by (meson rtranclp.rtrancl_into_rtrancl rtranclp.rtrancl_refl)
  with False res show ?thesis by simp
qed

theorem global_acquire_runs_witness:
  "(gate_step 5)\<^sup>*\<^sup>* (gate_new, \<lambda>_. Outside)
     (snd (global_acquire (Some 5) gate_new), (\<lambda>_. Outside)(3 := Holding))"
  using global_acquire_runs [of "\<lambda>_. Outside" 3 5 gate_new "Inr True" "snd (global_acquire (Some 5) gate_new)"]
  by (simp add: global_acquire_def gate_new_def)

section \<open>Long-lived accounting\<close>

text \<open>The registry with the guards in existence as a ghost list.\<close>

inductive registry_reach :: "long_lived_limits \<Rightarrow> long_lived_admission list \<Rightarrow> registry \<Rightarrow> bool" for limits where
  rr_new: "registry_reach limits [] (registry_new limits)"
| rr_admit: "registry_reach limits as r \<Longrightarrow> try_admit r = (Some a, r') \<Longrightarrow> registry_reach limits (as @ [a]) r'"
| rr_reject: "registry_reach limits as r \<Longrightarrow> try_admit r = (None, r') \<Longrightarrow> registry_reach limits as r'"
| rr_bytes: "registry_reach limits as r \<Longrightarrow> i < length as \<Longrightarrow> record_bytes n (as ! i) r = (ok, a, r') \<Longrightarrow>
    registry_reach limits (as[i := a]) r'"
| rr_complete: "registry_reach limits as r \<Longrightarrow> i < length as \<Longrightarrow>
    registry_reach limits (as[i := admission_complete (as ! i)]) r"
| rr_drained: "registry_reach limits as r \<Longrightarrow> i < length as \<Longrightarrow> complete_drained (as ! i) r = (a, r') \<Longrightarrow>
    registry_reach limits (as[i := a]) r'"
| rr_timeout: "registry_reach limits as r \<Longrightarrow> registry_reach limits as (record_downstream_write_error b r)"
| rr_drop: "registry_reach limits as r \<Longrightarrow> i < length as \<Longrightarrow>
    registry_reach limits (take i as @ drop (Suc i) as) (admission_drop (as ! i) r)"

definition registry_inv :: "long_lived_limits \<Rightarrow> long_lived_admission list \<Rightarrow> registry \<Rightarrow> bool" where
  "registry_inv limits as r \<longleftrightarrow>
     rg_limits r = limits \<and> unat (gt_active (rg_gate r)) = length as \<and>
     length as \<le> unat (ll_max_connections limits) \<and>
     gt_admitted_total (rg_gate r) = length as + rg_completed_total r + rg_cancelled_total r"

lemma try_admit_inv:
  assumes "registry_inv limits as r" and "try_admit r = (res, r')"
  shows "case res of None \<Rightarrow> registry_inv limits as r' | Some a \<Rightarrow> registry_inv limits (as @ [a]) r'"
proof (cases "ll_max_connections limits \<le> gt_active (rg_gate r)")
  case True
  with assms show ?thesis
    by (auto simp: try_admit_def global_acquire_def registry_inv_def split: if_splits)
next
  case False
  then have "gt_active (rg_gate r) < ll_max_connections limits" by simp
  from word_succ_below [OF this] False assms show ?thesis
    by (auto simp: try_admit_def global_acquire_def registry_inv_def record_max_active_def word_le_nat_alt
        split: if_splits)
qed

lemma admission_drop_inv:
  assumes "registry_inv limits as r" and "i < length as"
  shows "registry_inv limits (take i as @ drop (Suc i) as) (admission_drop (as ! i) r)"
proof -
  have "unat (gt_active (rg_gate r) - 1) = length as - 1"
    using assms by (simp add: registry_inv_def unat_sub_if_size)
  then show ?thesis
    using assms by (auto simp: registry_inv_def admission_drop_def global_release_def Let_def)
qed

lemma registry_reach_inv: "registry_reach limits as r \<Longrightarrow> registry_inv limits as r"
proof (induction rule: registry_reach.induct)
  case rr_new
  then show ?case by (simp add: registry_inv_def registry_new_def gate_new_def)
next
  case (rr_admit as r a r')
  then show ?case using try_admit_inv [of limits as r "Some a" r'] by simp
next
  case (rr_reject as r r')
  then show ?case using try_admit_inv [of limits as r None r'] by simp
next
  case (rr_bytes as r i n ok a r')
  then show ?case by (auto simp: registry_inv_def record_bytes_def Let_def)
next
  case (rr_drained as r i a r')
  then show ?case by (auto simp: registry_inv_def complete_drained_def split: if_splits)
next
  case (rr_timeout as r b)
  then show ?case by (auto simp: registry_inv_def record_downstream_write_error_def)
next
  case (rr_drop as r i)
  then show ?case using admission_drop_inv by blast
qed (auto simp: registry_inv_def)

text \<open>
  The long-lived registry's books balance. In every state the guards in existence are at most
  the connection limit and are exactly what the active counter says, and every admission ever
  granted is either still held, completed or cancelled, each counted once: a stream that is
  dropped without completing is a cancellation, never lost.
\<close>

theorem long_lived_accounting:
  assumes "registry_reach limits as r"
  shows "unat (gt_active (rg_gate r)) = length as \<and> length as \<le> unat (ll_max_connections limits) \<and>
    gt_admitted_total (rg_gate r) = length as + rg_completed_total r + rg_cancelled_total r"
  using registry_reach_inv [OF assms] by (simp add: registry_inv_def)

theorem long_lived_accounting_witness:
  "unat (gt_active (rg_gate (snd (try_admit (registry_new \<lparr>ll_max_connections = 2, ll_max_buffered_bytes = 10\<rparr>))))) = 1"
  using long_lived_accounting [OF rr_admit [OF rr_new], of "\<lparr>ll_max_connections = 2, ll_max_buffered_bytes = 10\<rparr>"
      "\<lparr>la_bytes_streamed = 0, la_completed = False, la_drained = False\<rparr>"
      "snd (try_admit (registry_new \<lparr>ll_max_connections = 2, ll_max_buffered_bytes = 10\<rparr>))"]
  by (simp add: try_admit_def global_acquire_def registry_new_def gate_new_def)

text \<open>
  The keepalive idle timeout handed to Pingora is never zero (zero would mean no timeout) and
  never shorter than the configured milliseconds, for every configured value.
\<close>

theorem keepalive_idle_secs_bounds:
  "keepalive_idle_secs p \<noteq> 0 \<and>
   unat (sp_keepalive_idle_timeout_ms p) \<le> 1000 * unat (keepalive_idle_secs p) \<and>
   unat (keepalive_idle_secs p) \<le> unat (sp_keepalive_idle_timeout_ms p) div 1000 + 1"
proof -
  let ?m = "sp_keepalive_idle_timeout_ms p"
  have q: "unat (?m div 1000) = unat ?m div 1000" "unat (?m mod 1000) = unat ?m mod 1000"
    by (simp_all add: unat_div unat_mod)
  have "unat ?m < 2 ^ 64" using unsigned_less [of ?m, where 'a = nat] by simp
  then have "unat (?m div 1000 + 1) = unat ?m div 1000 + 1"
    using q(1) by (subst unat_plus_no_wrap) simp_all
  then have d: "unat (div_ceil ?m 1000) = unat ?m div 1000 + (if unat ?m mod 1000 = 0 then 0 else 1)"
    using q by (auto simp: div_ceil_def Let_def word_less_nat_alt)
  have "unat ?m = 1000 * (unat ?m div 1000) + unat ?m mod 1000" by simp
  moreover have "unat ?m mod 1000 < 1000" by simp
  ultimately have "unat ?m \<le> 1000 * unat (div_ceil ?m 1000)" using d by auto
  moreover have "unat (keepalive_idle_secs p) = max (unat (div_ceil ?m 1000)) 1"
    by (simp add: keepalive_idle_secs_def max_def word_le_nat_alt)
  moreover have "keepalive_idle_secs p \<noteq> 0"
    using calculation(2) by (metis unat_0 max.cobounded2 not_one_le_zero)
  ultimately show ?thesis using d by auto
qed

end
