(* ===== verification/Edge_Telemetry.thy ===== *)
theory Edge_Telemetry
  imports Fairness Edge_Cli
begin

text \<open>
  Request accounting and draining of the edge: the counters of \<open>EdgeTelemetry\<close> and the log line
  of \<open>crates/oxo-pingora-edge/src/platform/telemetry.rs\<close>, and the drain state, its signal service
  and its configuration of \<open>platform/drain.rs\<close>. Monotone totals are natural numbers; the gauge of
  requests in flight keeps its width. Every log line is an entry of \<open>tl_log\<close>. Of the admin
  endpoint only the path dispatch and the JSON text helpers are modelled; the \<open>/ready\<close> and
  \<open>/metrics\<close> bodies print these counters.
\<close>

section \<open>Log mode\<close>

datatype request_log_mode = LogOff | LogRejections | LogAll

fun log_mode_str :: "request_log_mode \<Rightarrow> string" where
  "log_mode_str LogOff = ''off''"
| "log_mode_str LogRejections = ''rejections''"
| "log_mode_str LogAll = ''all''"

definition logs_responses :: "request_log_mode \<Rightarrow> bool" where
  "logs_responses m \<longleftrightarrow> m = LogAll"

definition logs_rejections :: "request_log_mode \<Rightarrow> bool" where
  "logs_rejections m \<longleftrightarrow> m \<noteq> LogOff"

section \<open>Counters\<close>

record telemetry =
  tl_request_log :: request_log_mode
  tl_in_flight :: u64
  tl_requests_total :: nat
  tl_responses_total :: nat
  tl_rejections_total :: nat
  tl_status_2xx_total :: nat
  tl_status_4xx_total :: nat
  tl_status_5xx_total :: nat
  tl_status_other_total :: nat
  tl_last_response_status :: u64
  tl_last_rejection_status :: u64
  tl_rate_limited_total :: nat
  tl_last_request_seq :: u64
  tl_log :: "(string \<times> string \<times> u16) list"

definition telemetry_new :: "request_log_mode \<Rightarrow> telemetry" where
  "telemetry_new mode =
     \<lparr>tl_request_log = mode, tl_in_flight = 0, tl_requests_total = 0, tl_responses_total = 0,
      tl_rejections_total = 0, tl_status_2xx_total = 0, tl_status_4xx_total = 0, tl_status_5xx_total = 0,
      tl_status_other_total = 0, tl_last_response_status = 0, tl_last_rejection_status = 0,
      tl_rate_limited_total = 0, tl_last_request_seq = 0, tl_log = []\<rparr>"

definition start_request :: "u64 \<Rightarrow> telemetry \<Rightarrow> telemetry" where
  "start_request seq t =
     t\<lparr>tl_requests_total := tl_requests_total t + 1, tl_in_flight := tl_in_flight t + 1,
       tl_last_request_seq := seq\<rparr>"

definition observation_drop :: "telemetry \<Rightarrow> telemetry" where
  "observation_drop t = t\<lparr>tl_in_flight := tl_in_flight t - 1\<rparr>"

definition record_status_class :: "u16 \<Rightarrow> telemetry \<Rightarrow> telemetry" where
  "record_status_class status t =
     (if 200 \<le> status \<and> status \<le> 299 then t\<lparr>tl_status_2xx_total := tl_status_2xx_total t + 1\<rparr>
      else if 400 \<le> status \<and> status \<le> 499 then t\<lparr>tl_status_4xx_total := tl_status_4xx_total t + 1\<rparr>
      else if 500 \<le> status \<and> status \<le> 599 then t\<lparr>tl_status_5xx_total := tl_status_5xx_total t + 1\<rparr>
      else t\<lparr>tl_status_other_total := tl_status_other_total t + 1\<rparr>)"

definition log_request_outcome :: "string \<Rightarrow> string \<Rightarrow> u16 \<Rightarrow> telemetry \<Rightarrow> telemetry" where
  "log_request_outcome request_id outcome status t = t\<lparr>tl_log := tl_log t @ [(request_id, outcome, status)]\<rparr>"

definition record_response :: "string \<Rightarrow> u16 \<Rightarrow> telemetry \<Rightarrow> telemetry" where
  "record_response request_id status t =
     (let t = record_status_class status
            (t\<lparr>tl_responses_total := tl_responses_total t + 1, tl_last_response_status := ucast status\<rparr>)
      in if logs_responses (tl_request_log t) then log_request_outcome request_id ''response'' status t else t)"

definition record_rejection :: "string \<Rightarrow> u16 \<Rightarrow> telemetry \<Rightarrow> telemetry" where
  "record_rejection request_id status t =
     (let t = record_status_class status
            (t\<lparr>tl_rejections_total := tl_rejections_total t + 1, tl_last_rejection_status := ucast status\<rparr>)
      in if logs_rejections (tl_request_log t) then log_request_outcome request_id ''rejection'' status t else t)"

definition record_rate_limited :: "string \<Rightarrow> telemetry \<Rightarrow> telemetry" where
  "record_rate_limited request_id t =
     (let t = record_status_class 503
            (t\<lparr>tl_rate_limited_total := tl_rate_limited_total t + 1,
               tl_rejections_total := tl_rejections_total t + 1, tl_last_rejection_status := 503\<rparr>)
      in if logs_rejections (tl_request_log t) then log_request_outcome request_id ''rate_limited'' 503 t else t)"

definition record_overloaded :: "string \<Rightarrow> telemetry \<Rightarrow> telemetry" where
  "record_overloaded request_id t =
     (let t = record_status_class 503
            (t\<lparr>tl_rejections_total := tl_rejections_total t + 1, tl_last_rejection_status := 503\<rparr>)
      in if logs_rejections (tl_request_log t) then log_request_outcome request_id ''overloaded'' 503 t else t)"

section \<open>Text\<close>

definition status_json :: "u64 \<Rightarrow> string" where
  "status_json status = (if status = 0 then ''null'' else to_string (unat status))"

definition option_u64_json :: "u64 option \<Rightarrow> string" where
  "option_u64_json v = (case v of Some n \<Rightarrow> to_string (unat n) | None \<Rightarrow> ''null'')"

definition hex_digit :: "nat \<Rightarrow> char" where
  "hex_digit n = char_of (if n < 10 then 48 + n else 87 + n)"

definition unicode_escape :: "nat \<Rightarrow> string" where
  "unicode_escape n = [CHR 0x5C, CHR ''u'', CHR ''0'', CHR ''0'', hex_digit (n div 16), hex_digit (n mod 16)]"

text \<open>
  Text is its UTF-8 bytes; the control characters are the bytes below 32, 127, and the two-byte
  sequences from C2 80 to C2 9F.
\<close>

fun json_escape :: "string \<Rightarrow> string" where
  "json_escape [] = []"
| "json_escape (c # cs) =
     (if c = CHR 0x22 then [CHR 0x5C, CHR 0x22] @ json_escape cs
      else if c = CHR 0x5C then [CHR 0x5C, CHR 0x5C] @ json_escape cs
      else if c = CHR 0x0A then [CHR 0x5C, CHR ''n''] @ json_escape cs
      else if c = CHR 0x0D then [CHR 0x5C, CHR ''r''] @ json_escape cs
      else if c = CHR 0x09 then [CHR 0x5C, CHR ''t''] @ json_escape cs
      else if of_char c < (32 :: nat) \<or> of_char c = (127 :: nat) then unicode_escape (of_char c) @ json_escape cs
      else if c = CHR 0xC2 then
        (case cs of
           d # ds \<Rightarrow>
             if 128 \<le> (of_char d :: nat) \<and> of_char d < (160 :: nat) then unicode_escape (of_char d) @ json_escape ds
             else c # json_escape cs
         | [] \<Rightarrow> [c])
      else c # json_escape cs)"

definition request_id_text :: "u32 \<Rightarrow> u64 \<Rightarrow> string" where
  "request_id_text pid seq = ''oxo-'' @ to_string (unat pid) @ ''-'' @ to_string (unat seq)"

definition last_request_id_json :: "u32 \<Rightarrow> telemetry \<Rightarrow> string" where
  "last_request_id_json pid t =
     (if tl_last_request_seq t = 0 then ''null''
      else [CHR 0x22] @ request_id_text pid (tl_last_request_seq t) @ [CHR 0x22])"

section \<open>Draining\<close>

definition DEFAULT_EDGE_DRAIN_GRACE_MS :: u64 where "DEFAULT_EDGE_DRAIN_GRACE_MS = 2000"

record edge_drain_config =
  dc_grace_period_seconds :: u64
  dc_graceful_shutdown_timeout_seconds :: u64

definition drain_from_millis :: "string \<Rightarrow> u64 \<Rightarrow> edge_error + edge_drain_config" where
  "drain_from_millis name millis =
     (if millis = 0 then Inl (ConfigEnv name (OtherMessage ''drain grace must be greater than zero''))
      else Inr \<lparr>dc_grace_period_seconds = saturating_add millis 999 div 1000,
                 dc_graceful_shutdown_timeout_seconds = 0\<rparr>)"

text \<open>
  The signal service: \<open>changes\<close> are the values the shutdown watch takes after the first look, up
  to the end of the channel; the result says whether the drain was begun.
\<close>

fun drain_signal_loop :: "bool list \<Rightarrow> bool" where
  "drain_signal_loop [] = False"
| "drain_signal_loop (v # changes) = (v \<or> drain_signal_loop changes)"

definition drain_signal_start :: "bool \<Rightarrow> bool list \<Rightarrow> bool" where
  "drain_signal_start shutdown changes = (shutdown \<or> drain_signal_loop changes)"

definition telemetry_ready :: "usize \<Rightarrow> bool \<Rightarrow> bool" where
  "telemetry_ready worker_count draining \<longleftrightarrow> worker_count > 0 \<and> \<not> draining"

section \<open>Outcomes\<close>

definition outcomes :: "telemetry \<Rightarrow> nat" where
  "outcomes t = tl_responses_total t + tl_rejections_total t"

definition classified :: "telemetry \<Rightarrow> nat" where
  "classified t = tl_status_2xx_total t + tl_status_4xx_total t + tl_status_5xx_total t + tl_status_other_total t"

lemmas record_defs = record_response_def record_rejection_def record_rate_limited_def record_overloaded_def
  record_status_class_def log_request_outcome_def Let_def

lemma outcome_recorded [simp]:
  "outcomes (record_response i s t) = outcomes t + 1"
  "outcomes (record_rejection i s t) = outcomes t + 1"
  "outcomes (record_rate_limited i t) = outcomes t + 1"
  "outcomes (record_overloaded i t) = outcomes t + 1"
  "outcomes (start_request seq t) = outcomes t"
  "outcomes (observation_drop t) = outcomes t"
  by (auto simp: outcomes_def record_defs start_request_def observation_drop_def)

lemma status_classified [simp]:
  "classified (record_response i s t) = classified t + 1"
  "classified (record_rejection i s t) = classified t + 1"
  "classified (record_rate_limited i t) = classified t + 1"
  "classified (record_overloaded i t) = classified t + 1"
  "classified (start_request seq t) = classified t"
  "classified (observation_drop t) = classified t"
  by (auto simp: classified_def record_defs start_request_def observation_drop_def)

lemma requests_counted [simp]:
  "tl_requests_total (record_response i s t) = tl_requests_total t"
  "tl_requests_total (record_rejection i s t) = tl_requests_total t"
  "tl_requests_total (record_rate_limited i t) = tl_requests_total t"
  "tl_requests_total (record_overloaded i t) = tl_requests_total t"
  "tl_requests_total (start_request seq t) = tl_requests_total t + 1"
  "tl_requests_total (observation_drop t) = tl_requests_total t"
  by (auto simp: record_defs start_request_def observation_drop_def)

lemma in_flight_kept [simp]:
  "tl_in_flight (record_response i s t) = tl_in_flight t"
  "tl_in_flight (record_rejection i s t) = tl_in_flight t"
  "tl_in_flight (record_rate_limited i t) = tl_in_flight t"
  "tl_in_flight (record_overloaded i t) = tl_in_flight t"
  "tl_in_flight (start_request seq t) = tl_in_flight t + 1"
  "tl_in_flight (observation_drop t) = tl_in_flight t - 1"
  by (auto simp: record_defs start_request_def observation_drop_def)

lemma drain_signal_start_iff: "drain_signal_start shutdown changes \<longleftrightarrow> shutdown \<or> True \<in> set changes"
proof -
  have "drain_signal_loop changes \<longleftrightarrow> True \<in> set changes" by (induction changes) auto
  then show ?thesis by (simp add: drain_signal_start_def)
qed

end
