(* ===== verification/Edge_Identity.thy ===== *)
theory Edge_Identity
  imports Core_Lib
begin

text \<open>
  The public-identity part of \<open>crates/oxo-pingora-edge/src/lib.rs\<close>: which client address the edge
  believes. CIDR matching is on machine words, as in the code. The operator messages of CIDR
  parsing are the constructors of \<open>cidr_error\<close>.
\<close>

section \<open>CIDR blocks\<close>

record ip_cidr =
  ic_network :: ip_addr
  ic_prefix :: u8

datatype cidr_error =
  CidrMissingPrefix string
| CidrInvalidIp string
| CidrInvalidPrefix string
| CidrPrefixTooLong string nat
| NoTrustedCidrs

definition cidr_parse :: "string \<Rightarrow> cidr_error + ip_cidr" where
  "cidr_parse raw =
     and_then (ok_or (CidrMissingPrefix raw) (split_once (CHR ''/'') raw)) (\<lambda>(network, prefix).
     and_then (ok_or (CidrInvalidIp raw) (parse_ip network)) (\<lambda>network.
     and_then (ok_or (CidrInvalidPrefix raw) (parse_uint 255 prefix)) (\<lambda>prefix.
     let lim = (case network of V4 _ \<Rightarrow> 32 | V6 _ \<Rightarrow> 128) in
     if prefix > lim then Inl (CidrPrefixTooLong raw lim)
     else Inr \<lparr>ic_network = network, ic_prefix = of_nat prefix\<rparr>)))"

definition prefix_match_u32 :: "u32 \<Rightarrow> u32 \<Rightarrow> u8 \<Rightarrow> bool" where
  "prefix_match_u32 network ip prefix =
     (if prefix = 0 then True
      else
        (let mask = push_bit (unat (32 - prefix)) (- 1)
         in (network AND mask) = (ip AND mask)))"

definition prefix_match_u128 :: "u128 \<Rightarrow> u128 \<Rightarrow> u8 \<Rightarrow> bool" where
  "prefix_match_u128 network ip prefix =
     (if prefix = 0 then True
      else
        (let mask = push_bit (unat (128 - prefix)) (- 1)
         in (network AND mask) = (ip AND mask)))"

definition cidr_contains :: "ip_cidr \<Rightarrow> ip_addr \<Rightarrow> bool" where
  "cidr_contains c ip =
     (case (ic_network c, ip) of
        (V4 n, V4 i) \<Rightarrow> prefix_match_u32 n i (ic_prefix c)
      | (V6 n, V6 i) \<Rightarrow> prefix_match_u128 n i (ic_prefix c)
      | _ \<Rightarrow> False)"

section \<open>Policies\<close>

datatype identity_rejection =
  MalformedImmediatePeer
| UntrustedImmediatePeer
| MissingForwardedFor
| DuplicateForwardedFor
| AmbiguousForwardingHeader
| MalformedForwardedFor
| NoUntrustedClientIp

definition rejection_status :: "identity_rejection \<Rightarrow> u16" where
  "rejection_status r = (case r of UntrustedImmediatePeer \<Rightarrow> 403 | _ \<Rightarrow> 400)"

type_synonym trusted_proxies = "ip_cidr list"

datatype identity_policy = DirectPublic | TrustedProxy trusted_proxies

fun parse_cidr_list :: "string list \<Rightarrow> cidr_error + ip_cidr list" where
  "parse_cidr_list [] = Inr []"
| "parse_cidr_list (raw # raws) =
     and_then (cidr_parse raw) (\<lambda>c. and_then (parse_cidr_list raws) (\<lambda>cs. Inr (c # cs)))"

definition proxy_parse_all :: "string list \<Rightarrow> cidr_error + trusted_proxies" where
  "proxy_parse_all raws = (if raws = [] then Inl NoTrustedCidrs else parse_cidr_list raws)"

definition proxy_contains :: "trusted_proxies \<Rightarrow> ip_addr \<Rightarrow> bool" where
  "proxy_contains cidrs ip \<longleftrightarrow> list_ex (\<lambda>c. cidr_contains c ip) cidrs"

definition parse_peer_ip :: "string \<Rightarrow> ip_addr option" where
  "parse_peer_ip s = or_else (parse_ip s) (map_option sock_ip (parse_socket_addr s))"

definition normalize_peer_addr :: "string \<Rightarrow> string" where
  "normalize_peer_addr s = (case parse_peer_ip s of Some ip \<Rightarrow> show_ip ip | None \<Rightarrow> s)"

text \<open>The scan over the (lowercased) headers: the one x-forwarded-for value, if any.\<close>

fun scan_forwarded :: "string option \<Rightarrow> (string \<times> string) list \<Rightarrow> identity_rejection + string option" where
  "scan_forwarded xff [] = Inr xff"
| "scan_forwarded xff ((lower, v) # hs) =
     (if lower = ''x-forwarded-for'' then
        (if xff \<noteq> None then Inl DuplicateForwardedFor else scan_forwarded (Some v) hs)
      else if is_client_forwarding_header lower then Inl AmbiguousForwardingHeader
      else scan_forwarded xff hs)"

fun parse_chain :: "string list \<Rightarrow> identity_rejection + ip_addr list" where
  "parse_chain [] = Inr []"
| "parse_chain (tok # toks) =
     (let tok = trim tok in
      if tok = [] then Inl MalformedForwardedFor
      else
        and_then (ok_or MalformedForwardedFor (parse_ip tok)) (\<lambda>ip.
        and_then (parse_chain toks) (\<lambda>ips. Inr (ip # ips))))"

definition resolve_remote_addr_core ::
  "trusted_proxies \<Rightarrow> ip_addr \<Rightarrow> (string \<times> string) list \<Rightarrow> identity_rejection + string" where
  "resolve_remote_addr_core cidrs peer_ip lowered =
     (if \<not> proxy_contains cidrs peer_ip then Inl UntrustedImmediatePeer
      else
        and_then (scan_forwarded None lowered) (\<lambda>xff.
        and_then (ok_or MissingForwardedFor xff) (\<lambda>chain.
        and_then (parse_chain (split_on (CHR '','') chain)) (\<lambda>parsed.
        case find (\<lambda>ip. \<not> proxy_contains cidrs ip) (rev parsed) of
          Some ip \<Rightarrow> Inr (show_ip ip)
        | None \<Rightarrow> Inl NoUntrustedClientIp))))"

definition proxy_resolve_remote_addr ::
  "trusted_proxies \<Rightarrow> string \<Rightarrow> (string \<times> string) list \<Rightarrow> identity_rejection + string" where
  "proxy_resolve_remote_addr cidrs peer_addr headers =
     and_then (ok_or MalformedImmediatePeer (parse_peer_ip peer_addr)) (\<lambda>peer_ip.
     resolve_remote_addr_core cidrs peer_ip (map (\<lambda>(n, v). (to_ascii_lowercase n, v)) headers))"

definition resolve_remote_addr ::
  "identity_policy \<Rightarrow> string \<Rightarrow> (string \<times> string) list \<Rightarrow> identity_rejection + string" where
  "resolve_remote_addr policy peer_addr headers =
     (case policy of
        DirectPublic \<Rightarrow> Inr (normalize_peer_addr peer_addr)
      | TrustedProxy cidrs \<Rightarrow> proxy_resolve_remote_addr cidrs peer_addr headers)"

section \<open>What a block contains\<close>

lemma mask_eq_iff_bits:
  fixes a b :: "'a::len word"
  shows "(a AND push_bit n (- 1)) = (b AND push_bit n (- 1)) \<longleftrightarrow> drop_bit n a = drop_bit n b"
proof
  assume eq: "(a AND push_bit n (- 1)) = (b AND push_bit n (- 1))"
  show "drop_bit n a = drop_bit n b"
  proof (rule bit_word_eqI)
    fix i assume "i < LENGTH('a)"
    have "bit (a AND push_bit n (- 1)) (n + i) = bit (b AND push_bit n (- 1)) (n + i)" using eq by simp
    then show "bit (drop_bit n a) i = bit (drop_bit n b) i"
      by (cases "n + i < LENGTH('a)") (auto simp: bit_simps dest: bit_imp_le_length)
  qed
next
  assume eq: "drop_bit n a = drop_bit n b"
  show "(a AND push_bit n (- 1)) = (b AND push_bit n (- 1))"
  proof (rule bit_word_eqI)
    fix i assume "i < LENGTH('a)"
    have "bit (drop_bit n a) (i - n) = bit (drop_bit n b) (i - n)" using eq by simp
    then show "bit (a AND push_bit n (- 1)) i = bit (b AND push_bit n (- 1)) i"
      by (auto simp: bit_simps)
  qed
qed

lemma drop_bit_div: "drop_bit n a = drop_bit n b \<longleftrightarrow> unat a div 2 ^ n = unat b div 2 ^ n"
  by (simp only: word_unat_eq_iff unat_drop_bit_eq) (simp add: drop_bit_eq_div)

text \<open>
  CIDR membership is what the notation means. A parsed block has a prefix of at most 32 (IPv4)
  or 128 (IPv6) bits, and it contains an address exactly when both are of the same family and
  agree on their leading prefix bits; the shift amount never reaches the word width.
\<close>

theorem cidr_contains_iff_same_prefix:
  assumes "cidr_parse raw = Inr c"
  shows "(case ic_network c of
      V4 n \<Rightarrow> unat (ic_prefix c) \<le> 32 \<and>
        (cidr_contains c ip \<longleftrightarrow>
          (\<exists>i. ip = V4 i \<and> unat n div 2 ^ (32 - unat (ic_prefix c)) = unat i div 2 ^ (32 - unat (ic_prefix c))))
    | V6 n \<Rightarrow> unat (ic_prefix c) \<le> 128 \<and>
        (cidr_contains c ip \<longleftrightarrow>
          (\<exists>i. ip = V6 i \<and> unat n div 2 ^ (128 - unat (ic_prefix c)) = unat i div 2 ^ (128 - unat (ic_prefix c)))))"
proof -
  let ?p = "ic_prefix c"
  have len: "unat ?p \<le> (case ic_network c of V4 _ \<Rightarrow> 32 | V6 _ \<Rightarrow> 128)"
    using assms by (auto simp: cidr_parse_def Let_def ok_or_eq_Inr unat_of_nat take_bit_nat_eq_self
        elim!: and_then_InrE split: if_split_asm ip_addr.splits dest!: parse_uint_bound)
  have zero: "unat (w :: 'a::len word) div 2 ^ LENGTH('a) = 0" for w
    using unsigned_less [of w, where 'a = nat] by simp
  show ?thesis
  proof (cases "ic_network c")
    case (V4 n)
    with len have p: "unat ?p \<le> 32" by simp
    then have shift: "unat (32 - ?p) = 32 - unat ?p"
      by (simp add: unat_sub_if_size)
    have "prefix_match_u32 n i ?p \<longleftrightarrow> unat n div 2 ^ (32 - unat ?p) = unat i div 2 ^ (32 - unat ?p)" for i
    proof (cases "?p = 0")
      case True
      then show ?thesis using zero [of n] zero [of i] by (simp add: prefix_match_u32_def)
    next
      case False
      then show ?thesis
        by (simp only: prefix_match_u32_def Let_def if_False mask_eq_iff_bits drop_bit_div shift)
    qed
    with V4 p show ?thesis by (cases ip) (auto simp: cidr_contains_def)
  next
    case (V6 n)
    with len have p: "unat ?p \<le> 128" by simp
    then have shift: "unat (128 - ?p) = 128 - unat ?p"
      by (simp add: unat_sub_if_size)
    have "prefix_match_u128 n i ?p \<longleftrightarrow> unat n div 2 ^ (128 - unat ?p) = unat i div 2 ^ (128 - unat ?p)" for i
    proof (cases "?p = 0")
      case True
      then show ?thesis using zero [of n] zero [of i] by (simp add: prefix_match_u128_def)
    next
      case False
      then show ?thesis
        by (simp only: prefix_match_u128_def Let_def if_False mask_eq_iff_bits drop_bit_div shift)
    qed
    with V6 p show ?thesis by (cases ip) (auto simp: cidr_contains_def)
  qed
qed

lemma sample_cidr_parse: "cidr_parse ''10.0.0.0/8'' = Inr \<lparr>ic_network = V4 0x0A000000, ic_prefix = 8\<rparr>"
  by (simp add: cidr_parse_def parse_ip_def parse_all_input_def read_ip_def eval_parse_ip parse_uint_def
      strip_plus_def)

theorem cidr_contains_iff_same_prefix_witness:
  "cidr_contains \<lparr>ic_network = V4 0x0A000000, ic_prefix = 8\<rparr> (V4 0x0A010203) \<and>
   \<not> cidr_contains \<lparr>ic_network = V4 0x0A000000, ic_prefix = 8\<rparr> (V4 0x0B000000)"
  using cidr_contains_iff_same_prefix [OF sample_cidr_parse, of "V4 0x0A010203"]
    cidr_contains_iff_same_prefix [OF sample_cidr_parse, of "V4 0x0B000000"]
  by simp

section \<open>Which address is believed\<close>

lemma scan_forwarded_Inr:
  assumes "scan_forwarded xff hs = Inr out"
  shows "(\<forall>(n, v) \<in> set hs. is_client_forwarding_header n \<longrightarrow> n = ''x-forwarded-for'') \<and>
    map snd (filter (\<lambda>h. fst h = ''x-forwarded-for'') hs) = (case out of None \<Rightarrow> [] | Some v \<Rightarrow> if xff = None then [v] else []) \<and>
    (xff \<noteq> None \<longrightarrow> out = xff)"
  using assms
proof (induction xff hs rule: scan_forwarded.induct)
  case (2 xff lower v hs)
  then show ?case by (auto split: if_split_asm option.splits)
qed (auto split: option.splits)

lemma parse_chain_Inr:
  "parse_chain toks = Inr ips \<longleftrightarrow> map (\<lambda>t. parse_ip (trim t)) toks = map Some ips \<and> (\<forall>t \<in> set toks. trim t \<noteq> [])"
  by (induction toks arbitrary: ips) (auto simp: Let_def and_then_eq_Inr ok_or_eq_Inr Cons_eq_map_conv)

lemma parse_chain_append:
  "parse_chain (a @ b) = and_then (parse_chain a) (\<lambda>x. and_then (parse_chain b) (\<lambda>y. Inr (x @ y)))"
proof (induction a)
  case (Cons t a)
  then show ?case by (simp add: Let_def and_then_assoc)
qed (cases "parse_chain b"; simp)

lemma find_rev_Some:
  "find P (rev xs) = Some x \<longleftrightarrow> (\<exists>pre suf. xs = pre @ x # suf \<and> P x \<and> (\<forall>y \<in> set suf. \<not> P y))"
proof (induction xs rule: rev_induct)
  case (snoc y xs)
  show ?case
  proof (cases "P y")
    case True
    have "(\<exists>pre suf. xs @ [y] = pre @ x # suf \<and> P x \<and> (\<forall>z \<in> set suf. \<not> P z)) \<longleftrightarrow> x = y"
    proof
      assume "\<exists>pre suf. xs @ [y] = pre @ x # suf \<and> P x \<and> (\<forall>z \<in> set suf. \<not> P z)"
      then obtain pre suf where s: "xs @ [y] = pre @ x # suf" "\<forall>z \<in> set suf. \<not> P z" by blast
      show "x = y"
      proof (cases suf rule: rev_cases)
        case (snoc suf' z)
        with s(1) have "z = y" by simp
        with s(2) snoc True show ?thesis by simp
      qed (use s in simp)
    qed (use True in \<open>auto intro: exI [of _ xs] exI [of _ "[]"]\<close>)
    with True show ?thesis by auto
  next
    case False
    have "(\<exists>pre suf. xs @ [y] = pre @ x # suf \<and> P x \<and> (\<forall>z \<in> set suf. \<not> P z)) \<longleftrightarrow>
        (\<exists>pre suf. xs = pre @ x # suf \<and> P x \<and> (\<forall>z \<in> set suf. \<not> P z))"
    proof
      assume "\<exists>pre suf. xs @ [y] = pre @ x # suf \<and> P x \<and> (\<forall>z \<in> set suf. \<not> P z)"
      then obtain pre suf where s: "xs @ [y] = pre @ x # suf" "P x" "\<forall>z \<in> set suf. \<not> P z" by blast
      then show "\<exists>pre suf. xs = pre @ x # suf \<and> P x \<and> (\<forall>z \<in> set suf. \<not> P z)"
        using False by (cases suf rule: rev_cases) auto
    next
      assume "\<exists>pre suf. xs = pre @ x # suf \<and> P x \<and> (\<forall>z \<in> set suf. \<not> P z)"
      then obtain pre suf where "xs = pre @ x # suf" "P x" "\<forall>z \<in> set suf. \<not> P z" by blast
      with False show "\<exists>pre suf. xs @ [y] = pre @ x # suf \<and> P x \<and> (\<forall>z \<in> set suf. \<not> P z)"
        by (intro exI [of _ pre] exI [of _ "suf @ [y]"]) auto
    qed
    with False snoc show ?thesis by simp
  qed
qed simp

text \<open>
  C27: The client address the edge believes behind trusted proxies. If an address is returned, the
  immediate peer is a trusted proxy, there is exactly one x-forwarded-for header and no other
  forwarding header, every entry of its chain is an IP address, and the result is the rightmost
  entry that is not a trusted proxy: everything to its right was appended by trusted proxies.
\<close>

theorem trusted_proxy_rightmost_untrusted:
  assumes "resolve_remote_addr_core cidrs peer lowered = Inr r"
  shows "proxy_contains cidrs peer \<and>
    (\<forall>h \<in> set lowered. is_client_forwarding_header (fst h) \<longrightarrow> fst h = ''x-forwarded-for'') \<and>
    (\<exists>chain pre ip suf.
      map snd (filter (\<lambda>h. fst h = ''x-forwarded-for'') lowered) = [chain] \<and>
      parse_chain (split_on (CHR '','') chain) = Inr (pre @ ip # suf) \<and>
      r = show_ip ip \<and> \<not> proxy_contains cidrs ip \<and> list_all (proxy_contains cidrs) suf)"
proof -
  from assms obtain chain ips where peer: "proxy_contains cidrs peer"
    and scan: "scan_forwarded None lowered = Inr (Some chain)"
    and ips: "parse_chain (split_on (CHR '','') chain) = Inr ips"
    and pick: "(case find (\<lambda>ip. \<not> proxy_contains cidrs ip) (rev ips) of
        Some ip \<Rightarrow> Inr (show_ip ip) | None \<Rightarrow> Inl NoUntrustedClientIp) = Inr r"
    by (auto simp: resolve_remote_addr_core_def ok_or_eq_Inr elim!: and_then_InrE split: if_split_asm)
  then obtain ip where "find (\<lambda>ip. \<not> proxy_contains cidrs ip) (rev ips) = Some ip" "r = show_ip ip"
    by (auto split: option.splits)
  then obtain pre suf where "ips = pre @ ip # suf" "\<not> proxy_contains cidrs ip"
      "\<forall>y \<in> set suf. proxy_contains cidrs y" "r = show_ip ip"
    by (auto simp: find_rev_Some)
  then show ?thesis
    using scan_forwarded_Inr [OF scan] peer ips
    by (auto simp: list_all_iff split_def intro!: exI [of _ chain])
qed

definition sample_proxies :: trusted_proxies where
  "sample_proxies = [\<lparr>ic_network = V4 0x0A000000, ic_prefix = 8\<rparr>]"

lemma sample_chain_parses:
  "parse_chain (split_on (CHR '','') ''1.2.3.4,10.1.2.3'') = Inr [V4 0x01020304, V4 0x0A010203]"
  by (simp add: eval_trim Let_def parse_ip_def parse_all_input_def read_ip_def eval_parse_ip)

lemma sample_resolves:
  "resolve_remote_addr_core sample_proxies (V4 0x0A000001)
     ([] @ (''x-forwarded-for'', ''1.2.3.4,10.1.2.3'') # [(''accept'', ''*/*'')]) = Inr (show_ip (V4 0x01020304))"
proof -
  have "proxy_contains sample_proxies (V4 0x0A000001)" "proxy_contains sample_proxies (V4 0x0A010203)"
    "\<not> proxy_contains sample_proxies (V4 0x01020304)"
    by (simp_all add: proxy_contains_def sample_proxies_def cidr_contains_def prefix_match_u32_def Let_def
        mask_eq_iff_bits drop_bit_div del: push_bit_minus_one_eq_not_mask)
  then show ?thesis
    by (simp add: resolve_remote_addr_core_def sample_chain_parses [simplified] is_client_forwarding_header_def
        starts_with_def)
qed

theorem trusted_proxy_rightmost_untrusted_witness:
  "proxy_contains sample_proxies (V4 0x0A000001)"
  using trusted_proxy_rightmost_untrusted [OF sample_resolves] by blast

lemma split_on_append:
  "split_on c (a @ c # b) = split_on c a @ split_on c b"
proof (induction a)
  case (Cons x a)
  then show ?case by (cases "split_on c a") (auto split: list.splits)
qed simp

lemma scan_forwarded_Some_v:
  "scan_forwarded (Some v) hs = Inr out \<Longrightarrow> out = Some v \<and> scan_forwarded (Some w) hs = Inr (Some w)"
  by (induction "Some v" hs rule: scan_forwarded.induct) (auto split: if_split_asm)

lemma scan_forwarded_replace:
  "scan_forwarded None (b @ (''x-forwarded-for'', v) # a) = Inr out \<Longrightarrow>
     out = Some v \<and> scan_forwarded None (b @ (''x-forwarded-for'', w) # a) = Inr (Some w)"
proof (induction b)
  case Nil
  then show ?case using scan_forwarded_Some_v [of v a out w] by simp
next
  case (Cons h b)
  show ?case
  proof (cases "fst h = ''x-forwarded-for''")
    case True
    with Cons.prems obtain u where "scan_forwarded (Some u) (b @ (''x-forwarded-for'', v) # a) = Inr out"
      by (cases h) auto
    then have "False" by (induction b) (auto split: if_split_asm)
    then show ?thesis ..
  next
    case False
    with Cons show ?thesis by (cases h) (auto split: if_split_asm)
  qed
qed

lemma parse_chain_error: "parse_chain toks = Inl e \<Longrightarrow> e = MalformedForwardedFor"
  by (induction toks) (auto simp: and_then_eq_Inl ok_or_def Let_def split: if_split_asm option.splits)

lemma find_append: "find P (a @ b) = (case find P a of Some x \<Rightarrow> Some x | None \<Rightarrow> find P b)"
  by (induction a) auto

text \<open>
  A client cannot choose the address the edge believes. Proxies append to x-forwarded-for, so
  the client controls only a prefix of the header the edge receives; putting anything in front of a
  chain that resolves either leaves the resolved address unchanged or makes the request be
  rejected as malformed.
\<close>

theorem forwarded_prefix_cannot_spoof:
  assumes "resolve_remote_addr_core cidrs peer (before @ (''x-forwarded-for'', chain) # after) = Inr r"
  shows "resolve_remote_addr_core cidrs peer
      (before @ (''x-forwarded-for'', evil @ CHR '','' # chain) # after) \<in>
    {Inr r, Inl MalformedForwardedFor}"
proof -
  from assms obtain c ips where peer: "proxy_contains cidrs peer"
    and scan: "scan_forwarded None (before @ (''x-forwarded-for'', chain) # after) = Inr (Some c)"
    and ips: "parse_chain (split_on (CHR '','') c) = Inr ips"
    and pick: "(case find (\<lambda>ip. \<not> proxy_contains cidrs ip) (rev ips) of
        Some ip \<Rightarrow> Inr (show_ip ip) | None \<Rightarrow> Inl NoUntrustedClientIp) = Inr r"
    by (auto simp: resolve_remote_addr_core_def ok_or_eq_Inr elim!: and_then_InrE split: if_split_asm)
  have c: "c = chain" and scan': "scan_forwarded None
      (before @ (''x-forwarded-for'', evil @ CHR '','' # chain) # after) = Inr (Some (evil @ CHR '','' # chain))"
    using scan_forwarded_replace [OF scan, of "evil @ CHR '','' # chain"] by auto
  show ?thesis
  proof (cases "parse_chain (split_on (CHR '','') evil)")
    case (Inl e)
    then have "e = MalformedForwardedFor" by (rule parse_chain_error)
    with Inl peer scan' show ?thesis
      by (simp add: resolve_remote_addr_core_def split_on_append parse_chain_append)
  next
    case (Inr evil_ips)
    from pick obtain ip where ip: "find (\<lambda>ip. \<not> proxy_contains cidrs ip) (rev ips) = Some ip" "r = show_ip ip"
      by (auto split: option.splits)
    then have "find (\<lambda>ip. \<not> proxy_contains cidrs ip) (rev (evil_ips @ ips)) = Some ip"
      by (simp add: find_append)
    with Inr ips peer scan' ip c show ?thesis
      by (simp add: resolve_remote_addr_core_def split_on_append parse_chain_append)
  qed
qed

theorem forwarded_prefix_cannot_spoof_witness:
  "resolve_remote_addr_core sample_proxies (V4 0x0A000001)
     [(''x-forwarded-for'', ''6.6.6.6,1.2.3.4,10.1.2.3''), (''accept'', ''*/*'')] \<in>
   {Inr (show_ip (V4 0x01020304)), Inl MalformedForwardedFor}"
  using forwarded_prefix_cannot_spoof [OF sample_resolves, of "''6.6.6.6''"] by simp

end
