(* ===== verification/Header_Policy.thy ===== *)
theory Header_Policy
  imports Core_Lib "HOL-Library.Multiset"
begin

text \<open>
  The contract every hop applies to client headers before they can become \<open>HTTP_*\<close> variables
  of the Rack environment. \<open>app_header_name\<close> says which names may reach the application; the
  locale \<open>app_header_filter\<close> is the interface of a hop's filter, one header in and at most one
  header out, and its lemmas are the guarantees the filtered list inherits. The worker's HTTP
  path, the worker's frame path and the edge's two sanitizers interpret it. The last section
  shows why underscores are refused: on such names the CGI key of a header determines its name.
\<close>

type_synonym header = "string \<times> string"

definition app_header_name :: "string \<Rightarrow> bool" where
  "app_header_name n \<longleftrightarrow>
     to_ascii_lowercase n = n \<and> CHR ''_'' \<notin> set n \<and> \<not> is_client_forwarding_header n \<and>
     \<not> starts_with n ''x-oxo-'' \<and> n \<noteq> ''connection''"

text \<open>\<open>visible\<close> is what the stage before the filter guarantees of every header it passes on.\<close>

locale app_header_filter =
  fixes visible :: "header \<Rightarrow> bool" and keep :: "header \<Rightarrow> header option"
  assumes keep_name: "visible h \<Longrightarrow> keep h = Some h' \<Longrightarrow> fst h' = to_ascii_lowercase (fst h)"
    and keep_value: "visible h \<Longrightarrow> keep h = Some h' \<Longrightarrow> snd h' = snd h"
    and keep_safe: "visible h \<Longrightarrow> keep h = Some h' \<Longrightarrow> app_header_name (fst h')"
begin

lemma run_safe:
  assumes "\<forall>h \<in> set hs. visible h" and "h \<in> set (List.map_filter keep hs)"
  shows "app_header_name (fst h)"
  using assms keep_safe by (auto simp: map_filter_def)

lemma run_origin:
  assumes "\<forall>h \<in> set hs. visible h" and "(n, v) \<in> set (List.map_filter keep hs)"
  shows "\<exists>m. (m, v) \<in> set hs \<and> n = to_ascii_lowercase m"
proof -
  from assms(2) obtain h where h: "h \<in> set hs" "keep h = Some (n, v)"
    by (auto simp: map_filter_def)
  then have "n = to_ascii_lowercase (fst h)" "v = snd h"
    using assms(1) keep_name [of h "(n, v)"] keep_value [of h "(n, v)"] by auto
  with h(1) show ?thesis by (auto intro!: exI [of _ "fst h"])
qed

lemma run_forgery_free:
  assumes "\<forall>h \<in> set hs. visible h" and "\<not> app_header_name n"
  shows "n \<notin> fst ` set (List.map_filter keep hs)"
  using run_safe [OF assms(1)] assms(2) by fastforce

lemma run_distinct:
  assumes "\<forall>h \<in> set hs. visible h" and "distinct (map (\<lambda>h. to_ascii_lowercase (fst h)) hs)"
  shows "distinct (map fst (List.map_filter keep hs))"
  using assms
proof (induction hs)
  case (Cons h hs)
  have "fst h' \<notin> fst ` set (List.map_filter keep hs)" if h': "keep h = Some h'" for h'
  proof
    assume "fst h' \<in> fst ` set (List.map_filter keep hs)"
    then obtain v where "(fst h', v) \<in> set (List.map_filter keep hs)" by fastforce
    then obtain m where "(m, v) \<in> set hs" "fst h' = to_ascii_lowercase m"
      using run_origin [of hs "fst h'" v] Cons.prems(1) by auto
    moreover have "fst h' = to_ascii_lowercase (fst h)" using keep_name h' Cons.prems(1) by auto
    ultimately show False using Cons.prems(2) by force
  qed
  moreover have "distinct (map fst (List.map_filter keep hs))" using Cons by simp
  ultimately show ?case by (simp add: map_filter_simps split: option.split)
qed (simp add: map_filter_simps)

end

lemma map_filter_mset: "mset hs = mset gs \<Longrightarrow> mset (List.map_filter f hs) = mset (List.map_filter f gs)"
  by (simp add: map_filter_def)

section \<open>CGI keys\<close>

definition upper_char :: "char \<Rightarrow> char" where
  "upper_char c = (if is_ascii_lowercase (byte c) then byte_char (byte c - 0x20) else c)"

text \<open>
  \<open>'HTTP_' + k.upcase.tr('-', '_')\<close>, the Rack environment key of a request header (header names
  are ASCII tokens).
\<close>

definition cgi_char :: "char \<Rightarrow> char" where
  "cgi_char c = (if upper_char c = CHR ''-'' then CHR ''_'' else upper_char c)"

definition cgi_key :: "string \<Rightarrow> string" where
  "cgi_key k = ''HTTP_'' @ map cgi_char k"

lemma char_eq_code: "c = d \<longleftrightarrow> unat (byte c) = unat (byte d)"
  by (simp add: word_unat_eq_iff [symmetric])

lemma byte_punctuation: "byte (CHR ''-'') = 45" "byte (CHR ''_'') = 95"
  by (simp_all add: byte_def)

lemma unat_upper_char:
  "unat (byte (upper_char c)) =
     (if 97 \<le> unat (byte c) \<and> unat (byte c) \<le> 122 then unat (byte c) - 32 else unat (byte c))"
  by (simp add: upper_char_def is_ascii_lowercase_def word_le_nat_alt unat_sub_if_size)

lemma unat_cgi_char:
  "unat (byte (cgi_char c)) =
     (if unat (byte c) = 45 then 95
      else if 97 \<le> unat (byte c) \<and> unat (byte c) \<le> 122 then unat (byte c) - 32
      else unat (byte c))"
  by (auto simp: cgi_char_def char_eq_code [of "upper_char c"] unat_upper_char byte_punctuation)

lemma lower_char_fixed: "lower_char c = c \<longleftrightarrow> \<not> (65 \<le> unat (byte c) \<and> unat (byte c) \<le> 90)"
proof
  assume "lower_char c = c"
  then show "\<not> (65 \<le> unat (byte c) \<and> unat (byte c) \<le> 90)"
    using lower_char_upper_range(1) [of c] by (auto simp: is_ascii_uppercase_def word_le_nat_alt)
qed (auto simp: lower_char_def is_ascii_uppercase_def word_le_nat_alt)

lemma cgi_char_inj:
  assumes "cgi_char c = cgi_char d" and "lower_char c = c" and "lower_char d = d"
    and "c \<noteq> CHR ''_''" and "d \<noteq> CHR ''_''"
  shows "c = d"
proof -
  have "unat (byte c) \<noteq> 95" "unat (byte d) \<noteq> 95"
    using assms(4,5) by (auto simp: char_eq_code [of c] char_eq_code [of d] byte_punctuation)
  moreover have "unat (byte (cgi_char c)) = unat (byte (cgi_char d))" using assms(1) by simp
  ultimately have "unat (byte c) = unat (byte d)"
    using assms(2,3) unfolding lower_char_fixed unat_cgi_char
    by (auto split: if_splits)
  then show ?thesis by (simp add: char_eq_code)
qed

lemma cgi_key_inj:
  assumes "cgi_key m = cgi_key n"
    and "to_ascii_lowercase m = m" "CHR ''_'' \<notin> set m"
    and "to_ascii_lowercase n = n" "CHR ''_'' \<notin> set n"
  shows "m = n"
proof -
  have "map cgi_char m = map cgi_char n" using assms(1) by (simp add: cgi_key_def)
  then show ?thesis using assms(2-)
  proof (induction m arbitrary: n)
    case (Cons c m)
    obtain d n' where n: "n = d # n'" and eq: "cgi_char c = cgi_char d" "map cgi_char m = map cgi_char n'"
      using Cons.prems(1) by (cases n) auto
    have "c = d" using Cons.prems(2-) n
      by (intro cgi_char_inj [OF eq(1)]) (simp_all add: to_ascii_lowercase_def, blast+)
    moreover have "m = n'" using Cons.prems(2-) n
      by (intro Cons.IH [OF eq(2)]) (simp_all add: to_ascii_lowercase_def)
    ultimately show ?case using n by simp
  qed simp
qed

end
