(* ===== verification/Edge_Headers.thy ===== *)
theory Edge_Headers
  imports Edge_Identity Header_Policy "HOL-Library.Sublist"
begin

text \<open>
  The request-header part of \<open>crates/oxo-pingora-edge/src/lib.rs\<close>: the trusted metadata, the
  sanitizer of the HTTP hop and its allocation-free twin for the frame hop, which returns a
  128-bit keep mask over the caller's headers instead of a new list; and the edge's basic
  configuration with its worker set. \<open>LoweredHeader\<close> keeps its lowercase name only when it
  differs from the original, as in the source. A \<open>BTreeSet\<close> of strings is a list used for
  membership.
\<close>

section \<open>Data\<close>

record trusted_hop_metadata =
  tm_remote_addr :: string
  tm_url_scheme :: string
  tm_server_name :: string
  tm_server_port :: u16
  tm_request_id :: "string option"

definition metadata_headers :: "trusted_hop_metadata \<Rightarrow> header list" where
  "metadata_headers m =
     [(''x-oxo-remote-addr'', tm_remote_addr m), (''x-oxo-url-scheme'', tm_url_scheme m),
      (''x-oxo-server-name'', tm_server_name m),
      (''x-oxo-server-port'', to_string (unat (tm_server_port m)))] @
     (case tm_request_id m of Some r \<Rightarrow> [(''x-oxo-request-id'', r)] | None \<Rightarrow> [])"

datatype request_rejection = UpgradeUnsupported | GrpcUnsupported | StreamingUnsupported

record sanitized_request =
  sr_headers :: "header list"
  sr_stripped_headers :: "string list"

record protocol_support =
  ps_sse :: bool

record lowered_header =
  lh_name :: string
  lh_value :: string
  lh_lower :: "string option"

definition lowered_new :: "string \<Rightarrow> string \<Rightarrow> lowered_header" where
  "lowered_new name v =
     \<lparr>lh_name = name, lh_value = v,
      lh_lower =
        (if list_ex is_ascii_uppercase (as_bytes name) then Some (to_ascii_lowercase name) else None)\<rparr>"

definition lowered_lower :: "lowered_header \<Rightarrow> string" where
  "lowered_lower h = (case lh_lower h of Some l \<Rightarrow> l | None \<Rightarrow> lh_name h)"

section \<open>Media types\<close>

definition media_type :: "string \<Rightarrow> string" where
  "media_type v = to_ascii_lowercase (trim (hd (split_on (CHR '';'') v)))"

definition is_native_grpc_content_type :: "string \<Rightarrow> bool" where
  "is_native_grpc_content_type v \<longleftrightarrow>
     media_type v = ''application/grpc'' \<or> starts_with (media_type v) ''application/grpc+''"

definition is_grpc_web_content_type :: "string \<Rightarrow> bool" where
  "is_grpc_web_content_type v \<longleftrightarrow>
     media_type v = ''application/grpc-web'' \<or> starts_with (media_type v) ''application/grpc-web+''"

definition is_grpc_content_type :: "string \<Rightarrow> bool" where
  "is_grpc_content_type v \<longleftrightarrow> is_native_grpc_content_type v \<or> is_grpc_web_content_type v"

definition is_valid_grpc_timeout :: "string \<Rightarrow> bool" where
  "is_valid_grpc_timeout v =
     (let v = trim v in
      if \<not> (2 \<le> length v \<and> length v \<le> 9) then False
      else
        (let digits = butlast v; u = last v in
         digits \<noteq> [] \<and> length digits \<le> 8 \<and> list_all is_ascii_digit (as_bytes digits) \<and>
         u \<in> set ''HMSmun''))"

definition accepts_event_stream :: "string \<Rightarrow> bool" where
  "accepts_event_stream v \<longleftrightarrow>
     list_ex (\<lambda>part. trim (hd (split_on (CHR '';'') part)) = ''text/event-stream'')
       (split_on (CHR '','') (to_ascii_lowercase v))"

section \<open>Stripping\<close>

definition hop_by_hop_name :: "string \<Rightarrow> bool" where
  "hop_by_hop_name n \<longleftrightarrow>
     n \<in> set
       [''connection'', ''keep-alive'', ''proxy-authenticate'', ''proxy-authorization'',
        ''proxy-connection'', ''te'', ''trailer'', ''transfer-encoding'', ''upgrade'', ''x-request-id'']"

definition should_strip_header :: "string \<Rightarrow> string list \<Rightarrow> bool" where
  "should_strip_header lower tokens \<longleftrightarrow>
     hop_by_hop_name lower \<or> is_client_forwarding_header lower \<or> starts_with lower ''x-oxo-'' \<or>
     lower \<in> set tokens"

definition should_strip_header_scan :: "string \<Rightarrow> (string \<Rightarrow> bool) \<Rightarrow> bool" where
  "should_strip_header_scan lower connection_names_match \<longleftrightarrow>
     hop_by_hop_name lower \<or> is_client_forwarding_header lower \<or> starts_with lower ''x-oxo-'' \<or>
     connection_names_match lower"

text \<open>The checks both loops make on a header before they consider stripping it.\<close>

definition header_rejection :: "protocol_support \<Rightarrow> lowered_header \<Rightarrow> request_rejection option" where
  "header_rejection protocols h =
     (let v = lh_value h; lower = lowered_lower h in
      if lower = ''upgrade'' \<or> starts_with lower ''sec-websocket-'' then Some UpgradeUnsupported
      else if lower = ''content-type'' \<and> is_grpc_content_type v then Some GrpcUnsupported
      else if \<not> ps_sse protocols \<and>
        ((lower = ''accept'' \<and> accepts_event_stream v) \<or> lower = ''last-event-id'')
      then Some StreamingUnsupported
      else None)"

section \<open>The owned sanitizer\<close>

fun add_tokens :: "string list \<Rightarrow> string list \<Rightarrow> request_rejection + string list" where
  "add_tokens acc [] = Inr acc"
| "add_tokens acc (tok # toks) =
     (let tok = to_ascii_lowercase (trim tok) in
      if tok = [] then add_tokens acc toks
      else if tok = ''upgrade'' then Inl UpgradeUnsupported
      else add_tokens (acc @ [tok]) toks)"

fun connection_tokens :: "string list \<Rightarrow> lowered_header list \<Rightarrow> request_rejection + string list" where
  "connection_tokens acc [] = Inr acc"
| "connection_tokens acc (h # hs) =
     (if lowered_lower h = ''connection'' then
        and_then (add_tokens acc (split_on (CHR '','') (lh_value h))) (\<lambda>acc. connection_tokens acc hs)
      else connection_tokens acc hs)"

fun strip_loop ::
  "protocol_support \<Rightarrow> string list \<Rightarrow> lowered_header list \<Rightarrow> header list \<Rightarrow> string list
     \<Rightarrow> request_rejection + sanitized_request" where
  "strip_loop protocols tokens [] clean stripped =
     Inr \<lparr>sr_headers = clean, sr_stripped_headers = stripped\<rparr>"
| "strip_loop protocols tokens (h # hs) clean stripped =
     (case header_rejection protocols h of
        Some r \<Rightarrow> Inl r
      | None \<Rightarrow>
          if should_strip_header (lowered_lower h) tokens
          then strip_loop protocols tokens hs clean (stripped @ [lh_name h])
          else strip_loop protocols tokens hs (clean @ [(lh_name h, lh_value h)]) stripped)"

definition sanitize_bare :: "lowered_header list \<Rightarrow> protocol_support \<Rightarrow> request_rejection + sanitized_request" where
  "sanitize_bare headers protocols =
     and_then (connection_tokens [] headers) (\<lambda>tokens. strip_loop protocols tokens headers [] [])"

definition sanitize_lowered ::
  "lowered_header list \<Rightarrow> trusted_hop_metadata \<Rightarrow> protocol_support \<Rightarrow> request_rejection + sanitized_request" where
  "sanitize_lowered headers m protocols =
     and_then (sanitize_bare headers protocols) (\<lambda>s.
     Inr (s\<lparr>sr_headers := sr_headers s @ metadata_headers m @ [(''connection'', ''close'')]\<rparr>))"

definition sanitize_with_protocols ::
  "header list \<Rightarrow> trusted_hop_metadata \<Rightarrow> protocol_support \<Rightarrow> request_rejection + sanitized_request" where
  "sanitize_with_protocols headers m protocols =
     sanitize_lowered (map (\<lambda>(n, v). lowered_new n v) headers) m protocols"

section \<open>The frame sanitizer\<close>

record frame_header_plan =
  fp_keep :: "u64 \<times> u64"
  fp_survivor_count :: usize
  fp_has_host :: bool

definition keep_word :: "u64 \<times> u64 \<Rightarrow> nat \<Rightarrow> u64" where
  "keep_word k i = (if i = 0 then fst k else snd k)"

definition set_keep :: "u64 \<times> u64 \<Rightarrow> nat \<Rightarrow> u64 \<times> u64" where
  "set_keep k i =
     (if i div 64 = 0 then (fst k OR push_bit (i mod 64) 1, snd k)
      else (fst k, snd k OR push_bit (i mod 64) 1))"

definition plan_keeps :: "frame_header_plan \<Rightarrow> nat \<Rightarrow> bool" where
  "plan_keeps p i \<longleftrightarrow> i < 128 \<and> (drop_bit (i mod 64) (keep_word (fp_keep p) (i div 64))) AND 1 = 1"

definition upgrade_token :: "lowered_header \<Rightarrow> bool" where
  "upgrade_token h \<longleftrightarrow>
     lowered_lower h = ''connection'' \<and>
     list_ex (\<lambda>tok. trim tok \<noteq> [] \<and> eq_ignore_ascii_case (trim tok) ''upgrade'')
       (split_on (CHR '','') (lh_value h))"

definition connection_names_match :: "lowered_header list \<Rightarrow> string \<Rightarrow> bool" where
  "connection_names_match headers candidate \<longleftrightarrow>
     list_ex (\<lambda>h. list_ex (\<lambda>tok. trim tok \<noteq> [] \<and> eq_ignore_ascii_case (trim tok) candidate)
         (split_on (CHR '','') (lh_value h)))
       (filter (\<lambda>h. lowered_lower h = ''connection'') headers)"

fun plan_loop ::
  "protocol_support \<Rightarrow> (string \<Rightarrow> bool) \<Rightarrow> nat \<Rightarrow> lowered_header list \<Rightarrow> frame_header_plan
     \<Rightarrow> request_rejection + frame_header_plan" where
  "plan_loop protocols names i [] plan = Inr plan"
| "plan_loop protocols names i (h # hs) plan =
     (case header_rejection protocols h of
        Some r \<Rightarrow> Inl r
      | None \<Rightarrow>
          if should_strip_header_scan (lowered_lower h) names then plan_loop protocols names (Suc i) hs plan
          else
            plan_loop protocols names (Suc i) hs
              \<lparr>fp_keep = set_keep (fp_keep plan) i, fp_survivor_count = fp_survivor_count plan + 1,
               fp_has_host = (fp_has_host plan \<or> lowered_lower h = ''host'')\<rparr>)"

definition sanitize_frame_headers ::
  "lowered_header list \<Rightarrow> protocol_support \<Rightarrow> request_rejection + frame_header_plan" where
  "sanitize_frame_headers headers protocols =
     (if length headers > 128 then Inl UpgradeUnsupported
      else if list_ex upgrade_token headers then Inl UpgradeUnsupported
      else
        plan_loop protocols (connection_names_match headers) 0 headers
          \<lparr>fp_keep = (0, 0), fp_survivor_count = 0, fp_has_host = False\<rparr>)"

section \<open>Lowered names and connection tokens\<close>

lemma lowered_lower_new [simp]: "lowered_lower (lowered_new n v) = to_ascii_lowercase n"
proof (cases "list_ex is_ascii_uppercase (as_bytes n)")
  case False
  then have "to_ascii_lowercase n = n"
    by (intro to_ascii_lowercase_id) (auto simp: list_ex_iff list_all_iff as_bytes_def)
  with False show ?thesis by (simp add: lowered_lower_def lowered_new_def)
qed (simp add: lowered_lower_def lowered_new_def)

lemma lowered_new_fields [simp]: "lh_name (lowered_new n v) = n" "lh_value (lowered_new n v) = v"
  by (simp_all add: lowered_new_def)

definition token_names :: "string list \<Rightarrow> string list" where
  "token_names toks = filter (\<lambda>t. t \<noteq> []) (map (\<lambda>t. to_ascii_lowercase (trim t)) toks)"

definition header_tokens :: "lowered_header list \<Rightarrow> string list" where
  "header_tokens hs =
     concat (map (\<lambda>h. if lowered_lower h = ''connection''
       then token_names (split_on (CHR '','') (lh_value h)) else []) hs)"

lemma lower_eq_Nil: "to_ascii_lowercase s = [] \<longleftrightarrow> s = []"
  by (simp add: to_ascii_lowercase_def)

lemma add_tokens_eq:
  "add_tokens acc toks =
     (if ''upgrade'' \<in> set (token_names toks) then Inl UpgradeUnsupported else Inr (acc @ token_names toks))"
  by (induction toks arbitrary: acc) (auto simp: token_names_def Let_def lower_eq_Nil)

lemma connection_tokens_eq:
  "connection_tokens acc hs =
     (if ''upgrade'' \<in> set (header_tokens hs) then Inl UpgradeUnsupported else Inr (acc @ header_tokens hs))"
  by (induction hs arbitrary: acc) (auto simp: header_tokens_def add_tokens_eq)

lemma lower_upgrade: "to_ascii_lowercase ''upgrade'' = ''upgrade''"
  by (simp add: to_ascii_lowercase_def lower_char_def is_ascii_uppercase_def byte_def)

lemma token_names_mem:
  "to_ascii_lowercase c = c \<Longrightarrow>
     c \<in> set (token_names toks) \<longleftrightarrow> list_ex (\<lambda>t. trim t \<noteq> [] \<and> eq_ignore_ascii_case (trim t) c) toks"
  by (auto simp: token_names_def list_ex_iff eq_ignore_ascii_case_def lower_eq_Nil)

lemma connection_names_match_iff:
  "to_ascii_lowercase c = c \<Longrightarrow> connection_names_match hs c \<longleftrightarrow> c \<in> set (header_tokens hs)"
  by (auto simp: connection_names_match_def header_tokens_def list_ex_iff token_names_mem split: if_splits)

lemma upgrade_token_iff: "list_ex upgrade_token hs \<longleftrightarrow> ''upgrade'' \<in> set (header_tokens hs)"
  using token_names_mem [OF lower_upgrade]
  by (auto simp: upgrade_token_def header_tokens_def list_ex_iff split: if_splits)

section \<open>Both loops\<close>

fun first_rejection :: "protocol_support \<Rightarrow> lowered_header list \<Rightarrow> request_rejection option" where
  "first_rejection protocols [] = None"
| "first_rejection protocols (h # hs) =
     (case header_rejection protocols h of Some r \<Rightarrow> Some r | None \<Rightarrow> first_rejection protocols hs)"

definition survives :: "string list \<Rightarrow> lowered_header \<Rightarrow> bool" where
  "survives tokens h \<longleftrightarrow> \<not> should_strip_header (lowered_lower h) tokens"

definition header_pair :: "lowered_header \<Rightarrow> header" where
  "header_pair h = (lh_name h, lh_value h)"

lemma strip_loop_eq:
  "strip_loop protocols tokens hs clean stripped =
     (case first_rejection protocols hs of
        Some r \<Rightarrow> Inl r
      | None \<Rightarrow>
          Inr \<lparr>sr_headers = clean @ map header_pair (filter (survives tokens) hs),
               sr_stripped_headers = stripped @ map lh_name (filter (\<lambda>h. \<not> survives tokens h) hs)\<rparr>)"
  by (induction hs arbitrary: clean stripped)
    (auto simp: survives_def header_pair_def split: option.split)

lemma plan_keeps_bit:
  "plan_keeps p i \<longleftrightarrow> i < 128 \<and> bit (keep_word (fp_keep p) (i div 64)) (i mod 64)"
  by (simp add: plan_keeps_def and_one_eq bit_iff_odd_drop_bit odd_iff_mod_2_eq_one)

lemma keep_word_set_keep:
  "keep_word (set_keep k i) d =
     keep_word k d OR (if (d = 0) = (i div 64 = 0) then push_bit (i mod 64) 1 else 0)"
  by (simp add: set_keep_def keep_word_def)

lemma set_keep_bit:
  assumes "i < 128" and "j < 128"
  shows "bit (keep_word (set_keep k i) (j div 64)) (j mod 64) \<longleftrightarrow>
    j = i \<or> bit (keep_word k (j div 64)) (j mod 64)"
proof -
  have one: "bit (push_bit (i mod 64) (1 :: u64)) (j mod 64) \<longleftrightarrow> j mod 64 = i mod 64"
    by (auto simp: bit_simps)
  have div: "i div 64 = 0 \<or> i div 64 = 1" "j div 64 = 0 \<or> j div 64 = 1" using assms by auto
  then have same: "(j div 64 = 0) = (i div 64 = 0) \<longleftrightarrow> j div 64 = i div 64" by metis
  have "j = j div 64 * 64 + j mod 64" "i = i div 64 * 64 + i mod 64" by simp_all
  then have "j = i" if "j div 64 = i div 64" "j mod 64 = i mod 64" using that by metis
  then have "j div 64 = i div 64 \<and> j mod 64 = i mod 64 \<longleftrightarrow> j = i" by blast
  then show ?thesis
    unfolding keep_word_set_keep same bit_or_iff
    by (cases "j div 64 = i div 64") (simp_all only: one if_True if_False bit_0_eq bot_apply bot_bool_def simp_thms disj_commute)
qed

lemma plan_loop_eq:
  assumes "i + length hs \<le> 128" and "\<forall>h \<in> set hs. names (lowered_lower h) \<longleftrightarrow> lowered_lower h \<in> set tokens"
  shows "case first_rejection protocols hs of
      Some r \<Rightarrow> plan_loop protocols names i hs plan = Inl r
    | None \<Rightarrow> (\<exists>plan'. plan_loop protocols names i hs plan = Inr plan' \<and>
        fp_survivor_count plan' = fp_survivor_count plan + length (filter (survives tokens) hs) \<and>
        (fp_has_host plan' \<longleftrightarrow>
          fp_has_host plan \<or> list_ex (\<lambda>h. survives tokens h \<and> lowered_lower h = ''host'') hs) \<and>
        (\<forall>j. plan_keeps plan' j \<longleftrightarrow>
          plan_keeps plan j \<or> (i \<le> j \<and> j < i + length hs \<and> survives tokens (hs ! (j - i)))))"
  using assms
proof (induction hs arbitrary: i plan)
  case Nil
  then show ?case by auto
next
  case (Cons h hs)
  show ?case
  proof (cases "header_rejection protocols h")
    case (Some r)
    then show ?thesis by simp
  next
    case None
    let ?plan = "\<lparr>fp_keep = set_keep (fp_keep plan) i, fp_survivor_count = fp_survivor_count plan + 1,
       fp_has_host = (fp_has_host plan \<or> lowered_lower h = ''host'')\<rparr>"
    have strip: "should_strip_header_scan (lowered_lower h) names \<longleftrightarrow> \<not> survives tokens h"
      using Cons.prems(2) by (simp add: should_strip_header_scan_def survives_def should_strip_header_def)
    define next_plan where "next_plan = (if survives tokens h then ?plan else plan)"
    have loop: "plan_loop protocols names i (h # hs) plan = plan_loop protocols names (Suc i) hs next_plan"
      using None strip by (simp add: next_plan_def)
    have keeps: "plan_keeps next_plan j \<longleftrightarrow> plan_keeps plan j \<or> (j = i \<and> survives tokens h)" for j
      using Cons.prems(1) set_keep_bit [of i j "fp_keep plan"]
      by (auto simp: next_plan_def plan_keeps_bit)
    have idx: "(i \<le> j \<and> j < i + length (h # hs) \<and> survives tokens ((h # hs) ! (j - i))) \<longleftrightarrow>
        (j = i \<and> survives tokens h) \<or>
        (Suc i \<le> j \<and> j < Suc i + length hs \<and> survives tokens (hs ! (j - Suc i)))" for j
      by (cases "j = i") (auto simp: nth_Cons' Suc_le_eq)
    have count: "fp_survivor_count next_plan = fp_survivor_count plan + (if survives tokens h then 1 else 0)"
      "fp_has_host next_plan \<longleftrightarrow> fp_has_host plan \<or> (survives tokens h \<and> lowered_lower h = ''host'')"
      by (simp_all add: next_plan_def)
    have "Suc i + length hs \<le> 128" "\<forall>h \<in> set hs. names (lowered_lower h) \<longleftrightarrow> lowered_lower h \<in> set tokens"
      using Cons.prems by simp_all
    from Cons.IH [OF this, of next_plan] show ?thesis
      unfolding loop using None count keeps idx
      by (cases "first_rejection protocols hs") auto
  qed
qed

section \<open>The two sanitizers agree\<close>

definition lowered_all :: "header list \<Rightarrow> lowered_header list" where
  "lowered_all raw = map (\<lambda>(n, v). lowered_new n v) raw"

lemma lowered_all_simps [simp]:
  "lowered_all [] = []" "lowered_all (h # hs) = lowered_new (fst h) (snd h) # lowered_all hs"
  "length (lowered_all raw) = length raw"
  by (simp_all add: lowered_all_def case_prod_beta)

lemma lowered_all_lower:
  "h \<in> set (lowered_all raw) \<Longrightarrow> to_ascii_lowercase (lowered_lower h) = lowered_lower h"
  by (auto simp: lowered_all_def)

lemma header_pair_lowered [simp]: "header_pair (lowered_new n v) = (n, v)"
  by (simp add: header_pair_def)

lemma filter_by_index: "map ((!) xs) (filter (\<lambda>i. P (xs ! i)) [0..<length xs]) = filter P xs"
proof -
  have "filter P (map ((!) xs) [0..<length xs]) = map ((!) xs) (filter (P \<circ> (!) xs) [0..<length xs])"
    by (rule filter_map)
  then show ?thesis unfolding map_nth comp_def by (rule sym)
qed

lemma sanitize_bare_eq:
  "sanitize_bare hs protocols =
     (if ''upgrade'' \<in> set (header_tokens hs) then Inl UpgradeUnsupported
      else case first_rejection protocols hs of
        Some r \<Rightarrow> Inl r
      | None \<Rightarrow>
          Inr \<lparr>sr_headers = map header_pair (filter (survives (header_tokens hs)) hs),
               sr_stripped_headers = map lh_name (filter (\<lambda>h. \<not> survives (header_tokens hs) h) hs)\<rparr>)"
  by (simp add: sanitize_bare_def connection_tokens_eq strip_loop_eq split: option.split)

lemma plan_keeps_none [simp]: "\<not> plan_keeps \<lparr>fp_keep = (0, 0), fp_survivor_count = n, fp_has_host = b\<rparr> j"
  by (simp add: plan_keeps_bit keep_word_def)

lemma sanitize_frame_headers_eq:
  assumes "length raw \<le> 128" and hs: "hs = lowered_all raw" and "''upgrade'' \<notin> set (header_tokens hs)"
  shows "case first_rejection protocols hs of
      Some r \<Rightarrow> sanitize_frame_headers hs protocols = Inl r
    | None \<Rightarrow> (\<exists>plan. sanitize_frame_headers hs protocols = Inr plan \<and>
        fp_survivor_count plan = length (filter (survives (header_tokens hs)) hs) \<and>
        (fp_has_host plan \<longleftrightarrow> list_ex (\<lambda>h. survives (header_tokens hs) h \<and> lowered_lower h = ''host'') hs) \<and>
        (\<forall>j. plan_keeps plan j \<longleftrightarrow> j < length hs \<and> survives (header_tokens hs) (hs ! j)))"
proof -
  have names: "\<forall>h \<in> set hs. connection_names_match hs (lowered_lower h) \<longleftrightarrow>
      lowered_lower h \<in> set (header_tokens hs)"
    using lowered_all_lower connection_names_match_iff hs by blast
  have len: "0 + length hs \<le> 128" using assms by simp
  have "sanitize_frame_headers hs protocols = plan_loop protocols (connection_names_match hs) 0 hs
      \<lparr>fp_keep = (0, 0), fp_survivor_count = 0, fp_has_host = False\<rparr>"
    using assms by (simp add: sanitize_frame_headers_def upgrade_token_iff)
  with plan_loop_eq [OF len names, of protocols "\<lparr>fp_keep = (0, 0), fp_survivor_count = 0, fp_has_host = False\<rparr>"]
  show ?thesis by (simp split: option.splits)
qed

lemma survivors_raw:
  "map header_pair (filter (survives tokens) (lowered_all raw)) =
     filter (\<lambda>(n, v). \<not> should_strip_header (to_ascii_lowercase n) tokens) raw"
  by (induction raw) (auto simp: survives_def)

lemma stripped_raw:
  "map lh_name (filter (\<lambda>h. \<not> survives tokens h) (lowered_all raw)) =
     map fst (filter (\<lambda>(n, v). should_strip_header (to_ascii_lowercase n) tokens) raw)"
  by (induction raw) (auto simp: survives_def)

lemma keep_indices:
  assumes "\<forall>j. plan_keeps plan j \<longleftrightarrow> j < length raw \<and> survives tokens (lowered_all raw ! j)"
  shows "map ((!) raw) (filter (plan_keeps plan) [0..<length raw]) =
    map header_pair (filter (survives tokens) (lowered_all raw))"
proof -
  have "survives tokens (lowered_all raw ! j) \<longleftrightarrow>
      (case raw ! j of (n, v) \<Rightarrow> \<not> should_strip_header (to_ascii_lowercase n) tokens)" if "j < length raw" for j
    using that by (simp add: lowered_all_def survives_def case_prod_beta)
  then have "filter (plan_keeps plan) [0..<length raw] =
      filter (\<lambda>j. case raw ! j of (n, v) \<Rightarrow> \<not> should_strip_header (to_ascii_lowercase n) tokens) [0..<length raw]"
    using assms by (intro filter_cong) auto
  then show ?thesis by (simp only: filter_by_index survivors_raw)
qed

lemma host_survivor:
  "list_ex (\<lambda>h. survives tokens h \<and> lowered_lower h = ''host'') (lowered_all raw) =
     list_ex (\<lambda>(name, v). to_ascii_lowercase name = ''host'')
       (map header_pair (filter (survives tokens) (lowered_all raw)))"
  by (induction raw) auto

lemma frame_plan_Inr:
  assumes "length raw \<le> 128" and s: "sanitize_bare (lowered_all raw) protocols = Inr s"
  obtains plan where "sanitize_frame_headers (lowered_all raw) protocols = Inr plan"
    and "\<And>j. plan_keeps plan j \<Longrightarrow> j < length raw"
    and "map ((!) raw) (filter (plan_keeps plan) [0..<length raw]) = sr_headers s"
    and "fp_survivor_count plan = length (sr_headers s)"
    and "fp_has_host plan = list_ex (\<lambda>(name, v). to_ascii_lowercase name = ''host'') (sr_headers s)"
proof -
  let ?hs = "lowered_all raw" and ?t = "header_tokens (lowered_all raw)"
  from s have up: "''upgrade'' \<notin> set ?t" and rej: "first_rejection protocols ?hs = None"
    and hdrs: "sr_headers s = map header_pair (filter (survives ?t) ?hs)"
    by (auto simp: sanitize_bare_eq split: if_splits option.splits)
  from sanitize_frame_headers_eq [OF assms(1) refl up, of protocols] rej
  obtain plan where plan: "sanitize_frame_headers ?hs protocols = Inr plan"
    "fp_survivor_count plan = length (filter (survives ?t) ?hs)"
    "fp_has_host plan \<longleftrightarrow> list_ex (\<lambda>h. survives ?t h \<and> lowered_lower h = ''host'') ?hs"
    "\<forall>j. plan_keeps plan j \<longleftrightarrow> j < length ?hs \<and> survives ?t (?hs ! j)"
    by auto
  with that [of plan] show thesis
    using hdrs keep_indices [of plan raw ?t] host_survivor [of ?t raw] by simp
qed

text \<open>
  C10: The allocation-free frame sanitizer is equivalent to the owned sanitizer on every request
  of at most 128 headers: it rejects exactly the same requests with the same rejection, and
  otherwise the indices its 128-bit mask keeps are the surviving headers, in order, its survivor
  count is their number, nothing past the last header is kept, and the host flag tells whether a
  host header survived.
\<close>
theorem frame_plan_matches_owned:
  assumes "length raw \<le> 128"
  shows "case sanitize_bare (lowered_all raw) protocols of
      Inl r \<Rightarrow> sanitize_frame_headers (lowered_all raw) protocols = Inl r
    | Inr s \<Rightarrow> (\<exists>plan. sanitize_frame_headers (lowered_all raw) protocols = Inr plan \<and>
        map ((!) raw) (filter (plan_keeps plan) [0..<length raw]) = sr_headers s \<and>
        filter (plan_keeps plan) [length raw..<n] = [] \<and>
        fp_survivor_count plan = length (sr_headers s) \<and>
        fp_has_host plan = list_ex (\<lambda>(name, v). to_ascii_lowercase name = ''host'') (sr_headers s))"
proof (cases "sanitize_bare (lowered_all raw) protocols")
  case (Inl r)
  then show ?thesis
    using sanitize_frame_headers_eq [OF assms refl, of protocols]
    by (auto simp: sanitize_bare_eq sanitize_frame_headers_def upgrade_token_iff
        split: if_split_asm option.split_asm)
next
  case (Inr s)
  from frame_plan_Inr [OF assms this] obtain plan where
    "sanitize_frame_headers (lowered_all raw) protocols = Inr plan"
    "\<And>j. plan_keeps plan j \<Longrightarrow> j < length raw"
    "map ((!) raw) (filter (plan_keeps plan) [0..<length raw]) = sr_headers s"
    "fp_survivor_count plan = length (sr_headers s)"
    "fp_has_host plan = list_ex (\<lambda>(name, v). to_ascii_lowercase name = ''host'') (sr_headers s)"
    by metis
  with Inr show ?thesis by (fastforce simp: filter_empty_conv)
qed

definition sample_edge_headers :: "header list" where
  "sample_edge_headers =
     [(''Host'', ''shop.example''), (''Connection'', ''close,X-Trace''), (''X-Trace'', ''1''),
      (''X-Oxo-Remote-Addr'', ''6.6.6.6''), (''X-Forwarded-For'', ''6.6.6.6''), (''Accept'', ''text/html'')]"

lemma sample_lower:
  "to_ascii_lowercase ''Host'' = ''host''" "to_ascii_lowercase ''Connection'' = ''connection''"
  "to_ascii_lowercase ''X-Trace'' = ''x-trace''" "to_ascii_lowercase ''close'' = ''close''"
  "to_ascii_lowercase ''X-Oxo-Remote-Addr'' = ''x-oxo-remote-addr''"
  "to_ascii_lowercase ''X-Forwarded-For'' = ''x-forwarded-for''"
  "to_ascii_lowercase ''Accept'' = ''accept''" "to_ascii_lowercase ''text/html'' = ''text/html''"
  by (simp_all add: to_ascii_lowercase_def lower_char_def is_ascii_uppercase_def byte_def byte_char_def
      char_of_eq_iff)

lemma sample_tokens: "header_tokens (lowered_all sample_edge_headers) = [''close'', ''x-trace'']"
  by (simp add: header_tokens_def sample_edge_headers_def token_names_def sample_lower eval_trim)

lemma sample_no_rejection: "first_rejection \<lparr>ps_sse = False\<rparr> (lowered_all sample_edge_headers) = None"
  by (simp add: header_rejection_def sample_edge_headers_def sample_lower starts_with_def
      accepts_event_stream_def eval_trim)

lemma sample_sanitized:
  "sanitize_bare (lowered_all sample_edge_headers) \<lparr>ps_sse = False\<rparr> =
     Inr \<lparr>sr_headers = [(''Host'', ''shop.example''), (''Accept'', ''text/html'')],
          sr_stripped_headers = [''Connection'', ''X-Trace'', ''X-Oxo-Remote-Addr'', ''X-Forwarded-For'']\<rparr>"
  unfolding sanitize_bare_eq sample_tokens sample_no_rejection survivors_raw stripped_raw
  by (simp add: sample_edge_headers_def should_strip_header_def sample_lower hop_by_hop_name_def
      is_client_forwarding_header_def starts_with_def)

theorem frame_plan_matches_owned_witness:
  "\<exists>plan. sanitize_frame_headers (lowered_all sample_edge_headers) \<lparr>ps_sse = False\<rparr> = Inr plan \<and>
     map ((!) sample_edge_headers) (filter (plan_keeps plan) [0..<length sample_edge_headers]) =
       [(''Host'', ''shop.example''), (''Accept'', ''text/html'')] \<and>
     fp_survivor_count plan = 2 \<and> fp_has_host plan"
proof -
  have "length sample_edge_headers \<le> 128" by (simp add: sample_edge_headers_def)
  from frame_plan_matches_owned [OF this, of "\<lparr>ps_sse = False\<rparr>" 0]
  show ?thesis by (simp add: sample_sanitized sample_lower numeral_2_eq_2)
qed

section \<open>What the worker can trust on the HTTP hop\<close>

lemma metadata_names:
  assumes "(n, v) \<in> set (metadata_headers m)"
  shows "to_ascii_lowercase n = n" "starts_with n ''x-oxo-''" "\<not> hop_by_hop_name n"
    "\<not> is_client_forwarding_header n"
  using assms
  by (auto simp: metadata_headers_def to_ascii_lowercase_def lower_char_def is_ascii_uppercase_def byte_def
      starts_with_def hop_by_hop_name_def is_client_forwarding_header_def split: option.splits)

lemma connection_close_name:
  "to_ascii_lowercase ''connection'' = ''connection''" "\<not> starts_with ''connection'' ''x-oxo-''"
  "hop_by_hop_name ''connection''" "\<not> is_client_forwarding_header ''connection''"
  by (simp_all add: to_ascii_lowercase_def lower_char_def is_ascii_uppercase_def byte_def
      starts_with_def hop_by_hop_name_def is_client_forwarding_header_def)

lemma sanitize_with_protocols_Inr:
  assumes "sanitize_with_protocols raw m protocols = Inr s"
  shows "sr_headers s =
      filter (\<lambda>(n, v). \<not> should_strip_header (to_ascii_lowercase n) (header_tokens (lowered_all raw))) raw @
      metadata_headers m @ [(''connection'', ''close'')]"
    and "sr_stripped_headers s = map fst
      (filter (\<lambda>(n, v). should_strip_header (to_ascii_lowercase n) (header_tokens (lowered_all raw))) raw)"
  using assms
  by (auto simp: sanitize_with_protocols_def sanitize_lowered_def lowered_all_def [symmetric] sanitize_bare_eq
      survivors_raw stripped_raw split: if_split_asm option.splits elim!: and_then_InrE)

text \<open>
  C11: On the HTTP hop the worker can trust the reserved namespace: in a sanitized request the
  \<open>x-oxo-\<close> headers are exactly the edge's own metadata, in order; no client forwarding header is
  left, in any capitalisation; the only hop-by-hop header is the appended connection close; and
  the client's headers appear in their original order, without those that a Connection header
  nominates, every other name being reported as stripped.
\<close>
theorem sanitized_request_trusted:
  assumes "sanitize_with_protocols raw m protocols = Inr s"
  shows "filter (\<lambda>(n, v). starts_with (to_ascii_lowercase n) ''x-oxo-'') (sr_headers s) = metadata_headers m
    \<and> filter (\<lambda>(n, v). is_client_forwarding_header (to_ascii_lowercase n)) (sr_headers s) = []
    \<and> filter (\<lambda>(n, v). hop_by_hop_name (to_ascii_lowercase n)) (sr_headers s) = [(''connection'', ''close'')]
    \<and> (\<exists>kept. sr_headers s = kept @ metadata_headers m @ [(''connection'', ''close'')]
        \<and> subseq kept raw \<and> mset (map fst raw) = mset (map fst kept) + mset (sr_stripped_headers s)
        \<and> list_all (\<lambda>(n, v). \<not> connection_names_match (lowered_all raw) (to_ascii_lowercase n)) kept)"
proof -
  let ?strip = "\<lambda>(n, v). should_strip_header (to_ascii_lowercase n) (header_tokens (lowered_all raw))"
  let ?kept = "filter (\<lambda>h. \<not> ?strip h) raw"
  have s: "sr_headers s = ?kept @ metadata_headers m @ [(''connection'', ''close'')]"
      "sr_stripped_headers s = map fst (filter ?strip raw)"
    using sanitize_with_protocols_Inr [OF assms] by (simp_all add: case_prod_unfold)
  have kept: "filter (\<lambda>(n, v). P (to_ascii_lowercase n)) ?kept = []"
    if "\<And>n tokens. P n \<Longrightarrow> should_strip_header n tokens" for P
    using that by (auto simp: filter_empty_conv)
  have meta: "filter (\<lambda>(n, v). P (to_ascii_lowercase n)) (metadata_headers m) = []"
    if "\<And>n v. (n, v) \<in> set (metadata_headers m) \<Longrightarrow> \<not> P n" for P
    using that metadata_names(1) by (auto simp: filter_empty_conv)
  have metas: "filter (\<lambda>(n, v). starts_with (to_ascii_lowercase n) ''x-oxo-'') (metadata_headers m) = metadata_headers m"
    using metadata_names by (intro filter_True) auto
  have names: "list_all (\<lambda>(n, v). \<not> connection_names_match (lowered_all raw) (to_ascii_lowercase n)) ?kept"
    using connection_names_match_iff [OF to_ascii_lowercase_idem]
    by (auto simp: list_all_iff should_strip_header_def)
  have parts: "mset (map fst xs) = mset (map fst (filter (\<lambda>h. \<not> P h) xs)) + mset (map fst (filter P xs))"
    for xs :: "header list" and P by (induction xs) auto
  have x: "filter (\<lambda>(n, v). starts_with (to_ascii_lowercase n) ''x-oxo-'') (sr_headers s) = metadata_headers m"
    using kept [of "\<lambda>n. starts_with n ''x-oxo-''"] metas
    by (simp add: s(1) connection_close_name should_strip_header_def)
  have f: "filter (\<lambda>(n, v). is_client_forwarding_header (to_ascii_lowercase n)) (sr_headers s) = []"
    using kept [of is_client_forwarding_header] meta [of is_client_forwarding_header] metadata_names(4)
    by (simp add: s(1) connection_close_name should_strip_header_def)
  have h: "filter (\<lambda>(n, v). hop_by_hop_name (to_ascii_lowercase n)) (sr_headers s) = [(''connection'', ''close'')]"
    using kept [of hop_by_hop_name] meta [of hop_by_hop_name] metadata_names(3)
    by (simp add: s(1) connection_close_name should_strip_header_def)
  have "sr_headers s = ?kept @ metadata_headers m @ [(''connection'', ''close'')] \<and> subseq ?kept raw
      \<and> mset (map fst raw) = mset (map fst ?kept) + mset (sr_stripped_headers s)
      \<and> list_all (\<lambda>(n, v). \<not> connection_names_match (lowered_all raw) (to_ascii_lowercase n)) ?kept"
    using s(1) names parts [of raw ?strip] unfolding s(2) by (intro conjI subseq_filter_left)
  then have "\<exists>kept. sr_headers s = kept @ metadata_headers m @ [(''connection'', ''close'')] \<and> subseq kept raw
      \<and> mset (map fst raw) = mset (map fst kept) + mset (sr_stripped_headers s)
      \<and> list_all (\<lambda>(n, v). \<not> connection_names_match (lowered_all raw) (to_ascii_lowercase n)) kept"
    by (rule exI [of _ ?kept])
  with x f h show ?thesis by (intro conjI)
qed

definition sample_metadata :: trusted_hop_metadata where
  "sample_metadata = \<lparr>tm_remote_addr = ''9.9.9.9'', tm_url_scheme = ''https'', tm_server_name = ''shop.example'',
     tm_server_port = 443, tm_request_id = None\<rparr>"

theorem sanitized_request_trusted_witness:
  "\<exists>s. sanitize_with_protocols sample_edge_headers sample_metadata \<lparr>ps_sse = False\<rparr> = Inr s \<and>
     filter (\<lambda>(n, v). starts_with (to_ascii_lowercase n) ''x-oxo-'') (sr_headers s) =
       metadata_headers sample_metadata \<and>
     filter (\<lambda>(n, v). is_client_forwarding_header (to_ascii_lowercase n)) (sr_headers s) = []"
proof -
  obtain s where "sanitize_with_protocols sample_edge_headers sample_metadata \<lparr>ps_sse = False\<rparr> = Inr s"
    using sample_sanitized by (simp add: sanitize_with_protocols_def sanitize_lowered_def lowered_all_def)
  with sanitized_request_trusted [OF this] show ?thesis by blast
qed

end
