(* ===== verification/Edge_Request.thy ===== *)
theory Edge_Request
  imports Edge_Headers
begin

text \<open>
  The request half of \<open>crates/oxo-pingora-edge/src/platform/worker_wire.rs\<close>: the three request
  validators (Rack, native gRPC, Action Cable), the buffered request body, the HTTP/1.1 request
  written to a worker, and the choice of a worker with its no-replay rule.

  The downstream session is a library object. What the code reads of its request header is the
  record \<open>client_request\<close>; what successive body reads return is a list of \<open>body_read\<close>s, the end
  of the list being a read that never completes and so runs into its timeout. A status code that
  a function returns as its error is a \<open>u16\<close>.
\<close>

section \<open>Data\<close>

record client_request =
  cr_method :: string
  cr_http2 :: bool
  cr_scheme :: "string option"
  cr_authority :: "string option"
  cr_path :: string
  cr_path_and_query :: "string option"

definition MAX_REQUEST_HEADERS :: usize where "MAX_REQUEST_HEADERS = 100"
definition MAX_REQUEST_HEADER_BYTES :: usize where "MAX_REQUEST_HEADER_BYTES = 64 * 1024"

text \<open>\<open>to_str\<close> is the header library's conversion of a value to text.\<close>

fun collect_request_headers ::
  "(u8 list \<Rightarrow> string option) \<Rightarrow> (string \<times> u8 list) list \<Rightarrow> u16 + lowered_header list" where
  "collect_request_headers to_str [] = Inr []"
| "collect_request_headers to_str ((name, v) # src) =
     and_then (ok_or 400 (to_str v)) (\<lambda>v.
     and_then (collect_request_headers to_str src) (\<lambda>hs. Inr (lowered_new name v # hs)))"

section \<open>Shared checks\<close>

definition usize_saturating_add :: "usize \<Rightarrow> usize \<Rightarrow> usize" where
  "usize_saturating_add a b = min (a + b) U64_MAX"

definition is_valid_header_name :: "u8 list \<Rightarrow> bool" where
  "is_valid_header_name bytes \<longleftrightarrow>
     bytes \<noteq> [] \<and>
     list_all (\<lambda>b. is_ascii_alphanumeric b \<or>
       b \<in> {33, 35, 36, 37, 38, 39, 42, 43, 45, 46, 94, 95, 96, 124, 126}) bytes"

definition has_invalid_header_value_bytes :: "u8 list \<Rightarrow> bool" where
  "has_invalid_header_value_bytes bytes \<longleftrightarrow> list_ex (\<lambda>b. b \<le> 8 \<or> (10 \<le> b \<and> b \<le> 31) \<or> b = 127) bytes"

definition accumulate_header_bytes :: "usize \<Rightarrow> string \<Rightarrow> string \<Rightarrow> u16 + usize" where
  "accumulate_header_bytes header_bytes name v =
     (if \<not> is_valid_header_name (as_bytes name) then Inl 400
      else
        (let header_bytes =
           usize_saturating_add (usize_saturating_add (usize_saturating_add header_bytes (length name)) (length v)) 4
         in if header_bytes > MAX_REQUEST_HEADER_BYTES then Inl 431 else Inr header_bytes))"

definition host_matches_server_name :: "string \<Rightarrow> string \<Rightarrow> bool" where
  "host_matches_server_name presented expected =
     (let host = trim presented;
          without_port = (case split_once (CHR '':'') host of Some (name, _) \<Rightarrow> name | None \<Rightarrow> host)
      in
      case strip_prefix host ''['' of
        Some rest \<Rightarrow>
          (case split_once (CHR '']'') rest of
             Some (inside, _) \<Rightarrow> eq_ignore_ascii_case inside expected
           | None \<Rightarrow> eq_ignore_ascii_case without_port expected)
      | None \<Rightarrow> eq_ignore_ascii_case without_port expected)"

definition check_public_host :: "string \<Rightarrow> string \<Rightarrow> string option \<Rightarrow> u16 + unit" where
  "check_public_host expected presented host_value =
     (if \<not> host_matches_server_name presented expected then Inl 421
      else
        (case host_value of
           Some host \<Rightarrow> if host_matches_server_name host expected then Inr () else Inl 421
         | None \<Rightarrow> Inr ()))"

fun content_length_scan :: "u64 option \<Rightarrow> lowered_header list \<Rightarrow> u16 + u64 option" where
  "content_length_scan seen [] = Inr seen"
| "content_length_scan seen (h # hs) =
     (if lowered_lower h = ''content-length'' then
        (if seen \<noteq> None then Inl 400
         else
           and_then (ok_or 400 (map_option of_nat (parse_uint U64_MAX (trim (lh_value h))))) (\<lambda>n.
           content_length_scan (Some n) hs))
      else content_length_scan seen hs)"

definition content_length :: "lowered_header list \<Rightarrow> u16 + u64 option" where
  "content_length headers = content_length_scan None headers"

definition check_body_cap :: "lowered_header list \<Rightarrow> u64 \<Rightarrow> u16 + u64 option" where
  "check_body_cap headers max_body =
     and_then (content_length headers) (\<lambda>len.
     case len of
       Some n \<Rightarrow> if n > max_body then Inl 413 else Inr len
     | None \<Rightarrow> Inr len)"

section \<open>The Rack validator\<close>

definition check_request_target :: "client_request \<Rightarrow> u16 + unit" where
  "check_request_target req =
     (case cr_path_and_query req of
        None \<Rightarrow> Inl 400
      | Some pq \<Rightarrow>
          if \<not> starts_with pq ''/'' then Inl 400
          else if cr_http2 req then
            (case cr_scheme req of
               Some scheme \<Rightarrow>
                 if \<not> eq_ignore_ascii_case scheme ''https'' then Inl 400
                 else if cr_authority req = None then Inl 400 else Inr ()
             | None \<Rightarrow> if cr_authority req = None then Inl 400 else Inr ())
          else if cr_scheme req \<noteq> None \<or> cr_authority req \<noteq> None then Inl 400
          else Inr ())"

definition refused_request_header :: "string \<Rightarrow> bool" where
  "refused_request_header lower \<longleftrightarrow>
     lower \<in> set [''expect'', ''trailer'', ''transfer-encoding'', ''http2-settings'', ''keep-alive'',
       ''proxy-connection'']"

record host_scan =
  hs_host_count :: usize
  hs_host_value :: "string option"
  hs_header_bytes :: usize

definition note_host :: "lowered_header \<Rightarrow> host_scan \<Rightarrow> host_scan" where
  "note_host h s =
     (if lowered_lower h = ''host''
      then s\<lparr>hs_host_count := hs_host_count s + 1, hs_host_value := Some (lh_value h)\<rparr> else s)"

definition close_only :: "string \<Rightarrow> bool" where
  "close_only v \<longleftrightarrow>
     list_all (\<lambda>tok. trim tok = [] \<or> eq_ignore_ascii_case (trim tok) ''close'') (split_on (CHR '','') v)"

fun client_header_loop :: "bool \<Rightarrow> host_scan \<Rightarrow> lowered_header list \<Rightarrow> u16 + host_scan" where
  "client_header_loop is_http2 s [] = Inr s"
| "client_header_loop is_http2 s (h # hs) =
     and_then (accumulate_header_bytes (hs_header_bytes s) (lh_name h) (lh_value h)) (\<lambda>n.
     let s = note_host h (s\<lparr>hs_header_bytes := n\<rparr>); lower = lowered_lower h; v = lh_value h in
     if lower = ''te'' then
       (if is_http2 \<and> eq_ignore_ascii_case (trim v) ''trailers'' then client_header_loop is_http2 s hs
        else Inl 400)
     else if refused_request_header lower then Inl 400
     else if lower = ''connection'' \<and> \<not> close_only v then Inl 400
     else client_header_loop is_http2 s hs)"

definition check_hosts :: "client_request \<Rightarrow> host_scan \<Rightarrow> string option \<Rightarrow> u16 + unit" where
  "check_hosts req s public_server_name =
     (if hs_host_count s > 1 then Inl 400
      else if cr_http2 req \<and>
        (case (hs_host_value s, cr_authority req) of
           (Some host, Some authority) \<Rightarrow> \<not> eq_ignore_ascii_case host authority
         | _ \<Rightarrow> False) then Inl 400
      else if \<not> cr_http2 req \<and> hs_host_count s \<noteq> 1 then Inl 400
      else
        (case public_server_name of
           None \<Rightarrow> Inr ()
         | Some expected \<Rightarrow>
             and_then (ok_or 400 (if cr_http2 req then cr_authority req else hs_host_value s)) (\<lambda>presented.
             check_public_host expected presented (hs_host_value s))))"

definition validate_client_request ::
  "client_request \<Rightarrow> lowered_header list \<Rightarrow> u64 \<Rightarrow> string option \<Rightarrow> u16 + u64 option" where
  "validate_client_request req headers max_body public_server_name =
     and_then (check_request_target req) (\<lambda>_.
     if eq_ignore_ascii_case (cr_method req) ''CONNECT'' then Inl 400
     else if length headers > MAX_REQUEST_HEADERS then Inl 431
     else
       and_then (client_header_loop (cr_http2 req)
         \<lparr>hs_host_count = 0, hs_host_value = None, hs_header_bytes = 0\<rparr> headers) (\<lambda>s.
       and_then (check_hosts req s public_server_name) (\<lambda>_.
       check_body_cap headers max_body)))"

section \<open>The gRPC validator\<close>

definition is_action_cable_upgrade_attempt :: "client_request \<Rightarrow> lowered_header list \<Rightarrow> bool" where
  "is_action_cable_upgrade_attempt req headers \<longleftrightarrow>
     cr_path req = ''/cable'' \<and>
     list_ex (\<lambda>h. lowered_lower h = ''upgrade'' \<and> eq_ignore_ascii_case (trim (lh_value h)) ''websocket'') headers"

definition is_native_grpc_request_attempt :: "lowered_header list \<Rightarrow> bool" where
  "is_native_grpc_request_attempt headers \<longleftrightarrow>
     list_ex (\<lambda>h. lowered_lower h = ''content-type'' \<and> is_native_grpc_content_type (lh_value h)) headers"

record grpc_scan = host_scan +
  gs_content_type_count :: usize
  gs_saw_native_grpc :: bool
  gs_saw_te_trailers :: bool
  gs_grpc_timeout_count :: usize

definition grpc_header :: "lowered_header \<Rightarrow> grpc_scan \<Rightarrow> u16 + grpc_scan" where
  "grpc_header h s =
     (let lower = lowered_lower h; v = lh_value h in
      if lower = ''host'' then
        Inr (s\<lparr>hs_host_count := hs_host_count s + 1, hs_host_value := Some v\<rparr>)
      else if lower = ''content-type'' then
        (if is_grpc_web_content_type v then Inl 415
         else Inr (s\<lparr>gs_content_type_count := gs_content_type_count s + 1,
                     gs_saw_native_grpc := is_native_grpc_content_type v\<rparr>))
      else if lower = ''te'' then
        (if eq_ignore_ascii_case (trim v) ''trailers'' then Inr (s\<lparr>gs_saw_te_trailers := True\<rparr>) else Inl 400)
      else if lower = ''grpc-timeout'' then
        (if gs_grpc_timeout_count s + 1 > 1 \<or> \<not> is_valid_grpc_timeout v then Inl 400
         else Inr (s\<lparr>gs_grpc_timeout_count := gs_grpc_timeout_count s + 1\<rparr>))
      else if lower \<in> set [''connection'', ''upgrade'', ''transfer-encoding'', ''expect'', ''trailer'',
        ''http2-settings'', ''keep-alive'', ''proxy-connection''] then Inl 400
      else Inr s)"

fun grpc_header_loop :: "grpc_scan \<Rightarrow> lowered_header list \<Rightarrow> u16 + grpc_scan" where
  "grpc_header_loop s [] = Inr s"
| "grpc_header_loop s (h # hs) =
     and_then (accumulate_header_bytes (hs_header_bytes s) (lh_name h) (lh_value h)) (\<lambda>n.
     and_then (grpc_header h (s\<lparr>hs_header_bytes := n\<rparr>)) (\<lambda>s. grpc_header_loop s hs))"

definition validate_grpc_unary_request ::
  "client_request \<Rightarrow> lowered_header list \<Rightarrow> u64 \<Rightarrow> string option \<Rightarrow> u16 + unit" where
  "validate_grpc_unary_request req headers max_body public_server_name =
     (if \<not> cr_http2 req \<or> cr_method req \<noteq> ''POST'' then Inl 400
      else
        and_then (ok_or 400 (cr_path_and_query req)) (\<lambda>pq.
        if \<not> starts_with pq ''/'' then Inl 400
        else if (case cr_scheme req of Some sc \<Rightarrow> \<not> eq_ignore_ascii_case sc ''https'' | None \<Rightarrow> False) then Inl 400
        else
          and_then (ok_or 400 (cr_authority req)) (\<lambda>authority.
          if length headers > MAX_REQUEST_HEADERS then Inl 431
          else
            and_then (grpc_header_loop
              \<lparr>hs_host_count = 0, hs_host_value = None, hs_header_bytes = 0, gs_content_type_count = 0,
               gs_saw_native_grpc = False, gs_saw_te_trailers = False, gs_grpc_timeout_count = 0\<rparr> headers) (\<lambda>s.
            if hs_host_count s > 1 \<or> gs_content_type_count s \<noteq> 1 \<or> \<not> gs_saw_native_grpc s \<or>
              \<not> gs_saw_te_trailers s then Inl 400
            else if (case hs_host_value s of Some host \<Rightarrow> \<not> eq_ignore_ascii_case host authority | None \<Rightarrow> False)
            then Inl 400
            else
              and_then (case public_server_name of
                Some expected \<Rightarrow> check_public_host expected authority (hs_host_value s) | None \<Rightarrow> Inr ()) (\<lambda>_.
              and_then (check_body_cap headers max_body) (\<lambda>_. Inr ()))))))"

section \<open>The Action Cable validator\<close>

definition is_valid_websocket_key :: "string \<Rightarrow> bool" where
  "is_valid_websocket_key v \<longleftrightarrow>
     length (trim v) = 24 \<and>
     list_all (\<lambda>b. is_ascii_alphanumeric b \<or> b \<in> set (as_bytes ''+/='')) (as_bytes (trim v))"

definition origin_matches_edge :: "string \<Rightarrow> string \<Rightarrow> string \<Rightarrow> u16 \<Rightarrow> bool" where
  "origin_matches_edge origin url_scheme server_name server_port =
     (case split_once_str ''://'' (trim origin) of
        None \<Rightarrow> False
      | Some (scheme, rest) \<Rightarrow>
          if \<not> eq_ignore_ascii_case scheme url_scheme \<or> CHR ''/'' \<in> set rest then False
          else if \<not> host_matches_server_name rest server_name then False
          else
            (let default_port =
               (url_scheme = ''http'' \<and> server_port = 80) \<or> (url_scheme = ''https'' \<and> server_port = 443)
             in
             case rsplit_once (CHR '':'') rest of
               Some (host, port) \<Rightarrow>
                 if \<not> ends_with host '']'' then
                   (case parse_uint U16_MAX port of Some n \<Rightarrow> of_nat n = server_port | None \<Rightarrow> False)
                 else default_port
             | None \<Rightarrow> default_port))"

record cable_scan = host_scan +
  cs_connection_upgrade :: bool
  cs_upgrade_websocket :: bool
  cs_websocket_key :: bool
  cs_websocket_version_13 :: bool
  cs_action_cable_subprotocol :: bool
  cs_origin_value :: "string option"

definition cable_header :: "lowered_header \<Rightarrow> cable_scan \<Rightarrow> u16 + cable_scan" where
  "cable_header h s =
     (let lower = lowered_lower h; v = lh_value h in
      if lower = ''host'' then
        Inr (s\<lparr>hs_host_count := hs_host_count s + 1, hs_host_value := Some v\<rparr>)
      else if lower = ''connection'' then
        Inr (s\<lparr>cs_connection_upgrade := cs_connection_upgrade s \<or>
          list_ex (\<lambda>tok. eq_ignore_ascii_case (trim tok) ''upgrade'') (split_on (CHR '','') v)\<rparr>)
      else if lower = ''upgrade'' then
        Inr (s\<lparr>cs_upgrade_websocket := eq_ignore_ascii_case (trim v) ''websocket''\<rparr>)
      else if lower = ''sec-websocket-key'' then Inr (s\<lparr>cs_websocket_key := is_valid_websocket_key v\<rparr>)
      else if lower = ''sec-websocket-version'' then Inr (s\<lparr>cs_websocket_version_13 := (trim v = ''13'')\<rparr>)
      else if lower = ''sec-websocket-protocol'' then
        Inr (s\<lparr>cs_action_cable_subprotocol :=
          list_ex (\<lambda>part. eq_ignore_ascii_case (trim part) ''actioncable-v1-json'') (split_on (CHR '','') v)\<rparr>)
      else if lower = ''origin'' then Inr (s\<lparr>cs_origin_value := Some v\<rparr>)
      else if lower \<in> set [''content-length'', ''transfer-encoding'', ''expect'', ''trailer'', ''http2-settings'',
        ''keep-alive'', ''proxy-connection''] then Inl 400
      else Inr s)"

fun cable_header_loop :: "cable_scan \<Rightarrow> lowered_header list \<Rightarrow> u16 + cable_scan" where
  "cable_header_loop s [] = Inr s"
| "cable_header_loop s (h # hs) =
     and_then (accumulate_header_bytes (hs_header_bytes s) (lh_name h) (lh_value h)) (\<lambda>n.
     and_then (cable_header h (s\<lparr>hs_header_bytes := n\<rparr>)) (\<lambda>s. cable_header_loop s hs))"

definition validate_action_cable_request ::
  "client_request \<Rightarrow> lowered_header list \<Rightarrow> string option \<Rightarrow> string \<Rightarrow> string \<Rightarrow> u16 \<Rightarrow> u16 + unit" where
  "validate_action_cable_request req headers public_server_name url_scheme server_name server_port =
     (if cr_http2 req then Inl 400
      else if cr_method req \<noteq> ''GET'' \<or> cr_path req \<noteq> ''/cable'' then Inl 400
      else if cr_scheme req \<noteq> None \<or> cr_authority req \<noteq> None then Inl 400
      else if length headers > MAX_REQUEST_HEADERS then Inl 431
      else
        and_then (cable_header_loop
          \<lparr>hs_host_count = 0, hs_host_value = None, hs_header_bytes = 0, cs_connection_upgrade = False,
           cs_upgrade_websocket = False, cs_websocket_key = False, cs_websocket_version_13 = False,
           cs_action_cable_subprotocol = False, cs_origin_value = None\<rparr> headers) (\<lambda>s.
        if hs_host_count s \<noteq> 1 then Inl 400
        else
          and_then (ok_or 400 (hs_host_value s)) (\<lambda>host.
          if (case public_server_name of Some expected \<Rightarrow> \<not> host_matches_server_name host expected | None \<Rightarrow> False)
          then Inl 421
          else if \<not> host_matches_server_name host server_name then Inl 421
          else if \<not> cs_connection_upgrade s \<or> \<not> cs_upgrade_websocket s \<or> \<not> cs_websocket_key s \<or>
            \<not> cs_websocket_version_13 s \<or> \<not> cs_action_cable_subprotocol s then Inl 400
          else
            (case cs_origin_value s of
               None \<Rightarrow> Inl 403
             | Some origin \<Rightarrow>
                 if \<not> origin_matches_edge origin url_scheme server_name server_port then Inl 403 else Inr ()))))"

section \<open>The request body\<close>

datatype body_read = BodyChunk "u8 list" | BodyEnd | BodyError | BodyTimeout

fun read_known_body :: "usize \<Rightarrow> u8 list \<Rightarrow> body_read list \<Rightarrow> u16 + u8 list" where
  "read_known_body expected body [] = (if length body < expected then Inl 408 else Inr body)"
| "read_known_body expected body (r # rs) =
     (if length body < expected then
        (case r of
           BodyChunk chunk \<Rightarrow>
             if length body + length chunk > expected then Inl 400
             else read_known_body expected (body @ chunk) rs
         | BodyEnd \<Rightarrow> Inl 400
         | BodyError \<Rightarrow> Inl 400
         | BodyTimeout \<Rightarrow> Inl 408)
      else Inr body)"

fun read_stream_body :: "usize \<Rightarrow> u8 list \<Rightarrow> body_read list \<Rightarrow> u16 + u8 list" where
  "read_stream_body max_body body [] = Inl 408"
| "read_stream_body max_body body (r # rs) =
     (case r of
        BodyChunk chunk \<Rightarrow>
          if usize_saturating_add (length body) (length chunk) > max_body then Inl 413
          else read_stream_body max_body (body @ chunk) rs
      | BodyEnd \<Rightarrow> Inr body
      | BodyError \<Rightarrow> Inl 400
      | BodyTimeout \<Rightarrow> Inl 408)"

definition read_complete_body :: "bool \<Rightarrow> u64 option \<Rightarrow> u64 \<Rightarrow> body_read list \<Rightarrow> u16 + u8 list" where
  "read_complete_body is_http2 content_len max_body reads =
     (case content_len of
        Some expected \<Rightarrow> if expected = 0 then Inr [] else read_known_body (unat expected) [] reads
      | None \<Rightarrow> if \<not> is_http2 then Inr [] else read_stream_body (unat max_body) [] reads)"

section \<open>The request to the worker\<close>

definition append_header_line :: "u8 list \<Rightarrow> string \<Rightarrow> string \<Rightarrow> u16 + u8 list" where
  "append_header_line request name v =
     (if \<not> is_valid_header_name (as_bytes name) \<or> has_invalid_header_value_bytes (as_bytes v) then Inl 400
      else Inr (request @ as_bytes name @ as_bytes '': '' @ as_bytes v @ [0x0D, 0x0A]))"

fun append_header_lines :: "u8 list \<Rightarrow> header list \<Rightarrow> u16 + u8 list" where
  "append_header_lines request [] = Inr request"
| "append_header_lines request ((name, v) # hs) =
     (if eq_ignore_ascii_case name ''connection'' \<or> eq_ignore_ascii_case name ''content-length''
      then append_header_lines request hs
      else and_then (append_header_line request name v) (\<lambda>request. append_header_lines request hs))"

definition build_worker_request :: "client_request \<Rightarrow> header list \<Rightarrow> u8 list \<Rightarrow> u16 + u8 list" where
  "build_worker_request req headers body =
     and_then (ok_or 400 (cr_path_and_query req)) (\<lambda>path.
     let has_host = list_ex (\<lambda>(name, _). eq_ignore_ascii_case name ''host'') headers;
         request = as_bytes (cr_method req) @ as_bytes '' '' @ as_bytes path @ as_bytes '' HTTP/1.1'' @ [0x0D, 0x0A]
     in
     and_then (if has_host then Inr request
       else (case cr_authority req of
               Some authority \<Rightarrow> append_header_line request ''Host'' authority
             | None \<Rightarrow> Inr request)) (\<lambda>request.
     and_then (append_header_lines request headers) (\<lambda>request.
     and_then (append_header_line request ''Content-Length'' (to_string (length body))) (\<lambda>request.
     and_then (append_header_line request ''Connection'' ''close'') (\<lambda>request.
     Inr (request @ [0x0D, 0x0A] @ body))))))"

section \<open>Sending to a worker\<close>

datatype worker_send_error = SendConnect | AfterWrite u16

text \<open>
  What the steps of one send report: whether draining had begun, whether connecting, writing and
  half-closing succeeded in time, and what reading the response returns.
\<close>

record send_steps =
  ss_drain :: bool
  ss_connect :: bool
  ss_write :: bool
  ss_shutdown :: bool
  ss_response :: "u16 + u16"

definition send_worker_request :: "send_steps \<Rightarrow> worker_send_error + u16" where
  "send_worker_request io =
     (if ss_drain io then Inl (AfterWrite 503)
      else if \<not> ss_connect io then Inl SendConnect
      else if \<not> ss_write io then Inl (AfterWrite 502)
      else if \<not> ss_shutdown io then Inl (AfterWrite 502)
      else map_err AfterWrite (ss_response io))"

text \<open>
  The loop over the workers, given what the steps of each attempt report; the second result is
  the workers tried, in order.
\<close>

fun try_workers :: "(nat \<Rightarrow> send_steps) \<Rightarrow> nat \<Rightarrow> string list \<Rightarrow> (u16 + u16) \<times> string list" where
  "try_workers io offset [] = (Inl 503, [])"
| "try_workers io offset (socket # sockets) =
     (case send_worker_request (io offset) of
        Inr status \<Rightarrow> (Inr status, [socket])
      | Inl SendConnect \<Rightarrow>
          (let (r, tried) = try_workers io (offset + 1) sockets in (r, socket # tried))
      | Inl (AfterWrite status) \<Rightarrow> (Inl status, [socket]))"

definition send_worker_request_to_pool ::
  "(nat \<Rightarrow> send_steps) \<Rightarrow> string list \<Rightarrow> u64 \<Rightarrow> (u16 + u16) \<times> string list \<times> u64" where
  "send_worker_request_to_pool io sockets next_worker =
     (if sockets = [] then (Inl 503, [], next_worker)
      else
        (let start = unat next_worker mod length sockets;
             order = map (\<lambda>offset. sockets ! ((start + offset) mod length sockets)) [0..<length sockets];
             (r, tried) = try_workers io 0 order
         in (r, tried, next_worker + 1)))"

section \<open>What the Rack validator admits\<close>

definition header_cost :: "lowered_header \<Rightarrow> nat" where
  "header_cost h = length (lh_name h) + length (lh_value h) + 4"

lemma accumulate_header_bytes_eq:
  "accumulate_header_bytes n (lh_name h) (lh_value h) =
     (if \<not> is_valid_header_name (as_bytes (lh_name h)) then Inl 400
      else if n + header_cost h > MAX_REQUEST_HEADER_BYTES then Inl 431 else Inr (n + header_cost h))"
  by (auto simp: accumulate_header_bytes_def usize_saturating_add_def header_cost_def MAX_REQUEST_HEADER_BYTES_def
      Let_def min_def)

definition client_header_ok :: "bool \<Rightarrow> lowered_header \<Rightarrow> bool" where
  "client_header_ok is_http2 h \<longleftrightarrow>
     is_valid_header_name (as_bytes (lh_name h)) \<and>
     (lowered_lower h = ''te'' \<longrightarrow> is_http2 \<and> eq_ignore_ascii_case (trim (lh_value h)) ''trailers'') \<and>
     \<not> refused_request_header (lowered_lower h) \<and>
     (lowered_lower h = ''connection'' \<longrightarrow> close_only (lh_value h))"

definition host_values :: "lowered_header list \<Rightarrow> string list" where
  "host_values hs = map lh_value (filter (\<lambda>h. lowered_lower h = ''host'') hs)"

definition header_total :: "lowered_header list \<Rightarrow> nat" where
  "header_total hs = sum_list (map header_cost hs)"

lemma header_scan_simps [simp]:
  "host_values [] = []" "header_total [] = 0" "header_total (h # hs) = header_cost h + header_total hs"
  "host_values (h # hs) = (if lowered_lower h = ''host'' then lh_value h # host_values hs else host_values hs)"
  by (simp_all add: host_values_def header_total_def)

lemma client_header_loop_Inr:
  "client_header_loop is_http2 s hs = Inr s' \<longleftrightarrow>
     list_all (client_header_ok is_http2) hs \<and>
     (hs = [] \<or> hs_header_bytes s + header_total hs \<le> MAX_REQUEST_HEADER_BYTES) \<and>
     s' = s\<lparr>hs_host_count := hs_host_count s + length (host_values hs),
            hs_host_value := (if host_values hs = [] then hs_host_value s else Some (last (host_values hs))),
            hs_header_bytes := hs_header_bytes s + header_total hs\<rparr>"
proof (induction hs arbitrary: s)
  case (Cons h hs)
  have te: "\<not> refused_request_header ''te''" "\<not> refused_request_header ''host''"
    by (simp_all add: refused_request_header_def)
  show ?case
  proof (cases "client_header_ok is_http2 h \<and> hs_header_bytes s + header_cost h \<le> MAX_REQUEST_HEADER_BYTES")
    case True
    then have "client_header_loop is_http2 s (h # hs) =
        client_header_loop is_http2 (note_host h (s\<lparr>hs_header_bytes := hs_header_bytes s + header_cost h\<rparr>)) hs"
      by (auto simp: accumulate_header_bytes_eq client_header_ok_def Let_def)
    then show ?thesis using True
      by (auto simp: Cons.IH note_host_def)
  next
    case False
    then have "\<not> is_ok (client_header_loop is_http2 s (h # hs))"
      using te by (auto simp: accumulate_header_bytes_eq client_header_ok_def Let_def)
    then have "client_header_loop is_http2 s (h # hs) \<noteq> Inr s'" by (auto simp: is_ok_iff)
    with False show ?thesis by auto
  qed
qed auto

definition declared_lengths :: "lowered_header list \<Rightarrow> string list" where
  "declared_lengths hs = map lh_value (filter (\<lambda>h. lowered_lower h = ''content-length'') hs)"

definition parsed_length :: "string \<Rightarrow> u64 option" where
  "parsed_length v = map_option of_nat (parse_uint U64_MAX (trim v))"

lemma content_length_scan_eq:
  "content_length_scan seen hs =
     (case (seen, declared_lengths hs) of
        (None, []) \<Rightarrow> Inr None
      | (Some n, []) \<Rightarrow> Inr (Some n)
      | (None, [v]) \<Rightarrow> ok_or 400 (map_option Some (parsed_length v))
      | _ \<Rightarrow> Inl 400)"
proof (induction hs arbitrary: seen)
  case Nil
  then show ?case by (simp add: declared_lengths_def split: option.split)
next
  case (Cons h hs)
  show ?case
  proof (cases "lowered_lower h = ''content-length''")
    case True
    then have "declared_lengths (h # hs) = lh_value h # declared_lengths hs" by (simp add: declared_lengths_def)
    with True Cons show ?thesis
      by (cases seen; cases "parsed_length (lh_value h)")
        (auto simp: parsed_length_def split: list.split)
  next
    case False
    then have "declared_lengths (h # hs) = declared_lengths hs" by (simp add: declared_lengths_def)
    with False Cons show ?thesis by simp
  qed
qed

definition body_length_ok :: "lowered_header list \<Rightarrow> u64 \<Rightarrow> u64 option \<Rightarrow> bool" where
  "body_length_ok hs max_body len \<longleftrightarrow>
     (case declared_lengths hs of
        [] \<Rightarrow> len = None
      | [v] \<Rightarrow> len = parsed_length v \<and> len \<noteq> None \<and> the len \<le> max_body
      | _ \<Rightarrow> False)"

lemma check_body_cap_Inr: "check_body_cap hs max_body = Inr len \<longleftrightarrow> body_length_ok hs max_body len"
  by (auto simp: check_body_cap_def content_length_def content_length_scan_eq body_length_ok_def and_then_eq_Inr
      ok_or_eq_Inr split: list.split option.splits if_splits)

definition target_ok :: "client_request \<Rightarrow> bool" where
  "target_ok req \<longleftrightarrow>
     (case cr_path_and_query req of Some pq \<Rightarrow> starts_with pq ''/'' | None \<Rightarrow> False) \<and>
     (if cr_http2 req
      then cr_authority req \<noteq> None \<and> pred_option (\<lambda>sc. eq_ignore_ascii_case sc ''https'') (cr_scheme req)
      else cr_scheme req = None \<and> cr_authority req = None) \<and>
     \<not> eq_ignore_ascii_case (cr_method req) ''CONNECT''"

lemma check_request_target_Inr:
  "check_request_target req = Inr () \<and> \<not> eq_ignore_ascii_case (cr_method req) ''CONNECT'' \<longleftrightarrow> target_ok req"
  by (auto simp: check_request_target_def target_ok_def split: option.splits if_splits)

text \<open>
  The hosts of a request: over HTTP/1.1 exactly one Host header; over HTTP/2 at most one, which
  then names the authority. With a public name, every name presented is that name.
\<close>

definition hosts_ok :: "client_request \<Rightarrow> string list \<Rightarrow> string option \<Rightarrow> bool" where
  "hosts_ok req hosts public_name \<longleftrightarrow>
     (if cr_http2 req
      then length hosts \<le> 1 \<and>
        list_all (\<lambda>h. pred_option (eq_ignore_ascii_case h) (cr_authority req)) hosts \<and>
        pred_option (\<lambda>name. pred_option (\<lambda>a. host_matches_server_name a name) (cr_authority req)) public_name
      else length hosts = 1) \<and>
     pred_option (\<lambda>name. list_all (\<lambda>h. host_matches_server_name h name) hosts) public_name"

lemma check_hosts_Inr:
  assumes "cr_http2 req \<Longrightarrow> cr_authority req \<noteq> None"
  shows "check_hosts req \<lparr>hs_host_count = length hosts,
      hs_host_value = (if hosts = [] then None else Some (last hosts)), hs_header_bytes = n\<rparr> public_name = Inr ()
    \<longleftrightarrow> hosts_ok req hosts public_name"
proof -
  consider "hosts = []" | h where "hosts = [h]" | "length hosts > 1"
    by (cases hosts; cases "tl hosts") auto
  then show ?thesis
    by cases (use assms in \<open>auto simp: check_hosts_def hosts_ok_def check_public_host_def
      split: option.splits if_splits\<close>)
qed

text \<open>
  C29: The Rack validator admits exactly the requests it means to and returns their declared
  length. A request is admitted when its target is rooted and in the form of its HTTP version and
  it is no CONNECT; it has at most 100 headers whose names are tokens and whose total size is at
  most 64 KiB; no header that would start a second framing or hop semantics (transfer-encoding,
  expect, trailer, keep-alive, HTTP/1.1 te, any Connection token but close) is present; the Host
  headers, the authority and the public name agree; and there is at most one content-length, a
  number within the body cap.
\<close>
theorem validate_client_request_exact:
  "validate_client_request req hs max_body public_name = Inr len \<longleftrightarrow>
     target_ok req \<and> length hs \<le> 100 \<and> header_total hs \<le> 65536 \<and>
     list_all (client_header_ok (cr_http2 req)) hs \<and>
     hosts_ok req (host_values hs) public_name \<and> body_length_ok hs max_body len"
proof -
  define s where "s = \<lparr>hs_host_count = length (host_values hs),
    hs_host_value = (if host_values hs = [] then None else Some (last (host_values hs))),
    hs_header_bytes = header_total hs\<rparr>"
  have loop: "client_header_loop (cr_http2 req) \<lparr>hs_host_count = 0, hs_host_value = None, hs_header_bytes = 0\<rparr> hs = Inr s'
      \<longleftrightarrow> list_all (client_header_ok (cr_http2 req)) hs \<and> header_total hs \<le> 65536 \<and> s' = s" for s'
    by (auto simp: client_header_loop_Inr s_def MAX_REQUEST_HEADER_BYTES_def)
  have hosts: "target_ok req \<Longrightarrow> check_hosts req s public_name = Inr () \<longleftrightarrow> hosts_ok req (host_values hs) public_name"
    unfolding s_def by (rule check_hosts_Inr) (simp add: target_ok_def)
  have "validate_client_request req hs max_body public_name = Inr len \<longleftrightarrow>
      target_ok req \<and> length hs \<le> 100 \<and> header_total hs \<le> 65536 \<and>
      list_all (client_header_ok (cr_http2 req)) hs \<and> check_hosts req s public_name = Inr () \<and>
      body_length_ok hs max_body len"
    using check_request_target_Inr [of req]
    by (auto simp: validate_client_request_def and_then_eq_Inr loop check_body_cap_Inr MAX_REQUEST_HEADERS_def)
  with hosts show ?thesis by blast
qed

section \<open>Bodies and workers\<close>

fun body_chunks :: "body_read list \<Rightarrow> u8 list" where
  "body_chunks [] = []"
| "body_chunks (BodyChunk c # rs) = c @ body_chunks rs"
| "body_chunks (_ # rs) = body_chunks rs"

fun is_chunk :: "body_read \<Rightarrow> bool" where
  "is_chunk (BodyChunk _) = True"
| "is_chunk _ = False"

lemma read_known_body_Inr:
  "read_known_body n body rs = Inr b \<Longrightarrow> length body \<le> n \<Longrightarrow>
     length b = n \<and> (\<exists>k. b = body @ body_chunks (take k rs) \<and> list_all is_chunk (take k rs))"
proof (induction n body rs rule: read_known_body.induct)
  case (1 n body)
  then show ?case by (auto split: if_splits)
next
  case (2 n body r rs)
  show ?case
  proof (cases "length body < n")
    case False
    with 2 show ?thesis by (auto intro!: exI [of _ 0])
  next
    case True
    with 2(2) obtain c where c: "r = BodyChunk c" "length body + length c \<le> n"
        "read_known_body n (body @ c) rs = Inr b"
      by (cases r) (auto split: if_splits)
    with 2(1) [OF True c(1)] obtain k where "length b = n" "b = (body @ c) @ body_chunks (take k rs)"
        "list_all is_chunk (take k rs)"
      by auto
    with c(1) show ?thesis by (auto intro!: exI [of _ "Suc k"])
  qed
qed

lemma read_stream_body_Inr:
  "read_stream_body m body rs = Inr b \<Longrightarrow> length body \<le> m \<Longrightarrow> m < U64_MAX \<Longrightarrow>
     length b \<le> m \<and> (\<exists>k. b = body @ body_chunks (take k rs) \<and> list_all is_chunk (take k rs) \<and>
       k < length rs \<and> rs ! k = BodyEnd)"
proof (induction m body rs rule: read_stream_body.induct)
  case (2 m body r rs)
  show ?case
  proof (cases r)
    case (BodyChunk c)
    with 2(2,4) have "length (body @ c) \<le> m" "read_stream_body m (body @ c) rs = Inr b"
      by (auto simp: usize_saturating_add_def min_def split: if_splits)
    with 2(1) [OF BodyChunk] 2(2,4) BodyChunk obtain k where "length b \<le> m"
        "b = (body @ c) @ body_chunks (take k rs)" "list_all is_chunk (take k rs)" "k < length rs" "rs ! k = BodyEnd"
      by (auto split: if_splits)
    with BodyChunk show ?thesis by (auto intro!: exI [of _ "Suc k"])
  qed (use 2 in \<open>auto intro!: exI [of _ 0]\<close>)
qed simp

definition unreachable_prefix :: "(nat \<Rightarrow> send_steps) \<Rightarrow> nat \<Rightarrow> nat \<Rightarrow> nat" where
  "unreachable_prefix io i n = length (takeWhile (\<lambda>j. send_worker_request (io j) = Inl SendConnect) [i..<i + n])"

fun sent_status :: "worker_send_error + u16 \<Rightarrow> u16 + u16" where
  "sent_status (Inr status) = Inr status"
| "sent_status (Inl (AfterWrite status)) = Inl status"
| "sent_status (Inl SendConnect) = Inl 503"

lemma unreachable_prefix_Suc:
  "unreachable_prefix io i (Suc n) =
     (if send_worker_request (io i) = Inl SendConnect then Suc (unreachable_prefix io (Suc i) n) else 0)"
  by (simp add: unreachable_prefix_def upt_conv_Cons del: upt_Suc)

lemma try_workers_eq:
  "try_workers io i ws =
     (let k = unreachable_prefix io i (length ws) in
      if k = length ws then (Inl 503, ws)
      else (sent_status (send_worker_request (io (i + k))), take (Suc k) ws))"
proof (induction ws arbitrary: i)
  case (Cons w ws)
  then show ?case
    by (auto simp: unreachable_prefix_Suc Let_def split: sum.split worker_send_error.split)
qed (simp add: unreachable_prefix_def)

lemma unreachable_prefix_le: "unreachable_prefix io i n \<le> n"
  unfolding unreachable_prefix_def using length_takeWhile_le [of _ "[i..<i + n]"] by simp

lemma unreachable_prefix_connect:
  "j < unreachable_prefix io 0 n \<Longrightarrow> send_worker_request (io j) = Inl SendConnect"
proof -
  assume *: "j < unreachable_prefix io 0 n"
  then have "[0..<n] ! j = j" using unreachable_prefix_le [of io 0 n] by simp
  with * show ?thesis
    unfolding unreachable_prefix_def
    using nth_mem [of j "takeWhile (\<lambda>j. send_worker_request (io j) = Inl SendConnect) [0..<0 + n]"]
    by (auto simp: takeWhile_nth dest: set_takeWhileD)
qed

lemma unreachable_prefix_stop:
  "unreachable_prefix io 0 n < n \<Longrightarrow> send_worker_request (io (unreachable_prefix io 0 n)) \<noteq> Inl SendConnect"
  unfolding unreachable_prefix_def
  using nth_length_takeWhile [of "\<lambda>j. send_worker_request (io j) = Inl SendConnect" "[0..<0 + n]"] by simp

definition worker_order :: "string list \<Rightarrow> u64 \<Rightarrow> string list" where
  "worker_order sockets next_worker = rotate (unat next_worker mod length sockets) sockets"

lemma rotation_order:
  "map (\<lambda>k. xs ! ((s + k) mod length xs)) [0..<length xs] = rotate s xs"
  by (rule nth_equalityI) (simp_all add: nth_rotate)

text \<open>
  C30: A request is never replayed. The workers are tried in the rotation that the shared counter
  selects, each at most once; a further worker is tried only while every earlier attempt failed
  to connect, so at most one worker ever received a byte of the request; the answer is that of
  the last attempt, and 503 when no worker could be reached or none is configured. The counter
  advances by one, with wrap-around, for every request.
\<close>
theorem worker_request_never_replayed:
  "\<exists>k r tried n'. send_worker_request_to_pool io sockets next_worker = (r, tried, n') \<and>
     tried = take k (worker_order sockets next_worker) \<and> k \<le> length sockets \<and>
     list_all (\<lambda>j. send_worker_request (io j) = Inl SendConnect) [0..<k - 1] \<and>
     (if k < length sockets then 0 < k \<and> send_worker_request (io (k - 1)) \<noteq> Inl SendConnect else True) \<and>
     r = (if k = 0 then Inl 503 else sent_status (send_worker_request (io (k - 1)))) \<and>
     n' = (if sockets = [] then next_worker else next_worker + 1)"
proof (cases "sockets = []")
  case True
  then show ?thesis by (simp add: send_worker_request_to_pool_def worker_order_def)
next
  case False
  let ?n = "length sockets"
  let ?k = "unreachable_prefix io 0 ?n"
  let ?order = "worker_order sockets next_worker"
  have len: "length ?order = ?n" by (simp add: worker_order_def)
  have none: "list_all (\<lambda>j. send_worker_request (io j) = Inl SendConnect) [0..<?k]"
    using unreachable_prefix_connect by (simp add: list_all_iff)
  have send: "send_worker_request_to_pool io sockets next_worker =
      (let (r, tried) = try_workers io 0 ?order in (r, tried, next_worker + 1))"
    using False by (simp add: send_worker_request_to_pool_def rotation_order worker_order_def Let_def)
  show ?thesis
  proof (cases "?k = ?n")
    case True
    then have "send_worker_request (io (?n - 1)) = Inl SendConnect"
      using unreachable_prefix_connect [of "?n - 1" io ?n] False by simp
    then show ?thesis
      using True False none by (intro exI [of _ ?n]) (simp add: send try_workers_eq len list_all_iff)
  next
    case stop: False
    then have lt: "?k < ?n" using unreachable_prefix_le [of io 0 ?n] by simp
    then show ?thesis
      using stop False none unreachable_prefix_stop [OF lt]
      by (intro exI [of _ "Suc ?k"]) (simp add: send try_workers_eq len Let_def)
  qed
qed

end
