(* ===== verification/Hop_Frame.thy ===== *)
theory Hop_Frame
  imports Rust_Str
begin

text \<open>
  The binary edge-to-worker frame codec, \<open>crates/oxo-core/src/hop_frame.rs\<close>: scheme byte,
  caps, the six-byte prefix, the length-checked cursor, the header codec and the request and
  response encoders and decoders. A decoder is a function from a cursor to an error or a value
  and the advanced cursor; \<open>dbind\<close> is the sequencing that the source writes with \<open>?\<close>. The
  locale \<open>wire_field\<close> is the contract of one field of the envelope (the decoder inverts the
  encoder and accepts nothing else); every field of the source's codec is an interpretation of
  it, and the frame-level theorems are chains of these laws.
\<close>

section \<open>Data model\<close>

definition FRAME_MAGIC :: u8 where "FRAME_MAGIC = 0xBF"
definition FRAME_VERSION :: u8 where "FRAME_VERSION = 0x01"
definition FRAME_FIXED_SLACK :: u64 where "FRAME_FIXED_SLACK = 4096"

datatype scheme = Http | Https

datatype frame_error =
    BadMagic u8
  | BadVersion u8
  | EnvelopeTooLarge u32 u64
  | EnvelopeTilingMismatch u32 u64
  | Truncated
  | NotUtf8
  | TooManyHeaders u16 u16
  | HeaderBytesExceeded u32
  | BodyTooLarge u32 u32
  | ControlByteInHeader
  | BadScheme u8
  | BadResponseType u8
  | BadStatus u16
  | LengthOverflow

fun scheme_to_byte :: "scheme \<Rightarrow> u8" where
  "scheme_to_byte Http = 0"
| "scheme_to_byte Https = 1"

definition scheme_from_byte :: "u8 \<Rightarrow> frame_error + scheme" where
  "scheme_from_byte b = (if b = 0 then Inr Http else if b = 1 then Inr Https else Inl (BadScheme b))"

fun scheme_as_str :: "scheme \<Rightarrow> string" where
  "scheme_as_str Http = ''http''"
| "scheme_as_str Https = ''https''"

record frame_caps =
  max_header_bytes :: u32
  max_headers :: u16
  max_body_bytes :: u32

definition max_remaining_length :: "frame_caps \<Rightarrow> u64" where
  "max_remaining_length caps =
     FRAME_FIXED_SLACK + ucast (max_header_bytes caps) + ucast (max_body_bytes caps)"

type_synonym header_list = "(string \<times> string) list"

record request_frame =
  rf_method :: string
  rf_path :: string
  rf_query :: string
  rf_server_name :: string
  rf_server_port :: u16
  rf_scheme :: scheme
  rf_remote_addr :: string
  rf_headers :: header_list
  rf_body :: "u8 list"

datatype response_frame =
    Resp_Full u16 header_list "u8 list"
  | Resp_Head u16 header_list
  | Resp_Chunk "u8 list"
  | Resp_End

definition RESP_FULL :: u8 where "RESP_FULL = 0"
definition RESP_HEAD :: u8 where "RESP_HEAD = 1"
definition RESP_CHUNK :: u8 where "RESP_CHUNK = 2"
definition RESP_END :: u8 where "RESP_END = 3"

section \<open>The prefix\<close>

definition PREFIX_LEN :: nat where "PREFIX_LEN = 6"

text \<open>The argument is the source's \<open>[u8; 6]\<close>; the result is \<open>remaining_length\<close>.\<close>

definition FramePrefix_parse :: "u8 list \<Rightarrow> frame_caps \<Rightarrow> frame_error + u32" where
  "FramePrefix_parse prefix caps =
     (if prefix ! 0 \<noteq> FRAME_MAGIC then Inl (BadMagic (prefix ! 0))
      else if prefix ! 1 \<noteq> FRAME_VERSION then Inl (BadVersion (prefix ! 1))
      else
        let remaining_length =
              u32_from_le_bytes (prefix ! 2) (prefix ! 3) (prefix ! 4) (prefix ! 5);
            lim = max_remaining_length caps
        in if ucast remaining_length > lim then Inl (EnvelopeTooLarge remaining_length lim)
           else Inr remaining_length)"

section \<open>The cursor\<close>

record cursor =
  cur_buf :: "u8 list"
  cur_pos :: usize

type_synonym 'a decoder = "cursor \<Rightarrow> frame_error + ('a \<times> cursor)"

definition dbind :: "'a decoder \<Rightarrow> ('a \<Rightarrow> 'b decoder) \<Rightarrow> 'b decoder" where
  "dbind m f = (\<lambda>c. and_then (m c) (\<lambda>(a, c'). f a c'))"

definition dreturn :: "'a \<Rightarrow> 'a decoder" where
  "dreturn a = (\<lambda>c. Inr (a, c))"

definition dresult :: "frame_error + 'a \<Rightarrow> 'a decoder" where
  "dresult r = (\<lambda>c. and_then r (\<lambda>a. Inr (a, c)))"

definition cursor_new :: "u8 list \<Rightarrow> cursor" where
  "cursor_new buf = \<lparr>cur_buf = buf, cur_pos = 0\<rparr>"

definition cursor_remaining :: "cursor \<Rightarrow> usize" where
  "cursor_remaining c = length (cur_buf c) - cur_pos c"

definition cursor_take :: "usize \<Rightarrow> u8 list decoder" where
  "cursor_take n = (\<lambda>c.
     if n > cursor_remaining c then Inl Truncated
     else Inr (take n (drop (cur_pos c) (cur_buf c)), c\<lparr>cur_pos := cur_pos c + n\<rparr>))"

definition cursor_u8 :: "u8 decoder" where
  "cursor_u8 = dbind (cursor_take 1) (\<lambda>b. dreturn (b ! 0))"

definition cursor_u16 :: "u16 decoder" where
  "cursor_u16 = dbind (cursor_take 2) (\<lambda>b. dreturn (u16_from_le_bytes (b ! 0) (b ! 1)))"

definition cursor_u32 :: "u32 decoder" where
  "cursor_u32 = dbind (cursor_take 4)
     (\<lambda>b. dreturn (u32_from_le_bytes (b ! 0) (b ! 1) (b ! 2) (b ! 3)))"

definition short_str :: "string decoder" where
  "short_str = dbind cursor_u16 (\<lambda>len. dbind (cursor_take (unat len))
     (\<lambda>bytes. dresult (ok_or NotUtf8 (from_utf8 bytes))))"

definition long_str :: "string decoder" where
  "long_str = dbind cursor_u32 (\<lambda>len. dbind (cursor_take (unat len))
     (\<lambda>bytes. dresult (ok_or NotUtf8 (from_utf8 bytes))))"

section \<open>Headers\<close>

definition reject_control_bytes :: "string \<Rightarrow> frame_error + unit" where
  "reject_control_bytes s =
     (if list_ex (\<lambda>b. b < 0x20 \<or> b = 0x7f) (as_bytes s) then Inl ControlByteInHeader else Inr ())"

definition encode_short :: "u8 list \<Rightarrow> string \<Rightarrow> frame_error + u8 list" where
  "encode_short out s =
     (if length s > U16_MAX then Inl LengthOverflow
      else Inr (out @ u16_to_le_bytes (of_nat (length s)) @ as_bytes s))"

definition encode_long_str :: "u8 list \<Rightarrow> string \<Rightarrow> frame_error + u8 list" where
  "encode_long_str out s =
     (if length s > U32_MAX then Inl LengthOverflow
      else Inr (out @ u32_to_le_bytes (of_nat (length s)) @ as_bytes s))"

definition encode_long_bytes :: "u8 list \<Rightarrow> u8 list \<Rightarrow> frame_error + u8 list" where
  "encode_long_bytes out b =
     (if length b > U32_MAX then Inl LengthOverflow
      else Inr (out @ u32_to_le_bytes (of_nat (length b)) @ b))"

fun encode_header_pairs :: "u8 list \<Rightarrow> header_list \<Rightarrow> frame_error + u8 list" where
  "encode_header_pairs out [] = Inr out"
| "encode_header_pairs out ((name, value) # hs) =
     and_then (encode_short out name) (\<lambda>out.
     and_then (encode_long_str out value) (\<lambda>out.
     encode_header_pairs out hs))"

definition encode_headers :: "u8 list \<Rightarrow> header_list \<Rightarrow> frame_error + u8 list" where
  "encode_headers out headers =
     (if length headers > U16_MAX then Inl LengthOverflow
      else encode_header_pairs (out @ u16_to_le_bytes (of_nat (length headers))) headers)"

definition add_header_bytes :: "u32 \<Rightarrow> u32 \<Rightarrow> string \<Rightarrow> string \<Rightarrow> frame_error + u32" where
  "add_header_bytes hcap header_bytes name value =
     and_then (if length name > U32_MAX then Inl LengthOverflow else Inr (of_nat (length name)))
       (\<lambda>nlen. ok_or (HeaderBytesExceeded hcap)
          (Option.bind (checked_add header_bytes nlen)
             (\<lambda>n. if length value > U32_MAX then None else checked_add n (of_nat (length value)))))"

fun decode_header_loop :: "nat \<Rightarrow> u32 \<Rightarrow> u32 \<Rightarrow> header_list \<Rightarrow> header_list decoder" where
  "decode_header_loop 0 hcap header_bytes headers = dreturn headers"
| "decode_header_loop (Suc n) hcap header_bytes headers =
     dbind short_str (\<lambda>name.
     dbind long_str (\<lambda>value.
     dbind (dresult (reject_control_bytes name)) (\<lambda>_.
     dbind (dresult (reject_control_bytes value)) (\<lambda>_.
     dbind (dresult (add_header_bytes hcap header_bytes name value)) (\<lambda>header_bytes.
     if header_bytes > hcap then dresult (Inl (HeaderBytesExceeded hcap))
     else decode_header_loop n hcap header_bytes (headers @ [(name, value)]))))))"

definition decode_headers :: "u16 \<Rightarrow> u32 \<Rightarrow> header_list decoder" where
  "decode_headers ncap hcap =
     dbind cursor_u16 (\<lambda>count.
     if count > ncap then dresult (Inl (TooManyHeaders count ncap))
     else decode_header_loop (unat count) hcap 0 [])"

section \<open>Frame assembly\<close>

definition start_frame :: "u8 list" where
  "start_frame = [FRAME_MAGIC, FRAME_VERSION] @ u32_to_le_bytes 0"

definition finish_frame :: "u8 list \<Rightarrow> frame_error + u8 list" where
  "finish_frame out =
     (let envelope_len = length out - PREFIX_LEN in
      if envelope_len > U32_MAX then Inl LengthOverflow
      else Inr (take 2 out @ u32_to_le_bytes (of_nat envelope_len) @ drop PREFIX_LEN out))"

section \<open>Request frames\<close>

definition encode_request :: "request_frame \<Rightarrow> frame_error + u8 list" where
  "encode_request req =
     (let out = start_frame in
      and_then (encode_short out (rf_method req)) (\<lambda>out.
      and_then (encode_long_str out (rf_path req)) (\<lambda>out.
      and_then (encode_long_str out (rf_query req)) (\<lambda>out.
      and_then (encode_short out (rf_server_name req)) (\<lambda>out.
      let out = out @ u16_to_le_bytes (rf_server_port req);
          out = out @ [scheme_to_byte (rf_scheme req)] in
      and_then (encode_short out (rf_remote_addr req)) (\<lambda>out.
      and_then (encode_headers out (rf_headers req)) (\<lambda>out.
      and_then (encode_long_bytes out (rf_body req)) (\<lambda>out.
      finish_frame out))))))))"

record request_frame_ref =
  rr_method :: string
  rr_path :: string
  rr_query :: string
  rr_server_name :: string
  rr_server_port :: u16
  rr_scheme :: scheme
  rr_remote_addr :: string
  rr_body :: "u8 list"

text \<open>
  The loop over the caller's iterator counts what it emitted. \<open>out\<close> is the caller's buffer: it
  is cleared first, so nothing of it survives; on an error the source leaves a partial frame in
  it, which the next call clears again, and the model returns the error alone.
\<close>

fun emit_header_pairs :: "u8 list \<Rightarrow> nat \<Rightarrow> header_list \<Rightarrow> frame_error + (u8 list \<times> nat)" where
  "emit_header_pairs out emitted [] = Inr (out, emitted)"
| "emit_header_pairs out emitted ((name, value) # hs) =
     and_then (encode_short out name) (\<lambda>out.
     and_then (encode_long_str out value) (\<lambda>out.
     emit_header_pairs out (emitted + 1) hs))"

definition encode_request_ref_into ::
  "u8 list \<Rightarrow> request_frame_ref \<Rightarrow> usize \<Rightarrow> header_list \<Rightarrow> frame_error + u8 list" where
  "encode_request_ref_into out req header_count headers =
     (let out = [];
          out = out @ [FRAME_MAGIC, FRAME_VERSION] @ u32_to_le_bytes 0 in
      and_then (encode_short out (rr_method req)) (\<lambda>out.
      and_then (encode_long_str out (rr_path req)) (\<lambda>out.
      and_then (encode_long_str out (rr_query req)) (\<lambda>out.
      and_then (encode_short out (rr_server_name req)) (\<lambda>out.
      let out = out @ u16_to_le_bytes (rr_server_port req);
          out = out @ [scheme_to_byte (rr_scheme req)] in
      and_then (encode_short out (rr_remote_addr req)) (\<lambda>out.
      if header_count > U16_MAX then Inl LengthOverflow
      else and_then
        (emit_header_pairs (out @ u16_to_le_bytes (of_nat header_count)) 0 headers)
        (\<lambda>(out, emitted).
          if emitted \<noteq> header_count then Inl LengthOverflow
          else and_then (encode_long_bytes out (rr_body req)) (\<lambda>out.
            let envelope_len = length out - PREFIX_LEN in
            if envelope_len > U32_MAX then Inl LengthOverflow
            else Inr (take 2 out @ u32_to_le_bytes (of_nat envelope_len)
                      @ drop PREFIX_LEN out)))))))))"

definition encode_request_ref ::
  "request_frame_ref \<Rightarrow> usize \<Rightarrow> header_list \<Rightarrow> frame_error + u8 list" where
  "encode_request_ref req header_count headers =
     encode_request_ref_into [] req header_count headers"

definition decode_body :: "u32 \<Rightarrow> u8 list decoder" where
  "decode_body max_body =
     dbind cursor_u32 (\<lambda>body_len.
     if body_len > max_body then dresult (Inl (BodyTooLarge body_len max_body))
     else cursor_take (unat body_len))"

definition check_tiling :: "u8 list \<Rightarrow> 'a \<times> cursor \<Rightarrow> frame_error + 'a" where
  "check_tiling envelope = (\<lambda>(x, cur).
     if cursor_remaining cur \<noteq> 0
     then Inl (EnvelopeTilingMismatch (of_nat (length envelope)) (of_nat (cur_pos cur)))
     else Inr x)"

definition decode_request_fields :: "frame_caps \<Rightarrow> request_frame decoder" where
  "decode_request_fields caps =
     dbind short_str (\<lambda>method.
     dbind long_str (\<lambda>path.
     dbind long_str (\<lambda>query.
     dbind short_str (\<lambda>server_name.
     dbind cursor_u16 (\<lambda>server_port.
     dbind (dbind cursor_u8 (\<lambda>b. dresult (scheme_from_byte b))) (\<lambda>scheme.
     dbind short_str (\<lambda>remote_addr.
     dbind (decode_headers (max_headers caps) (max_header_bytes caps)) (\<lambda>headers.
     dbind (decode_body (max_body_bytes caps)) (\<lambda>body.
     dreturn \<lparr>rf_method = method, rf_path = path, rf_query = query, rf_server_name = server_name,
       rf_server_port = server_port, rf_scheme = scheme, rf_remote_addr = remote_addr,
       rf_headers = headers, rf_body = body\<rparr>)))))))))"

definition decode_request :: "u8 list \<Rightarrow> frame_caps \<Rightarrow> frame_error + request_frame" where
  "decode_request envelope caps =
     and_then (decode_request_fields caps (cursor_new envelope)) (check_tiling envelope)"

section \<open>Response frames\<close>

definition encode_response :: "response_frame \<Rightarrow> frame_error + u8 list" where
  "encode_response resp =
     (let out = start_frame in
      and_then
        (case resp of
           Resp_Full status headers body \<Rightarrow>
             and_then (encode_headers (out @ [RESP_FULL] @ u16_to_le_bytes status) headers)
               (\<lambda>out. encode_long_bytes out body)
         | Resp_Head status headers \<Rightarrow>
             encode_headers (out @ [RESP_HEAD] @ u16_to_le_bytes status) headers
         | Resp_Chunk data \<Rightarrow> encode_long_bytes (out @ [RESP_CHUNK]) data
         | Resp_End \<Rightarrow> Inr (out @ [RESP_END]))
        finish_frame)"

definition validate_status :: "u16 \<Rightarrow> frame_error + u16" where
  "validate_status status =
     (if 100 \<le> status \<and> status \<le> 599 then Inr status else Inl (BadStatus status))"

definition decode_status :: "u16 decoder" where
  "decode_status = dbind cursor_u16 (\<lambda>s. dresult (validate_status s))"

definition decode_response_fields :: "frame_caps \<Rightarrow> response_frame decoder" where
  "decode_response_fields caps =
     dbind cursor_u8 (\<lambda>ty.
     if ty = RESP_FULL then
       dbind decode_status (\<lambda>status.
       dbind (decode_headers (max_headers caps) (max_header_bytes caps)) (\<lambda>headers.
       dbind (decode_body (max_body_bytes caps)) (\<lambda>body.
       dreturn (Resp_Full status headers body))))
     else if ty = RESP_HEAD then
       dbind decode_status (\<lambda>status.
       dbind (decode_headers (max_headers caps) (max_header_bytes caps)) (\<lambda>headers.
       dreturn (Resp_Head status headers)))
     else if ty = RESP_CHUNK then
       dbind (decode_body (max_body_bytes caps)) (\<lambda>data. dreturn (Resp_Chunk data))
     else if ty = RESP_END then dreturn Resp_End
     else dresult (Inl (BadResponseType ty)))"

definition decode_response :: "u8 list \<Rightarrow> frame_caps \<Rightarrow> frame_error + response_frame" where
  "decode_response envelope caps =
     and_then (decode_response_fields caps (cursor_new envelope)) (check_tiling envelope)"

section \<open>The contract of a wire field\<close>

definition cur_wf :: "cursor \<Rightarrow> bool" where
  "cur_wf c \<longleftrightarrow> cur_pos c \<le> length (cur_buf c)"

definition cur_rest :: "cursor \<Rightarrow> u8 list" where
  "cur_rest c = drop (cur_pos c) (cur_buf c)"

definition cur_adv :: "cursor \<Rightarrow> nat \<Rightarrow> cursor" where
  "cur_adv c n = c\<lparr>cur_pos := cur_pos c + n\<rparr>"

lemma cur_wf_new [simp]: "cur_wf (cursor_new bs)"
  by (simp add: cur_wf_def cursor_new_def)

lemma cur_rest_new [simp]: "cur_rest (cursor_new bs) = bs"
  by (simp add: cur_rest_def cursor_new_def)

lemma cur_rest_adv:
  "cur_wf c \<Longrightarrow> cur_rest c = bs @ r \<Longrightarrow> cur_wf (cur_adv c (length bs)) \<and> cur_rest (cur_adv c (length bs)) = r"
proof -
  assume wf: "cur_wf c" and r: "cur_rest c = bs @ r"
  have "length (cur_buf c) - cur_pos c = length bs + length r"
    using r by (metis cur_rest_def length_append length_drop)
  with wf have "cur_wf (cur_adv c (length bs))" by (auto simp: cur_wf_def cur_adv_def)
  moreover have "cur_rest (cur_adv c (length bs)) = drop (length bs) (cur_rest c)"
    by (simp add: cur_rest_def cur_adv_def add.commute)
  ultimately show ?thesis using r by simp
qed

lemma cursor_take_ok:
  "cur_wf c \<Longrightarrow> cur_rest c = bs @ r \<Longrightarrow> cursor_take (length bs) c = Inr (bs, cur_adv c (length bs))"
proof -
  assume "cur_wf c" and r: "cur_rest c = bs @ r"
  have "cursor_remaining c = length (cur_rest c)"
    by (simp add: cursor_remaining_def cur_rest_def)
  with r show ?thesis by (simp add: cursor_take_def cur_adv_def cur_rest_def)
qed

lemma cursor_take_Inr:
  assumes "cursor_take n c = Inr (bs, c')"
  shows "length bs = n \<and> (\<exists>r. cur_rest c = bs @ r) \<and> c' = cur_adv c n"
  using assms
  by (auto simp: cursor_take_def cursor_remaining_def cur_rest_def cur_adv_def split: if_splits
      intro: exI [of _ "drop n (drop (cur_pos c) (cur_buf c))"]) (metis append_take_drop_id drop_drop add.commute)

locale wire_field =
  fixes enc :: "'a \<Rightarrow> u8 list"
    and dec :: "'a decoder"
    and ok :: "'a \<Rightarrow> bool"
  assumes dec_enc:
      "cur_wf c \<Longrightarrow> cur_rest c = enc a @ r \<Longrightarrow> ok a \<Longrightarrow> dec c = Inr (a, cur_adv c (length (enc a)))"
    and enc_dec:
      "cur_wf c \<Longrightarrow> dec c = Inr (a, c') \<Longrightarrow>
         ok a \<and> (\<exists>r. cur_rest c = enc a @ r) \<and> c' = cur_adv c (length (enc a))"
begin

lemma dbind_enc:
  "cur_wf c \<Longrightarrow> cur_rest c = enc a @ r \<Longrightarrow> ok a \<Longrightarrow>
     dbind dec f c = f a (cur_adv c (length (enc a)))
     \<and> cur_wf (cur_adv c (length (enc a))) \<and> cur_rest (cur_adv c (length (enc a))) = r"
  by (simp add: dbind_def dec_enc cur_rest_adv)

lemma dbind_dec:
  assumes "cur_wf c" and "dbind dec f c = Inr (b, c')"
  obtains a where "ok a" and "cur_rest c = enc a @ cur_rest (cur_adv c (length (enc a)))"
    and "cur_wf (cur_adv c (length (enc a)))" and "f a (cur_adv c (length (enc a))) = Inr (b, c')"
proof -
  from assms(2) obtain a c1 where d: "dec c = Inr (a, c1)" and f: "f a c1 = Inr (b, c')"
    by (auto simp: dbind_def and_then_eq_Inr)
  from enc_dec [OF assms(1) d] obtain r where
    "ok a" "cur_rest c = enc a @ r" "c1 = cur_adv c (length (enc a))" by blast
  with f cur_rest_adv [OF assms(1)] show ?thesis by (auto intro: that)
qed

lemma enc_inj: "ok a \<Longrightarrow> ok b \<Longrightarrow> enc a = enc b \<Longrightarrow> a = b"
proof -
  assume "ok a" "ok b" "enc a = enc b"
  then show ?thesis
    using dec_enc [of "cursor_new (enc a)" a "[]"] dec_enc [of "cursor_new (enc a)" b "[]"] by simp
qed

lemma enc_prefix_free: "ok a \<Longrightarrow> ok b \<Longrightarrow> enc a @ r = enc b @ r' \<Longrightarrow> a = b \<and> r = r'"
proof -
  assume *: "ok a" "ok b" "enc a @ r = enc b @ r'"
  then have "Inr (a, cur_adv (cursor_new (enc a @ r)) (length (enc a))) =
      (Inr (b, cur_adv (cursor_new (enc a @ r)) (length (enc b))) :: frame_error + _)"
    using dec_enc [of "cursor_new (enc a @ r)" a r] dec_enc [of "cursor_new (enc a @ r)" b r'] by simp
  with * show ?thesis by simp
qed

end

section \<open>Composing wire fields\<close>

lemma wire_cong:
  assumes "wire_field enc dec ok" and "\<And>a. ok' a = ok a" and "\<And>a. ok a \<Longrightarrow> enc' a = enc a"
  shows "wire_field enc' dec ok'"
proof -
  have *: "ok' = ok" using assms(2) by blast
  show ?thesis
    unfolding * using assms(1,3) by (simp add: wire_field_def)
qed

lemma wire_dresult: "wire_field (\<lambda>_. []) (dresult r) (\<lambda>b. r = Inr b)"
  by unfold_locales (auto simp: dresult_def and_then_eq_Inr cur_adv_def)

lemma wire_dreturn: "wire_field (\<lambda>_. []) (dreturn x) (\<lambda>b. b = x)"
  by unfold_locales (auto simp: dreturn_def cur_adv_def)

lemma wire_take: "wire_field (\<lambda>bs. bs) (cursor_take n) (\<lambda>bs. length bs = n)"
  by unfold_locales (auto simp: cursor_take_ok dest: cursor_take_Inr)

lemma wire_seq:
  assumes A: "wire_field encA decA okA"
    and B: "\<And>a. okA a \<Longrightarrow> wire_field (encB a) (decB a) (okB a)"
    and p: "\<And>a b. okA a \<Longrightarrow> okB a b \<Longrightarrow> part b = a"
  shows "wire_field (\<lambda>b. encA (part b) @ encB (part b) b) (dbind decA decB)
           (\<lambda>b. okA (part b) \<and> okB (part b) b)"
proof
  fix c b r
  assume c: "cur_wf c" "cur_rest c = (encA (part b) @ encB (part b) b) @ r"
    and ok: "okA (part b) \<and> okB (part b) b"
  have "dbind decA decB c = decB (part b) (cur_adv c (length (encA (part b))))
      \<and> cur_wf (cur_adv c (length (encA (part b))))
      \<and> cur_rest (cur_adv c (length (encA (part b)))) = encB (part b) b @ r"
    using wire_field.dbind_enc [OF A, of c "part b" "encB (part b) b @ r" decB] c ok by simp
  with wire_field.dec_enc [OF B] ok
  show "dbind decA decB c = Inr (b, cur_adv c (length (encA (part b) @ encB (part b) b)))"
    by (simp add: cur_adv_def add.assoc)
next
  fix c b c'
  assume c: "cur_wf c" and d: "dbind decA decB c = Inr (b, c')"
  obtain a where a: "okA a" "cur_rest c = encA a @ cur_rest (cur_adv c (length (encA a)))"
      "cur_wf (cur_adv c (length (encA a)))" "decB a (cur_adv c (length (encA a))) = Inr (b, c')"
    using wire_field.dbind_dec [OF A c d] by blast
  from wire_field.enc_dec [OF B [OF a(1)] a(3,4)] obtain r where
    b: "okB a b" "cur_rest (cur_adv c (length (encA a))) = encB a b @ r"
      "c' = cur_adv (cur_adv c (length (encA a))) (length (encB a b))" by blast
  have "part b = a" using p a(1) b(1) by blast
  with a b show "(okA (part b) \<and> okB (part b) b) \<and> (\<exists>r. cur_rest c = (encA (part b) @ encB (part b) b) @ r)
      \<and> c' = cur_adv c (length (encA (part b) @ encB (part b) b))"
    by (auto simp: cur_adv_def add.assoc)
qed

lemma wire_guard:
  assumes "\<not> p \<Longrightarrow> wire_field enc dec ok"
  shows "wire_field enc (if p then dresult (Inl e) else dec) (\<lambda>b. \<not> p \<and> ok b)"
proof (cases p)
  case True
  then show ?thesis by unfold_locales (auto simp: dresult_def)
next
  case False
  with assms show ?thesis by simp
qed

lemma wire_dresult_seq:
  assumes "\<And>x. r = Inr x \<Longrightarrow> wire_field enc (f x) (ok x)"
  shows "wire_field enc (dbind (dresult r) f) (\<lambda>b. \<exists>x. r = Inr x \<and> ok x b)"
proof (cases r)
  case (Inl e)
  then show ?thesis by unfold_locales (auto simp: dresult_def dbind_def)
next
  case (Inr x)
  then have "dbind (dresult r) f = f x" by (simp add: dresult_def dbind_def)
  with assms [OF Inr] Inr show ?thesis by simp
qed

lemma wire_fixed:
  assumes "\<And>a. length (enc a) = n" and "\<And>a. g (enc a) = a" and "\<And>bs. length bs = n \<Longrightarrow> enc (g bs) = bs"
  shows "wire_field enc (dbind (cursor_take n) (\<lambda>bs. dreturn (g bs))) (\<lambda>_. True)"
  by (rule wire_cong [OF wire_seq [OF wire_take wire_dreturn, where part = enc]])
    (simp_all add: assms)

section \<open>The fields of the codec\<close>

definition short_bytes :: "string \<Rightarrow> u8 list" where
  "short_bytes s = u16_to_le_bytes (of_nat (length s)) @ as_bytes s"

definition long_bytes :: "u8 list \<Rightarrow> u8 list" where
  "long_bytes b = u32_to_le_bytes (of_nat (length b)) @ b"

definition short_ok :: "string \<Rightarrow> bool" where
  "short_ok s \<longleftrightarrow> rust_str s \<and> length s \<le> U16_MAX"

definition long_ok :: "string \<Rightarrow> bool" where
  "long_ok s \<longleftrightarrow> rust_str s \<and> length s \<le> U32_MAX"

lemma unat_of_nat_u16: "n \<le> U16_MAX \<Longrightarrow> unat (of_nat n :: u16) = n"
  by (simp add: unat_of_nat)

lemma unat_of_nat_u32: "n \<le> U32_MAX \<Longrightarrow> unat (of_nat n :: u32) = n"
  by (simp add: unat_of_nat)

lemma unat_u16_le: "unat (w :: u16) \<le> U16_MAX"
  using unsigned_less [of w, where 'a = nat] by simp

lemma unat_u32_le: "unat (w :: u32) \<le> U32_MAX"
  using unsigned_less [of w, where 'a = nat] by simp

lemma length_eq_unat_u16: "length s = unat (of_nat (length s) :: u16) \<longleftrightarrow> length s \<le> U16_MAX"
  by (metis unat_of_nat_u16 unat_u16_le)

lemma length_eq_unat_u32: "length s = unat (of_nat (length s) :: u32) \<longleftrightarrow> length s \<le> U32_MAX"
  by (metis unat_of_nat_u32 unat_u32_le)

lemma four_bytes: "length bs = 4 \<Longrightarrow> [bs ! 0, bs ! 1, bs ! 2, bs ! 3] = bs"
  by (rule nth_equalityI) (auto simp: less_Suc_eq nth_Cons' numeral_eq_Suc)

lemma two_bytes: "length bs = 2 \<Longrightarrow> [bs ! 0, bs ! 1] = bs"
  by (rule nth_equalityI) (auto simp: less_Suc_eq nth_Cons' numeral_eq_Suc)

interpretation u8_field: wire_field "\<lambda>b. [b]" cursor_u8 "\<lambda>_. True"
  unfolding cursor_u8_def by (rule wire_fixed) (auto simp: length_Suc_conv)

interpretation u16_field: wire_field u16_to_le_bytes cursor_u16 "\<lambda>_. True"
  unfolding cursor_u16_def
proof (rule wire_fixed, goal_cases)
  case (2 a) show ?case by (simp add: u16_to_le_bytes_def u16_le_inverse)
next
  case (3 bs) then show ?case by (simp only: u16_to_from_le two_bytes)
qed simp

interpretation u32_field: wire_field u32_to_le_bytes cursor_u32 "\<lambda>_. True"
  unfolding cursor_u32_def
proof (rule wire_fixed, goal_cases)
  case (2 a) show ?case by (simp add: u32_to_le_bytes_def u32_le_inverse numeral_2_eq_2 numeral_3_eq_3)
next
  case (3 bs) then show ?case by (simp only: u32_to_from_le four_bytes)
qed simp

lemma wire_str:
  "wire_field as_bytes (dbind (cursor_take n) (\<lambda>bs. dresult (ok_or NotUtf8 (from_utf8 bs))))
     (\<lambda>s. length s = n \<and> rust_str s)"
  by (rule wire_cong [OF wire_seq [OF wire_take wire_dresult, where part = as_bytes]])
    (auto simp: ok_or_eq_Inr from_utf8_Some split: if_splits)

interpretation short_field: wire_field short_bytes short_str short_ok
  unfolding short_str_def
  by (rule wire_cong [OF wire_seq [OF u16_field.wire_field_axioms wire_str,
        where part = "\<lambda>s. of_nat (length s)"]])
    (auto simp: short_bytes_def short_ok_def length_eq_unat_u16)

interpretation long_field: wire_field "\<lambda>s. long_bytes (as_bytes s)" long_str long_ok
  unfolding long_str_def
  by (rule wire_cong [OF wire_seq [OF u32_field.wire_field_axioms wire_str,
        where part = "\<lambda>s. of_nat (length s)"]])
    (auto simp: long_bytes_def long_ok_def length_eq_unat_u32)

interpretation body_field: wire_field long_bytes "decode_body cap" "\<lambda>b. length b \<le> unat cap" for cap
  unfolding decode_body_def
proof (rule wire_cong [OF wire_seq [OF u32_field.wire_field_axioms wire_guard [OF wire_take],
        where part = "\<lambda>b. of_nat (length b)"]], goal_cases)
  case (2 b)
  have "length b \<le> unat cap \<Longrightarrow> length b \<le> U32_MAX"
    using unat_u32_le [of cap] by linarith
  then show ?case
    by (metis length_eq_unat_u32 linorder_not_less unat_of_nat_u32 word_less_nat_alt)
qed (auto simp: long_bytes_def)

interpretation scheme_field: wire_field "\<lambda>x. [scheme_to_byte x]"
  "dbind cursor_u8 (\<lambda>b. dresult (scheme_from_byte b))" "\<lambda>_. True"
proof (rule wire_cong [OF wire_seq [OF u8_field.wire_field_axioms wire_dresult,
        where part = scheme_to_byte]], goal_cases)
  case (1 a b) then show ?case by (auto simp: scheme_from_byte_def split: if_splits)
next
  case (2 a) show ?case by (cases a) (simp_all add: scheme_from_byte_def)
qed simp

interpretation status_field: wire_field u16_to_le_bytes decode_status "\<lambda>s. 100 \<le> s \<and> s \<le> 599"
  unfolding decode_status_def
  by (rule wire_cong [OF wire_seq [OF u16_field.wire_field_axioms wire_dresult,
        where part = "\<lambda>s. s"]])
    (auto simp: validate_status_def split: if_splits)

definition header_size :: "header_list \<Rightarrow> nat" where
  "header_size hs = sum_list (map (\<lambda>(n, v). length n + length v) hs)"

definition no_control_bytes :: "string \<Rightarrow> bool" where
  "no_control_bytes s \<longleftrightarrow> list_all (\<lambda>c. 0x20 \<le> byte c \<and> byte c \<noteq> 0x7f) s"

definition header_ok :: "string \<times> string \<Rightarrow> bool" where
  "header_ok = (\<lambda>(n, v). short_ok n \<and> long_ok v \<and> no_control_bytes n \<and> no_control_bytes v)"

definition pair_bytes :: "string \<times> string \<Rightarrow> u8 list" where
  "pair_bytes = (\<lambda>(n, v). short_bytes n @ long_bytes (as_bytes v))"

definition header_bytes :: "header_list \<Rightarrow> u8 list" where
  "header_bytes hs = u16_to_le_bytes (of_nat (length hs)) @ concat (map pair_bytes hs)"

definition headers_ok :: "u16 \<Rightarrow> u32 \<Rightarrow> header_list \<Rightarrow> bool" where
  "headers_ok ncap hcap hs \<longleftrightarrow>
     length hs \<le> unat ncap \<and> header_size hs \<le> unat hcap \<and> list_all header_ok hs"

lemma reject_control_bytes_Inr: "reject_control_bytes s = Inr u \<longleftrightarrow> no_control_bytes s"
  by (auto simp: reject_control_bytes_def no_control_bytes_def as_bytes_def list_ex_iff list_all_iff
      linorder_not_less [symmetric] split: if_splits)

lemma add_header_bytes_Inr:
  assumes "length name \<le> U32_MAX"
  shows "add_header_bytes hcap hb name value = Inr hb' \<longleftrightarrow>
     unat hb' = unat hb + length name + length value"
proof -
  have v: "unat (of_nat (length value) :: u32) = length value" if "length value \<le> U32_MAX"
    using that by (rule unat_of_nat_u32)
  have n: "unat (of_nat (length name) :: u32) = length name"
    using assms by (rule unat_of_nat_u32)
  have big: "unat (x :: u32) < 4294967296" for x
    using unat_u32_le [of x] by linarith
  show ?thesis
  proof (cases "length value \<le> U32_MAX \<and> unat hb + length name + length value < 4294967296")
    case True
    then have 1: "checked_add hb (of_nat (length name)) = Some (hb + of_nat (length name))"
      by (simp add: checked_add_def n)
    have u: "unat (hb + of_nat (length name)) = unat hb + length name"
      using checked_add_unat [OF 1] n by simp
    have 2: "checked_add (hb + of_nat (length name)) (of_nat (length value)) =
        Some (hb + of_nat (length name) + of_nat (length value))"
      using True by (simp add: checked_add_def u v)
    have "add_header_bytes hcap hb name value = Inr (hb + of_nat (length name) + of_nat (length value))"
      using True assms by (simp add: add_header_bytes_def 1 2)
    with checked_add_unat [OF 2] u v True show ?thesis
      by (auto simp: word_unat_eq_iff)
  next
    case False
    then have "add_header_bytes hcap hb name value \<noteq> Inr hb'"
      using assms
      by (auto simp: add_header_bytes_def ok_or_eq_Inr bind_eq_Some_conv checked_add_Some n v
          unat_plus_no_wrap split: if_splits)
    moreover have "unat hb' \<noteq> unat hb + length name + length value"
      using False big [of hb'] by auto
    ultimately show ?thesis by simp
  qed
qed

lemma wire_header_loop:
  "hb \<le> hcap \<Longrightarrow> wire_field (\<lambda>hs. concat (map pair_bytes (drop (length acc) hs)))
     (decode_header_loop n hcap hb acc)
     (\<lambda>hs. \<exists>tl. hs = acc @ tl \<and> length tl = n \<and> list_all header_ok tl
            \<and> unat hb + header_size tl \<le> unat hcap)"
proof (induction n arbitrary: hb acc)
  case 0
  show ?case
    by (simp only: decode_header_loop.simps, rule wire_cong [OF wire_dreturn])
      (use 0 in \<open>auto simp: word_le_nat_alt header_size_def\<close>)
next
  case (Suc n)
  have step: "wire_field (\<lambda>hs. concat (map pair_bytes (drop (Suc (length acc)) hs)))
     (decode_header_loop n hcap hb' (acc @ [(nm, vl)]))
     (\<lambda>hs. \<exists>tl. hs = (acc @ [(nm, vl)]) @ tl \<and> length tl = n \<and> list_all header_ok tl
            \<and> unat hb' + header_size tl \<le> unat hcap)" if "\<not> hb' > hcap" for hb' nm vl
    using Suc.IH [of hb' "acc @ [(nm, vl)]"] that by simp
  let ?enc = "\<lambda>hs. concat (map pair_bytes (drop (Suc (length acc)) hs))"
  let ?rest = "\<lambda>nm vl hs. \<exists>tl. hs = acc @ (nm, vl) # tl \<and> length tl = n
      \<and> list_all header_ok tl \<and> no_control_bytes nm \<and> no_control_bytes vl
      \<and> unat hb + length nm + length vl + header_size tl \<le> unat hcap"
  have inner: "wire_field ?enc
     (dbind (dresult (reject_control_bytes nm)) (\<lambda>_.
      dbind (dresult (reject_control_bytes vl)) (\<lambda>_.
      dbind (dresult (add_header_bytes hcap hb nm vl)) (\<lambda>hb'.
      if hb' > hcap then dresult (Inl (HeaderBytesExceeded hcap))
      else decode_header_loop n hcap hb' (acc @ [(nm, vl)])))))
     (?rest nm vl)" if "short_ok nm" for nm vl
  proof (rule wire_cong [OF wire_dresult_seq [OF wire_dresult_seq [OF wire_dresult_seq [OF wire_guard [OF step]]]]], assumption, goal_cases)
    case (1 hs)
    have "length nm \<le> U32_MAX" using that by (simp add: short_ok_def)
    note add = add_header_bytes_Inr [OF this, of hcap hb vl]
    have ex: "\<exists>x :: u32. unat x = m \<and> \<not> hcap < x \<and> unat x + k \<le> unat hcap"
      if "m + k \<le> unat hcap" for m k
      using that unat_u32_le [of hcap] unat_of_nat_u32 [of m]
      by (intro exI [of _ "of_nat m :: u32"]) (simp add: word_less_nat_alt)
    show ?case
      by (auto simp: reject_control_bytes_Inr add dest: ex)
  qed simp
  show ?case
    unfolding decode_header_loop.simps
  proof (rule wire_cong [OF wire_seq [OF short_field.wire_field_axioms wire_seq
          [OF long_field.wire_field_axioms inner, where part = "\<lambda>hs. snd (hs ! length acc)"],
          where part = "\<lambda>hs. fst (hs ! length acc)"]], goal_cases)
    case (3 nm hs)
    then obtain vl tl where "hs = acc @ (nm, vl) # tl" by blast
    then show ?case by simp
  next
    case (4 hs)
    show ?case
    proof
      assume "\<exists>tl. hs = acc @ tl \<and> length tl = Suc n \<and> list_all header_ok tl
          \<and> unat hb + header_size tl \<le> unat hcap"
      then obtain nm vl tl where "hs = acc @ (nm, vl) # tl" "length tl = n"
          "list_all header_ok ((nm, vl) # tl)"
          "unat hb + header_size ((nm, vl) # tl) \<le> unat hcap"
        by (auto simp: length_Suc_conv)
      then show "short_ok (fst (hs ! length acc)) \<and> long_ok (snd (hs ! length acc))
          \<and> ?rest (fst (hs ! length acc)) (snd (hs ! length acc)) hs"
        by (auto simp: header_ok_def header_size_def)
    next
      assume "short_ok (fst (hs ! length acc)) \<and> long_ok (snd (hs ! length acc))
          \<and> ?rest (fst (hs ! length acc)) (snd (hs ! length acc)) hs"
      moreover obtain nm vl where "hs ! length acc = (nm, vl)" by fastforce
      ultimately obtain tl where "hs = acc @ (nm, vl) # tl" "length tl = n"
          "header_ok (nm, vl)" "list_all header_ok tl"
          "unat hb + length nm + length vl + header_size tl \<le> unat hcap"
        by (auto simp: header_ok_def)
      then show "\<exists>tl. hs = acc @ tl \<and> length tl = Suc n \<and> list_all header_ok tl
          \<and> unat hb + header_size tl \<le> unat hcap"
        by (intro exI [of _ "(nm, vl) # tl"]) (auto simp: header_size_def)
    qed
  next
    case (5 hs)
    then obtain x tl where hs: "hs = acc @ x # tl" by blast
    have "length acc < length hs" unfolding hs by simp
    then have "drop (length acc) hs = hs ! length acc # drop (Suc (length acc)) hs"
      by (simp add: Cons_nth_drop_Suc)
    then show ?case by (simp add: pair_bytes_def case_prod_unfold)
  qed auto
qed

interpretation headers_field: wire_field header_bytes "decode_headers ncap hcap" "headers_ok ncap hcap"
  for ncap hcap
  unfolding decode_headers_def
proof (rule wire_cong [OF wire_seq [OF u16_field.wire_field_axioms wire_guard [OF wire_header_loop],
        where part = "\<lambda>hs. of_nat (length hs)"]], goal_cases)
  case (3 hs)
  have "length hs \<le> unat ncap \<Longrightarrow> length hs \<le> U16_MAX"
    using unat_u16_le [of ncap] by linarith
  then show ?case
    by (auto simp: headers_ok_def word_less_nat_alt unat_of_nat_u16)
qed (auto simp: header_bytes_def)

subsection \<open>The envelopes\<close>

definition request_envelope :: "request_frame \<Rightarrow> u8 list" where
  "request_envelope req =
     short_bytes (rf_method req) @ long_bytes (as_bytes (rf_path req)) @
     long_bytes (as_bytes (rf_query req)) @ short_bytes (rf_server_name req) @
     u16_to_le_bytes (rf_server_port req) @ [scheme_to_byte (rf_scheme req)] @
     short_bytes (rf_remote_addr req) @ header_bytes (rf_headers req) @ long_bytes (rf_body req)"

definition request_ok :: "frame_caps \<Rightarrow> request_frame \<Rightarrow> bool" where
  "request_ok caps req \<longleftrightarrow>
     short_ok (rf_method req) \<and> long_ok (rf_path req) \<and> long_ok (rf_query req) \<and>
     short_ok (rf_server_name req) \<and> short_ok (rf_remote_addr req) \<and>
     headers_ok (max_headers caps) (max_header_bytes caps) (rf_headers req) \<and>
     length (rf_body req) \<le> unat (max_body_bytes caps)"

definition response_envelope :: "response_frame \<Rightarrow> u8 list" where
  "response_envelope resp =
     (case resp of
        Resp_Full status headers body \<Rightarrow>
          [RESP_FULL] @ u16_to_le_bytes status @ header_bytes headers @ long_bytes body
      | Resp_Head status headers \<Rightarrow> [RESP_HEAD] @ u16_to_le_bytes status @ header_bytes headers
      | Resp_Chunk data \<Rightarrow> [RESP_CHUNK] @ long_bytes data
      | Resp_End \<Rightarrow> [RESP_END])"

definition status_ok :: "u16 \<Rightarrow> bool" where
  "status_ok s \<longleftrightarrow> 100 \<le> s \<and> s \<le> 599"

definition response_ok :: "frame_caps \<Rightarrow> response_frame \<Rightarrow> bool" where
  "response_ok caps resp =
     (case resp of
        Resp_Full status headers body \<Rightarrow>
          status_ok status \<and> headers_ok (max_headers caps) (max_header_bytes caps) headers \<and>
          length body \<le> unat (max_body_bytes caps)
      | Resp_Head status headers \<Rightarrow>
          status_ok status \<and> headers_ok (max_headers caps) (max_header_bytes caps) headers
      | Resp_Chunk data \<Rightarrow> length data \<le> unat (max_body_bytes caps)
      | Resp_End \<Rightarrow> True)"

text \<open>
  What a whole envelope adds to a field: the decoder runs on a fresh cursor and the tiling check
  refuses a remainder, so the envelope is accepted exactly when it is the encoding of the value.
\<close>

locale wire_envelope = wire_field +
  fixes decode :: "u8 list \<Rightarrow> frame_error + 'a"
  assumes decode_eq: "decode bs = and_then (dec (cursor_new bs)) (check_tiling bs)"
begin

lemma decode_iff: "decode bs = Inr a \<longleftrightarrow> ok a \<and> bs = enc a"
proof
  assume "decode bs = Inr a"
  then obtain c where d: "dec (cursor_new bs) = Inr (a, c)" and t: "check_tiling bs (a, c) = Inr a"
    by (auto simp: decode_eq and_then_eq_Inr check_tiling_def split: if_splits)
  from enc_dec [OF cur_wf_new d] obtain r where
    "ok a" "bs = enc a @ r" "c = cur_adv (cursor_new bs) (length (enc a))" by auto
  with t show "ok a \<and> bs = enc a"
    by (auto simp: check_tiling_def cursor_remaining_def cur_adv_def cursor_new_def split: if_splits)
next
  assume *: "ok a \<and> bs = enc a"
  then have "dec (cursor_new bs) = Inr (a, cur_adv (cursor_new bs) (length bs))"
    using dec_enc [of "cursor_new bs" a "[]"] by simp
  with * show "decode bs = Inr a"
    by (simp add: decode_eq check_tiling_def cursor_remaining_def cur_adv_def cursor_new_def)
qed

lemma decode_strict_prefix: "decode bs = Inr a \<Longrightarrow> r \<noteq> [] \<Longrightarrow> bs = p @ r \<Longrightarrow> \<exists>e. decode p = Inl e"
proof (cases "decode p")
  case (Inr b)
  assume "decode bs = Inr a" "r \<noteq> []" "bs = p @ r"
  with Inr enc_prefix_free [of b a r "[]"] show ?thesis by (simp add: decode_iff)
qed simp

lemma decode_slack:
  "decode bs = Inr a \<Longrightarrow> r \<noteq> [] \<Longrightarrow>
     decode (bs @ r) = Inl (EnvelopeTilingMismatch (of_nat (length bs + length r)) (of_nat (length bs)))"
proof -
  assume "decode bs = Inr a" and r: "r \<noteq> []"
  then have a: "ok a" "bs = enc a" by (simp_all add: decode_iff)
  have "dec (cursor_new (bs @ r)) = Inr (a, cur_adv (cursor_new (bs @ r)) (length bs))"
    using a dec_enc [of "cursor_new (bs @ r)" a r] by simp
  with r show ?thesis
    by (simp add: decode_eq check_tiling_def cursor_remaining_def cur_adv_def cursor_new_def)
qed

end

interpretation request_env: wire_envelope request_envelope "decode_request_fields caps"
  "request_ok caps" "\<lambda>bs. decode_request bs caps" for caps
proof (intro wire_envelope.intro wire_envelope_axioms.intro)
  show "wire_field request_envelope (decode_request_fields caps) (request_ok caps)"
    unfolding decode_request_fields_def
    by (rule wire_cong [OF
        wire_seq [OF short_field.wire_field_axioms
        wire_seq [OF long_field.wire_field_axioms
        wire_seq [OF long_field.wire_field_axioms
        wire_seq [OF short_field.wire_field_axioms
        wire_seq [OF u16_field.wire_field_axioms
        wire_seq [OF scheme_field.wire_field_axioms
        wire_seq [OF short_field.wire_field_axioms
        wire_seq [OF headers_field.wire_field_axioms
        wire_seq [OF body_field.wire_field_axioms wire_dreturn,
          where part = rf_body], where part = rf_headers], where part = rf_remote_addr],
          where part = rf_scheme], where part = rf_server_port], where part = rf_server_name],
          where part = rf_query], where part = rf_path], where part = rf_method]])
      (((elim conjE)?, erule ssubst, simp)+, simp_all add: request_envelope_def request_ok_def)
qed (simp add: decode_request_def)

lemma wire_response: "wire_field response_envelope (decode_response_fields caps) (response_ok caps)"
proof -
  have full: "wire_field (\<lambda>x. case x of Resp_Full st hs b \<Rightarrow> u16_to_le_bytes st @ header_bytes hs @ long_bytes b | _ \<Rightarrow> [])
     (dbind decode_status (\<lambda>status. dbind (decode_headers (max_headers caps) (max_header_bytes caps))
       (\<lambda>headers. dbind (decode_body (max_body_bytes caps)) (\<lambda>body. dreturn (Resp_Full status headers body)))))
     (\<lambda>x. case x of Resp_Full st hs b \<Rightarrow> response_ok caps x | _ \<Rightarrow> False)"
    by (rule wire_cong [OF wire_seq [OF status_field.wire_field_axioms
        wire_seq [OF headers_field.wire_field_axioms wire_seq [OF body_field.wire_field_axioms wire_dreturn,
          where part = "\<lambda>x. case x of Resp_Full st hs b \<Rightarrow> b | _ \<Rightarrow> []"],
          where part = "\<lambda>x. case x of Resp_Full st hs b \<Rightarrow> hs | _ \<Rightarrow> []"],
          where part = "\<lambda>x. case x of Resp_Full st hs b \<Rightarrow> st | _ \<Rightarrow> 0"]])
      (auto simp: response_ok_def status_ok_def split: response_frame.splits)
  have head: "wire_field (\<lambda>x. case x of Resp_Head st hs \<Rightarrow> u16_to_le_bytes st @ header_bytes hs | _ \<Rightarrow> [])
     (dbind decode_status (\<lambda>status. dbind (decode_headers (max_headers caps) (max_header_bytes caps))
       (\<lambda>headers. dreturn (Resp_Head status headers))))
     (\<lambda>x. case x of Resp_Head st hs \<Rightarrow> response_ok caps x | _ \<Rightarrow> False)"
    by (rule wire_cong [OF wire_seq [OF status_field.wire_field_axioms
        wire_seq [OF headers_field.wire_field_axioms wire_dreturn,
          where part = "\<lambda>x. case x of Resp_Head st hs \<Rightarrow> hs | _ \<Rightarrow> []"],
          where part = "\<lambda>x. case x of Resp_Head st hs \<Rightarrow> st | _ \<Rightarrow> 0"]])
      (auto simp: response_ok_def status_ok_def split: response_frame.splits)
  have chunk: "wire_field (\<lambda>x. case x of Resp_Chunk d \<Rightarrow> long_bytes d | _ \<Rightarrow> [])
     (dbind (decode_body (max_body_bytes caps)) (\<lambda>data. dreturn (Resp_Chunk data)))
     (\<lambda>x. case x of Resp_Chunk d \<Rightarrow> response_ok caps x | _ \<Rightarrow> False)"
    by (rule wire_cong [OF wire_seq [OF body_field.wire_field_axioms wire_dreturn,
          where part = "\<lambda>x. case x of Resp_Chunk d \<Rightarrow> d | _ \<Rightarrow> []"]])
      (auto simp: response_ok_def split: response_frame.splits)
  let ?encB = "\<lambda>ty. if ty = RESP_FULL then (\<lambda>x. case x of Resp_Full st hs b \<Rightarrow> u16_to_le_bytes st @ header_bytes hs @ long_bytes b | _ \<Rightarrow> [])
     else if ty = RESP_HEAD then (\<lambda>x. case x of Resp_Head st hs \<Rightarrow> u16_to_le_bytes st @ header_bytes hs | _ \<Rightarrow> [])
     else if ty = RESP_CHUNK then (\<lambda>x. case x of Resp_Chunk d \<Rightarrow> long_bytes d | _ \<Rightarrow> [])
     else (\<lambda>_. [])"
  let ?okB = "\<lambda>ty. if ty = RESP_FULL then (\<lambda>x. case x of Resp_Full st hs b \<Rightarrow> response_ok caps x | _ \<Rightarrow> False)
     else if ty = RESP_HEAD then (\<lambda>x. case x of Resp_Head st hs \<Rightarrow> response_ok caps x | _ \<Rightarrow> False)
     else if ty = RESP_CHUNK then (\<lambda>x. case x of Resp_Chunk d \<Rightarrow> response_ok caps x | _ \<Rightarrow> False)
     else if ty = RESP_END then (\<lambda>x. x = Resp_End) else (\<lambda>_. False)"
  show ?thesis
    unfolding decode_response_fields_def
  proof (rule wire_cong [OF wire_seq [OF u8_field.wire_field_axioms, where encB = ?encB and okB = ?okB
          and part = "\<lambda>x. case x of Resp_Full _ _ _ \<Rightarrow> RESP_FULL | Resp_Head _ _ \<Rightarrow> RESP_HEAD | Resp_Chunk _ \<Rightarrow> RESP_CHUNK | Resp_End \<Rightarrow> RESP_END"]], goal_cases)
    case (1 ty)
    show ?case
      by (simp add: full head chunk wire_dreturn wire_dresult [of "Inl e" for e, simplified])
  qed (auto simp: response_envelope_def response_ok_def RESP_FULL_def RESP_HEAD_def RESP_CHUNK_def
      RESP_END_def split: response_frame.splits if_splits)
qed

interpretation response_env: wire_envelope response_envelope "decode_response_fields caps"
  "response_ok caps" "\<lambda>bs. decode_response bs caps" for caps
  by (intro wire_envelope.intro wire_envelope_axioms.intro wire_response)
    (simp add: decode_response_def)

section \<open>What the encoders produce\<close>

definition frame_of :: "u8 list \<Rightarrow> u8 list" where
  "frame_of env = [FRAME_MAGIC, FRAME_VERSION] @ u32_to_le_bytes (of_nat (length env)) @ env"

definition pair_fits :: "string \<times> string \<Rightarrow> bool" where
  "pair_fits = (\<lambda>(n, v). length n \<le> U16_MAX \<and> length v \<le> U32_MAX)"

definition headers_fit :: "header_list \<Rightarrow> bool" where
  "headers_fit hs \<longleftrightarrow> length hs \<le> U16_MAX \<and> list_all pair_fits hs"

definition request_fits :: "request_frame \<Rightarrow> bool" where
  "request_fits req \<longleftrightarrow>
     length (rf_method req) \<le> U16_MAX \<and> length (rf_path req) \<le> U32_MAX \<and>
     length (rf_query req) \<le> U32_MAX \<and> length (rf_server_name req) \<le> U16_MAX \<and>
     length (rf_remote_addr req) \<le> U16_MAX \<and> headers_fit (rf_headers req) \<and>
     length (rf_body req) \<le> U32_MAX \<and> length (request_envelope req) \<le> U32_MAX"

definition response_fits :: "response_frame \<Rightarrow> bool" where
  "response_fits resp \<longleftrightarrow>
     (case resp of
        Resp_Full status headers body \<Rightarrow> headers_fit headers \<and> length body \<le> U32_MAX
      | Resp_Head status headers \<Rightarrow> headers_fit headers
      | Resp_Chunk data \<Rightarrow> length data \<le> U32_MAX
      | Resp_End \<Rightarrow> True) \<and> length (response_envelope resp) \<le> U32_MAX"

lemma encode_field_eqs [wire_simps]:
  "encode_short out s = (if length s \<le> U16_MAX then Inr (out @ short_bytes s) else Inl LengthOverflow)"
  "encode_long_str out s =
     (if length s \<le> U32_MAX then Inr (out @ long_bytes (as_bytes s)) else Inl LengthOverflow)"
  "encode_long_bytes out b =
     (if length b \<le> U32_MAX then Inr (out @ long_bytes b) else Inl LengthOverflow)"
  by (auto simp: encode_short_def encode_long_str_def encode_long_bytes_def short_bytes_def long_bytes_def)

lemma encode_header_pairs_eq [wire_simps]:
  "encode_header_pairs out hs =
     (if list_all pair_fits hs then Inr (out @ concat (map pair_bytes hs)) else Inl LengthOverflow)"
  by (induction hs arbitrary: out) (auto simp: encode_field_eqs pair_fits_def pair_bytes_def split: if_splits)

lemma encode_headers_eq [wire_simps]:
  "encode_headers out hs =
     (if headers_fit hs then Inr (out @ header_bytes hs) else Inl LengthOverflow)"
  by (auto simp: encode_headers_def encode_header_pairs_eq headers_fit_def header_bytes_def)

lemma emit_header_pairs_eq [wire_simps]:
  "emit_header_pairs out k hs =
     (if list_all pair_fits hs then Inr (out @ concat (map pair_bytes hs), k + length hs)
      else Inl LengthOverflow)"
  by (induction hs arbitrary: out k) (auto simp: encode_field_eqs pair_fits_def pair_bytes_def split: if_splits)

lemma length_start_frame [simp]: "length start_frame = PREFIX_LEN"
  by (simp add: start_frame_def PREFIX_LEN_def)

lemma finish_frame_eq [wire_simps]:
  "finish_frame (start_frame @ env) =
     (if length env \<le> U32_MAX then Inr (frame_of env) else Inl LengthOverflow)"
  by (auto simp: finish_frame_def frame_of_def start_frame_def PREFIX_LEN_def)

lemma encode_request_eq:
  "encode_request req =
     (if request_fits req then Inr (frame_of (request_envelope req)) else Inl LengthOverflow)"
proof -
  have "finish_frame (start_frame @ request_envelope req) =
      (if length (request_envelope req) \<le> U32_MAX then Inr (frame_of (request_envelope req))
       else Inl LengthOverflow)"
    by (rule finish_frame_eq)
  then show ?thesis
    by (auto simp: encode_request_def encode_field_eqs encode_headers_eq request_fits_def
        request_envelope_def)
qed

lemma encode_response_eq:
  "encode_response resp =
     (if response_fits resp then Inr (frame_of (response_envelope resp)) else Inl LengthOverflow)"
proof -
  have "finish_frame (start_frame @ response_envelope resp) =
      (if length (response_envelope resp) \<le> U32_MAX then Inr (frame_of (response_envelope resp))
       else Inl LengthOverflow)"
    by (rule finish_frame_eq)
  then show ?thesis
    by (cases resp) (auto simp: encode_response_def encode_field_eqs encode_headers_eq
        response_fits_def response_envelope_def)
qed

lemma frame_of_parts:
  "take PREFIX_LEN (frame_of env) = [FRAME_MAGIC, FRAME_VERSION] @ u32_to_le_bytes (of_nat (length env))"
  "drop PREFIX_LEN (frame_of env) = env"
  "length (frame_of env) = PREFIX_LEN + length env"
  by (simp_all add: frame_of_def PREFIX_LEN_def)

lemma FramePrefix_parse_frame_of:
  "FramePrefix_parse (take PREFIX_LEN (frame_of env)) caps =
     (let n = of_nat (length env) :: u32 in
      if ucast n > max_remaining_length caps then Inl (EnvelopeTooLarge n (max_remaining_length caps))
      else Inr n)"
proof -
  have "u32_from_le_bytes (u32_to_le_bytes n ! 0) (u32_to_le_bytes n ! 1) (u32_to_le_bytes n ! 2)
      (u32_to_le_bytes n ! 3) = n" for n
    using u32_le_inverse [of n] by (simp add: u32_to_le_bytes_def numeral_2_eq_2 numeral_3_eq_3)
  then show ?thesis
    by (simp add: FramePrefix_parse_def frame_of_parts nth_Cons' Let_def)
qed

lemma headers_ok_fits: "headers_ok ncap hcap hs \<Longrightarrow> headers_fit hs"
  using unat_u16_le [of ncap]
  by (auto simp: headers_ok_def headers_fit_def list_all_iff header_ok_def short_ok_def long_ok_def pair_fits_def)

lemma request_ok_fits:
  "request_ok caps req \<Longrightarrow> length (request_envelope req) \<le> U32_MAX \<Longrightarrow> request_fits req"
  using unat_u32_le [of "max_body_bytes caps"] headers_ok_fits
  by (auto simp: request_ok_def request_fits_def short_ok_def long_ok_def)

lemma response_ok_fits:
  "response_ok caps resp \<Longrightarrow> length (response_envelope resp) \<le> U32_MAX \<Longrightarrow> response_fits resp"
  using unat_u32_le [of "max_body_bytes caps"] headers_ok_fits
  by (auto simp: response_ok_def response_fits_def split: response_frame.splits)

lemma unat_max_remaining_length:
  "unat (max_remaining_length caps) = 4096 + unat (max_header_bytes caps) + unat (max_body_bytes caps)"
  using unat_u32_le [of "max_header_bytes caps"] unat_u32_le [of "max_body_bytes caps"]
  by (simp add: max_remaining_length_def FRAME_FIXED_SLACK_def unat_word_ariths)

lemma prefix_check:
  assumes "length env \<le> U32_MAX"
  shows "FramePrefix_parse (take PREFIX_LEN (frame_of env)) caps =
    (if length env \<le> 4096 + unat (max_header_bytes caps) + unat (max_body_bytes caps) then Inr (of_nat (length env))
     else Inl (EnvelopeTooLarge (of_nat (length env)) (max_remaining_length caps)))"
proof -
  have "unat (ucast (of_nat (length env) :: u32) :: u64) = length env"
    using unat_of_nat_u32 [OF assms] by simp
  then show ?thesis
    by (auto simp: FramePrefix_parse_frame_of Let_def word_less_nat_alt unat_max_remaining_length)
qed

lemma prefix_accepts_iff:
  assumes "length env \<le> U32_MAX"
  shows "FramePrefix_parse (take PREFIX_LEN (frame_of env)) caps = Inr (of_nat (length env)) \<longleftrightarrow>
    length env \<le> 4096 + unat (max_header_bytes caps) + unat (max_body_bytes caps)"
  using prefix_check [OF assms] by simp

section \<open>Properties\<close>

definition sample_caps :: frame_caps where
  "sample_caps = \<lparr>max_header_bytes = 64, max_headers = 4, max_body_bytes = 32\<rparr>"

definition sample_request :: request_frame where
  "sample_request = \<lparr>rf_method = ''POST'', rf_path = ''/s'', rf_query = ''a=1'',
     rf_server_name = ''h'', rf_server_port = 443, rf_scheme = Https,
     rf_remote_addr = ''203.0.113.9'', rf_headers = [(''host'', ''h'')], rf_body = [1, 255]\<rparr>"

lemmas ok_defs = request_ok_def response_ok_def headers_ok_def header_ok_def short_ok_def long_ok_def
  status_ok_def header_size_def no_control_bytes_def rust_str_def as_bytes_def byte_def

lemmas bytes_defs = request_envelope_def response_envelope_def short_bytes_def long_bytes_def
  header_bytes_def pair_bytes_def as_bytes_def byte_def

lemma sample_request_ok: "request_ok sample_caps sample_request"
  by (simp add: sample_caps_def sample_request_def ok_defs)

lemma sample_request_length: "length (request_envelope sample_request) = 57"
  by (simp add: sample_request_def bytes_defs)

text \<open>
  C8: The round trip of a request within the caps, whatever its size. Its encoder refuses it exactly
  when the envelope is longer than the 32-bit length field can say. Otherwise decoding what follows
  the six prefix bytes gives the request back, and the transport's check of the prefix returns
  exactly the number of bytes that follow when they are at most 4096 plus the two byte caps, and
  refuses the frame as too large otherwise: the caps bound the header and the body but not the
  target and the other fields, so that a request within the caps can fail this check.
\<close>

theorem request_frame_roundtrip:
  assumes "request_ok caps req"
  shows "if U32_MAX < length (request_envelope req) then encode_request req = Inl LengthOverflow
    else \<exists>frame. encode_request req = Inr frame \<and> decode_request (drop PREFIX_LEN frame) caps = Inr req \<and>
      FramePrefix_parse (take PREFIX_LEN frame) caps =
        (if length frame - PREFIX_LEN \<le> 4096 + unat (max_header_bytes caps) + unat (max_body_bytes caps)
         then Inr (of_nat (length frame - PREFIX_LEN))
         else Inl (EnvelopeTooLarge (of_nat (length frame - PREFIX_LEN)) (max_remaining_length caps)))"
proof (cases "length (request_envelope req) \<le> U32_MAX")
  case True
  have "encode_request req = Inr (frame_of (request_envelope req))"
    using assms True by (simp add: encode_request_eq request_ok_fits)
  then show ?thesis
    using assms True prefix_check [OF True, of caps] by (simp add: frame_of_parts(2,3) request_env.decode_iff)
next
  case False
  then show ?thesis by (simp add: encode_request_eq request_fits_def)
qed

theorem request_frame_roundtrip_witness:
  "request_ok sample_caps sample_request \<and> (\<exists>frame. encode_request sample_request = Inr frame
    \<and> FramePrefix_parse (take PREFIX_LEN frame) sample_caps = Inr (of_nat (length frame - PREFIX_LEN))
    \<and> decode_request (drop PREFIX_LEN frame) sample_caps = Inr sample_request)"
proof -
  have "encode_request sample_request = Inr frame \<Longrightarrow> length frame - PREFIX_LEN = 57" for frame
    by (simp add: encode_request_eq frame_of_parts sample_request_length split: if_splits)
      (auto simp: frame_of_parts sample_request_length)
  then show ?thesis
    using request_frame_roundtrip [OF sample_request_ok] sample_request_ok
    by (auto simp: sample_request_length)
qed

text \<open>
  C9: the request decoder accepts an envelope exactly when it is the canonical encoding of a request
  within the caps: valid UTF-8 fields, at most \<open>max_headers\<close> headers of at most
  \<open>max_header_bytes\<close> bytes in total, no control byte in a header, a body within the cap, and no
  slack. In particular two different envelopes never decode to the same request.
\<close>

theorem decode_request_exact:
  "decode_request env caps = Inr req \<longleftrightarrow> request_ok caps req \<and> env = request_envelope req"
  by (rule request_env.decode_iff)

text \<open>
  re-encoding a decoded request reproduces the received frame byte for byte; cutting the envelope
  anywhere makes the decoder fail, and appending anything to it is reported as a tiling mismatch
  that names the declared and the consumed length.
\<close>

theorem decode_request_framing:
  assumes "decode_request env caps = Inr req" and "length env \<le> U32_MAX"
  shows "encode_request req = Inr (frame_of env)
    \<and> (\<forall>k < length env. \<exists>e. decode_request (take k env) caps = Inl e)
    \<and> (\<forall>r. r \<noteq> [] \<longrightarrow> decode_request (env @ r) caps =
           Inl (EnvelopeTilingMismatch (of_nat (length env + length r)) (of_nat (length env))))"
proof (intro conjI allI impI)
  have "request_ok caps req" "env = request_envelope req"
    using assms(1) by (simp_all add: request_env.decode_iff)
  with assms(2) show "encode_request req = Inr (frame_of env)"
    by (simp add: encode_request_eq request_ok_fits)
next
  fix k assume "k < length env"
  then have "drop k env \<noteq> []" "env = take k env @ drop k env" by simp_all
  then show "\<exists>e. decode_request (take k env) caps = Inl e"
    by (rule request_env.decode_strict_prefix [OF assms(1)])
next
  fix r :: "u8 list" assume "r \<noteq> []"
  then show "decode_request (env @ r) caps =
      Inl (EnvelopeTilingMismatch (of_nat (length env + length r)) (of_nat (length env)))"
    by (rule request_env.decode_slack [OF assms(1)])
qed

theorem decode_request_framing_witness:
  "encode_request sample_request = Inr (frame_of (request_envelope sample_request))
   \<and> (\<exists>e. decode_request (take 3 (request_envelope sample_request)) sample_caps = Inl e)
   \<and> decode_request (request_envelope sample_request @ [0]) sample_caps =
       Inl (EnvelopeTilingMismatch 58 57)"
proof -
  have d: "decode_request (request_envelope sample_request) sample_caps = Inr sample_request"
    by (simp add: request_env.decode_iff sample_request_ok)
  have l: "length (request_envelope sample_request) \<le> U32_MAX"
    by (simp add: sample_request_length)
  show ?thesis
    using decode_request_framing [OF d l] by (simp add: sample_request_length)
qed

text \<open>
  the response codec: decoding accepts exactly the canonical encodings of responses within the
  caps with a status between 100 and 599, and a response whose lengths fit the wire is encoded
  to the frame of that envelope, so buffered and streaming responses cross the hop unchanged.
\<close>

theorem response_frame_roundtrip:
  "decode_response env caps = Inr resp \<longleftrightarrow>
     response_ok caps resp \<and> env = response_envelope resp
     \<and> (length env \<le> U32_MAX \<longrightarrow> encode_response resp = Inr (frame_of env))"
  using response_ok_fits by (auto simp: response_env.decode_iff encode_response_eq)

theorem response_frame_roundtrip_witness:
  "decode_response (response_envelope (Resp_Full 200 [(''a'', ''b'')] [7])) sample_caps =
     Inr (Resp_Full 200 [(''a'', ''b'')] [7])"
  by (rule response_frame_roundtrip [THEN iffD2])
    (simp add: ok_defs sample_caps_def encode_response_eq response_fits_def headers_fit_def
      pair_fits_def bytes_defs)

definition ref_of :: "request_frame \<Rightarrow> request_frame_ref" where
  "ref_of req = \<lparr>rr_method = rf_method req, rr_path = rf_path req, rr_query = rf_query req,
     rr_server_name = rf_server_name req, rr_server_port = rf_server_port req,
     rr_scheme = rf_scheme req, rr_remote_addr = rf_remote_addr req, rr_body = rf_body req\<rparr>"

lemma encode_request_ref_into_eq:
  "encode_request_ref_into out (ref_of req) n (rf_headers req) =
     (if request_fits req \<and> n = length (rf_headers req)
      then Inr (frame_of (request_envelope req)) else Inl LengthOverflow)"
proof -
  have sf: "[] @ [FRAME_MAGIC, FRAME_VERSION] @ u32_to_le_bytes 0 = start_frame"
    by (simp add: start_frame_def)
  show ?thesis
    unfolding encode_request_ref_into_def finish_frame_def [symmetric]
    unfolding Let_def sf
    using finish_frame_eq [of "request_envelope req"]
    by (auto simp: ref_of_def encode_field_eqs emit_header_pairs_eq request_fits_def headers_fit_def
        request_envelope_def header_bytes_def)
qed

text \<open>
  the allocation-free encoder writes exactly the bytes of the owned encoder (or fails exactly when
  it fails), whatever the reused buffer held before, when the declared header count is the number
  of headers; with any other count it never produces a frame.
\<close>

theorem encode_request_ref_agrees:
  "encode_request_ref_into out (ref_of req) n (rf_headers req) =
     (if n = length (rf_headers req) then encode_request req else Inl LengthOverflow)"
  by (simp add: encode_request_ref_into_eq encode_request_eq)

text \<open>
  the prefix pre-check bounds the whole envelope by 4096 bytes plus the header and the body cap,
  but neither the path nor the query is counted by those caps: for every caps whose sum leaves
  room in the 32-bit length there is a request the decoder accepts (a long path, no header, an
  empty body) whose frame the pre-check refuses. The comment on \<open>FRAME_FIXED_SLACK\<close> says the
  pre-check can never reject a legal frame.
\<close>

theorem prefix_check_rejects_legal_frame:
  assumes "unat (max_header_bytes caps) + unat (max_body_bytes caps) < U32_MAX - 5000"
  shows "\<exists>req frame. encode_request req = Inr frame
    \<and> decode_request (drop PREFIX_LEN frame) caps = Inr req
    \<and> (\<exists>n lim. FramePrefix_parse (take PREFIX_LEN frame) caps = Inl (EnvelopeTooLarge n lim))"
proof -
  define k where "k = 4096 + unat (max_header_bytes caps) + unat (max_body_bytes caps)"
  define req where "req = \<lparr>rf_method = [], rf_path = replicate k (CHR ''a''), rf_query = [],
     rf_server_name = [], rf_server_port = 80, rf_scheme = Http, rf_remote_addr = [],
     rf_headers = [], rf_body = []\<rparr>"
  have "utf8_valid (replicate k (byte (CHR ''a'')))"
    by (induction k) (simp_all add: byte_def)
  then have "rust_str (replicate k (CHR ''a''))"
    by (simp add: rust_str_def as_bytes_def)
  then have ok: "request_ok caps req"
    using assms by (simp add: req_def k_def request_ok_def headers_ok_def short_ok_def long_ok_def
        header_size_def rust_str_def as_bytes_def)
  have len: "length (request_envelope req) = k + 23"
    by (simp add: req_def request_envelope_def short_bytes_def long_bytes_def header_bytes_def)
  have "length (request_envelope req) \<le> U32_MAX" using assms by (simp add: len k_def)
  moreover from this have "FramePrefix_parse (take PREFIX_LEN (frame_of (request_envelope req))) caps
      \<noteq> Inr (of_nat (length (request_envelope req)))"
    by (subst prefix_accepts_iff) (simp_all add: len k_def)
  ultimately show ?thesis
    using ok by (intro exI [of _ req] exI [of _ "frame_of (request_envelope req)"])
      (auto simp: encode_request_eq request_ok_fits frame_of_parts(2,3) request_env.decode_iff
        FramePrefix_parse_frame_of Let_def split: if_splits)
qed

theorem prefix_check_rejects_legal_frame_witness:
  "\<exists>req frame. encode_request req = Inr frame
    \<and> decode_request (drop PREFIX_LEN frame) sample_caps = Inr req
    \<and> (\<exists>n lim. FramePrefix_parse (take PREFIX_LEN frame) sample_caps = Inl (EnvelopeTooLarge n lim))"
  by (rule prefix_check_rejects_legal_frame) (simp add: sample_caps_def)

end
