(* ===== verification/Worker_Parser.thy ===== *)
theory Worker_Parser
  imports Header_Policy
begin

text \<open>
  \<open>crates/oxo-worker/src/native/parser.rs\<close>: the strict HTTP/1.1 request parser of the native
  worker's direct (non-frame) path. The socket is a \<open>source\<close>: the bytes the peer sends and
  how the stream then ends. Header maps are association lists in insertion order; the order in
  which \<open>parse_request\<close> iterates over the \<open>HashMap\<close> is unspecified in Rust, so it is the
  parameter \<open>iter\<close>, of which the code relies on nothing but that it lists the entries.
\<close>

section \<open>Data\<close>

definition MAX_HEADER_BYTES :: usize where "MAX_HEADER_BYTES = 64 * 1024"
definition MAX_HEADERS :: usize where "MAX_HEADERS = 100"

record parse_error =
  pe_status :: u16
  pe_message :: string

definition pe_bad :: "string \<Rightarrow> parse_error" where
  "pe_bad msg = \<lparr>pe_status = 400, pe_message = msg\<rparr>"

definition pe_large :: "string \<Rightarrow> parse_error" where
  "pe_large msg = \<lparr>pe_status = 413, pe_message = msg\<rparr>"

definition pe_headers :: "string \<Rightarrow> parse_error" where
  "pe_headers msg = \<lparr>pe_status = 431, pe_message = msg\<rparr>"

record worker_request =
  wq_method :: string
  wq_path :: string
  wq_query :: string
  wq_server_name :: string
  wq_server_port :: u16
  wq_url_scheme :: string
  wq_remote_addr :: string
  wq_headers :: "header list"
  wq_body :: "u8 list"

record worker_response =
  wr_status :: u16
  wr_headers :: "header list"
  wr_body :: "u8 list"

definition worker_response_text :: "u16 \<Rightarrow> u8 list \<Rightarrow> worker_response" where
  "worker_response_text status body =
     \<lparr>wr_status = status, wr_headers = [(''content-type'', ''text/plain; charset=utf-8'')],
      wr_body = body\<rparr>"

record worker_response_head =
  wh_status :: u16
  wh_headers :: "header list"

definition response_head_text :: "u16 \<Rightarrow> worker_response_head" where
  "response_head_text status =
     \<lparr>wh_status = status, wh_headers = [(''content-type'', ''text/plain; charset=utf-8'')]\<rparr>"

datatype worker_event =
  EvStart worker_response_head
| EvChunk "u8 list"
| EvEnd

datatype source_end = Eof | ReadFailed

type_synonym source = "u8 list \<times> source_end"

section \<open>Reading the head\<close>

definition CRLFCRLF :: "u8 list" where "CRLFCRLF = [0x0D, 0x0A, 0x0D, 0x0A]"

text \<open>One pass of the loop per byte; the arguments carry \<open>prev\<close> and \<open>head\<close>.\<close>

fun read_head_loop :: "u8 \<Rightarrow> u8 list \<Rightarrow> u8 list \<Rightarrow> source_end \<Rightarrow> parse_error + (u8 list \<times> u8 list)" where
  "read_head_loop prev head [] fin =
     (case fin of ReadFailed \<Rightarrow> Inl (pe_bad ''read error'') | Eof \<Rightarrow> Inl (pe_bad ''unterminated headers''))"
| "read_head_loop prev head (b # rest) fin =
     (if b = 0x0A \<and> prev \<noteq> 0x0D then Inl (pe_bad ''bare LF in request head'')
      else
        (let head = head @ [b] in
         if length head > MAX_HEADER_BYTES then Inl (pe_headers ''headers too large'')
         else if ends_with head CRLFCRLF then Inr (head, rest)
         else read_head_loop b head rest fin))"

definition read_head :: "source \<Rightarrow> parse_error + (u8 list \<times> u8 list)" where
  "read_head src = read_head_loop 0 [] (fst src) (snd src)"

section \<open>Parsing the head\<close>

definition valid_token_byte :: "u8 \<Rightarrow> bool" where
  "valid_token_byte b \<longleftrightarrow>
     is_ascii_alphanumeric b \<or>
     b \<in> set (as_bytes ''!#$%&'') \<or> b = 0x27 \<or> b \<in> set (as_bytes ''*+-.^_`|~'')"

definition valid_token :: "string \<Rightarrow> bool" where
  "valid_token s \<longleftrightarrow> s \<noteq> [] \<and> list_all valid_token_byte (as_bytes s)"

definition forbidden_header :: "string \<Rightarrow> bool" where
  "forbidden_header name \<longleftrightarrow>
     name \<in> set
       [''transfer-encoding'', ''expect'', ''upgrade'', ''trailer'', ''te'', ''keep-alive'',
        ''proxy-connection'', ''proxy-authenticate'', ''proxy-authorization'']"

definition value_has_ctl :: "string \<Rightarrow> bool" where
  "value_has_ctl v \<longleftrightarrow> list_ex (\<lambda>b. b < 0x20 \<or> b = 0x7F) (as_bytes v)"

definition parse_header_line :: "header list \<Rightarrow> string \<Rightarrow> parse_error + header" where
  "parse_header_line headers line =
     (if starts_with line '' '' \<or> starts_with line [CHR 0x09] then
        Inl (pe_bad ''obsolete line folding'')
      else
        (case split_once (CHR '':'') line of
           None \<Rightarrow> Inl (pe_bad ''malformed header'')
         | Some (name, raw_value) \<Rightarrow>
             if name = [] \<or> trim_end name \<noteq> name \<or> \<not> valid_token name then
               Inl (pe_bad ''malformed header name'')
             else
               (let name = to_ascii_lowercase name in
                if name \<in> fst ` set headers then Inl (pe_bad ''duplicate header'')
                else
                  (let v = trim_blanks raw_value in
                   if value_has_ctl v then Inl (pe_bad ''malformed header value'')
                   else if forbidden_header name then Inl (pe_bad (name @ '' not allowed''))
                   else if name = ''connection'' \<and>
                     list_ex (\<lambda>tok. \<not> eq_ignore_ascii_case (trim tok) ''close'') (split_on (CHR '','') v)
                   then Inl (pe_bad ''connection tokens are not allowed'')
                   else Inr (name, v)))))"

fun parse_header_lines :: "nat \<Rightarrow> header list \<Rightarrow> string list \<Rightarrow> parse_error + header list" where
  "parse_header_lines seen headers [] = Inr headers"
| "parse_header_lines seen headers (line # lines) =
     (if line = [] then Inr headers
      else
        (let seen = seen + 1 in
         if seen > MAX_HEADERS then Inl (pe_headers ''too many headers'')
         else
           and_then (parse_header_line headers line) (\<lambda>h.
           parse_header_lines seen (headers @ [h]) lines)))"

definition parse_request_line :: "string \<Rightarrow> parse_error + (string \<times> string \<times> string)" where
  "parse_request_line line =
     (let parts = split_on (CHR '' '') line in
      if length parts \<noteq> 3 \<or> list_ex (\<lambda>p. p = []) parts then Inl (pe_bad ''malformed request line'')
      else if \<not> valid_token (parts ! 0) then Inl (pe_bad ''malformed method'')
      else Inr (parts ! 0, parts ! 1, parts ! 2))"

definition parse_head :: "u8 list \<Rightarrow> parse_error + (string \<times> string \<times> string \<times> header list)" where
  "parse_head head =
     and_then (ok_or (pe_bad ''non-utf8 request head'') (from_utf8 head)) (\<lambda>txt.
     (case split_crlf txt of
        [] \<Rightarrow> Inl (pe_bad ''missing request line'')
      | request_line # lines \<Rightarrow>
          and_then (parse_request_line request_line) (\<lambda>(m, target, version).
          and_then (parse_header_lines 0 [] lines) (\<lambda>headers.
          Inr (m, target, version, headers)))))"

section \<open>Parsing the request\<close>

definition parse_content_length :: "string \<Rightarrow> parse_error + usize" where
  "parse_content_length v =
     (if v = [] \<or> \<not> list_all is_ascii_digit (as_bytes v) then Inl (pe_bad ''bad content-length'')
      else ok_or (pe_bad ''bad content-length'') (parse_uint U64_MAX v))"

definition split_target :: "string \<Rightarrow> string \<times> string" where
  "split_target target = (case split_once (CHR ''?'') target of Some (p, q) \<Rightarrow> (p, q) | None \<Rightarrow> (target, []))"

definition parse_host_name :: "string \<Rightarrow> string" where
  "parse_host_name host = (case rsplit_once (CHR '':'') host of Some (name, _) \<Rightarrow> name | None \<Rightarrow> host)"

definition parse_host_port :: "string \<Rightarrow> u16 option" where
  "parse_host_port host =
     (case rsplit_once (CHR '':'') host of
        Some (_, port) \<Rightarrow> map_option of_nat (parse_uint U16_MAX port)
      | None \<Rightarrow> None)"

definition check_target :: "string \<Rightarrow> string \<Rightarrow> parse_error + unit" where
  "check_target version target =
     (if version \<noteq> ''HTTP/1.1'' then Inl (pe_bad ''only HTTP/1.1 is supported'')
      else if \<not> starts_with target ''/'' \<or> starts_with target ''//'' \<or> contains_str target ''://'' then
        Inl (pe_bad ''only origin-form targets are supported'')
      else Inr ())"

definition request_body_length :: "header list \<Rightarrow> usize \<Rightarrow> parse_error + usize" where
  "request_body_length headers max_body =
     and_then
       (case map_of headers ''content-length'' of
          Some v \<Rightarrow> and_then (parse_content_length v) (\<lambda>n. Inr (Some n))
        | None \<Rightarrow> Inr None) (\<lambda>content_length.
     if (case map_of headers ''content-type'' of
           Some v \<Rightarrow> starts_with (to_ascii_lowercase v) ''application/grpc''
         | None \<Rightarrow> False)
     then Inl (pe_bad ''gRPC is not supported by the Rack worker'')
     else
       (let len = unwrap_or content_length 0 in
        if len > max_body then Inl (pe_large ''payload too large'') else Inr len))"

definition read_body :: "u8 list \<Rightarrow> usize \<Rightarrow> parse_error + u8 list" where
  "read_body rest len =
     (if length rest < len then Inl (pe_bad ''short body'') else Inr (take len rest))"

text \<open>The body of the loop over the header map: what one entry does to the request.\<close>

definition classify_header :: "worker_request \<Rightarrow> header \<Rightarrow> worker_request" where
  "classify_header r h =
     (let name = fst h; v = snd h in
      if name = ''x-oxo-remote-addr'' then r\<lparr>wq_remote_addr := v\<rparr>
      else if name = ''x-oxo-url-scheme'' then
        (if v = ''http'' \<or> v = ''https'' then r\<lparr>wq_url_scheme := v\<rparr> else r)
      else if name = ''x-oxo-server-name'' then r\<lparr>wq_server_name := v\<rparr>
      else if name = ''x-oxo-server-port'' then
        (case parse_uint U16_MAX v of Some p \<Rightarrow> r\<lparr>wq_server_port := of_nat p\<rparr> | None \<Rightarrow> r)
      else if name = ''host'' then r\<lparr>wq_headers := wq_headers r @ [(''host'', v)]\<rparr>
      else if name = ''connection'' then r
      else if is_client_forwarding_header name then r
      else if starts_with name ''x-oxo-'' then r
      else
        (case normalize_header_name name of
           Some n \<Rightarrow> r\<lparr>wq_headers := wq_headers r @ [(n, v)]\<rparr>
         | None \<Rightarrow> r))"

definition parse_request ::
  "(header list \<Rightarrow> header list) \<Rightarrow> source \<Rightarrow> usize \<Rightarrow> parse_error + worker_request" where
  "parse_request iter src max_body =
     and_then (read_head src) (\<lambda>(head, rest).
     and_then (parse_head head) (\<lambda>(m, target, version, headers).
     and_then (check_target version target) (\<lambda>_.
     and_then (ok_or (pe_bad ''host header is required'') (map_of headers ''host'')) (\<lambda>host.
     and_then (request_body_length headers max_body) (\<lambda>len.
     and_then (read_body rest len) (\<lambda>body.
     let (path, query) = split_target target in
     Inr (foldl classify_header
       \<lparr>wq_method = m, wq_path = path, wq_query = query, wq_server_name = parse_host_name host,
        wq_server_port = unwrap_or (parse_host_port host) 80, wq_url_scheme = ''http'',
        wq_remote_addr = ''127.0.0.1'', wq_headers = [], wq_body = body\<rparr>
       (iter headers))))))))"

section \<open>The head reader\<close>

text \<open>Every LF of a head is the second byte of a CR LF; \<open>p\<close> is the byte before the text.\<close>

fun lf_after_cr :: "u8 \<Rightarrow> u8 list \<Rightarrow> bool" where
  "lf_after_cr p [] = True"
| "lf_after_cr p (b # bs) = ((b = 0x0A \<longrightarrow> p = 0x0D) \<and> lf_after_cr b bs)"

text \<open>
  \<open>complete_head h\<close>: \<open>h\<close> ends with the blank line, no shorter prefix does, it fits the
  limit and has no bare LF.
\<close>

definition complete_head :: "u8 list \<Rightarrow> bool" where
  "complete_head h \<longleftrightarrow>
     lf_after_cr 0 h \<and> length h \<le> MAX_HEADER_BYTES \<and> ends_with h CRLFCRLF \<and>
     (\<forall>k < length h. \<not> ends_with (take k h) CRLFCRLF)"

lemma lf_after_cr_append:
  "lf_after_cr p (a @ b) \<longleftrightarrow> lf_after_cr p a \<and> lf_after_cr (if a = [] then p else last a) b"
  by (induction a arbitrary: p) auto

lemma not_ends_with_Nil: "\<not> ends_with [] CRLFCRLF"
  by (simp add: ends_with_def CRLFCRLF_def)

lemma ends_with_CRLFCRLF_iff: "ends_with h CRLFCRLF \<longleftrightarrow> (\<exists>t. h = t @ CRLFCRLF)"
  by (auto simp: ends_with_def intro: exI [of _ "take (length h - length CRLFCRLF) h"])
    (metis append_take_drop_id)

definition head_in_progress :: "u8 \<Rightarrow> u8 list \<Rightarrow> bool" where
  "head_in_progress prev acc \<longleftrightarrow>
     prev = (if acc = [] then 0 else last acc) \<and> lf_after_cr 0 acc \<and>
     length acc \<le> MAX_HEADER_BYTES \<and> (\<forall>k \<le> length acc. \<not> ends_with (take k acc) CRLFCRLF)"

lemma head_step:
  assumes acc: "head_in_progress prev acc" and b: "b = 0x0A \<longrightarrow> prev = 0x0D"
    and len: "length acc < MAX_HEADER_BYTES"
  shows "ends_with (acc @ [b]) CRLFCRLF \<Longrightarrow> complete_head (acc @ [b])"
    and "\<not> ends_with (acc @ [b]) CRLFCRLF \<Longrightarrow> head_in_progress b (acc @ [b])"
proof -
  have lf: "lf_after_cr 0 (acc @ [b])"
    using acc b by (simp add: head_in_progress_def lf_after_cr_append)
  have none: "\<not> ends_with (take k (acc @ [b])) CRLFCRLF" if "k \<le> length acc" for k
    using acc that by (simp add: head_in_progress_def)
  then show "complete_head (acc @ [b])" if "ends_with (acc @ [b]) CRLFCRLF"
    using lf len that by (simp add: complete_head_def)
  show "head_in_progress b (acc @ [b])" if last: "\<not> ends_with (acc @ [b]) CRLFCRLF"
  proof -
    have "\<not> ends_with (take k (acc @ [b])) CRLFCRLF" if "k \<le> Suc (length acc)" for k
      using none last that by (cases "k \<le> length acc") (auto simp: le_Suc_eq)
    then show ?thesis using lf len by (simp add: head_in_progress_def)
  qed
qed

lemma complete_head_unique:
  assumes "complete_head h" and "complete_head g" and "h @ r = g @ q"
  shows "h = g"
proof -
  have less: "\<not> length a < length b"
    if "complete_head a" "complete_head b" "a @ x = b @ y" for a b x y
  proof
    assume "length a < length b"
    then have "take (length a) b = take (length a) (b @ y)" by simp
    also have "\<dots> = a" using that(3) by (metis append_eq_conv_conj)
    finally have "take (length a) b = a" .
    with \<open>length a < length b\<close> that(1,2) show False by (auto simp: complete_head_def)
  qed
  from less [OF assms(1,2,3)] less [OF assms(2,1) assms(3) [symmetric]]
  have "length h = length g" by simp
  with assms(3) show ?thesis by simp
qed

lemma complete_head_unique_split:
  assumes "complete_head h" and "h @ r = acc @ bs" and "head_in_progress prev acc"
  shows "\<exists>t. h = acc @ t \<and> t \<noteq> [] \<and> bs = t @ r"
proof -
  from assms(2) consider t where "h = acc @ t" "bs = t @ r" | t where "acc = h @ t" "r = t @ bs"
    by (auto simp: append_eq_append_conv2)
  then show ?thesis
  proof cases
    case 1
    have "t \<noteq> []"
      using assms(1,3) 1 by (auto simp: complete_head_def head_in_progress_def)
    with 1 show ?thesis by blast
  next
    case 2
    then have "ends_with (take (length h) acc) CRLFCRLF" "length h \<le> length acc"
      using assms(1) by (auto simp: complete_head_def)
    with assms(3) show ?thesis by (auto simp: head_in_progress_def)
  qed
qed

lemma read_head_loop_iff:
  assumes "head_in_progress prev acc"
  shows "read_head_loop prev acc bs fin = Inr (h, r) \<longleftrightarrow> h @ r = acc @ bs \<and> complete_head h"
  using assms
proof (induction bs arbitrary: prev acc)
  case Nil
  then show ?case
    using complete_head_unique_split [of h r acc "[]" prev]
    by (auto split: source_end.splits)
next
  case (Cons b bs)
  let ?acc = "acc @ [b]"
  have prev: "lf_after_cr 0 ?acc \<longleftrightarrow> (b = 0x0A \<longrightarrow> prev = 0x0D)"
    using Cons.prems by (auto simp: head_in_progress_def lf_after_cr_append)
  have needs: "(b = 0x0A \<longrightarrow> prev = 0x0D) \<and> length acc < MAX_HEADER_BYTES"
    if ok: "h @ r = acc @ b # bs" "complete_head h"
  proof -
    obtain t where t: "h = acc @ b # t"
      using complete_head_unique_split [OF ok(2,1) Cons.prems] by (auto simp: Cons_eq_append_conv)
    with ok(2) have "lf_after_cr 0 (?acc @ t)" "length acc < MAX_HEADER_BYTES"
      by (auto simp: complete_head_def)
    with prev show ?thesis by (auto simp: lf_after_cr_append)
  qed
  show ?case
  proof (cases "(b = 0x0A \<longrightarrow> prev = 0x0D) \<and> length acc < MAX_HEADER_BYTES")
    case False
    then show ?thesis using needs by auto
  next
    case ok: True
    show ?thesis
    proof (cases "ends_with ?acc CRLFCRLF")
      case True
      then have full: "complete_head ?acc" using head_step(1) Cons.prems ok by blast
      have "h = ?acc" if "h @ r = acc @ b # bs" "complete_head h"
        using complete_head_unique [OF that(2) full] that(1) by simp
      with True ok full show ?thesis by auto
    next
      case False
      then have "head_in_progress b ?acc" using head_step(2) Cons.prems ok by blast
      with Cons.IH [of b ?acc] False ok show ?thesis by auto
    qed
  qed
qed

section \<open>The header lines\<close>

definition parsed_header :: "header \<Rightarrow> bool" where
  "parsed_header h \<longleftrightarrow>
     valid_token (fst h) \<and> to_ascii_lowercase (fst h) = fst h \<and> \<not> forbidden_header (fst h) \<and>
     \<not> value_has_ctl (snd h)"

definition parsed_headers :: "header list \<Rightarrow> bool" where
  "parsed_headers hs \<longleftrightarrow>
     distinct (map fst hs) \<and> length hs \<le> MAX_HEADERS \<and> (\<forall>h \<in> set hs. parsed_header h)"

lemma alnum_lower:
  assumes "valid_token_byte (byte c)"
  shows "valid_token_byte (byte (lower_char c))"
proof (cases "is_ascii_uppercase (byte c)")
  case True
  from lower_char_upper_range [OF this] have "is_ascii_lowercase (byte (lower_char c))"
    by (simp add: is_ascii_lowercase_def word_le_nat_alt)
  then show ?thesis by (simp add: valid_token_byte_def is_ascii_alphanumeric_def)
qed (use assms in \<open>simp add: lower_char_def\<close>)

lemma valid_token_lower: "valid_token s \<Longrightarrow> valid_token (to_ascii_lowercase s)"
  by (auto simp: valid_token_def to_ascii_lowercase_def as_bytes_def list_all_iff alnum_lower)

lemma parse_header_line_Inr:
  assumes "parse_header_line hs line = Inr h"
  shows "parsed_header h" and "fst h \<notin> fst ` set hs"
  using assms
  by (auto simp: parse_header_line_def parsed_header_def Let_def valid_token_lower
      split: if_splits option.splits) (metis fst_conv image_eqI)+

lemma parse_header_lines_Inr:
  assumes "parse_header_lines (length hs) hs lines = Inr out" and "parsed_headers hs"
  shows "parsed_headers out"
  using assms
proof (induction lines arbitrary: hs)
  case (Cons line lines)
  show ?case
  proof (cases "line = []")
    case False
    with Cons.prems obtain h where h: "parse_header_line hs line = Inr h"
      and rest: "parse_header_lines (length (hs @ [h])) (hs @ [h]) lines = Inr out"
      and "length hs < MAX_HEADERS"
      by (auto simp: Let_def and_then_eq_Inr split: if_splits)
    moreover have "parsed_headers (hs @ [h])"
      using Cons.prems(2) parse_header_line_Inr [OF h] \<open>length hs < MAX_HEADERS\<close>
      by (auto simp: parsed_headers_def)
    ultimately show ?thesis using Cons.IH by blast
  qed (use Cons.prems in simp)
qed simp

lemma parse_request_line_Inr: "parse_request_line line = Inr (m, target, version) \<Longrightarrow> valid_token m"
  by (auto simp: parse_request_line_def Let_def split: if_splits)

lemma parse_head_Inr:
  assumes "parse_head head = Inr (m, target, version, hs)"
  shows "parsed_headers hs" and "valid_token m"
proof -
  from assms obtain t where
    "(case split_crlf t of
        [] \<Rightarrow> Inl (pe_bad ''missing request line'')
      | request_line # lines \<Rightarrow>
          and_then (parse_request_line request_line) (\<lambda>(m, target, version).
          and_then (parse_header_lines 0 [] lines) (\<lambda>headers.
          Inr (m, target, version, headers)))) = Inr (m, target, version, hs)"
    by (auto simp only: parse_head_def and_then_eq_Inr)
  then obtain line lines where "parse_request_line line = Inr (m, target, version)"
    and lines: "parse_header_lines 0 [] lines = Inr hs"
    by (cases "split_crlf t") (auto simp: and_then_eq_Inr)
  then show "valid_token m" by (auto dest: parse_request_line_Inr)
  from lines show "parsed_headers hs"
    using parse_header_lines_Inr [of "[]" lines hs] by (simp add: parsed_headers_def)
qed

section \<open>The header loop\<close>

definition trusted_field :: "string \<Rightarrow> bool" where
  "trusted_field n \<longleftrightarrow>
     n \<in> {''x-oxo-remote-addr'', ''x-oxo-url-scheme'', ''x-oxo-server-name'', ''x-oxo-server-port''}"

definition http_keep :: "header \<Rightarrow> header option" where
  "http_keep h =
     (let name = fst h; v = snd h in
      if name = ''host'' then Some (''host'', v)
      else if name = ''connection'' \<or> is_client_forwarding_header name \<or> starts_with name ''x-oxo-''
      then None
      else map_option (\<lambda>n. (n, v)) (normalize_header_name name))"

lemma host_app_header: "app_header_name ''host''"
  by (simp add: app_header_name_def is_client_forwarding_header_def starts_with_def
      to_ascii_lowercase_def lower_char_def is_ascii_uppercase_def byte_def)

lemma trusted_field_reserved: "trusted_field n \<Longrightarrow> starts_with n ''x-oxo-''"
  by (auto simp: trusted_field_def starts_with_def)

lemma http_keep_Some:
  "http_keep h = Some h' \<longleftrightarrow>
     fst h = ''host'' \<and> h' = h \<or>
     fst h \<noteq> ''host'' \<and> fst h \<noteq> ''connection'' \<and> \<not> is_client_forwarding_header (fst h) \<and>
     \<not> starts_with (fst h) ''x-oxo-'' \<and> CHR ''_'' \<notin> set (fst h) \<and>
     h' = (to_ascii_lowercase (fst h), snd h)"
  by (cases h) (auto simp add: http_keep_def Let_def normalize_header_name_def)

interpretation http_filter: app_header_filter parsed_header http_keep
proof
  fix h h' assume vis: "parsed_header h" and keep: "http_keep h = Some h'"
  have low: "to_ascii_lowercase (fst h) = fst h" using vis by (simp add: parsed_header_def)
  then have same: "h' = h" using keep unfolding http_keep_Some by (cases h) auto
  show "fst h' = to_ascii_lowercase (fst h)" "snd h' = snd h" using low same by simp_all
  show "app_header_name (fst h')"
  proof (cases "fst h = ''host''")
    case False
    with keep low same show ?thesis by (simp add: http_keep_Some app_header_name_def)
  qed (simp add: same host_app_header)
qed

lemma http_keep_trusted: "trusted_field (fst h) \<Longrightarrow> http_keep h = None"
  using trusted_field_reserved [of "fst h"] by (auto simp: http_keep_def trusted_field_def Let_def)

lemma classify_untrusted:
  assumes "\<not> trusted_field (fst h)"
  shows "classify_header r h =
    r\<lparr>wq_headers := wq_headers r @ (case http_keep h of None \<Rightarrow> [] | Some h' \<Rightarrow> [h'])\<rparr>"
proof -
  consider "fst h = ''host''" | "fst h = ''connection''" | "fst h \<noteq> ''host''" "fst h \<noteq> ''connection''"
    by blast
  then show ?thesis
  proof cases
    case 3
    with assms show ?thesis
      by (cases "normalize_header_name (fst h)")
        (simp_all add: classify_header_def http_keep_def trusted_field_def Let_def)
  qed (simp_all add: classify_header_def http_keep_def Let_def)
qed

text \<open>The remaining fields after the loop, for a map with distinct keys.\<close>

definition resolved_scheme :: "header list \<Rightarrow> string \<Rightarrow> string" where
  "resolved_scheme hs dflt =
     (case map_of hs ''x-oxo-url-scheme'' of
        Some v \<Rightarrow> if v = ''http'' \<or> v = ''https'' then v else dflt
      | None \<Rightarrow> dflt)"

definition resolved_port :: "header list \<Rightarrow> u16 \<Rightarrow> u16" where
  "resolved_port hs dflt =
     (case map_of hs ''x-oxo-server-port'' of
        Some v \<Rightarrow> (case parse_uint U16_MAX v of Some p \<Rightarrow> of_nat p | None \<Rightarrow> dflt)
      | None \<Rightarrow> dflt)"

lemma map_of_absent: "n \<notin> fst ` set hs \<Longrightarrow> map_of hs n = None"
  by (simp add: map_of_eq_None_iff)

definition apply_header :: "worker_request \<Rightarrow> header list \<Rightarrow> worker_request" where
  "apply_header r hs =
     r\<lparr>wq_remote_addr := unwrap_or (map_of hs ''x-oxo-remote-addr'') (wq_remote_addr r),
       wq_url_scheme := resolved_scheme hs (wq_url_scheme r),
       wq_server_name := unwrap_or (map_of hs ''x-oxo-server-name'') (wq_server_name r),
       wq_server_port := resolved_port hs (wq_server_port r),
       wq_headers := wq_headers r @ List.map_filter http_keep hs\<rparr>"

lemmas apply_header_defs = apply_header_def resolved_scheme_def resolved_port_def unwrap_or_def

lemma map_of_Cons_header:
  "map_of (h # hs) k = (if fst h = k then Some (snd h) else map_of hs k)"
  by (cases h) simp

lemma classify_single: "classify_header r h = apply_header r [h]"
proof (cases "trusted_field (fst h)")
  case True
  then have "http_keep h = None" by (rule http_keep_trusted)
  with True show ?thesis
    unfolding trusted_field_def
    by (elim insertE emptyE)
      (cases h; simp add: classify_header_def apply_header_defs map_filter_simps split: option.split)+
next
  case False
  then have "map_of [h] ''x-oxo-remote-addr'' = None" "map_of [h] ''x-oxo-url-scheme'' = None"
    "map_of [h] ''x-oxo-server-name'' = None" "map_of [h] ''x-oxo-server-port'' = None"
    by (auto simp: trusted_field_def map_of_Cons_header)
  then show ?thesis
    by (cases "http_keep h")
      (simp_all add: classify_untrusted [OF False] apply_header_defs map_filter_simps del: map_of.simps)
qed

lemma lookup_Cons:
  assumes "fst h \<notin> fst ` set hs"
  shows "unwrap_or (map_of hs k) (unwrap_or (map_of [h] k) d) = unwrap_or (map_of (h # hs) k) d"
    and "resolved_scheme hs (resolved_scheme [h] t) = resolved_scheme (h # hs) t"
    and "resolved_port hs (resolved_port [h] p) = resolved_port (h # hs) p"
proof -
  have gone: "map_of hs (fst h) = None" using assms by (rule map_of_absent)
  show "unwrap_or (map_of hs k) (unwrap_or (map_of [h] k) d) = unwrap_or (map_of (h # hs) k) d"
    using gone by (cases "fst h = k") (auto simp: map_of_Cons_header unwrap_or_def)
  show "resolved_scheme hs (resolved_scheme [h] t) = resolved_scheme (h # hs) t"
    using gone by (cases "fst h = ''x-oxo-url-scheme''")
      (auto simp: map_of_Cons_header resolved_scheme_def)
  show "resolved_port hs (resolved_port [h] p) = resolved_port (h # hs) p"
    using gone by (cases "fst h = ''x-oxo-server-port''")
      (auto simp: map_of_Cons_header resolved_port_def)
qed

lemma apply_header_Cons:
  assumes "fst h \<notin> fst ` set hs"
  shows "apply_header (apply_header r [h]) hs = apply_header r (h # hs)"
  by (simp add: apply_header_def lookup_Cons [OF assms] map_filter_simps del: map_of.simps
      split: option.split)

lemma classify_all:
  "distinct (map fst hs) \<Longrightarrow> foldl classify_header r hs = apply_header r hs"
proof (induction hs arbitrary: r)
  case (Cons h hs)
  then show ?case by (simp add: classify_single apply_header_Cons)
qed (simp add: apply_header_defs map_filter_simps)

section \<open>Accepted requests\<close>

definition lists_entries :: "(header list \<Rightarrow> header list) \<Rightarrow> bool" where
  "lists_entries iter \<longleftrightarrow> (\<forall>hs. mset (iter hs) = mset hs)"

lemma iter_facts:
  assumes "lists_entries iter" and "distinct (map fst hs)"
  shows "set (iter hs) = set hs" and "distinct (map fst (iter hs))" and "map_of (iter hs) = map_of hs"
proof -
  have m: "mset (iter hs) = mset hs" using assms(1) by (simp add: lists_entries_def)
  then show s: "set (iter hs) = set hs" by (rule mset_eq_setD)
  from m have "mset (map fst (iter hs)) = mset (map fst hs)" by simp
  then show d: "distinct (map fst (iter hs))" using assms(2) by (metis mset_eq_imp_distinct_iff)
  show "map_of (iter hs) = map_of hs" using s d assms(2) by (metis map_of_inject_set)
qed

definition base_request :: "string \<Rightarrow> string \<Rightarrow> string \<Rightarrow> u8 list \<Rightarrow> worker_request" where
  "base_request m target host body =
     \<lparr>wq_method = m, wq_path = fst (split_target target), wq_query = snd (split_target target),
      wq_server_name = parse_host_name host,
      wq_server_port = unwrap_or (parse_host_port host) 80, wq_url_scheme = ''http'',
      wq_remote_addr = ''127.0.0.1'', wq_headers = [], wq_body = body\<rparr>"

text \<open>The outcome of \<open>parse_request\<close> before the loop over the map, and the loop applied to it.\<close>

definition parse_request_parts ::
  "source \<Rightarrow> usize \<Rightarrow> parse_error + (string \<times> string \<times> string \<times> header list \<times> u8 list)" where
  "parse_request_parts src max_body =
     and_then (read_head src) (\<lambda>(head, rest).
     and_then (parse_head head) (\<lambda>(m, target, version, headers).
     and_then (check_target version target) (\<lambda>_.
     and_then (ok_or (pe_bad ''host header is required'') (map_of headers ''host'')) (\<lambda>host.
     and_then (request_body_length headers max_body) (\<lambda>len.
     and_then (read_body rest len) (\<lambda>body.
     Inr (m, target, host, headers, body)))))))"

lemma parse_request_eq:
  "parse_request iter src max_body =
     and_then (parse_request_parts src max_body) (\<lambda>(m, target, host, headers, body).
     Inr (foldl classify_header (base_request m target host body) (iter headers)))"
  by (simp add: parse_request_def parse_request_parts_def and_then_assoc base_request_def
      split_def Let_def)

lemma parse_request_parts_Inr:
  assumes "parse_request_parts src max_body = Inr (m, target, host, hs, body)"
  obtains head rest version len where
    "read_head src = Inr (head, rest)" "parse_head head = Inr (m, target, version, hs)"
    "check_target version target = Inr ()" "map_of hs ''host'' = Some host"
    "request_body_length hs max_body = Inr len" "read_body rest len = Inr body"
  using assms that by (auto simp: parse_request_parts_def ok_or_eq_Inr elim!: and_then_InrE)

lemma check_target_Inr:
  "check_target version target = Inr u \<Longrightarrow> version = ''HTTP/1.1'' \<and> starts_with target ''/''"
  by (auto simp: check_target_def split: if_splits)

lemma request_body_length_Inr:
  "request_body_length hs max_body = Inr len \<Longrightarrow>
     len \<le> max_body \<and>
     (case map_of hs ''content-length'' of
        None \<Rightarrow> len = 0
      | Some v \<Rightarrow> parse_uint U64_MAX v = Some len \<and> list_all is_ascii_digit (as_bytes v))"
  by (cases "map_of hs ''content-length''")
    (auto simp: request_body_length_def parse_content_length_def unwrap_or_def Let_def ok_or_eq_Inr
      elim!: and_then_InrE split: if_split_asm)

lemma read_body_Inr: "read_body rest len = Inr body \<Longrightarrow> body = take len rest \<and> length body = len"
  by (auto simp: read_body_def split: if_splits)

lemma split_target_slash: "starts_with target ''/'' \<Longrightarrow> starts_with (fst (split_target target)) ''/''"
  by (cases target) (auto simp: split_target_def starts_with_def split: option.splits)

lemma http_keep_same: "parsed_header h \<Longrightarrow> http_keep h = Some h' \<Longrightarrow> h' = h"
  by (cases h) (auto simp: http_keep_Some parsed_header_def)

lemma parse_request_Inr:
  assumes "parse_request iter src max_body = Inr r" and "lists_entries iter"
  obtains m target host hs body where
    "parse_request_parts src max_body = Inr (m, target, host, hs, body)"
    "parsed_headers hs" "r = apply_header (base_request m target host body) (iter hs)"
    "set (iter hs) = set hs" "distinct (map fst (iter hs))" "map_of (iter hs) = map_of hs"
proof -
  from assms(1) obtain m target host hs body where
    parts: "parse_request_parts src max_body = Inr (m, target, host, hs, body)" and
    r: "r = foldl classify_header (base_request m target host body) (iter hs)"
    by (auto simp: parse_request_eq elim!: and_then_InrE)
  from parts have hs: "parsed_headers hs"
    by (elim parse_request_parts_Inr) (rule parse_head_Inr(1))
  then have d: "distinct (map fst hs)" by (simp add: parsed_headers_def)
  note it = iter_facts [OF assms(2) d]
  show thesis by (rule that [OF parts hs]) (use r it in \<open>simp_all add: classify_all\<close>)
qed

section \<open>A sample request\<close>

definition crlf :: string where "crlf = [CHR 0x0D, CHR 0x0A]"

definition sample_http_head :: string where
  "sample_http_head =
     ''GET /a?b=1 HTTP/1.1'' @ crlf @ ''Host: app:8080'' @ crlf @
     ''x-oxo-remote-addr: 1.2.3.4'' @ crlf @ ''X-Forwarded-For: 6.6.6.6'' @ crlf @
     ''content-length: 2'' @ crlf @ crlf"

definition sample_http :: source where
  "sample_http = (as_bytes sample_http_head @ as_bytes ''hi!'', Eof)"

definition sample_http_request :: worker_request where
  "sample_http_request =
     \<lparr>wq_method = ''GET'', wq_path = ''/a'', wq_query = ''b=1'', wq_server_name = ''app'',
      wq_server_port = 8080, wq_url_scheme = ''http'', wq_remote_addr = ''1.2.3.4'',
      wq_headers = [(''host'', ''app:8080''), (''content-length'', ''2'')],
      wq_body = as_bytes ''hi''\<rparr>"

lemmas eval_bytes =
  as_bytes_def byte_def byte_char_def is_ascii_alphanumeric_def is_ascii_digit_def
  is_ascii_uppercase_def is_ascii_lowercase_def char_of_eq_iff

lemmas eval_header_line =
  valid_token_def valid_token_byte_def eval_bytes eval_trim parse_header_line_def starts_with_def
  to_ascii_lowercase_def lower_char_def trim_blanks_def value_has_ctl_def forbidden_header_def

lemma sample_http_head_read:
  "read_head sample_http = Inr (as_bytes sample_http_head, as_bytes ''hi!'')"
  by (simp add: sample_http_def read_head_def sample_http_head_def crlf_def as_bytes_def byte_def
      ends_with_def CRLFCRLF_def MAX_HEADER_BYTES_def Let_def)

lemma sample_http_head_str: "rust_str sample_http_head"
  by (simp add: rust_str_def sample_http_head_def crlf_def as_bytes_def byte_def)

lemma sample_http_head_parsed:
  "parse_head (as_bytes sample_http_head) =
     Inr (''GET'', ''/a?b=1'', ''HTTP/1.1'',
       [(''host'', ''app:8080''), (''x-oxo-remote-addr'', ''1.2.3.4''),
        (''x-forwarded-for'', ''6.6.6.6''), (''content-length'', ''2'')])"
  by (simp add: parse_head_def sample_http_head_str)
    (simp add: sample_http_head_def crlf_def parse_request_line_def eval_header_line MAX_HEADERS_def)

lemma sample_http_parses: "parse_request id sample_http 10 = Inr sample_http_request"
  by (simp add: parse_request_def sample_http_head_read sample_http_head_parsed)
    (simp add: check_target_def request_body_length_def read_body_def split_target_def
      parse_host_name_def parse_host_port_def rsplit_once_def classify_header_def
      parse_content_length_def unwrap_or_def parse_uint_def strip_plus_def digit_value_def
      is_client_forwarding_header_def normalize_header_name_def starts_with_def eval_bytes
      to_ascii_lowercase_def lower_char_def sample_http_request_def)

lemma lists_entries_id: "lists_entries id"
  by (simp add: lists_entries_def)

text \<open>
  C12: What the direct HTTP parser lets through to the application. Whatever bytes arrive and in
  whatever order the header map is walked, an accepted request carries only application
  headers: lowercase token names without underscores, never \<open>connection\<close>, a hop-by-hop name,
  a client forwarding header or a reserved \<open>x-oxo-\<close> name; values have no control bytes; no name
  occurs twice; the method is a token, the path starts with a slash and the body fits the limit.
\<close>

theorem parse_request_app_headers:
  assumes "parse_request iter src max_body = Inr r" and "lists_entries iter"
  shows "(\<forall>h \<in> set (wq_headers r).
      app_header_name (fst h) \<and> valid_token (fst h) \<and> \<not> forbidden_header (fst h) \<and>
      \<not> value_has_ctl (snd h)) \<and>
    distinct (map fst (wq_headers r)) \<and> length (wq_headers r) \<le> MAX_HEADERS \<and>
    valid_token (wq_method r) \<and> starts_with (wq_path r) ''/'' \<and> length (wq_body r) \<le> max_body"
proof -
  from assms obtain m target host hs body where
    parts: "parse_request_parts src max_body = Inr (m, target, host, hs, body)" and
    hs: "parsed_headers hs" and r: "r = apply_header (base_request m target host body) (iter hs)" and
    it: "set (iter hs) = set hs" "distinct (map fst (iter hs))"
    by (elim parse_request_Inr)
  have vis: "\<forall>h \<in> set (iter hs). parsed_header h" using hs it(1) by (simp add: parsed_headers_def)
  have out: "wq_headers r = List.map_filter http_keep (iter hs)"
    by (simp add: r apply_header_def base_request_def)
  have names: "distinct (map (\<lambda>h. to_ascii_lowercase (fst h)) (iter hs))"
    using it(2) vis by (simp add: parsed_header_def cong: map_cong)
  have kept: "parsed_header h" if "h \<in> set (wq_headers r)" for h
  proof -
    from that obtain g where "g \<in> set (iter hs)" "http_keep g = Some h"
      by (auto simp: out map_filter_def)
    with vis http_keep_same show ?thesis by metis
  qed
  have "length (wq_headers r) \<le> length (iter hs)" by (simp add: out map_filter_def)
  moreover have "length (iter hs) = length hs"
    using assms(2) by (metis lists_entries_def mset_eq_length)
  ultimately have "length (wq_headers r) \<le> MAX_HEADERS" using hs by (simp add: parsed_headers_def)
  moreover have "valid_token m \<and> starts_with target ''/'' \<and> length body \<le> max_body"
    using parts by (elim parse_request_parts_Inr)
      (auto dest: parse_head_Inr(2) check_target_Inr request_body_length_Inr read_body_Inr)
  ultimately show ?thesis
    using http_filter.run_safe [OF vis] http_filter.run_distinct [OF vis names] kept
      split_target_slash [of target]
    by (auto simp: out parsed_header_def r apply_header_def base_request_def)
qed

theorem parse_request_app_headers_witness:
  "map fst (wq_headers sample_http_request) = [''host'', ''content-length''] \<and>
   app_header_name ''host'' \<and> app_header_name ''content-length'' \<and>
   starts_with (wq_path sample_http_request) ''/''"
  using parse_request_app_headers [OF sample_http_parses lists_entries_id]
  by (simp add: sample_http_request_def)

text \<open>
  Where an accepted request's trusted fields come from: each is the value of its reserved
  \<open>x-oxo-\<close> header when the edge sent one (a scheme other than http or https, or a port that is
  not a \<open>u16\<close>, is ignored) and a loopback default or the host header otherwise.
\<close>

theorem parse_request_trusted_fields:
  assumes "parse_request iter src max_body = Inr r" and "lists_entries iter"
  shows "\<exists>m target host hs body.
    parse_request_parts src max_body = Inr (m, target, host, hs, body) \<and>
    wq_remote_addr r = unwrap_or (map_of hs ''x-oxo-remote-addr'') ''127.0.0.1'' \<and>
    wq_server_name r = unwrap_or (map_of hs ''x-oxo-server-name'') (parse_host_name host) \<and>
    wq_server_port r = resolved_port hs (unwrap_or (parse_host_port host) 80) \<and>
    wq_url_scheme r = resolved_scheme hs ''http'' \<and> wq_url_scheme r \<in> {''http'', ''https''} \<and>
    mset (wq_headers r) = mset (List.map_filter http_keep hs)"
proof -
  from assms obtain m target host hs body where
    parts: "parse_request_parts src max_body = Inr (m, target, host, hs, body)" and
    r: "r = apply_header (base_request m target host body) (iter hs)" and
    it: "map_of (iter hs) = map_of hs"
    by (elim parse_request_Inr)
  have "resolved_scheme hs ''http'' \<in> {''http'', ''https''}"
    by (auto simp: resolved_scheme_def split: option.split)
  moreover have "mset (List.map_filter http_keep (iter hs)) = mset (List.map_filter http_keep hs)"
    using assms(2) by (intro map_filter_mset) (simp add: lists_entries_def)
  ultimately show ?thesis
    using parts
    by (intro exI [of _ m] exI [of _ target] exI [of _ host] exI [of _ hs] exI [of _ body])
      (simp add: r apply_header_def base_request_def it resolved_scheme_def resolved_port_def)
qed

theorem parse_request_trusted_fields_witness:
  "\<exists>m target host hs body.
    parse_request_parts sample_http 10 = Inr (m, target, host, hs, body) \<and>
    ''1.2.3.4'' = unwrap_or (map_of hs ''x-oxo-remote-addr'') ''127.0.0.1''"
  using parse_request_trusted_fields [OF sample_http_parses lists_entries_id]
  by (auto simp: sample_http_request_def)

text \<open>
  C21: Message framing of the direct HTTP path. A request is accepted only if the stream starts
  with a complete head (CRLF line ends only, at most 64 KiB, ended by the first blank line), no
  transfer-encoding header is present, and the body is exactly the next content-length bytes
  (none without the header); bytes after them are never part of the request.
\<close>

theorem parse_request_framing:
  assumes "parse_request iter src max_body = Inr r" and "lists_entries iter"
  shows "\<exists>head rest hs.
    fst src = head @ wq_body r @ rest \<and> complete_head head \<and> distinct (map fst hs) \<and>
    (\<exists>m target version. parse_head head = Inr (m, target, version, hs)) \<and>
    map_of hs ''transfer-encoding'' = None \<and>
    (case map_of hs ''content-length'' of
       None \<Rightarrow> wq_body r = []
     | Some v \<Rightarrow> parse_uint U64_MAX v = Some (length (wq_body r)) \<and> list_all is_ascii_digit (as_bytes v))"
proof -
  from assms obtain m target host hs body where
    parts: "parse_request_parts src max_body = Inr (m, target, host, hs, body)" and
    hs: "parsed_headers hs" and r: "r = apply_header (base_request m target host body) (iter hs)"
    by (elim parse_request_Inr)
  from parts obtain head rest version len where
    head: "read_head src = Inr (head, rest)" and parse: "parse_head head = Inr (m, target, version, hs)" and
    len: "request_body_length hs max_body = Inr len" and body: "read_body rest len = Inr body"
    by (elim parse_request_parts_Inr)
  have b: "wq_body r = body" by (simp add: r apply_header_def base_request_def)
  have "fst src = head @ rest" "complete_head head"
    using head read_head_loop_iff [of 0 "[]" "fst src" "snd src" head rest]
    by (auto simp: read_head_def head_in_progress_def not_ends_with_Nil)
  moreover have "rest = body @ drop len rest" "length body = len"
    using read_body_Inr [OF body] by auto
  moreover have "map_of hs ''transfer-encoding'' = None"
    using hs by (auto simp: parsed_headers_def parsed_header_def forbidden_header_def map_of_eq_None_iff)
  ultimately have "fst src = head @ body @ drop len rest \<and> complete_head head \<and>
      distinct (map fst hs) \<and> map_of hs ''transfer-encoding'' = None" and "length body = len"
    using hs by (simp_all add: parsed_headers_def)
  then show ?thesis
    using request_body_length_Inr [OF len] parse
    by (intro exI [of _ head] exI [of _ "drop len rest"] exI [of _ hs])
      (cases "map_of hs ''content-length''"; simp add: b)
qed

theorem parse_request_framing_witness:
  "\<exists>head rest. as_bytes sample_http_head @ as_bytes ''hi!'' = head @ as_bytes ''hi'' @ rest \<and>
     complete_head head"
  using parse_request_framing [OF sample_http_parses lists_entries_id]
  by (auto simp: sample_http_request_def sample_http_def)

end
