(* ===== verification/Worker_Serve.thy ===== *)
theory Worker_Serve
  imports Worker_Parser
begin

text \<open>
  \<open>crates/oxo-worker/src/native/serve.rs\<close> and \<open>config.rs\<close>: the bounded job queue between the
  connection threads and the Ruby threads, the dispatch of one request, the HTTP/1.1 response
  writers and the worker's environment configuration. Every queue operation runs under the
  mutex, so it is one atomic step on \<open>job_queue\<close>; waiting on the condition variable is the
  outcome \<open>PopWait\<close>, after which the loop of \<open>pop_blocking\<close> looks again. The Ruby side of a
  job is a parameter: the response it sends, or none when its sender is dropped.

  A socket's write side is a \<open>sink\<close>: the bytes written so far and, when the peer is going
  away, how many more it takes before a write fails.
\<close>

section \<open>The job queue\<close>

definition QUEUE_CAPACITY :: usize where "QUEUE_CAPACITY = 1024"

record 'j job_queue =
  jq_closed :: bool
  jq_jobs :: "'j list"
  jq_capacity :: usize

definition queue_new :: "usize \<Rightarrow> 'j job_queue" where
  "queue_new capacity = \<lparr>jq_closed = False, jq_jobs = [], jq_capacity = capacity\<rparr>"

definition queue_close :: "'j job_queue \<Rightarrow> 'j job_queue" where
  "queue_close q = q\<lparr>jq_closed := True\<rparr>"

definition queue_is_closed :: "'j job_queue \<Rightarrow> bool" where
  "queue_is_closed q = jq_closed q"

definition queue_push :: "'j \<Rightarrow> 'j job_queue \<Rightarrow> bool \<times> 'j job_queue" where
  "queue_push job q =
     (if jq_closed q \<or> length (jq_jobs q) \<ge> jq_capacity q then (False, q)
      else (True, q\<lparr>jq_jobs := jq_jobs q @ [job]\<rparr>))"

datatype 'j pop_outcome = Popped 'j | PopClosed | PopWait

definition queue_pop :: "'j job_queue \<Rightarrow> 'j pop_outcome \<times> 'j job_queue" where
  "queue_pop q =
     (case jq_jobs q of
        job # jobs \<Rightarrow> (Popped job, q\<lparr>jq_jobs := jobs\<rparr>)
      | [] \<Rightarrow> if jq_closed q then (PopClosed, q) else (PopWait, q))"

section \<open>Dispatch\<close>

definition dispatch_buffered_request ::
  "worker_request job_queue \<Rightarrow> (worker_request \<Rightarrow> worker_response option) \<Rightarrow> worker_request
     \<Rightarrow> worker_response" where
  "dispatch_buffered_request q reply request =
     (if \<not> fst (queue_push request q) then worker_response_text 503 (as_bytes ''Service Unavailable'')
      else
        (case reply request of
           Some resp \<Rightarrow> resp
         | None \<Rightarrow> worker_response_text 500 (as_bytes ''Internal Server Error'')))"

text \<open>The events the receiver sees before the channel is disconnected.\<close>

definition dispatch_streaming_request ::
  "worker_request job_queue \<Rightarrow> (worker_request \<Rightarrow> worker_event list) \<Rightarrow> worker_request
     \<Rightarrow> worker_event list" where
  "dispatch_streaming_request q events request =
     (if \<not> fst (queue_push request q) then
        [EvStart (response_head_text 503), EvChunk (as_bytes ''Service Unavailable''), EvEnd]
      else events request)"

section \<open>Writing\<close>

record sink =
  sk_out :: "u8 list"
  sk_room :: "nat option"

definition write_all :: "u8 list \<Rightarrow> sink \<Rightarrow> bool \<times> sink" where
  "write_all bs k =
     (case sk_room k of
        None \<Rightarrow> (True, k\<lparr>sk_out := sk_out k @ bs\<rparr>)
      | Some n \<Rightarrow>
          if length bs \<le> n then (True, k\<lparr>sk_out := sk_out k @ bs, sk_room := Some (n - length bs)\<rparr>)
          else (False, k\<lparr>sk_out := sk_out k @ take n bs, sk_room := Some 0\<rparr>))"

definition then_write :: "bool \<times> sink \<Rightarrow> (sink \<Rightarrow> bool \<times> sink) \<Rightarrow> bool \<times> sink" where
  "then_write r f = (if fst r then f (snd r) else r)"

definition valid_response_header_value :: "string \<Rightarrow> bool" where
  "valid_response_header_value v \<longleftrightarrow> list_all (\<lambda>b. b \<ge> 0x20 \<and> b \<noteq> 0x7F) (as_bytes v)"

definition status_reason :: "u16 \<Rightarrow> string" where
  "status_reason status =
     (if status = 200 then ''OK''
      else if status = 400 then ''Bad Request''
      else if status = 403 then ''Forbidden''
      else if status = 413 then ''Payload Too Large''
      else if status = 431 then ''Request Header Fields Too Large''
      else if status = 500 then ''Internal Server Error''
      else if status = 503 then ''Service Unavailable''
      else ''Status'')"

datatype response_body_mode = Fixed usize | Chunked

definition framing_header :: "string \<Rightarrow> bool" where
  "framing_header lower \<longleftrightarrow> lower \<in> set [''content-length'', ''transfer-encoding'', ''connection'']"

definition response_header_line :: "header \<Rightarrow> string" where
  "response_header_line h =
     (let name = fst h; v = snd h in
      if framing_header (to_ascii_lowercase name) then []
      else if \<not> valid_token name \<or> \<not> valid_response_header_value v then []
      else name @ '': '' @ v @ crlf)"

definition response_head :: "u16 \<Rightarrow> header list \<Rightarrow> response_body_mode \<Rightarrow> string" where
  "response_head status headers mode =
     (let status = (if 100 \<le> status \<and> status \<le> 999 then status else 500) in
      ''HTTP/1.1 '' @ to_string (unat status) @ '' '' @ status_reason status @ crlf @
      concat (map response_header_line headers) @
      (case mode of
         Fixed len \<Rightarrow> ''content-length: '' @ to_string len @ crlf
       | Chunked \<Rightarrow> ''transfer-encoding: chunked'' @ crlf) @
      ''connection: close'' @ crlf @ crlf)"

definition write_response_head ::
  "u16 \<Rightarrow> header list \<Rightarrow> response_body_mode \<Rightarrow> sink \<Rightarrow> bool \<times> sink" where
  "write_response_head status headers mode k =
     write_all (as_bytes (response_head status headers mode)) k"

definition write_response :: "worker_response \<Rightarrow> sink \<Rightarrow> bool \<times> sink" where
  "write_response resp k =
     then_write (write_response_head (wr_status resp) (wr_headers resp)
       (Fixed (length (wr_body resp))) k) (write_all (wr_body resp))"

definition first_head :: "worker_event list \<Rightarrow> worker_response_head \<times> worker_event list" where
  "first_head evs =
     (case evs of
        [] \<Rightarrow> (response_head_text 500, [])
      | EvStart head # rest \<Rightarrow> (head, rest)
      | EvChunk _ # rest \<Rightarrow> (response_head_text 500, rest)
      | EvEnd # rest \<Rightarrow> (response_head_text 500, rest))"

definition write_chunk :: "u8 list \<Rightarrow> sink \<Rightarrow> bool \<times> sink" where
  "write_chunk chunk k =
     then_write (write_all (as_bytes (to_hex (length chunk) @ crlf)) k) (\<lambda>k.
     then_write (write_all chunk k) (write_all (as_bytes crlf)))"

fun write_chunks :: "worker_event list \<Rightarrow> sink \<Rightarrow> bool \<times> sink" where
  "write_chunks [] k = (True, k)"
| "write_chunks (ev # evs) k =
     (case ev of
        EvStart _ \<Rightarrow> write_chunks evs k
      | EvChunk chunk \<Rightarrow>
          if chunk = [] then write_chunks evs k else then_write (write_chunk chunk k) (write_chunks evs)
      | EvEnd \<Rightarrow> (True, k))"

definition write_streaming_response :: "worker_event list \<Rightarrow> sink \<Rightarrow> bool \<times> sink" where
  "write_streaming_response rx k =
     (let (head, rest) = first_head rx in
      then_write (write_response_head (wh_status head) (wh_headers head) Chunked k) (\<lambda>k.
      then_write (write_chunks rest k) (write_all (as_bytes (''0'' @ crlf @ crlf)))))"

section \<open>Configuration\<close>

record worker_config =
  wc_app :: string
  wc_socket :: string
  wc_threads :: usize
  wc_max_body_bytes :: usize
  wc_rack_lint :: bool
  wc_multiprocess :: bool
  wc_streaming :: bool

text \<open>\<open>vars\<close> is the process environment, whose values are UTF-8 text.\<close>

definition env_path :: "getter \<Rightarrow> string \<Rightarrow> string + string" where
  "env_path vars name =
     (case vars name of
        Some s \<Rightarrow> if s = [] then Inl (name @ '' is required'') else Inr s
      | None \<Rightarrow> Inl (name @ '' is required''))"

definition env_usize :: "getter \<Rightarrow> string \<Rightarrow> usize \<Rightarrow> string + usize" where
  "env_usize vars name dflt =
     (case vars name of
        Some s \<Rightarrow>
          if trim s \<noteq> [] then ok_or (name @ '' must be an unsigned integer'') (parse_uint U64_MAX (trim s))
          else Inr dflt
      | None \<Rightarrow> Inr dflt)"

definition env_bool :: "getter \<Rightarrow> string \<Rightarrow> bool \<Rightarrow> string + bool" where
  "env_bool vars name dflt =
     (case vars name of
        Some s \<Rightarrow>
          if trim s \<noteq> [] then
            (if trim s \<in> set [''1'', ''true'', ''TRUE'', ''yes'', ''YES''] then Inr True
             else if trim s \<in> set [''0'', ''false'', ''FALSE'', ''no'', ''NO''] then Inr False
             else Inl (name @ '' must be 0/1 or true/false''))
          else Inr dflt
      | None \<Rightarrow> Inr dflt)"

definition worker_config_from_env :: "getter \<Rightarrow> string + worker_config" where
  "worker_config_from_env vars =
     and_then (env_path vars ''OXO_WORKER_APP'') (\<lambda>app.
     and_then (env_path vars ''OXO_WORKER_SOCKET'') (\<lambda>socket.
     and_then (env_usize vars ''OXO_WORKER_THREADS'' 1) (\<lambda>threads.
     if threads = 0 then Inl ''OXO_WORKER_THREADS must be >= 1''
     else
       and_then (env_usize vars ''OXO_WORKER_MAX_BODY'' DEFAULT_MAX_BODY_BYTES) (\<lambda>max_body.
       and_then (env_bool vars ''OXO_WORKER_RACK_LINT'' False) (\<lambda>rack_lint.
       and_then (env_bool vars ''OXO_WORKER_MULTIPROCESS'' False) (\<lambda>multiprocess.
       and_then (env_bool vars ''OXO_WORKER_STREAMING'' False) (\<lambda>streaming.
       Inr \<lparr>wc_app = app, wc_socket = socket, wc_threads = threads, wc_max_body_bytes = max_body,
            wc_rack_lint = rack_lint, wc_multiprocess = multiprocess,
            wc_streaming = streaming\<rparr>)))))))"

section \<open>The queue contract\<close>

datatype 'j queue_op = OpPush 'j | OpPop | OpClose

text \<open>
  A history of atomic operations on one queue, whichever threads issue them: the jobs accepted,
  the jobs delivered, and the final state.
\<close>

fun op_step ::
  "('j \<Rightarrow> 's \<Rightarrow> bool \<times> 's) \<Rightarrow> ('s \<Rightarrow> 'j pop_outcome \<times> 's) \<Rightarrow> ('s \<Rightarrow> 's) \<Rightarrow> 'j queue_op \<Rightarrow> 's
     \<Rightarrow> 'j list \<times> 'j list \<times> 's" where
  "op_step push pop close (OpPush j) s = (if fst (push j s) then [j] else [], [], snd (push j s))"
| "op_step push pop close OpPop s =
     ([], (case fst (pop s) of Popped j \<Rightarrow> [j] | _ \<Rightarrow> []), snd (pop s))"
| "op_step push pop close OpClose s = ([], [], close s)"

fun run_ops ::
  "('j \<Rightarrow> 's \<Rightarrow> bool \<times> 's) \<Rightarrow> ('s \<Rightarrow> 'j pop_outcome \<times> 's) \<Rightarrow> ('s \<Rightarrow> 's) \<Rightarrow> 'j queue_op list \<Rightarrow> 's
     \<Rightarrow> 'j list \<times> 'j list \<times> 's" where
  "run_ops push pop close [] s = ([], [], s)"
| "run_ops push pop close (op # ops) s =
     (let (a, d, s') = op_step push pop close op s; (acc, out, t) = run_ops push pop close ops s'
      in (a @ acc, d @ out, t))"

lemma run_ops_append:
  "run_ops push pop close (a @ b) s =
     (let (acc, out, t) = run_ops push pop close a s; (acc', out', t') = run_ops push pop close b t
      in (acc @ acc', out @ out', t'))"
  by (induction a arbitrary: s) (auto simp: split_def Let_def)

locale closable_queue =
  fixes push :: "'j \<Rightarrow> 's \<Rightarrow> bool \<times> 's" and pop :: "'s \<Rightarrow> 'j pop_outcome \<times> 's" and close :: "'s \<Rightarrow> 's"
    and jobs :: "'s \<Rightarrow> 'j list" and closed :: "'s \<Rightarrow> bool" and cap :: "'s \<Rightarrow> nat"
  assumes push_accepts: "fst (push j s) \<longleftrightarrow> \<not> closed s \<and> length (jobs s) < cap s"
    and push_jobs: "jobs (snd (push j s)) = (if fst (push j s) then jobs s @ [j] else jobs s)"
    and pop_outcome: "fst (pop s) =
      (case jobs s of j # _ \<Rightarrow> Popped j | [] \<Rightarrow> if closed s then PopClosed else PopWait)"
    and pop_jobs: "jobs (snd (pop s)) = tl (jobs s)"
    and close_state: "jobs (close s) = jobs s" "closed (close s)"
    and keep_closed: "closed (snd (push j s)) = closed s" "closed (snd (pop s)) = closed s"
    and keep_cap: "cap (snd (push j s)) = cap s" "cap (snd (pop s)) = cap s" "cap (close s) = cap s"
begin

lemma step_conservation:
  "op_step push pop close op s = (a, d, t) \<Longrightarrow> jobs s @ a = d @ jobs t"
  using push_jobs pop_jobs [of s] pop_outcome [of s] close_state(1)
  by (cases op) (auto split: list.splits)

lemma step_bounded:
  "op_step push pop close op s = (a, d, t) \<Longrightarrow> length (jobs s) \<le> cap s \<Longrightarrow>
     length (jobs t) \<le> cap t \<and> cap t = cap s"
  using push_jobs push_accepts pop_jobs [of s] close_state(1) keep_cap
  by (cases op) (auto simp: Suc_le_eq split: if_splits)

lemma step_closed:
  "op_step push pop close op s = (a, d, t) \<Longrightarrow> closed s \<Longrightarrow> a = [] \<and> closed t"
  using push_accepts keep_closed close_state(2) by (cases op) auto

lemma conservation:
  "run_ops push pop close ops s = (acc, out, t) \<Longrightarrow> jobs s @ acc = out @ jobs t"
proof (induction ops arbitrary: s acc out)
  case (Cons op ops)
  obtain a d s' where step: "op_step push pop close op s = (a, d, s')" by (metis prod_cases3)
  obtain acc' out' t' where rest: "run_ops push pop close ops s' = (acc', out', t')" by (metis prod_cases3)
  have "jobs s @ a = d @ jobs s'" "jobs s' @ acc' = out' @ jobs t'" "t' = t"
    using step_conservation [OF step] Cons.IH [of s' acc' out'] Cons.prems step rest by auto
  then show ?case using Cons.prems step rest by simp (metis append.assoc)
qed simp

lemma bounded:
  "run_ops push pop close ops s = (acc, out, t) \<Longrightarrow> length (jobs s) \<le> cap s \<Longrightarrow>
     length (jobs t) \<le> cap t \<and> cap t = cap s"
proof (induction ops arbitrary: s acc out)
  case (Cons op ops)
  obtain a d s' where step: "op_step push pop close op s = (a, d, s')" by (metis prod_cases3)
  obtain acc' out' t' where rest: "run_ops push pop close ops s' = (acc', out', t')" by (metis prod_cases3)
  show ?case using step_bounded [OF step] Cons.IH [of s' acc' out'] Cons.prems step rest by simp
qed simp

lemma closed_refuses:
  "run_ops push pop close ops s = (acc, out, t) \<Longrightarrow> closed s \<Longrightarrow> acc = [] \<and> closed t"
proof (induction ops arbitrary: s acc out)
  case (Cons op ops)
  obtain a d s' where step: "op_step push pop close op s = (a, d, s')" by (metis prod_cases3)
  obtain acc' out' t' where rest: "run_ops push pop close ops s' = (acc', out', t')" by (metis prod_cases3)
  show ?case using step_closed [OF step] Cons.IH [of s' acc' out'] Cons.prems step rest by simp
qed simp

lemma drains:
  "length (jobs s) \<le> n \<Longrightarrow> run_ops push pop close (replicate n OpPop) s = (acc, out, t) \<Longrightarrow>
     jobs t = []"
proof (induction n arbitrary: s acc out)
  case (Suc n)
  obtain acc' out' t' where
    rest: "run_ops push pop close (replicate n OpPop) (snd (pop s)) = (acc', out', t')"
    by (metis prod_cases3)
  have "length (jobs (snd (pop s))) \<le> n" using Suc.prems(1) pop_jobs [of s] by simp
  with Suc.IH rest Suc.prems(2) show ?case by auto
qed simp

end

interpretation jq: closable_queue queue_push queue_pop queue_close jq_jobs jq_closed jq_capacity
  by unfold_locales
    (auto simp: queue_push_def queue_pop_def queue_close_def split: list.splits)

definition accepted :: "'j queue_op list \<Rightarrow> usize \<Rightarrow> 'j list" where
  "accepted ops capacity = fst (run_ops queue_push queue_pop queue_close ops (queue_new capacity))"

definition delivered :: "'j queue_op list \<Rightarrow> usize \<Rightarrow> 'j list" where
  "delivered ops capacity = fst (snd (run_ops queue_push queue_pop queue_close ops (queue_new capacity)))"

definition queue_after :: "'j queue_op list \<Rightarrow> usize \<Rightarrow> 'j job_queue" where
  "queue_after ops capacity = snd (snd (run_ops queue_push queue_pop queue_close ops (queue_new capacity)))"

lemma history:
  "run_ops queue_push queue_pop queue_close ops (queue_new capacity) =
     (accepted ops capacity, delivered ops capacity, queue_after ops capacity)"
  by (simp add: accepted_def delivered_def queue_after_def)

lemma history_after:
  "run_ops queue_push queue_pop queue_close later (queue_after ops capacity) = (acc, out, t) \<Longrightarrow>
     accepted (ops @ later) capacity = accepted ops capacity @ acc \<and>
     delivered (ops @ later) capacity = delivered ops capacity @ out \<and> queue_after (ops @ later) capacity = t"
  using run_ops_append [of queue_push queue_pop queue_close ops later "queue_new capacity"]
  by (simp add: history)

lemma queue_new_state: "jq_jobs (queue_new c) = []" "jq_capacity (queue_new c) = c"
  by (simp_all add: queue_new_def)

lemma queue_history:
  "accepted ops capacity = delivered ops capacity @ jq_jobs (queue_after ops capacity)"
  "length (jq_jobs (queue_after ops capacity)) \<le> capacity"
  using jq.conservation [OF history [of ops capacity]] jq.bounded [OF history [of ops capacity]]
  by (simp_all add: queue_new_state)

text \<open>
  C22: The job queue under any interleaving of pushes, pops and closes: jobs are delivered in the
  order they were accepted, each at most once and none lost, never more than the capacity wait;
  once closed the queue accepts nothing more, and the jobs accepted before are all still
  delivered by as many pops as the capacity.
\<close>

theorem job_queue_fifo:
  "accepted ops capacity = delivered ops capacity @ jq_jobs (queue_after ops capacity) \<and>
   length (jq_jobs (queue_after ops capacity)) \<le> capacity \<and>
   accepted (ops @ OpClose # later) capacity = accepted ops capacity \<and>
   delivered (ops @ OpClose # replicate (capacity + n) OpPop) capacity = accepted ops capacity"
proof -
  let ?q = "queue_after ops capacity"
  let ?run = "run_ops queue_push queue_pop queue_close"
  have closed: "jq_closed (queue_close ?q)" "jq_jobs (queue_close ?q) = jq_jobs ?q"
    by (simp_all add: queue_close_def)
  obtain acc out t where later: "?run (OpClose # later) ?q = (acc, out, t)" by (metis prod_cases3)
  then have "acc = []"
    using jq.closed_refuses [of later "queue_close ?q"] closed by (auto split: prod.splits)
  with history_after [OF later] have "accepted (ops @ OpClose # later) capacity = accepted ops capacity"
    by simp
  moreover obtain acc' out' t' where
    pops: "?run (replicate (capacity + n) OpPop) (queue_close ?q) = (acc', out', t')"
    by (metis prod_cases3)
  then have "acc' = []" "jq_jobs t' = []"
    using jq.closed_refuses [OF pops] closed(1) jq.drains [OF _ pops] closed(2) queue_history(2) [of ops capacity]
    by simp_all
  with jq.conservation [OF pops] closed(2) have "out' = jq_jobs ?q" by simp
  then have "delivered (ops @ OpClose # replicate (capacity + n) OpPop) capacity =
      delivered ops capacity @ jq_jobs ?q"
    using history_after [of "OpClose # replicate (capacity + n) OpPop" ops capacity acc' out' t'] pops
    by simp
  ultimately show ?thesis using queue_history [of ops capacity] by simp
qed

section \<open>The response head\<close>

lemma split_crlf_line:
  assumes "CHR 0x0D \<notin> set l"
  shows "split_crlf (l @ crlf @ rest) = l # split_crlf rest"
  using assms
proof (induction l rule: split_crlf.induct)
  case (2 x)
  then show ?case by (simp add: crlf_def)
next
  case (3 x y xs)
  then show ?case by auto
qed (simp add: crlf_def)

lemma split_crlf_lines:
  assumes "\<forall>l \<in> set ls. CHR 0x0D \<notin> set l"
  shows "split_crlf (concat (map (\<lambda>l. l @ crlf) ls) @ rest) = ls @ split_crlf rest"
  using assms by (induction ls) (simp_all add: split_crlf_line)

definition kept_response_header :: "header \<Rightarrow> bool" where
  "kept_response_header h \<longleftrightarrow>
     \<not> framing_header (to_ascii_lowercase (fst h)) \<and> valid_token (fst h) \<and>
     valid_response_header_value (snd h)"

definition header_text :: "header \<Rightarrow> string" where
  "header_text h = fst h @ '': '' @ snd h"

lemma response_header_lines:
  "concat (map response_header_line hs) =
     concat (map (\<lambda>l. l @ crlf) (map header_text (filter kept_response_header hs)))"
  by (induction hs)
    (auto simp: response_header_line_def kept_response_header_def header_text_def Let_def)

lemma no_cr_token: "valid_token s \<Longrightarrow> CHR 0x0D \<notin> set s"
  by (auto simp: valid_token_def as_bytes_def list_all_iff valid_token_byte_def
      is_ascii_alphanumeric_def is_ascii_digit_def is_ascii_uppercase_def is_ascii_lowercase_def byte_def)

lemma no_cr_value: "valid_response_header_value s \<Longrightarrow> CHR 0x0D \<notin> set s"
  by (auto simp: valid_response_header_value_def as_bytes_def list_all_iff byte_def)

lemma no_cr_kept: "kept_response_header h \<Longrightarrow> CHR 0x0D \<notin> set (header_text h)"
  using no_cr_token no_cr_value by (auto simp: kept_response_header_def header_text_def)

lemma no_cr_digits: "CHR 0x0D \<notin> set (to_string n)"
  using to_string_digits [of n] by (auto simp: list_all_iff is_ascii_digit_def byte_def)

lemma no_cr_reason: "CHR 0x0D \<notin> set (status_reason st)"
  by (simp add: status_reason_def)

definition framing_line :: "response_body_mode \<Rightarrow> string" where
  "framing_line mode =
     (case mode of
        Fixed len \<Rightarrow> ''content-length: '' @ to_string len
      | Chunked \<Rightarrow> ''transfer-encoding: chunked'')"

definition status_line :: "u16 \<Rightarrow> string" where
  "status_line status =
     (let st = (if 100 \<le> status \<and> status \<le> 999 then status else 500) in
      ''HTTP/1.1 '' @ to_string (unat st) @ '' '' @ status_reason st)"

lemma response_head_lines:
  "response_head status headers mode =
     concat (map (\<lambda>l. l @ crlf)
       (status_line status # map header_text (filter kept_response_header headers) @
        [framing_line mode, ''connection: close'', []]))"
  by (simp add: response_head_def status_line_def framing_line_def response_header_lines Let_def
      split: response_body_mode.split)

text \<open>
  C23: Whatever headers the application returns, including names and values that try to inject
  lines, the head the worker writes is a status line, the application's safe headers in order,
  one framing header of the worker's own, \<open>connection: close\<close> and the blank line: a reader
  that splits it at CRLF recovers exactly those lines, and no application header is a framing
  header. A buffered response is that head followed by the body, with the body's length
  announced.
\<close>

theorem write_response_no_splitting:
  "split_crlf (response_head status headers mode) =
     status_line status # map header_text (filter kept_response_header headers) @
       [framing_line mode, ''connection: close'', [], []] \<and>
   sk_out (snd (write_response resp \<lparr>sk_out = out, sk_room = None\<rparr>)) =
     out @ as_bytes (response_head (wr_status resp) (wr_headers resp) (Fixed (length (wr_body resp)))) @
     wr_body resp"
proof -
  have "\<forall>l \<in> set (status_line status # map header_text (filter kept_response_header headers) @
      [framing_line mode, ''connection: close'', []]). CHR 0x0D \<notin> set l"
    using no_cr_kept no_cr_digits no_cr_reason
    by (auto simp: status_line_def framing_line_def Let_def split: response_body_mode.split)
  then have "split_crlf (response_head status headers mode @ []) =
      (status_line status # map header_text (filter kept_response_header headers) @
      [framing_line mode, ''connection: close'', []]) @ split_crlf []"
    unfolding response_head_lines by (rule split_crlf_lines)
  then show ?thesis
    by (simp add: write_response_def write_response_head_def write_all_def then_write_def)
qed

end
