(* ===== verification/Worker_Frame.thy ===== *)
theory Worker_Frame
  imports Hop_Frame Worker_Serve
begin

text \<open>
  \<open>crates/oxo-worker/src/native/frame.rs\<close> and \<open>handle_connection\<close> of \<open>serve.rs\<close>: persistent
  binary-frame connections. A connection is a \<open>source\<close> of request bytes and a \<open>sink\<close> for the
  response bytes; \<open>frame_loop\<close> recurses on the source, which every served frame shortens. What
  other threads do between two exchanges is the parameter \<open>env\<close>: for the n-th exchange, the
  queue as \<open>is_closed\<close> and \<open>push\<close> see it, and what the Ruby side answers.
\<close>

section \<open>Reading\<close>

definition worker_frame_caps :: "usize \<Rightarrow> frame_caps" where
  "worker_frame_caps max_body =
     \<lparr>max_header_bytes = of_nat MAX_HEADER_BYTES, max_headers = of_nat MAX_HEADERS,
      max_body_bytes = (if max_body \<le> U32_MAX then of_nat max_body else - 1)\<rparr>"

text \<open>\<open>recv(MSG_PEEK)\<close>: the first byte, clean EOF, or a dead connection.\<close>

definition peek_first_byte :: "source \<Rightarrow> unit + u8 option" where
  "peek_first_byte src =
     (case fst src of
        b # _ \<Rightarrow> Inr (Some b)
      | [] \<Rightarrow> (case snd src of Eof \<Rightarrow> Inr None | ReadFailed \<Rightarrow> Inl ()))"

datatype fill = Filled "u8 list" "u8 list" | CleanEof | FillFailed

definition read_exact_or_eof :: "usize \<Rightarrow> source \<Rightarrow> fill" where
  "read_exact_or_eof n src =
     (if n \<le> length (fst src) then Filled (take n (fst src)) (drop n (fst src))
      else if fst src = [] \<and> snd src = Eof then CleanEof
      else FillFailed)"

definition frame_error_status :: "frame_error \<Rightarrow> u16" where
  "frame_error_status err =
     (case err of
        TooManyHeaders _ _ \<Rightarrow> 431
      | HeaderBytesExceeded _ \<Rightarrow> 431
      | BodyTooLarge _ _ \<Rightarrow> 413
      | EnvelopeTooLarge _ _ \<Rightarrow> 413
      | _ \<Rightarrow> 400)"

definition frame_error_body :: "u16 \<Rightarrow> u8 list" where
  "frame_error_body status =
     (if status = 413 then as_bytes ''Payload Too Large''
      else if status = 431 then as_bytes ''Request Header Fields Too Large''
      else as_bytes ''Bad Request'')"

text \<open>The frame, if any, and the bytes after it.\<close>

definition read_request_frame :: "frame_caps \<Rightarrow> source \<Rightarrow> u16 + (request_frame \<times> u8 list) option" where
  "read_request_frame caps src =
     (case read_exact_or_eof PREFIX_LEN src of
        CleanEof \<Rightarrow> Inr None
      | FillFailed \<Rightarrow> Inl 400
      | Filled prefix rest \<Rightarrow>
          and_then (map_err frame_error_status (FramePrefix_parse prefix caps)) (\<lambda>n.
          if length rest < unat n then Inl 400
          else
            and_then (map_err frame_error_status (decode_request (take (unat n) rest) caps)) (\<lambda>frame.
            Inr (Some (frame, drop (unat n) rest)))))"

section \<open>The request\<close>

definition frame_keep :: "header \<Rightarrow> header option" where
  "frame_keep h =
     (let lower = to_ascii_lowercase (fst h); v = snd h in
      if lower = ''host'' then Some (''host'', v)
      else if lower = ''connection'' then None
      else if is_client_forwarding_header lower then None
      else if starts_with lower ''x-oxo-'' then None
      else
        (case normalize_header_name lower of
           Some normalized \<Rightarrow> Some (normalized, v)
         | None \<Rightarrow> None))"

definition request_frame_to_worker_request :: "request_frame \<Rightarrow> worker_request" where
  "request_frame_to_worker_request frame =
     \<lparr>wq_method = rf_method frame, wq_path = rf_path frame, wq_query = rf_query frame,
      wq_server_name = rf_server_name frame, wq_server_port = rf_server_port frame,
      wq_url_scheme = (case rf_scheme frame of Http \<Rightarrow> ''http'' | Https \<Rightarrow> ''https''),
      wq_remote_addr = rf_remote_addr frame,
      wq_headers = List.map_filter frame_keep (rf_headers frame), wq_body = rf_body frame\<rparr>"

section \<open>The response\<close>

definition kept_frame_header :: "header \<Rightarrow> bool" where
  "kept_frame_header h \<longleftrightarrow>
     \<not> framing_header (to_ascii_lowercase (fst h)) \<and>
     fst h \<noteq> [] \<and> list_all (\<lambda>b. b > 0x20 \<and> b < 0x7F) (as_bytes (fst h)) \<and>
     valid_response_header_value (snd h)"

definition sanitize_response_headers :: "header list \<Rightarrow> header list" where
  "sanitize_response_headers headers = filter kept_frame_header headers"

definition write_frame :: "frame_error + u8 list \<Rightarrow> sink \<Rightarrow> bool \<times> sink" where
  "write_frame encoded k = (case encoded of Inr bytes \<Rightarrow> write_all bytes k | Inl _ \<Rightarrow> (False, k))"

definition write_full_response :: "worker_response \<Rightarrow> sink \<Rightarrow> bool \<times> sink" where
  "write_full_response response k =
     write_frame (encode_response
       (Resp_Full (wr_status response) (sanitize_response_headers (wr_headers response))
         (wr_body response))) k"

fun write_chunk_frames :: "worker_event list \<Rightarrow> sink \<Rightarrow> bool \<times> sink" where
  "write_chunk_frames [] k = (True, k)"
| "write_chunk_frames (ev # evs) k =
     (case ev of
        EvStart _ \<Rightarrow> write_chunk_frames evs k
      | EvChunk chunk \<Rightarrow>
          if chunk = [] then write_chunk_frames evs k
          else
            then_write (write_frame (encode_response (Resp_Chunk chunk)) k) (write_chunk_frames evs)
      | EvEnd \<Rightarrow> (True, k))"

definition write_streaming_frames :: "worker_event list \<Rightarrow> sink \<Rightarrow> bool \<times> sink" where
  "write_streaming_frames rx k =
     (let (head, rest) = first_head rx in
      then_write (write_frame (encode_response
        (Resp_Head (wh_status head) (sanitize_response_headers (wh_headers head)))) k) (\<lambda>k.
      then_write (write_chunk_frames rest k) (write_frame (encode_response Resp_End))))"

section \<open>The connection\<close>

record exchange =
  xe_queue_check :: "worker_request job_queue"
  xe_queue_push :: "worker_request job_queue"
  xe_reply :: "worker_request \<Rightarrow> worker_response option"
  xe_events :: "worker_request \<Rightarrow> worker_event list"

definition serve_exchange :: "exchange \<Rightarrow> bool \<Rightarrow> worker_request \<Rightarrow> sink \<Rightarrow> bool \<times> sink" where
  "serve_exchange x streaming request k =
     (if streaming then
        write_streaming_frames (dispatch_streaming_request (xe_queue_push x) (xe_events x) request) k
      else write_full_response (dispatch_buffered_request (xe_queue_push x) (xe_reply x) request) k)"

lemma read_request_frame_shorter:
  assumes "read_request_frame caps src = Inr (Some (frame, rest))"
  shows "length rest < length (fst src)"
  using assms
  by (auto simp: read_request_frame_def read_exact_or_eof_def PREFIX_LEN_def and_then_eq_Inr
      split: fill.split_asm if_split_asm)

function frame_loop ::
  "(nat \<Rightarrow> exchange) \<Rightarrow> frame_caps \<Rightarrow> bool \<Rightarrow> nat \<Rightarrow> source \<Rightarrow> sink \<Rightarrow> sink" where
  "frame_loop env caps streaming n src k =
     (case read_request_frame caps src of
        Inl status \<Rightarrow>
          snd (write_full_response (worker_response_text status (frame_error_body status)) k)
      | Inr None \<Rightarrow> k
      | Inr (Some (req, rest)) \<Rightarrow>
          if queue_is_closed (xe_queue_check (env n)) then k
          else
            (let (ok, k') = serve_exchange (env n) streaming (request_frame_to_worker_request req) k in
             if ok then frame_loop env caps streaming (Suc n) (rest, snd src) k' else k'))"
  by pat_completeness auto
termination
  by (relation "measure (\<lambda>(env, caps, streaming, n, src, k). length (fst src))")
    (auto dest: read_request_frame_shorter)

declare frame_loop.simps [simp del]

text \<open>
  \<open>None\<close> hands the connection to the HTTP path, as the source's \<open>Ok(false)\<close>; a failed peek
  serves nothing.
\<close>

definition try_handle_frame_connection ::
  "(nat \<Rightarrow> exchange) \<Rightarrow> usize \<Rightarrow> bool \<Rightarrow> source \<Rightarrow> sink \<Rightarrow> unit + sink option" where
  "try_handle_frame_connection env max_body streaming src k =
     and_then (peek_first_byte src) (\<lambda>first.
     (case first of
        None \<Rightarrow> Inr (Some k)
      | Some b \<Rightarrow>
          if b \<noteq> FRAME_MAGIC then Inr None
          else Inr (Some (frame_loop env (worker_frame_caps max_body) streaming 0 src k))))"

definition handle_connection ::
  "(header list \<Rightarrow> header list) \<Rightarrow> (nat \<Rightarrow> exchange) \<Rightarrow> usize \<Rightarrow> bool \<Rightarrow> source \<Rightarrow> sink \<Rightarrow> sink" where
  "handle_connection iter env max_body streaming src k =
     (case try_handle_frame_connection env max_body streaming src k of
        Inl _ \<Rightarrow> k
      | Inr (Some k') \<Rightarrow> k'
      | Inr None \<Rightarrow>
          (let x = env 0 in
           case parse_request iter src max_body of
             Inr request \<Rightarrow>
               if streaming then
                 snd (write_streaming_response
                   (dispatch_streaming_request (xe_queue_push x) (xe_events x) request) k)
               else
                 snd (write_response
                   (dispatch_buffered_request (xe_queue_push x) (xe_reply x) request) k)
           | Inl err \<Rightarrow>
               snd (write_response
                 (worker_response_text (pe_status err) (as_bytes (pe_message err))) k)))"

section \<open>Reading one frame\<close>

definition frame_acceptable :: "frame_caps \<Rightarrow> request_frame \<Rightarrow> bool" where
  "frame_acceptable caps req \<longleftrightarrow>
     request_ok caps req \<and> length (request_envelope req) \<le> U32_MAX \<and>
     length (request_envelope req) \<le> 4096 + unat (max_header_bytes caps) + unat (max_body_bytes caps)"

definition request_wire :: "request_frame \<Rightarrow> u8 list" where
  "request_wire req = frame_of (request_envelope req)"

lemma read_frame_wire:
  assumes "frame_acceptable caps req"
  shows "read_request_frame caps (request_wire req @ rest, fin) = Inr (Some (req, rest))"
proof -
  let ?env = "request_envelope req"
  have pre: "take PREFIX_LEN (request_wire req @ rest) = take PREFIX_LEN (frame_of ?env)"
    "drop PREFIX_LEN (request_wire req @ rest) = ?env @ rest"
    "PREFIX_LEN \<le> length (request_wire req @ rest)"
    by (simp_all add: request_wire_def frame_of_parts)
  have n: "unat (of_nat (length ?env) :: u32) = length ?env"
    using assms by (intro unat_of_nat_u32) (simp add: frame_acceptable_def)
  have "FramePrefix_parse (take PREFIX_LEN (frame_of ?env)) caps = Inr (of_nat (length ?env))"
    using assms by (subst prefix_accepts_iff) (simp_all add: frame_acceptable_def)
  moreover have "decode_request ?env caps = Inr req"
    using assms by (simp add: request_env.decode_iff frame_acceptable_def)
  ultimately show ?thesis
    using pre n by (simp add: read_request_frame_def read_exact_or_eof_def)
qed

lemma FramePrefix_parse_Inr:
  assumes "length prefix = PREFIX_LEN" and "FramePrefix_parse prefix caps = Inr n"
  shows "prefix = [FRAME_MAGIC, FRAME_VERSION] @ u32_to_le_bytes n"
    and "unat n \<le> 4096 + unat (max_header_bytes caps) + unat (max_body_bytes caps)"
proof -
  from assms(1) obtain a b c d e f where p: "prefix = [a, b, c, d, e, f]"
    by (auto simp: PREFIX_LEN_def eval_nat_numeral length_Suc_conv)
  from assms(2) have "a = FRAME_MAGIC" "b = FRAME_VERSION" "n = u32_from_le_bytes c d e f"
    and small: "\<not> (ucast n :: u64) > max_remaining_length caps"
    by (auto simp: p FramePrefix_parse_def Let_def split: if_splits)
  then show "prefix = [FRAME_MAGIC, FRAME_VERSION] @ u32_to_le_bytes n"
    by (simp add: p u32_to_from_le)
  from small show "unat n \<le> 4096 + unat (max_header_bytes caps) + unat (max_body_bytes caps)"
    by (simp add: word_less_nat_alt unat_max_remaining_length)
qed

lemma read_frame_Some:
  assumes "read_request_frame caps src = Inr (Some (req, rest))"
  shows "frame_acceptable caps req" and "fst src = request_wire req @ rest"
proof -
  let ?p = "take PREFIX_LEN (fst src)" and ?r = "drop PREFIX_LEN (fst src)"
  from assms obtain n where len: "PREFIX_LEN \<le> length (fst src)"
    and pre: "FramePrefix_parse ?p caps = Inr n" and enough: "unat n \<le> length ?r"
    and dec: "decode_request (take (unat n) ?r) caps = Inr req" and rest: "rest = drop (unat n) ?r"
    by (auto simp: read_request_frame_def read_exact_or_eof_def map_err_eq_Inr not_less
        elim!: and_then_InrE split: fill.split_asm if_split_asm)
  have p: "?p = [FRAME_MAGIC, FRAME_VERSION] @ u32_to_le_bytes n"
    "unat n \<le> 4096 + unat (max_header_bytes caps) + unat (max_body_bytes caps)"
    using FramePrefix_parse_Inr [OF _ pre] len by (simp_all add: PREFIX_LEN_def)
  from dec have ok: "request_ok caps req" and env: "take (unat n) ?r = request_envelope req"
    by (simp_all add: request_env.decode_iff)
  then have n: "length (request_envelope req) = unat n" using enough by (metis length_take min.absorb2)
  then have nn: "of_nat (length (request_envelope req)) = n" by simp
  show "frame_acceptable caps req"
    using ok n p(2) unat_u32_le [of n] by (simp add: frame_acceptable_def)
  have "fst src = ?p @ take (unat n) ?r @ rest" by (simp only: rest append_take_drop_id)
  then show "fst src = request_wire req @ rest"
    by (simp only: p(1) env) (simp add: request_wire_def frame_of_def nn)
qed

section \<open>Header parity\<close>

lemma frame_keep_Some:
  "frame_keep h = Some h' \<longleftrightarrow>
     to_ascii_lowercase (fst h) = ''host'' \<and> h' = (''host'', snd h) \<or>
     to_ascii_lowercase (fst h) \<noteq> ''host'' \<and> app_header_name (to_ascii_lowercase (fst h)) \<and>
     h' = (to_ascii_lowercase (fst h), snd h)"
  by (auto simp: frame_keep_def Let_def normalize_header_name_def app_header_name_def)

interpretation frame_filter: app_header_filter "\<lambda>_. True" frame_keep
proof
  fix h h' assume "frame_keep h = Some h'"
  then have h': "h' = (to_ascii_lowercase (fst h), snd h)" "app_header_name (fst h')"
    unfolding frame_keep_Some using host_app_header by auto
  then show "fst h' = to_ascii_lowercase (fst h)" "snd h' = snd h" "app_header_name (fst h')" by simp_all
qed

text \<open>
  The two request paths of the worker agree on headers. On every header the HTTP parser can
  produce, the frame path keeps it exactly when the HTTP path does, under the same name and with
  the same value; and whatever a frame carries, only application headers get through, so neither
  path can be used to smuggle a name the other refuses.
\<close>

theorem header_paths_agree:
  assumes "\<forall>h \<in> set hs. parsed_header h"
  shows "List.map_filter http_keep hs = wq_headers (request_frame_to_worker_request (f\<lparr>rf_headers := hs\<rparr>)) \<and>
    (\<forall>h \<in> set (wq_headers (request_frame_to_worker_request frame)). app_header_name (fst h))"
proof -
  have eq: "http_keep h = frame_keep h" if "parsed_header h" for h
  proof -
    have low: "to_ascii_lowercase (fst h) = fst h" using that by (simp add: parsed_header_def)
    have "http_keep h = Some h' \<longleftrightarrow> frame_keep h = Some h'" for h'
      unfolding http_keep_Some frame_keep_Some low app_header_name_def by (cases h) auto
    then show ?thesis by (metis option.exhaust)
  qed
  have "List.map_filter http_keep hs = List.map_filter frame_keep hs"
    using assms eq by (induction hs) (auto simp: map_filter_simps split: option.split)
  then show ?thesis
    using frame_filter.run_safe [of "rf_headers frame"]
    by (simp add: request_frame_to_worker_request_def)
qed

theorem header_paths_agree_witness:
  "List.map_filter http_keep [(''accept'', ''*/*''), (''x-forwarded-for'', ''6.6.6.6'')] =
     wq_headers (request_frame_to_worker_request
       (sample_request\<lparr>rf_headers := [(''accept'', ''*/*''), (''x-forwarded-for'', ''6.6.6.6'')]\<rparr>))"
  using header_paths_agree [of "[(''accept'', ''*/*''), (''x-forwarded-for'', ''6.6.6.6'')]" sample_request
      sample_request]
  by (simp add: parsed_header_def valid_token_def valid_token_byte_def eval_bytes
      to_ascii_lowercase_def lower_char_def forbidden_header_def value_has_ctl_def)

section \<open>Serving a connection\<close>

definition buffered_answer :: "exchange \<Rightarrow> request_frame \<Rightarrow> response_frame" where
  "buffered_answer x req =
     (let r = dispatch_buffered_request (xe_queue_push x) (xe_reply x) (request_frame_to_worker_request req)
      in Resp_Full (wr_status r) (sanitize_response_headers (wr_headers r)) (wr_body r))"

text \<open>The non-empty chunks of an event sequence up to its first end marker.\<close>

fun event_chunks :: "worker_event list \<Rightarrow> u8 list list" where
  "event_chunks [] = []"
| "event_chunks (EvStart _ # evs) = event_chunks evs"
| "event_chunks (EvChunk c # evs) = (if c = [] then event_chunks evs else c # event_chunks evs)"
| "event_chunks (EvEnd # evs) = []"

definition streamed_answer :: "worker_event list \<Rightarrow> response_frame list" where
  "streamed_answer rx =
     Resp_Head (wh_status (fst (first_head rx))) (sanitize_response_headers (wh_headers (fst (first_head rx)))) #
     map Resp_Chunk (event_chunks (snd (first_head rx))) @ [Resp_End]"

definition answer_frames :: "exchange \<Rightarrow> bool \<Rightarrow> request_frame \<Rightarrow> response_frame list" where
  "answer_frames x streaming req =
     (if streaming then
        streamed_answer (dispatch_streaming_request (xe_queue_push x) (xe_events x) (request_frame_to_worker_request req))
      else [buffered_answer x req])"

definition response_wire :: "response_frame \<Rightarrow> u8 list" where
  "response_wire resp = frame_of (response_envelope resp)"

definition error_answer :: "u16 \<Rightarrow> response_frame" where
  "error_answer status =
     Resp_Full status [(''content-type'', ''text/plain; charset=utf-8'')] (frame_error_body status)"

text \<open>
  Writing frames one after another, up to the first that cannot be encoded or written, is writing
  their concatenation.
\<close>

fun emit_frames :: "response_frame list \<Rightarrow> sink \<Rightarrow> bool \<times> sink" where
  "emit_frames [] k = (True, k)"
| "emit_frames (resp # resps) k = then_write (write_frame (encode_response resp) k) (emit_frames resps)"

lemma then_write_cong: "r = r' \<Longrightarrow> (\<And>k. f k = g k) \<Longrightarrow> then_write r f = then_write r' g"
  by (simp add: then_write_def)

lemma then_write_assoc: "then_write (then_write r f) g = then_write r (\<lambda>k. then_write (f k) g)"
  by (simp add: then_write_def)

lemma then_write_True [simp]: "then_write (True, k) f = f k"
  by (simp add: then_write_def)

lemma emit_nothing [simp]: "then_write r (emit_frames []) = r"
  by (auto simp: then_write_def prod_eq_iff)

lemma emit_append: "emit_frames (as @ bs) k = then_write (emit_frames as k) (emit_frames bs)"
  by (induction as arbitrary: k) (simp_all add: then_write_assoc cong: then_write_cong)

lemma write_all_Nil [simp]: "write_all [] k = (True, k)"
  by (cases k) (simp add: write_all_def split: option.split)

lemma write_all_append: "write_all (as @ bs) k = then_write (write_all as k) (write_all bs)"
  by (auto simp: write_all_def then_write_def split: option.split)

definition sendable :: "response_frame list \<Rightarrow> u8 list" where
  "sendable resps = concat (map response_wire (takeWhile response_fits resps))"

lemma emit_sendable:
  "emit_frames resps k =
     (fst (write_all (sendable resps) k) \<and> list_all response_fits resps, snd (write_all (sendable resps) k))"
proof (induction resps arbitrary: k)
  case Nil
  then show ?case by (simp add: sendable_def write_all_def split: option.split)
next
  case (Cons resp resps)
  show ?case
  proof (cases "response_fits resp")
    case True
    then have "sendable (resp # resps) = response_wire resp @ sendable resps" by (simp add: sendable_def)
    with True Cons show ?thesis
      by (auto simp: write_frame_def encode_response_eq response_wire_def write_all_append then_write_def prod_eq_iff)
  next
    case False
    then show ?thesis by (simp add: sendable_def write_frame_def encode_response_eq then_write_def)
  qed
qed

lemma write_all_out:
  "sk_out (snd (write_all bs k)) = sk_out k @ (case sk_room k of None \<Rightarrow> bs | Some room \<Rightarrow> take room bs)"
  by (auto simp: write_all_def split: option.split)

lemma write_chunk_frames_emits: "write_chunk_frames evs k = emit_frames (map Resp_Chunk (event_chunks evs)) k"
proof (induction evs arbitrary: k rule: event_chunks.induct)
  case (3 c evs)
  then show ?case by (cases "c = []") (simp_all cong: then_write_cong)
qed simp_all

lemma write_streaming_frames_emits: "write_streaming_frames rx k = emit_frames (streamed_answer rx) k"
proof -
  have "emit_frames [Resp_End] = write_frame (encode_response Resp_End)" by (rule ext) simp
  then show ?thesis
    by (simp add: write_streaming_frames_def streamed_answer_def split_def emit_append write_chunk_frames_emits
        Let_def cong: then_write_cong)
qed

lemma serve_exchange_emits:
  "serve_exchange x streaming (request_frame_to_worker_request req) k = emit_frames (answer_frames x streaming req) k"
  by (simp add: serve_exchange_def answer_frames_def write_streaming_frames_emits write_full_response_def
      buffered_answer_def Let_def)

text \<open>
  What the worker says on one connection: the frames of each answer in turn, until the queue is
  found closed, and \<open>last_words\<close> after the last request.
\<close>

fun conversation ::
  "(nat \<Rightarrow> exchange) \<Rightarrow> bool \<Rightarrow> nat \<Rightarrow> request_frame list \<Rightarrow> response_frame list \<Rightarrow> response_frame list" where
  "conversation env streaming n [] last_words = last_words"
| "conversation env streaming n (req # reqs) last_words =
     (if jq_closed (xe_queue_check (env n)) then []
      else answer_frames (env n) streaming req @ conversation env streaming (Suc n) reqs last_words)"

lemma error_answer_fits: "status \<in> {400, 413, 431} \<Longrightarrow> response_fits (error_answer status)"
  by (auto simp: error_answer_def response_fits_def response_envelope_def headers_fit_def pair_fits_def
      header_bytes_def pair_bytes_def short_bytes_def long_bytes_def frame_error_body_def as_bytes_def)

lemma frame_error_status_range: "frame_error_status e \<in> {400, 413, 431}"
  by (cases e) (simp_all add: frame_error_status_def)

lemma read_frame_status: "read_request_frame caps src = Inl status \<Longrightarrow> status \<in> {400, 413, 431}"
  using frame_error_status_range
  by (auto simp: read_request_frame_def and_then_eq_Inl map_err_def
      split: fill.split_asm if_split_asm sum.split_asm)

definition closing_words :: "u16 + (request_frame \<times> u8 list) option \<Rightarrow> response_frame list" where
  "closing_words r = (case r of Inl status \<Rightarrow> [error_answer status] | Inr _ \<Rightarrow> [])"

lemma frame_loop_emits:
  assumes "list_all (frame_acceptable caps) reqs" and "\<forall>x. read_request_frame caps (tail, fin) \<noteq> Inr (Some x)"
  shows "frame_loop env caps streaming n (concat (map request_wire reqs) @ tail, fin) k =
    snd (emit_frames (conversation env streaming n reqs (closing_words (read_request_frame caps (tail, fin)))) k)"
  using assms(1)
proof (induction reqs arbitrary: n k)
  case Nil
  show ?case
  proof (cases "read_request_frame caps (tail, fin)")
    case (Inl status)
    have "sanitize_response_headers [(''content-type'', ''text/plain; charset=utf-8'')] =
        [(''content-type'', ''text/plain; charset=utf-8'')]"
      by (simp add: sanitize_response_headers_def kept_frame_header_def framing_header_def
          valid_response_header_value_def eval_bytes to_ascii_lowercase_def lower_char_def)
    with Inl show ?thesis
      by (subst frame_loop.simps)
        (simp add: closing_words_def write_full_response_def worker_response_text_def error_answer_def)
  next
    case (Inr m)
    with assms(2) show ?thesis by (subst frame_loop.simps) (cases m; simp add: closing_words_def)
  qed
next
  case (Cons req reqs)
  obtain ok k' where served: "emit_frames (answer_frames (env n) streaming req) k = (ok, k')" by fastforce
  have "read_request_frame caps (concat (map request_wire (req # reqs)) @ tail, fin) =
      Inr (Some (req, concat (map request_wire reqs) @ tail))"
    using Cons.prems read_frame_wire by simp
  with served Cons show ?case
    by (subst frame_loop.simps) (simp add: queue_is_closed_def serve_exchange_emits emit_append then_write_def)
qed

lemma frame_stream_split:
  "\<exists>reqs tail. fst src = concat (map request_wire reqs) @ tail \<and>
     list_all (frame_acceptable caps) reqs \<and>
     (\<forall>x. read_request_frame caps (tail, snd src) \<noteq> Inr (Some x))"
proof (induction "length (fst src)" arbitrary: src rule: less_induct)
  case less
  show ?case
  proof (cases "\<exists>req rest. read_request_frame caps src = Inr (Some (req, rest))")
    case True
    then obtain req rest where read: "read_request_frame caps src = Inr (Some (req, rest))" by blast
    from less.hyps [of "(rest, snd src)"] read_request_frame_shorter [OF read]
    obtain reqs tail where ih: "rest = concat (map request_wire reqs) @ tail"
      "list_all (frame_acceptable caps) reqs"
      "\<forall>x. read_request_frame caps (tail, snd src) \<noteq> Inr (Some x)"
      by auto
    with read_frame_Some [OF read] show ?thesis
      by (intro exI [of _ "req # reqs"] exI [of _ tail]) simp
  next
    case False
    then show ?thesis by (intro exI [of _ "[]"] exI [of _ "fst src"]) simp
  qed
qed

text \<open>
  C13: The whole life of a frame connection, for every byte stream a peer may send, buffered or
  streaming, with a queue that may be closed at any exchange and a peer that may stop reading at
  any byte. The stream reads as well-formed frames followed by a remainder that does not start
  with one, and the loop returns. What it has written is a prefix of this conversation: for each
  frame in order the frames of the worker's answer to exactly that request (one full response; or
  a head, a chunk for each non-empty piece and an end), stopping before the first request that
  finds the queue closed, and after the last request, if the remainder is malformed or truncated
  rather than a clean end, one error response of status 400, 413 or 431. The prefix is all of the
  conversation up to the first frame whose lengths exceed the wire format, cut only where the
  peer stopped reading.
\<close>

theorem frame_connection_served:
  "\<exists>reqs tail.
    fst src = concat (map request_wire reqs) @ tail \<and>
    list_all (frame_acceptable caps) reqs \<and>
    (\<forall>x. read_request_frame caps (tail, snd src) \<noteq> Inr (Some x)) \<and>
    (\<forall>status. read_request_frame caps (tail, snd src) = Inl status \<longrightarrow> status \<in> {400, 413, 431}) \<and>
    sk_out (frame_loop env caps streaming 0 src k) =
      sk_out k @
      (case sk_room k of None \<Rightarrow> (\<lambda>bs. bs) | Some room \<Rightarrow> take room)
        (concat (map response_wire (takeWhile response_fits
          (conversation env streaming 0 reqs
            (case read_request_frame caps (tail, snd src) of Inl status \<Rightarrow> [error_answer status] | Inr _ \<Rightarrow> [])))))"
proof -
  obtain reqs tail where split: "fst src = concat (map request_wire reqs) @ tail"
    and ok: "list_all (frame_acceptable caps) reqs"
    and stop: "\<forall>x. read_request_frame caps (tail, snd src) \<noteq> Inr (Some x)"
    using frame_stream_split [of src caps] by blast
  have "src = (concat (map request_wire reqs) @ tail, snd src)" using split by (cases src) simp
  then have "frame_loop env caps streaming 0 src k = snd (write_all (sendable (conversation env streaming 0 reqs
      (closing_words (read_request_frame caps (tail, snd src))))) k)"
    using frame_loop_emits [OF ok stop, of env streaming 0 k] by (simp add: emit_sendable)
  then have "sk_out (frame_loop env caps streaming 0 src k) = sk_out k @
      (case sk_room k of None \<Rightarrow> (\<lambda>bs. bs) | Some room \<Rightarrow> take room) (sendable (conversation env streaming 0 reqs
        (closing_words (read_request_frame caps (tail, snd src)))))"
    by (simp add: write_all_out split: option.split)
  with split ok stop read_frame_status show ?thesis unfolding sendable_def closing_words_def by blast
qed

definition idle_exchange :: exchange where
  "idle_exchange =
     \<lparr>xe_queue_check = queue_new 4, xe_queue_push = queue_new 4, xe_reply = (\<lambda>_. None),
      xe_events = (\<lambda>_. [])\<rparr>"

lemma idle_answer_fits: "response_fits (buffered_answer idle_exchange req)"
  by (simp add: buffered_answer_def idle_exchange_def dispatch_buffered_request_def queue_push_def
      queue_new_def worker_response_text_def sanitize_response_headers_def kept_frame_header_def
      framing_header_def valid_response_header_value_def eval_bytes to_ascii_lowercase_def
      lower_char_def response_fits_def headers_fit_def pair_fits_def response_envelope_def
      header_bytes_def pair_bytes_def short_bytes_def long_bytes_def)

text \<open>A request, then one stray byte, from a peer that reads the first ten bytes of the answer only.\<close>

theorem frame_connection_served_witness:
  "sk_out (frame_loop (\<lambda>_. idle_exchange) sample_caps False 0 (request_wire sample_request @ [0xBF], Eof)
      \<lparr>sk_out = [], sk_room = Some 10\<rparr>) =
    take 10 (response_wire (buffered_answer idle_exchange sample_request) @ response_wire (error_answer 400))"
proof -
  let ?src = "(request_wire sample_request @ [0xBF], Eof) :: source"
  have ok: "frame_acceptable sample_caps sample_request"
    by (simp add: frame_acceptable_def sample_request_ok sample_request_length)
  have stray: "read_request_frame sample_caps ([0xBF], Eof) = Inl 400"
    by (simp add: read_request_frame_def read_exact_or_eof_def PREFIX_LEN_def)
  from frame_connection_served [of ?src sample_caps "\<lambda>_. idle_exchange" False "\<lparr>sk_out = [], sk_room = Some 10\<rparr>"]
  obtain reqs tail where split: "fst ?src = concat (map request_wire reqs) @ tail"
    and acc: "list_all (frame_acceptable sample_caps) reqs"
    and stop: "\<forall>x. read_request_frame sample_caps (tail, snd ?src) \<noteq> Inr (Some x)"
    and out: "sk_out (frame_loop (\<lambda>_. idle_exchange) sample_caps False 0 ?src \<lparr>sk_out = [], sk_room = Some 10\<rparr>) =
      take 10 (concat (map response_wire (takeWhile response_fits (conversation (\<lambda>_. idle_exchange) False 0 reqs
        (case read_request_frame sample_caps (tail, snd ?src) of Inl status \<Rightarrow> [error_answer status] | Inr _ \<Rightarrow> [])))))"
    by auto
  note first = read_frame_wire [OF ok, of "[0xBF]" Eof]
  obtain req rs where reqs: "reqs = req # rs" using split stop first by (cases reqs) auto
  then have "req = sample_request \<and> concat (map request_wire rs) @ tail = [0xBF]"
    using first split acc read_frame_wire [of sample_caps req "concat (map request_wire rs) @ tail" Eof] by simp
  moreover from this have "rs = []"
    using stray acc reqs read_frame_wire [of sample_caps _ _ Eof] by (cases rs) (auto, metis Inl_Inr_False)
  ultimately show ?thesis
    using out stray reqs error_answer_fits [of 400] idle_answer_fits
    by (simp add: answer_frames_def idle_exchange_def queue_new_def)
qed

section \<open>Streaming\<close>

text \<open>
  The streaming response of the frame path, for any sequence of worker events: one head frame
  (status 500 when the events do not start with a head), one chunk frame per non-empty chunk in
  order, and one end frame, also when the sender goes away without an end marker.
\<close>

theorem streaming_frames_wellformed:
  assumes "response_fits (Resp_Head (wh_status (fst (first_head rx)))
      (sanitize_response_headers (wh_headers (fst (first_head rx)))))"
    and "\<forall>c \<in> set (event_chunks (snd (first_head rx))). length c \<le> U32_MAX - 5"
  shows "write_streaming_frames rx \<lparr>sk_out = out, sk_room = None\<rparr> =
    (True, \<lparr>sk_out = out @
       concat (map response_wire
         (Resp_Head (wh_status (fst (first_head rx)))
            (sanitize_response_headers (wh_headers (fst (first_head rx)))) #
          map Resp_Chunk (event_chunks (snd (first_head rx))) @ [Resp_End])), sk_room = None\<rparr>)"
proof -
  have fits: "list_all response_fits (streamed_answer rx)"
    using assms by (auto simp: streamed_answer_def list_all_iff response_fits_def response_envelope_def long_bytes_def)
  then have "sendable (streamed_answer rx) = concat (map response_wire (streamed_answer rx))"
    unfolding sendable_def list_all_iff by (metis takeWhile_eq_all_conv)
  with fits show ?thesis
    by (simp add: write_streaming_frames_emits emit_sendable write_all_def) (simp add: streamed_answer_def)
qed

theorem streaming_frames_wellformed_witness:
  "fst (write_streaming_frames [EvChunk [1], EvChunk [], EvChunk [2, 3], EvEnd, EvChunk [4]]
     \<lparr>sk_out = [], sk_room = None\<rparr>)"
  using streaming_frames_wellformed [of "[EvChunk [1], EvChunk [], EvChunk [2, 3], EvEnd, EvChunk [4]]" "[]"]
  by (simp add: streamed_answer_def first_head_def response_head_text_def sanitize_response_headers_def kept_frame_header_def
      framing_header_def valid_response_header_value_def eval_bytes to_ascii_lowercase_def
      lower_char_def response_fits_def headers_fit_def pair_fits_def response_envelope_def
      header_bytes_def pair_bytes_def short_bytes_def long_bytes_def)

end
