(* ===== verification/Frame_Request.thy ===== *)
theory Frame_Request
  imports Edge_Request Worker_Frame
begin

text \<open>
  The request half of \<open>crates/oxo-pingora-edge/src/platform/frame_hop.rs\<close>: how the edge builds the
  binary frame of a request, and what the worker reads from it. The scheduler stamp exists only
  in builds with the \<open>hop-timing\<close> feature and is absent here, as in the default build. The parts
  of the URI that the http crate hands out are fields of the request.
\<close>

section \<open>The builder\<close>

record frame_client_request = client_request +
  cr_query :: "string option"

definition has_x_oxo_prefix :: "string \<Rightarrow> bool" where
  "has_x_oxo_prefix name \<longleftrightarrow> 6 \<le> length name \<and> eq_ignore_ascii_case (take 6 name) ''x-oxo-''"

definition url_scheme_frame :: "string \<Rightarrow> scheme" where
  "url_scheme_frame s = (if s = ''https'' then Https else Http)"

definition frame_survivors :: "lowered_header list \<Rightarrow> frame_header_plan \<Rightarrow> header list" where
  "frame_survivors raw plan =
     map (\<lambda>i. (lh_name (raw ! i), lh_value (raw ! i)))
       (filter (\<lambda>i. plan_keeps plan i \<and> \<not> has_x_oxo_prefix (lh_name (raw ! i))) [0..<length raw])"

definition assemble_request_frame_bytes_into ::
  "u8 list \<Rightarrow> string \<Rightarrow> string \<Rightarrow> string \<Rightarrow> string option \<Rightarrow> lowered_header list \<Rightarrow> frame_header_plan
     \<Rightarrow> u8 list \<Rightarrow> string \<Rightarrow> string \<Rightarrow> u16 \<Rightarrow> string \<Rightarrow> u16 + u8 list" where
  "assemble_request_frame_bytes_into out method path query authority raw plan body url_scheme
      server_name server_port remote_addr =
     (let synth_host = (if fp_has_host plan then None else authority);
          headers = (case synth_host of Some a \<Rightarrow> [(''host'', a)] | None \<Rightarrow> []) @ frame_survivors raw plan;
          header_count = fp_survivor_count plan + (if synth_host \<noteq> None then 1 else 0) in
      map_err (\<lambda>_. 400)
        (encode_request_ref_into out
          \<lparr>rr_method = method, rr_path = path, rr_query = query, rr_server_name = server_name,
           rr_server_port = server_port, rr_scheme = url_scheme_frame url_scheme,
           rr_remote_addr = remote_addr, rr_body = body\<rparr> header_count headers))"

definition build_request_frame_bytes_into ::
  "u8 list \<Rightarrow> frame_client_request \<Rightarrow> lowered_header list \<Rightarrow> frame_header_plan
     \<Rightarrow> u8 list \<Rightarrow> string \<Rightarrow> string \<Rightarrow> u16 \<Rightarrow> string \<Rightarrow> u16 + u8 list" where
  "build_request_frame_bytes_into out req raw plan body url_scheme server_name server_port remote_addr =
     (case cr_path_and_query req of
        None \<Rightarrow> Inl 400
      | Some _ \<Rightarrow>
          assemble_request_frame_bytes_into out (cr_method req) (cr_path req)
            (case cr_query req of Some q \<Rightarrow> q | None \<Rightarrow> []) (cr_authority req) raw plan body
            url_scheme server_name server_port remote_addr)"

section \<open>The frame it stands for\<close>

text \<open>The request frame the edge means, from the owned sanitizer's result.\<close>

definition meant_headers :: "string option \<Rightarrow> header list \<Rightarrow> header list" where
  "meant_headers authority kept =
     (if list_ex (\<lambda>(n, v). to_ascii_lowercase n = ''host'') kept then []
      else case authority of Some a \<Rightarrow> [(''host'', a)] | None \<Rightarrow> []) @ kept"

definition meant_frame ::
  "frame_client_request \<Rightarrow> header list \<Rightarrow> u8 list \<Rightarrow> string \<Rightarrow> string \<Rightarrow> u16 \<Rightarrow> string \<Rightarrow> request_frame" where
  "meant_frame req kept body url_scheme server_name server_port remote_addr =
     \<lparr>rf_method = cr_method req, rf_path = cr_path req,
      rf_query = (case cr_query req of Some q \<Rightarrow> q | None \<Rightarrow> []), rf_server_name = server_name,
      rf_server_port = server_port, rf_scheme = url_scheme_frame url_scheme, rf_remote_addr = remote_addr,
      rf_headers = meant_headers (cr_authority req) kept, rf_body = body\<rparr>"

lemma x_oxo_prefix_iff: "has_x_oxo_prefix n \<longleftrightarrow> starts_with (to_ascii_lowercase n) ''x-oxo-''"
proof -
  have "to_ascii_lowercase ''x-oxo-'' = ''x-oxo-''"
    by (simp add: to_ascii_lowercase_def lower_char_def is_ascii_uppercase_def byte_def)
  moreover have "to_ascii_lowercase (take 6 n) = take 6 (to_ascii_lowercase n)"
    by (simp add: to_ascii_lowercase_def take_map)
  moreover have "6 \<le> length n" if "take 6 (to_ascii_lowercase n) = ''x-oxo-''"
    using arg_cong [OF that, of length] by (simp add: to_ascii_lowercase_def)
  ultimately show ?thesis
    by (auto simp: has_x_oxo_prefix_def starts_with_def eq_ignore_ascii_case_def eval_nat_numeral)
qed

lemma frame_survivors_kept:
  assumes "map ((!) raw) (filter (plan_keeps plan) [0..<length raw]) = kept"
    and "list_all (\<lambda>(n, v). \<not> has_x_oxo_prefix n) kept"
  shows "frame_survivors (lowered_all raw) plan = kept"
proof -
  have pair: "(lh_name (lowered_all raw ! i), lh_value (lowered_all raw ! i)) = raw ! i" if "i < length raw" for i
    using that by (simp add: lowered_all_def case_prod_beta)
  have keep: "\<not> has_x_oxo_prefix (lh_name (lowered_all raw ! i))" if "i < length raw" "plan_keeps plan i" for i
  proof -
    have "raw ! i \<in> set kept" using that assms(1) by force
    then show ?thesis using assms(2) pair [OF that(1)] by (fastforce simp: list_all_iff)
  qed
  have "filter (\<lambda>i. plan_keeps plan i \<and> \<not> has_x_oxo_prefix (lh_name (lowered_all raw ! i))) [0..<length raw] =
      filter (plan_keeps plan) [0..<length raw]"
    using keep by (intro filter_cong) auto
  moreover have "length (lowered_all raw) = length raw" by (simp add: lowered_all_def)
  ultimately show ?thesis
    unfolding frame_survivors_def using pair assms(1) by (auto intro!: map_cong)
qed

lemma sanitized_no_reserved:
  assumes "sanitize_bare (lowered_all raw) protocols = Inr s"
  shows "list_all (\<lambda>(n, v). \<not> has_x_oxo_prefix n) (sr_headers s)"
  using assms
  by (auto simp: sanitize_bare_eq survivors_raw list_all_iff x_oxo_prefix_iff should_strip_header_def
      split: if_splits option.splits)

lemma build_request_frame_eq:
  assumes "length raw \<le> 128" and s: "sanitize_bare (lowered_all raw) protocols = Inr s"
    and "cr_path_and_query req = Some pq"
  obtains plan where "sanitize_frame_headers (lowered_all raw) protocols = Inr plan"
    and "build_request_frame_bytes_into out req (lowered_all raw) plan body url_scheme server_name server_port
        remote_addr =
      map_err (\<lambda>_. 400) (encode_request (meant_frame req (sr_headers s) body url_scheme server_name server_port
        remote_addr))"
proof -
  let ?f = "meant_frame req (sr_headers s) body url_scheme server_name server_port remote_addr"
  obtain plan where plan: "sanitize_frame_headers (lowered_all raw) protocols = Inr plan"
    "map ((!) raw) (filter (plan_keeps plan) [0..<length raw]) = sr_headers s"
    "fp_survivor_count plan = length (sr_headers s)"
    "fp_has_host plan = list_ex (\<lambda>(name, v). to_ascii_lowercase name = ''host'') (sr_headers s)"
    using frame_plan_Inr [OF assms(1) s] by metis
  have surv: "frame_survivors (lowered_all raw) plan = sr_headers s"
    by (rule frame_survivors_kept [OF plan(2) sanitized_no_reserved [OF s]])
  have "assemble_request_frame_bytes_into out (cr_method req) (cr_path req)
      (case cr_query req of Some q \<Rightarrow> q | None \<Rightarrow> []) (cr_authority req) (lowered_all raw) plan body url_scheme
      server_name server_port remote_addr =
    map_err (\<lambda>_. 400) (encode_request_ref_into out (ref_of ?f) (length (rf_headers ?f)) (rf_headers ?f))"
    by (cases "fp_has_host plan"; cases "cr_authority req")
      (simp_all add: assemble_request_frame_bytes_into_def Let_def surv plan(3) ref_of_def meant_frame_def
        meant_headers_def plan(4) [symmetric])
  then show thesis
    using that [OF plan(1)] assms(3)
    by (simp add: build_request_frame_bytes_into_def encode_request_ref_into_eq encode_request_eq)
qed

section \<open>The wire form determines the request\<close>

lemma le_bytes_inject:
  "u16_to_le_bytes a = u16_to_le_bytes b \<Longrightarrow> a = b" "u32_to_le_bytes c = u32_to_le_bytes d \<Longrightarrow> c = d"
  using u16_le_inverse [of a] u16_le_inverse [of b] u32_le_inverse [of c] u32_le_inverse [of d]
  unfolding u16_to_le_bytes_def u32_to_le_bytes_def by (metis list.inject)+

lemma as_bytes_inject [simp]: "as_bytes a = as_bytes b \<longleftrightarrow> a = b"
  using map_byte_char_as_bytes by metis

text \<open>A length prefix of fixed width that is injective makes a field self-delimiting.\<close>

lemma length_prefix_cancel:
  assumes "\<And>n. length (enc n) = k" and "enc (length a) = enc (length b) \<Longrightarrow> length a = length b"
    and eq: "enc (length a) @ a @ x = enc (length b) @ b @ y"
  shows "a = b \<and> x = y"
proof -
  have "enc (length a) = enc (length b) \<and> a @ x = b @ y"
    using eq append_eq_append_conv [of "enc (length a)" "enc (length b)" "a @ x" "b @ y"] assms(1) by metis
  with assms(2) show ?thesis using append_eq_append_conv [of a b x y] by metis
qed

lemma u16_length_inject:
  assumes "m \<le> U16_MAX" and "n \<le> U16_MAX" and "u16_to_le_bytes (of_nat m) = u16_to_le_bytes (of_nat n)"
  shows "m = n"
  using le_bytes_inject(1) [OF assms(3)] unat_of_nat_u16 [OF assms(1)] unat_of_nat_u16 [OF assms(2)] by metis

lemma u32_length_inject:
  assumes "m \<le> U32_MAX" and "n \<le> U32_MAX" and "u32_to_le_bytes (of_nat m) = u32_to_le_bytes (of_nat n)"
  shows "m = n"
  using le_bytes_inject(2) [OF assms(3)] unat_of_nat_u32 [OF assms(1)] unat_of_nat_u32 [OF assms(2)] by metis

lemma short_bytes_cancel:
  assumes "length a \<le> U16_MAX" and "length b \<le> U16_MAX" and "short_bytes a @ x = short_bytes b @ y"
  shows "a = b \<and> x = y"
proof -
  have "as_bytes a = as_bytes b \<and> x = y"
    using assms
    by (intro length_prefix_cancel [where enc = "\<lambda>n. u16_to_le_bytes (of_nat n)" and k = 2] u16_length_inject)
      (simp_all only: length_le_bytes length_as_bytes short_bytes_def append_assoc)
  then show ?thesis by simp
qed

lemma long_bytes_cancel:
  assumes "length a \<le> U32_MAX" and "length b \<le> U32_MAX" and "long_bytes a @ x = long_bytes b @ y"
  shows "a = b \<and> x = y"
  using assms
  by (intro length_prefix_cancel [where enc = "\<lambda>n. u32_to_le_bytes (of_nat n)" and k = 4] u32_length_inject)
    (simp_all only: length_le_bytes long_bytes_def append_assoc)

lemma pairs_cancel:
  assumes "length hs = length gs" and "list_all pair_fits hs" and "list_all pair_fits gs"
    and "concat (map pair_bytes hs) @ x = concat (map pair_bytes gs) @ y"
  shows "hs = gs \<and> x = y"
  using assms
proof (induction hs gs rule: list_induct2)
  case (Cons h hs g gs)
  obtain n v m w where hg: "h = (n, v)" "g = (m, w)" by (cases h, cases g) auto
  from Cons.prems have fits: "length n \<le> U16_MAX" "length m \<le> U16_MAX" "length v \<le> U32_MAX" "length w \<le> U32_MAX"
    by (simp_all add: hg pair_fits_def)
  have "short_bytes n @ long_bytes (as_bytes v) @ concat (map pair_bytes hs) @ x =
      short_bytes m @ long_bytes (as_bytes w) @ concat (map pair_bytes gs) @ y"
    using Cons.prems(3) by (simp only: hg pair_bytes_def list.map concat.simps prod.case append_assoc)
  from short_bytes_cancel [OF fits(1,2) this]
  have nm: "n = m" and rest: "long_bytes (as_bytes v) @ concat (map pair_bytes hs) @ x =
      long_bytes (as_bytes w) @ concat (map pair_bytes gs) @ y" by (blast, blast)
  from fits have "v = w \<and> concat (map pair_bytes hs) @ x = concat (map pair_bytes gs) @ y"
    using long_bytes_cancel [OF _ _ rest] by simp
  with Cons nm show ?case by (simp add: hg)
qed simp

lemma header_bytes_cancel:
  assumes "headers_fit hs" and "headers_fit gs" and "header_bytes hs @ x = header_bytes gs @ y"
  shows "hs = gs \<and> x = y"
proof -
  let ?c = "\<lambda>hs. u16_to_le_bytes (of_nat (length hs))"
  have "?c hs @ concat (map pair_bytes hs) @ x = ?c gs @ concat (map pair_bytes gs) @ y"
    using assms(3) by (simp only: header_bytes_def append_assoc)
  then have "?c hs = ?c gs \<and> concat (map pair_bytes hs) @ x = concat (map pair_bytes gs) @ y"
    using append_eq_append_conv [of "?c hs" "?c gs"] length_le_bytes(1) by metis
  moreover from this have "length hs = length gs"
    using assms(1,2) u16_length_inject unfolding headers_fit_def by blast
  ultimately show ?thesis using assms(1,2) pairs_cancel unfolding headers_fit_def by blast
qed

lemma request_fits_fields:
  assumes "request_fits r"
  shows "length (rf_method r) \<le> U16_MAX" "length (as_bytes (rf_path r)) \<le> U32_MAX"
    "length (as_bytes (rf_query r)) \<le> U32_MAX" "length (rf_server_name r) \<le> U16_MAX"
    "length (rf_remote_addr r) \<le> U16_MAX" "headers_fit (rf_headers r)" "length (rf_body r) \<le> U32_MAX"
  using assms by (simp_all only: request_fits_def length_as_bytes)

lemma fixed_fields_cancel:
  assumes "u16_to_le_bytes p @ [c] @ x = u16_to_le_bytes q @ [d] @ y"
  shows "(p = q \<and> c = d) \<and> x = y"
  using assms le_bytes_inject(1) append_eq_append_conv [of "u16_to_le_bytes p" "u16_to_le_bytes q"]
  by (metis length_le_bytes(1) append_Cons append_Nil list.inject)

lemma request_envelope_inject:
  assumes "request_fits a" and "request_fits b" and "request_envelope a = request_envelope b"
  shows "a = b"
proof -
  note fa = request_fits_fields [OF assms(1)] and fb = request_fits_fields [OF assms(2)]
  note req_method = short_bytes_cancel [OF fa(1) fb(1) assms(3) [unfolded request_envelope_def]]
  note req_path = long_bytes_cancel [OF fa(2) fb(2) conjunct2 [OF req_method]]
  note query = long_bytes_cancel [OF fa(3) fb(3) conjunct2 [OF req_path]]
  note name = short_bytes_cancel [OF fa(4) fb(4) conjunct2 [OF query]]
  note port = fixed_fields_cancel [OF conjunct2 [OF name]]
  note addr = short_bytes_cancel [OF fa(5) fb(5) conjunct2 [OF port]]
  note headers = header_bytes_cancel [OF fa(6) fb(6) conjunct2 [OF addr]]
  have "long_bytes (rf_body a) @ [] = long_bytes (rf_body b) @ []" using headers by simp
  then have body: "rf_body a = rf_body b" using long_bytes_cancel [OF fa(7) fb(7)] by blast
  have "scheme_to_byte x = scheme_to_byte y \<Longrightarrow> x = y" for x y
    by (cases x; cases y) simp_all
  then show ?thesis using req_method req_path query name port addr headers body by simp
qed

lemma request_ok_fit:
  "frame_acceptable caps req \<Longrightarrow> request_fits req"
  using request_ok_fits by (auto simp: frame_acceptable_def)

lemma wire_determines:
  assumes "request_fits f" and "read_request_frame caps (request_wire f @ rest, fin) = Inr (Some (g, rest'))"
  shows "g = f \<and> rest' = rest"
proof -
  note g = read_frame_Some [OF assms(2)]
  have fits: "request_fits g" by (rule request_ok_fit [OF g(1)])
  have len: "length (request_envelope f) \<le> U32_MAX" "length (request_envelope g) \<le> U32_MAX"
    using assms(1) fits by (simp_all only: request_fits_def)
  have "long_bytes (request_envelope f) @ rest = long_bytes (request_envelope g) @ rest'"
    using g(2) by (simp only: request_wire_def frame_of_def long_bytes_def fst_conv append_assoc same_append_eq)
  from long_bytes_cancel [OF len this] show ?thesis
    using request_envelope_inject [OF assms(1) fits] by blast
qed

text \<open>
  C5: The binary hop carries exactly the request the edge means. For every client request the
  sanitizer accepts, the allocation-free builder either refuses (status 400, only when a field
  does not fit its length prefix) or writes a frame that, followed by any further bytes, the
  worker reads as one request and no other: same method, path, query and body, the edge's own
  scheme, server name, port and client address, and as headers the sanitized client headers in
  order behind a Host header taken from the authority when none survived. Whether it is accepted
  depends only on the worker's caps.
\<close>
theorem frame_hop_faithful:
  assumes "length raw \<le> 128" and "sanitize_bare (lowered_all raw) protocols = Inr s"
    and "cr_path_and_query req = Some pq"
  shows "\<exists>plan. sanitize_frame_headers (lowered_all raw) protocols = Inr plan \<and>
    (case build_request_frame_bytes_into out req (lowered_all raw) plan body url_scheme name port addr of
       Inl status \<Rightarrow> status = 400 \<and> \<not> request_fits (meant_frame req (sr_headers s) body url_scheme name port addr)
     | Inr bytes \<Rightarrow>
         (frame_acceptable caps (meant_frame req (sr_headers s) body url_scheme name port addr) \<longrightarrow>
            (\<exists>g. read_request_frame caps (bytes @ rest, fin) = Inr (Some (g, rest)))) \<and>
         (\<forall>g rest'. read_request_frame caps (bytes @ rest, fin) = Inr (Some (g, rest')) \<longrightarrow>
            rest' = rest \<and>
            request_frame_to_worker_request g =
              \<lparr>wq_method = cr_method req, wq_path = cr_path req,
               wq_query = (case cr_query req of Some q \<Rightarrow> q | None \<Rightarrow> []),
               wq_server_name = name, wq_server_port = port,
               wq_url_scheme = (if url_scheme = ''https'' then ''https'' else ''http''), wq_remote_addr = addr,
               wq_headers = List.map_filter frame_keep (meant_headers (cr_authority req) (sr_headers s)),
               wq_body = body\<rparr>))"
proof -
  let ?f = "meant_frame req (sr_headers s) body url_scheme name port addr"
  let ?wq = "\<lparr>wq_method = cr_method req, wq_path = cr_path req,
      wq_query = (case cr_query req of Some q \<Rightarrow> q | None \<Rightarrow> []), wq_server_name = name, wq_server_port = port,
      wq_url_scheme = (if url_scheme = ''https'' then ''https'' else ''http''), wq_remote_addr = addr,
      wq_headers = List.map_filter frame_keep (meant_headers (cr_authority req) (sr_headers s)), wq_body = body\<rparr>"
  obtain plan where plan: "sanitize_frame_headers (lowered_all raw) protocols = Inr plan"
    and bytes: "build_request_frame_bytes_into out req (lowered_all raw) plan body url_scheme name port addr =
      map_err (\<lambda>_. 400) (encode_request ?f)"
    by (rule build_request_frame_eq [OF assms])
  show ?thesis
  proof (cases "request_fits ?f")
    case False
    with plan bytes show ?thesis by (simp add: encode_request_eq map_err_def)
  next
    case True
    then have enc: "map_err (\<lambda>_. 400) (encode_request ?f) = Inr (request_wire ?f)"
      by (simp add: encode_request_eq map_err_def request_wire_def)
    have view: "request_frame_to_worker_request ?f = ?wq"
      by (simp add: request_frame_to_worker_request_def meant_frame_def url_scheme_frame_def)
    have only: "rest' = rest \<and> request_frame_to_worker_request g = ?wq"
      if "read_request_frame caps (request_wire ?f @ rest, fin) = Inr (Some (g, rest'))" for g rest'
      using wire_determines [OF True that] view by simp
    have "read_request_frame caps (request_wire ?f @ rest, fin) = Inr (Some (?f, rest))"
      if "frame_acceptable caps ?f" using read_frame_wire [OF that] .
    then show ?thesis
      using plan only
      by (intro exI [of _ plan]) (simp add: bytes enc)
  qed
qed

definition sample_frame_request :: frame_client_request where
  "sample_frame_request = \<lparr>cr_method = ''GET'', cr_http2 = False, cr_scheme = None, cr_authority = None,
     cr_path = ''/'', cr_path_and_query = Some ''/?a'', cr_query = Some ''a''\<rparr>"

definition sample_kept :: "header list" where
  "sample_kept = [(''Host'', ''shop.example''), (''Accept'', ''text/html'')]"

lemma sample_frame_acceptable:
  "frame_acceptable sample_caps
     (meant_frame sample_frame_request sample_kept [] ''https'' ''shop.example'' 443 ''9.9.9.9'')"
  by (simp add: frame_acceptable_def meant_frame_def meant_headers_def sample_frame_request_def sample_kept_def
      sample_lower ok_defs bytes_defs sample_caps_def)

theorem frame_hop_faithful_witness:
  "\<exists>plan bytes g. sanitize_frame_headers (lowered_all sample_edge_headers) \<lparr>ps_sse = False\<rparr> = Inr plan \<and>
     build_request_frame_bytes_into [] sample_frame_request (lowered_all sample_edge_headers) plan [] ''https''
       ''shop.example'' 443 ''9.9.9.9'' = Inr bytes \<and>
     read_request_frame sample_caps (bytes @ [1], Eof) = Inr (Some (g, [1])) \<and>
     wq_query (request_frame_to_worker_request g) = ''a'' \<and>
     wq_remote_addr (request_frame_to_worker_request g) = ''9.9.9.9''"
proof -
  have len: "length sample_edge_headers \<le> 128" by (simp add: sample_edge_headers_def)
  have pq: "cr_path_and_query sample_frame_request = Some ''/?a''" by (simp add: sample_frame_request_def)
  let ?build = "\<lambda>plan. build_request_frame_bytes_into [] sample_frame_request (lowered_all sample_edge_headers) plan []
    ''https'' ''shop.example'' 443 ''9.9.9.9''"
  note faithful = frame_hop_faithful [OF len sample_sanitized pq, where out = "[]" and body = "[]"
      and url_scheme = "''https''" and name = "''shop.example''" and port = 443 and addr = "''9.9.9.9''"
      and caps = sample_caps and rest = "[1]" and fin = Eof, simplified sanitized_request.simps, folded sample_kept_def]
  then obtain plan where plan: "sanitize_frame_headers (lowered_all sample_edge_headers) \<lparr>ps_sse = False\<rparr> = Inr plan"
    and built: "?build plan \<noteq> Inl 400 \<and> (\<forall>status. ?build plan = Inl status \<longrightarrow> status = 400)"
    "\<And>bytes. ?build plan = Inr bytes \<Longrightarrow> \<exists>g. read_request_frame sample_caps (bytes @ [1], Eof) = Inr (Some (g, [1])) \<and>
       wq_query (request_frame_to_worker_request g) = ''a'' \<and>
       wq_remote_addr (request_frame_to_worker_request g) = ''9.9.9.9''"
    using sample_frame_acceptable request_ok_fit [OF sample_frame_acceptable]
    by (fastforce simp: sample_frame_request_def split: sum.split_asm)
  then obtain bytes where "?build plan = Inr bytes" by (cases "?build plan") auto
  with plan built(2) show ?thesis by blast
qed

end
