(* ===== verification/Edge_Response.thy ===== *)
theory Edge_Response
  imports Edge_Request Fairness
begin

text \<open>
  The response half of \<open>crates/oxo-pingora-edge/src/platform/worker_wire.rs\<close>: reading a worker's
  HTTP/1.1 response, buffered or chunked, and relaying it downstream.

  What successive reads of the worker socket return is a list of \<open>worker_read\<close>s: the bytes read
  (none at the end of the stream) or a failure or timeout; each comes with a flag that says
  whether draining had begun when the read was made. The end of the list is a read that never
  completes and runs into its timeout. The downstream session keeps what was written to it, and
  a function that says which write fails. A response header is its status and fields; the header
  library refuses none that passed the checks made before it is called.
\<close>

section \<open>Data\<close>

datatype worker_read = RdBytes "u8 list" | RdFail

type_synonym reads = "(bool \<times> worker_read) list"

record response_header =
  rh_status :: u16
  rh_fields :: "header list"

record edge_worker_response =
  er_status :: u16
  er_header :: response_header
  er_body :: "u8 list"

datatype downstream_write_error = WriteTimeout | WriteOther

datatype down_write = DownHeader response_header bool | DownBody "u8 list option" bool

record downstream =
  dn_written :: "down_write list"
  dn_fails :: "nat \<Rightarrow> downstream_write_error option"

definition MAX_RESPONSE_HEADER_BYTES :: usize where "MAX_RESPONSE_HEADER_BYTES = 64 * 1024"
definition MAX_RESPONSE_BYTES :: usize where "MAX_RESPONSE_BYTES = 64 * 1024 * 1024"

section \<open>Parsing\<close>

fun find_window :: "u8 list \<Rightarrow> u8 list \<Rightarrow> usize option" where
  "find_window w [] = None"
| "find_window w (b # bs) =
     (if starts_with (b # bs) w then Some 0 else map_option Suc (find_window w bs))"

definition find_header_end :: "u8 list \<Rightarrow> usize option" where
  "find_header_end buf = find_window [0x0D, 0x0A, 0x0D, 0x0A] buf"

definition strip_trailing_cr :: "u8 list \<Rightarrow> u8 list" where
  "strip_trailing_cr line = (if line \<noteq> [] \<and> last line = 0x0D then butlast line else line)"

definition is_blank :: "u8 \<Rightarrow> bool" where
  "is_blank b \<longleftrightarrow> b = 0x20 \<or> b = 0x09"

definition trim_optional_whitespace :: "u8 list \<Rightarrow> u8 list" where
  "trim_optional_whitespace bytes = rev (dropWhile is_blank (rev (dropWhile is_blank bytes)))"

definition parse_status_line :: "u8 list \<Rightarrow> u16 + u16" where
  "parse_status_line line =
     and_then (ok_or 502 (from_utf8 line)) (\<lambda>txt.
     (let parts = split_whitespace txt in
      case parts of
        [] \<Rightarrow> Inl 502
      | p # rest \<Rightarrow>
          if p \<noteq> ''HTTP/1.1'' then Inl 502
          else
            (case rest of
               [] \<Rightarrow> Inl 502
             | c # _ \<Rightarrow>
                 and_then (ok_or 502 (parse_uint U16_MAX c)) (\<lambda>code.
                 if 100 \<le> code \<and> code \<le> 599 then Inr (of_nat code) else Inl 502))))"

definition split_header_line :: "u8 list \<Rightarrow> u16 + (u8 list \<times> u8 list)" where
  "split_header_line raw_line =
     (let line = strip_trailing_cr raw_line in
      if line = [] \<or> starts_with line [0x20] \<or> starts_with line [0x09] then Inl 502
      else
        (case split_once 0x3A line of
           None \<Rightarrow> Inl 502
         | Some (name, raw_value) \<Rightarrow>
             (let v = trim_optional_whitespace raw_value in
              if \<not> is_valid_header_name name \<or> has_invalid_header_value_bytes v then Inl 502
              else Inr (name, v))))"

fun chunked_scan :: "bool \<Rightarrow> u8 list list \<Rightarrow> u16 + bool" where
  "chunked_scan chunked [] = Inr chunked"
| "chunked_scan chunked (raw_line # lines) =
     and_then (split_header_line raw_line) (\<lambda>(name, v).
     and_then (ok_or 502 (from_utf8 name)) (\<lambda>name_text.
     if eq_ignore_ascii_case name_text ''transfer-encoding'' then
       and_then (ok_or 502 (from_utf8 v)) (\<lambda>value_text.
       if eq_ignore_ascii_case value_text ''chunked'' then chunked_scan True lines else Inl 502)
     else chunked_scan chunked lines))"

definition worker_response_is_chunked :: "u8 list \<Rightarrow> u16 + bool" where
  "worker_response_is_chunked head = chunked_scan False (tl (split_on 0x0A head))"

definition dropped_response_header :: "string \<Rightarrow> bool" where
  "dropped_response_header lower \<longleftrightarrow>
     lower \<in> set [''connection'', ''content-length'', ''transfer-encoding'']"

fun response_fields :: "header list \<Rightarrow> u8 list list \<Rightarrow> u16 + header list" where
  "response_fields acc [] = Inr acc"
| "response_fields acc (raw_line # lines) =
     and_then (split_header_line raw_line) (\<lambda>(name, v).
     and_then (ok_or 502 (from_utf8 name)) (\<lambda>name_text.
     if dropped_response_header (to_ascii_lowercase name_text) then response_fields acc lines
     else
       and_then (ok_or 502 (from_utf8 v)) (\<lambda>value_text.
       response_fields (acc @ [(name_text, value_text)]) lines)))"

definition parse_response_head :: "u8 list \<Rightarrow> u16 + response_header" where
  "parse_response_head head =
     (let lines = split_on 0x0A head in
      and_then (parse_status_line (strip_trailing_cr (hd lines))) (\<lambda>status.
      and_then (response_fields [] (tl lines)) (\<lambda>fields.
      Inr \<lparr>rh_status = status, rh_fields = fields\<rparr>)))"

definition add_close :: "bool \<Rightarrow> response_header \<Rightarrow> response_header" where
  "add_close keepalive h =
     (if keepalive then h else h\<lparr>rh_fields := rh_fields h @ [(''Connection'', ''close'')]\<rparr>)"

definition parse_chunked_worker_response_head :: "u8 list \<Rightarrow> bool \<Rightarrow> u16 + (response_header \<times> u16)" where
  "parse_chunked_worker_response_head head keepalive =
     and_then (parse_response_head head) (\<lambda>h. Inr (add_close keepalive h, rh_status h))"

definition parse_worker_response :: "u8 list \<Rightarrow> bool \<Rightarrow> u16 + edge_worker_response" where
  "parse_worker_response bytes keepalive =
     and_then (ok_or 502 (find_header_end bytes)) (\<lambda>header_end.
     if header_end > MAX_RESPONSE_HEADER_BYTES \<or> length bytes > MAX_RESPONSE_BYTES then Inl 502
     else
       (let body = drop (header_end + 4) bytes in
        and_then (parse_response_head (take header_end bytes)) (\<lambda>h.
        Inr \<lparr>er_status = rh_status h,
             er_header = add_close keepalive
               (h\<lparr>rh_fields := rh_fields h @ [(''Content-Length'', to_string (length body))]\<rparr>),
             er_body = body\<rparr>)))"

definition parse_chunk_size :: "u8 list \<Rightarrow> u16 + usize" where
  "parse_chunk_size line =
     and_then (ok_or 502 (from_utf8 line)) (\<lambda>txt.
     (let sz = trim (hd (split_on (CHR '';'') txt)) in
      if sz = [] \<or> \<not> list_all is_ascii_hexdigit (as_bytes sz) then Inl 502
      else ok_or 502 (parse_hex U64_MAX sz)))"

section \<open>Writing downstream\<close>

definition write_down :: "down_write \<Rightarrow> downstream \<Rightarrow> (downstream_write_error + unit) \<times> downstream" where
  "write_down w d =
     (case dn_fails d (length (dn_written d)) of
        Some e \<Rightarrow> (Inl e, d)
      | None \<Rightarrow> (Inr (), d\<lparr>dn_written := dn_written d @ [w]\<rparr>))"

definition write_with_timeout :: "down_write \<Rightarrow> downstream \<Rightarrow> (u16 + unit) \<times> downstream" where
  "write_with_timeout w d = (let (r, d) = write_down w d in (map_err (\<lambda>_. 502) r, d))"

definition write_downstream_response :: "edge_worker_response \<Rightarrow> downstream \<Rightarrow> (u16 + u16) \<times> downstream" where
  "write_downstream_response resp d =
     (case write_with_timeout (DownHeader (er_header resp) False) d of
        (Inl e, d) \<Rightarrow> (Inl e, d)
      | (Inr _, d) \<Rightarrow>
          (case write_with_timeout (DownBody (Some (er_body resp)) True) d of
             (Inl e, d) \<Rightarrow> (Inl e, d)
           | (Inr _, d) \<Rightarrow> (Inr (er_status resp), d)))"

text \<open>A session whose writes all succeed.\<close>

definition never_fails :: "downstream \<Rightarrow> bool" where
  "never_fails d \<longleftrightarrow> dn_fails d = (\<lambda>_. None)"

section \<open>The chunked relay\<close>

text \<open>
  The downstream side, shared with the frame relay: the header not yet written, the admission,
  the registry it belongs to and the session.
\<close>

record relay_out =
  rl_header :: "response_header option"
  rl_admission :: long_lived_admission
  rl_registry :: registry
  rl_down :: downstream

record relay = relay_out +
  rl_reads :: reads
  rl_pending :: "u8 list"
  rl_decoded :: u64

text \<open>One more read: more pending bytes, or that draining has begun.\<close>

definition read_more_worker_bytes_or_drain :: "relay \<Rightarrow> (u16 + bool) \<times> relay" where
  "read_more_worker_bytes_or_drain s =
     (case rl_reads s of
        [] \<Rightarrow> (Inl 502, s)
      | (drained, r) # rs \<Rightarrow>
          if drained then (Inr False, s)
          else
            (case r of
               RdFail \<Rightarrow> (Inl 502, s\<lparr>rl_reads := rs\<rparr>)
             | RdBytes bs \<Rightarrow>
                 if bs = [] then (Inl 502, s\<lparr>rl_reads := rs\<rparr>)
                 else (Inr True, s\<lparr>rl_reads := rs, rl_pending := rl_pending s @ bs\<rparr>)))"

lemma read_more_shorter:
  "read_more_worker_bytes_or_drain s = (Inr True, s') \<Longrightarrow> length (rl_reads s') < length (rl_reads s)"
  by (auto simp: read_more_worker_bytes_or_drain_def split: list.splits if_splits worker_read.splits)

function read_until_crlf_or_drain :: "relay \<Rightarrow> (u16 + usize option) \<times> relay" where
  "read_until_crlf_or_drain s =
     (case find_window [0x0D, 0x0A] (rl_pending s) of
        Some pos \<Rightarrow> (Inr (Some pos), s)
      | None \<Rightarrow>
          (case read_more_worker_bytes_or_drain s of
             (Inl e, s) \<Rightarrow> (Inl e, s)
           | (Inr False, s) \<Rightarrow> (Inr None, s)
           | (Inr True, s) \<Rightarrow>
               if length (rl_pending s) > MAX_RESPONSE_HEADER_BYTES then (Inl 502, s)
               else read_until_crlf_or_drain s))"
  by pat_completeness auto
termination
  by (relation "measure (\<lambda>s. length (rl_reads s))") (auto dest!: read_more_shorter [OF sym])

function read_until_available_or_drain :: "usize \<Rightarrow> relay \<Rightarrow> (u16 + bool) \<times> relay" where
  "read_until_available_or_drain len s =
     (if length (rl_pending s) < len then
        (case read_more_worker_bytes_or_drain s of
           (Inl e, s) \<Rightarrow> (Inl e, s)
         | (Inr False, s) \<Rightarrow> (Inr False, s)
         | (Inr True, s) \<Rightarrow> read_until_available_or_drain len s)
      else (Inr True, s))"
  by pat_completeness auto
termination
  by (relation "measure (\<lambda>(len, s). length (rl_reads s))") (auto dest!: read_more_shorter [OF sym])

declare read_until_crlf_or_drain.simps [simp del] read_until_available_or_drain.simps [simp del]

definition write_long_lived :: "down_write \<Rightarrow> 'z relay_out_scheme \<Rightarrow> (u16 + unit) \<times> 'z relay_out_scheme" where
  "write_long_lived w s =
     (case write_down w (rl_down s) of
        (Inr _, d) \<Rightarrow> (Inr (), s\<lparr>rl_down := d\<rparr>)
      | (Inl e, d) \<Rightarrow>
          (Inl 502, s\<lparr>rl_down := d,
             rl_registry := record_downstream_write_error (e = WriteTimeout) (rl_registry s)\<rparr>))"

text \<open>\<open>if let Some(header) = header.take()\<close>: the head is written before the first body write.\<close>

definition write_pending_header :: "'z relay_out_scheme \<Rightarrow> (u16 + unit) \<times> 'z relay_out_scheme" where
  "write_pending_header s =
     (case rl_header s of
        None \<Rightarrow> (Inr (), s)
      | Some h \<Rightarrow> write_long_lived (DownHeader h False) (s\<lparr>rl_header := None\<rparr>))"

definition then_do :: "(u16 + 'a) \<times> 's \<Rightarrow> ('a \<Rightarrow> 's \<Rightarrow> (u16 + 'b) \<times> 's) \<Rightarrow> (u16 + 'b) \<times> 's" where
  "then_do r f = (case r of (Inl e, s) \<Rightarrow> (Inl e, s) | (Inr x, s) \<Rightarrow> f x s)"

definition finish_drained_chunked_response :: "'z relay_out_scheme \<Rightarrow> (u16 + unit) \<times> 'z relay_out_scheme" where
  "finish_drained_chunked_response s =
     then_do (write_pending_header s) (\<lambda>_ s.
     then_do (write_long_lived (DownBody None True) s) (\<lambda>_ s.
     let (a, r) = complete_drained (rl_admission s) (rl_registry s)
     in (Inr (), s\<lparr>rl_admission := a, rl_registry := r\<rparr>)))"

text \<open>One pass of the loop; the result says whether the loop goes on.\<close>

definition drained_out :: "relay \<Rightarrow> (u16 + bool) \<times> relay" where
  "drained_out s = then_do (finish_drained_chunked_response s) (\<lambda>_ s. (Inr False, s))"

definition last_chunk :: "relay \<Rightarrow> (u16 + bool) \<times> relay" where
  "last_chunk s =
     then_do (read_until_available_or_drain 2 s) (\<lambda>available s.
     if \<not> available then drained_out s
     else if take 2 (rl_pending s) \<noteq> [0x0D, 0x0A] then (Inl 502, s)
     else
       then_do (write_pending_header s) (\<lambda>_ s.
       then_do (write_long_lived (DownBody None True) s) (\<lambda>_ s.
       (Inr False, s\<lparr>rl_admission := admission_complete (rl_admission s)\<rparr>))))"

definition data_chunk :: "usize \<Rightarrow> relay \<Rightarrow> (u16 + bool) \<times> relay" where
  "data_chunk sz s =
     (case checked_add (rl_decoded s) (of_nat sz) of
        None \<Rightarrow> (Inl 502, s)
      | Some decoded \<Rightarrow>
          (let s = s\<lparr>rl_decoded := decoded\<rparr> in
           if decoded > of_nat MAX_RESPONSE_BYTES then (Inl 502, s)
           else
             (let (ok, a, r) = record_bytes (of_nat sz) (rl_admission s) (rl_registry s);
                  s = s\<lparr>rl_admission := a, rl_registry := r\<rparr>
              in
              if \<not> ok then (Inl 502, s)
              else
                then_do (read_until_available_or_drain (sz + 2) s) (\<lambda>available s.
                if \<not> available then drained_out s
                else if take 2 (drop sz (rl_pending s)) \<noteq> [0x0D, 0x0A] then (Inl 502, s)
                else
                  (let chunk = take sz (rl_pending s); s = s\<lparr>rl_pending := drop (sz + 2) (rl_pending s)\<rparr> in
                   then_do (write_pending_header s) (\<lambda>_ s.
                   then_do (write_long_lived (DownBody (Some chunk) False) s) (\<lambda>_ s. (Inr True, s))))))))"

definition next_chunk :: "relay \<Rightarrow> (u16 + bool) \<times> relay" where
  "next_chunk s =
     then_do (read_until_crlf_or_drain s) (\<lambda>line s.
     case line of
       None \<Rightarrow> drained_out s
     | Some line_end \<Rightarrow>
         (case parse_chunk_size (take line_end (rl_pending s)) of
            Inl e \<Rightarrow> (Inl e, s)
          | Inr sz \<Rightarrow>
              (let s = s\<lparr>rl_pending := drop (line_end + 2) (rl_pending s)\<rparr> in
               if sz = 0 then last_chunk s else data_chunk sz s)))"

section \<open>The relay ends\<close>

fun read_size :: "bool \<times> worker_read \<Rightarrow> nat" where
  "read_size (_, RdBytes bs) = length bs"
| "read_size (_, RdFail) = 0"

definition relay_bytes :: "relay \<Rightarrow> nat" where
  "relay_bytes s = length (rl_pending s) + sum_list (map read_size (rl_reads s))"

lemma read_more_bytes:
  "read_more_worker_bytes_or_drain s = (Inr b, s') \<Longrightarrow> relay_bytes s' = relay_bytes s"
  by (auto simp: read_more_worker_bytes_or_drain_def relay_bytes_def split: list.splits if_splits worker_read.splits)

lemma read_until_crlf_bytes:
  "read_until_crlf_or_drain s = (Inr p, s') \<Longrightarrow>
     relay_bytes s' = relay_bytes s \<and> (\<forall>pos. p = Some pos \<longrightarrow> find_window [0x0D, 0x0A] (rl_pending s') = Some pos)"
proof (induction s arbitrary: p s' rule: read_until_crlf_or_drain.induct)
  case (1 s)
  then show ?case
    by (subst (asm) (2) read_until_crlf_or_drain.simps)
      (auto split: option.splits prod.splits sum.splits bool.splits if_splits dest: read_more_bytes)
qed

lemma read_until_available_bytes:
  "read_until_available_or_drain len s = (Inr b, s') \<Longrightarrow>
     relay_bytes s' = relay_bytes s \<and> (b \<longrightarrow> len \<le> length (rl_pending s'))"
proof (induction len s arbitrary: b s' rule: read_until_available_or_drain.induct)
  case (1 len s)
  then show ?case
    by (subst (asm) (2) read_until_available_or_drain.simps)
      (auto split: prod.splits sum.splits bool.splits if_splits dest: read_more_bytes)
qed

lemma write_long_lived_bytes: "write_long_lived w s = (r, s') \<Longrightarrow> relay_bytes s' = relay_bytes s"
  by (auto simp: write_long_lived_def relay_bytes_def split: prod.splits sum.splits)

lemma write_pending_header_bytes: "write_pending_header s = (r, s') \<Longrightarrow> relay_bytes s' = relay_bytes s"
  by (auto simp: write_pending_header_def relay_bytes_def split: option.splits dest!: write_long_lived_bytes)

lemma then_do_Inr: "then_do r f = (Inr y, t) \<longleftrightarrow> (\<exists>x s. r = (Inr x, s) \<and> f x s = (Inr y, t))"
  by (cases r; cases "fst r") (auto simp: then_do_def)

lemma then_do_InrE:
  assumes "then_do r f = (Inr y, t)"
  obtains x s where "r = (Inr x, s)" "f x s = (Inr y, t)"
  using assms by (auto simp: then_do_Inr)

lemma find_window_Some:
  "find_window w bs = Some pos \<Longrightarrow> starts_with (drop pos bs) w \<and> pos < length bs"
  by (induction w bs arbitrary: pos rule: find_window.induct) (auto split: if_splits)

lemma starts_with_length: "starts_with s p \<Longrightarrow> length p \<le> length s"
  by (auto simp: starts_with_append)

lemma drained_out_stops: "drained_out s \<noteq> (Inr True, s')" "last_chunk s \<noteq> (Inr True, s')"
proof -
  show d: "drained_out s \<noteq> (Inr True, s')" for s by (simp add: drained_out_def then_do_Inr)
  show "last_chunk s \<noteq> (Inr True, s')" by (auto simp: last_chunk_def then_do_Inr d split: if_splits)
qed

lemma data_chunk_shorter:
  assumes "data_chunk sz s = (Inr True, s')"
  shows "relay_bytes s' < relay_bytes s"
proof -
  obtain decoded where dec: "checked_add (rl_decoded s) (of_nat sz) = Some decoded"
    using assms by (auto simp: data_chunk_def split: option.splits)
  obtain ok a r where rec: "record_bytes (of_nat sz) (rl_admission s) (rl_registry s) = (ok, a, r)"
    by (metis prod_cases3)
  define s0 where "s0 = s\<lparr>rl_decoded := decoded, rl_admission := a, rl_registry := r\<rparr>"
  have "then_do (read_until_available_or_drain (sz + 2) s0) (\<lambda>available s.
      if \<not> available then drained_out s
      else if take 2 (drop sz (rl_pending s)) \<noteq> [0x0D, 0x0A] then (Inl 502, s)
      else
        (let chunk = take sz (rl_pending s); s = s\<lparr>rl_pending := drop (sz + 2) (rl_pending s)\<rparr> in
         then_do (write_pending_header s) (\<lambda>_ s.
         then_do (write_long_lived (DownBody (Some chunk) False) s) (\<lambda>_ s. (Inr True, s))))) = (Inr True, s')"
    using assms dec rec by (simp add: data_chunk_def Let_def s0_def split: if_split_asm)
  then obtain s1 s2 w where
    s1: "read_until_available_or_drain (sz + 2) s0 = (Inr True, s1)" and
    s2: "write_pending_header (s1\<lparr>rl_pending := drop (sz + 2) (rl_pending s1)\<rparr>) = (Inr (), s2)" and
    s': "write_long_lived w s2 = (Inr (), s')"
    by (auto simp: Let_def drained_out_stops elim!: then_do_InrE split: if_split_asm)
  from read_until_available_bytes [OF s1] have "sz + 2 \<le> length (rl_pending s1)" "relay_bytes s1 = relay_bytes s"
    by (simp_all add: s0_def relay_bytes_def)
  moreover have "relay_bytes s' = relay_bytes (s1\<lparr>rl_pending := drop (sz + 2) (rl_pending s1)\<rparr>)"
    using write_pending_header_bytes [OF s2] write_long_lived_bytes [OF s'] by simp
  ultimately show ?thesis by (simp add: relay_bytes_def)
qed

lemma next_chunk_shorter:
  assumes "next_chunk s = (Inr True, s')"
  shows "relay_bytes s' < relay_bytes s"
proof -
  from assms obtain line s1 where
    s1: "read_until_crlf_or_drain s = (Inr line, s1)" and
    step: "(case line of
       None \<Rightarrow> drained_out s1
     | Some line_end \<Rightarrow>
         (case parse_chunk_size (take line_end (rl_pending s1)) of
            Inl e \<Rightarrow> (Inl e, s1)
          | Inr sz \<Rightarrow>
              (let s = s1\<lparr>rl_pending := drop (line_end + 2) (rl_pending s1)\<rparr> in
               if sz = 0 then last_chunk s else data_chunk sz s))) = (Inr True, s')"
    unfolding next_chunk_def by (elim then_do_InrE)
  from step obtain line_end sz where
    d: "data_chunk sz (s1\<lparr>rl_pending := drop (line_end + 2) (rl_pending s1)\<rparr>) = (Inr True, s')"
    by (cases line; cases "parse_chunk_size (take (the line) (rl_pending s1))")
      (auto simp: drained_out_stops Let_def split: if_split_asm)
  from read_until_crlf_bytes [OF s1] have "relay_bytes s1 = relay_bytes s" by simp
  with data_chunk_shorter [OF d] show ?thesis by (simp add: relay_bytes_def)
qed

function stream_loop :: "relay \<Rightarrow> (u16 + unit) \<times> relay" where
  "stream_loop s =
     (case next_chunk s of
        (Inl e, s) \<Rightarrow> (Inl e, s)
      | (Inr False, s) \<Rightarrow> (Inr (), s)
      | (Inr True, s) \<Rightarrow> stream_loop s)"
  by pat_completeness auto
termination
  by (relation "measure relay_bytes") (auto dest!: next_chunk_shorter [OF sym])

declare stream_loop.simps [simp del]

definition stream_chunked_worker_response ::
  "reads \<Rightarrow> response_header \<Rightarrow> u8 list \<Rightarrow> registry \<Rightarrow> downstream \<Rightarrow> (u16 + unit) \<times> registry \<times> downstream" where
  "stream_chunked_worker_response rs header pending reg d =
     (case try_admit reg of
        (None, reg) \<Rightarrow> (Inl 503, reg, d)
      | (Some a, reg) \<Rightarrow>
          (let (r, s) = stream_loop \<lparr>rl_header = Some header, rl_admission = a, rl_registry = reg, rl_down = d,
                 rl_reads = rs, rl_pending = pending, rl_decoded = 0\<rparr>
           in (r, admission_drop (rl_admission s) (rl_registry s), rl_down s)))"

section \<open>Reading the response\<close>

definition plain_read :: "reads \<Rightarrow> u16 + (u8 list \<times> reads)" where
  "plain_read rs =
     (case rs of
        [] \<Rightarrow> Inl 502
      | (_, RdFail) # rs \<Rightarrow> Inl 502
      | (_, RdBytes bs) # rs \<Rightarrow> Inr (bs, rs))"

lemma plain_read_shorter: "plain_read rs = Inr (bs, rs') \<Longrightarrow> length rs' < length rs"
  by (auto simp: plain_read_def split: list.splits worker_read.splits)

function read_response_head :: "u8 list \<Rightarrow> reads \<Rightarrow> u16 + (usize \<times> u8 list \<times> reads)" where
  "read_response_head response rs =
     (case plain_read rs of
        Inl e \<Rightarrow> Inl e
      | Inr (bs, rs) \<Rightarrow>
          if bs = [] then Inl 502
          else if length (response @ bs) > MAX_RESPONSE_BYTES then Inl 502
          else
            (case find_header_end (response @ bs) of
               Some header_end \<Rightarrow>
                 if header_end > MAX_RESPONSE_HEADER_BYTES then Inl 502 else Inr (header_end, response @ bs, rs)
             | None \<Rightarrow>
                 if length (response @ bs) > MAX_RESPONSE_HEADER_BYTES then Inl 502
                 else read_response_head (response @ bs) rs))"
  by pat_completeness auto
termination
  by (relation "measure (\<lambda>(_, rs). length rs)") (auto dest: plain_read_shorter)

function read_to_end :: "u8 list \<Rightarrow> reads \<Rightarrow> u16 + u8 list" where
  "read_to_end response rs =
     (case plain_read rs of
        Inl e \<Rightarrow> Inl e
      | Inr (bs, rs) \<Rightarrow>
          if bs = [] then Inr response
          else if length (response @ bs) > MAX_RESPONSE_BYTES then Inl 502
          else read_to_end (response @ bs) rs)"
  by pat_completeness auto
termination
  by (relation "measure (\<lambda>(_, rs). length rs)") (auto dest: plain_read_shorter)

declare read_response_head.simps [simp del] read_to_end.simps [simp del]

definition read_worker_response_and_write ::
  "reads \<Rightarrow> bool \<Rightarrow> registry \<Rightarrow> downstream \<Rightarrow> (u16 + u16) \<times> registry \<times> downstream" where
  "read_worker_response_and_write rs keepalive reg d =
     (case read_response_head [] rs of
        Inl e \<Rightarrow> (Inl e, reg, d)
      | Inr (header_end, response, rs) \<Rightarrow>
          (case worker_response_is_chunked (take header_end response) of
             Inl e \<Rightarrow> (Inl e, reg, d)
           | Inr True \<Rightarrow>
               (case parse_chunked_worker_response_head (take header_end response) keepalive of
                  Inl e \<Rightarrow> (Inl e, reg, d)
                | Inr (header, status) \<Rightarrow>
                    (let (r, reg, d) = stream_chunked_worker_response rs header (drop (header_end + 4) response) reg d
                     in (and_then r (\<lambda>_. Inr status), reg, d)))
           | Inr False \<Rightarrow>
               (case and_then (read_to_end response rs) (\<lambda>response. parse_worker_response response keepalive) of
                  Inl e \<Rightarrow> (Inl e, reg, d)
                | Inr resp \<Rightarrow> (let (r, d) = write_downstream_response resp d in (r, reg, d)))))"

end
