(* ===== verification/Frame_Response.thy ===== *)
theory Frame_Response
  imports Edge_Response Worker_Frame
begin

text \<open>
  The response half of \<open>crates/oxo-pingora-edge/src/platform/frame_hop.rs\<close>: the speculative read
  buffer, one request and response over a worker connection, and the relay of a streamed
  response.

  A connection carries the results its socket reads will have (bytes, none at the end of the
  stream; a reset; another failure), whether each request write will succeed, and the read
  buffer. The end of the list of reads or writes is one that runs into its timeout. What successive looks at
  the drain signal see is a list of flags, all later looks seeing no drain. Which header names
  and values the header library accepts is the parameter \<open>accepts\<close>.
\<close>

section \<open>The read buffer\<close>

datatype frame_read = FrBytes "u8 list" | FrReset | FrFail

record pooled_conn =
  pc_buf :: "u8 list"
  pc_pos :: usize
  pc_reads :: "frame_read list"
  pc_writes :: "bool list"

definition conn_new :: "frame_read list \<Rightarrow> bool list \<Rightarrow> pooled_conn" where
  "conn_new rs ws = \<lparr>pc_buf = [], pc_pos = 0, pc_reads = rs, pc_writes = ws\<rparr>"

definition write_ok :: "pooled_conn \<Rightarrow> bool" where
  "write_ok c = (case pc_writes c of [] \<Rightarrow> False | w # _ \<Rightarrow> w)"

definition available :: "pooled_conn \<Rightarrow> usize" where
  "available c = length (pc_buf c) - pc_pos c"

definition has_surplus :: "pooled_conn \<Rightarrow> bool" where
  "has_surplus c \<longleftrightarrow> available c > 0"

definition compact_buffer :: "pooled_conn \<Rightarrow> pooled_conn" where
  "compact_buffer c =
     (if pc_pos c = 0 then c
      else if available c = 0 then c\<lparr>pc_buf := [], pc_pos := 0\<rparr>
      else c\<lparr>pc_buf := drop (pc_pos c) (pc_buf c), pc_pos := 0\<rparr>)"

text \<open>One read: \<open>True\<close> when bytes arrived, \<open>False\<close> when the peer went away without answering.\<close>

definition read_some :: "bool \<Rightarrow> pooled_conn \<Rightarrow> (u16 + bool) \<times> pooled_conn" where
  "read_some eof_ok_at_zero c =
     (case pc_reads c of
        [] \<Rightarrow> (Inl 502, c)
      | r # rs \<Rightarrow>
          (let c' = c\<lparr>pc_reads := rs\<rparr>;
               gone = (if eof_ok_at_zero \<and> available c = 0 then Inr False else Inl 502) in
           case r of
             FrFail \<Rightarrow> (Inl 502, c')
           | FrReset \<Rightarrow> (gone, c')
           | FrBytes bs \<Rightarrow> if bs = [] then (gone, c') else (Inr True, c'\<lparr>pc_buf := pc_buf c @ bs\<rparr>)))"

lemma read_some_shorter:
  "read_some e c = (Inr True, c') \<Longrightarrow> length (pc_reads c') < length (pc_reads c)"
  by (auto simp: read_some_def Let_def split: list.splits frame_read.splits if_splits)

function fill_to :: "usize \<Rightarrow> bool \<Rightarrow> pooled_conn \<Rightarrow> (u16 + bool) \<times> pooled_conn" where
  "fill_to needed eof_ok_at_zero c =
     (if available c < needed then
        (case read_some eof_ok_at_zero c of
           (Inr True, c) \<Rightarrow> fill_to needed eof_ok_at_zero c
         | r \<Rightarrow> r)
      else (Inr True, c))"
  by pat_completeness auto
termination
  by (relation "measure (\<lambda>(_, _, c). length (pc_reads c))") (auto dest!: read_some_shorter [OF sym])

declare fill_to.simps [simp del]

definition prefix_bytes :: "pooled_conn \<Rightarrow> u8 list" where
  "prefix_bytes c = take PREFIX_LEN (drop (pc_pos c) (pc_buf c))"

definition buffered_frame_len :: "frame_caps \<Rightarrow> pooled_conn \<Rightarrow> u16 + usize option" where
  "buffered_frame_len caps c =
     (if available c < PREFIX_LEN then Inr None
      else
        (case FramePrefix_parse (prefix_bytes c) caps of
           Inl _ \<Rightarrow> Inl 502
         | Inr remaining \<Rightarrow>
             (let len = PREFIX_LEN + unat remaining
              in Inr (if available c \<ge> len then Some len else None))))"

definition decode_front :: "usize \<Rightarrow> frame_caps \<Rightarrow> pooled_conn \<Rightarrow> (u16 + response_frame) \<times> pooled_conn" where
  "decode_front len caps c =
     (case decode_response (drop PREFIX_LEN (take len (drop (pc_pos c) (pc_buf c)))) caps of
        Inl _ \<Rightarrow> (Inl 502, c)
      | Inr frame \<Rightarrow> (Inr frame, c\<lparr>pc_pos := pc_pos c + len\<rparr>))"

text \<open>The rest of a frame once its prefix is in the buffer; not interruptible.\<close>

definition complete_frame :: "frame_caps \<Rightarrow> pooled_conn \<Rightarrow> (u16 + response_frame) \<times> pooled_conn" where
  "complete_frame caps c =
     (case FramePrefix_parse (prefix_bytes c) caps of
        Inl _ \<Rightarrow> (Inl 502, c)
      | Inr remaining \<Rightarrow>
          (let len = PREFIX_LEN + unat remaining in
           then_do (fill_to len False c) (\<lambda>_ c. decode_front len caps c)))"

definition read_frame :: "frame_caps \<Rightarrow> bool \<Rightarrow> pooled_conn \<Rightarrow> (u16 + response_frame option) \<times> pooled_conn" where
  "read_frame caps first_of_exchange c =
     then_do (fill_to PREFIX_LEN first_of_exchange (compact_buffer c)) (\<lambda>filled c.
     if \<not> filled then (Inr None, c)
     else then_do (complete_frame caps c) (\<lambda>frame c. (Inr (Some frame), c)))"

definition drain_seen :: "bool list \<Rightarrow> bool" where
  "drain_seen ds = (case ds of [] \<Rightarrow> False | d # _ \<Rightarrow> d)"

text \<open>The wait for a prefix that draining interrupts: \<open>False\<close> when it did.\<close>

function fill_or_drain :: "usize \<Rightarrow> bool list \<times> pooled_conn \<Rightarrow> (u16 + bool) \<times> bool list \<times> pooled_conn" where
  "fill_or_drain needed (ds, c) =
     (if drain_seen ds then (Inr False, tl ds, c)
      else if available c < needed then
        (case read_some False c of
           (Inr True, c) \<Rightarrow> fill_or_drain needed (tl ds, c)
         | (r, c) \<Rightarrow> (r, tl ds, c))
      else (Inr True, tl ds, c))"
  by pat_completeness auto
termination
  by (relation "measure (\<lambda>(_, _, c). length (pc_reads c))") (auto dest!: read_some_shorter [OF sym])

declare fill_or_drain.simps [simp del]

definition read_frame_or_drain ::
  "frame_caps \<Rightarrow> bool list \<times> pooled_conn \<Rightarrow> (u16 + response_frame option) \<times> bool list \<times> pooled_conn" where
  "read_frame_or_drain caps dc =
     (let (ds, c) = dc; c = compact_buffer c in
      case buffered_frame_len caps c of
        Inl e \<Rightarrow> (Inl e, ds, c)
      | Inr (Some len) \<Rightarrow>
          (let (r, c) = decode_front len caps c in (and_then r (\<lambda>frame. Inr (Some frame)), ds, c))
      | Inr None \<Rightarrow>
          then_do (fill_or_drain PREFIX_LEN (ds, c)) (\<lambda>filled (ds, c).
          if \<not> filled then (Inr None, ds, c)
          else
            (let (r, c) = complete_frame caps c in (and_then r (\<lambda>frame. Inr (Some frame)), ds, c))))"

section \<open>Downstream headers\<close>

definition response_frame_caps :: frame_caps where
  "response_frame_caps =
     \<lparr>max_header_bytes = of_nat MAX_RESPONSE_HEADER_BYTES, max_headers = 100,
      max_body_bytes = (if MAX_RESPONSE_BYTES \<le> U32_MAX then of_nat MAX_RESPONSE_BYTES else - 1)\<rparr>"

definition is_framing_header :: "string \<Rightarrow> bool" where
  "is_framing_header name \<longleftrightarrow>
     eq_ignore_ascii_case name ''content-length'' \<or> eq_ignore_ascii_case name ''transfer-encoding'' \<or>
     eq_ignore_ascii_case name ''connection''"

fun append_headers :: "(header \<Rightarrow> bool) \<Rightarrow> response_header \<Rightarrow> header list \<Rightarrow> u16 + response_header" where
  "append_headers accepts header [] = Inr header"
| "append_headers accepts header (h # hs) =
     (if is_framing_header (fst h) then append_headers accepts header hs
      else if \<not> accepts h then Inl 502
      else append_headers accepts (header\<lparr>rh_fields := rh_fields header @ [h]\<rparr>) hs)"

definition build_response_header ::
  "(header \<Rightarrow> bool) \<Rightarrow> u16 \<Rightarrow> header list \<Rightarrow> usize \<Rightarrow> bool \<Rightarrow> u16 + response_header" where
  "build_response_header accepts status headers body_len keepalive =
     and_then (append_headers accepts \<lparr>rh_status = status, rh_fields = []\<rparr> headers) (\<lambda>header.
     Inr (add_close keepalive
       (header\<lparr>rh_fields := rh_fields header @ [(''Content-Length'', to_string body_len)]\<rparr>)))"

definition build_response_chunked_header ::
  "(header \<Rightarrow> bool) \<Rightarrow> u16 \<Rightarrow> header list \<Rightarrow> bool \<Rightarrow> u16 + response_header" where
  "build_response_chunked_header accepts status headers keepalive =
     and_then (append_headers accepts \<lparr>rh_status = status, rh_fields = []\<rparr> headers) (\<lambda>header.
     Inr (add_close keepalive header))"

section \<open>The streamed response\<close>

record frame_relay = relay_out +
  fr_drain :: "bool list"
  fr_conn :: pooled_conn
  fr_streamed :: u64

definition drained_end :: "frame_relay \<Rightarrow> (u16 + bool option) \<times> frame_relay" where
  "drained_end s = then_do (finish_drained_chunked_response s) (\<lambda>_ s. (Inr (Some False), s))"

definition relay_chunk :: "u8 list \<Rightarrow> frame_relay \<Rightarrow> (u16 + bool option) \<times> frame_relay" where
  "relay_chunk data s =
     (if data = [] then (Inr None, s)
      else
        (let s = s\<lparr>fr_streamed := saturating_add (fr_streamed s) (of_nat (length data))\<rparr> in
         if fr_streamed s > of_nat MAX_RESPONSE_BYTES then (Inl 502, s)
         else
           (let (ok, a, r) = record_bytes (of_nat (length data)) (rl_admission s) (rl_registry s);
                s = s\<lparr>rl_admission := a, rl_registry := r\<rparr>
            in
            if \<not> ok then (Inl 502, s)
            else
              then_do (write_pending_header s) (\<lambda>_ s.
              then_do (write_long_lived (DownBody (Some data) False) s) (\<lambda>_ s. (Inr None, s))))))"

definition relay_end :: "frame_relay \<Rightarrow> (u16 + bool option) \<times> frame_relay" where
  "relay_end s =
     then_do (write_pending_header s) (\<lambda>_ s.
     then_do (write_long_lived (DownBody None True) s) (\<lambda>_ s.
     (Inr (Some (\<not> has_surplus (fr_conn s))), s\<lparr>rl_admission := admission_complete (rl_admission s)\<rparr>)))"

text \<open>One pass: \<open>Some reusable\<close> when the loop returns, \<open>None\<close> when it goes on.\<close>

definition relay_step :: "frame_caps \<Rightarrow> frame_relay \<Rightarrow> (u16 + bool option) \<times> frame_relay" where
  "relay_step caps s =
     (let drained = drain_seen (fr_drain s); s = s\<lparr>fr_drain := tl (fr_drain s)\<rparr> in
      if drained then drained_end s
      else
        (let (r, ds, c) = read_frame_or_drain caps (fr_drain s, fr_conn s);
             s = s\<lparr>fr_drain := ds, fr_conn := c\<rparr>
         in
         case r of
           Inl e \<Rightarrow> (Inl e, s)
         | Inr None \<Rightarrow> drained_end s
         | Inr (Some (Resp_Chunk data)) \<Rightarrow> relay_chunk data s
         | Inr (Some Resp_End) \<Rightarrow> relay_end s
         | Inr (Some _) \<Rightarrow> (Inl 502, s)))"

section \<open>Byte accounting\<close>

text \<open>The bytes a connection still holds: unread buffer, then what its reads will deliver.\<close>

fun frame_read_bytes :: "frame_read \<Rightarrow> u8 list" where
  "frame_read_bytes (FrBytes bs) = bs"
| "frame_read_bytes _ = []"

definition conn_rest :: "pooled_conn \<Rightarrow> u8 list" where
  "conn_rest c = drop (pc_pos c) (pc_buf c) @ concat (map frame_read_bytes (pc_reads c))"

definition conn_ok :: "pooled_conn \<Rightarrow> bool" where
  "conn_ok c \<longleftrightarrow> pc_pos c \<le> length (pc_buf c)"

lemma compact_conn: "conn_ok (compact_buffer c)" "conn_rest (compact_buffer c) = conn_rest c"
  "available (compact_buffer c) = available c" "pc_reads (compact_buffer c) = pc_reads c"
  by (auto simp: compact_buffer_def conn_ok_def conn_rest_def available_def)

lemma read_some_conn:
  assumes "read_some e c = (Inr True, c')" and "conn_ok c"
  shows "conn_ok c' \<and> conn_rest c' = conn_rest c"
  using assms
  by (auto simp: read_some_def Let_def conn_ok_def conn_rest_def
      split: list.splits frame_read.splits if_splits)

lemma read_some_strict: "read_some False c \<noteq> (Inr False, c')"
  by (auto simp: read_some_def Let_def split: list.splits frame_read.splits if_splits)

lemma fill_to_conn:
  assumes "fill_to needed e c = (Inr True, c')" and "conn_ok c"
  shows "conn_ok c' \<and> conn_rest c' = conn_rest c \<and> needed \<le> available c'"
  using assms
proof (induction needed e c rule: fill_to.induct)
  case (1 needed e c)
  show ?case
  proof (cases "available c < needed")
    case True
    with "1.prems"(1) obtain c1 where "read_some e c = (Inr True, c1)" "fill_to needed e c1 = (Inr True, c')"
      by (subst (asm) fill_to.simps) (auto split: prod.splits sum.splits bool.splits)
    with "1.IH" True "1.prems"(2) read_some_conn show ?thesis by metis
  next
    case False
    with "1.prems" show ?thesis by (subst (asm) fill_to.simps) auto
  qed
qed

lemma fill_to_strict: "fill_to needed False c = (Inr b, c') \<Longrightarrow> b"
proof (induction needed False c rule: fill_to.induct)
  case (1 needed c)
  then show ?case
    using read_some_strict [of c c']
    by (subst (asm) (2) fill_to.simps) (auto split: if_splits prod.splits sum.splits bool.splits)
qed

lemma fill_or_drain_conn:
  assumes "fill_or_drain needed (ds, c) = (Inr True, ds', c')" and "conn_ok c"
  shows "conn_ok c' \<and> conn_rest c' = conn_rest c \<and> needed \<le> available c'"
  using assms
proof (induction needed "(ds, c)" arbitrary: ds c rule: fill_or_drain.induct)
  case (1 needed ds c)
  show ?case
  proof (cases "available c < needed")
    case True
    with "1.prems"(1) obtain c1 where "\<not> drain_seen ds" "read_some False c = (Inr True, c1)"
      "fill_or_drain needed (tl ds, c1) = (Inr True, ds', c')"
      by (subst (asm) fill_or_drain.simps) (auto split: if_splits prod.splits sum.splits bool.splits)
    with "1.hyps" True "1.prems"(2) read_some_conn show ?thesis by metis
  next
    case False
    with "1.prems" show ?thesis by (subst (asm) fill_or_drain.simps) (auto split: if_splits)
  qed
qed

lemma decode_front_wire:
  assumes "FramePrefix_parse (prefix_bytes c) caps = Inr n" and "len = PREFIX_LEN + unat n"
    and "len \<le> available c" and "decode_front len caps c = (Inr f, c')"
  shows "conn_rest c = response_wire f @ conn_rest c' \<and> conn_ok c' \<and> response_ok caps f"
proof -
  let ?b = "drop (pc_pos c) (pc_buf c)"
  let ?env = "drop PREFIX_LEN (take len ?b)"
  from assms(3) have len: "len \<le> length ?b" by (simp add: available_def)
  then have "length (prefix_bytes c) = PREFIX_LEN" using assms(2) by (simp add: prefix_bytes_def)
  from FramePrefix_parse_Inr(1) [OF this assms(1)]
  have pre: "take PREFIX_LEN ?b = [FRAME_MAGIC, FRAME_VERSION] @ u32_to_le_bytes n" by (simp add: prefix_bytes_def)
  from assms(4) have dec: "decode_response ?env caps = Inr f" and c': "c' = c\<lparr>pc_pos := pc_pos c + len\<rparr>"
    by (auto simp: decode_front_def split: sum.splits)
  then have f: "response_ok caps f" "?env = response_envelope f" by (simp_all add: response_env.decode_iff)
  have n: "of_nat (length ?env) = n" using len assms(2) by simp
  have "take len ?b = take PREFIX_LEN ?b @ ?env"
    using assms(2) append_take_drop_id [of PREFIX_LEN "take len ?b"] by (simp add: min_def)
  also have "\<dots> = response_wire f"
    unfolding pre using n by (simp only: f(2) response_wire_def frame_of_def append_assoc)
  finally have wire: "?b = response_wire f @ drop len ?b" using append_take_drop_id [of len ?b] by simp
  have "pc_pos c + len \<le> length (pc_buf c)" using assms(2,3) by (simp add: available_def PREFIX_LEN_def)
  moreover have "conn_rest c = (response_wire f @ drop len ?b) @ concat (map frame_read_bytes (pc_reads c))"
    unfolding conn_rest_def using wire by (rule arg_cong)
  ultimately show ?thesis
    using f(1) by (simp add: conn_rest_def c' conn_ok_def add.commute)
qed

lemma complete_frame_wire:
  assumes "complete_frame caps c = (Inr f, c')" and "conn_ok c" and "PREFIX_LEN \<le> available c"
  shows "conn_rest c = response_wire f @ conn_rest c' \<and> conn_ok c' \<and> response_ok caps f"
proof -
  from assms(1) obtain n b c1 where n: "FramePrefix_parse (prefix_bytes c) caps = Inr n"
    and fill: "fill_to (PREFIX_LEN + unat n) False c = (Inr b, c1)"
    and dec: "decode_front (PREFIX_LEN + unat n) caps c1 = (Inr f, c')"
    by (auto simp: complete_frame_def then_do_def Let_def split: sum.splits prod.splits)
  from fill fill_to_strict [OF fill] have fill': "fill_to (PREFIX_LEN + unat n) False c = (Inr True, c1)" by simp
  from fill_to_conn [OF this assms(2)]
  have c1: "conn_ok c1" "conn_rest c1 = conn_rest c" "PREFIX_LEN + unat n \<le> available c1" by simp_all
  have "prefix_bytes c1 = take PREFIX_LEN (conn_rest c1)" "prefix_bytes c = take PREFIX_LEN (conn_rest c)"
    using assms(3) c1(3) by (simp_all add: prefix_bytes_def conn_rest_def available_def)
  then have "FramePrefix_parse (prefix_bytes c1) caps = Inr n" using n c1(2) by simp
  from decode_front_wire [OF this refl c1(3) dec] c1(2) show ?thesis by simp
qed

lemma read_frame_wire_Some:
  assumes "read_frame caps first c = (Inr (Some f), c')"
  shows "conn_rest c = response_wire f @ conn_rest c' \<and> conn_ok c' \<and> response_ok caps f"
proof -
  from assms obtain c1 where fill: "fill_to PREFIX_LEN first (compact_buffer c) = (Inr True, c1)"
    and comp: "complete_frame caps c1 = (Inr f, c')"
    by (auto simp: read_frame_def then_do_def split: prod.splits sum.splits if_splits)
  from fill_to_conn [OF fill compact_conn(1)] have c1: "conn_ok c1" "conn_rest c1 = conn_rest c" "PREFIX_LEN \<le> available c1"
    by (simp_all add: compact_conn)
  from complete_frame_wire [OF comp c1(1,3)] c1(2) show ?thesis by simp
qed

lemma read_frame_or_drain_wire:
  assumes "read_frame_or_drain caps (ds, c) = (Inr (Some f), ds', c')"
  shows "conn_rest c = response_wire f @ conn_rest c' \<and> conn_ok c' \<and> response_ok caps f"
proof (cases "buffered_frame_len caps (compact_buffer c)")
  case (Inl e)
  with assms show ?thesis by (simp add: read_frame_or_drain_def)
next
  case (Inr m)
  show ?thesis
  proof (cases m)
    case (Some len)
    with Inr obtain n where n: "FramePrefix_parse (prefix_bytes (compact_buffer c)) caps = Inr n"
      "len = PREFIX_LEN + unat n" "len \<le> available (compact_buffer c)"
      by (auto simp: buffered_frame_len_def Let_def split: if_splits sum.splits)
    from assms Inr Some have "decode_front len caps (compact_buffer c) = (Inr f, c')"
      by (auto simp: read_frame_or_drain_def split: prod.splits elim!: and_then_InrE)
    from decode_front_wire [OF n this] show ?thesis by (simp add: compact_conn)
  next
    case None
    with assms Inr obtain c1 where fill: "fill_or_drain PREFIX_LEN (ds, compact_buffer c) = (Inr True, ds', c1)"
      and comp: "complete_frame caps c1 = (Inr f, c')"
      by (auto simp: read_frame_or_drain_def then_do_def split: prod.splits sum.splits if_splits elim!: and_then_InrE)
    from fill_or_drain_conn [OF fill compact_conn(1)]
    have c1: "conn_ok c1" "conn_rest c1 = conn_rest c" "PREFIX_LEN \<le> available c1" by (simp_all add: compact_conn)
    from complete_frame_wire [OF comp c1(1,3)] c1(2) show ?thesis by simp
  qed
qed

lemma fill_or_drain_drained:
  assumes "fill_or_drain needed (ds, c) = (Inr False, ds', c')" and "conn_ok c"
  shows "conn_ok c' \<and> conn_rest c' = conn_rest c"
  using assms
proof (induction needed "(ds, c)" arbitrary: ds c rule: fill_or_drain.induct)
  case (1 needed ds c)
  show ?case
  proof (cases "drain_seen ds")
    case True
    with "1.prems" show ?thesis by (subst (asm) fill_or_drain.simps) auto
  next
    case False
    with "1.prems"(1) obtain c1 where "available c < needed" "read_some False c = (Inr True, c1)"
      "fill_or_drain needed (tl ds, c1) = (Inr False, ds', c')"
      using read_some_strict [of c c']
      by (subst (asm) fill_or_drain.simps) (auto split: if_splits prod.splits sum.splits bool.splits)
    with "1.hyps" False "1.prems"(2) read_some_conn show ?thesis by metis
  qed
qed

lemma read_frame_or_drain_drained:
  assumes "read_frame_or_drain caps (ds, c) = (Inr None, ds', c')"
  shows "conn_rest c' = conn_rest c"
proof -
  from assms have "fill_or_drain PREFIX_LEN (ds, compact_buffer c) = (Inr False, ds', c')"
    by (auto simp: read_frame_or_drain_def then_do_def Let_def split: prod.splits sum.splits if_splits option.splits
        elim!: and_then_InrE)
  from fill_or_drain_drained [OF this compact_conn(1)] show ?thesis by (simp add: compact_conn)
qed

section \<open>Writes of the relay\<close>

definition pending_header :: "'z relay_out_scheme \<Rightarrow> down_write list" where
  "pending_header s = (case rl_header s of None \<Rightarrow> [] | Some h \<Rightarrow> [DownHeader h False])"

definition written :: "down_write list \<Rightarrow> 'z relay_out_scheme \<Rightarrow> 'z relay_out_scheme" where
  "written ws s = s\<lparr>rl_down := (rl_down s)\<lparr>dn_written := dn_written (rl_down s) @ ws\<rparr>\<rparr>"

lemma write_long_lived_Inr: "write_long_lived w s = (Inr u, s') \<Longrightarrow> s' = written [w] s"
  by (auto simp: write_long_lived_def write_down_def written_def split: option.splits)

lemma write_pending_header_Inr:
  "write_pending_header s = (Inr u, s') \<Longrightarrow> s' = written (pending_header s) (s\<lparr>rl_header := None\<rparr>)"
  by (cases "rl_header s")
    (auto simp: write_pending_header_def pending_header_def written_def dest!: write_long_lived_Inr)

lemma written_simps [simp]:
  "rl_header (written ws s) = rl_header s" "rl_admission (written ws s) = rl_admission s"
  "rl_registry (written ws s) = rl_registry s"
  "dn_written (rl_down (written ws s)) = dn_written (rl_down s) @ ws"
  "dn_fails (rl_down (written ws s)) = dn_fails (rl_down s)"
  by (simp_all add: written_def)

lemma written_frame [simp]:
  "fr_conn (written ws s) = fr_conn s" "fr_drain (written ws s) = fr_drain s" "fr_streamed (written ws s) = fr_streamed s"
  for s :: frame_relay
  by (simp_all add: written_def)

definition final_writes :: "'z relay_out_scheme \<Rightarrow> down_write list" where
  "final_writes s = pending_header s @ [DownBody None True]"

lemma drained_end_Inr:
  assumes "drained_end s = (Inr m, s')"
  shows "m = Some False \<and> dn_written (rl_down s') = dn_written (rl_down s) @ final_writes s \<and> fr_conn s' = fr_conn s"
  using assms
  by (auto simp: drained_end_def finish_drained_chunked_response_def then_do_def final_writes_def
      split: prod.splits sum.splits dest!: write_long_lived_Inr write_pending_header_Inr)

lemma relay_end_Inr:
  assumes "relay_end s = (Inr m, s')"
  shows "m = Some (available (fr_conn s) = 0) \<and>
    dn_written (rl_down s') = dn_written (rl_down s) @ final_writes s \<and> fr_conn s' = fr_conn s"
  using assms
  by (auto simp: relay_end_def then_do_def final_writes_def has_surplus_def
      split: prod.splits sum.splits dest!: write_long_lived_Inr write_pending_header_Inr)

lemma relay_chunk_Inr:
  assumes "relay_chunk data s = (Inr m, s')"
  shows "m = None \<and> fr_conn s' = fr_conn s \<and>
    (if data = [] then s' = s
     else rl_header s' = None \<and>
       dn_written (rl_down s') = dn_written (rl_down s) @ pending_header s @ [DownBody (Some data) False])"
proof (cases "data = []")
  case False
  let ?s1 = "s\<lparr>fr_streamed := saturating_add (fr_streamed s) (of_nat (length data)),
      rl_admission := fst (snd (record_bytes (of_nat (length data)) (rl_admission s) (rl_registry s))),
      rl_registry := snd (snd (record_bytes (of_nat (length data)) (rl_admission s) (rl_registry s)))\<rparr>"
  from assms False obtain u v s2 where "write_pending_header ?s1 = (Inr u, s2)"
    "write_long_lived (DownBody (Some data) False) s2 = (Inr v, s')" "m = None"
    by (auto simp: relay_chunk_def Let_def then_do_def split: prod.splits sum.splits if_splits)
  from this(3) write_long_lived_Inr [OF this(2)] write_pending_header_Inr [OF this(1)] False show ?thesis
    by (simp add: pending_header_def)
qed (use assms in \<open>simp add: relay_chunk_def\<close>)

section \<open>The loop ends\<close>

lemma response_wire_nonempty: "0 < length (response_wire f)"
  by (simp add: response_wire_def frame_of_def)

lemma relay_step_progress:
  assumes "relay_step caps s = (Inr None, s')"
  shows "length (conn_rest (fr_conn s')) < length (conn_rest (fr_conn s))"
proof -
  obtain r ds c where read: "read_frame_or_drain caps (tl (fr_drain s), fr_conn s) = (r, ds, c)"
    by (metis prod_cases3)
  from assms read obtain data where r: "r = Inr (Some (Resp_Chunk data))"
    and s': "relay_chunk data (s\<lparr>fr_drain := ds, fr_conn := c\<rparr>) = (Inr None, s')"
    by (auto simp: relay_step_def Let_def split: if_splits sum.splits option.splits response_frame.splits
        dest: drained_end_Inr relay_end_Inr)
  from read_frame_or_drain_wire [OF read [unfolded r]] relay_chunk_Inr [OF s'] show ?thesis
    using response_wire_nonempty [of "Resp_Chunk data"] by simp
qed

function relay_loop :: "frame_caps \<Rightarrow> frame_relay \<Rightarrow> (u16 + bool) \<times> frame_relay" where
  "relay_loop caps s =
     (case relay_step caps s of
        (Inl e, s) \<Rightarrow> (Inl e, s)
      | (Inr (Some reusable), s) \<Rightarrow> (Inr reusable, s)
      | (Inr None, s) \<Rightarrow> relay_loop caps s)"
  by pat_completeness auto
termination
  by (relation "measure (\<lambda>(_, s). length (conn_rest (fr_conn s)))") (auto dest!: relay_step_progress [OF sym])

declare relay_loop.simps [simp del]

section \<open>One exchange\<close>

datatype exchange_error = StaleBeforeDispatch bool | XStatus u16

fun exchange_error_status :: "exchange_error \<Rightarrow> u16" where
  "exchange_error_status (StaleBeforeDispatch _) = 502"
| "exchange_error_status (XStatus s) = s"

definition stream_frames_downstream ::
  "frame_caps \<Rightarrow> response_header \<Rightarrow> u16 \<Rightarrow> bool list \<Rightarrow> pooled_conn \<Rightarrow> registry \<Rightarrow> downstream
     \<Rightarrow> (u16 + u16 \<times> bool) \<times> pooled_conn \<times> registry \<times> downstream" where
  "stream_frames_downstream caps header status ds c reg d =
     (case try_admit reg of
        (None, reg) \<Rightarrow> (Inl 503, c, reg, d)
      | (Some a, reg) \<Rightarrow>
          (let (r, s) = relay_loop caps \<lparr>rl_header = Some header, rl_admission = a, rl_registry = reg, rl_down = d,
                 fr_drain = ds, fr_conn = c, fr_streamed = 0\<rparr>
           in (and_then r (\<lambda>reusable. Inr (status, reusable)), fr_conn s,
               admission_drop (rl_admission s) (rl_registry s), rl_down s)))"

definition write_full ::
  "response_header \<Rightarrow> u16 \<Rightarrow> u8 list \<Rightarrow> bool \<Rightarrow> downstream \<Rightarrow> (u16 + u16 \<times> bool) \<times> downstream" where
  "write_full header status body reusable d =
     then_do (write_with_timeout (DownHeader header False) d) (\<lambda>_ d.
     then_do (write_with_timeout (DownBody (Some body) True) d) (\<lambda>_ d. (Inr (status, reusable), d)))"

definition exchange_frames ::
  "(header \<Rightarrow> bool) \<Rightarrow> frame_caps \<Rightarrow> bool \<Rightarrow> bool list \<Rightarrow> pooled_conn \<Rightarrow> registry \<Rightarrow> downstream
     \<Rightarrow> (exchange_error + u16 \<times> bool) \<times> pooled_conn \<times> registry \<times> downstream" where
  "exchange_frames accepts caps keepalive ds c reg d =
     (let written = write_ok c; c = c\<lparr>pc_writes := tl (pc_writes c)\<rparr> in
      if \<not> written then (Inl (StaleBeforeDispatch False), c, reg, d)
      else
        (case read_frame caps True c of
           (Inl status, c) \<Rightarrow> (Inl (XStatus status), c, reg, d)
         | (Inr None, c) \<Rightarrow> (Inl (StaleBeforeDispatch True), c, reg, d)
         | (Inr (Some first), c) \<Rightarrow>
             (case first of
                Resp_Full status headers body \<Rightarrow>
                  (case build_response_header accepts status headers (length body) keepalive of
                     Inl e \<Rightarrow> (Inl (XStatus e), c, reg, d)
                   | Inr header \<Rightarrow>
                       (let (r, d) = write_full header status body (\<not> has_surplus c) d
                        in (map_err XStatus r, c, reg, d)))
              | Resp_Head status headers \<Rightarrow>
                  (case build_response_chunked_header accepts status headers keepalive of
                     Inl e \<Rightarrow> (Inl (XStatus e), c, reg, d)
                   | Inr header \<Rightarrow>
                       (let (r, c, reg, d) = stream_frames_downstream caps header status ds c reg d
                        in (map_err XStatus r, c, reg, d)))
              | _ \<Rightarrow> (Inl (XStatus 502), c, reg, d))))"

section \<open>What an exchange did\<close>

definition chunk_writes :: "u8 list list \<Rightarrow> down_write list" where
  "chunk_writes chunks = map (\<lambda>c. DownBody (Some c) False) (filter (\<lambda>c. c \<noteq> []) chunks)"

definition stream_wire :: "u8 list list \<Rightarrow> bool \<Rightarrow> u8 list" where
  "stream_wire chunks ended =
     concat (map response_wire (map Resp_Chunk chunks @ (if ended then [Resp_End] else [])))"

definition relay_record :: "frame_relay \<Rightarrow> u8 list list \<Rightarrow> bool \<Rightarrow> bool \<Rightarrow> frame_relay \<Rightarrow> bool" where
  "relay_record s chunks ended reusable s' \<longleftrightarrow>
     conn_rest (fr_conn s) = stream_wire chunks ended @ conn_rest (fr_conn s') \<and>
     dn_written (rl_down s') = dn_written (rl_down s) @ pending_header s @ chunk_writes chunks @ [DownBody None True] \<and>
     reusable = (ended \<and> available (fr_conn s') = 0)"

lemma relay_step_Some:
  assumes "relay_step caps s = (Inr (Some reusable), s')"
  shows "\<exists>ended. relay_record s [] ended reusable s'"
proof -
  obtain r ds c where read: "read_frame_or_drain caps (tl (fr_drain s), fr_conn s) = (r, ds, c)"
    by (metis prod_cases3)
  let ?s = "s\<lparr>fr_drain := ds, fr_conn := c\<rparr>"
  from assms read consider
      (top) "drained_end (s\<lparr>fr_drain := tl (fr_drain s)\<rparr>) = (Inr (Some reusable), s')"
    | (mid) "r = Inr None" "drained_end ?s = (Inr (Some reusable), s')"
    | (fin) "r = Inr (Some Resp_End)" "relay_end ?s = (Inr (Some reusable), s')"
    by (auto simp: relay_step_def Let_def split: if_splits sum.splits option.splits response_frame.splits
        dest: relay_chunk_Inr)
  then show ?thesis
  proof cases
    case top
    from drained_end_Inr [OF this] show ?thesis
      by (intro exI [of _ False]) (simp add: relay_record_def final_writes_def pending_header_def chunk_writes_def stream_wire_def)
  next
    case mid
    from drained_end_Inr [OF mid(2)] read_frame_or_drain_drained [OF read [unfolded mid(1)]] show ?thesis
      by (intro exI [of _ False]) (simp add: relay_record_def final_writes_def pending_header_def chunk_writes_def stream_wire_def)
  next
    case fin
    from relay_end_Inr [OF fin(2)] read_frame_or_drain_wire [OF read [unfolded fin(1)]] show ?thesis
      by (intro exI [of _ True]) (simp add: relay_record_def final_writes_def pending_header_def chunk_writes_def stream_wire_def)
  qed
qed

lemma relay_step_None:
  assumes "relay_step caps s = (Inr None, s')"
  obtains data where "conn_rest (fr_conn s) = response_wire (Resp_Chunk data) @ conn_rest (fr_conn s')"
    and "dn_written (rl_down s') @ pending_header s' =
      dn_written (rl_down s) @ pending_header s @ chunk_writes [data]"
proof -
  obtain r ds c where read: "read_frame_or_drain caps (tl (fr_drain s), fr_conn s) = (r, ds, c)"
    by (metis prod_cases3)
  let ?s = "s\<lparr>fr_drain := ds, fr_conn := c\<rparr>"
  from assms read obtain data where r: "r = Inr (Some (Resp_Chunk data))"
    and s': "relay_chunk data ?s = (Inr None, s')"
    by (auto simp: relay_step_def Let_def split: if_splits sum.splits option.splits response_frame.splits
        dest: drained_end_Inr relay_end_Inr)
  from relay_chunk_Inr [OF s'] read_frame_or_drain_wire [OF read [unfolded r]] show thesis
    by (intro that [of data]) (auto simp: chunk_writes_def pending_header_def split: if_splits)
qed

lemma relay_loop_exact:
  "relay_loop caps s = (Inr reusable, s') \<Longrightarrow> \<exists>chunks ended. relay_record s chunks ended reusable s'"
proof (induction caps s rule: relay_loop.induct)
  case (1 caps s)
  obtain r s1 where step: "relay_step caps s = (r, s1)" by (metis surj_pair)
  show ?case
  proof (cases r)
    case (Inl e)
    with "1.prems" step show ?thesis by (subst (asm) relay_loop.simps) simp
  next
    case (Inr m)
    show ?thesis
    proof (cases m)
      case (Some b)
      with "1.prems" step Inr show ?thesis
        by (subst (asm) relay_loop.simps) (auto dest!: relay_step_Some)
    next
      case None
      with Inr step have s1: "relay_step caps s = (Inr None, s1)" by simp
      with "1.prems" have "relay_loop caps s1 = (Inr reusable, s')" by (subst (asm) relay_loop.simps) simp
      with "1.IH" s1 obtain chunks ended where ih: "relay_record s1 chunks ended reusable s'" by fastforce
      from relay_step_None [OF s1] obtain data where
        "conn_rest (fr_conn s) = response_wire (Resp_Chunk data) @ conn_rest (fr_conn s1)"
        "dn_written (rl_down s1) @ pending_header s1 = dn_written (rl_down s) @ pending_header s @ chunk_writes [data]"
        by metis
      with ih have "relay_record s (data # chunks) ended reusable s'"
        by (simp add: relay_record_def stream_wire_def chunk_writes_def)
      then show ?thesis by blast
    qed
  qed
qed

lemma append_headers_Inr:
  "append_headers accepts header hs = Inr header' \<longleftrightarrow>
     list_all accepts (filter (\<lambda>h. \<not> is_framing_header (fst h)) hs) \<and>
     header' = header\<lparr>rh_fields := rh_fields header @ filter (\<lambda>h. \<not> is_framing_header (fst h)) hs\<rparr>"
  by (induction accepts header hs rule: append_headers.induct) auto

text \<open>The header the client sees for a status and the worker's headers.\<close>

definition client_header :: "bool \<Rightarrow> u16 \<Rightarrow> header list \<Rightarrow> header list \<Rightarrow> response_header" where
  "client_header keepalive status headers framing =
     add_close keepalive \<lparr>rh_status = status, rh_fields = filter (\<lambda>h. \<not> is_framing_header (fst h)) headers @ framing\<rparr>"

lemma build_response_header_Inr:
  "build_response_header accepts status headers n keepalive = Inr h \<Longrightarrow>
     h = client_header keepalive status headers [(''Content-Length'', to_string n)]"
  "build_response_chunked_header accepts status headers keepalive = Inr h \<Longrightarrow>
     h = client_header keepalive status headers []"
  by (auto simp: build_response_header_def build_response_chunked_header_def client_header_def append_headers_Inr
      and_then_eq_Inr)

lemma write_full_Inr:
  "write_full header status body reusable d = (Inr x, d') \<Longrightarrow>
     x = (status, reusable) \<and>
     dn_written d' = dn_written d @ [DownHeader header False, DownBody (Some body) True]"
  by (auto simp: write_full_def then_do_def write_with_timeout_def write_down_def Let_def map_err_def
      split: prod.splits sum.splits option.splits)

text \<open>
  C6: Every successful exchange relayed exactly one response and knows whether the connection may
  be reused. Whatever the worker's bytes, however they are cut into reads, and whenever draining
  begins: the bytes taken from the connection are the encoding of one full response, or of a
  head and chunks, with its end frame unless draining cut it short; the client was written that
  status, the worker's headers without the framing ones, and those body bytes in order, properly
  ended; and the connection is reported reusable exactly when the response ended and no byte is
  left in the buffer. So a connection on which the worker spoke out of turn, or whose response
  was cut short, never returns to the pool.
\<close>
theorem exchange_exact:
  assumes "exchange_frames accepts caps keepalive ds c reg d = (Inr (status, reusable), c', reg', d')"
  shows "(\<exists>headers body.
      conn_rest c = response_wire (Resp_Full status headers body) @ conn_rest c' \<and>
      reusable = (available c' = 0) \<and>
      dn_written d' = dn_written d @
        [DownHeader (client_header keepalive status headers [(''Content-Length'', to_string (length body))]) False,
         DownBody (Some body) True]) \<or>
    (\<exists>headers chunks ended.
      conn_rest c = response_wire (Resp_Head status headers) @ stream_wire chunks ended @ conn_rest c' \<and>
      reusable = (ended \<and> available c' = 0) \<and>
      dn_written d' = dn_written d @
        [DownHeader (client_header keepalive status headers []) False] @ chunk_writes chunks @ [DownBody None True])"
proof -
  let ?c = "c\<lparr>pc_writes := tl (pc_writes c)\<rparr>"
  from assms obtain first c1 where read: "read_frame caps True ?c = (Inr (Some first), c1)"
    by (auto simp: exchange_frames_def Let_def split: if_splits prod.splits sum.splits option.splits)
  have "conn_rest ?c = conn_rest c" by (simp add: conn_rest_def)
  note wire = read_frame_wire_Some [OF read, unfolded this]
  show ?thesis
  proof (cases first)
    case (Resp_Full st headers body)
    with assms read obtain header where
      "build_response_header accepts st headers (length body) keepalive = Inr header"
      "write_full header st body (\<not> has_surplus c1) d = (Inr (status, reusable), d')" "c' = c1"
      by (auto simp: exchange_frames_def Let_def map_err_eq_Inr split: if_splits sum.splits prod.splits)
    with write_full_Inr build_response_header_Inr(1) wire Resp_Full show ?thesis
      by (fastforce simp: has_surplus_def)
  next
    case (Resp_Head st headers)
    with assms read obtain header where
      h: "build_response_chunked_header accepts st headers keepalive = Inr header"
      and st: "stream_frames_downstream caps header st ds c1 reg d = (Inr (status, reusable), c', reg', d')"
      by (auto simp: exchange_frames_def Let_def map_err_eq_Inr split: if_splits sum.splits prod.splits)
    then obtain a reg1 s' where
      "relay_loop caps \<lparr>rl_header = Some header, rl_admission = a, rl_registry = reg1, rl_down = d,
         fr_drain = ds, fr_conn = c1, fr_streamed = 0\<rparr> = (Inr reusable, s')"
      "fr_conn s' = c'" "rl_down s' = d'" "status = st"
      by (auto simp: stream_frames_downstream_def and_then_eq_Inr Let_def split: prod.splits option.splits)
    with relay_loop_exact [OF this(1)] build_response_header_Inr(2) [OF h] wire Resp_Head show ?thesis
      by (fastforce simp: relay_record_def pending_header_def)
  qed (use assms read in \<open>auto simp: exchange_frames_def Let_def split: if_splits\<close>)
qed

end
