(* ===== verification/Frame_Dispatch.thy ===== *)
theory Frame_Dispatch
  imports Edge_Cli "HOL-Library.AList" "HOL-Library.Multiset" "HOL-Library.Product_Lexorder"
begin

text \<open>
  The \<open>dispatch\<close> and \<open>worker_kind\<close> modules of
  \<open>crates/oxo-pingora-edge/src/platform/frame_hop.rs\<close>: in which order workers are tried, the
  affinity of connections to workers, and the admission of attempts under a per-worker cap.

  The gauges are a function from worker index to the number of attempts in flight; a function
  that reads them takes the values it observes. Critical sections under a shard lock are atomic;
  the pin counters they update are atomic additions, which commute. The affinity store has one
  association list per shard. Counters of the \<open>hop-timing\<close> feature are absent, as in the default
  build.
\<close>

section \<open>Modes\<close>

definition MAX_WORKERS :: usize where "MAX_WORKERS = 16"

datatype dispatch_mode = Rr | LeastOutstanding | FreeFirst | Sticky

definition parse_mode :: "string \<Rightarrow> dispatch_mode option" where
  "parse_mode v =
     (if v = ''rr'' then Some Rr
      else if v = ''least-outstanding'' then Some LeastOutstanding
      else if v = ''free-first'' then Some FreeFirst
      else if v = ''sticky'' then Some Sticky
      else None)"

fun mode_name :: "dispatch_mode \<Rightarrow> string" where
  "mode_name Rr = ''rr''"
| "mode_name LeastOutstanding = ''least-outstanding''"
| "mode_name FreeFirst = ''free-first''"
| "mode_name Sticky = ''sticky''"

text \<open>The mode a process uses when none was configured: the environment's, or the default.\<close>

definition env_mode :: "string option \<Rightarrow> dispatch_mode" where
  "env_mode v =
     (if v = Some ''rr'' then Rr
      else if v = Some ''free-first'' then FreeFirst
      else if v = Some ''sticky'' then Sticky
      else LeastOutstanding)"

datatype edge_worker_kind = Classic | Async

definition parse_kind :: "string \<Rightarrow> edge_worker_kind option" where
  "parse_kind v = (if v = ''classic'' then Some Classic else if v = ''async'' then Some Async else None)"

definition env_kind :: "string option \<Rightarrow> edge_worker_kind" where
  "env_kind v = (if v = Some ''async'' then Async else Classic)"

text \<open>\<open>cap\<close>: the environment's cap, when it parses and is at least one.\<close>

definition env_cap :: "string option \<Rightarrow> usize option" where
  "env_cap v =
     (case v of
        None \<Rightarrow> None
      | Some s \<Rightarrow> (case parse_uint U64_MAX s of Some k \<Rightarrow> if k \<ge> 1 then Some k else None | None \<Rightarrow> None))"

section \<open>Candidate order\<close>

type_synonym gauges = "usize \<Rightarrow> usize"

datatype candidate_order = Rotated usize usize | Ordered "usize list"

fun candidate_iter :: "candidate_order \<Rightarrow> usize list" where
  "candidate_iter (Rotated start n) = map (\<lambda>k. (start + k) mod n) [0..<n]"
| "candidate_iter (Ordered buf) = buf"

definition gauge_depth :: "gauges \<Rightarrow> usize \<Rightarrow> usize" where
  "gauge_depth g i = g (min i (MAX_WORKERS - 1))"

text \<open>\<open>rotate_right(1)\<close> on the first \<open>pos + 1\<close> entries.\<close>

definition promote :: "usize \<Rightarrow> 'a list \<Rightarrow> 'a list" where
  "promote pos xs = xs ! pos # take pos xs @ drop (Suc pos) xs"

fun position :: "('a \<Rightarrow> bool) \<Rightarrow> 'a list \<Rightarrow> usize option" where
  "position P [] = None"
| "position P (x # xs) = (if P x then Some 0 else map_option Suc (position P xs))"

definition candidate_order_with :: "gauges \<Rightarrow> usize \<Rightarrow> usize \<Rightarrow> dispatch_mode \<Rightarrow> candidate_order" where
  "candidate_order_with g start n m =
     (if m = Rr then Rotated start n
      else
        (let buf = map (\<lambda>k. (start + k) mod n) [0..<min n MAX_WORKERS] in
         Ordered
           (if m = FreeFirst then
              (if buf \<noteq> [] \<and> gauge_depth g (buf ! 0) > 0 then
                 (case position (\<lambda>i. gauge_depth g i = 0) buf of Some pos \<Rightarrow> promote pos buf | None \<Rightarrow> buf)
               else buf)
            else sort_key (gauge_depth g) buf)))"

definition sticky_order :: "usize \<Rightarrow> usize \<Rightarrow> usize \<Rightarrow> candidate_order" where
  "sticky_order pinned start n =
     (let len = min n MAX_WORKERS; first = min pinned (len - 1) in
      Ordered (first # filter (\<lambda>i. i \<noteq> first) (map (\<lambda>k. (start + k) mod len) [0..<len])))"

section \<open>Affinity\<close>

definition STICKY_SHARDS :: usize where "STICKY_SHARDS = 16"
definition STICKY_SHARD_MAX :: usize where "STICKY_SHARD_MAX = 4096 div STICKY_SHARDS"

record sticky_store =
  st_shards :: "usize \<Rightarrow> (u64 \<times> u8) list"
  st_pins :: "usize \<Rightarrow> int"
  st_hits :: nat
  st_misses :: nat
  st_fallbacks :: nat
  st_evicted :: nat

definition sticky_new :: sticky_store where
  "sticky_new = \<lparr>st_shards = (\<lambda>_. []), st_pins = (\<lambda>_. 0), st_hits = 0, st_misses = 0, st_fallbacks = 0, st_evicted = 0\<rparr>"

definition sticky_shard :: "u64 \<Rightarrow> usize" where
  "sticky_shard key = unat key mod STICKY_SHARDS"

definition sticky_get :: "u64 \<Rightarrow> sticky_store \<Rightarrow> u8 option" where
  "sticky_get key st = map_of (st_shards st (sticky_shard key)) key"

definition add_pin :: "int \<Rightarrow> usize \<Rightarrow> sticky_store \<Rightarrow> sticky_store" where
  "add_pin d i st = st\<lparr>st_pins := (st_pins st)(i := st_pins st i + d)\<rparr>"

definition store_pin :: "u64 \<Rightarrow> u8 \<Rightarrow> sticky_store \<Rightarrow> sticky_store" where
  "store_pin key idx st =
     st\<lparr>st_shards := (st_shards st)(sticky_shard key := AList.update key idx (st_shards st (sticky_shard key)))\<rparr>"

definition sticky_note_fallback :: "sticky_store \<Rightarrow> sticky_store" where
  "sticky_note_fallback st = st\<lparr>st_fallbacks := st_fallbacks st + 1\<rparr>"

text \<open>The drain of a full shard.\<close>

definition clear_shard :: "usize \<Rightarrow> sticky_store \<Rightarrow> sticky_store" where
  "clear_shard sh st =
     fold (\<lambda>(_, old) st. if unat old < MAX_WORKERS then add_pin (-1) (unat old) st else st) (st_shards st sh)
       (st\<lparr>st_shards := (st_shards st)(sh := []), st_evicted := st_evicted st + length (st_shards st sh)\<rparr>)"

text \<open>\<open>min_by_key\<close> over (pins, in flight, index): the first least one.\<close>

fun min_by_key :: "('a \<Rightarrow> 'k::linorder) \<Rightarrow> 'a list \<Rightarrow> 'a option" where
  "min_by_key f [] = None"
| "min_by_key f (x # xs) =
     (case min_by_key f xs of None \<Rightarrow> Some x | Some y \<Rightarrow> if f x \<le> f y then Some x else Some y)"

definition fewest_pins :: "gauges \<Rightarrow> usize \<Rightarrow> sticky_store \<Rightarrow> usize" where
  "fewest_pins g len st =
     (case min_by_key (\<lambda>i. (st_pins st i, g i, i)) [0..<len] of Some i \<Rightarrow> i | None \<Rightarrow> 0)"

text \<open>The insertion under the assignment and the shard lock.\<close>

definition sticky_insert :: "u64 \<Rightarrow> usize \<Rightarrow> sticky_store \<Rightarrow> sticky_store" where
  "sticky_insert key idx st =
     (let sh = sticky_shard key;
          st = (if length (st_shards st sh) \<ge> STICKY_SHARD_MAX then clear_shard sh st else st);
          prev = sticky_get key st;
          st = store_pin key (of_nat idx) st;
          st = (case prev of
                  Some p \<Rightarrow> if unat p < MAX_WORKERS then add_pin (-1) (unat p) st else st
                | None \<Rightarrow> st)
      in add_pin 1 idx st)"

definition sticky_lookup_or_assign :: "gauges \<Rightarrow> u64 \<Rightarrow> usize \<Rightarrow> sticky_store \<Rightarrow> usize \<times> sticky_store" where
  "sticky_lookup_or_assign g key n st =
     (let len = min n MAX_WORKERS;
          assign = (let st = st\<lparr>st_misses := st_misses st + 1\<rparr>; idx = fewest_pins g len st
                    in (idx, sticky_insert key idx st))
      in
      case sticky_get key st of
        Some idx \<Rightarrow> if unat idx < len then (unat idx, st\<lparr>st_hits := st_hits st + 1\<rparr>) else assign
      | None \<Rightarrow> assign)"

definition sticky_reread :: "u64 \<Rightarrow> usize \<Rightarrow> sticky_store \<Rightarrow> usize \<times> sticky_store" where
  "sticky_reread key prior st =
     (case sticky_get key st of
        Some idx \<Rightarrow> (unat idx, st)
      | None \<Rightarrow> (prior, add_pin 1 (min prior (MAX_WORKERS - 1)) (store_pin key (of_nat prior) st)))"

definition sticky_repin :: "u64 \<Rightarrow> usize \<Rightarrow> usize \<Rightarrow> sticky_store \<Rightarrow> sticky_store" where
  "sticky_repin key from_idx to_idx st =
     (if sticky_get key st = Some (of_nat from_idx)
      then add_pin 1 (min to_idx (MAX_WORKERS - 1)) (add_pin (-1) (min from_idx (MAX_WORKERS - 1))
             (store_pin key (of_nat to_idx) st))
      else st)"

definition sticky_entries :: "sticky_store \<Rightarrow> nat" where
  "sticky_entries st = sum_list (map (\<lambda>sh. length (st_shards st sh)) [0..<STICKY_SHARDS])"

section \<open>Admission under a cap\<close>

text \<open>
  \<open>try_acquire\<close> run without interference, the release of its guard, and the check of a parked
  request.
\<close>

definition try_acquire :: "usize \<Rightarrow> usize option \<Rightarrow> gauges \<Rightarrow> usize option \<times> gauges" where
  "try_acquire idx k g =
     (let idx = min idx (MAX_WORKERS - 1) in
      case k of
        None \<Rightarrow> (Some idx, g(idx := g idx + 1))
      | Some kv \<Rightarrow> if g idx \<ge> kv then (None, g) else (Some idx, g(idx := g idx + 1)))"

definition guard_drop :: "usize \<Rightarrow> gauges \<Rightarrow> gauges" where
  "guard_drop idx g = g(idx := g idx - 1)"

definition any_admittable :: "gauges \<Rightarrow> u32 \<Rightarrow> usize \<Rightarrow> bool" where
  "any_admittable g mask_bits k \<longleftrightarrow>
     list_ex (\<lambda>i. g i < k) (filter (\<lambda>i. mask_bits AND push_bit i 1 \<noteq> 0) [0..<MAX_WORKERS])"

text \<open>
  A parked request looks again whenever it is woken or the drain signal changes: each look sees
  whether draining has begun, and the gauges. \<open>None\<close> when it is still parked after all looks.
\<close>

fun park_for_slot :: "u32 \<Rightarrow> usize \<Rightarrow> (bool \<times> gauges) list \<Rightarrow> (u16 + unit) option" where
  "park_for_slot mask_bits k [] = None"
| "park_for_slot mask_bits k ((draining, g) # looks) =
     (if draining then Some (Inl 503)
      else if any_admittable g mask_bits k then Some (Inr ())
      else park_for_slot mask_bits k looks)"

text \<open>
  The compare-and-swap loop of the capped path, interleaved with other threads: a load, failed
  and successful exchanges, and the release.
\<close>

datatype cap_thread = Outside | Loaded usize usize | Holding usize

record cap_state =
  cp_in_flight :: gauges
  cp_threads :: "nat \<Rightarrow> cap_thread"

definition cap_start :: cap_state where
  "cap_start = \<lparr>cp_in_flight = (\<lambda>_. 0), cp_threads = (\<lambda>_. Outside)\<rparr>"

definition set_thread :: "nat \<Rightarrow> cap_thread \<Rightarrow> cap_state \<Rightarrow> cap_state" where
  "set_thread t v s = s\<lparr>cp_threads := (cp_threads s)(t := v)\<rparr>"

inductive cap_step :: "usize \<Rightarrow> cap_state \<Rightarrow> cap_state \<Rightarrow> bool" for k where
  load: "cp_threads s t = Outside \<Longrightarrow> i = min idx (MAX_WORKERS - 1) \<Longrightarrow>
    cap_step k s (set_thread t (Loaded i (cp_in_flight s i)) s)"
| refuse: "cp_threads s t = Loaded i cur \<Longrightarrow> cur \<ge> k \<Longrightarrow> cap_step k s (set_thread t Outside s)"
| swap: "cp_threads s t = Loaded i cur \<Longrightarrow> cur < k \<Longrightarrow> cp_in_flight s i = cur \<Longrightarrow>
    cap_step k s (set_thread t (Holding i) (s\<lparr>cp_in_flight := (cp_in_flight s)(i := cur + 1)\<rparr>))"
| retry: "cp_threads s t = Loaded i cur \<Longrightarrow> cur < k \<Longrightarrow> cp_in_flight s i \<noteq> cur \<Longrightarrow>
    cap_step k s (set_thread t (Loaded i (cp_in_flight s i)) s)"
| release: "cp_threads s t = Holding i \<Longrightarrow>
    cap_step k s (set_thread t Outside (s\<lparr>cp_in_flight := guard_drop i (cp_in_flight s)\<rparr>))"

section \<open>Every worker is a candidate\<close>

lemma rotation_is_rotate: "map (\<lambda>k. (start + k) mod n) [0..<n] = rotate start [0..<n]"
  by (rule nth_equalityI) (auto simp: nth_rotate add.commute)

lemma mset_rotation: "mset (map (\<lambda>k. (start + k) mod n) [0..<n]) = mset [0..<n]"
  unfolding rotation_is_rotate by (rule set_eq_iff_mset_eq_distinct [THEN iffD1]) simp_all

lemma mset_promote: "pos < length xs \<Longrightarrow> mset (promote pos xs) = mset xs"
  by (subst (2) id_take_nth_drop [of pos xs]) (simp_all add: promote_def)

lemma position_Some: "position P xs = Some pos \<Longrightarrow> pos < length xs \<and> P (xs ! pos)"
  by (induction xs arbitrary: pos) (auto split: if_splits)

lemma position_None: "position P xs = None \<longleftrightarrow> (\<forall>x \<in> set xs. \<not> P x)"
  by (induction xs) auto

lemma gauge_depth_small: "i < MAX_WORKERS \<Longrightarrow> gauge_depth g i = g i"
  by (simp add: gauge_depth_def MAX_WORKERS_def min_def)

lemma candidates_small:
  assumes "n \<le> MAX_WORKERS"
  shows "mset (candidate_iter (candidate_order_with g start n m)) = mset [0..<n]"
proof -
  have "min n MAX_WORKERS = n" using assms by simp
  then show ?thesis
    using mset_rotation [of start n]
    by (auto simp: candidate_order_with_def Let_def mset_promote dest!: position_Some split: option.split)
qed

lemma mset_move_front: "distinct xs \<Longrightarrow> x \<in> set xs \<Longrightarrow> mset (x # filter (\<lambda>i. i \<noteq> x) xs) = mset xs"
  by (intro set_eq_iff_mset_eq_distinct [THEN iffD1]) auto

lemma sticky_candidates:
  assumes "0 < n" and "n \<le> MAX_WORKERS" and "pinned < n"
  shows "mset (candidate_iter (sticky_order pinned start n)) = mset [0..<n]"
proof -
  have len: "min n MAX_WORKERS = n" "min pinned (n - 1) = pinned" using assms by simp_all
  have "mset (pinned # filter (\<lambda>i. i \<noteq> pinned) (rotate start [0..<n])) = mset (rotate start [0..<n])"
    using assms(3) by (intro mset_move_front) simp_all
  then show ?thesis
    using mset_rotation [of start n]
    by (simp only: sticky_order_def Let_def len candidate_iter.simps rotation_is_rotate)
qed

lemma hd_sort_key_least: "x \<in> set xs \<Longrightarrow> f (hd (sort_key f xs)) \<le> f x"
proof -
  assume "x \<in> set xs"
  then have "x \<in> set (sort_key f xs)" by simp
  moreover have "sorted (map f (sort_key f xs))" by simp
  ultimately show ?thesis by (cases "sort_key f xs") auto
qed

abbreviation rotation :: "usize \<Rightarrow> usize \<Rightarrow> usize list" where
  "rotation start n \<equiv> map (\<lambda>k. (start + k) mod n) [0..<n]"

lemma rotation_facts:
  assumes "0 < n"
  shows "set (rotation start n) = {0..<n}" "hd (rotation start n) = start mod n" "rotation start n \<noteq> []"
    "rotation start n ! 0 = start mod n"
proof -
  show "set (rotation start n) = {0..<n}" unfolding rotation_is_rotate by simp
qed (use assms in \<open>simp_all add: upt_conv_Cons\<close>)

lemma least_loaded_first:
  assumes "0 < n" and "n \<le> MAX_WORKERS" and "i < n"
  shows "g (hd (sort_key (gauge_depth g) (rotation start n))) \<le> g i"
proof -
  let ?sorted = "sort_key (gauge_depth g) (rotation start n)"
  note rot = rotation_facts [OF assms(1), of start]
  have "?sorted \<noteq> []" using rot(3) by (metis length_0_conv length_sort)
  then have "hd ?sorted \<in> set ?sorted" by (rule hd_in_set)
  then have "hd ?sorted < n" using rot(1) by simp
  then show ?thesis
    using hd_sort_key_least [of i "rotation start n" "gauge_depth g"] gauge_depth_small [of i] assms rot(1)
      gauge_depth_small [of "hd ?sorted"] by simp
qed

lemma free_worker_first:
  assumes "0 < n" and "n \<le> MAX_WORKERS"
  shows "if (\<exists>i < n. g i = 0) then g (hd (candidate_iter (candidate_order_with g start n FreeFirst))) = 0
      else hd (candidate_iter (candidate_order_with g start n FreeFirst)) = start mod n"
proof (cases "position (\<lambda>i. gauge_depth g i = 0) (rotation start n)")
  case None
  note rot = rotation_facts [OF assms(1), of start]
  have small: "gauge_depth g i = g i" if "i < n" for i using that assms(2) by (intro gauge_depth_small) simp
  have "g i \<noteq> 0" if "i < n" for i
    using position_None [THEN iffD1, OF None, THEN bspec, of i] small [OF that] that
    by (simp only: rot(1) atLeastLessThan_iff le0 simp_thms)
  then have busy: "\<not> (\<exists>i < n. g i = 0)" by blast
  have "hd (candidate_iter (candidate_order_with g start n FreeFirst)) = start mod n"
    using None rot assms(2) by (simp add: candidate_order_with_def Let_def)
  then show ?thesis by (simp only: busy if_False)
next
  case (Some pos)
  note rot = rotation_facts [OF assms(1), of start]
  have small: "gauge_depth g i = g i" if "i < n" for i using that assms(2) by (intro gauge_depth_small) simp
  from position_Some [OF Some] have p: "pos < n" "gauge_depth g (rotation start n ! pos) = 0" by (simp, blast)
  then have "rotation start n ! pos < n" using assms(1) by simp
  moreover from this have idle: "g (rotation start n ! pos) = 0" using small p(2) by metis
  moreover have "start mod n < n" using assms(1) by simp
  ultimately show ?thesis
    using Some rot small [of "start mod n"] assms(2)
    by (auto simp: candidate_order_with_def Let_def promote_def)
qed

text \<open>
  Worker selection. For every mode, every rotation and every gauge reading the candidate order
  of up to 16 workers is a permutation of all of them, so no worker is skipped or tried twice in
  a pass; round-robin starts at the rotation; least-outstanding (also what an unkeyed request
  gets under the sticky mode) starts at a worker with the fewest requests in flight; free-first
  starts at an idle worker whenever there is one and otherwise keeps the rotation; and a pinned
  request tries its own worker first.
\<close>
theorem candidate_order_complete:
  assumes "0 < n" and "n \<le> MAX_WORKERS" and "pinned < n"
  shows "mset (candidate_iter (candidate_order_with g start n m)) = mset [0..<n] \<and>
    (let first = hd (candidate_iter (candidate_order_with g start n m)) in
     case m of
       Rr \<Rightarrow> first = start mod n
     | FreeFirst \<Rightarrow> if (\<exists>i < n. g i = 0) then g first = 0 else first = start mod n
     | _ \<Rightarrow> (\<forall>i < n. g first \<le> g i)) \<and>
    mset (candidate_iter (sticky_order pinned start n)) = mset [0..<n] \<and>
    hd (candidate_iter (sticky_order pinned start n)) = pinned"
proof -
  have "hd (candidate_iter (sticky_order pinned start n)) = pinned"
    using assms by (simp add: sticky_order_def Let_def)
  moreover have "case m of Rr \<Rightarrow> hd (candidate_iter (candidate_order_with g start n m)) = start mod n
     | FreeFirst \<Rightarrow> if (\<exists>i < n. g i = 0) then g (hd (candidate_iter (candidate_order_with g start n m))) = 0
         else hd (candidate_iter (candidate_order_with g start n m)) = start mod n
     | _ \<Rightarrow> (\<forall>i < n. g (hd (candidate_iter (candidate_order_with g start n m))) \<le> g i)"
  proof (cases m)
    case FreeFirst
    then show ?thesis using free_worker_first [OF assms(1,2)] by (simp only: dispatch_mode.case)
  qed (use least_loaded_first [OF assms(1,2)] rotation_facts(2) [OF assms(1)] assms(2) in
      \<open>simp_all add: candidate_order_with_def Let_def\<close>)
  ultimately show ?thesis
    using candidates_small [OF assms(2)] sticky_candidates [OF assms] by (simp add: Let_def)
qed

theorem candidate_order_complete_witness:
  "mset (candidate_iter (candidate_order_with (\<lambda>i. if i = 2 then 0 else 3) 1 4 FreeFirst)) = mset [0..<4] \<and>
   (\<lambda>i. if i = 2 then 0 else 3 :: nat) (hd (candidate_iter (candidate_order_with (\<lambda>i. if i = 2 then 0 else 3) 1 4 FreeFirst))) = 0"
proof -
  have "\<exists>i < 4 :: nat. (if i = 2 then 0 else 3 :: nat) = 0" by (rule exI [of _ "2 :: nat"]) simp
  then show ?thesis
    using candidate_order_complete [of 4 0 "\<lambda>i. if i = 2 then 0 else 3" 1 FreeFirst]
    by (simp only: Let_def dispatch_mode.case MAX_WORKERS_def if_True)
qed

section \<open>The pin counters are exact\<close>

text \<open>
  The store's life. A miss is a lookup followed by an insertion whose worker was chosen from
  counters that may have changed since; the chosen index is any worker, which covers every
  interleaving of lookups, assignments, rereads and moves.
\<close>

inductive sticky_reach :: "sticky_store \<Rightarrow> bool" where
  sr_new: "sticky_reach sticky_new"
| sr_hit: "sticky_reach st \<Longrightarrow> sticky_reach (st\<lparr>st_hits := st_hits st + 1\<rparr>)"
| sr_miss: "sticky_reach st \<Longrightarrow> sticky_reach (st\<lparr>st_misses := st_misses st + 1\<rparr>)"
| sr_fallback: "sticky_reach st \<Longrightarrow> sticky_reach (sticky_note_fallback st)"
| sr_insert: "sticky_reach st \<Longrightarrow> idx < MAX_WORKERS \<Longrightarrow> sticky_reach (sticky_insert key idx st)"
| sr_reread: "sticky_reach st \<Longrightarrow> prior < MAX_WORKERS \<Longrightarrow> sticky_reach (snd (sticky_reread key prior st))"
| sr_repin: "sticky_reach st \<Longrightarrow> a < MAX_WORKERS \<Longrightarrow> b < MAX_WORKERS \<Longrightarrow> sticky_reach (sticky_repin key a b st)"

definition pinned_in :: "(u64 \<times> u8) list \<Rightarrow> usize \<Rightarrow> int" where
  "pinned_in al i = int (length (filter (\<lambda>(_, v). unat v = i) al))"

definition pins_stored :: "sticky_store \<Rightarrow> usize \<Rightarrow> int" where
  "pins_stored st i = (\<Sum>sh < STICKY_SHARDS. pinned_in (st_shards st sh) i)"

definition sticky_inv :: "sticky_store \<Rightarrow> bool" where
  "sticky_inv st \<longleftrightarrow>
     (\<forall>i. st_pins st i = pins_stored st i) \<and>
     (\<forall>sh. distinct (map fst (st_shards st sh)) \<and> (\<forall>(k, v) \<in> set (st_shards st sh). unat v < MAX_WORKERS))"

lemma pinned_in_update:
  "distinct (map fst al) \<Longrightarrow>
     pinned_in (AList.update k v al) i =
       pinned_in al i + (if unat v = i then 1 else 0) -
       (case map_of al k of Some p \<Rightarrow> if unat p = i then 1 else 0 | None \<Rightarrow> 0)"
proof (induction al)
  case (Cons e al)
  have "k \<in> fst ` set al \<longleftrightarrow> map_of al k \<noteq> None" by (simp add: map_of_eq_None_iff)
  with Cons show ?case by (cases e) (auto simp: pinned_in_def split: option.splits)
qed (simp add: pinned_in_def)

lemma sum_fun_upd:
  assumes "k < (N :: nat)"
  shows "(\<Sum>j < N. F ((f(k := x)) j)) = (\<Sum>j < N. F (f j)) - F (f k) + (F x :: int)"
proof -
  have "(\<Sum>j \<in> {..<N} - {k}. F ((f(k := x)) j)) = (\<Sum>j \<in> {..<N} - {k}. F (f j))" by (rule sum.cong) auto
  with assms show ?thesis
    using sum.remove [of "{..<N}" k "\<lambda>j. F ((f(k := x)) j)"] sum.remove [of "{..<N}" k "\<lambda>j. F (f j)"] by simp
qed

lemma sticky_shard_less: "sticky_shard key < STICKY_SHARDS"
  by (simp add: sticky_shard_def STICKY_SHARDS_def)

lemma u8_index: "idx < MAX_WORKERS \<Longrightarrow> unat (of_nat idx :: u8) = idx"
  by (simp add: MAX_WORKERS_def unat_of_nat)

lemma pins_store_pin:
  assumes "\<forall>sh. distinct (map fst (st_shards st sh))"
  shows "pins_stored (store_pin key v st) i =
    pins_stored st i + (if unat v = i then 1 else 0) -
    (case sticky_get key st of Some p \<Rightarrow> if unat p = i then 1 else 0 | None \<Rightarrow> 0)"
proof -
  let ?al = "st_shards st (sticky_shard key)"
  have "distinct (map fst ?al)" using assms by blast
  from pinned_in_update [OF this, of key v i] show ?thesis
    using sum_fun_upd [OF sticky_shard_less, of "\<lambda>al. pinned_in al i" "st_shards st" key "AList.update key v ?al"]
    by (simp add: pins_stored_def store_pin_def sticky_get_def)
qed

lemma add_pin_fields [simp]:
  "st_shards (add_pin d i st) = st_shards st" "st_pins (add_pin d i st) j = st_pins st j + (if j = i then d else 0)"
  "pins_stored (add_pin d i st) j = pins_stored st j" "sticky_get key (add_pin d i st) = sticky_get key st"
  by (simp_all add: add_pin_def pins_stored_def sticky_get_def)

lemma store_pin_pins [simp]: "st_pins (store_pin key v st) = st_pins st"
  by (simp add: store_pin_def)

lemma store_pin_shards:
  assumes "sticky_inv st" and "unat v < MAX_WORKERS"
  shows "\<forall>sh. distinct (map fst (st_shards (store_pin key v st) sh)) \<and>
    (\<forall>(k, w) \<in> set (st_shards (store_pin key v st) sh). unat w < MAX_WORKERS)"
proof -
  have upd: "\<forall>(k, w) \<in> set (AList.update key v al). unat w < MAX_WORKERS"
    if "\<forall>(k, w) \<in> set al. unat w < MAX_WORKERS" for al
    using that assms(2) by (induction al) auto
  have old: "distinct (map fst (st_shards st sh))" "\<forall>(k, w) \<in> set (st_shards st sh). unat w < MAX_WORKERS" for sh
    using assms(1) by (simp_all add: sticky_inv_def)
  have "st_shards (store_pin key v st) sh =
      (if sh = sticky_shard key then AList.update key v (st_shards st sh) else st_shards st sh)" for sh
    by (simp add: store_pin_def)
  then show ?thesis using old upd [OF old(2)] distinct_update [OF old(1)] by presburger
qed

lemma sticky_get_small: "sticky_inv st \<Longrightarrow> sticky_get key st = Some p \<Longrightarrow> unat p < MAX_WORKERS"
  by (fastforce simp: sticky_inv_def sticky_get_def dest: map_of_SomeD)

lemma clear_fold:
  assumes "\<forall>(k, v) \<in> set al. unat v < MAX_WORKERS"
  shows "st_shards (fold (\<lambda>(_, old) st. if unat old < MAX_WORKERS then add_pin (-1) (unat old) st else st) al st) = st_shards st \<and>
    st_pins (fold (\<lambda>(_, old) st. if unat old < MAX_WORKERS then add_pin (-1) (unat old) st else st) al st) i =
      st_pins st i - pinned_in al i"
  using assms by (induction al arbitrary: st) (auto simp: pinned_in_def)

lemma clear_shard_inv:
  assumes "sticky_inv st" and "sh < STICKY_SHARDS"
  shows "sticky_inv (clear_shard sh st)"
proof -
  let ?st = "st\<lparr>st_shards := (st_shards st)(sh := []), st_evicted := st_evicted st + length (st_shards st sh)\<rparr>"
  have al: "\<forall>(k, v) \<in> set (st_shards st sh). unat v < MAX_WORKERS" using assms(1) by (simp add: sticky_inv_def)
  have shards: "st_shards (clear_shard sh st) = (st_shards st)(sh := [])"
    and pins: "\<And>i. st_pins (clear_shard sh st) i = st_pins st i - pinned_in (st_shards st sh) i"
    using clear_fold [OF al, of ?st] by (simp_all add: clear_shard_def)
  have "pins_stored (clear_shard sh st) i = pins_stored st i - pinned_in (st_shards st sh) i" for i
    using sum_fun_upd [OF assms(2), of "\<lambda>al. pinned_in al i" "st_shards st" "[]"]
    by (simp add: pins_stored_def shards) (simp add: pinned_in_def)
  then show ?thesis using assms(1) pins by (simp add: sticky_inv_def shards)
qed

lemma sticky_insert_inv:
  assumes "sticky_inv st" and "idx < MAX_WORKERS"
  shows "sticky_inv (sticky_insert key idx st)"
proof -
  let ?sh = "sticky_shard key"
  define st1 where "st1 = (if length (st_shards st ?sh) \<ge> STICKY_SHARD_MAX then clear_shard ?sh st else st)"
  have inv: "sticky_inv st1" using assms(1) clear_shard_inv sticky_shard_less by (simp add: st1_def)
  have d: "\<forall>sh. distinct (map fst (st_shards st1 sh))" using inv by (simp add: sticky_inv_def)
  have v: "unat (of_nat idx :: u8) = idx" by (rule u8_index [OF assms(2)])
  have eq: "sticky_insert key idx st =
      add_pin 1 idx (case sticky_get key st1 of
        Some p \<Rightarrow> if unat p < MAX_WORKERS then add_pin (-1) (unat p) (store_pin key (of_nat idx) st1)
          else store_pin key (of_nat idx) st1
      | None \<Rightarrow> store_pin key (of_nat idx) st1)"
    by (simp only: sticky_insert_def Let_def st1_def)
  show ?thesis
    using inv sticky_get_small [OF inv] pins_store_pin [OF d] store_pin_shards [OF inv, of "of_nat idx" key] assms(2)
    by (auto simp: sticky_inv_def eq v split: option.split)
qed

lemma sticky_reread_inv:
  assumes "sticky_inv st" and "prior < MAX_WORKERS"
  shows "sticky_inv (snd (sticky_reread key prior st))"
proof -
  have d: "\<forall>sh. distinct (map fst (st_shards st sh))" using assms(1) by (simp add: sticky_inv_def)
  have m: "min prior (MAX_WORKERS - Suc 0) = prior" using assms(2) by simp
  show ?thesis
    using assms pins_store_pin [OF d] store_pin_shards [OF assms(1), of "of_nat prior" key] u8_index [OF assms(2)]
    by (auto simp: sticky_inv_def sticky_reread_def m split: option.split)
qed

lemma sticky_repin_inv:
  assumes "sticky_inv st" and "a < MAX_WORKERS" and "b < MAX_WORKERS"
  shows "sticky_inv (sticky_repin key a b st)"
proof -
  have d: "\<forall>sh. distinct (map fst (st_shards st sh))" using assms(1) by (simp add: sticky_inv_def)
  have m: "min a (MAX_WORKERS - Suc 0) = a" "min b (MAX_WORKERS - Suc 0) = b" using assms(2,3) by simp_all
  show ?thesis
    using assms(1) pins_store_pin [OF d, of key "of_nat b"] store_pin_shards [OF assms(1), of "of_nat b" key]
      u8_index [OF assms(2)] u8_index [OF assms(3)] assms(3)
    by (auto simp: sticky_inv_def sticky_repin_def m)
qed

lemma sticky_reach_inv: "sticky_reach st \<Longrightarrow> sticky_inv st"
proof (induction rule: sticky_reach.induct)
  case sr_new
  show ?case by (simp add: sticky_inv_def sticky_new_def pins_stored_def pinned_in_def)
next
  case (sr_fallback st)
  then show ?case by (simp add: sticky_inv_def sticky_note_fallback_def pins_stored_def)
qed (simp_all add: sticky_insert_inv sticky_reread_inv sticky_repin_inv, simp_all add: sticky_inv_def pins_stored_def)

lemma pinned_in_sum:
  "\<forall>(k, v) \<in> set al. unat v < N \<Longrightarrow> (\<Sum>i < N. pinned_in al i) = int (length al)"
proof (induction al)
  case (Cons e al)
  then have small: "unat (snd e) < N" by (auto simp: case_prod_beta)
  have "(\<Sum>i < N. pinned_in (e # al) i) = (\<Sum>i < N. pinned_in al i + (if i = unat (snd e) then 1 else 0))"
    by (rule sum.cong) (auto simp: pinned_in_def case_prod_beta)
  also have "\<dots> = (\<Sum>i < N. pinned_in al i) + 1" using small by (simp add: sum.distrib)
  finally show ?case using Cons by simp
qed (simp add: pinned_in_def)

text \<open>
  C33: The pin counters the assignment relies on are exact. Whatever sequence of lookups, raced
  assignments, shard evictions, rereads after parking and moves after a failed connection: each
  worker's counter is the number of connections stored with that worker, in whichever shard, no
  connection is stored twice, every stored worker is one of the 16, and the counters add up to
  the number of stored connections.
\<close>
theorem sticky_pins_exact:
  assumes "sticky_reach st"
  shows "(\<forall>i. st_pins st i =
      (\<Sum>sh < STICKY_SHARDS. int (length (filter (\<lambda>(_, v). unat v = i) (st_shards st sh))))) \<and>
    (\<forall>sh. distinct (map fst (st_shards st sh))) \<and>
    (\<Sum>i < MAX_WORKERS. st_pins st i) = int (sticky_entries st)"
proof -
  have inv: "sticky_inv st" by (rule sticky_reach_inv [OF assms])
  then have pins: "st_pins st i = (\<Sum>sh < STICKY_SHARDS. pinned_in (st_shards st sh) i)" for i
    by (simp add: sticky_inv_def pins_stored_def)
  have each: "(\<Sum>i < MAX_WORKERS. pinned_in (st_shards st sh) i) = int (length (st_shards st sh))" for sh
    using inv by (intro pinned_in_sum) (simp add: sticky_inv_def)
  have "(\<Sum>i < MAX_WORKERS. st_pins st i) = (\<Sum>sh < STICKY_SHARDS. \<Sum>i < MAX_WORKERS. pinned_in (st_shards st sh) i)"
    unfolding pins by (rule sum.swap)
  also have "\<dots> = int (\<Sum>sh < STICKY_SHARDS. length (st_shards st sh))" by (simp only: each of_nat_sum)
  also have "(\<Sum>sh < STICKY_SHARDS. length (st_shards st sh)) = sticky_entries st"
    by (simp add: sticky_entries_def sum_list_distinct_conv_sum_set atLeast0LessThan)
  finally show ?thesis using inv pins by (simp add: sticky_inv_def pinned_in_def)
qed

theorem sticky_pins_exact_witness:
  "(\<Sum>i < MAX_WORKERS. st_pins (sticky_repin 5 2 3 (sticky_insert 5 2 sticky_new)) i) =
     int (sticky_entries (sticky_repin 5 2 3 (sticky_insert 5 2 sticky_new)))"
proof -
  have "sticky_reach (sticky_repin 5 2 3 (sticky_insert 5 2 sticky_new))"
    by (intro sticky_reach.intros) (simp_all add: MAX_WORKERS_def)
  from sticky_pins_exact [OF this] show ?thesis by blast
qed

section \<open>The cap holds under interleaving\<close>

definition holders :: "usize \<Rightarrow> cap_state \<Rightarrow> nat set" where
  "holders i s = {t. cp_threads s t = Holding i}"

definition cap_inv :: "usize \<Rightarrow> cap_state \<Rightarrow> bool" where
  "cap_inv k s \<longleftrightarrow>
     finite {t. cp_threads s t \<noteq> Outside} \<and>
     (\<forall>i. cp_in_flight s i = card (holders i s) \<and> cp_in_flight s i \<le> k)"

lemma holders_finite: "cap_inv k s \<Longrightarrow> finite (holders i s)"
  unfolding cap_inv_def holders_def by (elim conjE finite_subset [rotated]) auto

lemma busy_finite: "finite {t. cp_threads s t \<noteq> Outside} \<Longrightarrow> finite {t. cp_threads (set_thread u v s) t \<noteq> Outside}"
  by (rule finite_subset [of _ "insert u {t. cp_threads s t \<noteq> Outside}"]) (auto simp: set_thread_def)

lemma holders_set_thread:
  "holders i (set_thread t v s) = (if v = Holding i then insert t (holders i s) else holders i s - {t})"
  by (auto simp: holders_def set_thread_def)

lemma set_thread_gauges [simp]: "cp_in_flight (set_thread t v s) = cp_in_flight s"
  by (simp add: set_thread_def)

lemma holders_gauges [simp]: "holders i (s\<lparr>cp_in_flight := g\<rparr>) = holders i s"
  by (simp add: holders_def)

lemma cap_step_inv:
  assumes "cap_inv k s" and "cap_step k s s'"
  shows "cap_inv k s'"
proof -
  have fin: "finite {t. cp_threads (set_thread u v (s\<lparr>cp_in_flight := g\<rparr>)) t \<noteq> Outside}"
    "finite {t. cp_threads (set_thread u v s) t \<noteq> Outside}" for u v g
    using assms(1) by (intro busy_finite; simp add: cap_inv_def)+
  have count: "cp_in_flight s i = card (holders i s)" "card (holders i s) \<le> k" "finite (holders i s)" for i
    using assms(1) holders_finite [OF assms(1)] by (metis cap_inv_def)+
  show ?thesis
    using assms(2)
  proof cases
    case (load t i idx)
    then have "t \<notin> holders j s" for j by (simp add: holders_def)
    then show ?thesis using load fin(2) count by (simp add: cap_inv_def holders_set_thread)
  next
    case (refuse t i cur)
    then have "t \<notin> holders j s" for j by (simp add: holders_def)
    then show ?thesis using refuse fin(2) count by (simp add: cap_inv_def holders_set_thread)
  next
    case (swap t i cur)
    then have "t \<notin> holders j s" for j by (simp add: holders_def)
    then show ?thesis using swap fin(1) count by (auto simp: cap_inv_def holders_set_thread)
  next
    case (retry t i cur)
    then have "t \<notin> holders j s" for j by (simp add: holders_def)
    then show ?thesis using retry fin(2) count by (simp add: cap_inv_def holders_set_thread)
  next
    case (release t i)
    then have "t \<in> holders i s" "\<And>j. j \<noteq> i \<Longrightarrow> t \<notin> holders j s" by (simp_all add: holders_def)
    then show ?thesis
      using release fin(1) count by (auto simp: cap_inv_def holders_set_thread guard_drop_def le_diff_conv le_SucI)
  qed
qed

interpretation cap_machine: invariant_machine "\<lambda>s. s = cap_start" "cap_step k" "cap_inv k" for k
proof
  show "cap_inv k s" if "s = cap_start" for s
    using that by (simp add: cap_inv_def cap_start_def holders_def)
  show "cap_inv k t" if "cap_inv k s" and "cap_step k s t" for s t using that by (rule cap_step_inv)
qed

text \<open>
  C34: With a per-worker cap the number of requests committed to a worker never exceeds it, under
  every interleaving of loads, lost and won exchanges and releases, and the gauge the other
  requests read is always exactly that number.
\<close>
theorem capped_admission_exact:
  assumes "(cap_step k)\<^sup>*\<^sup>* cap_start s"
  shows "card {t. cp_threads s t = Holding i} \<le> k \<and> cp_in_flight s i = card {t. cp_threads s t = Holding i}"
  using cap_machine.reachable_inv [OF refl assms] unfolding cap_inv_def holders_def by metis

theorem capped_admission_exact_witness:
  "\<exists>s. (cap_step 1)\<^sup>*\<^sup>* cap_start s \<and> cp_in_flight s 0 = 1 \<and> card {t. cp_threads s t = Holding 0} \<le> 1"
proof -
  let ?s1 = "set_thread 7 (Loaded 0 0) cap_start"
  let ?s2 = "set_thread 7 (Holding 0) (?s1\<lparr>cp_in_flight := (cp_in_flight ?s1)(0 := 0 + 1)\<rparr>)"
  have "cap_step 1 cap_start ?s1"
    using cap_step.load [of cap_start 7 0 0 1] by (simp add: cap_start_def)
  moreover have "cap_step 1 ?s1 ?s2"
    by (rule cap_step.swap) (simp_all add: set_thread_def cap_start_def)
  ultimately have "(cap_step 1)\<^sup>*\<^sup>* cap_start ?s2" by (meson rtranclp.rtrancl_into_rtrancl rtranclp.rtrancl_refl)
  from this capped_admission_exact [OF this, of 0] show ?thesis
    by (intro exI [of _ ?s2]) (simp add: set_thread_def cap_start_def)
qed

section \<open>Names and parking\<close>

lemma mode_round_trip: "parse_mode (mode_name m) = Some m"
  by (cases m) (simp_all add: parse_mode_def)

text \<open>A parked request leaves only for a worker with room, or with status 503 when draining.\<close>

lemma park_for_slot_Some:
  "park_for_slot mask_bits k looks = Some r \<Longrightarrow>
     (\<exists>(draining, g) \<in> set looks. if draining then r = Inl 503 else any_admittable g mask_bits k \<and> r = Inr ())"
  by (induction mask_bits k looks rule: park_for_slot.induct) (auto split: if_splits)

end
