(* ===== verification/Frame_Pool.thy ===== *)
theory Frame_Pool
  imports Core_Lib "HOL-Library.AList" "HOL-Library.Multiset"
begin

text \<open>
  \<open>crates/oxo-pingora-edge/src/platform/frame_pool.rs\<close>: the edge's pool of idle worker
  connections, one ceiling across all workers, FIFO pickup within a worker. Its three indexes
  are association lists: a \<open>HashMap\<close> with the updates and deletions of \<open>AList\<close>, a \<open>BTreeMap\<close>
  sorted by its key. All operations run under one mutex, so each is a function on the state.
  The channels of an entry are represented by the signals an operation sends once the lock is
  released. Sequence numbers count insertions and are unbounded here (a \<open>u64\<close> in the code).

  The specification is a list of rows in insertion order; \<open>pool_rel\<close> is the simulation relation
  between it and the three indexes, and every operation is shown to refine its list version.
\<close>

section \<open>Data\<close>

record connection_meta =
  cm_key :: u64
  cm_id :: u32

record 'c pool_entry =
  en_conn :: 'c
  en_id :: u32

type_synonym 'c node = "(nat \<times> 'c pool_entry) list"

record 'c pool_inner =
  pi_next_seq :: nat
  pi_by_key :: "(u64 \<times> 'c node) list"
  pi_by_id :: "(u32 \<times> nat) list"
  pi_order :: "(nat \<times> u64 \<times> u32) list"
  pi_high_water :: usize

record 'c connection_pool =
  cp_inner :: "'c pool_inner"
  cp_size :: usize

datatype signal = UsePickedUp u32 | NotifyClose u32

fun bt_insert :: "nat \<Rightarrow> 'v \<Rightarrow> (nat \<times> 'v) list \<Rightarrow> (nat \<times> 'v) list" where
  "bt_insert k v [] = [(k, v)]"
| "bt_insert k v ((k', v') # m) =
     (if k < k' then (k, v) # (k', v') # m
      else if k = k' then (k, v) # m
      else (k', v') # bt_insert k v m)"

definition bt_remove :: "nat \<Rightarrow> (nat \<times> 'v) list \<Rightarrow> (nat \<times> 'v) list" where
  "bt_remove k m = filter (\<lambda>r. fst r \<noteq> k) m"

section \<open>Operations\<close>

definition drop_empty_node :: "u64 \<Rightarrow> (u64 \<times> 'c node) list \<Rightarrow> (u64 \<times> 'c node) list" where
  "drop_empty_node key bk = (if map_of bk key = Some [] then AList.delete key bk else bk)"

definition node_remove :: "u64 \<Rightarrow> nat \<Rightarrow> (u64 \<times> 'c node) list \<Rightarrow> (u64 \<times> 'c node) list" where
  "node_remove key seq bk =
     (case map_of bk key of
        Some node \<Rightarrow> AList.update key (bt_remove seq node) bk
      | None \<Rightarrow> bk)"

definition node_entry :: "u64 \<Rightarrow> nat \<Rightarrow> (u64 \<times> 'c node) list \<Rightarrow> 'c pool_entry option" where
  "node_entry key seq bk = Option.bind (map_of bk key) (\<lambda>node. map_of node seq)"

definition evict_oldest :: "'c pool_inner \<Rightarrow> 'c pool_entry option \<times> 'c pool_inner" where
  "evict_oldest g =
     (case pi_order g of
        [] \<Rightarrow> (None, g)
      | (seq, key, i) # order \<Rightarrow>
          (node_entry key seq (pi_by_key g),
           g\<lparr>pi_order := order, pi_by_id := AList.delete i (pi_by_id g),
             pi_by_key := drop_empty_node key (node_remove key seq (pi_by_key g))\<rparr>))"

text \<open>The debug assertions of \<open>Inner::check\<close>.\<close>

definition pool_check :: "'c pool_inner \<Rightarrow> bool" where
  "pool_check g \<longleftrightarrow>
     sum_list (map (\<lambda>n. length (snd n)) (pi_by_key g)) = length (pi_order g) \<and>
     length (pi_by_id g) = length (pi_order g) \<and>
     list_all (\<lambda>(seq, key, i).
       (case map_of (pi_by_key g) key of
          Some node \<Rightarrow> map_of node seq \<noteq> None
        | None \<Rightarrow> False) \<and>
       map_of (pi_by_id g) i = Some seq) (pi_order g)"

definition pool_new :: "usize \<Rightarrow> 'c connection_pool" where
  "pool_new n =
     \<lparr>cp_inner = \<lparr>pi_next_seq = 1, pi_by_key = [], pi_by_id = [], pi_order = [], pi_high_water = 0\<rparr>,
      cp_size = max n 1\<rparr>"

definition pool_get :: "u64 \<Rightarrow> 'c connection_pool \<Rightarrow> ('c \<times> signal) option \<times> 'c connection_pool" where
  "pool_get key p =
     (let g = cp_inner p in
      case map_of (pi_by_key g) key of
        Some ((seq, e) # node) \<Rightarrow>
          (let bk = drop_empty_node key (AList.update key node (pi_by_key g));
               g' = g\<lparr>pi_by_key := bk, pi_order := bt_remove seq (pi_order g),
                      pi_by_id := AList.delete (en_id e) (pi_by_id g)\<rparr>
           in (Some (en_conn e, UsePickedUp (en_id e)), p\<lparr>cp_inner := g'\<rparr>))
      | _ \<Rightarrow> (None, p))"

definition link_entry :: "connection_meta \<Rightarrow> 'c \<Rightarrow> 'c pool_inner \<Rightarrow> 'c pool_inner" where
  "link_entry meta conn g =
     (let seq = pi_next_seq g;
          node = (case map_of (pi_by_key g) (cm_key meta) of Some n \<Rightarrow> n | None \<Rightarrow> []);
          g1 = g\<lparr>pi_next_seq := seq + 1,
                 pi_order := bt_insert seq (cm_key meta, cm_id meta) (pi_order g),
                 pi_by_id := AList.update (cm_id meta) seq (pi_by_id g),
                 pi_by_key := AList.update (cm_key meta)
                   (bt_insert seq \<lparr>en_conn = conn, en_id = cm_id meta\<rparr> node) (pi_by_key g)\<rparr>;
          offered = length (pi_order g1)
      in if offered > pi_high_water g1 then g1\<lparr>pi_high_water := offered\<rparr> else g1)"

definition pool_put ::
  "connection_meta \<Rightarrow> 'c \<Rightarrow> 'c connection_pool \<Rightarrow> ('c \<times> signal) option \<times> 'c connection_pool" where
  "pool_put meta conn p =
     (let g = link_entry meta conn (cp_inner p);
          (v, g') = (if length (pi_order g) > cp_size p then evict_oldest g else (None, g))
      in (map_option (\<lambda>e. (en_conn e, NotifyClose (en_id e))) v, p\<lparr>cp_inner := g'\<rparr>))"

definition pool_pop_closed :: "connection_meta \<Rightarrow> 'c connection_pool \<Rightarrow> 'c option \<times> 'c connection_pool" where
  "pool_pop_closed meta p =
     (let g = cp_inner p;
          seq = map_of (pi_by_id g) (cm_id meta);
          g1 = g\<lparr>pi_by_id := AList.delete (cm_id meta) (pi_by_id g)\<rparr>;
          (e, g2) = (case seq of
             None \<Rightarrow> (None, g1)
           | Some s \<Rightarrow>
               (node_entry (cm_key meta) s (pi_by_key g1),
                g1\<lparr>pi_order := bt_remove s (pi_order g1),
                   pi_by_key := node_remove (cm_key meta) s (pi_by_key g1)\<rparr>))
      in (map_option en_conn e,
          p\<lparr>cp_inner := g2\<lparr>pi_by_key := drop_empty_node (cm_key meta) (pi_by_key g2)\<rparr>\<rparr>))"

definition idle_high_water :: "'c connection_pool \<Rightarrow> usize" where
  "idle_high_water p = pi_high_water (cp_inner p)"

section \<open>Configuration\<close>

definition default_idle_ceiling :: "usize \<Rightarrow> usize" where
  "default_idle_ceiling worker_count = max 512 (max worker_count 1 * 32)"

datatype idle_ceiling_source = CeilingEnv | CeilingDefault

fun ceiling_source_as_str :: "idle_ceiling_source \<Rightarrow> string" where
  "ceiling_source_as_str CeilingEnv = ''env''"
| "ceiling_source_as_str CeilingDefault = ''default''"

definition resolve_idle_ceiling :: "string option \<Rightarrow> usize \<Rightarrow> usize \<times> idle_ceiling_source" where
  "resolve_idle_ceiling raw worker_count =
     (case Option.bind raw (\<lambda>s. parse_uint U64_MAX (trim s)) of
        Some n \<Rightarrow> if n > 0 then (n, CeilingEnv) else (default_idle_ceiling worker_count, CeilingDefault)
      | None \<Rightarrow> (default_idle_ceiling worker_count, CeilingDefault))"

datatype pool_impl = Owned

text \<open>The error of an unknown name quotes it with \<open>Debug\<close>, left to the parameter \<open>quote\<close>.\<close>

definition parse_pool_impl :: "(string \<Rightarrow> string) \<Rightarrow> string option \<Rightarrow> string + pool_impl" where
  "parse_pool_impl quote raw =
     (case map_option trim raw of
        None \<Rightarrow> Inr Owned
      | Some v \<Rightarrow>
          if v = [] \<or> v = ''owned'' then Inr Owned
          else if v = ''pingora'' then
            Inl ''OXO_EDGE_POOL=pingora is unsupported; only owned is available''
          else Inl (''OXO_EDGE_POOL='' @ quote v @ '': expected owned''))"

section \<open>The specification: rows in insertion order\<close>

type_synonym 'c row = "nat \<times> u64 \<times> 'c pool_entry"

definition rows_for :: "u64 \<Rightarrow> 'c row list \<Rightarrow> 'c node" where
  "rows_for k L = map (\<lambda>(s, _, e). (s, e)) (filter (\<lambda>(_, k', _). k' = k) L)"

definition row_id :: "'c row \<Rightarrow> u32" where "row_id r = en_id (snd (snd r))"
definition row_key :: "'c row \<Rightarrow> u64" where "row_key r = fst (snd r)"

definition pool_rel :: "'c row list \<Rightarrow> 'c pool_inner \<Rightarrow> bool" where
  "pool_rel L g \<longleftrightarrow>
     pi_order g = map (\<lambda>r. (fst r, row_key r, row_id r)) L \<and>
     map_of (pi_by_id g) = map_of (map (\<lambda>r. (row_id r, fst r)) L) \<and>
     distinct (map fst (pi_by_id g)) \<and>
     (\<forall>k. map_of (pi_by_key g) k = (if rows_for k L = [] then None else Some (rows_for k L))) \<and>
     distinct (map fst (pi_by_key g)) \<and>
     sorted_wrt (<) (map fst L) \<and> (\<forall>r \<in> set L. fst r < pi_next_seq g) \<and>
     distinct (map row_id L)"

definition without_seq :: "nat \<Rightarrow> 'c row list \<Rightarrow> 'c row list" where
  "without_seq s L = filter (\<lambda>r. fst r \<noteq> s) L"

section \<open>Unlinking a row\<close>

lemma pool_rel_seqs: "pool_rel L g \<Longrightarrow> distinct (map fst L)"
  unfolding pool_rel_def by (metis strict_sorted_iff)

lemma same_row:
  assumes "pool_rel L g" and "r \<in> set L" and "r' \<in> set L"
  shows "fst r = fst r' \<longleftrightarrow> r = r'" and "row_id r = row_id r' \<longleftrightarrow> r = r'"
  using assms pool_rel_seqs [OF assms(1)] by (auto simp: pool_rel_def distinct_map inj_on_def)

lemma without_seq_by_id:
  assumes "pool_rel L g" and "r \<in> set L"
  shows "without_seq (fst r) L = filter (\<lambda>r'. row_id r' \<noteq> row_id r) L"
  unfolding without_seq_def using same_row [OF assms(1) _ assms(2)] by (intro filter_cong) auto

lemma rows_for_without_seq: "rows_for k (without_seq s L) = bt_remove s (rows_for k L)"
  by (induction L) (auto simp: rows_for_def without_seq_def bt_remove_def)

lemma rows_for_other:
  assumes "pool_rel L g" and "r \<in> set L" and "k \<noteq> row_key r"
  shows "rows_for k (without_seq (fst r) L) = rows_for k L"
proof -
  have "filter (\<lambda>(_, k', _). k' = k) (without_seq (fst r) L) = filter (\<lambda>(_, k', _). k' = k) L"
    using same_row(1) [OF assms(1) _ assms(2)] assms(3)
    by (auto simp: without_seq_def row_key_def intro!: filter_cong)
  then show ?thesis by (simp add: rows_for_def)
qed

lemma map_of_drop_empty_node:
  "map_of (drop_empty_node k bk) = (if map_of bk k = Some [] then (map_of bk)(k := None) else map_of bk)"
  by (simp add: drop_empty_node_def delete_conv')

lemma distinct_drop_empty_node:
  "distinct (map fst bk) \<Longrightarrow> distinct (map fst (drop_empty_node k bk))"
  by (simp add: drop_empty_node_def distinct_delete)

lemma unlink_by_key:
  assumes "\<forall>k. map_of bk k = (if rows_for k L = [] then None else Some (rows_for k L))"
    and "rows_for key L \<noteq> []" and "\<forall>k. k \<noteq> key \<longrightarrow> rows_for k L' = rows_for k L"
    and "map_of bk' = (map_of bk)(key \<mapsto> rows_for key L')"
  shows "map_of (drop_empty_node key bk') k = (if rows_for k L' = [] then None else Some (rows_for k L'))"
  using assms by (auto simp: map_of_drop_empty_node)

definition unlink :: "'c row \<Rightarrow> 'c pool_inner \<Rightarrow> 'c pool_inner" where
  "unlink r g =
     g\<lparr>pi_order := bt_remove (fst r) (pi_order g), pi_by_id := AList.delete (row_id r) (pi_by_id g),
       pi_by_key := drop_empty_node (row_key r) (node_remove (row_key r) (fst r) (pi_by_key g))\<rparr>"

lemma rows_for_member: "r \<in> set L \<Longrightarrow> (fst r, snd (snd r)) \<in> set (rows_for (row_key r) L)"
  by (cases r) (force simp: rows_for_def row_key_def)

lemma pool_rel_node:
  assumes "pool_rel L g" and "r \<in> set L"
  shows "map_of (pi_by_key g) (row_key r) = Some (rows_for (row_key r) L)"
    and "rows_for (row_key r) L \<noteq> []"
  using assms rows_for_member [OF assms(2)] by (auto simp: pool_rel_def)

lemma unlink_refines:
  assumes rel: "pool_rel L g" and r: "r \<in> set L"
  shows "pool_rel (without_seq (fst r) L) (unlink r g)"
proof -
  let ?L = "without_seq (fst r) L"
  have node: "map_of (pi_by_key g) (row_key r) = Some (rows_for (row_key r) L)"
    and ne: "rows_for (row_key r) L \<noteq> []"
    using pool_rel_node [OF rel r] by auto
  have "pi_order (unlink r g) = map (\<lambda>r. (fst r, row_key r, row_id r)) ?L"
    using rel by (simp add: pool_rel_def unlink_def bt_remove_def without_seq_def filter_map comp_def)
  moreover have "map_of (pi_by_id (unlink r g)) = map_of (map (\<lambda>r. (row_id r, fst r)) ?L)"
  proof -
    have "map (\<lambda>r. (row_id r, fst r)) ?L = AList.delete (row_id r) (map (\<lambda>r. (row_id r, fst r)) L)"
      by (simp add: without_seq_by_id [OF rel r] AList.delete_eq filter_map comp_def split_def eq_commute)
    then show ?thesis using rel by (simp add: pool_rel_def unlink_def delete_conv')
  qed
  moreover have "map_of (pi_by_key (unlink r g)) k = (if rows_for k ?L = [] then None else Some (rows_for k ?L))"
    for k
  proof -
    have "map_of (node_remove (row_key r) (fst r) (pi_by_key g)) =
        (map_of (pi_by_key g))(row_key r \<mapsto> rows_for (row_key r) ?L)"
      by (simp add: node_remove_def node update_conv' rows_for_without_seq)
    then show ?thesis
      using unlink_by_key [of "pi_by_key g" L "row_key r" ?L] rel ne rows_for_other [OF rel r]
      by (auto simp: pool_rel_def unlink_def)
  qed
  moreover have "distinct (map fst (pi_by_id (unlink r g)))" "distinct (map fst (pi_by_key (unlink r g)))"
    using rel node
    by (auto simp: pool_rel_def unlink_def node_remove_def distinct_delete distinct_update
        intro!: distinct_drop_empty_node)
  moreover have "sorted_wrt (<) (map fst ?L)" "distinct (map row_id ?L)"
    "\<forall>q \<in> set ?L. fst q < pi_next_seq (unlink r g)"
    using rel by (auto simp: pool_rel_def without_seq_def unlink_def sorted_wrt_map sorted_wrt_filter
        distinct_map inj_on_def)
  ultimately show ?thesis by (simp add: pool_rel_def)
qed

section \<open>Operations refine the list\<close>

definition key_rows :: "u64 \<Rightarrow> 'c row list \<Rightarrow> 'c row list" where
  "key_rows k L = filter (\<lambda>r. row_key r = k) L"

lemma rows_for_key_rows: "rows_for k L = map (\<lambda>r. (fst r, snd (snd r))) (key_rows k L)"
  by (simp add: rows_for_def key_rows_def row_key_def split_def)

lemma bt_remove_head:
  assumes "sorted_wrt (<) (map fst ((s, e) # m))"
  shows "bt_remove s ((s, e) # m) = m"
  using assms by (auto simp: bt_remove_def filter_id_conv)

lemma sorted_rows_for: "sorted_wrt (<) (map fst L) \<Longrightarrow> sorted_wrt (<) (map fst (rows_for k L))"
  by (simp add: rows_for_key_rows key_rows_def comp_def sorted_wrt_map sorted_wrt_filter)

lemma pool_get_refines:
  assumes rel: "pool_rel L (cp_inner p)"
  shows "pool_get key p =
    (case key_rows key L of
       [] \<Rightarrow> (None, p)
     | r # _ \<Rightarrow> (Some (en_conn (snd (snd r)), UsePickedUp (row_id r)), p\<lparr>cp_inner := unlink r (cp_inner p)\<rparr>))"
proof (cases "key_rows key L")
  case Nil
  then have "map_of (pi_by_key (cp_inner p)) key = None"
    using rel by (simp add: pool_rel_def rows_for_key_rows)
  with Nil show ?thesis by (simp add: pool_get_def)
next
  case (Cons r rs)
  let ?rows = "rows_for key L"
  have r: "r \<in> set L" "row_key r = key" using Cons by (auto simp: key_rows_def filter_eq_Cons_iff)
  have rows: "?rows = (fst r, snd (snd r)) # map (\<lambda>r. (fst r, snd (snd r))) rs"
    by (simp add: rows_for_key_rows Cons)
  have node: "map_of (pi_by_key (cp_inner p)) key = Some ?rows"
    using pool_rel_node(1) [OF rel r(1)] r(2) by simp
  have "bt_remove (fst r) ?rows = map (\<lambda>r. (fst r, snd (snd r))) rs"
    using rel sorted_rows_for [of L key] unfolding rows
    by (intro bt_remove_head) (simp add: pool_rel_def rows)
  then show ?thesis
    using Cons node rows r
    by (simp add: pool_get_def unlink_def node_remove_def Let_def row_id_def)
qed

lemma evict_refines:
  assumes rel: "pool_rel (r # L) g"
  shows "evict_oldest g = (Some (snd (snd r)), unlink r g)"
proof -
  have order: "pi_order g = (fst r, row_key r, row_id r) # map (\<lambda>r. (fst r, row_key r, row_id r)) L"
    using rel by (simp add: pool_rel_def)
  have "bt_remove (fst r) (pi_order g) = map (\<lambda>r. (fst r, row_key r, row_id r)) L"
    unfolding order using rel by (intro bt_remove_head) (simp add: pool_rel_def comp_def)
  moreover have "node_entry (row_key r) (fst r) (pi_by_key g) = Some (snd (snd r))"
    using pool_rel_node(1) [OF rel, of r] by (simp add: node_entry_def rows_for_key_rows key_rows_def)
  ultimately show ?thesis by (simp add: evict_oldest_def order unlink_def)
qed

lemma bt_insert_last: "\<forall>r \<in> set m. fst r < k \<Longrightarrow> bt_insert k v m = m @ [(k, v)]"
  by (induction m) auto

definition new_row :: "connection_meta \<Rightarrow> 'c \<Rightarrow> nat \<Rightarrow> 'c row" where
  "new_row meta conn seq = (seq, cm_key meta, \<lparr>en_conn = conn, en_id = cm_id meta\<rparr>)"

lemma link_refines:
  assumes rel: "pool_rel L g" and fresh: "cm_id meta \<notin> row_id ` set L"
  shows "pool_rel (L @ [new_row meta conn (pi_next_seq g)]) (link_entry meta conn g)"
    and "pi_high_water (link_entry meta conn g) = max (pi_high_water g) (length L + 1)"
proof -
  let ?r = "new_row meta conn (pi_next_seq g)" and ?k = "cm_key meta" and ?n = "pi_next_seq g"
  let ?g = "link_entry meta conn g"
  have old: "\<forall>r \<in> set L. fst r < ?n" using rel by (simp add: pool_rel_def)
  have row: "fst ?r = ?n" "row_key ?r = ?k" "row_id ?r = cm_id meta"
    by (simp_all add: new_row_def row_key_def row_id_def)
  have node: "(case map_of (pi_by_key g) ?k of Some n \<Rightarrow> n | None \<Rightarrow> []) = rows_for ?k L"
    using rel by (simp add: pool_rel_def)
  have ins: "bt_insert ?n \<lparr>en_conn = conn, en_id = cm_id meta\<rparr> (rows_for ?k L) = rows_for ?k (L @ [?r])"
    using old by (subst bt_insert_last) (auto simp: rows_for_def new_row_def)
  have order: "bt_insert ?n (?k, cm_id meta) (pi_order g) = map (\<lambda>r. (fst r, row_key r, row_id r)) (L @ [?r])"
    using rel old by (subst bt_insert_last) (auto simp: pool_rel_def row)
  have by_id: "map_of (map (\<lambda>r. (row_id r, fst r)) (L @ [?r])) =
      (map_of (map (\<lambda>r. (row_id r, fst r)) L))(cm_id meta \<mapsto> ?n)"
  proof
    fix i
    show "map_of (map (\<lambda>r. (row_id r, fst r)) (L @ [?r])) i =
        ((map_of (map (\<lambda>r. (row_id r, fst r)) L))(cm_id meta \<mapsto> ?n)) i"
    proof (cases "i = cm_id meta")
      case True
      then have "map_of (map (\<lambda>r. (row_id r, fst r)) L) i = None"
        using fresh by (auto simp: map_of_eq_None_iff)
      then show ?thesis using True by (simp add: map_add_def row)
    qed (simp add: map_add_def row split: option.split)
  qed
  have key: "map_of (pi_by_key ?g) k =
      (if rows_for k (L @ [?r]) = [] then None else Some (rows_for k (L @ [?r])))" for k
  proof (cases "k = ?k")
    case True
    then show ?thesis
      by (simp add: link_entry_def Let_def update_conv' node ins) (simp add: rows_for_def new_row_def)
  next
    case False
    then show ?thesis
      using rel by (simp add: link_entry_def Let_def update_conv' pool_rel_def rows_for_def new_row_def)
  qed
  have len: "length (pi_order g) = length L" using rel by (simp add: pool_rel_def)
  show "pi_high_water ?g = max (pi_high_water g) (length L + 1)"
    using order by (simp add: link_entry_def Let_def)
  have "distinct (map row_id (L @ [?r]))" using rel fresh by (simp add: pool_rel_def row)
  moreover have "sorted_wrt (<) (map fst (L @ [?r]))"
    using rel old by (auto simp: pool_rel_def row sorted_wrt_append)
  moreover have "\<forall>r \<in> set (L @ [?r]). fst r < pi_next_seq ?g"
    using old by (auto simp: link_entry_def Let_def row)
  moreover have "pi_order ?g = map (\<lambda>r. (fst r, row_key r, row_id r)) (L @ [?r])"
    using order by (simp add: link_entry_def Let_def)
  moreover have "map_of (pi_by_id ?g) = map_of (map (\<lambda>r. (row_id r, fst r)) (L @ [?r]))"
    using rel unfolding by_id by (simp add: link_entry_def Let_def update_conv' pool_rel_def)
  moreover have "distinct (map fst (pi_by_id ?g))" "distinct (map fst (pi_by_key ?g))"
    using rel by (simp_all add: link_entry_def Let_def distinct_update pool_rel_def)
  ultimately show "pool_rel (L @ [?r]) ?g"
    unfolding pool_rel_def using key by blast
qed

lemma without_seq_head: "pool_rel (r # L) g \<Longrightarrow> without_seq (fst r) (r # L) = L"
  using pool_rel_seqs [of "r # L" g] by (auto simp: without_seq_def filter_id_conv image_iff)

definition spec_put :: "usize \<Rightarrow> 'c row \<Rightarrow> 'c row list \<Rightarrow> 'c row list" where
  "spec_put cap r L = (if length L + 1 > cap then tl (L @ [r]) else L @ [r])"

lemma pool_put_refines:
  assumes rel: "pool_rel L (cp_inner p)" and fresh: "cm_id meta \<notin> row_id ` set L"
    and r: "r = new_row meta conn (pi_next_seq (cp_inner p))"
  shows "pool_rel (spec_put (cp_size p) r L) (cp_inner (snd (pool_put meta conn p)))"
    and "fst (pool_put meta conn p) =
      (if length L + 1 > cp_size p
       then Some (en_conn (snd (snd (hd (L @ [r])))), NotifyClose (row_id (hd (L @ [r])))) else None)"
    and "cp_size (snd (pool_put meta conn p)) = cp_size p"
    and "idle_high_water (snd (pool_put meta conn p)) = max (idle_high_water p) (length L + 1)"
proof -
  let ?g = "link_entry meta conn (cp_inner p)"
  have linked: "pool_rel (L @ [r]) ?g" and hw: "pi_high_water ?g = max (pi_high_water (cp_inner p)) (length L + 1)"
    using link_refines [OF rel fresh, of conn] by (simp_all add: r)
  then have len: "length (pi_order ?g) = length L + 1" by (simp add: pool_rel_def)
  obtain q M where qM: "L @ [r] = q # M" by (cases "L @ [r]") auto
  have ev: "evict_oldest ?g = (Some (snd (snd q)), unlink q ?g)"
    using evict_refines linked by (simp add: qM)
  have un: "pool_rel M (unlink q ?g)"
    using unlink_refines [OF linked, of q] without_seq_head [of q M ?g] linked qM by simp
  show "pool_rel (spec_put (cp_size p) r L) (cp_inner (snd (pool_put meta conn p)))"
    using linked len ev un qM by (simp add: pool_put_def Let_def spec_put_def)
  show "fst (pool_put meta conn p) =
      (if length L + 1 > cp_size p
       then Some (en_conn (snd (snd (hd (L @ [r])))), NotifyClose (row_id (hd (L @ [r])))) else None)"
    using len ev qM by (simp add: pool_put_def Let_def row_id_def)
  show "cp_size (snd (pool_put meta conn p)) = cp_size p"
    by (simp add: pool_put_def Let_def split_def)
  show "idle_high_water (snd (pool_put meta conn p)) = max (idle_high_water p) (length L + 1)"
    using hw len ev by (simp add: pool_put_def Let_def idle_high_water_def unlink_def)
qed

lemma pool_pop_closed_refines:
  assumes rel: "pool_rel L (cp_inner p)"
  shows "r \<in> set L \<Longrightarrow> cm_id meta = row_id r \<Longrightarrow> cm_key meta = row_key r \<Longrightarrow>
      pool_pop_closed meta p = (Some (en_conn (snd (snd r))), p\<lparr>cp_inner := unlink r (cp_inner p)\<rparr>)"
    and "cm_id meta \<notin> row_id ` set L \<Longrightarrow>
      fst (pool_pop_closed meta p) = None \<and> pool_rel L (cp_inner (snd (pool_pop_closed meta p)))"
proof -
  let ?g = "cp_inner p"
  have ids: "map_of (pi_by_id ?g) = map_of (map (\<lambda>r. (row_id r, fst r)) L)" "distinct (map row_id L)"
    using rel by (simp_all add: pool_rel_def)
  show "pool_pop_closed meta p = (Some (en_conn (snd (snd r))), p\<lparr>cp_inner := unlink r (cp_inner p)\<rparr>)"
    if r: "r \<in> set L" "cm_id meta = row_id r" "cm_key meta = row_key r"
  proof -
    have "map_of (map (\<lambda>r. (row_id r, fst r)) L) (row_id r) = Some (fst r)"
      using r(1) ids(2) by (intro map_of_is_SomeI) (auto simp: comp_def)
    moreover have "distinct (map fst (rows_for (row_key r) L))"
      using rel sorted_rows_for [of L "row_key r"] by (metis pool_rel_def strict_sorted_iff)
    then have "node_entry (row_key r) (fst r) (pi_by_key ?g) = Some (snd (snd r))"
      using pool_rel_node(1) [OF rel r(1)] rows_for_member [OF r(1)]
      by (simp add: node_entry_def map_of_is_SomeI)
    ultimately show ?thesis
      using r by (simp add: pool_pop_closed_def Let_def ids(1) unlink_def)
  qed
  show "fst (pool_pop_closed meta p) = None \<and> pool_rel L (cp_inner (snd (pool_pop_closed meta p)))"
    if fresh: "cm_id meta \<notin> row_id ` set L"
  proof -
    have none: "map_of (pi_by_id ?g) (cm_id meta) = None"
      using fresh by (auto simp: ids(1) map_of_eq_None_iff)
    have keep: "AList.delete (cm_id meta) (pi_by_id ?g) = pi_by_id ?g"
      using none by (simp add: delete_idem map_of_eq_None_iff)
    have "drop_empty_node (cm_key meta) (pi_by_key ?g) = pi_by_key ?g"
      using rel by (simp add: drop_empty_node_def pool_rel_def)
    then show ?thesis using rel keep by (simp add: pool_pop_closed_def Let_def none)
  qed
qed

section \<open>The debug assertions\<close>

lemma sum_nodes:
  assumes "distinct ks" and "\<forall>r \<in> set L. row_key r \<in> set ks"
  shows "sum_list (map (\<lambda>k. length (rows_for k L)) ks) = length L"
  using assms
proof (induction L)
  case (Cons r L)
  have "sum_list (map (\<lambda>k. length (rows_for k (r # L))) ks) =
      sum_list (map (\<lambda>k. length (rows_for k L)) ks) + sum_list (map (\<lambda>k. if k = row_key r then 1 else 0) ks)"
    by (simp add: sum_list_addf [symmetric] rows_for_key_rows key_rows_def) (rule arg_cong [of _ _ sum_list], auto)
  moreover have "sum_list (map (\<lambda>k. if k = row_key r then 1 else 0) ks) = (1 :: nat)"
    using Cons.prems by (simp add: sum_list_map_eq_sum_count2 sum_list_distinct_conv_sum_set)
  ultimately show ?case using Cons by simp
qed (simp add: rows_for_def)

lemma pool_rel_check:
  assumes rel: "pool_rel L g"
  shows "pool_check g"
proof -
  let ?ks = "map fst (pi_by_key g)"
  have dist: "distinct ?ks" using rel by (simp add: pool_rel_def)
  have "row_key r \<in> set ?ks" if "r \<in> set L" for r
    using pool_rel_node(1) [OF rel that] map_of_eq_None_iff [of "pi_by_key g" "row_key r"] by auto
  then have total: "sum_list (map (\<lambda>k. length (rows_for k L)) ?ks) = length L"
    using sum_nodes [OF dist, of L] by blast
  have "length (snd n) = length (rows_for (fst n) L)" if "n \<in> set (pi_by_key g)" for n
  proof -
    have "map_of (pi_by_key g) (fst n) = Some (snd n)" using dist that by (simp add: map_of_is_SomeI)
    with rel show ?thesis by (auto simp: pool_rel_def split: if_splits)
  qed
  then have "map (\<lambda>n. length (snd n)) (pi_by_key g) = map (\<lambda>k. length (rows_for k L)) ?ks" by simp
  with total have sum: "sum_list (map (\<lambda>n. length (snd n)) (pi_by_key g)) = length L" by metis
  have "dom (map_of (pi_by_id g)) = row_id ` set L"
    using rel by (simp add: pool_rel_def dom_map_of_conv_image_fst image_image)
  then have "set (map fst (pi_by_id g)) = set (map row_id L)" by (simp add: dom_map_of_conv_image_fst)
  then have "card (set (map fst (pi_by_id g))) = card (set (map row_id L))" by simp
  moreover have "distinct (map fst (pi_by_id g))" "distinct (map row_id L)"
    using rel by (simp_all add: pool_rel_def)
  ultimately have "length (pi_by_id g) = length L" by (simp only: distinct_card length_map)
  moreover have "map_of (rows_for (row_key r) L) (fst r) \<noteq> None \<and> map_of (pi_by_id g) (row_id r) = Some (fst r)"
    if "r \<in> set L" for r
  proof -
    have "map_of (map (\<lambda>r. (row_id r, fst r)) L) (row_id r) = Some (fst r)"
      using rel that by (intro map_of_is_SomeI) (auto simp: pool_rel_def comp_def)
    then show ?thesis
      using rel rows_for_member [OF that] by (force simp: pool_rel_def map_of_eq_None_iff)
  qed
  ultimately show ?thesis
    using rel sum pool_rel_node(1) [OF rel]
    by (auto simp: pool_check_def pool_rel_def list_all_iff)
qed

section \<open>The pool contract\<close>

definition spec_get :: "u64 \<Rightarrow> 'c row list \<Rightarrow> ('c \<times> signal) option \<times> 'c row list" where
  "spec_get key L =
     (case key_rows key L of
        [] \<Rightarrow> (None, L)
      | r # _ \<Rightarrow> (Some (en_conn (snd (snd r)), UsePickedUp (row_id r)), without_seq (fst r) L))"

definition spec_victim :: "usize \<Rightarrow> 'c row \<Rightarrow> 'c row list \<Rightarrow> ('c \<times> signal) option" where
  "spec_victim cap r L =
     (if length L + 1 > cap
      then Some (en_conn (snd (snd (hd (L @ [r])))), NotifyClose (row_id (hd (L @ [r])))) else None)"

definition spec_close :: "connection_meta \<Rightarrow> 'c row list \<Rightarrow> 'c option \<times> 'c row list" where
  "spec_close meta L =
     (case filter (\<lambda>r. row_id r = cm_id meta) L of
        [] \<Rightarrow> (None, L)
      | r # _ \<Rightarrow> (Some (en_conn (snd (snd r))), without_seq (fst r) L))"

text \<open>A watcher closes under the worker key its connection was pooled with.\<close>

definition meta_matches :: "connection_meta \<Rightarrow> 'c row list \<Rightarrow> bool" where
  "meta_matches meta L \<longleftrightarrow> (\<forall>r \<in> set L. row_id r = cm_id meta \<longrightarrow> row_key r = cm_key meta)"

datatype 'c pool_op = PoolGet u64 | PoolPut connection_meta 'c | PoolClose connection_meta

definition row_conns :: "'c row list \<Rightarrow> 'c multiset" where
  "row_conns L = mset (map (\<lambda>r. en_conn (snd (snd r))) L)"

fun op_inserts :: "'c pool_op \<Rightarrow> 'c multiset" where
  "op_inserts (PoolPut meta conn) = {#conn#}"
| "op_inserts _ = {#}"

fun op_legal :: "'c pool_op \<Rightarrow> 'c row list \<Rightarrow> bool" where
  "op_legal (PoolGet key) L = True"
| "op_legal (PoolPut meta conn) L = (cm_id meta \<notin> row_id ` set L)"
| "op_legal (PoolClose meta) L = meta_matches meta L"

text \<open>One operation: the connections that leave the pool, and the new state.\<close>

fun pool_step ::
  "(u64 \<Rightarrow> 's \<Rightarrow> ('c \<times> signal) option \<times> 's) \<Rightarrow> (connection_meta \<Rightarrow> 'c \<Rightarrow> 's \<Rightarrow> ('c \<times> signal) option \<times> 's) \<Rightarrow>
   (connection_meta \<Rightarrow> 's \<Rightarrow> 'c option \<times> 's) \<Rightarrow> 'c pool_op \<Rightarrow> 's \<Rightarrow> 'c multiset \<times> 's" where
  "pool_step get put close (PoolGet key) s =
     (mset_set (set_option (map_option fst (fst (get key s)))), snd (get key s))"
| "pool_step get put close (PoolPut meta conn) s =
     (mset_set (set_option (map_option fst (fst (put meta conn s)))), snd (put meta conn s))"
| "pool_step get put close (PoolClose meta) s =
     (mset_set (set_option (fst (close meta s))), snd (close meta s))"

locale idle_pool =
  fixes rel :: "'c row list \<Rightarrow> 's \<Rightarrow> bool"
    and get :: "u64 \<Rightarrow> 's \<Rightarrow> ('c \<times> signal) option \<times> 's"
    and put :: "connection_meta \<Rightarrow> 'c \<Rightarrow> 's \<Rightarrow> ('c \<times> signal) option \<times> 's"
    and close :: "connection_meta \<Rightarrow> 's \<Rightarrow> 'c option \<times> 's"
    and cap :: "'s \<Rightarrow> nat" and seq :: "'s \<Rightarrow> nat"
  assumes get_spec: "rel L s \<Longrightarrow>
      fst (get key s) = fst (spec_get key L) \<and> rel (snd (spec_get key L)) (snd (get key s)) \<and>
      cap (snd (get key s)) = cap s"
    and put_spec: "rel L s \<Longrightarrow> cm_id meta \<notin> row_id ` set L \<Longrightarrow>
      fst (put meta conn s) = spec_victim (cap s) (new_row meta conn (seq s)) L \<and>
      rel (spec_put (cap s) (new_row meta conn (seq s)) L) (snd (put meta conn s)) \<and>
      cap (snd (put meta conn s)) = cap s"
    and close_spec: "rel L s \<Longrightarrow> meta_matches meta L \<Longrightarrow>
      fst (close meta s) = fst (spec_close meta L) \<and> rel (snd (spec_close meta L)) (snd (close meta s)) \<and>
      cap (snd (close meta s)) = cap s"
    and seqs_distinct: "rel L s \<Longrightarrow> distinct (map fst L)"
begin

lemma conns_without_seq:
  assumes "distinct (map fst L)" and "r \<in> set L"
  shows "row_conns L = {#en_conn (snd (snd r))#} + row_conns (without_seq (fst r) L)"
  using assms
proof (induction L)
  case (Cons q L)
  show ?case
  proof (cases "q = r")
    case True
    then have "without_seq (fst r) L = L"
      using Cons.prems by (auto simp: without_seq_def filter_id_conv image_iff)
    with True show ?thesis by (simp add: row_conns_def without_seq_def)
  next
    case False
    with Cons show ?thesis by (auto simp: row_conns_def without_seq_def image_iff)
  qed
qed simp

lemma step_conserves:
  assumes "rel L s" and "op_legal op L" and "length L \<le> cap s" and "0 < cap s"
  shows "\<exists>L'. rel L' (snd (pool_step get put close op s)) \<and> length L' \<le> cap s \<and> cap (snd (pool_step get put close op s)) = cap s \<and>
    row_conns L + op_inserts op = fst (pool_step get put close op s) + row_conns L'"
proof (cases op)
  case (PoolGet key)
  have get: "fst (get key s) = fst (spec_get key L)" "rel (snd (spec_get key L)) (snd (get key s))"
    "cap (snd (get key s)) = cap s"
    using get_spec [OF assms(1)] by auto
  show ?thesis
  proof (cases "key_rows key L")
    case Nil
    with get assms PoolGet show ?thesis by (intro exI [of _ L]) (simp add: spec_get_def)
  next
    case (Cons r rs)
    then have r: "r \<in> set L" by (auto simp: key_rows_def filter_eq_Cons_iff)
    have "length (without_seq (fst r) L) \<le> cap s"
      using assms(3) by (metis without_seq_def length_filter_le order_trans)
    with Cons get PoolGet conns_without_seq [OF seqs_distinct [OF assms(1)] r] show ?thesis
      by (intro exI [of _ "without_seq (fst r) L"]) (simp add: spec_get_def)
  qed
next
  case (PoolPut meta conn)
  let ?r = "new_row meta conn (seq s)"
  have put: "fst (put meta conn s) = spec_victim (cap s) ?r L"
    "rel (spec_put (cap s) ?r L) (snd (put meta conn s))" "cap (snd (put meta conn s)) = cap s"
    using put_spec [OF assms(1)] assms(2) PoolPut by auto
  obtain q M where qM: "L @ [?r] = q # M" by (cases "L @ [?r]") auto
  have total: "row_conns (L @ [?r]) = row_conns L + {#conn#}" by (simp add: row_conns_def new_row_def)
  have head: "row_conns (L @ [?r]) = {#en_conn (snd (snd q))#} + row_conns M" by (simp add: qM row_conns_def)
  have "length M = length L" using qM by (metis length_append_singleton length_Cons nat.inject)
  then show ?thesis
    using put PoolPut total head assms(3) qM
    by (intro exI [of _ "spec_put (cap s) ?r L"]) (simp add: spec_put_def spec_victim_def)
next
  case (PoolClose meta)
  have close: "fst (close meta s) = fst (spec_close meta L)" "rel (snd (spec_close meta L)) (snd (close meta s))"
    "cap (snd (close meta s)) = cap s"
    using close_spec [OF assms(1)] assms(2) PoolClose by auto
  show ?thesis
  proof (cases "filter (\<lambda>r. row_id r = cm_id meta) L")
    case Nil
    with close assms PoolClose show ?thesis by (intro exI [of _ L]) (simp add: spec_close_def)
  next
    case (Cons r rs)
    then have r: "r \<in> set L" by (auto simp: filter_eq_Cons_iff)
    have "length (without_seq (fst r) L) \<le> cap s"
      using assms(3) by (metis without_seq_def length_filter_le order_trans)
    with Cons close PoolClose conns_without_seq [OF seqs_distinct [OF assms(1)] r] show ?thesis
      by (intro exI [of _ "without_seq (fst r) L"]) (simp add: spec_close_def)
  qed
qed

end

interpretation ip: idle_pool "\<lambda>L p. pool_rel L (cp_inner p)" pool_get pool_put pool_pop_closed cp_size
  "\<lambda>p. pi_next_seq (cp_inner p)"
proof
  fix L :: "'a row list" and p :: "'a connection_pool" and key meta conn
  assume rel: "pool_rel L (cp_inner p)"
  show "distinct (map fst L)" using rel by (rule pool_rel_seqs)
  show "fst (pool_get key p) = fst (spec_get key L) \<and>
      pool_rel (snd (spec_get key L)) (cp_inner (snd (pool_get key p))) \<and>
      cp_size (snd (pool_get key p)) = cp_size p"
  proof (cases "key_rows key L")
    case (Cons r rs)
    then have "r \<in> set L" by (auto simp: key_rows_def filter_eq_Cons_iff)
    with unlink_refines [OF rel] Cons show ?thesis
      by (simp add: pool_get_refines [OF rel] spec_get_def)
  qed (use rel in \<open>simp add: pool_get_refines [OF rel] spec_get_def\<close>)
  show "fst (pool_put meta conn p) = spec_victim (cp_size p) (new_row meta conn (pi_next_seq (cp_inner p))) L \<and>
      pool_rel (spec_put (cp_size p) (new_row meta conn (pi_next_seq (cp_inner p))) L)
        (cp_inner (snd (pool_put meta conn p))) \<and>
      cp_size (snd (pool_put meta conn p)) = cp_size p"
    if "cm_id meta \<notin> row_id ` set L"
    using pool_put_refines(1-3) [OF rel that refl, of conn] by (simp add: spec_victim_def)
  show "fst (pool_pop_closed meta p) = fst (spec_close meta L) \<and>
      pool_rel (snd (spec_close meta L)) (cp_inner (snd (pool_pop_closed meta p))) \<and>
      cp_size (snd (pool_pop_closed meta p)) = cp_size p"
    if ok: "meta_matches meta L"
  proof (cases "filter (\<lambda>r. row_id r = cm_id meta) L")
    case Nil
    then have fresh: "cm_id meta \<notin> row_id ` set L" by (auto simp: filter_empty_conv)
    have "cp_size (snd (pool_pop_closed meta p)) = cp_size p"
      by (simp add: pool_pop_closed_def Let_def split_def)
    with pool_pop_closed_refines(2) [OF rel fresh] Nil show ?thesis by (simp add: spec_close_def)
  next
    case (Cons r rs)
    then have r: "r \<in> set L" "row_id r = cm_id meta" by (auto simp: filter_eq_Cons_iff)
    with ok have "row_key r = cm_key meta" by (auto simp: meta_matches_def)
    with pool_pop_closed_refines(1) [OF rel r(1)] r unlink_refines [OF rel r(1)] Cons show ?thesis
      by (simp add: spec_close_def)
  qed
qed

section \<open>Properties\<close>

text \<open>
  C25: The pool implements its specification, a list of idle connections in insertion order.
  Pickup for a worker hands out that worker's oldest idle connection and only that one, signalled
  as used; insertion appends and, beyond the ceiling, evicts the oldest connection of any worker,
  signalled as closed; closing removes the connection with that id or does nothing. In every
  state that represents a list the three indexes agree, so the debug assertions hold.
\<close>

theorem pool_refines_fifo:
  assumes "pool_rel L (cp_inner p)"
  shows "pool_check (cp_inner p) \<and>
    fst (pool_get key p) = fst (spec_get key L) \<and>
    pool_rel (snd (spec_get key L)) (cp_inner (snd (pool_get key p))) \<and>
    (cm_id meta \<notin> row_id ` set L \<longrightarrow>
      (let r = new_row meta conn (pi_next_seq (cp_inner p)) in
       fst (pool_put meta conn p) = spec_victim (cp_size p) r L \<and>
       pool_rel (spec_put (cp_size p) r L) (cp_inner (snd (pool_put meta conn p))))) \<and>
    (meta_matches meta L \<longrightarrow>
      fst (pool_pop_closed meta p) = fst (spec_close meta L) \<and>
      pool_rel (snd (spec_close meta L)) (cp_inner (snd (pool_pop_closed meta p))))"
  using ip.get_spec [OF assms] ip.put_spec [OF assms] ip.close_spec [OF assms] pool_rel_check [OF assms]
  by (simp add: Let_def)

lemma pool_rel_new: "pool_rel [] (cp_inner (pool_new n))"
  by (simp add: pool_rel_def pool_new_def rows_for_def)

theorem pool_refines_fifo_witness:
  "pool_rel [new_row \<lparr>cm_key = 7, cm_id = 1\<rparr> ''c'' 1]
     (cp_inner (snd (pool_put \<lparr>cm_key = 7, cm_id = 1\<rparr> ''c'' (pool_new 1)))) \<and>
   fst (pool_get 7 (snd (pool_put \<lparr>cm_key = 7, cm_id = 1\<rparr> ''c'' (pool_new 1)))) = Some (''c'', UsePickedUp 1)"
proof
  show first: "pool_rel [new_row \<lparr>cm_key = 7, cm_id = 1\<rparr> ''c'' 1]
     (cp_inner (snd (pool_put \<lparr>cm_key = 7, cm_id = 1\<rparr> ''c'' (pool_new 1))))"
    using pool_refines_fifo [OF pool_rel_new [of 1], of 0 "\<lparr>cm_key = 7, cm_id = 1\<rparr>" "''c''"]
    by (simp add: spec_put_def Let_def pool_new_def)
  show "fst (pool_get 7 (snd (pool_put \<lparr>cm_key = 7, cm_id = 1\<rparr> ''c'' (pool_new 1)))) = Some (''c'', UsePickedUp 1)"
    using pool_refines_fifo [OF first, of 7]
    by (simp add: spec_get_def key_rows_def new_row_def row_key_def row_id_def)
qed

text \<open>
  The states a pool reaches: connections get ids that are not idle in the pool, and a watcher
  closes with the key its connection was pooled under. The ghosts are the connections inserted
  and those that left.
\<close>

definition op_allowed :: "'c pool_op \<Rightarrow> 'c connection_pool \<Rightarrow> bool" where
  "op_allowed op p =
     (case op of
        PoolGet _ \<Rightarrow> True
      | PoolPut meta _ \<Rightarrow> list_all (\<lambda>(_, _, i). i \<noteq> cm_id meta) (pi_order (cp_inner p))
      | PoolClose meta \<Rightarrow> list_all (\<lambda>(_, k, i). i = cm_id meta \<longrightarrow> k = cm_key meta) (pi_order (cp_inner p)))"

inductive pool_reach :: "usize \<Rightarrow> 'c multiset \<Rightarrow> 'c multiset \<Rightarrow> 'c connection_pool \<Rightarrow> bool" for n where
  reach_new: "pool_reach n {#} {#} (pool_new n)"
| reach_step: "pool_reach n ins outs p \<Longrightarrow> op_allowed op p \<Longrightarrow>
    pool_step pool_get pool_put pool_pop_closed op p = (gone, p') \<Longrightarrow>
    pool_reach n (ins + op_inserts op) (outs + gone) p'"

lemma op_allowed_legal: "pool_rel L (cp_inner p) \<Longrightarrow> op_allowed op p \<Longrightarrow> op_legal op L"
  by (cases op) (auto simp: op_allowed_def pool_rel_def list_all_iff meta_matches_def)

text \<open>
  No connection is lost, duplicated or leaked by the pool, and the ceiling holds. After any
  sequence of pickups, insertions and closes, the connections ever inserted are exactly those that
  left the pool (picked up, evicted or closed, each once) and those idle now, of which there are
  at most the configured ceiling, across all workers; the internal assertions hold throughout.
\<close>

theorem pool_accounts_for_connections:
  assumes "pool_reach n ins outs p"
  shows "\<exists>L. pool_rel L (cp_inner p) \<and> ins = outs + row_conns L \<and> length L \<le> max n 1 \<and>
    length (pi_order (cp_inner p)) \<le> max n 1 \<and> pool_check (cp_inner p)"
proof -
  have "\<exists>L. pool_rel L (cp_inner p) \<and> cp_size p = max n 1 \<and> length L \<le> max n 1 \<and> ins = outs + row_conns L"
    using assms
  proof (induction rule: pool_reach.induct)
    case reach_new
    show ?case
      by (intro exI [of _ "[]"]) (simp add: pool_rel_new row_conns_def, simp add: pool_new_def)
  next
    case (reach_step ins outs p op gone p')
    then obtain L where L: "pool_rel L (cp_inner p)" "cp_size p = max n 1" "length L \<le> max n 1"
      "ins = outs + row_conns L" by blast
    have "0 < cp_size p" using L(2) by (simp add: max_def)
    then obtain L' where L': "pool_rel L' (cp_inner p')" "length L' \<le> cp_size p" "cp_size p' = cp_size p"
      "row_conns L + op_inserts op = gone + row_conns L'"
      using ip.step_conserves [OF L(1) op_allowed_legal [OF L(1) reach_step.hyps(2)]] L(2,3) reach_step.hyps(3)
      by auto
    have "ins + op_inserts op = outs + gone + row_conns L'"
      using L(4) L'(4) by (simp add: union_assoc)
    with L' L(2) show ?case by auto
  qed
  then obtain L where L: "pool_rel L (cp_inner p)" "length L \<le> max n 1" "ins = outs + row_conns L" by blast
  then have "length (pi_order (cp_inner p)) = length L" by (simp add: pool_rel_def)
  with L pool_rel_check [OF L(1)] show ?thesis by auto
qed

definition sample_pool :: "string connection_pool" where
  "sample_pool =
     snd (pool_put \<lparr>cm_key = 8, cm_id = 2\<rparr> ''b'' (snd (pool_put \<lparr>cm_key = 7, cm_id = 1\<rparr> ''a'' (pool_new 1))))"

lemma sample_pool_reach: "pool_reach 1 {#''a'', ''b''#} {#''a''#} sample_pool"
proof -
  let ?p = "snd (pool_put \<lparr>cm_key = 7, cm_id = 1\<rparr> ''a'' (pool_new 1))"
  have "pool_reach 1 ({#} + op_inserts (PoolPut \<lparr>cm_key = 7, cm_id = 1\<rparr> ''a'')) ({#} + {#}) ?p"
    by (rule reach_step [OF reach_new])
      (simp_all add: op_allowed_def pool_new_def pool_put_def link_entry_def Let_def)
  then have "pool_reach 1 ({#} + op_inserts (PoolPut \<lparr>cm_key = 7, cm_id = 1\<rparr> ''a'') +
      op_inserts (PoolPut \<lparr>cm_key = 8, cm_id = 2\<rparr> ''b'')) ({#} + {#} + {#''a''#}) sample_pool"
    by (rule reach_step)
      (simp_all add: sample_pool_def op_allowed_def pool_new_def pool_put_def link_entry_def evict_oldest_def
        node_entry_def node_remove_def drop_empty_node_def Let_def)
  then show ?thesis by (simp add: add_mset_commute)
qed

theorem pool_accounts_for_connections_witness:
  "\<exists>L. pool_rel L (cp_inner sample_pool) \<and> {#''a'', ''b''#} = {#''a''#} + row_conns L \<and> length L \<le> 1"
  using pool_accounts_for_connections [OF sample_pool_reach] by auto

text \<open>
  The aggregate ceiling that is configured: a positive integer in the environment is taken as
  it is, anything else falls back to 32 connections per worker and at least 512; either way the
  pool holds at least one connection.
\<close>

lemma idle_ceiling_resolution:
  "fst (resolve_idle_ceiling raw workers) > 0 \<and>
   (snd (resolve_idle_ceiling raw workers) = CeilingDefault \<longleftrightarrow>
      (\<forall>v. raw = Some v \<longrightarrow> parse_uint U64_MAX (trim v) \<in> {None, Some 0})) \<and>
   512 \<le> default_idle_ceiling workers \<and> 32 * workers \<le> default_idle_ceiling workers"
  by (cases raw)
    (auto simp: resolve_idle_ceiling_def default_idle_ceiling_def split: option.splits)

end
