(* ===== verification/Frame_Send.thy ===== *)
theory Frame_Send
  imports Frame_Response Frame_Dispatch Frame_Pool
begin

text \<open>
  The rest of \<open>crates/oxo-pingora-edge/src/platform/frame_hop.rs\<close>: the pool of worker connections
  with its checkout and checkin, one attempt at a worker, and the dispatch of a request over the
  workers with failover, parking and affinity.

  What an attempt meets is a record: whether draining had begun, the gauge its pre-check reads,
  how the wait for sole ownership of a pooled connection goes, whether that connection is live,
  the outcome of connecting and of reconnecting, the gauges at the commit point and the drain
  signal during and after the exchange. A dispatch meets a list of passes. Each attempt also
  reports how many times the complete request was written to a worker.
\<close>

section \<open>The connection pool\<close>

definition UNWRAP_WAIT_BUDGET_DEFAULT :: u64 where "UNWRAP_WAIT_BUDGET_DEFAULT = 20"

definition parse_unwrap_wait_ms :: "(string \<Rightarrow> string) \<Rightarrow> string option \<Rightarrow> string + u64" where
  "parse_unwrap_wait_ms quote raw =
     (case map_option trim raw of
        None \<Rightarrow> Inr UNWRAP_WAIT_BUDGET_DEFAULT
      | Some v \<Rightarrow>
          if v = [] then Inr UNWRAP_WAIT_BUDGET_DEFAULT
          else
            (case parse_uint U64_MAX v of
               Some ms \<Rightarrow> Inr (of_nat ms)
             | None \<Rightarrow>
                 Inl (''OXO_EDGE_UNWRAP_WAIT_MS='' @ quote v @
                   '': expected a whole number of milliseconds (0 = one attempt)'')))"

record worker_frame_pool =
  wp_pool :: "pooled_conn connection_pool"
  wp_next_id :: u32
  wp_stale_evictions :: nat
  wp_pool_reuse_total :: nat
  wp_try_unwrap_fail_total :: nat
  wp_unwrap_retry_total :: nat
  wp_checkin_total :: nat
  wp_fresh_connect_total :: nat
  wp_idle_ceiling :: usize
  wp_idle_ceiling_source :: idle_ceiling_source
  wp_unwrap_wait_budget :: nat
  wp_unwrap_wait_ns :: nat
  wp_unwrap_wait_max_ns :: nat

definition pool_with_size :: "usize \<Rightarrow> idle_ceiling_source \<Rightarrow> nat \<Rightarrow> worker_frame_pool" where
  "pool_with_size n source budget =
     \<lparr>wp_pool = pool_new n, wp_next_id = 1, wp_stale_evictions = 0, wp_pool_reuse_total = 0,
      wp_try_unwrap_fail_total = 0, wp_unwrap_retry_total = 0, wp_checkin_total = 0,
      wp_fresh_connect_total = 0, wp_idle_ceiling = n, wp_idle_ceiling_source = source,
      wp_unwrap_wait_budget = budget, wp_unwrap_wait_ns = 0, wp_unwrap_wait_max_ns = 0\<rparr>"

definition from_ceiling :: "usize \<Rightarrow> idle_ceiling_source \<Rightarrow> nat \<Rightarrow> worker_frame_pool" where
  "from_ceiling n source budget = pool_with_size (max n 1) source budget"

definition record_unwrap_wait :: "nat \<Rightarrow> worker_frame_pool \<Rightarrow> worker_frame_pool" where
  "record_unwrap_wait waited p =
     (let ns = min waited U64_MAX in
      p\<lparr>wp_unwrap_wait_ns := wp_unwrap_wait_ns p + ns, wp_unwrap_wait_max_ns := max (wp_unwrap_wait_max_ns p) ns\<rparr>)"

text \<open>
  The attempts to become the only owner of a picked-up connection: each says whether it
  succeeded and how long the checkout has waited. The result says whether it became the owner,
  whether it retried, and the wait. An attempt list that ends stands for the budget running out.
\<close>

fun unwrap_loop :: "nat \<Rightarrow> bool \<Rightarrow> (bool \<times> nat) list \<Rightarrow> bool \<times> bool \<times> nat" where
  "unwrap_loop budget retried [] = (False, retried, budget)"
| "unwrap_loop budget retried ((sole, waited) # attempts) =
     (if sole then (True, retried, waited)
      else if waited \<ge> budget then (False, retried, waited)
      else unwrap_loop budget True attempts)"

definition checkout ::
  "usize \<Rightarrow> (bool \<times> nat) list \<Rightarrow> bool \<Rightarrow> worker_frame_pool \<Rightarrow> pooled_conn option \<times> worker_frame_pool" where
  "checkout worker_idx attempts live p =
     (case pool_get (of_nat worker_idx) (wp_pool p) of
        (None, pool) \<Rightarrow> (None, p\<lparr>wp_pool := pool\<rparr>)
      | (Some (conn, _), pool) \<Rightarrow>
          (let p = p\<lparr>wp_pool := pool\<rparr>;
               (sole, retried, waited) = unwrap_loop (wp_unwrap_wait_budget p) False attempts
           in
           if \<not> sole then
             (None, record_unwrap_wait waited (p\<lparr>wp_try_unwrap_fail_total := wp_try_unwrap_fail_total p + 1\<rparr>))
           else
             (let p = (if retried
                       then record_unwrap_wait waited (p\<lparr>wp_unwrap_retry_total := wp_unwrap_retry_total p + 1\<rparr>)
                       else p)
              in if live then (Some conn, p\<lparr>wp_pool_reuse_total := wp_pool_reuse_total p + 1\<rparr>) else (None, p))))"

definition checkin :: "usize \<Rightarrow> pooled_conn \<Rightarrow> worker_frame_pool \<Rightarrow> worker_frame_pool" where
  "checkin worker_idx conn p =
     (if has_surplus conn then p
      else
        (let meta = \<lparr>cm_key = of_nat worker_idx, cm_id = wp_next_id p\<rparr>;
             (_, pool) = pool_put meta conn (wp_pool p)
         in p\<lparr>wp_pool := pool, wp_next_id := wp_next_id p + 1, wp_checkin_total := wp_checkin_total p + 1\<rparr>))"

text \<open>The watcher of an idle connection: what ended its wait, and the eviction count.\<close>

datatype watch_event = PickedUp | SenderDropped | Evicted | Drained | PeerActivityOrTimeout

definition watch_idle_connection ::
  "watch_event \<Rightarrow> connection_meta \<Rightarrow> 'c connection_pool \<Rightarrow> nat \<Rightarrow> 'c connection_pool \<times> nat" where
  "watch_idle_connection ev meta pool evictions =
     (case ev of
        PickedUp \<Rightarrow> (pool, evictions)
      | SenderDropped \<Rightarrow> (snd (pool_pop_closed meta pool), evictions + 1)
      | Evicted \<Rightarrow> (snd (pool_pop_closed meta pool), evictions + 1)
      | Drained \<Rightarrow> (snd (pool_pop_closed meta pool), evictions)
      | PeerActivityOrTimeout \<Rightarrow> (snd (pool_pop_closed meta pool), evictions))"

section \<open>One attempt\<close>

datatype frame_send_error = FrameConnect | FrameAfterWrite u16 | AtCapacity

record attempt_env =
  ae_draining :: bool
  ae_load :: usize
  ae_unwrap :: "(bool \<times> nat) list"
  ae_live :: bool
  ae_connect :: "pooled_conn option"
  ae_gauges :: gauges
  ae_drain :: "bool list"
  ae_drained_after :: bool
  ae_reconnect :: "pooled_conn option"
  ae_redrain :: "bool list"
  ae_redrained_after :: bool

record hop_state =
  hs_pool :: worker_frame_pool
  hs_registry :: registry
  hs_down :: downstream

record hop_config =
  hc_accepts :: "header \<Rightarrow> bool"
  hc_kind :: edge_worker_kind
  hc_cap :: "usize option"
  hc_keepalive :: bool

definition count_fresh :: "hop_state \<Rightarrow> hop_state" where
  "count_fresh s =
     s\<lparr>hs_pool := (hs_pool s)\<lparr>wp_fresh_connect_total := wp_fresh_connect_total (hs_pool s) + 1\<rparr>\<rparr>"

definition count_stale :: "hop_state \<Rightarrow> hop_state" where
  "count_stale s = s\<lparr>hs_pool := (hs_pool s)\<lparr>wp_stale_evictions := wp_stale_evictions (hs_pool s) + 1\<rparr>\<rparr>"

definition checkin_hop :: "usize \<Rightarrow> pooled_conn \<Rightarrow> hop_state \<Rightarrow> hop_state" where
  "checkin_hop idx conn s = s\<lparr>hs_pool := checkin idx conn (hs_pool s)\<rparr>"

text \<open>An exchange on a connection, and whether the request reached the worker.\<close>

definition run_exchange ::
  "hop_config \<Rightarrow> bool list \<Rightarrow> pooled_conn \<Rightarrow> hop_state
     \<Rightarrow> (exchange_error + u16 \<times> bool) \<times> nat \<times> pooled_conn \<times> hop_state" where
  "run_exchange cfg ds conn s =
     (let (r, conn', reg, d) = exchange_frames (hc_accepts cfg) response_frame_caps (hc_keepalive cfg) ds conn
            (hs_registry s) (hs_down s)
      in (r, if write_ok conn then 1 else 0, conn', s\<lparr>hs_registry := reg, hs_down := d\<rparr>))"

definition connection_for ::
  "usize \<Rightarrow> attempt_env \<Rightarrow> hop_state \<Rightarrow> (pooled_conn \<times> bool) option \<times> hop_state" where
  "connection_for idx env s =
     (let (c, pool) = checkout idx (ae_unwrap env) (ae_live env) (hs_pool s); s = s\<lparr>hs_pool := pool\<rparr> in
      case c of
        Some conn \<Rightarrow> (Some (conn, True), s)
      | None \<Rightarrow>
          (case ae_connect env of
             None \<Rightarrow> (None, s)
           | Some conn \<Rightarrow> (Some (conn, False), count_fresh s)))"

definition retry_exchange ::
  "hop_config \<Rightarrow> usize \<Rightarrow> attempt_env \<Rightarrow> nat \<Rightarrow> hop_state \<Rightarrow> (frame_send_error + u16) \<times> nat \<times> hop_state" where
  "retry_exchange cfg idx env sent s =
     (let s = count_stale s in
      case ae_reconnect env of
        None \<Rightarrow> (Inl FrameConnect, sent, s)
      | Some conn \<Rightarrow>
          (let (r, n, conn', s) = run_exchange cfg (ae_redrain env) conn (count_fresh s) in
           case r of
             Inr (status, reusable) \<Rightarrow>
               (Inr status, sent + n,
                if reusable \<and> \<not> ae_redrained_after env then checkin_hop idx conn' s else s)
           | Inl e \<Rightarrow> (Inl (FrameAfterWrite (exchange_error_status e)), sent + n, s)))"

definition send_to_worker ::
  "hop_config \<Rightarrow> usize \<Rightarrow> attempt_env \<Rightarrow> hop_state \<Rightarrow> (frame_send_error + u16) \<times> nat \<times> hop_state" where
  "send_to_worker cfg idx env s =
     (if ae_draining env then (Inl (FrameAfterWrite 503), 0, s)
      else if (case hc_cap cfg of Some kv \<Rightarrow> ae_load env \<ge> kv | None \<Rightarrow> False) then (Inl AtCapacity, 0, s)
      else
        (case connection_for idx env s of
           (None, s) \<Rightarrow> (Inl FrameConnect, 0, s)
         | (Some (conn, reused), s) \<Rightarrow>
             if fst (try_acquire idx (hc_cap cfg) (ae_gauges env)) = None
             then (Inl AtCapacity, 0, checkin_hop idx conn s)
             else
               (let (r, n, conn', s) = run_exchange cfg (ae_drain env) conn s in
                case r of
                  Inr (status, reusable) \<Rightarrow>
                    (Inr status, n, if reusable \<and> \<not> ae_drained_after env then checkin_hop idx conn' s else s)
                | Inl (StaleBeforeDispatch request_delivered) \<Rightarrow>
                    if reused \<and> (\<not> request_delivered \<or> hc_kind cfg \<noteq> Async) then retry_exchange cfg idx env n s
                    else (Inl (FrameAfterWrite (exchange_error_status (StaleBeforeDispatch request_delivered))), n, s)
                | Inl e \<Rightarrow> (Inl (FrameAfterWrite (exchange_error_status e)), n, s))))"

section \<open>The dispatch\<close>

record pass_env =
  pe_next_worker :: usize
  pe_gauges :: gauges
  pe_attempts :: "usize \<Rightarrow> attempt_env"
  pe_looks :: "(bool \<times> gauges) list"

datatype pass_result = Done "u16 + u16" "(u64 \<times> usize \<times> usize) option" | Full u32

text \<open>
  One pass over the candidates: the final answer, with the move of a pin it causes, or the set
  of workers at capacity.
\<close>

fun try_candidates ::
  "hop_config \<Rightarrow> (u64 \<times> usize) option \<Rightarrow> (usize \<Rightarrow> attempt_env) \<Rightarrow> bool \<Rightarrow> u32 \<Rightarrow> usize list \<Rightarrow> hop_state
     \<Rightarrow> pass_result \<times> nat \<times> hop_state" where
  "try_candidates cfg pinned envs pin_failed full [] s = (Full full, 0, s)"
| "try_candidates cfg pinned envs pin_failed full (idx # order) s =
     (case send_to_worker cfg idx (envs idx) s of
        (Inr status, n, s) \<Rightarrow>
          (Done (Inr status)
             (case pinned of
                Some (key, pidx) \<Rightarrow> if idx \<noteq> pidx \<and> pin_failed then Some (key, pidx, idx) else None
              | None \<Rightarrow> None), n, s)
      | (Inl FrameConnect, n, s) \<Rightarrow>
          (let pin_failed = (pin_failed \<or> (case pinned of Some (_, p) \<Rightarrow> p = idx | None \<Rightarrow> False));
               (r, m, s) = try_candidates cfg pinned envs pin_failed full order s
           in (r, n + m, s))
      | (Inl AtCapacity, n, s) \<Rightarrow>
          (let (r, m, s) = try_candidates cfg pinned envs pin_failed
                 (full OR push_bit (min idx (MAX_WORKERS - 1)) 1) order s
           in (r, n + m, s))
      | (Inl (FrameAfterWrite status), n, s) \<Rightarrow> (Done (Inl status) None, n, s))"

definition pass_order ::
  "dispatch_mode \<Rightarrow> usize \<Rightarrow> (u64 \<times> usize) option \<Rightarrow> bool \<Rightarrow> pass_env \<Rightarrow> sticky_store
     \<Rightarrow> usize list \<times> (u64 \<times> usize) option \<times> sticky_store" where
  "pass_order mode sockets pinned woken pe st =
     (let start = pe_next_worker pe mod sockets in
      case pinned of
        Some (key, prior) \<Rightarrow>
          (let (idx, st) = (if woken then sticky_reread key prior st else (prior, st))
           in (candidate_iter (sticky_order idx start sockets), Some (key, idx), st))
      | None \<Rightarrow> (candidate_iter (candidate_order_with (pe_gauges pe) start sockets mode), None, st))"

text \<open>The passes; \<open>None\<close> when the request is still parked or waiting after all of them.\<close>

fun dispatch_passes ::
  "hop_config \<Rightarrow> dispatch_mode \<Rightarrow> usize \<Rightarrow> (u64 \<times> usize) option \<Rightarrow> bool \<Rightarrow> pass_env list \<Rightarrow> sticky_store \<Rightarrow> hop_state
     \<Rightarrow> ((u16 + u16) \<times> nat \<times> sticky_store \<times> hop_state) option" where
  "dispatch_passes cfg mode sockets pinned woken [] st s = None"
| "dispatch_passes cfg mode sockets pinned woken (pe # pes) st s =
     (let (order, pinned, st) = pass_order mode sockets pinned woken pe st;
          (r, n, s) = try_candidates cfg pinned (pe_attempts pe) False 0 order s
      in
      case r of
        Done answer move \<Rightarrow>
          Some (answer, n, (case move of Some (key, a, b) \<Rightarrow> sticky_repin key a b st | None \<Rightarrow> st), s)
      | Full full \<Rightarrow>
          if full = 0 then Some (Inl 503, n, st, s)
          else
            (case park_for_slot full (case hc_cap cfg of Some k \<Rightarrow> k | None \<Rightarrow> U64_MAX) (pe_looks pe) of
               None \<Rightarrow> None
             | Some (Inl status) \<Rightarrow> Some (Inl status, n, st, s)
             | Some (Inr _) \<Rightarrow>
                 map_option (\<lambda>(answer, m, st, s). (answer, n + m, st, s))
                   (dispatch_passes cfg mode sockets pinned True pes st s)))"

text \<open>
  \<open>parked\<close> is the number of parked requests a capped arrival sees, \<open>looks\<close> what it sees while it
  waits behind them.
\<close>

definition send_worker_frame_to_pool ::
  "hop_config \<Rightarrow> dispatch_mode \<Rightarrow> usize \<Rightarrow> u64 option \<Rightarrow> gauges \<Rightarrow> usize \<Rightarrow> (bool \<times> gauges) list \<Rightarrow> pass_env list
     \<Rightarrow> sticky_store \<Rightarrow> hop_state \<Rightarrow> ((u16 + u16) \<times> nat \<times> sticky_store \<times> hop_state) option" where
  "send_worker_frame_to_pool cfg mode sockets sticky_key g parked looks pes st s =
     (if sockets = 0 then Some (Inl 503, 0, st, s)
      else
        (let (pinned, st) =
               (if mode = Sticky then
                  (case sticky_key of
                     Some key \<Rightarrow>
                       (let (idx, st) = sticky_lookup_or_assign g key sockets st in (Some (key, idx), st))
                   | None \<Rightarrow> (None, sticky_note_fallback st))
                else (None, st));
             first = (case hc_cap cfg of
                        Some kv \<Rightarrow> if parked > 0 then park_for_slot (- 1) kv looks else Some (Inr ())
                      | None \<Rightarrow> Some (Inr ()))
         in
         case first of
           None \<Rightarrow> None
         | Some (Inl status) \<Rightarrow> Some (Inl status, 0, st, s)
         | Some (Inr _) \<Rightarrow> dispatch_passes cfg mode sockets pinned False pes st s))"

section \<open>Deliveries\<close>

lemma exchange_delivery:
  assumes "exchange_frames accepts caps keepalive ds c reg d = (r, c', reg', d')"
  shows "r = Inl (StaleBeforeDispatch b) \<Longrightarrow> b = write_ok c" and "r = Inr x \<Longrightarrow> write_ok c"
  using assms
  by (auto simp: exchange_frames_def Let_def map_err_def
      split: if_splits prod.splits sum.splits option.splits response_frame.splits)

lemma run_exchange_delivery:
  assumes "run_exchange cfg ds conn s = (r, n, conn', s')"
  shows "n \<le> 1" and "r = Inl (StaleBeforeDispatch b) \<Longrightarrow> n = (if b then 1 else 0)" and "r = Inr x \<Longrightarrow> n = 1"
  using assms exchange_delivery
  by (auto simp: run_exchange_def split: prod.splits)

lemma retry_exchange_delivery:
  assumes "retry_exchange cfg idx env k s = (r, n, s')"
  shows "n \<le> k + 1 \<and> (r \<noteq> Inl AtCapacity) \<and> (r = Inl FrameConnect \<longrightarrow> n = k) \<and> (\<forall>status. r = Inr status \<longrightarrow> n = k + 1)"
  using assms run_exchange_delivery
  by (auto simp: retry_exchange_def Let_def split: option.splits prod.splits sum.splits)

text \<open>What an attempt at an asynchronous worker may have delivered, by its outcome.\<close>

fun send_deliveries :: "frame_send_error + u16 \<Rightarrow> nat set" where
  "send_deliveries (Inr _) = {1}"
| "send_deliveries (Inl (FrameAfterWrite _)) = {0, 1}"
| "send_deliveries (Inl _) = {0}"

lemma send_to_worker_async:
  assumes "hc_kind cfg = Async" and "send_to_worker cfg idx env s = (r, n, s')"
  shows "n \<in> send_deliveries r"
proof -
  consider (early) "n = 0" "r = Inl (FrameAfterWrite 503) \<or> r = Inl AtCapacity \<or> r = Inl FrameConnect"
    | (run) conn reused s1 x k conn' s2 where "connection_for idx env s = (Some (conn, reused), s1)"
      "run_exchange cfg (ae_drain env) conn s1 = (x, k, conn', s2)"
      "(case x of
          Inr (status, reusable) \<Rightarrow>
            (Inr status, k, if reusable \<and> \<not> ae_drained_after env then checkin_hop idx conn' s2 else s2)
        | Inl (StaleBeforeDispatch b) \<Rightarrow>
            if reused \<and> (\<not> b \<or> hc_kind cfg \<noteq> Async) then retry_exchange cfg idx env k s2
            else (Inl (FrameAfterWrite (exchange_error_status (StaleBeforeDispatch b))), k, s2)
        | Inl e \<Rightarrow> (Inl (FrameAfterWrite (exchange_error_status e)), k, s2)) = (r, n, s')"
    using assms(2)
    by (auto simp: send_to_worker_def split: if_splits prod.splits option.splits)
  then show ?thesis
  proof cases
    case early
    then show ?thesis by auto
  next
    case run
    note k = run_exchange_delivery [OF run(2)]
    show ?thesis
    proof (cases x)
      case (Inr y)
      with run(3) k(3) show ?thesis by (cases y) auto
    next
      case (Inl e)
      show ?thesis
      proof (cases e)
        case (XStatus status)
        with Inl run(3) k(1) show ?thesis by auto
      next
        case (StaleBeforeDispatch b)
        with Inl run(3) k(1) k(2) [of b] assms(1) retry_exchange_delivery [of cfg idx env k s2 r n s'] show ?thesis
          by (cases r rule: send_deliveries.cases) (auto split: if_splits)
      qed
    qed
  qed
qed

fun pass_deliveries :: "pass_result \<Rightarrow> nat set" where
  "pass_deliveries (Done (Inr _) _) = {1}"
| "pass_deliveries (Done (Inl _) _) = {0, 1}"
| "pass_deliveries (Full _) = {0}"

lemma try_candidates_async:
  assumes "hc_kind cfg = Async"
  shows "try_candidates cfg pinned envs failed full order s = (r, n, s') \<Longrightarrow> n \<in> pass_deliveries r"
proof (induction order arbitrary: failed full s r n s')
  case (Cons idx order)
  obtain x k s1 where send: "send_to_worker cfg idx (envs idx) s = (x, k, s1)" by (metis prod_cases3)
  note k = send_to_worker_async [OF assms send]
  show ?case
  proof (cases x rule: send_deliveries.cases)
    case (1 status)
    with Cons.prems send k show ?thesis by auto
  next
    case (2 status)
    with Cons.prems send k show ?thesis by auto
  next
    case "3_1"
    with Cons.prems send k Cons.IH show ?thesis by (auto simp: Let_def split: prod.splits)
  next
    case "3_2"
    with Cons.prems send k Cons.IH show ?thesis by (auto simp: Let_def split: prod.splits)
  qed
qed auto

fun answer_deliveries :: "u16 + u16 \<Rightarrow> nat set" where
  "answer_deliveries (Inr _) = {1}"
| "answer_deliveries (Inl _) = {0, 1}"

lemma dispatch_passes_async:
  assumes "hc_kind cfg = Async"
  shows "dispatch_passes cfg mode sockets pinned woken pes st s = Some (answer, n, st', s') \<Longrightarrow>
    n \<in> answer_deliveries answer"
proof (induction pes arbitrary: pinned woken st s answer n st' s')
  case (Cons pe pes)
  obtain order pinned' st1 where order: "pass_order mode sockets pinned woken pe st = (order, pinned', st1)"
    by (metis prod_cases3)
  obtain r k s1 where pass: "try_candidates cfg pinned' (pe_attempts pe) False 0 order s = (r, k, s1)"
    by (metis prod_cases3)
  note k = try_candidates_async [OF assms pass]
  show ?case
  proof (cases r)
    case (Done a move)
    with Cons.prems order pass k show ?thesis by (cases a) auto
  next
    case (Full full)
    with Cons.prems order pass k Cons.IH show ?thesis
      by (auto split: if_splits option.splits sum.splits)
  qed
qed simp

text \<open>
  C7: A request is never replayed to asynchronous workers. Whatever happens to connections,
  workers, capacity, draining and pins, over any number of passes: the complete request is
  written to at most one worker, once, and an answer is relayed only after exactly one delivery.
  An attempt that may have reached a worker ends the dispatch instead of moving to another one.
\<close>
theorem async_request_delivered_once:
  assumes "hc_kind cfg = Async"
    and "send_worker_frame_to_pool cfg mode sockets sticky_key g parked looks pes st s = Some (answer, n, st', s')"
  shows "n \<le> 1 \<and> (case answer of Inr status \<Rightarrow> n = 1 | Inl status \<Rightarrow> True)"
proof -
  have "n \<in> answer_deliveries answer"
    using assms(2) dispatch_passes_async [OF assms(1)]
    by (auto simp: send_worker_frame_to_pool_def Let_def split: if_splits prod.splits option.splits sum.splits)
  then show ?thesis by (cases answer) auto
qed

section \<open>Replays to classic workers\<close>





text \<open>
  A worker that has gone away: its oldest pooled connection still takes a request and then ends
  without an answer, and its socket does not accept a new connection.
\<close>

definition oldest_conn :: "usize \<Rightarrow> worker_frame_pool \<Rightarrow> pooled_conn option" where
  "oldest_conn idx p =
     (case map_of (pi_by_key (cp_inner (wp_pool p))) (of_nat idx) of Some ((_, e) # _) \<Rightarrow> Some (en_conn e) | _ \<Rightarrow> None)"

definition closes_silently :: "pooled_conn \<Rightarrow> bool" where
  "closes_silently c \<longleftrightarrow>
     pc_buf c = [] \<and> pc_pos c = 0 \<and> write_ok c \<and> (case pc_reads c of FrBytes [] # _ \<Rightarrow> True | _ \<Rightarrow> False)"

definition gone_attempt :: "attempt_env \<Rightarrow> bool" where
  "gone_attempt env \<longleftrightarrow>
     \<not> ae_draining env \<and> (case ae_unwrap env of (sole, _) # _ \<Rightarrow> sole | [] \<Rightarrow> False) \<and> ae_live env \<and> ae_reconnect env = None"

definition gone_worker :: "attempt_env \<Rightarrow> usize \<Rightarrow> worker_frame_pool \<Rightarrow> bool" where
  "gone_worker env idx p \<longleftrightarrow>
     gone_attempt env \<and> (case oldest_conn idx p of Some c \<Rightarrow> closes_silently c | None \<Rightarrow> False)"

lemma stale_exchange:
  assumes "closes_silently c"
  shows "\<exists>c'. exchange_frames accepts caps keepalive ds c reg d = (Inl (StaleBeforeDispatch True), c', reg, d)"
proof -
  obtain rs ws where "c = conn_new (FrBytes [] # rs) (True # ws)"
    using assms by (cases c) (auto simp: closes_silently_def write_ok_def conn_new_def split: list.splits frame_read.splits)
  then show ?thesis
    by (simp add: exchange_frames_def conn_new_def write_ok_def read_frame_def compact_buffer_def
        fill_to.simps read_some_def available_def PREFIX_LEN_def then_do_def Let_def)
qed

lemma checkout_oldest:
  assumes "oldest_conn idx p = Some c"
  obtains p' where "checkout idx ((True, waited) # attempts) True p = (Some c, p')"
    and "\<And>j. (of_nat j :: u64) \<noteq> of_nat idx \<Longrightarrow> oldest_conn j p' = oldest_conn j p"
proof -
  obtain sq e node where node: "map_of (pi_by_key (cp_inner (wp_pool p))) (of_nat idx) = Some ((sq, e) # node)"
    and c: "c = en_conn e"
    using assms by (auto simp: oldest_conn_def split: option.splits list.splits)
  have others: "map_of (drop_empty_node (of_nat idx) (AList.update (of_nat idx) node bk)) (of_nat j) = map_of bk (of_nat j)"
    if "(of_nat j :: u64) \<noteq> of_nat idx" for j and bk :: "(u64 \<times> pooled_conn node) list"
    using that by (simp add: drop_empty_node_def update_conv' delete_conv')
  obtain p' where "checkout idx ((True, waited) # attempts) True p = (Some c, p')" and
    "pi_by_key (cp_inner (wp_pool p')) = drop_empty_node (of_nat idx) (AList.update (of_nat idx) node (pi_by_key (cp_inner (wp_pool p))))"
    using node c by (simp add: checkout_def pool_get_def Let_def)
  with others that show thesis by (simp add: oldest_conn_def)
qed

lemma send_to_gone_worker:
  assumes "hc_cap cfg = None" and "gone_worker env idx (hs_pool s)"
  obtains s' where "send_to_worker cfg idx env s =
      (if hc_kind cfg = Async then Inl (FrameAfterWrite 502) else Inl FrameConnect, 1, s')"
    and "\<And>j. (of_nat j :: u64) \<noteq> of_nat idx \<Longrightarrow> oldest_conn j (hs_pool s') = oldest_conn j (hs_pool s)"
proof -
  obtain c waited attempts where c: "oldest_conn idx (hs_pool s) = Some c" "closes_silently c"
    and env: "ae_unwrap env = (True, waited) # attempts" "\<not> ae_draining env" "ae_live env" "ae_reconnect env = None"
    using assms(2) by (auto simp: gone_worker_def gone_attempt_def split: option.splits list.splits)
  obtain p where p: "checkout idx ((True, waited) # attempts) True (hs_pool s) = (Some c, p)"
    "\<And>j. (of_nat j :: u64) \<noteq> of_nat idx \<Longrightarrow> oldest_conn j p = oldest_conn j (hs_pool s)"
    using checkout_oldest [OF c(1)] by metis
  obtain c' where x: "run_exchange cfg (ae_drain env) c (s\<lparr>hs_pool := p\<rparr>) =
      (Inl (StaleBeforeDispatch True), 1, c', s\<lparr>hs_pool := p\<rparr>)"
    using stale_exchange [OF c(2), of "hc_accepts cfg" response_frame_caps "hc_keepalive cfg" "ae_drain env" "hs_registry s" "hs_down s"]
      c(2) by (auto simp: run_exchange_def closes_silently_def)
  show thesis
    by (rule that [of "if hc_kind cfg = Async then s\<lparr>hs_pool := p\<rparr> else count_stale (s\<lparr>hs_pool := p\<rparr>)"])
      (use assms(1) env p x in \<open>auto simp: send_to_worker_def connection_for_def try_acquire_def retry_exchange_def
        count_stale_def oldest_conn_def Let_def\<close>)
qed



section \<open>A scenario\<close>

text \<open>Three workers that have gone away.\<close>

definition stale_conn :: pooled_conn where
  "stale_conn = conn_new [FrBytes []] [True]"

definition dead_attempt :: attempt_env where
  "dead_attempt = \<lparr>ae_draining = False, ae_load = 0, ae_unwrap = [(True, 0)], ae_live = True, ae_connect = None,
     ae_gauges = (\<lambda>_. 0), ae_drain = [], ae_drained_after = False, ae_reconnect = None, ae_redrain = [],
     ae_redrained_after = False\<rparr>"

definition stale_pool :: worker_frame_pool where
  "stale_pool = checkin 2 stale_conn (checkin 1 stale_conn (checkin 0 stale_conn (from_ceiling 8 CeilingDefault 20)))"

definition stale_state :: hop_state where
  "stale_state = \<lparr>hs_pool = stale_pool,
     hs_registry = registry_new \<lparr>ll_max_connections = 1, ll_max_buffered_bytes = 100\<rparr>,
     hs_down = \<lparr>dn_written = [], dn_fails = (\<lambda>_. None)\<rparr>\<rparr>"

definition stale_pass :: pass_env where
  "stale_pass = \<lparr>pe_next_worker = 0, pe_gauges = (\<lambda>_. 0), pe_attempts = (\<lambda>_. dead_attempt), pe_looks = []\<rparr>"

definition hop_for :: "edge_worker_kind \<Rightarrow> hop_config" where
  "hop_for kind = \<lparr>hc_accepts = (\<lambda>_. True), hc_kind = kind, hc_cap = None, hc_keepalive = False\<rparr>"

lemma stale_pool_entries:
  "pi_by_key (cp_inner (wp_pool stale_pool)) =
     map (\<lambda>i. (of_nat i, [(i + 1, \<lparr>en_conn = stale_conn, en_id = of_nat (i + 1)\<rparr>)])) [0, 1, 2]"
  by (simp add: stale_pool_def checkin_def has_surplus_def available_def stale_conn_def conn_new_def from_ceiling_def
      pool_with_size_def pool_new_def pool_put_def link_entry_def Let_def)

lemma stale_workers_gone: "i < 3 \<Longrightarrow> gone_worker (pe_attempts stale_pass i) i (hs_pool stale_state)"
proof -
  assume "i < 3"
  then have "i = 0 \<or> i = 1 \<or> i = 2" by linarith
  then show ?thesis
    by (auto simp: gone_worker_def gone_attempt_def dead_attempt_def stale_pass_def stale_state_def oldest_conn_def
        stale_pool_entries closes_silently_def stale_conn_def conn_new_def write_ok_def)
qed


theorem async_request_delivered_once_witness:
  "\<exists>st s. send_worker_frame_to_pool (hop_for Async) Rr 3 None (\<lambda>_. 0) 0 [] [stale_pass] sticky_new stale_state =
      Some (Inl 502, 1, st, s) \<and> (1 :: nat) \<le> 1"
proof -
  have async: "hc_kind (hop_for Async) = Async" "hc_cap (hop_for Async) = None" by (simp_all add: hop_for_def)
  have "pass_order Rr 3 None False stale_pass sticky_new = ([0, 1, 2], None, sticky_new)"
    by (simp add: pass_order_def stale_pass_def candidate_order_with_def upt_rec)
  moreover obtain s' where "send_to_worker (hop_for Async) 0 (pe_attempts stale_pass 0) stale_state =
      (Inl (FrameAfterWrite 502), 1, s')"
    using send_to_gone_worker [OF async(2) stale_workers_gone [of 0]] async(1) by auto
  ultimately obtain st s where run: "send_worker_frame_to_pool (hop_for Async) Rr 3 None (\<lambda>_. 0) 0 [] [stale_pass] sticky_new
      stale_state = Some (Inl 502, 1, st, s)"
    using async by (simp add: send_worker_frame_to_pool_def)
  with async_request_delivered_once [OF async(1) run] show ?thesis by blast
qed

end
