(* ===== verification/Edge_Proxy.thy ===== *)
theory Edge_Proxy
  imports Edge_Telemetry Edge_Identity Frame_Request Frame_Send
begin

text \<open>
  The request path of the edge, \<open>EdgeProxy\<close> of \<open>crates/oxo-pingora-edge/src/platform/proxy.rs\<close>: the
  boot-time pin set of static routing, the shared admission pipeline \<open>admit\<close>, and the whole of
  \<open>request_filter\<close>, from the keepalive posture to the recorded outcome, with the validators,
  sanitizers and both worker hops of the other theories in the places where the code calls them.

  The session is the client's request and what was done to the connection; the edge's shared
  state is one record. What the code cannot decide itself is the record \<open>hop_env\<close>: the header
  library's reading of values, whether draining has begun, what the static server (a library)
  answers, and what the workers do. A guard object is its value, and leaving its scope is the
  call of its drop function. The diagnostic route of the \<open>edge-bench\<close> feature is not modelled.
\<close>

section \<open>Static routing\<close>

definition first_path_segment :: "string \<Rightarrow> string" where
  "first_path_segment path =
     (let trimmed = (case path of c # cs \<Rightarrow> if c = CHR ''/'' then cs else path | [] \<Rightarrow> path)
      in takeWhile (\<lambda>c. c \<noteq> CHR ''/'') trimmed)"

definition is_static_candidate :: "string list option \<Rightarrow> string \<Rightarrow> bool" where
  "is_static_candidate prod_pin path =
     (case prod_pin of
        None \<Rightarrow> True
      | Some pin \<Rightarrow> (let seg = first_path_segment path in CHR ''%'' \<in> set seg \<or> seg \<in> set pin))"

record mount_spec =
  ms_prefix :: string
  ms_docroot :: path

definition MAX_PINNED_ENTRIES :: usize where "MAX_PINNED_ENTRIES = 65536"

text \<open>A hash set is a list without repetition; \<open>read_dir\<close> lists a directory or fails, entry by entry.\<close>

fun pin_entries :: "(string + os_string) list \<Rightarrow> string list \<Rightarrow> edge_error + string list" where
  "pin_entries [] pin = Inr pin"
| "pin_entries (entry # entries) pin =
     (case entry of
        Inl err \<Rightarrow> Inl (ConfigEnv ''OXO_EDGE_PROD'' (OtherMessage ''cannot read a static docroot entry''))
      | Inr name \<Rightarrow>
          (let pin = (if rust_str name then List.insert name pin else pin) in
           if length pin > MAX_PINNED_ENTRIES
           then Inl (ConfigEnv ''OXO_EDGE_PROD'' (OtherMessage ''too many top-level entries''))
           else pin_entries entries pin))"

fun pin_mounts ::
  "(path \<Rightarrow> string + (string + os_string) list) \<Rightarrow> mount_spec list \<Rightarrow> string list \<Rightarrow> edge_error + string list" where
  "pin_mounts read_dir [] pin = Inr pin"
| "pin_mounts read_dir (mount # mounts) pin =
     (let seg = first_path_segment (ms_prefix mount) in
      if seg \<noteq> [] then pin_mounts read_dir mounts (List.insert seg pin)
      else
        (case read_dir (ms_docroot mount) of
           Inl err \<Rightarrow> Inl (ConfigEnv ''OXO_EDGE_PROD'' (OtherMessage ''cannot enumerate static docroot''))
         | Inr entries \<Rightarrow>
             and_then (pin_entries entries (List.insert [] pin)) (\<lambda>pin. pin_mounts read_dir mounts pin)))"

definition build_prod_pin_set ::
  "(path \<Rightarrow> string + (string + os_string) list) \<Rightarrow> mount_spec list \<Rightarrow> edge_error + string list" where
  "build_prod_pin_set read_dir mounts = pin_mounts read_dir mounts []"

section \<open>State\<close>

datatype worker_hop = HopFrame | HopHttp

datatype client_addr = Inet socket_addr | OtherAddr string

record session =
  se_request :: frame_client_request
  se_raw_headers :: "(string \<times> u8 list) list"
  se_client_addr :: "client_addr option"
  se_established_nanos :: "u64 option"
  se_body :: "body_read list"
  se_down :: downstream
  se_keepalive :: "u64 option"
  se_errors :: "u16 list"
  se_respond_ok :: bool

record edge_state =
  es_gate :: gate
  es_identity :: identity_limiter
  es_registry :: registry
  es_telemetry :: telemetry
  es_pool :: worker_frame_pool
  es_sticky :: sticky_store
  es_next_worker :: u64
  es_sequence :: u64

record edge_proxy =
  ep_sockets :: "string list"
  ep_max_body :: u64
  ep_server_name :: string
  ep_server_port :: u16
  ep_url_scheme :: string
  ep_public_server_name :: "string option"
  ep_identity :: identity_policy
  ep_max_requests :: "u64 option"
  ep_sse :: bool
  ep_cable_bind :: "socket_addr option"
  ep_grpc_bind :: "socket_addr option"
  ep_static :: bool
  ep_prod_pin :: "string list option"
  ep_keepalive_enabled :: bool
  ep_keepalive_secs :: u64
  ep_worker_hop :: worker_hop
  ep_hop :: hop_config
  ep_mode :: dispatch_mode
  ep_pid :: u32

text \<open>What one attempt of the HTTP hop meets, and what the rest of the world shows a request.\<close>

record http_attempt =
  ha_drain :: bool
  ha_connect :: bool
  ha_write :: bool
  ha_shutdown :: bool
  ha_reads :: reads

record hop_env =
  io_to_str :: "u8 list \<Rightarrow> string option"
  io_hash :: "socket_addr \<Rightarrow> u64 \<Rightarrow> u64"
  io_draining :: bool
  io_static :: "(bool \<times> u16) option"
  io_attempts :: "nat \<Rightarrow> http_attempt"
  io_gauges :: gauges
  io_parked :: usize
  io_looks :: "(bool \<times> gauges) list"
  io_passes :: "pass_env list"

section \<open>Admission\<close>

datatype edge_route = RouteWorker | RouteActionCable socket_addr | RouteGrpc socket_addr

record request_context =
  cx_route :: edge_route
  cx_request_id :: "string option"
  cx_global :: bool
  cx_identity :: "string option"
  cx_long_lived :: "long_lived_admission option"
  cx_grpc_request_bytes :: u64
  cx_grpc_response_bytes :: u64
  cx_outcome_recorded :: bool

datatype filter_result = Handled | ToSidecar request_context | FilterFailed

record admission =
  ad_remote_addr :: string
  ad_global :: bool
  ad_identity :: "string option"
  ad_long_lived :: "long_lived_admission option"

definition drop_global :: "bool \<Rightarrow> edge_state \<Rightarrow> edge_state" where
  "drop_global held st = (if held then st\<lparr>es_gate := global_release (es_gate st)\<rparr> else st)"

definition drop_identity :: "string option \<Rightarrow> edge_state \<Rightarrow> edge_state" where
  "drop_identity guard st =
     (case guard of Some i \<Rightarrow> st\<lparr>es_identity := identity_release i (es_identity st)\<rparr> | None \<Rightarrow> st)"

definition respond :: "u16 \<Rightarrow> session \<Rightarrow> filter_result \<times> session" where
  "respond status ses =
     (if se_respond_ok ses then Handled else FilterFailed, ses\<lparr>se_errors := se_errors ses @ [status]\<rparr>)"

definition noted :: "(telemetry \<Rightarrow> telemetry) \<Rightarrow> edge_state \<Rightarrow> edge_state" where
  "noted f st = st\<lparr>es_telemetry := f (es_telemetry st)\<rparr>"

definition reject :: "string \<Rightarrow> u16 \<Rightarrow> session \<Rightarrow> edge_state \<Rightarrow> filter_result \<times> session \<times> edge_state" where
  "reject rid status ses st =
     (let (r, ses) = respond status ses in (r, ses, noted (record_rejection rid status) st))"

definition direct_public_remote_addr :: "client_addr option \<Rightarrow> string" where
  "direct_public_remote_addr addr =
     (case addr of
        None \<Rightarrow> ''127.0.0.1''
      | Some (Inet a) \<Rightarrow> show_ip (sock_ip a)
      | Some (OtherAddr s) \<Rightarrow> s)"

definition client_identity ::
  "identity_policy \<Rightarrow> client_addr option \<Rightarrow> lowered_header list \<Rightarrow> identity_rejection + string" where
  "client_identity policy addr raw =
     (case policy of
        DirectPublic \<Rightarrow> Inr (direct_public_remote_addr addr)
      | TrustedProxy cidrs \<Rightarrow>
          (let peer_ip = (case addr of
                            None \<Rightarrow> Some (V4 V4_LOCALHOST)
                          | Some (Inet a) \<Rightarrow> Some (sock_ip a)
                          | Some (OtherAddr _) \<Rightarrow> None)
           in and_then (ok_or MalformedImmediatePeer peer_ip) (\<lambda>ip.
              resolve_remote_addr_core cidrs ip (map (\<lambda>h. (lowered_lower h, lh_value h)) raw))))"

definition admit ::
  "edge_proxy \<Rightarrow> lowered_header list \<Rightarrow> string \<Rightarrow> bool \<Rightarrow> session \<Rightarrow> edge_state
     \<Rightarrow> (filter_result + admission) \<times> session \<times> edge_state" where
  "admit p raw rid want_long_lived ses st =
     (case global_acquire (ep_max_requests p) (es_gate st) of
        (Inl _, g) \<Rightarrow>
          (let (r, ses) = respond 503 ses in (Inl r, ses, noted (record_overloaded rid) (st\<lparr>es_gate := g\<rparr>)))
      | (Inr global, g) \<Rightarrow>
          (let st = st\<lparr>es_gate := g\<rparr> in
           case client_identity (ep_identity p) (se_client_addr ses) raw of
             Inl rejection \<Rightarrow>
               (let (r, ses, st) = reject rid (rejection_status rejection) ses st in (Inl r, ses, drop_global global st))
           | Inr remote \<Rightarrow>
               (case identity_acquire remote (es_identity st) of
                  (Inl _, il) \<Rightarrow>
                    (let (r, ses) = respond 503 ses in
                     (Inl r, ses, drop_global global (noted (record_rate_limited rid) (st\<lparr>es_identity := il\<rparr>))))
                | (Inr ident, il) \<Rightarrow>
                    (let st = st\<lparr>es_identity := il\<rparr> in
                     if want_long_lived then
                       (case try_admit (es_registry st) of
                          (None, reg) \<Rightarrow>
                            (let (r, ses, st) = reject rid 503 ses (st\<lparr>es_registry := reg\<rparr>) in
                             (Inl r, ses, drop_global global (drop_identity ident st)))
                        | (Some a, reg) \<Rightarrow>
                            (Inr \<lparr>ad_remote_addr = remote, ad_global = global, ad_identity = ident,
                               ad_long_lived = Some a\<rparr>, ses, st\<lparr>es_registry := reg\<rparr>))
                     else
                       (Inr \<lparr>ad_remote_addr = remote, ad_global = global, ad_identity = ident,
                          ad_long_lived = None\<rparr>, ses, st)))))"

section \<open>The worker hops\<close>

definition sticky_key_from_parts :: "(socket_addr \<Rightarrow> u64 \<Rightarrow> u64) \<Rightarrow> bool \<Rightarrow> socket_addr option \<Rightarrow> u64 option \<Rightarrow> u64 option" where
  "sticky_key_from_parts hash_conn is_h2 peer established =
     (if is_h2 then None
      else case (peer, established) of
        (Some addr, Some nanos) \<Rightarrow> if nanos \<noteq> 0 then Some (hash_conn addr nanos) else None
      | _ \<Rightarrow> None)"

definition sticky_conn_key :: "hop_env \<Rightarrow> session \<Rightarrow> u64 option" where
  "sticky_conn_key io ses =
     sticky_key_from_parts (io_hash io) (cr_http2 (se_request ses))
       (case se_client_addr ses of Some (Inet a) \<Rightarrow> Some a | _ \<Rightarrow> None) (se_established_nanos ses)"

definition http_steps :: "bool \<Rightarrow> registry \<Rightarrow> downstream \<Rightarrow> http_attempt \<Rightarrow> send_steps" where
  "http_steps keepalive reg d a =
     \<lparr>ss_drain = ha_drain a, ss_connect = ha_connect a, ss_write = ha_write a, ss_shutdown = ha_shutdown a,
      ss_response = fst (read_worker_response_and_write (ha_reads a) keepalive reg d)\<rparr>"

text \<open>
  The HTTP hop. Attempts before the last failed to connect and touched nothing, so the registry
  and the session are those the last attempt leaves. The number says whether the request was
  written to a worker.
\<close>

definition http_hop ::
  "(nat \<Rightarrow> http_attempt) \<Rightarrow> bool \<Rightarrow> string list \<Rightarrow> edge_state \<Rightarrow> downstream
     \<Rightarrow> (u16 + u16) \<times> nat \<times> edge_state \<times> downstream" where
  "http_hop attempts keepalive sockets st d =
     (let (r, tried, next) = send_worker_request_to_pool
            (\<lambda>k. http_steps keepalive (es_registry st) d (attempts k)) sockets (es_next_worker st);
          st = st\<lparr>es_next_worker := next\<rparr>;
          a = attempts (length tried - 1);
          connected = (tried \<noteq> [] \<and> \<not> ha_drain a \<and> ha_connect a)
      in if connected \<and> ha_write a \<and> ha_shutdown a then
           (let (_, reg, d) = read_worker_response_and_write (ha_reads a) keepalive (es_registry st) d
            in (r, 1, st\<lparr>es_registry := reg\<rparr>, d))
         else (r, if connected \<and> ha_write a then 1 else 0, st, d))"

text \<open>
  The frame hop. Its passes read and advance the shared rotation counter together with the requests
  running beside it, so the value a pass reads is part of its environment (\<open>pe_next_worker\<close>).
\<close>

definition frame_hop ::
  "edge_proxy \<Rightarrow> hop_env \<Rightarrow> session \<Rightarrow> edge_state \<Rightarrow> ((u16 + u16) \<times> nat \<times> session \<times> edge_state) option" where
  "frame_hop p io ses st =
     (let key = (if ep_mode p = Sticky then sticky_conn_key io ses else None) in
      map_option (\<lambda>(r, n, sticky, s).
          (r, n, ses\<lparr>se_down := hs_down s\<rparr>,
           st\<lparr>es_pool := hs_pool s, es_registry := hs_registry s, es_sticky := sticky\<rparr>))
        (send_worker_frame_to_pool (ep_hop p) (ep_mode p) (length (ep_sockets p)) key (io_gauges io)
           (io_parked io) (io_looks io) (io_passes io) (es_sticky st)
           \<lparr>hs_pool = es_pool st, hs_registry = es_registry st, hs_down = se_down ses\<rparr>))"

datatype hop_prep = PrepFrame frame_header_plan | PrepHttp "header list"

definition prepare_hop ::
  "edge_proxy \<Rightarrow> lowered_header list \<Rightarrow> string \<Rightarrow> string \<Rightarrow> request_rejection + hop_prep" where
  "prepare_hop p raw remote rid =
     (let protocols = \<lparr>ps_sse = ep_sse p\<rparr> in
      case ep_worker_hop p of
        HopFrame \<Rightarrow> and_then (sanitize_frame_headers raw protocols) (\<lambda>plan. Inr (PrepFrame plan))
      | HopHttp \<Rightarrow>
          (let metadata = \<lparr>tm_remote_addr = remote, tm_url_scheme = ep_url_scheme p, tm_server_name = ep_server_name p,
                 tm_server_port = ep_server_port p, tm_request_id = Some rid\<rparr>
           in and_then (sanitize_lowered raw metadata protocols) (\<lambda>s. Inr (PrepHttp (sr_headers s)))))"

text \<open>The hop itself: the answer, what was sent and how often, and the state after it.\<close>

definition run_hop ::
  "edge_proxy \<Rightarrow> hop_env \<Rightarrow> lowered_header list \<Rightarrow> string \<Rightarrow> hop_prep \<Rightarrow> u8 list \<Rightarrow> session \<Rightarrow> edge_state
     \<Rightarrow> ((u16 + u16) \<times> (u8 list \<times> nat) option \<times> session \<times> edge_state) option" where
  "run_hop p io raw remote prep body ses st =
     (case prep of
        PrepFrame plan \<Rightarrow>
          (case build_request_frame_bytes_into [] (se_request ses) raw plan body (ep_url_scheme p) (ep_server_name p)
                  (ep_server_port p) remote of
             Inl status \<Rightarrow> Some (Inl status, None, ses, st)
           | Inr bytes \<Rightarrow> map_option (\<lambda>(r, n, ses, st). (r, Some (bytes, n), ses, st)) (frame_hop p io ses st))
      | PrepHttp headers \<Rightarrow>
          (case build_worker_request (client_request.truncate (se_request ses)) headers body of
             Inl status \<Rightarrow> Some (Inl status, None, ses, st)
           | Inr bytes \<Rightarrow>
               (let (r, n, st, d) = http_hop (io_attempts io) (ep_keepalive_enabled p) (ep_sockets p) st (se_down ses)
                in Some (r, Some (bytes, n), ses\<lparr>se_down := d\<rparr>, st))))"

section \<open>The request filter\<close>

type_synonym filter_out = "filter_result \<times> (u8 list \<times> nat) option \<times> session \<times> edge_state"

definition unsent :: "filter_result \<times> session \<times> edge_state \<Rightarrow> filter_out option" where
  "unsent out = (case out of (r, ses, st) \<Rightarrow> Some (r, None, ses, st))"

definition rejection_response :: "request_rejection \<Rightarrow> u16" where
  "rejection_response r = (case r of GrpcUnsupported \<Rightarrow> 415 | _ \<Rightarrow> 400)"

definition static_answer :: "edge_proxy \<Rightarrow> hop_env \<Rightarrow> session \<Rightarrow> (bool \<times> u16) option" where
  "static_answer p io ses =
     (let req = se_request ses in
      if ep_static p \<and> (cr_method req = ''GET'' \<or> cr_method req = ''HEAD'') \<and>
         is_static_candidate (ep_prod_pin p) (cr_path req)
      then io_static io else None)"

text \<open>
  From the admitted request to the answer, for the Rack workers. The static server writes its own
  response to the session, which \<open>se_down\<close> does not record: only its status and whether the
  connection stays usable are known here.
\<close>

definition worker_route ::
  "edge_proxy \<Rightarrow> hop_env \<Rightarrow> lowered_header list \<Rightarrow> string \<Rightarrow> u64 option \<Rightarrow> string \<Rightarrow> session \<Rightarrow> edge_state
     \<Rightarrow> filter_out option" where
  "worker_route p io raw rid content_len remote ses st =
     (case static_answer p io ses of
        Some (reusable, status) \<Rightarrow>
          unsent (Handled, if reusable then ses else ses\<lparr>se_keepalive := None\<rparr>, noted (record_response rid status) st)
      | None \<Rightarrow>
          (case prepare_hop p raw remote rid of
             Inl rejection \<Rightarrow> unsent (reject rid (rejection_response rejection) ses st)
           | Inr prep \<Rightarrow>
               (case read_complete_body (cr_http2 (se_request ses)) content_len (ep_max_body p) (se_body ses) of
                  Inl status \<Rightarrow> unsent (reject rid status ses st)
                | Inr body \<Rightarrow>
                    map_option (\<lambda>(r, sent, ses, st).
                        case r of
                          Inr status \<Rightarrow> (Handled, sent, ses, noted (record_response rid status) st)
                        | Inl status \<Rightarrow> (case reject rid status ses st of (r, ses, st) \<Rightarrow> (r, sent, ses, st)))
                      (run_hop p io raw remote prep body ses st))))"

definition release_admission :: "admission \<Rightarrow> filter_out \<Rightarrow> filter_out" where
  "release_admission a out =
     (case out of (r, sent, ses, st) \<Rightarrow> (r, sent, ses, drop_global (ad_global a) (drop_identity (ad_identity a) st)))"

definition rack_route ::
  "edge_proxy \<Rightarrow> hop_env \<Rightarrow> lowered_header list \<Rightarrow> string \<Rightarrow> session \<Rightarrow> edge_state \<Rightarrow> filter_out option" where
  "rack_route p io raw rid ses st =
     (case validate_client_request (client_request.truncate (se_request ses)) raw (ep_max_body p)
             (ep_public_server_name p) of
        Inl status \<Rightarrow> unsent (reject rid status ses st)
      | Inr content_len \<Rightarrow>
          (case admit p raw rid False ses st of
             (Inl r, ses, st) \<Rightarrow> unsent (r, ses, st)
           | (Inr a, ses, st) \<Rightarrow>
               map_option (release_admission a)
                 (worker_route p io raw rid content_len (ad_remote_addr a) ses st)))"

text \<open>A sidecar route: the guards move into the request's context.\<close>

definition sidecar_route ::
  "edge_proxy \<Rightarrow> lowered_header list \<Rightarrow> string \<Rightarrow> edge_route \<Rightarrow> u16 + unit \<Rightarrow> session \<Rightarrow> edge_state
     \<Rightarrow> filter_result \<times> session \<times> edge_state" where
  "sidecar_route p raw rid route checked ses st =
     (case checked of
        Inl status \<Rightarrow> reject rid status ses st
      | Inr _ \<Rightarrow>
          (case admit p raw rid True ses st of
             (Inl r, ses, st) \<Rightarrow> (r, ses, st)
           | (Inr a, ses, st) \<Rightarrow>
               (ToSidecar \<lparr>cx_route = route, cx_request_id = Some rid, cx_global = ad_global a,
                  cx_identity = ad_identity a, cx_long_lived = ad_long_lived a, cx_grpc_request_bytes = 0,
                  cx_grpc_response_bytes = 0, cx_outcome_recorded = False\<rparr>, ses, st)))"

definition route_request ::
  "edge_proxy \<Rightarrow> hop_env \<Rightarrow> string \<Rightarrow> session \<Rightarrow> edge_state \<Rightarrow> filter_out option" where
  "route_request p io rid ses st =
     (case collect_request_headers (io_to_str io) (se_raw_headers ses) of
        Inl status \<Rightarrow> unsent (reject rid status ses st)
      | Inr raw \<Rightarrow>
          (let req = client_request.truncate (se_request ses) in
           if io_draining io then unsent (reject rid 503 (ses\<lparr>se_keepalive := None\<rparr>) st)
           else case (if is_action_cable_upgrade_attempt req raw then ep_cable_bind p else None) of
             Some bind \<Rightarrow>
               unsent (sidecar_route p raw rid (RouteActionCable bind)
                 (validate_action_cable_request req raw (ep_public_server_name p) (ep_url_scheme p)
                    (ep_server_name p) (ep_server_port p)) ses st)
           | None \<Rightarrow>
               (case (if is_native_grpc_request_attempt raw then ep_grpc_bind p else None) of
                  Some bind \<Rightarrow>
                    unsent (sidecar_route p raw rid (RouteGrpc bind)
                      (validate_grpc_unary_request req raw (ep_max_body p) (ep_public_server_name p)) ses st)
                | None \<Rightarrow> rack_route p io raw rid ses st)))"

definition apply_keepalive_posture :: "edge_proxy \<Rightarrow> session \<Rightarrow> session" where
  "apply_keepalive_posture p ses =
     ses\<lparr>se_keepalive := (if ep_keepalive_enabled p then Some (ep_keepalive_secs p) else None)\<rparr>"

definition request_filter :: "edge_proxy \<Rightarrow> hop_env \<Rightarrow> session \<Rightarrow> edge_state \<Rightarrow> filter_out option" where
  "request_filter p io ses st =
     (let ses = apply_keepalive_posture p ses;
          seq = es_sequence st;
          rid = request_id_text (ep_pid p) seq;
          st = noted (start_request seq) (st\<lparr>es_sequence := seq + 1\<rparr>)
      in map_option (\<lambda>(r, sent, ses, st). (r, sent, ses, noted observation_drop st)) (route_request p io rid ses st))"

section \<open>Pinned static routing\<close>

lemma pin_entries_set:
  "pin_entries entries pin = Inr pin' \<Longrightarrow> set pin' = set pin \<union> {name. Inr name \<in> set entries \<and> rust_str name}"
proof (induction entries arbitrary: pin)
  case (Cons entry entries)
  then show ?case by (cases entry) (fastforce simp: Let_def split: if_splits)+
qed simp

text \<open>What a mount can serve: its own prefix, or the root index and the files of its directory.\<close>

definition mount_segments :: "(path \<Rightarrow> string + (string + os_string) list) \<Rightarrow> mount_spec \<Rightarrow> string set" where
  "mount_segments read_dir m =
     (let seg = first_path_segment (ms_prefix m) in
      if seg \<noteq> [] then {seg}
      else insert [] (case read_dir (ms_docroot m) of
        Inl _ \<Rightarrow> {} | Inr entries \<Rightarrow> {name. Inr name \<in> set entries \<and> rust_str name}))"

lemma mount_segments_simps:
  "first_path_segment (ms_prefix m) \<noteq> [] \<Longrightarrow> mount_segments read_dir m = {first_path_segment (ms_prefix m)}"
  "first_path_segment (ms_prefix m) = [] \<Longrightarrow> read_dir (ms_docroot m) = Inr entries \<Longrightarrow>
    mount_segments read_dir m = insert [] {name. Inr name \<in> set entries \<and> rust_str name}"
  by (simp_all add: mount_segments_def)

lemma pin_mounts_set:
  "pin_mounts read_dir mounts pin = Inr pin' \<Longrightarrow> set pin' = set pin \<union> (\<Union>m\<in>set mounts. mount_segments read_dir m)"
proof (induction mounts arbitrary: pin)
  case (Cons m mounts)
  show ?case
  proof (cases "first_path_segment (ms_prefix m) = []")
    case True
    with Cons.prems obtain entries pin1 where
      "read_dir (ms_docroot m) = Inr entries" "pin_entries entries (List.insert [] pin) = Inr pin1"
      "pin_mounts read_dir mounts pin1 = Inr pin'"
      by (auto elim!: and_then_InrE split: sum.splits)
    with Cons.IH True pin_entries_set show ?thesis by (fastforce simp: mount_segments_simps)
  next
    case False
    with Cons.prems Cons.IH show ?thesis by (simp add: mount_segments_simps)
  qed
qed simp

text \<open>
  Boot-time pinning of static routes loses nothing and keeps nothing extra. When the pin set
  was built, a request path is probed for a static file exactly when its first segment contains
  a percent sign, or is the first segment of a mount's prefix, or a root mount serves it: the bare
  root or a top-level entry of that mount's directory.
\<close>
theorem pinned_candidates_exact:
  assumes "build_prod_pin_set read_dir mounts = Inr pin"
  shows "is_static_candidate (Some pin) path \<longleftrightarrow>
    CHR ''%'' \<in> set (first_path_segment path) \<or>
    list_ex (\<lambda>m. first_path_segment path \<in> mount_segments read_dir m) mounts"
  using pin_mounts_set [of read_dir mounts "[]" pin] assms
  by (auto simp: build_prod_pin_set_def is_static_candidate_def list_ex_iff Let_def)

theorem pinned_candidates_exact_witness:
  "\<exists>pin. build_prod_pin_set (\<lambda>_. Inr [Inr ''robots.txt''])
       [\<lparr>ms_prefix = ''/assets'', ms_docroot = ''/srv/a''\<rparr>, \<lparr>ms_prefix = ''/'', ms_docroot = ''/srv/p''\<rparr>] = Inr pin \<and>
     is_static_candidate (Some pin) ''/robots.txt'' \<and> is_static_candidate (Some pin) ''/assets/app.js'' \<and>
     is_static_candidate (Some pin) ''/'' \<and> \<not> is_static_candidate (Some pin) ''/users/1''"
proof -
  let ?dir = "\<lambda>_ :: path. Inr [Inr ''robots.txt''] :: string + (string + os_string) list"
  let ?mounts = "[\<lparr>ms_prefix = ''/assets'', ms_docroot = ''/srv/a''\<rparr>, \<lparr>ms_prefix = ''/'', ms_docroot = ''/srv/p''\<rparr>]"
  have ascii: "rust_str ''robots.txt''" by code_simp
  then obtain pin where "build_prod_pin_set ?dir ?mounts = Inr pin"
    by (simp add: build_prod_pin_set_def first_path_segment_def MAX_PINNED_ENTRIES_def Let_def)
  with pinned_candidates_exact [OF this] ascii show ?thesis
    by (simp add: first_path_segment_def mount_segments_def Let_def)
qed

end
