(* ===== verification/Fd_Budget.thy ===== *)
theory Fd_Budget
  imports Rust_Str
begin

text \<open>
  \<open>crates/oxo-pingora-edge/src/fd_budget.rs\<close>: the boot-time file-descriptor budget, at the width
  of the code (\<open>u64\<close>, every sum saturating), with its operator messages. The process limit is an
  argument, as in the source; reading it (\<open>getrlimit\<close>) is not modelled.
\<close>

section \<open>The budget\<close>

definition RESERVE :: u64 where "RESERVE = 32"
definition MIN_DOWNSTREAM :: u64 where "MIN_DOWNSTREAM = 256"

datatype nofile = NofileUnknown | NofileUnlimited | NofileLimits u64 u64

datatype fd_verdict = VerdictOk | VerdictWarn | VerdictRefuse

fun verdict_as_str :: "fd_verdict \<Rightarrow> string" where
  "verdict_as_str VerdictOk = ''ok''"
| "verdict_as_str VerdictWarn = ''warn''"
| "verdict_as_str VerdictRefuse = ''refuse''"

record fd_budget =
  fb_listeners :: u64
  fb_hops :: u64
  fb_reserve :: u64
  fb_fixed :: u64
  fb_pool :: u64
  fb_in_flight_cap :: "u64 option"
  fb_demand :: u64
  fb_limits :: nofile
  fb_remainder :: "u64 option"
  fb_verdict :: fd_verdict

definition cap_demand :: "u64 option \<Rightarrow> u64" where
  "cap_demand cap = (case cap of None \<Rightarrow> 0 | Some c \<Rightarrow> saturating_mul c 2)"

definition make_fd_budget :: "nofile \<Rightarrow> u64 \<Rightarrow> u64 \<Rightarrow> u64 \<Rightarrow> u64 option \<Rightarrow> fd_budget" where
  "make_fd_budget limits listeners worker_count pool_ceiling in_flight_cap =
     (let hops = worker_count;
          fixed = saturating_add (saturating_add listeners hops) RESERVE;
          demand = saturating_add (saturating_add fixed pool_ceiling) (cap_demand in_flight_cap);
          (remainder, verdict) =
            (case limits of
               NofileLimits soft hard \<Rightarrow>
                 (Some (saturating_sub soft demand),
                  if fixed > soft then VerdictRefuse
                  else if saturating_add demand MIN_DOWNSTREAM > soft then VerdictWarn
                  else VerdictOk)
             | _ \<Rightarrow> (None, VerdictOk))
      in \<lparr>fb_listeners = listeners, fb_hops = hops, fb_reserve = RESERVE, fb_fixed = fixed,
          fb_pool = pool_ceiling, fb_in_flight_cap = in_flight_cap, fb_demand = demand,
          fb_limits = limits, fb_remainder = remainder, fb_verdict = verdict\<rparr>)"

section \<open>Messages\<close>

definition show_u64 :: "u64 \<Rightarrow> string" where
  "show_u64 n = to_string (unat n)"

definition fd_notice :: "fd_budget \<Rightarrow> string" where
  "fd_notice b =
     (let cap = (case fb_in_flight_cap b of Some c \<Rightarrow> '' + 2 x in-flight cap '' @ show_u64 c | None \<Rightarrow> []);
          limit = (case fb_limits b of
             NofileUnknown \<Rightarrow> ''process descriptor limit (RLIMIT_NOFILE) unknown on this platform''
           | NofileUnlimited \<Rightarrow> ''an unlimited process descriptor limit (RLIMIT_NOFILE)''
           | NofileLimits soft hard \<Rightarrow>
               ''process descriptor limit (RLIMIT_NOFILE) soft '' @ show_u64 soft @ '' / hard '' @ show_u64 hard);
          remainder = (case fb_remainder b of
             Some n \<Rightarrow>
               ''; remainder '' @ show_u64 n @ '' descriptors, about '' @ show_u64 (n div 2) @
               '' concurrent requests, each holding two descriptors''
           | None \<Rightarrow> []);
          excluded = (if fb_in_flight_cap b = None
            then ''; in-flight hops excluded from the demand (no global in-flight cap)'' else [])
      in ''oxo_edge_config_notice fd-budget: '' @ verdict_as_str (fb_verdict b) @ '' -- fixed '' @
         show_u64 (fb_fixed b) @ '' (listeners '' @ show_u64 (fb_listeners b) @ '' + worker hops '' @
         show_u64 (fb_hops b) @ '' + reserve '' @ show_u64 (fb_reserve b) @ '') + idle pool '' @
         show_u64 (fb_pool b) @ cap @ '' = demand '' @ show_u64 (fb_demand b) @ '' against '' @
         limit @ remainder @ excluded)"

definition pool_fit :: "fd_budget \<Rightarrow> u64 \<Rightarrow> u64" where
  "pool_fit b soft =
     saturating_sub soft
       (saturating_add (saturating_add (fb_fixed b) MIN_DOWNSTREAM) (cap_demand (fb_in_flight_cap b)))"

definition fd_remedy :: "fd_budget \<Rightarrow> u64 \<Rightarrow> string" where
  "fd_remedy b needed =
     (case fb_limits b of
        NofileLimits soft hard \<Rightarrow>
          (let n = show_u64 needed; fit = show_u64 (pool_fit b soft) in
           if needed \<le> hard then
             ''raise the soft limit to at least '' @ n @ '': `ulimit -n '' @ n @
             ''` before starting the edge, `LimitNOFILE='' @ n @
             ''` in the systemd unit, or `launchctl limit maxfiles` for a launchd job; or lower OXO_EDGE_FRAME_POOL_IDLE to at most '' @ fit
           else
             ''the hard limit '' @ show_u64 hard @ '' is below the '' @ n @ '' needed: set `LimitNOFILE='' @ n @
             ''` in the systemd unit or raise the limit in /etc/security/limits.conf as root; or lower OXO_EDGE_FRAME_POOL_IDLE to at most '' @ fit)
      | _ \<Rightarrow> [])"

definition fd_warning :: "fd_budget \<Rightarrow> string option" where
  "fd_warning b =
     (if fb_verdict b \<noteq> VerdictWarn then None
      else
        Some (''oxo_edge_config_warning fd-budget: with the idle pool at its ceiling ('' @ show_u64 (fb_pool b) @
          '')'' @ (case fb_in_flight_cap b of Some c \<Rightarrow> '' and '' @ show_u64 c @ '' in-flight requests'' | None \<Rightarrow> []) @
          '' the process descriptor limit leaves '' @
          show_u64 (case fb_remainder b of Some n \<Rightarrow> n | None \<Rightarrow> 0) @
          '' descriptors for downstream connections, below the '' @ show_u64 MIN_DOWNSTREAM @
          '' the edge wants; '' @ fd_remedy b (saturating_add (fb_demand b) MIN_DOWNSTREAM)))"

definition fd_refusal :: "fd_budget \<Rightarrow> string option" where
  "fd_refusal b =
     (if fb_verdict b \<noteq> VerdictRefuse then None
      else
        Some (''the edge holds '' @ show_u64 (fb_fixed b) @ '' descriptors before its first request (listeners '' @
          show_u64 (fb_listeners b) @ '' + worker hops '' @ show_u64 (fb_hops b) @ '' + reserve '' @
          show_u64 (fb_reserve b) @
          '') and the process descriptor limit (RLIMIT_NOFILE) soft limit is '' @
          show_u64 (case fb_limits b of NofileLimits soft _ \<Rightarrow> soft | _ \<Rightarrow> 0) @
          ''; it cannot serve. '' @ fd_remedy b (fb_fixed b)))"

section \<open>Exact arithmetic\<close>

text \<open>The budget without saturation, on natural numbers.\<close>

definition exact_fixed :: "u64 \<Rightarrow> u64 \<Rightarrow> nat" where
  "exact_fixed listeners workers = unat listeners + unat workers + 32"

definition exact_demand :: "u64 \<Rightarrow> u64 \<Rightarrow> u64 \<Rightarrow> u64 option \<Rightarrow> nat" where
  "exact_demand listeners workers pool cap =
     exact_fixed listeners workers + unat pool + 2 * (case cap of None \<Rightarrow> 0 | Some c \<Rightarrow> unat c)"

lemma unat_le_max: "unat (w :: u64) \<le> 2 ^ 64 - 1"
  using unsigned_less [of w, where 'a = nat] by simp

lemma unat_reserve: "unat RESERVE = 32" "unat MIN_DOWNSTREAM = 256"
  by (simp_all add: RESERVE_def MIN_DOWNSTREAM_def)

lemma unat_cap_demand:
  "unat (cap_demand cap) = min (2 * (case cap of None \<Rightarrow> 0 | Some c \<Rightarrow> unat c)) (2 ^ 64 - 1)"
  by (simp add: cap_demand_def unat_saturating_mul mult.commute split: option.split)

lemma unat_fixed:
  "unat (fb_fixed (make_fd_budget lim ls ws pool cap)) = min (exact_fixed ls ws) (2 ^ 64 - 1)"
  by (simp add: make_fd_budget_def Let_def unat_saturating_add unat_reserve exact_fixed_def
      split: prod.split)

lemma unat_demand:
  "unat (fb_demand (make_fd_budget lim ls ws pool cap)) = min (exact_demand ls ws pool cap) (2 ^ 64 - 1)"
  by (simp add: make_fd_budget_def Let_def unat_saturating_add unat_reserve exact_fixed_def exact_demand_def
      unat_cap_demand split: prod.split)

lemma verdict_limits:
  "fb_verdict (make_fd_budget (NofileLimits soft hard) ls ws pool cap) =
     (let b = make_fd_budget (NofileLimits soft hard) ls ws pool cap in
      if fb_fixed b > soft then VerdictRefuse
      else if saturating_add (fb_demand b) MIN_DOWNSTREAM > soft then VerdictWarn
      else VerdictOk)"
  by (simp add: make_fd_budget_def Let_def)

lemma fd_verdict_arith:
  assumes "soft \<noteq> - 1"
  shows "fb_verdict (make_fd_budget (NofileLimits soft hard) ls ws pool cap) =
      (if unat soft < exact_fixed ls ws then VerdictRefuse
       else if unat soft < exact_demand ls ws pool cap + 256 then VerdictWarn
       else VerdictOk) \<and>
    map_option unat (fb_remainder (make_fd_budget (NofileLimits soft hard) ls ws pool cap)) =
      Some (unat soft - exact_demand ls ws pool cap)"
proof -
  let ?b = "make_fd_budget (NofileLimits soft hard) ls ws pool cap"
  have max: "unat (- 1 :: u64) = 2 ^ 64 - 1" by (simp add: unat_minus_one_word)
  then have "unat soft \<noteq> 2 ^ 64 - 1" using assms by (metis word_unat_eq_iff)
  with unat_le_max [of soft] have soft: "unat soft < 2 ^ 64 - 1" by simp
  have fixed: "soft < fb_fixed ?b \<longleftrightarrow> unat soft < exact_fixed ls ws"
    using soft unat_fixed [of "NofileLimits soft hard" ls ws pool cap] by (auto simp: word_less_nat_alt)
  have "unat (saturating_add (fb_demand ?b) MIN_DOWNSTREAM) =
      min (min (exact_demand ls ws pool cap) (2 ^ 64 - 1) + 256) (2 ^ 64 - 1)"
    by (simp add: unat_saturating_add unat_demand unat_reserve)
  then have warn: "soft < saturating_add (fb_demand ?b) MIN_DOWNSTREAM \<longleftrightarrow>
      unat soft < exact_demand ls ws pool cap + 256"
    using soft unfolding word_less_nat_alt by (simp only:) linarith
  have "fb_remainder ?b = Some (saturating_sub soft (fb_demand ?b))"
    by (simp add: make_fd_budget_def Let_def)
  moreover have "unat soft - min (exact_demand ls ws pool cap) (2 ^ 64 - 1) = unat soft - exact_demand ls ws pool cap"
    using soft by (simp add: min_def)
  ultimately show ?thesis
    using fixed warn by (simp add: verdict_limits Let_def unat_saturating_sub unat_demand)
qed

lemma fb_cap: "fb_in_flight_cap (make_fd_budget lim ls ws pool cap) = cap"
  by (simp add: make_fd_budget_def Let_def split: prod.split)

text \<open>
  The budget's verdict is the intended one and saturation never distorts it. With a finite
  soft limit the edge refuses to boot exactly when the descriptors it holds before the first
  request exceed the limit, is silent exactly when the whole demand leaves at least 256
  descriptors, and warns in between, all in exact arithmetic on the configured numbers; the
  remainder it reports is the exact difference, or zero.
\<close>

theorem fd_verdict_exact:
  assumes "soft \<noteq> - 1"
  shows "fb_verdict (make_fd_budget (NofileLimits soft hard) ls ws pool cap) =
      (if unat soft < exact_fixed ls ws then VerdictRefuse
       else if unat soft < exact_demand ls ws pool cap + 256 then VerdictWarn
       else VerdictOk) \<and>
    map_option unat (fb_remainder (make_fd_budget (NofileLimits soft hard) ls ws pool cap)) =
      Some (unat soft - exact_demand ls ws pool cap)"
  using assms by (rule fd_verdict_arith)

theorem fd_verdict_exact_witness:
  "fb_verdict (make_fd_budget (NofileLimits 1024 4096) 2 4 512 None) = VerdictOk \<and>
   fb_verdict (make_fd_budget (NofileLimits 1024 4096) 2 4 512 (Some 200)) = VerdictWarn"
  using fd_verdict_exact [of 1024 4096 2 4 512 None] fd_verdict_exact [of 1024 4096 2 4 512 "Some 200"]
  by (simp add: exact_demand_def exact_fixed_def)

text \<open>
  The warning's advice works. From a warning, raising the soft limit to the number the message
  names gives a silent verdict, and so does lowering the idle pool to at most the number it names
  whenever that number is positive.
\<close>

theorem fd_warning_remedy:
  assumes "fb_verdict (make_fd_budget (NofileLimits soft hard) ls ws pool cap) = VerdictWarn"
    and "soft \<noteq> - 1" and "exact_demand ls ws pool cap + 256 < 2 ^ 64 - 1"
  shows "fb_verdict (make_fd_budget (NofileLimits (saturating_add
      (fb_demand (make_fd_budget (NofileLimits soft hard) ls ws pool cap)) MIN_DOWNSTREAM) hard) ls ws pool cap) =
      VerdictOk \<and>
    (pool' \<le> pool_fit (make_fd_budget (NofileLimits soft hard) ls ws pool cap) soft \<and>
     0 < pool_fit (make_fd_budget (NofileLimits soft hard) ls ws pool cap) soft \<longrightarrow>
     fb_verdict (make_fd_budget (NofileLimits soft hard) ls ws pool' cap) = VerdictOk)"
proof
  let ?b = "make_fd_budget (NofileLimits soft hard) ls ws pool cap"
  let ?needed = "saturating_add (fb_demand ?b) MIN_DOWNSTREAM"
  have n: "unat ?needed = exact_demand ls ws pool cap + 256"
    using assms(3) by (simp add: unat_saturating_add unat_demand unat_reserve)
  then have "?needed \<noteq> - 1" using assms(3) unat_minus_one_word [where 'a = 64] by auto
  moreover have "exact_fixed ls ws \<le> exact_demand ls ws pool cap" by (simp add: exact_demand_def)
  ultimately show "fb_verdict (make_fd_budget (NofileLimits ?needed hard) ls ws pool cap) = VerdictOk"
    using n fd_verdict_arith [of ?needed hard ls ws pool cap] by simp
  show "pool' \<le> pool_fit ?b soft \<and> 0 < pool_fit ?b soft \<longrightarrow>
      fb_verdict (make_fd_budget (NofileLimits soft hard) ls ws pool' cap) = VerdictOk"
  proof
    assume fit: "pool' \<le> pool_fit ?b soft \<and> 0 < pool_fit ?b soft"
    let ?rest = "exact_fixed ls ws + 256 + 2 * (case cap of None \<Rightarrow> 0 | Some c \<Rightarrow> unat c)"
    have "unat (pool_fit ?b soft) = unat soft - min ?rest (2 ^ 64 - 1)"
      by (simp add: pool_fit_def unat_saturating_sub unat_saturating_add unat_fixed unat_reserve unat_cap_demand
          fb_cap)
    moreover have "unat pool' \<le> unat (pool_fit ?b soft)" "0 < unat (pool_fit ?b soft)"
      using fit by (simp_all add: word_le_nat_alt word_less_nat_alt)
    ultimately have "exact_demand ls ws pool' cap + 256 \<le> unat soft" "exact_fixed ls ws \<le> unat soft"
      using unat_le_max [of soft] by (auto simp: exact_demand_def)
    then show "fb_verdict (make_fd_budget (NofileLimits soft hard) ls ws pool' cap) = VerdictOk"
      using fd_verdict_arith [OF assms(2), of hard ls ws pool' cap] by simp
  qed
qed

theorem fd_warning_remedy_witness:
  "fb_verdict (make_fd_budget (NofileLimits 512 4096) 2 4 100 None) = VerdictOk"
proof -
  have "fb_verdict (make_fd_budget (NofileLimits 512 4096) 2 4 512 None) = VerdictWarn"
    by (simp add: fd_verdict_arith exact_demand_def exact_fixed_def)
  moreover have "pool_fit (make_fd_budget (NofileLimits 512 4096) 2 4 512 None) 512 = 218"
    by (simp add: pool_fit_def make_fd_budget_def Let_def cap_demand_def saturating_add_def saturating_sub_def
        RESERVE_def MIN_DOWNSTREAM_def)
  ultimately show ?thesis
    using fd_warning_remedy [of 512 4096 2 4 512 None 100] by (simp add: exact_demand_def exact_fixed_def)
qed

text \<open>
  The refusal's second advice cannot help. A refusal depends only on the descriptors held before
  the first request, so it stays a refusal for every size of the idle pool; yet the message goes on
  to recommend lowering the pool, to at most zero.
\<close>

theorem fd_refusal_pool_advice:
  assumes "fb_verdict (make_fd_budget (NofileLimits soft hard) ls ws pool cap) = VerdictRefuse"
  shows "fb_verdict (make_fd_budget (NofileLimits soft hard) ls ws pool' cap) = VerdictRefuse \<and>
    (\<exists>msg. fd_refusal (make_fd_budget (NofileLimits soft hard) ls ws pool cap) =
       Some (msg @ ''or lower OXO_EDGE_FRAME_POOL_IDLE to at most 0''))"
proof -
  let ?b = "make_fd_budget (NofileLimits soft hard) ls ws pool cap"
  have same: "fb_fixed (make_fd_budget lim ls ws p cap) = fb_fixed (make_fd_budget lim' ls ws p' cap)" for lim lim' p p'
    by (simp add: make_fd_budget_def Let_def split: prod.split)
  have gt: "soft < fb_fixed ?b" using assms by (simp add: verdict_limits Let_def split: if_splits)
  then have "fb_verdict (make_fd_budget (NofileLimits soft hard) ls ws pool' cap) = VerdictRefuse"
    using same [of "NofileLimits soft hard" pool' "NofileLimits soft hard" pool]
    by (simp add: verdict_limits Let_def)
  moreover have "pool_fit ?b soft = 0"
  proof -
    have "unat soft < unat (fb_fixed ?b)" using gt by (simp add: word_less_nat_alt)
    then have "unat (pool_fit ?b soft) = 0"
      using unat_le_max [of "fb_fixed ?b"]
      by (simp add: pool_fit_def unat_saturating_sub unat_saturating_add)
    then show ?thesis by (simp add: unat_eq_zero)
  qed
  moreover have "fb_limits ?b = NofileLimits soft hard" by (simp add: make_fd_budget_def Let_def)
  moreover have "show_u64 0 = ''0''" by (simp add: show_u64_def to_string.simps digit_char_def char_of_eq_iff)
  ultimately show ?thesis
    using assms by (simp add: fd_refusal_def fd_remedy_def Let_def)
qed

theorem fd_refusal_pool_advice_witness:
  "fb_verdict (make_fd_budget (NofileLimits 16 16) 2 4 1 None) = VerdictRefuse"
  using fd_refusal_pool_advice [of 16 16 2 4 512 None 1]
  by (simp add: fd_verdict_arith exact_fixed_def)

end
