(* ===== verification/Edge_Settings.thy ===== *)
theory Edge_Settings
  imports Edge_Config Edge_Proxy Fd_Budget
begin

text \<open>
  How the edge resolves its settings, \<open>crates/oxo-pingora-edge/src/platform/config.rs\<close>: one reader per
  setting, each from the command line first and then from the environment. The environment is a
  map of raw values; the rest of what the readers look at is the record \<open>boot_env\<close>: file metadata,
  the number of processors, the names in a certificate (an X.509 library reads them), the parser
  and the boot audit of the static file library, and the ACME code. Whether TLS was compiled
  in is a field of it too. Notices and warnings on stderr are not modelled. The error texts keep the
  fixed part of each message, the values a message quotes are left out of them.
\<close>

section \<open>The world at boot\<close>

type_synonym os_env = "string \<Rightarrow> os_string option"

datatype var_error = NotPresent | NotUnicode os_string

definition env_var :: "os_env \<Rightarrow> string \<Rightarrow> var_error + string" where
  "env_var env name =
     (case env name of
        None \<Rightarrow> Inl NotPresent
      | Some v \<Rightarrow> if rust_str v then Inr v else Inl (NotUnicode v))"

fun var_error_message :: "var_error \<Rightarrow> string" where
  "var_error_message NotPresent = ''environment variable not found''"
| "var_error_message (NotUnicode _) = ''environment variable was not valid unicode''"

datatype certificate_names = CertUnavailable string | CertInvalid string | CertDnsNames "string list"

record boot_env =
  be_env :: os_env
  be_fs :: file_system
  be_is_dir :: "path \<Rightarrow> bool"
  be_exists :: "path \<Rightarrow> bool"
  be_nproc :: "usize option"
  be_nofile :: nofile
  be_tls_built :: bool
  be_certificate :: "path \<Rightarrow> certificate_names"
  be_quote :: "string \<Rightarrow> string"
  be_parse_mount :: "string \<Rightarrow> string + mount_spec"
  be_read_dir :: "path \<Rightarrow> string + (string + os_string) list"
  be_static_server :: "mount_spec list \<Rightarrow> string + unit"

section \<open>Reading the environment\<close>

definition config_env :: "string \<Rightarrow> string \<Rightarrow> edge_error + 'a" where
  "config_env name message = Inl (ConfigEnv name (OtherMessage message))"

definition not_unicode :: "string \<Rightarrow> var_error \<Rightarrow> edge_error + 'a" where
  "not_unicode name err = config_env name (var_error_message err)"

definition read_env :: "os_env \<Rightarrow> string \<Rightarrow> edge_error + string" where
  "read_env env name = map_err (\<lambda>err. ConfigEnv name (OtherMessage (var_error_message err))) (env_var env name)"

definition optional_string_env :: "os_env \<Rightarrow> string \<Rightarrow> edge_error + string option" where
  "optional_string_env env name =
     (case env_var env name of
        Inr v \<Rightarrow> Inr (if trim v = [] then None else Some v)
      | Inl NotPresent \<Rightarrow> Inr None
      | Inl err \<Rightarrow> not_unicode name err)"

definition parse_u64 :: "string \<Rightarrow> u64 option" where
  "parse_u64 s = map_option of_nat (parse_uint U64_MAX s)"

definition optional_u64_env :: "os_env \<Rightarrow> string \<Rightarrow> edge_error + u64 option" where
  "optional_u64_env env name =
     and_then (optional_string_env env name) (\<lambda>raw.
     case raw of
       None \<Rightarrow> Inr None
     | Some s \<Rightarrow>
         (case parse_u64 s of Some n \<Rightarrow> Inr (Some n) | None \<Rightarrow> config_env name ''expected integer''))"

definition optional_path_env :: "os_env \<Rightarrow> string \<Rightarrow> path option" where
  "optional_path_env env name = (case env name of Some v \<Rightarrow> if v = [] then None else Some v | None \<Rightarrow> None)"

definition parse_env_bool :: "string \<Rightarrow> bool option" where
  "parse_env_bool raw =
     (if raw \<in> set [''1'', ''true'', ''TRUE'', ''yes'', ''YES''] then Some True
      else if raw \<in> set [''0'', ''false'', ''FALSE'', ''no'', ''NO''] then Some False else None)"

definition optional_bool_env :: "os_env \<Rightarrow> string \<Rightarrow> edge_error + bool option" where
  "optional_bool_env env name =
     (case env_var env name of
        Inr raw \<Rightarrow>
          if trim raw = [] then Inr None
          else (case parse_env_bool raw of Some b \<Rightarrow> Inr (Some b) | None \<Rightarrow> config_env name ''expected boolean'')
      | Inl NotPresent \<Rightarrow> Inr None
      | Inl err \<Rightarrow> not_unicode name err)"

definition edge_env_bool :: "os_env \<Rightarrow> string \<Rightarrow> bool \<Rightarrow> edge_error + bool" where
  "edge_env_bool env name dflt =
     (case env_var env name of
        Inr raw \<Rightarrow> (case parse_env_bool raw of Some b \<Rightarrow> Inr b | None \<Rightarrow> config_env name ''expected boolean'')
      | Inl NotPresent \<Rightarrow> Inr dflt
      | Inl err \<Rightarrow> not_unicode name err)"

text \<open>The ladder of most readers: the command line's value under the flag's name, else the environment's.\<close>

definition cli_or_env ::
  "'v option \<Rightarrow> string \<Rightarrow> (edge_error + 'v option) \<Rightarrow> string \<Rightarrow> edge_error + ('v option \<times> string)" where
  "cli_or_env cli_value cli_name from_env env_name =
     (case cli_value of
        Some v \<Rightarrow> Inr (Some v, cli_name)
      | None \<Rightarrow> and_then from_env (\<lambda>v. Inr (v, env_name)))"

definition required_nonzero_u64 :: "os_env \<Rightarrow> u64 option \<Rightarrow> string \<Rightarrow> string \<Rightarrow> u64 \<Rightarrow> edge_error + u64" where
  "required_nonzero_u64 env cli_value cli_name env_name dflt =
     and_then (cli_or_env cli_value cli_name (optional_u64_env env env_name) env_name) (\<lambda>(found, name).
     let v = (case found of Some v \<Rightarrow> v | None \<Rightarrow> dflt) in
     if v = 0 then config_env name ''value must be greater than zero'' else Inr v)"

definition optional_nonzero_u64 :: "os_env \<Rightarrow> u64 option \<Rightarrow> string \<Rightarrow> string \<Rightarrow> edge_error + u64 option" where
  "optional_nonzero_u64 env cli_value cli_name env_name =
     and_then (cli_or_env cli_value cli_name (optional_u64_env env env_name) env_name) (\<lambda>(found, name).
     if found = Some 0 then config_env name ''value must be greater than zero'' else Inr found)"

definition SOCKET_ACTIVATION_ENV :: "string list" where
  "SOCKET_ACTIVATION_ENV = [''LISTEN_FDS'', ''LISTEN_PID'', ''LISTEN_FDNAMES'']"

definition socket_activation_env_name :: "os_env \<Rightarrow> string option" where
  "socket_activation_env_name env =
     List.find (\<lambda>name. case env name of Some v \<Rightarrow> v \<noteq> [] | None \<Rightarrow> False) SOCKET_ACTIVATION_ENV"

definition reject_socket_activation_env :: "os_env \<Rightarrow> edge_error + unit" where
  "reject_socket_activation_env env =
     (case socket_activation_env_name env of
        Some name \<Rightarrow>
          config_env name ''systemd socket activation and inherited listener descriptors are not supported''
      | None \<Rightarrow> Inr ())"

section \<open>Listener and identity\<close>

datatype bind_kind = BindHttp | BindHttps

definition read_bind :: "os_env \<Rightarrow> edge_cli_config \<Rightarrow> edge_error + (socket_addr \<times> bind_kind)" where
  "read_bind env cli =
     (case (ec_http_bind cli, ec_https_bind cli) of
        (Some _, Some _) \<Rightarrow>
          config_env ''argv'' ''--http-bind and --https-bind are mutually exclusive for the application listener''
      | (Some bind, None) \<Rightarrow> Inr (bind, BindHttp)
      | (None, Some bind) \<Rightarrow> Inr (bind, BindHttps)
      | (None, None) \<Rightarrow>
          and_then (read_env env ''OXO_EDGE_BIND'') (\<lambda>raw.
          case parse_socket_addr raw of
            None \<Rightarrow> config_env ''OXO_EDGE_BIND'' ''expected loopback socket address''
          | Some bind \<Rightarrow>
              and_then (edge_env_bool env ''OXO_EDGE_TLS'' False) (\<lambda>tls.
              Inr (bind, if tls then BindHttps else BindHttp))))"

definition DEFAULT_EDGE_MAX_BODY_BYTES :: u64 where "DEFAULT_EDGE_MAX_BODY_BYTES = 16 * 1024 * 1024"

text \<open>The second component of the next two says whether the value was given explicitly.\<close>

definition read_max_body :: "os_env \<Rightarrow> edge_cli_config \<Rightarrow> edge_error + (u64 \<times> bool)" where
  "read_max_body env cli =
     (case ec_max_body_bytes cli of
        Some n \<Rightarrow> Inr (n, True)
      | None \<Rightarrow>
          (case env_var env ''OXO_EDGE_MAX_BODY'' of
             Inr raw \<Rightarrow>
               (case parse_u64 raw of
                  Some n \<Rightarrow> Inr (n, True)
                | None \<Rightarrow> config_env ''OXO_EDGE_MAX_BODY'' ''expected integer byte count'')
           | Inl NotPresent \<Rightarrow> Inr (DEFAULT_EDGE_MAX_BODY_BYTES, False)
           | Inl err \<Rightarrow> not_unicode ''OXO_EDGE_MAX_BODY'' err))"

definition read_server_name :: "os_env \<Rightarrow> edge_cli_config \<Rightarrow> edge_error + (string \<times> bool)" where
  "read_server_name env cli =
     (case ec_fqdn cli of
        Some name \<Rightarrow> if trim name = [] then config_env ''argv'' ''--fqdn must not be empty'' else Inr (name, True)
      | None \<Rightarrow>
          (case env_var env ''OXO_EDGE_SERVER_NAME'' of
             Inr name \<Rightarrow>
               if trim name \<noteq> [] then Inr (name, True) else config_env ''OXO_EDGE_SERVER_NAME'' ''must not be empty''
           | Inl NotPresent \<Rightarrow> Inr (''localhost'', False)
           | Inl err \<Rightarrow> not_unicode ''OXO_EDGE_SERVER_NAME'' err))"

definition read_public_origin_port :: "os_env \<Rightarrow> edge_cli_config \<Rightarrow> edge_error + u16 option" where
  "read_public_origin_port env cli =
     (case ec_public_origin_port cli of
        Some port \<Rightarrow> Inr (Some port)
      | None \<Rightarrow>
          (case env_var env ''OXO_EDGE_PUBLIC_ORIGIN_PORT'' of
             Inr raw \<Rightarrow>
               if trim raw = [] then Inr None
               else (case parse_uint U16_MAX raw of
                       Some n \<Rightarrow> Inr (Some (of_nat n))
                     | None \<Rightarrow> config_env ''OXO_EDGE_PUBLIC_ORIGIN_PORT'' ''expected integer port'')
           | Inl NotPresent \<Rightarrow> Inr None
           | Inl err \<Rightarrow> not_unicode ''OXO_EDGE_PUBLIC_ORIGIN_PORT'' err))"

definition read_worker_sockets :: "os_env \<Rightarrow> edge_cli_config \<Rightarrow> edge_error + path list" where
  "read_worker_sockets env cli =
     (if ec_worker_sockets cli \<noteq> [] then Inr (ec_worker_sockets cli)
      else
        (case env_var env ''OXO_EDGE_WORKER_SOCKETS'' of
           Inr raw \<Rightarrow>
             (let sockets = filter (\<lambda>part. part \<noteq> []) (map trim (split_on (CHR '','') raw)) in
              if sockets = [] then
                config_env ''OXO_EDGE_WORKER_SOCKETS'' ''expected at least one comma-separated socket path''
              else Inr sockets)
         | Inl NotPresent \<Rightarrow> and_then (read_env env ''OXO_EDGE_WORKER_SOCKET'') (\<lambda>s. Inr [s])
         | Inl err \<Rightarrow> not_unicode ''OXO_EDGE_WORKER_SOCKETS'' err))"

definition acme_state_path :: "os_env \<Rightarrow> edge_cli_config \<Rightarrow> path option" where
  "acme_state_path env cli = or_else (ec_acme_state_path cli) (optional_path_env env ''OXO_EDGE_ACME_STATE_PATH'')"

definition validate_future_acme_state_path :: "os_env \<Rightarrow> edge_cli_config \<Rightarrow> edge_error + unit" where
  "validate_future_acme_state_path env cli =
     (case acme_state_path env cli of
        Some p \<Rightarrow>
          if is_absolute p then Inr () else config_env ''OXO_EDGE_ACME_STATE_PATH'' ''ACME state path must be absolute''
      | None \<Rightarrow> Inr ())"

datatype listener_mode = Plain | Tls path path bool

fun listener_url_scheme :: "listener_mode \<Rightarrow> string" where
  "listener_url_scheme Plain = ''http''"
| "listener_url_scheme (Tls _ _ _) = ''https''"

fun is_tls :: "listener_mode \<Rightarrow> bool" where
  "is_tls Plain = False"
| "is_tls (Tls _ _ _) = True"

definition required_tls_path :: "os_env \<Rightarrow> path option \<Rightarrow> string \<Rightarrow> string \<Rightarrow> edge_error + path" where
  "required_tls_path env cli_path name message =
     (case or_else cli_path (optional_path_env env name) of
        Some p \<Rightarrow> Inr p
      | None \<Rightarrow> config_env name message)"

definition read_listener_mode :: "boot_env \<Rightarrow> edge_cli_config \<Rightarrow> bind_kind \<Rightarrow> edge_error + listener_mode" where
  "read_listener_mode be cli kind =
     (let cli_requests_tls = (kind = BindHttps \<or> ec_tls_cert cli \<noteq> None \<or> ec_tls_key cli \<noteq> None);
          env_tls_allowed = (ec_http_bind cli = None \<and> ec_https_bind cli = None \<and> ec_tls_cert cli = None \<and>
            ec_tls_key cli = None)
      in
      and_then (if cli_requests_tls then Inr True
                else if env_tls_allowed then edge_env_bool (be_env be) ''OXO_EDGE_TLS'' False
                else Inr False) (\<lambda>tls_requested.
      if \<not> tls_requested then Inr Plain
      else if \<not> be_tls_built be then
        config_env ''OXO_EDGE_TLS'' ''TLS requested but oxo-pingora-edge was built without the tls-rustls feature''
      else
        and_then (required_tls_path (be_env be) (ec_tls_cert cli) ''OXO_EDGE_TLS_CERT''
          ''TLS requires a certificate path'') (\<lambda>cert.
        and_then (required_tls_path (be_env be) (ec_tls_key cli) ''OXO_EDGE_TLS_KEY''
          ''TLS requires a private key path'') (\<lambda>key.
        and_then (validate_tls_file (be_fs be) ''certificate'' cert False) (\<lambda>_.
        and_then (validate_tls_file (be_fs be) ''private key'' key True) (\<lambda>_.
        and_then (case ec_tls_h2 cli of Some v \<Rightarrow> Inr v | None \<Rightarrow> edge_env_bool (be_env be) ''OXO_EDGE_TLS_H2'' True) (\<lambda>h2.
        Inr (Tls cert key h2))))))))"

datatype public_mode = Alpha | SmokeBeta

definition parse_public_mode :: "string \<Rightarrow> public_mode option" where
  "parse_public_mode raw =
     (if raw = ''alpha'' then Some Alpha
      else if raw = ''smoke-beta'' \<or> raw = ''beta'' then Some SmokeBeta else None)"

fun public_mode_as_str :: "public_mode \<Rightarrow> string" where
  "public_mode_as_str Alpha = ''alpha''"
| "public_mode_as_str SmokeBeta = ''smoke-beta''"

definition requires_admin_health :: "public_mode \<Rightarrow> bool" where
  "requires_admin_health mode \<longleftrightarrow> mode = SmokeBeta"

text \<open>Whether a setting is given on the command line or, looked at only then, in the environment.\<close>

definition given :: "os_env \<Rightarrow> bool \<Rightarrow> string \<Rightarrow> edge_error + bool" where
  "given env on_cli name =
     (if on_cli then Inr True else and_then (optional_string_env env name) (\<lambda>v. Inr (v \<noteq> None)))"

definition loopback_mode_gate :: "os_env \<Rightarrow> edge_cli_config \<Rightarrow> edge_error + public_mode option" where
  "loopback_mode_gate env cli =
     and_then (given env (ec_public_mode cli \<noteq> None) ''OXO_EDGE_PUBLIC_MODE'') (\<lambda>mode_set.
     and_then (given env (ec_public_identity cli \<noteq> None) ''OXO_EDGE_PUBLIC_IDENTITY'') (\<lambda>identity_set.
     and_then (given env (ec_trusted_proxy_cidrs cli \<noteq> []) ''OXO_EDGE_TRUSTED_PROXY_CIDRS'') (\<lambda>cidrs_set.
     if mode_set \<or> identity_set \<or> cidrs_set then
       config_env ''OXO_EDGE_PUBLIC_MODE''
         ''public-mode, public-identity, and trusted-proxy-cidr are only honored on a non-loopback bind''
     else
       and_then (if ec_acme_allow_production_directory cli then Inr True
                 else edge_env_bool env ''OXO_EDGE_ACME_ALLOW_PRODUCTION_DIRECTORY'' False) (\<lambda>production_ack_set.
       if production_ack_set then
         config_env ''OXO_EDGE_ACME_ALLOW_PRODUCTION_DIRECTORY''
           ''the production ACME consent flag is only honored for public issuance''
       else Inr None))))"

definition read_public_mode_gate ::
  "os_env \<Rightarrow> socket_addr \<Rightarrow> listener_mode \<Rightarrow> edge_cli_config \<Rightarrow> bool \<Rightarrow> bool \<Rightarrow> edge_error + public_mode option" where
  "read_public_mode_gate env bind listener cli max_body_explicit server_name_explicit =
     (if is_loopback (sock_ip bind) then loopback_mode_gate env cli
      else
        and_then (case ec_public_mode cli of
            Some mode \<Rightarrow> Inr (Some mode) | None \<Rightarrow> optional_string_env env ''OXO_EDGE_PUBLIC_MODE'') (\<lambda>raw_mode.
        case raw_mode of
          None \<Rightarrow> Inr None
        | Some raw \<Rightarrow>
            (case parse_public_mode raw of
               None \<Rightarrow>
                 config_env ''OXO_EDGE_PUBLIC_MODE'' ''expected alpha or smoke-beta for non-loopback Pingora bind''
             | Some mode \<Rightarrow>
                 if \<not> max_body_explicit then
                   config_env ''OXO_EDGE_MAX_BODY'' ''public mode requires an explicit request body cap''
                 else if \<not> is_tls listener then config_env ''OXO_EDGE_TLS'' ''public mode requires TLS''
                 else if \<not> server_name_explicit then
                   config_env ''OXO_EDGE_SERVER_NAME'' ''public mode requires an explicit server name''
                 else Inr (Some mode))))"

definition read_trusted_proxy_cidrs :: "os_env \<Rightarrow> edge_cli_config \<Rightarrow> edge_error + string list" where
  "read_trusted_proxy_cidrs env cli =
     (if ec_trusted_proxy_cidrs cli \<noteq> [] then Inr (ec_trusted_proxy_cidrs cli)
      else
        and_then (optional_string_env env ''OXO_EDGE_TRUSTED_PROXY_CIDRS'') (\<lambda>raw.
        Inr (case raw of
               Some s \<Rightarrow> filter (\<lambda>part. part \<noteq> []) (map trim (split_on (CHR '','') s))
             | None \<Rightarrow> [])))"

definition read_public_identity_policy ::
  "os_env \<Rightarrow> public_mode option \<Rightarrow> edge_cli_config \<Rightarrow> edge_error + identity_policy" where
  "read_public_identity_policy env mode cli =
     (if mode = None then Inr DirectPublic
      else
        and_then (case ec_public_identity cli of
            Some v \<Rightarrow> Inr (Some v) | None \<Rightarrow> optional_string_env env ''OXO_EDGE_PUBLIC_IDENTITY'') (\<lambda>identity.
        case identity of
          None \<Rightarrow>
            config_env ''OXO_EDGE_PUBLIC_IDENTITY''
              ''public mode requires direct-public or trusted-proxy identity policy''
        | Some v \<Rightarrow>
            if v = ''direct-public'' then Inr DirectPublic
            else if v = ''trusted-proxy'' then
              and_then (read_trusted_proxy_cidrs env cli) (\<lambda>cidrs.
              case proxy_parse_all cidrs of
                Inr policy \<Rightarrow> Inr (TrustedProxy policy)
              | Inl err \<Rightarrow> config_env ''OXO_EDGE_TRUSTED_PROXY_CIDRS'' ''trusted proxy CIDR'')
            else config_env ''OXO_EDGE_PUBLIC_IDENTITY'' ''expected direct-public or trusted-proxy''))"

section \<open>Limits\<close>

definition DEFAULT_PUBLIC_MAX_IN_FLIGHT_PER_IDENTITY :: u64 where
  "DEFAULT_PUBLIC_MAX_IN_FLIGHT_PER_IDENTITY = 64"

definition read_identity_fairness ::
  "os_env \<Rightarrow> public_mode option \<Rightarrow> edge_cli_config \<Rightarrow> edge_error + identity_limiter" where
  "read_identity_fairness env mode cli =
     and_then (cli_or_env (ec_max_in_flight_per_identity cli) ''--max-in-flight-per-identity''
       (optional_u64_env env ''OXO_EDGE_MAX_IN_FLIGHT_PER_IDENTITY'') ''OXO_EDGE_MAX_IN_FLIGHT_PER_IDENTITY'')
       (\<lambda>(configured, name).
     case configured of
       Some v \<Rightarrow>
         if v = 0 then config_env name ''max in-flight per identity must be greater than zero''
         else Inr (identity_limiter_new (Some v))
     | None \<Rightarrow>
         Inr (identity_limiter_new
           (if mode \<noteq> None then Some DEFAULT_PUBLIC_MAX_IN_FLIGHT_PER_IDENTITY else None)))"

definition read_global_in_flight ::
  "os_env \<Rightarrow> public_mode option \<Rightarrow> edge_cli_config \<Rightarrow> edge_error + u64 option" where
  "read_global_in_flight env mode cli =
     and_then (cli_or_env (ec_max_in_flight_requests cli) ''--max-in-flight-requests''
       (optional_u64_env env ''OXO_EDGE_MAX_IN_FLIGHT_REQUESTS'') ''OXO_EDGE_MAX_IN_FLIGHT_REQUESTS'')
       (\<lambda>(configured, name).
     case configured of
       Some v \<Rightarrow>
         if v = 0 then config_env name ''global max in-flight requests must be greater than zero'' else Inr (Some v)
     | None \<Rightarrow>
         if mode = Some SmokeBeta then
           config_env ''OXO_EDGE_MAX_IN_FLIGHT_REQUESTS''
             ''smoke-beta public mode requires an explicit global request cap''
         else Inr None)"

definition MAX_LISTENER_TASKS :: u64 where "MAX_LISTENER_TASKS = 64"
definition MAX_EDGE_THREADS :: u64 where "MAX_EDGE_THREADS = 1024"

record listener_tasks_config =
  lt_tasks :: usize
  lt_source :: string

record edge_threads_config =
  et_threads :: usize
  et_source :: string
  et_nproc :: usize

definition read_listener_tasks :: "os_env \<Rightarrow> edge_cli_config \<Rightarrow> edge_error + listener_tasks_config" where
  "read_listener_tasks env cli =
     and_then (cli_or_env (ec_listener_tasks cli) ''--listener-tasks''
       (optional_u64_env env ''OXO_EDGE_LISTENER_TASKS'') ''OXO_EDGE_LISTENER_TASKS'') (\<lambda>(found, name).
     case found of
       None \<Rightarrow> Inr \<lparr>lt_tasks = 1, lt_source = ''default''\<rparr>
     | Some v \<Rightarrow>
         if v = 0 then config_env name ''value must be greater than zero''
         else if v > MAX_LISTENER_TASKS then config_env name ''value must be at most 64''
         else Inr \<lparr>lt_tasks = unat v, lt_source = name\<rparr>)"

definition read_edge_threads :: "boot_env \<Rightarrow> edge_cli_config \<Rightarrow> edge_error + edge_threads_config" where
  "read_edge_threads be cli =
     and_then (cli_or_env (ec_edge_threads cli) ''--edge-threads''
       (optional_u64_env (be_env be) ''OXO_EDGE_THREADS'') ''OXO_EDGE_THREADS'') (\<lambda>(found, name).
     let nproc = (case be_nproc be of Some n \<Rightarrow> n | None \<Rightarrow> 1) in
     case found of
       None \<Rightarrow>
         if nproc \<le> 2 then Inr \<lparr>et_threads = max (nproc - 1) 1, et_source = ''default-small-host'', et_nproc = nproc\<rparr>
         else Inr \<lparr>et_threads = nproc, et_source = ''default-nproc'', et_nproc = nproc\<rparr>
     | Some v \<Rightarrow>
         if v = 0 then config_env name ''value must be greater than zero''
         else if v > MAX_EDGE_THREADS then config_env name ''value must be at most 1024''
         else Inr \<lparr>et_threads = unat v, et_source = name, et_nproc = nproc\<rparr>)"

definition read_worker_hop :: "os_env \<Rightarrow> edge_cli_config \<Rightarrow> u64 \<Rightarrow> edge_error + (worker_hop \<times> string)" where
  "read_worker_hop env cli max_body =
     (let source = (if ec_worker_hop cli \<noteq> None then ''cli'' else ''env'') in
      and_then (cli_or_env (ec_worker_hop cli) ''--worker-hop''
        (optional_string_env env ''OXO_EDGE_WORKER_HOP'') ''OXO_EDGE_WORKER_HOP'') (\<lambda>(found, name).
      and_then (case found of
          None \<Rightarrow> Inr (HopFrame, ''default'')
        | Some v \<Rightarrow>
            if v = ''frame'' then Inr (HopFrame, source)
            else if v = ''http'' then Inr (HopHttp, source)
            else config_env name ''expected frame|http'') (\<lambda>(hop, source).
      if hop = HopFrame \<and> max_body > 0xFFFFFFFF then config_env name ''worker-hop=frame requires max-body <= 4294967295''
      else Inr (hop, source))))"

definition read_worker_kind :: "os_env \<Rightarrow> edge_error + edge_worker_kind" where
  "read_worker_kind env =
     and_then (optional_string_env env ''OXO_WORKER_KIND'') (\<lambda>found.
     case found of
       None \<Rightarrow> Inr Classic
     | Some v \<Rightarrow>
         (case parse_kind v of Some k \<Rightarrow> Inr k | None \<Rightarrow> config_env ''OXO_WORKER_KIND'' ''expected classic|async''))"

definition read_worker_cap :: "os_env \<Rightarrow> edge_cli_config \<Rightarrow> usize \<Rightarrow> u64 option \<Rightarrow> edge_error + usize option" where
  "read_worker_cap env cli worker_count global_max =
     and_then (cli_or_env (ec_worker_cap cli) ''--worker-cap''
       (optional_u64_env env ''OXO_EDGE_WORKER_CAP'') ''OXO_EDGE_WORKER_CAP'') (\<lambda>(found, name).
     case found of
       None \<Rightarrow> Inr None
     | Some k \<Rightarrow>
         if k = 0 then config_env name ''worker cap must be >= 1 (omit the flag for uncapped)''
         else if worker_count > MAX_WORKERS then config_env name ''worker cap supports at most 16 workers (gauge slots)''
         else if (case global_max of Some g \<Rightarrow> saturating_mul k (of_nat worker_count) \<ge> g | None \<Rightarrow> False) then
           config_env name ''worker cap must be strictly below the global in-flight cap''
         else Inr (Some (unat k)))"

definition read_worker_dispatch :: "os_env \<Rightarrow> edge_cli_config \<Rightarrow> usize \<Rightarrow> edge_error + (dispatch_mode \<times> string)" where
  "read_worker_dispatch env cli worker_count =
     (let source = (if ec_worker_dispatch cli \<noteq> None then ''cli'' else ''env'') in
      and_then (cli_or_env (ec_worker_dispatch cli) ''--worker-dispatch''
        (optional_string_env env ''OXO_WORKER_DISPATCH'') ''OXO_WORKER_DISPATCH'') (\<lambda>(found, name).
      and_then (case found of
          None \<Rightarrow> Inr (LeastOutstanding, ''default'')
        | Some v \<Rightarrow>
            (case parse_mode v of
               Some m \<Rightarrow> Inr (m, source)
             | None \<Rightarrow> config_env name ''expected least-outstanding|rr|free-first|sticky'')) (\<lambda>(mode, source).
      if mode \<noteq> Rr \<and> worker_count > MAX_WORKERS then config_env name ''worker-dispatch supports at most 16 workers''
      else Inr (mode, source))))"

definition read_request_log :: "os_env \<Rightarrow> edge_cli_config \<Rightarrow> edge_error + (request_log_mode \<times> string)" where
  "read_request_log env cli =
     (let source = (if ec_request_log cli \<noteq> None then ''cli'' else ''env'') in
      and_then (cli_or_env (ec_request_log cli) ''--request-log''
        (optional_string_env env ''OXO_EDGE_REQUEST_LOG'') ''OXO_EDGE_REQUEST_LOG'') (\<lambda>(found, name).
      case found of
        None \<Rightarrow> Inr (LogRejections, ''default'')
      | Some v \<Rightarrow>
          if v = ''off'' then Inr (LogOff, source)
          else if v = ''rejections'' then Inr (LogRejections, source)
          else if v = ''all'' then Inr (LogAll, source)
          else config_env name ''expected off|rejections|all''))"

definition read_edge_drain_config :: "os_env \<Rightarrow> edge_cli_config \<Rightarrow> edge_error + edge_drain_config" where
  "read_edge_drain_config env cli =
     and_then (cli_or_env (ec_drain_grace_ms cli) ''--drain-grace-ms''
       (optional_u64_env env ''OXO_EDGE_DRAIN_GRACE_MS'') ''OXO_EDGE_DRAIN_GRACE_MS'') (\<lambda>(found, name).
     drain_from_millis name (case found of Some v \<Rightarrow> v | None \<Rightarrow> DEFAULT_EDGE_DRAIN_GRACE_MS))"

definition DEFAULT_HEADER_READ_TIMEOUT_MS :: u64 where "DEFAULT_HEADER_READ_TIMEOUT_MS = 15000"
definition DEFAULT_KEEPALIVE_IDLE_TIMEOUT_MS :: u64 where "DEFAULT_KEEPALIVE_IDLE_TIMEOUT_MS = 15000"
definition DEFAULT_MAX_REQUESTS_PER_CONNECTION :: u64 where "DEFAULT_MAX_REQUESTS_PER_CONNECTION = 1000"
definition DEFAULT_H2_MAX_CONCURRENT_STREAMS :: u64 where "DEFAULT_H2_MAX_CONCURRENT_STREAMS = 100"
definition DEFAULT_H2_MAX_RESET_STREAMS :: u64 where "DEFAULT_H2_MAX_RESET_STREAMS = 20"
definition PINGORA_TLS_HANDSHAKE_TIMEOUT_SECS :: u64 where "PINGORA_TLS_HANDSHAKE_TIMEOUT_SECS = 60"
definition DEFAULT_LONG_LIVED_MAX_CONNECTIONS :: u64 where "DEFAULT_LONG_LIVED_MAX_CONNECTIONS = 128"
definition DEFAULT_LONG_LIVED_MAX_BUFFERED_BYTES :: u64 where
  "DEFAULT_LONG_LIVED_MAX_BUFFERED_BYTES = of_nat MAX_RESPONSE_BYTES"
definition DEFAULT_LONG_LIVED_WRITE_TIMEOUT_MS :: u64 where "DEFAULT_LONG_LIVED_WRITE_TIMEOUT_MS = 10000"

definition requests_per_connection_to_reuse_limit :: "u64 \<Rightarrow> string \<Rightarrow> edge_error + u32" where
  "requests_per_connection_to_reuse_limit n name =
     (if n - 1 \<le> 0xFFFFFFFF then Inr (ucast (n - 1)) else config_env name ''value is too large'')"

text \<open>A setting with a preset: the command line, else the environment, else the preset's value.\<close>

definition preset_bool :: "os_env \<Rightarrow> bool option \<Rightarrow> string \<Rightarrow> bool \<Rightarrow> edge_error + bool" where
  "preset_bool env cli_value name preset =
     (case cli_value of
        Some v \<Rightarrow> Inr v
      | None \<Rightarrow>
          and_then (optional_bool_env env name) (\<lambda>found. Inr (case found of Some v \<Rightarrow> v | None \<Rightarrow> preset)))"

definition read_slow_client_policy :: "os_env \<Rightarrow> edge_cli_config \<Rightarrow> bool \<Rightarrow> edge_error + slow_client_policy" where
  "read_slow_client_policy env cli serve_rails_active =
     and_then (required_nonzero_u64 env (ec_header_read_timeout_ms cli) ''--header-read-timeout-ms''
       ''OXO_EDGE_HEADER_READ_TIMEOUT_MS'' DEFAULT_HEADER_READ_TIMEOUT_MS) (\<lambda>header_ms.
     and_then (required_nonzero_u64 env (ec_keepalive_idle_timeout_ms cli) ''--keepalive-idle-timeout-ms''
       ''OXO_EDGE_KEEPALIVE_IDLE_TIMEOUT_MS'' DEFAULT_KEEPALIVE_IDLE_TIMEOUT_MS) (\<lambda>idle_ms.
     and_then (optional_nonzero_u64 env (ec_max_connection_secs cli) ''--max-connection-secs''
       ''OXO_EDGE_MAX_CONNECTION_SECS'') (\<lambda>max_connection.
     and_then (preset_bool env (ec_keepalive_enabled cli) ''OXO_EDGE_KEEPALIVE'' serve_rails_active) (\<lambda>keepalive.
     and_then (required_nonzero_u64 env (ec_max_requests_per_connection cli) ''--max-requests-per-connection''
       ''OXO_EDGE_MAX_REQUESTS_PER_CONNECTION'' DEFAULT_MAX_REQUESTS_PER_CONNECTION) (\<lambda>requests.
     and_then (requests_per_connection_to_reuse_limit requests ''--max-requests-per-connection'') (\<lambda>reuse.
     Inr \<lparr>sp_header_read_timeout_ms = header_ms, sp_keepalive_idle_timeout_ms = idle_ms,
          sp_max_connection_secs = max_connection,
          sp_pingora_tls_handshake_timeout_secs = PINGORA_TLS_HANDSHAKE_TIMEOUT_SECS,
          sp_keepalive_enabled = keepalive, sp_keepalive_request_limit = (if keepalive then Some reuse else None)\<rparr>))))))"

definition UNENFORCED_KNOBS_HEADER_READ :: "string \<times> string" where
  "UNENFORCED_KNOBS_HEADER_READ =
     (''--header-read-timeout-ms'', ''slow-header dribble (total within-request header time is unbounded)'')"

definition UNENFORCED_KNOBS_MAX_CONNECTION :: "string \<times> string" where
  "UNENFORCED_KNOBS_MAX_CONNECTION = (''--max-connection-secs'', ''absolute connection age'')"

definition render_unenforced_knobs :: "slow_client_policy \<Rightarrow> (string \<times> string) list" where
  "render_unenforced_knobs sp =
     (if sp_header_read_timeout_ms sp \<noteq> DEFAULT_HEADER_READ_TIMEOUT_MS then [UNENFORCED_KNOBS_HEADER_READ] else []) @
     (if sp_max_connection_secs sp \<noteq> None then [UNENFORCED_KNOBS_MAX_CONNECTION] else [])"

record h2_policy =
  hp_max_concurrent_streams :: u32
  hp_max_reset_streams :: usize

definition read_h2_policy :: "os_env \<Rightarrow> edge_cli_config \<Rightarrow> edge_error + h2_policy" where
  "read_h2_policy env cli =
     and_then (required_nonzero_u64 env (ec_h2_max_concurrent_streams cli) ''--h2-max-concurrent-streams''
       ''OXO_EDGE_H2_MAX_CONCURRENT_STREAMS'' DEFAULT_H2_MAX_CONCURRENT_STREAMS) (\<lambda>concurrent.
     and_then (if concurrent \<le> 0xFFFFFFFF then Inr (ucast concurrent)
       else config_env ''--h2-max-concurrent-streams'' ''value must fit in a 32-bit stream count'') (\<lambda>streams.
     and_then (required_nonzero_u64 env (ec_h2_max_reset_streams cli) ''--h2-max-reset-streams''
       ''OXO_EDGE_H2_MAX_RESET_STREAMS'' DEFAULT_H2_MAX_RESET_STREAMS) (\<lambda>reset.
     Inr \<lparr>hp_max_concurrent_streams = streams, hp_max_reset_streams = unat reset\<rparr>)))"

text \<open>The write timeout of the registry is a duration the model's registry does not keep; it is checked here.\<close>

definition read_long_lived_registry :: "os_env \<Rightarrow> edge_cli_config \<Rightarrow> edge_error + registry" where
  "read_long_lived_registry env cli =
     and_then (required_nonzero_u64 env (ec_long_lived_max_connections cli) ''--long-lived-max-connections''
       ''OXO_EDGE_LONG_LIVED_MAX_CONNECTIONS'' DEFAULT_LONG_LIVED_MAX_CONNECTIONS) (\<lambda>connections.
     and_then (required_nonzero_u64 env (ec_long_lived_max_buffered_bytes cli) ''--long-lived-max-buffered-bytes''
       ''OXO_EDGE_LONG_LIVED_MAX_BUFFERED_BYTES'' DEFAULT_LONG_LIVED_MAX_BUFFERED_BYTES) (\<lambda>buffered.
     and_then (required_nonzero_u64 env (ec_long_lived_downstream_write_timeout_ms cli)
       ''--long-lived-downstream-write-timeout-ms'' ''OXO_EDGE_LONG_LIVED_DOWNSTREAM_WRITE_TIMEOUT_MS''
       DEFAULT_LONG_LIVED_WRITE_TIMEOUT_MS) (\<lambda>_.
     Inr (registry_new \<lparr>ll_max_connections = connections, ll_max_buffered_bytes = buffered\<rparr>))))"

definition read_sse_enabled :: "os_env \<Rightarrow> edge_cli_config \<Rightarrow> bool \<Rightarrow> edge_error + bool" where
  "read_sse_enabled env cli serve_rails_active = preset_bool env (ec_sse_enabled cli) ''OXO_EDGE_SSE'' serve_rails_active"

definition read_prod_enabled :: "os_env \<Rightarrow> edge_cli_config \<Rightarrow> edge_error + (bool \<times> string)" where
  "read_prod_enabled env cli =
     (case ec_prod_enabled cli of
        Some v \<Rightarrow> Inr (v, ''--prod'')
      | None \<Rightarrow>
          and_then (optional_bool_env env ''OXO_EDGE_PROD'') (\<lambda>found.
          Inr (case found of Some v \<Rightarrow> (v, ''OXO_EDGE_PROD'') | None \<Rightarrow> (False, ''default-dev''))))"

section \<open>Sidecars and the admin listener\<close>

definition loopback_bind :: "string \<Rightarrow> string \<Rightarrow> socket_addr option \<Rightarrow> edge_error + socket_addr option" where
  "loopback_bind name message bind =
     (case bind of
        Some a \<Rightarrow> if is_loopback (sock_ip a) then Inr bind else config_env name message
      | None \<Rightarrow> Inr None)"

definition optional_bind_env :: "os_env \<Rightarrow> string \<Rightarrow> edge_error + socket_addr option" where
  "optional_bind_env env name =
     (case env_var env name of
        Inr raw \<Rightarrow>
          if trim raw = [] then Inr None
          else (case parse_socket_addr raw of
                  Some a \<Rightarrow> Inr (Some a)
                | None \<Rightarrow> config_env name ''expected loopback socket address'')
      | Inl NotPresent \<Rightarrow> Inr None
      | Inl err \<Rightarrow> not_unicode name err)"

definition read_action_cable_bind :: "os_env \<Rightarrow> edge_cli_config \<Rightarrow> edge_error + socket_addr option" where
  "read_action_cable_bind env cli =
     and_then (case ec_action_cable_bind cli of
         Some a \<Rightarrow> Inr (Some a) | None \<Rightarrow> optional_bind_env env ''OXO_EDGE_ACTION_CABLE_BIND'')
       (loopback_bind ''OXO_EDGE_ACTION_CABLE_BIND'' ''Action Cable sidecar bind must be loopback/private'')"

definition read_grpc_bind :: "os_env \<Rightarrow> edge_cli_config \<Rightarrow> edge_error + socket_addr option" where
  "read_grpc_bind env cli =
     and_then (case ec_grpc_bind cli of
         Some a \<Rightarrow> Inr (Some a) | None \<Rightarrow> optional_bind_env env ''OXO_EDGE_GRPC_BIND'')
       (loopback_bind ''OXO_EDGE_GRPC_BIND'' ''gRPC sidecar bind must be loopback/private'')"

definition read_admin_bind :: "os_env \<Rightarrow> public_mode option \<Rightarrow> edge_cli_config \<Rightarrow> edge_error + socket_addr option" where
  "read_admin_bind env mode cli =
     (let checked = loopback_bind ''OXO_EDGE_ADMIN_BIND'' ''private admin health bind must be loopback'' in
      case ec_admin_bind cli of
        Some a \<Rightarrow> checked (Some a)
      | None \<Rightarrow>
          (case env_var env ''OXO_EDGE_ADMIN_BIND'' of
             Inr raw \<Rightarrow>
               (case parse_socket_addr raw of
                  Some a \<Rightarrow> checked (Some a)
                | None \<Rightarrow> config_env ''OXO_EDGE_ADMIN_BIND'' ''expected loopback socket address'')
           | Inl NotPresent \<Rightarrow>
               if (case mode of Some m \<Rightarrow> requires_admin_health m | None \<Rightarrow> False) then
                 config_env ''OXO_EDGE_ADMIN_BIND'' ''public smoke beta requires private admin health bind''
               else Inr None
           | Inl err \<Rightarrow> not_unicode ''OXO_EDGE_ADMIN_BIND'' err))"

section \<open>The public name\<close>

definition fqdn_label :: "string \<Rightarrow> bool" where
  "fqdn_label label \<longleftrightarrow>
     label \<noteq> [] \<and> length label \<le> 63 \<and> hd label \<noteq> CHR ''-'' \<and> last label \<noteq> CHR ''-'' \<and>
     list_all (\<lambda>c. is_ascii_alphanumeric (byte c) \<or> c = CHR ''-'') label"

definition trim_end_dots :: "string \<Rightarrow> string" where
  "trim_end_dots s = rev (dropWhile (\<lambda>c. c = CHR ''.'') (rev s))"

definition is_single_ascii_fqdn :: "string \<Rightarrow> bool" where
  "is_single_ascii_fqdn v \<longleftrightarrow>
     (let name = trim_end_dots v in
      name \<noteq> [] \<and> length name \<le> 253 \<and> ascii_str name \<and> CHR '':'' \<notin> set name \<and> CHR ''*'' \<notin> set name \<and>
      (let labels = split_on (CHR ''.'') name in list_all fqdn_label labels \<and> length labels \<ge> 2))"

definition validate_tls_certificate_name :: "boot_env \<Rightarrow> path \<Rightarrow> string \<Rightarrow> edge_error + unit" where
  "validate_tls_certificate_name be cert server_name =
     (case be_certificate be cert of
        CertUnavailable message \<Rightarrow> Inl (TlsFileUnavailable ''certificate'' cert message)
      | CertInvalid message \<Rightarrow> Inl (TlsCertificateName cert server_name message)
      | CertDnsNames names \<Rightarrow>
          if list_ex (\<lambda>name. eq_ignore_ascii_case name server_name) names then Inr ()
          else Inl (TlsCertificateName cert server_name ''subjectAltName DNS entries do not contain the server name''))"

definition validate_public_tls_identity ::
  "boot_env \<Rightarrow> public_mode option \<Rightarrow> listener_mode \<Rightarrow> string \<Rightarrow> edge_error + unit" where
  "validate_public_tls_identity be mode listener server_name =
     (if mode = None then Inr ()
      else if \<not> is_single_ascii_fqdn server_name then
        config_env ''OXO_EDGE_SERVER_NAME''
          ''public mode requires a single ASCII DNS FQDN without wildcard, port, or IP literal''
      else
        (case listener of
           Tls cert _ _ \<Rightarrow> validate_tls_certificate_name be cert server_name
         | Plain \<Rightarrow> Inr ()))"

section \<open>Static files\<close>

text \<open>
  \<open>Path::display\<close>: every maximal invalid part of the path's bytes is replaced by U+FFFD.
\<close>

definition replacement :: "u8 list" where "replacement = [0xEF, 0xBF, 0xBD]"

fun lossy_bytes :: "u8 list \<Rightarrow> u8 list" where
  "lossy_bytes [] = []"
| "lossy_bytes (a # r) =
     (if a < 0x80 then a # lossy_bytes r
      else if 0xC2 \<le> a \<and> a \<le> 0xDF then
        (case r of
           b # r1 \<Rightarrow> if utf8_cont b then a # b # lossy_bytes r1 else replacement @ lossy_bytes r
         | [] \<Rightarrow> replacement)
      else if 0xE0 \<le> a \<and> a \<le> 0xEF then
        (case r of
           b # r1 \<Rightarrow>
             if utf8_second3 a b then
               (case r1 of
                  c # r2 \<Rightarrow> if utf8_cont c then a # b # c # lossy_bytes r2 else replacement @ lossy_bytes r1
                | [] \<Rightarrow> replacement)
             else replacement @ lossy_bytes r
         | [] \<Rightarrow> replacement)
      else if 0xF0 \<le> a \<and> a \<le> 0xF4 then
        (case r of
           b # r1 \<Rightarrow>
             if utf8_second4 a b then
               (case r1 of
                  c # r2 \<Rightarrow>
                    if utf8_cont c then
                      (case r2 of
                         d # r3 \<Rightarrow> if utf8_cont d then a # b # c # d # lossy_bytes r3 else replacement @ lossy_bytes r2
                       | [] \<Rightarrow> replacement)
                    else replacement @ lossy_bytes r1
                | [] \<Rightarrow> replacement)
             else replacement @ lossy_bytes r
         | [] \<Rightarrow> replacement)
      else replacement @ lossy_bytes r)"

definition path_display :: "path \<Rightarrow> string" where
  "path_display p = map byte_char (lossy_bytes (as_bytes p))"

definition path_join :: "path \<Rightarrow> string \<Rightarrow> path" where
  "path_join p name =
     (if starts_with name ''/'' then name
      else if p = [] \<or> last p = CHR ''/'' then p @ name else p @ ''/'' @ name)"

record serve_rails_plan =
  sr_root :: path
  sr_static_dir :: "path option"
  sr_static_assets :: bool
  sr_static_overridden :: bool

definition static_descriptor :: "serve_rails_plan \<Rightarrow> string" where
  "static_descriptor plan = (case sr_static_dir plan of Some dir \<Rightarrow> path_display dir | None \<Rightarrow> ''off'')"

definition resolve_serve_rails :: "path option \<Rightarrow> os_env \<Rightarrow> path option" where
  "resolve_serve_rails cli_value env = or_else cli_value (optional_path_env env ''OXO_EDGE_SERVE_RAILS'')"

definition plan_serve_rails :: "boot_env \<Rightarrow> path \<Rightarrow> path option \<Rightarrow> edge_error + serve_rails_plan" where
  "plan_serve_rails be root explicit_static_dir =
     (if \<not> be_is_dir be root then config_env ''--serve-rails'' ''app root is missing or not a directory''
      else
        (case explicit_static_dir of
           Some dir \<Rightarrow>
             Inr \<lparr>sr_root = root, sr_static_dir = Some dir, sr_static_assets = True, sr_static_overridden = True\<rparr>
         | None \<Rightarrow>
             (let public = path_join root ''public'' in
              if \<not> be_exists be public then
                Inr \<lparr>sr_root = root, sr_static_dir = None, sr_static_assets = False, sr_static_overridden = False\<rparr>
              else if \<not> be_is_dir be public then config_env ''--serve-rails'' ''public exists but is not a directory''
              else
                Inr \<lparr>sr_root = root, sr_static_dir = Some public,
                     sr_static_assets = be_is_dir be (path_join public ''assets''), sr_static_overridden = False\<rparr>)))"

definition read_static_rails_preset :: "os_env \<Rightarrow> edge_cli_config \<Rightarrow> edge_error + path option" where
  "read_static_rails_preset env cli =
     (case ec_static_rails_preset cli of
        Some p \<Rightarrow> Inr (Some p)
      | None \<Rightarrow>
          (case env_var env ''OXO_EDGE_STATIC_RAILS_PRESET'' of
             Inr raw \<Rightarrow> Inr (if trim raw \<noteq> [] then Some (trim raw) else None)
           | Inl NotPresent \<Rightarrow> Inr None
           | Inl err \<Rightarrow> not_unicode ''OXO_EDGE_STATIC_RAILS_PRESET'' err))"

definition explicit_specs :: "os_env \<Rightarrow> edge_cli_config \<Rightarrow> edge_error + (string \<times> string) list" where
  "explicit_specs env cli =
     (let tagged = map (\<lambda>spec. (spec, ''OXO_EDGE_STATIC_MOUNTS'')) in
      if ec_static_mounts cli \<noteq> [] then Inr (tagged (ec_static_mounts cli))
      else
        (case env_var env ''OXO_EDGE_STATIC_MOUNTS'' of
           Inr raw \<Rightarrow> Inr (tagged (filter (\<lambda>part. part \<noteq> []) (map trim (split_on (CHR '';'') raw))))
         | Inl NotPresent \<Rightarrow> Inr []
         | Inl err \<Rightarrow> not_unicode ''OXO_EDGE_STATIC_MOUNTS'' err))"

definition derived_mount :: "path option \<Rightarrow> serve_rails_plan option \<Rightarrow> (path \<times> bool \<times> string) option" where
  "derived_mount rails_preset serve_rails =
     (case (rails_preset, serve_rails) of
        (Some dir, _) \<Rightarrow> Some (dir, True, ''--static-rails-preset'')
      | (None, Some plan) \<Rightarrow>
          (case sr_static_dir plan of
             Some public \<Rightarrow>
               if sr_static_overridden plan then None else Some (public, sr_static_assets plan, ''--serve-rails'')
           | None \<Rightarrow> None)
      | (None, None) \<Rightarrow> None)"

definition derived_specs :: "(path \<times> bool \<times> string) option \<Rightarrow> (string \<times> string) list" where
  "derived_specs derived =
     (case derived of
        None \<Rightarrow> []
      | Some (dir, with_assets, source) \<Rightarrow>
          (let public_dir = path_display dir in
           (if with_assets then
              [(''/assets='' @ public_dir @ ''/assets,cache-control=public%2Cmax-age=31536000%2Cimmutable'', source)]
            else []) @
           [(''/='' @ public_dir @ '',fallthrough'', source)]))"

fun parse_mounts :: "boot_env \<Rightarrow> (string \<times> string) list \<Rightarrow> edge_error + mount_spec list" where
  "parse_mounts be [] = Inr []"
| "parse_mounts be ((raw, source) # specs) =
     and_then (map_err (\<lambda>message. ConfigEnv source (OtherMessage message)) (be_parse_mount be raw)) (\<lambda>mount.
     and_then (parse_mounts be specs) (\<lambda>mounts. Inr (mount # mounts)))"

definition read_static_mounts ::
  "boot_env \<Rightarrow> edge_cli_config \<Rightarrow> path option \<Rightarrow> serve_rails_plan option \<Rightarrow> edge_error + mount_spec list" where
  "read_static_mounts be cli rails_preset serve_rails =
     and_then (explicit_specs (be_env be) cli) (\<lambda>specs.
     parse_mounts be (specs @ derived_specs (derived_mount rails_preset serve_rails)))"

lemma lossy_bytes_valid: "utf8_valid bs \<Longrightarrow> lossy_bytes bs = bs"
proof (induction bs rule: utf8_valid.induct)
  case (2 a r)
  consider (one) "a < 0x80" | (two) "\<not> a < 0x80" "0xC2 \<le> a \<and> a \<le> 0xDF"
    | (three) "\<not> a < 0x80" "\<not> (0xC2 \<le> a \<and> a \<le> 0xDF)" "0xE0 \<le> a \<and> a \<le> 0xEF"
    | (four) "\<not> a < 0x80" "\<not> (0xC2 \<le> a \<and> a \<le> 0xDF)" "\<not> (0xE0 \<le> a \<and> a \<le> 0xEF)" "0xF0 \<le> a \<and> a \<le> 0xF4"
    using "2.prems" by (metis utf8_valid.simps(2))
  then show ?case
  proof cases
    case one
    with 2 show ?thesis by simp
  next
    case two
    with "2.prems" obtain b r' where "r = b # r'" "utf8_cont b" "utf8_valid r'" by (auto split: list.splits)
    with 2(2) [OF two] two show ?thesis by (subst lossy_bytes.simps(2)) (auto simp del: lossy_bytes.simps)
  next
    case three
    with "2.prems" obtain b c r' where "r = b # c # r'" "utf8_second3 a b" "utf8_cont c" "utf8_valid r'"
      by (auto split: list.splits)
    with 2(3) [OF three(1,2,3)] three show ?thesis by (subst lossy_bytes.simps(2)) (auto simp del: lossy_bytes.simps)
  next
    case four
    with "2.prems" obtain b c d r' where "r = b # c # d # r'" "utf8_second4 a b" "utf8_cont c" "utf8_cont d" "utf8_valid r'"
      by (auto split: list.splits)
    with 2(4) [OF four(1,2,3,4)] four show ?thesis by (subst lossy_bytes.simps(2)) (auto simp del: lossy_bytes.simps)
  qed
qed simp

lemma path_display_text: "rust_str p \<Longrightarrow> path_display p = p"
  by (simp add: path_display_def rust_str_def lossy_bytes_valid as_bytes_def comp_def)

end
