(* ===== verification/Rust_Text.thy ===== *)
theory Rust_Text
  imports Rust_Str
begin

text \<open>
  UTF-8 text stays UTF-8 text when it is cut at a character boundary: at an ASCII separator, and
  at the white space that \<open>str::trim\<close> removes. Trimming is idempotent.
\<close>

section \<open>Cutting at a boundary\<close>

lemma utf8_second_cont: "utf8_second3 a b \<Longrightarrow> utf8_cont b" "utf8_second4 a b \<Longrightarrow> utf8_cont b"
  by (auto simp: utf8_second3_def utf8_second4_def utf8_cont_def word_le_nat_alt split: if_splits)

definition boundary :: "u8 list \<Rightarrow> bool" where
  "boundary bs \<longleftrightarrow> bs = [] \<or> \<not> utf8_cont (hd bs)"

lemma utf8_tail_cases: obtains "r = []" | a where "r = [a]" | a b where "r = [a, b]" | a b c r' where "r = a # b # c # r'"
  by (metis list.exhaust)

lemma boundary_Cons [simp]: "boundary (b # bs) \<longleftrightarrow> \<not> utf8_cont b" "boundary []"
  by (simp_all add: boundary_def)

lemma utf8_valid_cut: "boundary b \<Longrightarrow> utf8_valid (a @ b) \<Longrightarrow> utf8_valid a \<and> utf8_valid b"
proof (induction a rule: utf8_valid.induct)
  case (2 x r)
  consider "x < 0x80" | "\<not> x < 0x80" "0xC2 \<le> x \<and> x \<le> 0xDF"
    | "\<not> x < 0x80" "\<not> (0xC2 \<le> x \<and> x \<le> 0xDF)" "0xE0 \<le> x \<and> x \<le> 0xEF"
    | "\<not> x < 0x80" "\<not> (0xC2 \<le> x \<and> x \<le> 0xDF)" "\<not> (0xE0 \<le> x \<and> x \<le> 0xEF)" "0xF0 \<le> x \<and> x \<le> 0xF4"
    using "2.prems"(2) by (auto split: if_splits)
  then show ?case
  proof cases
    case 1
    with 2 show ?thesis by simp
  next
    case two: 2
    then have eq: "utf8_valid (x # s) = (case s of y # s' \<Rightarrow> utf8_cont y \<and> utf8_valid s' | _ \<Rightarrow> False)" for s
      by (simp only: utf8_valid.simps(2) simp_thms if_True if_False)
    from "2.prems" obtain y r' where "r = y # r'" "utf8_cont y" "utf8_valid (r' @ b)"
      unfolding append_Cons eq by (cases r; cases b) (auto simp del: utf8_valid.simps)
    with "2.IH"(2) [OF two] "2.prems"(1) show ?thesis unfolding eq by (simp del: utf8_valid.simps)
  next
    case three: 3
    then have eq: "utf8_valid (x # s) =
        (case s of y # z # s' \<Rightarrow> utf8_second3 x y \<and> utf8_cont z \<and> utf8_valid s' | _ \<Rightarrow> False)" for s
      by (simp only: utf8_valid.simps(2) simp_thms if_True if_False)
    from "2.prems" obtain y z r' where "r = y # z # r'" "utf8_second3 x y" "utf8_cont z" "utf8_valid (r' @ b)"
      unfolding append_Cons eq by (cases r rule: utf8_tail_cases; cases b) (auto simp del: utf8_valid.simps dest: utf8_second_cont split: list.splits)
    with "2.IH"(3) [OF three] "2.prems"(1) show ?thesis unfolding eq by (simp del: utf8_valid.simps)
  next
    case four: 4
    then have eq: "utf8_valid (x # s) =
        (case s of y # z # w # s' \<Rightarrow> utf8_second4 x y \<and> utf8_cont z \<and> utf8_cont w \<and> utf8_valid s' | _ \<Rightarrow> False)" for s
      by (simp only: utf8_valid.simps(2) simp_thms if_True if_False)
    from "2.prems" obtain y z w r' where "r = y # z # w # r'" "utf8_second4 x y" "utf8_cont z" "utf8_cont w" "utf8_valid (r' @ b)"
      unfolding append_Cons eq by (cases r rule: utf8_tail_cases; cases b) (auto simp del: utf8_valid.simps dest: utf8_second_cont split: list.splits)
    with "2.IH"(4) [OF four] "2.prems"(1) show ?thesis unfolding eq by (simp del: utf8_valid.simps)
  qed
qed simp

lemma rust_str_cut:
  assumes "boundary (as_bytes b)" and "rust_str (a @ b)"
  shows "rust_str a" and "rust_str b"
  using utf8_valid_cut [OF assms(1), of "as_bytes a"] assms(2) by (auto simp: rust_str_def)

section \<open>Splitting and trimming\<close>

lemma split_on_rust_str:
  assumes "byte c < 0x80" and "rust_str s" and "w \<in> set (split_on c s)"
  shows "rust_str w"
  using assms(2,3)
proof (induction s arbitrary: w rule: length_induct)
  case (1 s)
  show ?case
  proof (cases "split_once c s")
    case None
    then have "c \<notin> set s" by (simp add: split_once_None)
    then have "split_on c s = [s]" by (induction s) auto
    with "1.prems" show ?thesis by simp
  next
    case (Some ab)
    then obtain a b where s: "s = a @ c # b" "c \<notin> set a" by (cases ab) (auto simp: split_once_Some)
    have "split_on c s = a # split_on c b" unfolding s(1) using s(2) by (induction a) auto
    moreover have "boundary (as_bytes (c # b))" using assms(1) by (auto simp: as_bytes_def utf8_cont_def)
    then have "rust_str a" "rust_str (c # b)" using rust_str_cut "1.prems"(1) unfolding s(1) by blast+
    moreover from this(2) have "rust_str b" using assms(1) by (simp add: rust_str_def as_bytes_def)
    moreover have "length b < length s" by (simp add: s(1))
    ultimately show ?thesis using "1.IH" "1.prems"(2) by auto
  qed
qed

lemma trim_with_invariant:
  assumes "P s" and "\<And>p s. p \<in> set ps \<Longrightarrow> P (p @ s) \<Longrightarrow> P s"
  shows "P (trim_with ps s) \<and> strip_any ps (trim_with ps s) = None"
  using assms(1)
proof (induction s rule: length_induct)
  case (1 s)
  show ?case
  proof (cases "strip_any ps s")
    case None
    with 1 show ?thesis by (simp add: trim_with_id)
  next
    case (Some s')
    then have "\<exists>p \<in> set ps. s = p @ s'" by (induction ps) (auto simp: starts_with_append split: if_splits)
    with "1.prems" assms(2) have "P s'" by blast
    with "1.IH" strip_any_shorter [OF Some] Some show ?thesis by (simp add: trim_with.simps [of ps s])
  qed
qed

lemma white_space_valid:
  assumes "p \<in> set white_space"
  shows "rust_str (p @ s) \<Longrightarrow> rust_str s" and "boundary (as_bytes p)"
proof -
  have "boundary (as_bytes s) \<or> \<not> rust_str s" for s
    by (cases s) (auto simp: rust_str_def as_bytes_def utf8_cont_def word_le_nat_alt word_less_nat_alt)
  moreover have "list_all rust_str white_space" by code_simp
  ultimately show "boundary (as_bytes p)" using assms by (auto simp: list_all_iff)
  show "rust_str (p @ s) \<Longrightarrow> rust_str s"
    using assms by (auto simp: white_space_def rust_str_def as_bytes_def byte_def)
qed

lemma trim_start_props: "rust_str s \<Longrightarrow> rust_str (trim_start s)" "strip_any white_space (trim_start s) = None"
  unfolding trim_start_def using trim_with_invariant [of rust_str s white_space] white_space_valid(1)
    trim_with_invariant [of "\<lambda>_. True" s white_space] by auto

lemma trim_end_props:
  "rust_str s \<Longrightarrow> rust_str (trim_end s)" "strip_any (map rev white_space) (rev (trim_end s)) = None" "\<exists>r. s = trim_end s @ r"
proof -
  have cut: "rust_str (rev (p @ t)) \<Longrightarrow> rust_str (rev t)" if "p \<in> set (map rev white_space)" for p t
    using that rust_str_cut(1) white_space_valid(2) by fastforce
  show "rust_str s \<Longrightarrow> rust_str (trim_end s)" "strip_any (map rev white_space) (rev (trim_end s)) = None"
    unfolding trim_end_def using trim_with_invariant [of "\<lambda>t. rust_str (rev t)" "rev s" "map rev white_space"] cut
      trim_with_invariant [of "\<lambda>_. True" "rev s" "map rev white_space"] by auto
  have "\<exists>r. rev s = r @ trim_with (map rev white_space) (rev s)"
    using trim_with_invariant [of "\<lambda>t. \<exists>r. rev s = r @ t" "rev s" "map rev white_space"] by (metis append_assoc append_Nil)
  then show "\<exists>r. s = trim_end s @ r" unfolding trim_end_def by (metis rev_append rev_rev_ident)
qed

lemma trim_rust_str: "rust_str s \<Longrightarrow> rust_str (trim s)"
  by (simp add: trim_def trim_start_props trim_end_props)

lemma trim_trim [simp]: "trim (trim s) = trim s"
proof -
  obtain r where r: "trim_start s = trim s @ r" using trim_end_props(3) by (auto simp: trim_def)
  have "strip_any white_space (trim s) = None"
    using trim_start_props(2) [of s] unfolding r by (auto simp: strip_any_None starts_with_append)
  then have "trim_start (trim s) = trim s" by (simp add: trim_start_def trim_with_id)
  moreover have "trim_end (trim s) = trim s"
    using trim_end_props(2) [of "trim_start s"] by (simp add: trim_def trim_end_def trim_with_id)
  ultimately show ?thesis by (simp add: trim_def [of "trim s"])
qed

end
