(* ===== verification/Service_Config.thy ===== *)
theory Service_Config
  imports Edge_Settings Rust_Text
begin

text \<open>
  What the service resolves before it starts anything, \<open>ServiceConfig::from_cli\<close> and the readers and
  collectors below it in \<open>crates/oxo-pingora-edge/src/service.rs\<close>: how workers are launched, the
  binaries, the socket directory and the socket of each worker, the timeouts, and for each child
  the whole environment and argument list it is started with, since a child's own environment
  is cleared. The process environment and the file system are the record \<open>service_env\<close>. Durations are
  natural numbers of milliseconds: no sum of them reaches the range of \<open>Duration\<close>. The error
  texts keep the fixed part of each message.
\<close>

section \<open>The service's world\<close>

datatype service_error =
    MissingEnv string
  | InvalidEnv string string
  | BinaryOverrideDenied string path
  | BinaryPathMustBeAbsolute string path
  | BinaryUnavailable string path string
  | BinaryNotFile string path
  | BinaryWritableByGroupOrOther string path u32
  | Spawn string path string
  | MissingWorkerStdout
  | MissingWorkerStderr
  | WorkerReadyIo string
  | WorkerReadiness string
  | WorkerReadinessOutputTooLarge
  | WorkerReadyWrongSocket path path
  | WorkerReadyTimeout
  | WorkerReadyDisconnected
  | WorkerSocketInvalid path string
  | WorkerSocketProbe path string
  | EdgeReadyTimeout socket_addr
  | CableReadyTimeout socket_addr
  | GrpcReadyTimeout socket_addr
  | ChildExited string int
  | WaitFailed string
  | AcmeReload string

text \<open>\<open>se_stat\<close> is \<open>fs::metadata\<close>, which follows symbolic links.\<close>

record service_env =
  se_env :: os_env
  se_stat :: "path \<Rightarrow> io_error + metadata"
  se_create_dir :: "path \<Rightarrow> string + unit"
  se_chmod :: "path \<Rightarrow> u32 \<Rightarrow> string + unit"
  se_exe :: "path option"
  se_acme_built :: bool

type_synonym millis = nat

type_synonym child_env = "(os_string \<times> os_string) list"

definition path_exists :: "service_env \<Rightarrow> path \<Rightarrow> bool" where
  "path_exists se p = is_ok (se_stat se p)"

definition path_is_dir :: "service_env \<Rightarrow> path \<Rightarrow> bool" where
  "path_is_dir se p = (case se_stat se p of Inr md \<Rightarrow> md_file_type md = FtDir | Inl _ \<Rightarrow> False)"

definition path_is_file :: "service_env \<Rightarrow> path \<Rightarrow> bool" where
  "path_is_file se p = (case se_stat se p of Inr md \<Rightarrow> md_file_type md = FtFile | Inl _ \<Rightarrow> False)"

section \<open>Paths, absolute or relative\<close>

text \<open>
  \<open>Path::parent\<close>, \<open>file_name\<close>, \<open>file_stem\<close>, \<open>extension\<close> and path equality: a leading dot of a
  relative path is a component, every other dot and every empty piece is not.
\<close>

definition relative_pieces :: "path \<Rightarrow> string list" where
  "relative_pieces p = (let ps = split_on (CHR ''/'') p in hd ps # trim_components (tl ps))"

definition join_pieces :: "string list \<Rightarrow> path" where
  "join_pieces ps = hd ps @ concat (map (\<lambda>p. CHR ''/'' # p) (tl ps))"

definition os_parent :: "path \<Rightarrow> path option" where
  "os_parent p =
     (if is_absolute p then path_parent p
      else
        (let ps = relative_pieces p in
         if tl ps = [] then (if hd ps = [] then None else Some [])
         else Some (join_pieces (hd ps # trim_components (butlast (tl ps))))))"

definition path_components :: "path \<Rightarrow> string list" where
  "path_components p =
     (let ps = split_on (CHR ''/'') p in
      if is_absolute p then ''/'' # filter (\<lambda>s. \<not> no_component s) ps
      else filter (\<lambda>s. s \<noteq> []) [hd ps] @ filter (\<lambda>s. \<not> no_component s) (tl ps))"

definition path_eq :: "path \<Rightarrow> path \<Rightarrow> bool" where
  "path_eq p q \<longleftrightarrow> path_components p = path_components q"

definition file_name :: "path \<Rightarrow> string option" where
  "file_name p =
     (let ps = path_components p in
      if ps = [] \<or> last ps \<in> set [''/'', ''.'', ''..''] then None else Some (last ps))"

definition file_stem :: "path \<Rightarrow> string option" where
  "file_stem p =
     map_option (\<lambda>name.
       case rsplit_once (CHR ''.'') name of
         None \<Rightarrow> name
       | Some (before, after) \<Rightarrow> if before = [] then name else before) (file_name p)"

definition extension :: "path \<Rightarrow> string option" where
  "extension p =
     Option.bind (file_name p) (\<lambda>name.
       case rsplit_once (CHR ''.'') name of
         None \<Rightarrow> None
       | Some (before, after) \<Rightarrow> if before = [] then None else Some after)"

section \<open>Reading the environment\<close>

definition invalid_env :: "string \<Rightarrow> string \<Rightarrow> service_error + 'a" where
  "invalid_env name message = Inl (InvalidEnv name message)"

definition svc_string_env :: "os_env \<Rightarrow> string \<Rightarrow> service_error + string option" where
  "svc_string_env env name =
     (case env_var env name of
        Inr v \<Rightarrow> Inr (if trim v = [] then None else Some v)
      | Inl NotPresent \<Rightarrow> Inr None
      | Inl err \<Rightarrow> invalid_env name (var_error_message err))"

text \<open>The shape of the other optional readers: a blank value is absent, another is trimmed and parsed.\<close>

definition svc_parsed_env ::
  "(string \<Rightarrow> 'v option) \<Rightarrow> string \<Rightarrow> os_env \<Rightarrow> string \<Rightarrow> service_error + 'v option" where
  "svc_parsed_env parse message env name =
     and_then (svc_string_env env name) (\<lambda>found.
     case found of
       None \<Rightarrow> Inr None
     | Some raw \<Rightarrow> (case parse (trim raw) of Some v \<Rightarrow> Inr (Some v) | None \<Rightarrow> invalid_env name message))"

definition svc_bool_env :: "os_env \<Rightarrow> string \<Rightarrow> service_error + bool option" where
  "svc_bool_env = svc_parsed_env parse_env_bool ''expected 0/1 or true/false''"

definition svc_u16_env :: "os_env \<Rightarrow> string \<Rightarrow> service_error + u16 option" where
  "svc_u16_env = svc_parsed_env (\<lambda>s. map_option of_nat (parse_uint U16_MAX s)) ''expected integer port''"

definition svc_u64_env :: "os_env \<Rightarrow> string \<Rightarrow> service_error + u64 option" where
  "svc_u64_env = svc_parsed_env parse_u64 ''expected integer byte count''"

definition svc_socket_addr_env :: "os_env \<Rightarrow> string \<Rightarrow> service_error + socket_addr option" where
  "svc_socket_addr_env = svc_parsed_env parse_socket_addr ''expected socket address''"

definition svc_env_usize :: "os_env \<Rightarrow> string \<Rightarrow> usize \<Rightarrow> service_error + usize" where
  "svc_env_usize env name dflt =
     and_then (svc_parsed_env (parse_uint U64_MAX) ''expected unsigned integer'' env name) (\<lambda>v. Inr (unwrap_or v dflt))"

definition env_duration_ms :: "os_env \<Rightarrow> string \<Rightarrow> millis \<Rightarrow> service_error + millis" where
  "env_duration_ms env name dflt = svc_env_usize env name dflt"

definition svc_env_bool :: "os_env \<Rightarrow> string \<Rightarrow> bool \<Rightarrow> service_error + bool" where
  "svc_env_bool env name dflt = and_then (svc_bool_env env name) (\<lambda>v. Inr (unwrap_or v dflt))"

definition required_string :: "os_env \<Rightarrow> string \<Rightarrow> service_error + string" where
  "required_string env name =
     (case env_var env name of
        Inl _ \<Rightarrow> Inl (MissingEnv name)
      | Inr v \<Rightarrow> if trim v = [] then Inl (MissingEnv name) else Inr v)"

definition svc_optional_path :: "os_env \<Rightarrow> string \<Rightarrow> path option" where
  "svc_optional_path env name = Option.bind (env name) (\<lambda>v. if v = [] then None else Some v)"

definition required_path :: "os_env \<Rightarrow> string \<Rightarrow> service_error + path" where
  "required_path env name = ok_or (MissingEnv name) (svc_optional_path env name)"

definition read_nonzero_duration_ms :: "os_env \<Rightarrow> string \<Rightarrow> millis \<Rightarrow> service_error + millis" where
  "read_nonzero_duration_ms env name dflt =
     and_then (svc_string_env env name) (\<lambda>found.
     case found of
       None \<Rightarrow> Inr dflt
     | Some raw \<Rightarrow>
         (case parse_u64 raw of
            None \<Rightarrow> invalid_env name ''expected milliseconds''
          | Some n \<Rightarrow> if n = 0 then invalid_env name ''must be greater than zero'' else Inr (unat n)))"

section \<open>Binaries and the worker launch\<close>

datatype worker_launch = LaunchClassic | LaunchAsync path path path path

text \<open>The fields of \<open>LaunchAsync\<close> are \<open>bundle_bin\<close>, \<open>ruby_bin\<close>, \<open>script\<close> and \<open>app_root\<close>.\<close>

fun launch_is_async :: "worker_launch \<Rightarrow> bool" where
  "launch_is_async LaunchClassic = False"
| "launch_is_async (LaunchAsync _ _ _ _) = True"

definition validate_executable_permissions :: "string \<Rightarrow> path \<Rightarrow> metadata \<Rightarrow> service_error + unit" where
  "validate_executable_permissions role path md =
     (if starts_with (path_display path) ''/mnt/'' then Inr ()
      else
        (let mode = md_mode md AND 0x1FF in
         if mode AND 0x12 \<noteq> 0 then Inl (BinaryWritableByGroupOrOther role path mode) else Inr ()))"

definition validate_executable :: "service_env \<Rightarrow> string \<Rightarrow> path \<Rightarrow> service_error + unit" where
  "validate_executable se role path =
     (if \<not> is_absolute path then Inl (BinaryPathMustBeAbsolute role path)
      else
        and_then (map_err (\<lambda>err. BinaryUnavailable role path (io_message err)) (se_stat se path)) (\<lambda>md.
        if md_file_type md \<noteq> FtFile then Inl (BinaryNotFile role path)
        else validate_executable_permissions role path md))"

definition sibling_binary :: "service_env \<Rightarrow> string \<Rightarrow> path" where
  "sibling_binary se name =
     unwrap_or (Option.bind (se_exe se) (\<lambda>exe. map_option (\<lambda>parent. path_join parent name) (os_parent exe))) name"

definition configured_binary :: "service_env \<Rightarrow> string \<Rightarrow> string \<Rightarrow> bool \<Rightarrow> string \<Rightarrow> service_error + path" where
  "configured_binary se env_name sibling_name allow_override role =
     and_then
       (case svc_optional_path (se_env se) env_name of
          Some path \<Rightarrow> if allow_override then Inr path else Inl (BinaryOverrideDenied env_name path)
        | None \<Rightarrow> Inr (sibling_binary se sibling_name)) (\<lambda>path.
     and_then (validate_executable se role path) (\<lambda>_. Inr path))"

definition read_worker_launch :: "service_env \<Rightarrow> service_error + worker_launch" where
  "read_worker_launch se =
     and_then (svc_string_env (se_env se) ''OXO_WORKER_KIND'') (\<lambda>kind.
     if kind = None \<or> kind = Some ''classic'' then Inr LaunchClassic
     else if kind = Some ''async'' then
       and_then (required_path (se_env se) ''OXO_ASYNC_WORKER_SCRIPT'') (\<lambda>script.
       and_then (validate_executable se ''async-worker-script'' script) (\<lambda>_.
       and_then (required_path (se_env se) ''OXO_ASYNC_BUNDLE_BIN'') (\<lambda>bundle_bin.
       and_then (validate_executable se ''async-bundle'' bundle_bin) (\<lambda>_.
       and_then (required_path (se_env se) ''OXO_ASYNC_RUBY_BIN'') (\<lambda>ruby_bin.
       and_then (validate_executable se ''async-ruby'' ruby_bin) (\<lambda>_.
       and_then (required_path (se_env se) ''OXO_ASYNC_WORKER_APP_ROOT'') (\<lambda>app_root.
       if \<not> is_absolute app_root then invalid_env ''OXO_ASYNC_WORKER_APP_ROOT'' ''must be an absolute directory''
       else if \<not> path_is_dir se app_root then invalid_env ''OXO_ASYNC_WORKER_APP_ROOT'' ''not a directory''
       else Inr (LaunchAsync bundle_bin ruby_bin script app_root))))))))
     else invalid_env ''OXO_WORKER_KIND'' ''expected classic|async'')"

section \<open>Timeouts and drain grace\<close>

definition WORKER_READY_TIMEOUT :: millis where "WORKER_READY_TIMEOUT = 15000"
definition WORKER_DRAIN_WAIT :: millis where "WORKER_DRAIN_WAIT = 1000"
definition SIDECAR_DRAIN_WAIT :: millis where "SIDECAR_DRAIN_WAIT = 1000"
definition DEFAULT_DRAIN_GRACE :: millis where "DEFAULT_DRAIN_GRACE = 5000"
definition DEFAULT_EDGE_DRAIN_GRACE :: millis where "DEFAULT_EDGE_DRAIN_GRACE = 2000"
definition CHILD_TERM_TIMEOUT :: millis where "CHILD_TERM_TIMEOUT = 5000"
definition DEFAULT_ACME_RENEW_INTERVAL :: millis where "DEFAULT_ACME_RENEW_INTERVAL = 21600000"
definition DEFAULT_ACME_RENEW_TIMEOUT :: millis where "DEFAULT_ACME_RENEW_TIMEOUT = 600000"

definition read_worker_ready_timeout :: "os_env \<Rightarrow> worker_launch \<Rightarrow> service_error + millis" where
  "read_worker_ready_timeout env launch =
     read_nonzero_duration_ms env ''OXO_WORKER_READY_TIMEOUT_MS''
       (if launch_is_async launch then 120000 else WORKER_READY_TIMEOUT)"

definition read_worker_respawn_ready_timeout :: "os_env \<Rightarrow> worker_launch \<Rightarrow> service_error + millis" where
  "read_worker_respawn_ready_timeout env launch =
     read_nonzero_duration_ms env ''OXO_WORKER_RESPAWN_READY_TIMEOUT_MS''
       (if launch_is_async launch then 30000 else WORKER_READY_TIMEOUT)"

definition read_worker_drain_wait :: "os_env \<Rightarrow> worker_launch \<Rightarrow> service_error + millis" where
  "read_worker_drain_wait env launch =
     (if \<not> launch_is_async launch then Inr WORKER_DRAIN_WAIT
      else
        and_then (read_nonzero_duration_ms env ''OXO_WORKER_DRAIN_DEADLINE_MS'' 900) (\<lambda>deadline.
        Inr (deadline + 150)))"

definition resolve_edge_drain_grace :: "os_env \<Rightarrow> edge_cli_config \<Rightarrow> service_error + (u64 \<times> millis)" where
  "resolve_edge_drain_grace env cli =
     and_then
       (case ec_drain_grace_ms cli of
          Some n \<Rightarrow> Inr (''--drain-grace-ms'', n)
        | None \<Rightarrow>
            and_then (svc_env_usize env ''OXO_EDGE_DRAIN_GRACE_MS'' DEFAULT_EDGE_DRAIN_GRACE) (\<lambda>n.
            Inr (''OXO_EDGE_DRAIN_GRACE_MS'', of_nat n))) (\<lambda>(name, n).
     if n = 0 then invalid_env name ''edge drain grace must be greater than zero''
     else Inr (n, 1000 * unat (saturating_add n 999 div 1000)))"

definition validate_drain_grace_hierarchy :: "millis \<Rightarrow> millis \<Rightarrow> millis \<Rightarrow> service_error + unit" where
  "validate_drain_grace_hierarchy service_grace edge_grace worker_drain_wait =
     (if service_grace \<le> edge_grace + SIDECAR_DRAIN_WAIT + worker_drain_wait
      then invalid_env ''OXO_SERVICE_DRAIN_GRACE_MS'' ''must be greater than the stages of the drain''
      else Inr ())"

definition validate_frame_pool_idle_env :: "os_env \<Rightarrow> service_error + unit" where
  "validate_frame_pool_idle_env env =
     and_then (svc_string_env env ''OXO_EDGE_FRAME_POOL_IDLE'') (\<lambda>found.
     case found of
       None \<Rightarrow> Inr ()
     | Some raw \<Rightarrow>
         (case parse_u64 raw of
            None \<Rightarrow> invalid_env ''OXO_EDGE_FRAME_POOL_IDLE'' ''expected a positive integer''
          | Some n \<Rightarrow>
              if n = 0 then invalid_env ''OXO_EDGE_FRAME_POOL_IDLE'' ''must be greater than zero'' else Inr ()))"

definition validate_edge_pool_env :: "os_env \<Rightarrow> service_error + unit" where
  "validate_edge_pool_env env =
     and_then (svc_string_env env ''OXO_EDGE_POOL'') (\<lambda>found.
     case found of
       None \<Rightarrow> Inr ()
     | Some raw \<Rightarrow>
         if trim raw \<in> set [[], ''owned''] then Inr ()
         else if trim raw = ''pingora'' then
           invalid_env ''OXO_EDGE_POOL''
             ''the pingora pool was the A/B control and was removed; only owned remains''
         else invalid_env ''OXO_EDGE_POOL'' ''expected owned'')"

section \<open>The runtime directory and the worker sockets\<close>

text \<open>What \<open>ensure_runtime_dir\<close> did: it verified the directory, made it, or left its creation to a real start.\<close>

datatype dir_effect = DirVerified path | DirCreated path | DirDeferred path

definition ensure_runtime_dir :: "service_env \<Rightarrow> path \<Rightarrow> bool \<Rightarrow> service_error + dir_effect" where
  "ensure_runtime_dir se worker_socket check_config =
     and_then (ok_or (InvalidEnv ''OXO_WORKER_SOCKET'' ''socket path has no parent directory'')
       (Option.bind (os_parent worker_socket) (\<lambda>p. if p = [] then None else Some p))) (\<lambda>parent.
     if \<not> path_exists se parent then
       if check_config then Inr (DirDeferred parent)
       else
         and_then (map_err (\<lambda>_. InvalidEnv ''OXO_WORKER_SOCKET'' ''failed to create runtime dir'')
           (se_create_dir se parent)) (\<lambda>_.
         and_then (map_err (\<lambda>_. InvalidEnv ''OXO_WORKER_SOCKET'' ''failed to chmod runtime dir'')
           (se_chmod se parent 0x1C0)) (\<lambda>_. Inr (DirCreated parent)))
     else
       and_then (map_err (\<lambda>_. InvalidEnv ''OXO_WORKER_SOCKET'' ''failed to stat runtime dir'') (se_stat se parent)) (\<lambda>md.
       if md_file_type md \<noteq> FtDir then invalid_env ''OXO_WORKER_SOCKET'' ''runtime path is not a directory''
       else
         (let mode = md_mode md AND 0x1FF in
          if mode AND 0x3F \<noteq> 0 then
            invalid_env ''OXO_WORKER_SOCKET'' ''runtime dir is group/other-accessible; want 0700''
          else Inr (DirVerified parent))))"

definition utf8_str :: "string option \<Rightarrow> string option" where
  "utf8_str s = Option.bind s (\<lambda>v. if rust_str v then Some v else None)"

definition worker_socket_name :: "string \<Rightarrow> string option \<Rightarrow> nat \<Rightarrow> string" where
  "worker_socket_name stem ext wid =
     (case ext of
        Some e \<Rightarrow> if e \<noteq> [] then stem @ ''-'' @ to_string wid @ ''.'' @ e else stem @ ''-'' @ to_string wid
      | None \<Rightarrow> stem @ ''-'' @ to_string wid)"

definition worker_socket_paths :: "path \<Rightarrow> usize \<Rightarrow> service_error + path list" where
  "worker_socket_paths base n =
     (if n = 1 then Inr [base]
      else
        and_then (ok_or (InvalidEnv ''OXO_WORKER_SOCKET'' ''socket path has no parent'') (os_parent base)) (\<lambda>parent.
        let stem = unwrap_or (Option.bind (utf8_str (file_stem base)) (\<lambda>s. if s = [] then None else Some s)) ''worker'';
            ext = utf8_str (extension base)
        in Inr (map (\<lambda>wid. path_join parent (worker_socket_name stem ext wid)) [0..<n])))"

definition resolve_edge_bind :: "os_env \<Rightarrow> edge_cli_config \<Rightarrow> service_error + socket_addr" where
  "resolve_edge_bind env cli =
     (case (ec_http_bind cli, ec_https_bind cli) of
        (Some _, Some _) \<Rightarrow>
          invalid_env ''argv'' ''--http-bind and --https-bind are mutually exclusive for the application listener''
      | (Some bind, None) \<Rightarrow> Inr bind
      | (None, Some bind) \<Rightarrow> Inr bind
      | (None, None) \<Rightarrow>
          and_then (required_string env ''OXO_EDGE_BIND'') (\<lambda>raw.
          ok_or (InvalidEnv ''OXO_EDGE_BIND'' ''expected socket address'') (parse_socket_addr raw)))"

definition edge_uses_tls :: "os_env \<Rightarrow> edge_cli_config \<Rightarrow> service_error + bool" where
  "edge_uses_tls env cli =
     (if ec_https_bind cli \<noteq> None \<or> ec_tls_cert cli \<noteq> None \<or> ec_tls_key cli \<noteq> None then Inr True
      else if ec_http_bind cli \<noteq> None then Inr False
      else svc_env_bool env ''OXO_EDGE_TLS'' False)"

section \<open>What a child's environment holds\<close>

definition push_required_env :: "os_env \<Rightarrow> string \<Rightarrow> service_error + child_env" where
  "push_required_env env name =
     (case svc_optional_path env name of Some v \<Rightarrow> Inr [(name, v)] | None \<Rightarrow> Inl (MissingEnv name))"

definition push_optional_env :: "os_env \<Rightarrow> string \<Rightarrow> child_env" where
  "push_optional_env env name = (case svc_optional_path env name of Some v \<Rightarrow> [(name, v)] | None \<Rightarrow> [])"

definition push_optional_envs :: "os_env \<Rightarrow> string list \<Rightarrow> child_env" where
  "push_optional_envs env names = concat (map (push_optional_env env) names)"

definition push_env_value :: "string \<Rightarrow> os_string \<Rightarrow> child_env" where
  "push_env_value name v = [(name, v)]"

definition is_env_name_safe :: "string \<Rightarrow> bool" where
  "is_env_name_safe name \<longleftrightarrow>
     name \<noteq> [] \<and> list_all (\<lambda>b. is_ascii_uppercase b \<or> is_ascii_digit b \<or> b = byte (CHR ''_'')) (as_bytes name)"

definition edge_only_env_names :: "string list" where
  "edge_only_env_names =
     [''OXO_EDGE_BIND'', ''OXO_EDGE_WORKER_SOCKET'', ''OXO_EDGE_WORKER_SOCKETS'', ''OXO_EDGE_MAX_BODY'',
      ''OXO_EDGE_SERVER_NAME'', ''OXO_EDGE_PUBLIC_ORIGIN_PORT'', ''OXO_EDGE_TLS'', ''OXO_EDGE_TLS_CERT'',
      ''OXO_EDGE_TLS_KEY'', ''OXO_EDGE_TLS_H2'', ''OXO_EDGE_ACME_STATE_PATH'', ''OXO_EDGE_ACME_ISSUE_ONCE'',
      ''OXO_EDGE_ACME_RENEW_ONCE'', ''OXO_EDGE_ACME_DIRECTORY_URL'', ''OXO_EDGE_ACME_CONTACTS'',
      ''OXO_EDGE_ACME_ACCEPT_TERMS'', ''OXO_EDGE_ACME_ALLOW_PRODUCTION_DIRECTORY'', ''OXO_EDGE_PUBLIC_MODE'',
      ''OXO_EDGE_PUBLIC_IDENTITY'', ''OXO_EDGE_ADMIN_BIND'', ''OXO_EDGE_ACTION_CABLE_BIND'', ''OXO_EDGE_GRPC_BIND'',
      ''OXO_EDGE_DRAIN_GRACE_MS'', ''OXO_EDGE_MAX_IN_FLIGHT_REQUESTS'', ''OXO_EDGE_HEADER_READ_TIMEOUT_MS'',
      ''OXO_EDGE_KEEPALIVE_IDLE_TIMEOUT_MS'', ''OXO_EDGE_MAX_CONNECTION_SECS'', ''OXO_EDGE_SSE'', ''OXO_EDGE_KEEPALIVE'',
      ''OXO_EDGE_MAX_REQUESTS_PER_CONNECTION'', ''OXO_EDGE_H2_MAX_CONCURRENT_STREAMS'',
      ''OXO_EDGE_H2_MAX_RESET_STREAMS'', ''OXO_EDGE_THREADS'', ''OXO_EDGE_LISTENER_TASKS'', ''OXO_EDGE_REQUEST_LOG'',
      ''OXO_EDGE_STATIC_MOUNTS'', ''OXO_EDGE_STATIC_RAILS_PRESET'', ''OXO_EDGE_SERVE_RAILS'', ''OXO_EDGE_PROD'',
      ''LISTEN_FDS'', ''LISTEN_PID'', ''LISTEN_FDNAMES'']"

definition is_edge_only_env_name :: "string \<Rightarrow> bool" where
  "is_edge_only_env_name name \<longleftrightarrow> name \<in> set edge_only_env_names"

text \<open>A comma separated list, as the service splits every such setting.\<close>

definition trimmed_parts :: "char \<Rightarrow> string \<Rightarrow> string list" where
  "trimmed_parts sep raw = filter (\<lambda>part. part \<noteq> []) (map trim (split_on sep raw))"

fun allowed_envs :: "os_env \<Rightarrow> string \<Rightarrow> string list \<Rightarrow> service_error + child_env" where
  "allowed_envs env allow_var [] = Inr []"
| "allowed_envs env allow_var (name # names) =
     (if \<not> is_env_name_safe name then invalid_env allow_var ''invalid env name''
      else if is_edge_only_env_name name then invalid_env allow_var ''edge-only env name is not allowed''
      else and_then (allowed_envs env allow_var names) (\<lambda>envs. Inr (push_optional_env env name @ envs)))"

definition apply_env_allowlist :: "os_env \<Rightarrow> string \<Rightarrow> child_env \<Rightarrow> service_error + child_env" where
  "apply_env_allowlist env allow_var envs =
     (case env_var env allow_var of
        Inr extra \<Rightarrow>
          and_then (allowed_envs env allow_var (trimmed_parts (CHR '','') extra)) (\<lambda>more. Inr (envs @ more))
      | Inl _ \<Rightarrow> Inr envs)"

definition default_cable_passthrough_env :: "string list" where
  "default_cable_passthrough_env =
     [''PATH'', ''LD_LIBRARY_PATH'', ''DYLD_LIBRARY_PATH'', ''BUNDLE_GEMFILE'', ''RAILS_ENV'', ''RACK_ENV'',
      ''SECRET_KEY_BASE'', ''RAILS_MASTER_KEY'', ''REDIS_URL'']"

definition default_grpc_passthrough_env :: "string list" where
  "default_grpc_passthrough_env =
     [''PATH'', ''LD_LIBRARY_PATH'', ''DYLD_LIBRARY_PATH'', ''BUNDLE_GEMFILE'', ''RAILS_ENV'', ''RACK_ENV'',
      ''SECRET_KEY_BASE'', ''RAILS_MASTER_KEY'', ''DATABASE_URL'', ''REDIS_URL'', ''GRPC_DEFAULT_SSL_ROOTS_FILE_PATH'']"

definition default_worker_passthrough_env :: "string list" where
  "default_worker_passthrough_env =
     [''PATH'', ''LD_LIBRARY_PATH'', ''DYLD_LIBRARY_PATH'', ''BUNDLE_GEMFILE'', ''RAILS_ENV'', ''RACK_ENV'',
      ''SECRET_KEY_BASE'', ''RAILS_MASTER_KEY'', ''DATABASE_URL'', ''REDIS_URL'', ''MEMCACHE_SERVERS'']"

definition collect_worker_env :: "os_env \<Rightarrow> path \<Rightarrow> service_error + child_env" where
  "collect_worker_env env worker_socket =
     and_then (push_required_env env ''OXO_WORKER_APP'') (\<lambda>app.
     apply_env_allowlist env ''OXO_APP_ENV_ALLOW''
       (app @ push_env_value ''OXO_WORKER_SOCKET'' worker_socket @
        push_optional_envs env
          [''OXO_WORKER_THREADS'', ''OXO_WORKER_MAX_BODY'', ''OXO_WORKER_RACK_LINT'', ''OXO_WORKER_STREAMING''] @
        push_optional_envs env default_worker_passthrough_env))"

definition push_string_env :: "os_env \<Rightarrow> string \<Rightarrow> service_error + child_env" where
  "push_string_env env name =
     and_then (svc_string_env env name) (\<lambda>found.
     Inr (case found of Some dir \<Rightarrow> push_env_value name dir | None \<Rightarrow> []))"

definition async_db_envs :: "string list" where
  "async_db_envs =
     [''OXO_DB'', ''OXO_DB_POOL_SIZE'', ''OXO_DB_HOST'', ''OXO_DB_PORT'', ''OXO_DB_NAME'', ''OXO_DB_USER'',
      ''OXO_DB_PASSWORD'', ''OXO_DB_SSLMODE'']"

definition collect_async_worker_env :: "service_env \<Rightarrow> path \<Rightarrow> path \<Rightarrow> service_error + child_env" where
  "collect_async_worker_env se worker_socket app_root =
     (let env = se_env se in
      and_then (push_required_env env ''OXO_WORKER_APP'') (\<lambda>app.
      and_then (push_string_env env ''OXO_WORKER_TIMING_DIR'') (\<lambda>timing.
      and_then (push_string_env env ''OXO_WORKER_ORDER_DIR'') (\<lambda>order.
      and_then (svc_string_env env ''BUNDLE_GEMFILE'') (\<lambda>explicit.
      let gemfile = unwrap_or explicit (path_join app_root ''Gemfile'') in
      if \<not> path_is_file se gemfile then
        invalid_env ''BUNDLE_GEMFILE'' ''gemfile not found (operator value or <app_root>/Gemfile)''
      else
        apply_env_allowlist env ''OXO_APP_ENV_ALLOW''
          (app @ push_env_value ''OXO_WORKER_SOCKET'' worker_socket @ push_env_value ''OXO_ASYNC'' ''1'' @ timing @
           push_optional_envs env [''OXO_WORKER_TAIL_NS'', ''OXO_WORKER_SCHED_SAMPLE_N''] @ order @
           push_optional_envs env [''OXO_WORKER_FAIR_READ'', ''OXO_WORKER_SCHED''] @
           push_env_value ''BUNDLE_GEMFILE'' gemfile @
           push_optional_envs env [''OXO_WORKER_MAX_BODY'', ''OXO_WORKER_RACK_LINT'', ''OXO_WORKER_DRAIN_DEADLINE_MS''] @
           push_optional_envs env async_db_envs @ push_optional_envs env default_worker_passthrough_env))))))"

definition collect_cable_env :: "os_env \<Rightarrow> socket_addr \<Rightarrow> service_error + child_env" where
  "collect_cable_env env bind =
     apply_env_allowlist env ''OXO_CABLE_ENV_ALLOW''
       (push_env_value ''OXO_CABLE_BIND'' (show_socket_addr bind) @
        push_optional_envs env [''OXO_CABLE_APP'', ''OXO_CABLE_RACKUP'', ''OXO_CABLE_ALLOWED_ORIGINS'',
          ''OXO_CABLE_MAX_CONNECTIONS'', ''OXO_CABLE_IDLE_TIMEOUT_MS''] @
        push_optional_envs env default_cable_passthrough_env)"

definition collect_grpc_env :: "os_env \<Rightarrow> socket_addr \<Rightarrow> service_error + child_env" where
  "collect_grpc_env env bind =
     apply_env_allowlist env ''OXO_GRPC_ENV_ALLOW''
       (push_env_value ''OXO_GRPC_BIND'' (show_socket_addr bind) @
        push_optional_envs env [''OXO_GRPC_APP'', ''OXO_GRPC_CONFIG'', ''OXO_GRPC_MAX_MESSAGE_BYTES'',
          ''OXO_GRPC_DEADLINE_MS''] @
        push_optional_envs env default_grpc_passthrough_env)"

text \<open>The edge's own list, in the default build: the bench and timing features add none of theirs.\<close>

definition push_var :: "os_env \<Rightarrow> string \<Rightarrow> child_env" where
  "push_var env name = (case env_var env name of Inr v \<Rightarrow> [(name, v)] | Inl _ \<Rightarrow> [])"

definition collect_edge_env :: "os_env \<Rightarrow> worker_launch \<Rightarrow> child_env" where
  "collect_edge_env env launch =
     push_var env ''OXO_WORKER_DISPATCH'' @ push_var env ''OXO_EDGE_WORKER_CAP'' @ push_var env ''OXO_HOP_REAPER'' @
     push_var env ''OXO_EDGE_FRAME_POOL_IDLE'' @
     (if launch_is_async launch then [(''OXO_WORKER_KIND'', ''async'')] else [])"

section \<open>What the service logs of them\<close>

definition env_upper_char :: "char \<Rightarrow> char" where
  "env_upper_char c = (if is_ascii_lowercase (byte c) then byte_char (byte c - 0x20) else c)"

definition to_ascii_uppercase :: "string \<Rightarrow> string" where
  "to_ascii_uppercase s = map env_upper_char s"

definition is_sensitive_env_name :: "string \<Rightarrow> bool" where
  "is_sensitive_env_name raw \<longleftrightarrow>
     (let name = to_ascii_uppercase raw in
      contains_str name ''SECRET'' \<or> contains_str name ''PASSWORD'' \<or> contains_str name ''TOKEN'' \<or>
      contains_str name ''CREDENTIAL'' \<or> name = ''DATABASE_URL'' \<or> name = ''REDIS_URL'' \<or>
      name = ''RAILS_MASTER_KEY'' \<or> ends_with name ''_KEY'')"

definition redacted_env_value :: "string \<Rightarrow> os_string \<Rightarrow> string" where
  "redacted_env_value name v =
     (if path_display v = [] then ''<empty>''
      else if is_sensitive_env_name name then ''<redacted>'' else ''<set>'')"

fun join_with :: "string \<Rightarrow> string list \<Rightarrow> string" where
  "join_with sep [] = []"
| "join_with sep [s] = s"
| "join_with sep (s # ss) = s @ sep @ join_with sep ss"

definition redacted_env_summary :: "child_env \<Rightarrow> string" where
  "redacted_env_summary envs =
     join_with '','' (map (\<lambda>(n, v). let name = path_display n in name @ ''='' @ redacted_env_value name v) envs)"

section \<open>The edge child's command line\<close>

text \<open>A setting of the command line, else of the environment, which is read (and may fail) either way.\<close>

definition cli_else :: "'v option \<Rightarrow> (service_error + 'v option) \<Rightarrow> service_error + 'v option" where
  "cli_else cli_value from_env = and_then from_env (\<lambda>e. Inr (or_else cli_value e))"

text \<open>A switch, and a list, which look at the environment only when the command line is silent.\<close>

definition switch_else :: "bool \<Rightarrow> os_env \<Rightarrow> string \<Rightarrow> service_error + bool" where
  "switch_else cli_value env name =
     (if cli_value then Inr True else and_then (svc_bool_env env name) (\<lambda>v. Inr (unwrap_or v False)))"

definition list_else :: "string list \<Rightarrow> os_env \<Rightarrow> string \<Rightarrow> char \<Rightarrow> service_error + string list" where
  "list_else cli_value env name sep =
     (if cli_value \<noteq> [] then Inr cli_value
      else
        and_then (svc_string_env env name) (\<lambda>found.
        Inr (case found of None \<Rightarrow> [] | Some raw \<Rightarrow> trimmed_parts sep raw)))"

definition child_listener ::
  "os_env \<Rightarrow> edge_cli_config \<Rightarrow> socket_addr \<Rightarrow> edge_cli_config \<Rightarrow> service_error + edge_cli_config" where
  "child_listener env cli edge_bind c0 =
     and_then (edge_uses_tls env cli) (\<lambda>uses_tls.
     let c1 = (if uses_tls then c0\<lparr>ec_https_bind := Some edge_bind\<rparr> else c0\<lparr>ec_http_bind := Some edge_bind\<rparr>) in
     and_then (cli_else (ec_max_body_bytes cli) (svc_u64_env env ''OXO_EDGE_MAX_BODY'')) (\<lambda>max_body.
     and_then (cli_else (ec_fqdn cli) (svc_string_env env ''OXO_EDGE_SERVER_NAME'')) (\<lambda>fqdn.
     and_then (cli_else (ec_public_origin_port cli) (svc_u16_env env ''OXO_EDGE_PUBLIC_ORIGIN_PORT'')) (\<lambda>port.
     let c2 = c1\<lparr>ec_max_body_bytes := max_body, ec_fqdn := fqdn, ec_public_origin_port := port\<rparr> in
     if uses_tls then
       and_then (cli_else (ec_tls_h2 cli) (svc_bool_env env ''OXO_EDGE_TLS_H2'')) (\<lambda>h2.
       Inr (c2\<lparr>ec_tls_cert := or_else (ec_tls_cert cli) (svc_optional_path env ''OXO_EDGE_TLS_CERT''),
               ec_tls_key := or_else (ec_tls_key cli) (svc_optional_path env ''OXO_EDGE_TLS_KEY''),
               ec_tls_h2 := h2\<rparr>))
     else Inr c2))))"

definition child_acme :: "os_env \<Rightarrow> edge_cli_config \<Rightarrow> edge_cli_config \<Rightarrow> service_error + edge_cli_config" where
  "child_acme env cli c =
     and_then (switch_else (ec_acme_issue_once cli) env ''OXO_EDGE_ACME_ISSUE_ONCE'') (\<lambda>issue.
     and_then (switch_else (ec_acme_renew_once cli) env ''OXO_EDGE_ACME_RENEW_ONCE'') (\<lambda>renew.
     and_then (cli_else (ec_acme_directory_url cli) (svc_string_env env ''OXO_EDGE_ACME_DIRECTORY_URL'')) (\<lambda>url.
     and_then (list_else (ec_acme_contacts cli) env ''OXO_EDGE_ACME_CONTACTS'' (CHR '','')) (\<lambda>contacts.
     and_then (switch_else (ec_acme_accept_terms cli) env ''OXO_EDGE_ACME_ACCEPT_TERMS'') (\<lambda>terms.
     Inr (c\<lparr>ec_acme_state_path := or_else (ec_acme_state_path cli) (svc_optional_path env ''OXO_EDGE_ACME_STATE_PATH''),
            ec_acme_issue_once := issue, ec_acme_renew_once := renew, ec_acme_directory_url := url,
            ec_acme_contacts := contacts, ec_acme_accept_terms := terms\<rparr>))))))"

definition child_venues :: "os_env \<Rightarrow> edge_cli_config \<Rightarrow> edge_cli_config \<Rightarrow> service_error + edge_cli_config" where
  "child_venues env cli c =
     and_then (cli_else (ec_public_mode cli) (svc_string_env env ''OXO_EDGE_PUBLIC_MODE'')) (\<lambda>mode.
     and_then (cli_else (ec_public_identity cli) (svc_string_env env ''OXO_EDGE_PUBLIC_IDENTITY'')) (\<lambda>identity.
     and_then (cli_else (ec_admin_bind cli) (svc_socket_addr_env env ''OXO_EDGE_ADMIN_BIND'')) (\<lambda>admin.
     and_then (cli_else (ec_action_cable_bind cli) (svc_socket_addr_env env ''OXO_EDGE_ACTION_CABLE_BIND'')) (\<lambda>cable1.
     and_then (cli_else cable1 (svc_socket_addr_env env ''OXO_CABLE_BIND'')) (\<lambda>cable.
     and_then (cli_else (ec_grpc_bind cli) (svc_socket_addr_env env ''OXO_EDGE_GRPC_BIND'')) (\<lambda>grpc1.
     and_then (cli_else grpc1 (svc_socket_addr_env env ''OXO_GRPC_BIND'')) (\<lambda>grpc.
     and_then (cli_else (ec_sse_enabled cli) (svc_bool_env env ''OXO_EDGE_SSE'')) (\<lambda>sse.
     Inr (c\<lparr>ec_public_mode := mode, ec_public_identity := identity, ec_admin_bind := admin,
            ec_action_cable_bind := cable, ec_grpc_bind := grpc, ec_sse_enabled := sse\<rparr>)))))))))"

definition child_serving :: "os_env \<Rightarrow> edge_cli_config \<Rightarrow> edge_cli_config \<Rightarrow> service_error + edge_cli_config" where
  "child_serving env cli c =
     and_then (cli_else (ec_keepalive_enabled cli) (svc_bool_env env ''OXO_EDGE_KEEPALIVE'')) (\<lambda>keepalive.
     and_then (cli_else (ec_max_requests_per_connection cli) (svc_u64_env env ''OXO_EDGE_MAX_REQUESTS_PER_CONNECTION'')) (\<lambda>reqs.
     and_then (cli_else (ec_h2_max_concurrent_streams cli) (svc_u64_env env ''OXO_EDGE_H2_MAX_CONCURRENT_STREAMS'')) (\<lambda>streams.
     and_then (cli_else (ec_h2_max_reset_streams cli) (svc_u64_env env ''OXO_EDGE_H2_MAX_RESET_STREAMS'')) (\<lambda>resets.
     and_then (cli_else (ec_edge_threads cli) (svc_u64_env env ''OXO_EDGE_THREADS'')) (\<lambda>threads.
     and_then (cli_else (ec_listener_tasks cli) (svc_u64_env env ''OXO_EDGE_LISTENER_TASKS'')) (\<lambda>tasks.
     and_then (cli_else (ec_request_log cli) (svc_string_env env ''OXO_EDGE_REQUEST_LOG'')) (\<lambda>log.
     and_then (cli_else (ec_worker_hop cli) (svc_string_env env ''OXO_EDGE_WORKER_HOP'')) (\<lambda>hop.
     and_then (list_else (ec_static_mounts cli) env ''OXO_EDGE_STATIC_MOUNTS'' (CHR '';'')) (\<lambda>mounts.
     and_then (cli_else (ec_static_rails_preset cli) (svc_string_env env ''OXO_EDGE_STATIC_RAILS_PRESET'')) (\<lambda>preset.
     and_then (cli_else (ec_serve_rails cli) (svc_string_env env ''OXO_EDGE_SERVE_RAILS'')) (\<lambda>rails.
     and_then (cli_else (ec_prod_enabled cli) (svc_bool_env env ''OXO_EDGE_PROD'')) (\<lambda>prod_enabled.
     Inr (c\<lparr>ec_keepalive_enabled := keepalive, ec_max_requests_per_connection := reqs,
            ec_h2_max_concurrent_streams := streams, ec_h2_max_reset_streams := resets, ec_edge_threads := threads,
            ec_listener_tasks := tasks, ec_request_log := log, ec_worker_hop := hop, ec_static_mounts := mounts,
            ec_static_rails_preset := preset, ec_serve_rails := rails, ec_prod_enabled := prod_enabled\<rparr>)))))))))))))"

definition child_limits :: "os_env \<Rightarrow> edge_cli_config \<Rightarrow> edge_cli_config \<Rightarrow> service_error + edge_cli_config" where
  "child_limits env cli c =
     and_then (list_else (ec_trusted_proxy_cidrs cli) env ''OXO_EDGE_TRUSTED_PROXY_CIDRS'' (CHR '','')) (\<lambda>cidrs.
     and_then (cli_else (ec_max_in_flight_per_identity cli) (svc_u64_env env ''OXO_EDGE_MAX_IN_FLIGHT_PER_IDENTITY'')) (\<lambda>per_id.
     and_then (cli_else (ec_max_in_flight_requests cli) (svc_u64_env env ''OXO_EDGE_MAX_IN_FLIGHT_REQUESTS'')) (\<lambda>in_flight.
     and_then (cli_else (ec_header_read_timeout_ms cli) (svc_u64_env env ''OXO_EDGE_HEADER_READ_TIMEOUT_MS'')) (\<lambda>header_ms.
     and_then (cli_else (ec_keepalive_idle_timeout_ms cli) (svc_u64_env env ''OXO_EDGE_KEEPALIVE_IDLE_TIMEOUT_MS'')) (\<lambda>idle_ms.
     and_then (cli_else (ec_max_connection_secs cli) (svc_u64_env env ''OXO_EDGE_MAX_CONNECTION_SECS'')) (\<lambda>conn_secs.
     and_then (cli_else (ec_long_lived_max_connections cli) (svc_u64_env env ''OXO_EDGE_LONG_LIVED_MAX_CONNECTIONS'')) (\<lambda>ll_conns.
     and_then (cli_else (ec_long_lived_max_buffered_bytes cli) (svc_u64_env env ''OXO_EDGE_LONG_LIVED_MAX_BUFFERED_BYTES'')) (\<lambda>ll_bytes.
     and_then (cli_else (ec_long_lived_downstream_write_timeout_ms cli)
       (svc_u64_env env ''OXO_EDGE_LONG_LIVED_DOWNSTREAM_WRITE_TIMEOUT_MS'')) (\<lambda>ll_ms.
     Inr (c\<lparr>ec_trusted_proxy_cidrs := cidrs, ec_max_in_flight_per_identity := per_id, ec_max_in_flight_requests := in_flight,
            ec_header_read_timeout_ms := header_ms, ec_keepalive_idle_timeout_ms := idle_ms, ec_max_connection_secs := conn_secs,
            ec_long_lived_max_connections := ll_conns, ec_long_lived_max_buffered_bytes := ll_bytes,
            ec_long_lived_downstream_write_timeout_ms := ll_ms\<rparr>))))))))))"

definition resolve_child_cli ::
  "os_env \<Rightarrow> path list \<Rightarrow> socket_addr \<Rightarrow> edge_cli_config \<Rightarrow> u64 \<Rightarrow> service_error + edge_cli_config" where
  "resolve_child_cli env worker_sockets edge_bind cli edge_drain_grace_ms =
     and_then (child_listener env cli edge_bind
       (default_cli\<lparr>ec_worker_sockets := worker_sockets, ec_drain_grace_ms := Some edge_drain_grace_ms\<rparr>)) (\<lambda>c1.
     and_then (child_acme env cli c1) (\<lambda>c2.
     and_then (child_venues env cli c2) (\<lambda>c3.
     and_then (child_serving env cli c3) (\<lambda>c4.
     and_then (child_limits env cli c4) (\<lambda>c5.
     if ec_public_mode c5 \<noteq> None \<and> ec_trusted_proxy_cidrs c5 \<noteq> [] \<and> ec_public_identity c5 \<noteq> Some ''trusted-proxy''
     then invalid_env ''OXO_EDGE_TRUSTED_PROXY_CIDRS''
       ''trusted-proxy CIDRs are configured but --public-identity is not trusted-proxy; the CIDRs would be silently ignored by the edge''
     else Inr c5)))))"

definition collect_edge_args ::
  "os_env \<Rightarrow> path list \<Rightarrow> socket_addr \<Rightarrow> edge_cli_config \<Rightarrow> u64 \<Rightarrow> service_error + os_string list" where
  "collect_edge_args env worker_sockets edge_bind cli edge_drain_grace_ms =
     and_then (resolve_child_cli env worker_sockets edge_bind cli edge_drain_grace_ms) (\<lambda>c. Inr (to_edge_args c))"

section \<open>The renewal scheduler's settings\<close>

record acme_renew_config =
  ar_interval :: millis
  ar_timeout :: millis
  ar_state_dir :: path
  ar_renew_args :: "os_string list"

text \<open>The file pair the serving edge must load: exactly the one that renewal rotates.\<close>

definition serves_renewed_pair :: "os_env \<Rightarrow> edge_cli_config \<Rightarrow> path \<Rightarrow> bool" where
  "serves_renewed_pair env cli state_dir \<longleftrightarrow>
     (case or_else (ec_tls_cert cli) (svc_optional_path env ''OXO_EDGE_TLS_CERT'') of
        Some p \<Rightarrow> path_eq p (path_join state_dir ''cert.pem'') | None \<Rightarrow> False) \<and>
     (case or_else (ec_tls_key cli) (svc_optional_path env ''OXO_EDGE_TLS_KEY'') of
        Some p \<Rightarrow> path_eq p (path_join state_dir ''key.pem'') | None \<Rightarrow> False)"

definition renew_arguments :: "os_env \<Rightarrow> edge_cli_config \<Rightarrow> path \<Rightarrow> string \<Rightarrow> socket_addr \<Rightarrow> service_error + os_string list" where
  "renew_arguments env cli state_dir fqdn http_bind =
     and_then (cli_else (ec_acme_directory_url cli) (svc_string_env env ''OXO_EDGE_ACME_DIRECTORY_URL'')) (\<lambda>url.
     and_then (list_else (ec_acme_contacts cli) env ''OXO_EDGE_ACME_CONTACTS'' (CHR '','')) (\<lambda>contacts.
     and_then (if ec_acme_allow_production_directory cli then Inr True
               else svc_env_bool env ''OXO_EDGE_ACME_ALLOW_PRODUCTION_DIRECTORY'' False) (\<lambda>production.
     Inr ([''--acme-renew-once'', ''--acme-state-path'', state_dir, ''--fqdn'', fqdn, ''--http-bind'',
           show_socket_addr http_bind, ''--acme-accept-terms''] @
          push_some ''--acme-directory-url'' os_string_of url @ push_each ''--acme-contact'' contacts @
          push_switch ''--acme-allow-production-directory'' production))))"

definition read_acme_renew_config :: "os_env \<Rightarrow> edge_cli_config \<Rightarrow> service_error + acme_renew_config option" where
  "read_acme_renew_config env cli =
     and_then (svc_env_bool env ''OXO_SERVICE_ACME_RENEW'' False) (\<lambda>on.
     if \<not> on then Inr None
     else
       and_then (required_string env ''OXO_SERVICE_ACME_HTTP_BIND'') (\<lambda>raw.
       and_then (ok_or (InvalidEnv ''OXO_SERVICE_ACME_HTTP_BIND'' ''expected a socket address'') (parse_socket_addr raw)) (\<lambda>http_bind.
       and_then (ok_or (MissingEnv ''OXO_EDGE_ACME_STATE_PATH'')
         (or_else (ec_acme_state_path cli) (svc_optional_path env ''OXO_EDGE_ACME_STATE_PATH''))) (\<lambda>state_dir.
       and_then (case ec_fqdn cli of
           Some fqdn \<Rightarrow> Inr fqdn
         | None \<Rightarrow> and_then (svc_string_env env ''OXO_EDGE_SERVER_NAME'') (ok_or (MissingEnv ''OXO_EDGE_SERVER_NAME''))) (\<lambda>fqdn.
       and_then (if ec_acme_accept_terms cli then Inr True
                 else svc_env_bool env ''OXO_EDGE_ACME_ACCEPT_TERMS'' False) (\<lambda>accept_terms.
       if \<not> accept_terms then
         invalid_env ''OXO_EDGE_ACME_ACCEPT_TERMS''
           ''the ACME renewal scheduler requires --acme-accept-terms at service start''
       else if \<not> serves_renewed_pair env cli state_dir then
         invalid_env ''OXO_EDGE_TLS_CERT''
           ''the serving edge must load exactly the rotated paths via --tls-cert/--tls-key''
       else
         and_then (env_duration_ms env ''OXO_SERVICE_ACME_RENEW_INTERVAL_MS'' DEFAULT_ACME_RENEW_INTERVAL) (\<lambda>interval.
         and_then (env_duration_ms env ''OXO_SERVICE_ACME_RENEW_TIMEOUT_MS'' DEFAULT_ACME_RENEW_TIMEOUT) (\<lambda>timeout.
         and_then (renew_arguments env cli state_dir fqdn http_bind) (\<lambda>args.
         Inr (Some \<lparr>ar_interval = interval, ar_timeout = timeout, ar_state_dir = state_dir, ar_renew_args = args\<rparr>))))))))))"

section \<open>The service configuration\<close>

record service_config =
  sf_worker_bin :: "path option"
  sf_worker_launch :: worker_launch
  sf_worker_ready_timeout :: millis
  sf_worker_respawn_ready_timeout :: millis
  sf_worker_drain_wait :: millis
  sf_edge_bin :: path
  sf_worker_socket :: path
  sf_worker_sockets :: "path list"
  sf_worker_count :: usize
  sf_edge_bind :: socket_addr
  sf_check_config :: bool
  sf_cable_bin :: "path option"
  sf_cable_bind :: "socket_addr option"
  sf_grpc_bin :: "path option"
  sf_grpc_bind :: "socket_addr option"
  sf_drain_grace :: millis
  sf_edge_drain_grace :: millis
  sf_worker_env :: child_env
  sf_edge_env :: child_env
  sf_edge_args :: "os_string list"
  sf_cable_env :: child_env
  sf_grpc_env :: child_env
  sf_acme_renew :: "acme_renew_config option"

text \<open>The block that resolves Action Cable and the one that resolves gRPC are the same but for the names.\<close>

definition resolve_sidecar ::
  "service_env \<Rightarrow> bool \<Rightarrow> string \<Rightarrow> string \<Rightarrow> string \<Rightarrow> string \<Rightarrow> string \<Rightarrow> string
     \<Rightarrow> (os_env \<Rightarrow> socket_addr \<Rightarrow> service_error + child_env)
     \<Rightarrow> service_error + (path option \<times> socket_addr option \<times> child_env)" where
  "resolve_sidecar se allow enabled_name bind_name public_message bin_name sibling role collect =
     and_then (svc_env_bool (se_env se) enabled_name False) (\<lambda>enabled.
     if \<not> enabled then Inr (None, None, [])
     else
       and_then (required_string (se_env se) bind_name) (\<lambda>raw.
       and_then (ok_or (InvalidEnv bind_name ''expected loopback socket address'') (parse_socket_addr raw)) (\<lambda>bind.
       if \<not> is_loopback (sock_ip bind) then invalid_env bind_name public_message
       else
         and_then (configured_binary se bin_name sibling allow role) (\<lambda>bin.
         and_then (collect (se_env se) bind) (\<lambda>envs. Inr (Some bin, Some bind, envs))))))"

definition resolve_cable :: "service_env \<Rightarrow> bool \<Rightarrow> service_error + (path option \<times> socket_addr option \<times> child_env)" where
  "resolve_cable se allow =
     resolve_sidecar se allow ''OXO_CABLE_ENABLED'' ''OXO_CABLE_BIND''
       ''standalone Action Cable bind must be loopback-only'' ''OXO_CABLE_BIN'' ''oxo-cable'' ''cable'' collect_cable_env"

definition resolve_grpc :: "service_env \<Rightarrow> bool \<Rightarrow> service_error + (path option \<times> socket_addr option \<times> child_env)" where
  "resolve_grpc se allow =
     resolve_sidecar se allow ''OXO_GRPC_ENABLED'' ''OXO_GRPC_BIND''
       ''standalone gRPC bind must be loopback-only'' ''OXO_GRPC_BIN'' ''oxo-grpc'' ''grpc'' collect_grpc_env"

definition resolve_worker_bin :: "service_env \<Rightarrow> bool \<Rightarrow> worker_launch \<Rightarrow> service_error + path option" where
  "resolve_worker_bin se allow launch =
     (case launch of
        LaunchClassic \<Rightarrow> and_then (configured_binary se ''OXO_WORKER_BIN'' ''oxo-worker'' allow ''worker'') (\<lambda>p. Inr (Some p))
      | LaunchAsync _ _ _ _ \<Rightarrow> Inr None)"

definition resolve_worker_env :: "service_env \<Rightarrow> worker_launch \<Rightarrow> path \<Rightarrow> service_error + child_env" where
  "resolve_worker_env se launch worker_socket =
     (case launch of
        LaunchClassic \<Rightarrow> collect_worker_env (se_env se) worker_socket
      | LaunchAsync _ _ _ app_root \<Rightarrow> collect_async_worker_env se worker_socket app_root)"

text \<open>The renewal gate: a binary without the feature rejects it, it is never ignored.\<close>

definition resolve_acme_renew :: "service_env \<Rightarrow> edge_cli_config \<Rightarrow> service_error + acme_renew_config option" where
  "resolve_acme_renew se cli =
     (if se_acme_built se then read_acme_renew_config (se_env se) cli
      else
        and_then (svc_env_bool (se_env se) ''OXO_SERVICE_ACME_RENEW'' False) (\<lambda>on.
        if on then
          invalid_env ''OXO_SERVICE_ACME_RENEW'' ''this oxo-pingora-service binary was built without the acme feature''
        else Inr None))"

definition service_from_cli :: "service_env \<Rightarrow> edge_cli_config \<Rightarrow> service_error + (service_config \<times> dir_effect)" where
  "service_from_cli se cli =
     (let env = se_env se in
      and_then (svc_env_bool env ''OXO_SERVICE_ALLOW_BIN_OVERRIDES'' False) (\<lambda>allow.
      and_then (read_worker_launch se) (\<lambda>launch.
      and_then (resolve_worker_bin se allow launch) (\<lambda>worker_bin.
      and_then (configured_binary se ''OXO_EDGE_BIN'' ''oxo-pingora-edge'' allow ''edge'') (\<lambda>edge_bin.
      and_then (required_path env ''OXO_WORKER_SOCKET'') (\<lambda>worker_socket.
      and_then (ensure_runtime_dir se worker_socket (ec_check_config cli)) (\<lambda>dir.
      and_then (read_worker_ready_timeout env launch) (\<lambda>ready_timeout.
      and_then (read_worker_respawn_ready_timeout env launch) (\<lambda>respawn_timeout.
      and_then (read_worker_drain_wait env launch) (\<lambda>drain_wait.
      and_then (validate_frame_pool_idle_env env) (\<lambda>_.
      and_then (validate_edge_pool_env env) (\<lambda>_.
      and_then (svc_env_usize env ''OXO_WORKER_COUNT'' 1) (\<lambda>worker_count.
      if worker_count = 0 then invalid_env ''OXO_WORKER_COUNT'' ''must be >= 1''
      else
        and_then (worker_socket_paths worker_socket worker_count) (\<lambda>worker_sockets.
        and_then (resolve_edge_bind env cli) (\<lambda>edge_bind.
        and_then (resolve_cable se allow) (\<lambda>(cable_bin, cable_bind, cable_env).
        and_then (resolve_grpc se allow) (\<lambda>(grpc_bin, grpc_bind, grpc_env).
        and_then (resolve_worker_env se launch worker_socket) (\<lambda>worker_env.
        and_then (env_duration_ms env ''OXO_SERVICE_DRAIN_GRACE_MS'' DEFAULT_DRAIN_GRACE) (\<lambda>drain_grace.
        and_then (resolve_edge_drain_grace env cli) (\<lambda>(edge_grace_ms, edge_grace).
        and_then (validate_drain_grace_hierarchy drain_grace edge_grace drain_wait) (\<lambda>_.
        and_then (collect_edge_args env worker_sockets edge_bind cli edge_grace_ms) (\<lambda>edge_args.
        and_then (resolve_acme_renew se cli) (\<lambda>acme_renew.
        Inr (\<lparr>sf_worker_bin = worker_bin, sf_worker_launch = launch, sf_worker_ready_timeout = ready_timeout,
          sf_worker_respawn_ready_timeout = respawn_timeout, sf_worker_drain_wait = drain_wait, sf_edge_bin = edge_bin,
          sf_worker_socket = worker_socket, sf_worker_sockets = worker_sockets, sf_worker_count = worker_count,
          sf_edge_bind = edge_bind, sf_check_config = ec_check_config cli, sf_cable_bin = cable_bin,
          sf_cable_bind = cable_bind, sf_grpc_bin = grpc_bin, sf_grpc_bind = grpc_bind, sf_drain_grace = drain_grace,
          sf_edge_drain_grace = edge_grace, sf_worker_env = worker_env, sf_edge_env = collect_edge_env env launch,
          sf_edge_args = edge_args, sf_cable_env = cable_env, sf_grpc_env = grpc_env, sf_acme_renew = acme_renew\<rparr>, dir))))))))))))))))))))))))"

definition service_from_args :: "service_env \<Rightarrow> os_string list \<Rightarrow> service_error + (service_config \<times> dir_effect)" where
  "service_from_args se args =
     and_then (map_err (\<lambda>_. InvalidEnv ''argv'' ''invalid arguments'') (parse_from_args args)) (service_from_cli se)"

definition service_from_env :: "service_env \<Rightarrow> service_error + (service_config \<times> dir_effect)" where
  "service_from_env se = service_from_cli se default_cli"

section \<open>What a successful start has resolved\<close>

lemma guard_InrE: "(if b then invalid_env name message else m) = Inr r \<Longrightarrow> (\<not> b \<Longrightarrow> m = Inr r \<Longrightarrow> P) \<Longrightarrow> P"
  by (auto simp: invalid_env_def split: if_splits)

lemma case_prod_InrE:
  "(case p of (a, b) \<Rightarrow> f a b) = Inr r \<Longrightarrow> (\<And>a b. p = (a, b) \<Longrightarrow> f a b = Inr r \<Longrightarrow> P) \<Longrightarrow> P"
  by (cases p) simp

lemma service_from_cli_parts:
  assumes "service_from_cli se cli = Inr (conf, dir)"
  shows "(resolve_worker_env se (sf_worker_launch conf) (sf_worker_socket conf) = Inr (sf_worker_env conf)) \<and>
     (\<exists>allow bin bind. resolve_cable se allow = Inr (bin, bind, sf_cable_env conf) \<and> sf_cable_bind conf = bind) \<and>
     (\<exists>allow bin bind. resolve_grpc se allow = Inr (bin, bind, sf_grpc_env conf) \<and> sf_grpc_bind conf = bind) \<and>
     (sf_edge_env conf = collect_edge_env (se_env se) (sf_worker_launch conf)) \<and>
     (\<exists>n. resolve_edge_drain_grace (se_env se) cli = Inr (n, sf_edge_drain_grace conf) \<and>
           collect_edge_args (se_env se) (sf_worker_sockets conf) (sf_edge_bind conf) cli n = Inr (sf_edge_args conf)) \<and>
     (validate_drain_grace_hierarchy (sf_drain_grace conf) (sf_edge_drain_grace conf) (sf_worker_drain_wait conf) = Inr ()) \<and>
     (worker_socket_paths (sf_worker_socket conf) (sf_worker_count conf) = Inr (sf_worker_sockets conf)) \<and>
     (sf_worker_count conf \<noteq> 0) \<and>
     (ensure_runtime_dir se (sf_worker_socket conf) (ec_check_config cli) = Inr dir) \<and>
     (read_worker_drain_wait (se_env se) (sf_worker_launch conf) = Inr (sf_worker_drain_wait conf)) \<and>
     (resolve_acme_renew se cli = Inr (sf_acme_renew conf)) \<and>
     (resolve_edge_bind (se_env se) cli = Inr (sf_edge_bind conf)) \<and>
     (env_duration_ms (se_env se) ''OXO_SERVICE_DRAIN_GRACE_MS'' DEFAULT_DRAIN_GRACE = Inr (sf_drain_grace conf))"
  using assms unfolding service_from_cli_def Let_def
  by (elim and_then_InrE guard_InrE case_prod_InrE) (clarsimp, blast)

lemmas service_from_cli_facts =
  service_from_cli_parts [THEN conjunct1]
  service_from_cli_parts [THEN conjunct2, THEN conjunct1]
  service_from_cli_parts [THEN conjunct2, THEN conjunct2, THEN conjunct1]
  service_from_cli_parts [THEN conjunct2, THEN conjunct2, THEN conjunct2, THEN conjunct1]
  service_from_cli_parts [THEN conjunct2, THEN conjunct2, THEN conjunct2, THEN conjunct2, THEN conjunct1]
  service_from_cli_parts [THEN conjunct2, THEN conjunct2, THEN conjunct2, THEN conjunct2, THEN conjunct2, THEN conjunct1]
  service_from_cli_parts [THEN conjunct2, THEN conjunct2, THEN conjunct2, THEN conjunct2, THEN conjunct2, THEN conjunct2, THEN conjunct1]
  service_from_cli_parts [THEN conjunct2, THEN conjunct2, THEN conjunct2, THEN conjunct2, THEN conjunct2, THEN conjunct2, THEN conjunct2, THEN conjunct1]
  service_from_cli_parts [THEN conjunct2, THEN conjunct2, THEN conjunct2, THEN conjunct2, THEN conjunct2, THEN conjunct2, THEN conjunct2, THEN conjunct2, THEN conjunct1]
  service_from_cli_parts [THEN conjunct2, THEN conjunct2, THEN conjunct2, THEN conjunct2, THEN conjunct2, THEN conjunct2, THEN conjunct2, THEN conjunct2, THEN conjunct2, THEN conjunct1]
  service_from_cli_parts [THEN conjunct2, THEN conjunct2, THEN conjunct2, THEN conjunct2, THEN conjunct2, THEN conjunct2, THEN conjunct2, THEN conjunct2, THEN conjunct2, THEN conjunct2, THEN conjunct1]
  service_from_cli_parts [THEN conjunct2, THEN conjunct2, THEN conjunct2, THEN conjunct2, THEN conjunct2, THEN conjunct2, THEN conjunct2, THEN conjunct2, THEN conjunct2, THEN conjunct2, THEN conjunct2, THEN conjunct1]
  service_from_cli_parts [THEN conjunct2, THEN conjunct2, THEN conjunct2, THEN conjunct2, THEN conjunct2, THEN conjunct2, THEN conjunct2, THEN conjunct2, THEN conjunct2, THEN conjunct2, THEN conjunct2, THEN conjunct2]

section \<open>Children's environments\<close>

lemma pushed_names:
  "(n, v) \<in> set (push_optional_env env name) \<Longrightarrow> n = name \<and> env n = Some v"
  "(n, v) \<in> set (push_optional_envs env names) \<Longrightarrow> n \<in> set names \<and> env n = Some v"
  by (auto simp: push_optional_env_def push_optional_envs_def svc_optional_path_def split: option.splits Option.bind_splits if_splits)

lemma pushed_required:
  "push_required_env env name = Inr envs \<Longrightarrow> (n, v) \<in> set envs \<Longrightarrow> n = name \<and> env n = Some v"
  by (auto simp: push_required_env_def svc_optional_path_def split: option.splits Option.bind_splits if_splits)

lemma svc_string_env_Some:
  "svc_string_env env name = Inr (Some v) \<longleftrightarrow> env name = Some v \<and> rust_str v \<and> trim v \<noteq> []"
  by (cases "env name") (auto simp: svc_string_env_def env_var_def invalid_env_def)

lemma pushed_string:
  "push_string_env env name = Inr envs \<Longrightarrow> (n, v) \<in> set envs \<Longrightarrow> n = name \<and> env n = Some v"
  by (auto simp: push_string_env_def push_env_value_def and_then_eq_Inr svc_string_env_Some split: option.splits)

lemma allowed_names:
  "allowed_envs env allow names = Inr envs \<Longrightarrow> (n, v) \<in> set envs \<Longrightarrow> \<not> is_edge_only_env_name n \<and> env n = Some v"
proof (induction names arbitrary: envs)
  case (Cons name names)
  then show ?case
    by (auto simp: invalid_env_def and_then_eq_Inr dest!: pushed_names split: if_splits)
qed simp

lemma applied_allowlist:
  assumes "apply_env_allowlist env allow envs = Inr all" and "(n, v) \<in> set all"
  shows "(n, v) \<in> set envs \<or> (\<not> is_edge_only_env_name n \<and> env n = Some v)"
  using assms allowed_names by (auto simp: apply_env_allowlist_def and_then_eq_Inr split: sum.splits)

text \<open>
  Where an entry of a child's environment comes from: the service's own environment under the
  same name, or one of the values the service sets itself; and never under an edge-only name.
\<close>

definition child_entry_ok :: "os_env \<Rightarrow> string list \<Rightarrow> os_string \<times> os_string \<Rightarrow> bool" where
  "child_entry_ok env own entry \<longleftrightarrow>
     \<not> is_edge_only_env_name (fst entry) \<and> (fst entry \<in> set own \<or> env (fst entry) = Some (snd entry))"

lemma collected_ok:
  assumes "apply_env_allowlist env allow envs = Inr all" and "list_all (child_entry_ok env own) envs"
  shows "list_all (child_entry_ok env own) all"
  using assms applied_allowlist [OF assms(1)] by (fastforce simp: list_all_iff child_entry_ok_def)

lemma pushed_ok:
  "list_all (\<lambda>n. \<not> is_edge_only_env_name n) names \<Longrightarrow> list_all (child_entry_ok env own) (push_optional_envs env names)"
  "push_required_env env name = Inr envs \<Longrightarrow> \<not> is_edge_only_env_name name \<Longrightarrow> list_all (child_entry_ok env own) envs"
  "push_string_env env name = Inr envs \<Longrightarrow> \<not> is_edge_only_env_name name \<Longrightarrow> list_all (child_entry_ok env own) envs"
  "name \<in> set own \<Longrightarrow> \<not> is_edge_only_env_name name \<Longrightarrow> list_all (child_entry_ok env own) (push_env_value name v)"
  by (auto simp: list_all_iff child_entry_ok_def push_env_value_def dest!: pushed_names pushed_required pushed_string)

lemma passthrough_names:
  "list_all (\<lambda>n. \<not> is_edge_only_env_name n) default_worker_passthrough_env"
  "list_all (\<lambda>n. \<not> is_edge_only_env_name n) default_cable_passthrough_env"
  "list_all (\<lambda>n. \<not> is_edge_only_env_name n) default_grpc_passthrough_env"
  "list_all (\<lambda>n. \<not> is_edge_only_env_name n) async_db_envs"
  by (simp_all add: default_worker_passthrough_env_def default_cable_passthrough_env_def default_grpc_passthrough_env_def
      async_db_envs_def is_edge_only_env_name_def edge_only_env_names_def)

definition service_set_names :: "string list" where
  "service_set_names = [''OXO_WORKER_SOCKET'', ''OXO_ASYNC'', ''BUNDLE_GEMFILE'', ''OXO_CABLE_BIND'', ''OXO_GRPC_BIND'']"

lemma named_names:
  "list_all (\<lambda>n. \<not> is_edge_only_env_name n)
     ([''OXO_WORKER_APP'', ''OXO_WORKER_THREADS'', ''OXO_WORKER_MAX_BODY'', ''OXO_WORKER_RACK_LINT'', ''OXO_WORKER_STREAMING'',
       ''OXO_WORKER_TIMING_DIR'', ''OXO_WORKER_ORDER_DIR'', ''OXO_WORKER_TAIL_NS'', ''OXO_WORKER_SCHED_SAMPLE_N'',
       ''OXO_WORKER_FAIR_READ'', ''OXO_WORKER_SCHED'', ''OXO_WORKER_DRAIN_DEADLINE_MS'', ''OXO_CABLE_APP'', ''OXO_CABLE_RACKUP'',
       ''OXO_CABLE_ALLOWED_ORIGINS'', ''OXO_CABLE_MAX_CONNECTIONS'', ''OXO_CABLE_IDLE_TIMEOUT_MS'', ''OXO_GRPC_APP'',
       ''OXO_GRPC_CONFIG'', ''OXO_GRPC_MAX_MESSAGE_BYTES'', ''OXO_GRPC_DEADLINE_MS''] @ service_set_names)"
  by (simp add: is_edge_only_env_name_def edge_only_env_names_def service_set_names_def)

lemmas named_names_each = named_names [unfolded service_set_names_def, simplified]

lemma worker_env_ok:
  assumes "resolve_worker_env se launch socket = Inr envs"
  shows "list_all (child_entry_ok (se_env se) service_set_names) envs"
proof (cases launch)
  case LaunchClassic
  with assms obtain app where "push_required_env (se_env se) ''OXO_WORKER_APP'' = Inr app"
    and all: "apply_env_allowlist (se_env se) ''OXO_APP_ENV_ALLOW''
       (app @ push_env_value ''OXO_WORKER_SOCKET'' socket @
        push_optional_envs (se_env se)
          [''OXO_WORKER_THREADS'', ''OXO_WORKER_MAX_BODY'', ''OXO_WORKER_RACK_LINT'', ''OXO_WORKER_STREAMING''] @
        push_optional_envs (se_env se) default_worker_passthrough_env) = Inr envs"
    by (auto simp: resolve_worker_env_def collect_worker_env_def and_then_eq_Inr)
  from all show ?thesis
    by (rule collected_ok)
      (simp add: pushed_ok passthrough_names named_names_each service_set_names_def
        pushed_ok(2) [OF \<open>push_required_env _ _ = Inr app\<close>])
next
  case (LaunchAsync bundle_bin ruby_bin script app_root)
  with assms have "collect_async_worker_env se socket app_root = Inr envs" by (simp add: resolve_worker_env_def)
  then show ?thesis
    unfolding collect_async_worker_env_def Let_def
    by (elim and_then_InrE guard_InrE)
      (erule collected_ok, simp add: pushed_ok(1,4) passthrough_names named_names_each service_set_names_def,
        intro conjI; (erule pushed_ok(2) pushed_ok(3), simp add: named_names_each))
qed

lemma sidecar_env_ok:
  "collect_cable_env env bind = Inr envs \<Longrightarrow> list_all (child_entry_ok env service_set_names) envs"
  "collect_grpc_env env bind = Inr envs \<Longrightarrow> list_all (child_entry_ok env service_set_names) envs"
  unfolding collect_cable_env_def collect_grpc_env_def
  by (erule collected_ok, simp add: pushed_ok passthrough_names named_names_each service_set_names_def)+

lemma resolved_sidecar:
  assumes "resolve_sidecar se allow e b m bn s r collect = Inr (bin, bind, envs)"
  shows "case bind of None \<Rightarrow> bin = None \<and> envs = [] | Some a \<Rightarrow> is_loopback (sock_ip a) \<and> collect (se_env se) a = Inr envs \<and> bin \<noteq> None"
  using assms by (auto simp: resolve_sidecar_def and_then_eq_Inr invalid_env_def split: if_splits)

lemma service_sidecars:
  assumes "service_from_cli se cli = Inr (conf, dir)"
  shows "list_all (child_entry_ok (se_env se) service_set_names) (sf_cable_env conf)"
    and "list_all (child_entry_ok (se_env se) service_set_names) (sf_grpc_env conf)"
    and "pred_option (\<lambda>a. is_loopback (sock_ip a)) (sf_cable_bind conf)"
    and "pred_option (\<lambda>a. is_loopback (sock_ip a)) (sf_grpc_bind conf)"
  using service_from_cli_facts(2,3) [OF assms]
  by (auto simp: resolve_cable_def resolve_grpc_def dest!: resolved_sidecar split: option.splits intro: sidecar_env_ok)

definition edge_child_names :: "string list" where
  "edge_child_names =
     [''OXO_WORKER_DISPATCH'', ''OXO_EDGE_WORKER_CAP'', ''OXO_HOP_REAPER'', ''OXO_EDGE_FRAME_POOL_IDLE'', ''OXO_WORKER_KIND'']"

lemma edge_env_names: "(n, v) \<in> set (collect_edge_env env launch) \<Longrightarrow> n \<in> set edge_child_names"
  by (auto simp: collect_edge_env_def push_var_def edge_child_names_def split: sum.splits if_splits)

lemma edge_names_plain: "n \<in> set edge_child_names \<Longrightarrow> \<not> is_sensitive_env_name n"
proof -
  have "list_all (\<lambda>n. \<not> is_sensitive_env_name n) edge_child_names" by code_simp
  then show "n \<in> set edge_child_names \<Longrightarrow> \<not> is_sensitive_env_name n" by (simp add: list_all_iff)
qed

end
