(* ===== verification/Service_World.thy ===== *)
theory Service_World
  imports Service_Config
begin

text \<open>
  The processes the service supervises, and the operations on one child of
  \<open>crates/oxo-pingora-edge/src/service.rs\<close>: spawning, \<open>try_wait\<close>, signalling its process group, waiting
  until a deadline, \<open>terminate_child\<close>, and the waits for readiness. The operating system is the record
  \<open>world\<close>: a clock in milliseconds, the number of shutdown signals delivered by each moment, the
  process table, and what the environment answers (does a spawn succeed and how does that process
  live and react to SIGTERM, does a connect succeed and how long does it take, does \<open>waitpid\<close> fail).
  Only sleeping, a connect and a receive with a timeout let time pass. A process group is its
  leader, which is the child itself. SIGKILL always works; \<open>wait\<close> is called on killed children only.
\<close>

section \<open>Processes\<close>

type_synonym pid = nat

datatype read_outcome = ReadLine string | ReadEof | ReadError string

text \<open>How a process lives: when it exits by itself, how long after a SIGTERM, what its pipes carry.\<close>

record proc =
  pr_exit_at :: "nat option"
  pr_term_delay :: "nat option"
  pr_status :: int
  pr_stdout :: bool
  pr_stderr :: bool
  pr_reads :: "(nat \<times> read_outcome) list"
  pr_term_at :: "nat option"
  pr_killed :: bool

record command =
  cmd_program :: path
  cmd_args :: "os_string list"
  cmd_cwd :: "path option"
  cmd_env :: child_env

datatype termination_signal = Term | Kill

datatype event = Launched pid command | Signalled pid termination_signal nat | Notified string | MarkerConsumed nat

record world =
  w_now :: nat
  w_signals :: "nat \<Rightarrow> nat"
  w_spawn :: "nat \<Rightarrow> nat \<Rightarrow> string + proc"
  w_connect :: "socket_addr \<Rightarrow> nat \<Rightarrow> bool \<times> nat"
  w_probe :: "path \<Rightarrow> nat \<Rightarrow> string + unit"
  w_files :: "nat \<Rightarrow> file_system"
  w_wait_error :: "pid \<Rightarrow> nat \<Rightarrow> string option"
  w_marker :: "nat \<Rightarrow> string + u64 option"
  w_consume :: "nat \<Rightarrow> string + unit"
  w_rollback :: "nat \<Rightarrow> string + unit"
  w_epoch :: "nat \<Rightarrow> u64"
  w_ca_env :: child_env
  w_count :: pid
  w_procs :: "pid \<Rightarrow> proc option"
  w_trace :: "event list"

fun due :: "nat option \<Rightarrow> nat \<Rightarrow> bool" where
  "due None now = False"
| "due (Some t) now = (t \<le> now)"

definition term_due :: "proc \<Rightarrow> nat option" where
  "term_due pr = (case (pr_term_at pr, pr_term_delay pr) of (Some t, Some d) \<Rightarrow> Some (t + d) | _ \<Rightarrow> None)"

definition proc_dead :: "nat \<Rightarrow> proc \<Rightarrow> bool" where
  "proc_dead now pr \<longleftrightarrow> pr_killed pr \<or> due (pr_exit_at pr) now \<or> due (term_due pr) now"

definition alive :: "world \<Rightarrow> pid \<Rightarrow> bool" where
  "alive w pid = (case w_procs w pid of Some pr \<Rightarrow> \<not> proc_dead (w_now w) pr | None \<Rightarrow> False)"

definition shutdown_requested :: "world \<Rightarrow> bool" where
  "shutdown_requested w \<longleftrightarrow> 0 < w_signals w (w_now w)"

definition sleep :: "nat \<Rightarrow> world \<Rightarrow> world" where
  "sleep ms w = w\<lparr>w_now := w_now w + ms\<rparr>"

definition log :: "event \<Rightarrow> world \<Rightarrow> world" where
  "log e w = w\<lparr>w_trace := w_trace w @ [e]\<rparr>"

definition notify_systemd :: "string \<Rightarrow> world \<Rightarrow> world" where
  "notify_systemd message w = log (Notified message) w"

definition spawn_command :: "string \<Rightarrow> command \<Rightarrow> world \<Rightarrow> (service_error + pid) \<times> world" where
  "spawn_command role cmd w =
     (let pid = w_count w; w1 = w\<lparr>w_count := Suc pid\<rparr> in
      case w_spawn w pid (w_now w) of
        Inl message \<Rightarrow> (Inl (Spawn role (cmd_program cmd) message), w1)
      | Inr pr \<Rightarrow>
          (Inr pid, log (Launched pid cmd)
             (w1\<lparr>w_procs := (w_procs w)(pid \<mapsto> pr\<lparr>pr_term_at := None, pr_killed := False\<rparr>)\<rparr>)))"

definition try_wait :: "world \<Rightarrow> pid \<Rightarrow> string + int option" where
  "try_wait w pid =
     (case w_wait_error w pid (w_now w) of
        Some err \<Rightarrow> Inl err
      | None \<Rightarrow>
          Inr (if alive w pid then None
               else Some (case w_procs w pid of Some pr \<Rightarrow> pr_status pr | None \<Rightarrow> 0)))"

definition has_exited :: "world \<Rightarrow> pid \<Rightarrow> bool" where
  "has_exited w pid = (case try_wait w pid of Inr (Some _) \<Rightarrow> True | _ \<Rightarrow> False)"

fun receive_signal :: "nat \<Rightarrow> termination_signal \<Rightarrow> proc \<Rightarrow> proc" where
  "receive_signal now Term pr = (case pr_term_at pr of None \<Rightarrow> pr\<lparr>pr_term_at := Some now\<rparr> | Some _ \<Rightarrow> pr)"
| "receive_signal now Kill pr = pr\<lparr>pr_killed := True\<rparr>"

definition terminate_process_group :: "termination_signal \<Rightarrow> pid \<Rightarrow> world \<Rightarrow> world" where
  "terminate_process_group sig pid w =
     log (Signalled pid sig (w_now w))
       (case w_procs w pid of
          Some pr \<Rightarrow> if proc_dead (w_now w) pr then w else w\<lparr>w_procs := (w_procs w)(pid \<mapsto> receive_signal (w_now w) sig pr)\<rparr>
        | None \<Rightarrow> w)"

section \<open>Waiting for a child and ending it\<close>

lemma sleep_fields [simp]:
  "w_now (sleep ms w) = w_now w + ms" "w_signals (sleep ms w) = w_signals w" "w_procs (sleep ms w) = w_procs w"
  "w_count (sleep ms w) = w_count w" "w_wait_error (sleep ms w) = w_wait_error w" "w_trace (sleep ms w) = w_trace w"
  by (simp_all add: sleep_def)

function wait_child_until_deadline :: "pid \<Rightarrow> nat \<Rightarrow> world \<Rightarrow> bool \<times> world" where
  "wait_child_until_deadline pid deadline w =
     (case try_wait w pid of
        Inr (Some _) \<Rightarrow> (True, w)
      | Inr None \<Rightarrow>
          if 1 < w_signals w (w_now w) then (False, w)
          else if w_now w < deadline then wait_child_until_deadline pid deadline (sleep 20 w)
          else (False, w)
      | Inl _ \<Rightarrow> (False, w))"
  by pat_completeness auto
termination
  by (relation "measure (\<lambda>(pid, deadline, w). deadline - w_now w)") auto

declare wait_child_until_deadline.simps [simp del]

definition wait_child_until :: "pid \<Rightarrow> nat \<Rightarrow> world \<Rightarrow> bool \<times> world" where
  "wait_child_until pid timeout w = wait_child_until_deadline pid (w_now w + timeout) w"

text \<open>KILL to the group, \<open>kill\<close> and \<open>wait\<close> of the child.\<close>

definition kill_and_wait :: "pid \<Rightarrow> world \<Rightarrow> world" where
  "kill_and_wait pid w = terminate_process_group Kill pid w"

definition terminate_child :: "pid \<Rightarrow> world \<Rightarrow> world" where
  "terminate_child pid w =
     (let w1 =
        (if has_exited w pid then w
         else
           (let (gone, w2) = wait_child_until pid CHILD_TERM_TIMEOUT (terminate_process_group Term pid w) in
            if gone then w2 else kill_and_wait pid w2))
      in terminate_process_group Kill pid w1)"

definition request_child_term :: "pid \<Rightarrow> world \<Rightarrow> world" where
  "request_child_term pid w = (if has_exited w pid then w else terminate_process_group Term pid w)"

definition force_child_shutdown :: "pid \<Rightarrow> world \<Rightarrow> world" where
  "force_child_shutdown pid w = (if has_exited w pid then w else kill_and_wait pid w)"

definition terminate_all :: "pid list \<Rightarrow> world \<Rightarrow> world" where
  "terminate_all pids w = fold terminate_child pids w"

definition MONITOR_INTERVAL :: nat where "MONITOR_INTERVAL = 100"

function sleep_until_or_shutdown :: "nat \<Rightarrow> world \<Rightarrow> bool \<times> world" where
  "sleep_until_or_shutdown deadline w =
     (if shutdown_requested w then (False, w)
      else if deadline \<le> w_now w then (True, w)
      else sleep_until_or_shutdown deadline (sleep (min (deadline - w_now w) MONITOR_INTERVAL) w))"
  by pat_completeness auto
termination
  by (relation "measure (\<lambda>(deadline, w). deadline - w_now w)") (auto simp: MONITOR_INTERVAL_def)

declare sleep_until_or_shutdown.simps [simp del]

definition sleep_unless_shutdown :: "nat \<Rightarrow> world \<Rightarrow> bool \<times> world" where
  "sleep_unless_shutdown dur w = sleep_until_or_shutdown (w_now w + dur) w"

section \<open>Readiness of a worker\<close>

definition WORKER_READY_PREFIX :: string where "WORKER_READY_PREFIX = ''OXO_WORKER_READY=''"
definition MAX_PRE_READY_OUTPUT_BYTES :: nat where "MAX_PRE_READY_OUTPUT_BYTES = 64 * 1024"
definition pre_ready_cap_message :: string where "pre_ready_cap_message = ''pre-ready output exceeded cap''"

datatype ready_msg = ReadyLine string | ReadyEof | ReadyErr string

text \<open>
  The reader thread of \<open>attach_worker_readiness\<close>: the message it sends and when, from what it reads off
  the child's stdout. It ends only after a send, so the receiver never sees a closed channel.
\<close>

fun reader_thread :: "nat \<Rightarrow> (nat \<times> read_outcome) list \<Rightarrow> (nat \<times> ready_msg) option" where
  "reader_thread seen [] = None"
| "reader_thread seen ((t, ReadEof) # r) = Some (t, ReadyEof)"
| "reader_thread seen ((t, ReadLine line) # r) =
     (if starts_with line WORKER_READY_PREFIX then Some (t, ReadyLine line)
      else if MAX_PRE_READY_OUTPUT_BYTES < seen + length line then Some (t, ReadyErr pre_ready_cap_message)
      else reader_thread (seen + length line) r)"
| "reader_thread seen ((t, ReadError source) # r) = Some (t, ReadyErr source)"

type_synonym pending_ready = "(nat \<times> ready_msg) option"

definition attach_worker_readiness :: "pid \<Rightarrow> world \<Rightarrow> service_error + pending_ready" where
  "attach_worker_readiness pid w =
     (case w_procs w pid of
        None \<Rightarrow> Inl MissingWorkerStdout
      | Some pr \<Rightarrow>
          if \<not> pr_stdout pr then Inl MissingWorkerStdout
          else if \<not> pr_stderr pr then Inl MissingWorkerStderr
          else Inr (reader_thread 0 (pr_reads pr)))"

definition recv_timeout :: "nat \<Rightarrow> pending_ready \<Rightarrow> world \<Rightarrow> ready_msg option \<times> world" where
  "recv_timeout ms pending w =
     (case pending of
        Some (t, m) \<Rightarrow> if t \<le> w_now w + ms then (Some m, sleep (t - w_now w) w) else (None, sleep ms w)
      | None \<Rightarrow> (None, sleep ms w))"

datatype svc_slot_state = SvcBooting | SvcReady | SvcDraining | SvcStopped | SvcFailed

record svc_slot =
  sl_id :: u32
  sl_generation :: u64
  sl_socket :: path
  sl_state :: svc_slot_state
  sl_draining :: bool

definition ready_slot :: "u32 \<Rightarrow> u64 \<Rightarrow> path \<Rightarrow> svc_slot" where
  "ready_slot wid generation socket =
     \<lparr>sl_id = wid, sl_generation = generation, sl_socket = socket, sl_state = SvcReady, sl_draining = False\<rparr>"

definition trim_line_end :: "string \<Rightarrow> string" where
  "trim_line_end s = rev (dropWhile (\<lambda>c. c = CHR 0x0D \<or> c = CHR 0x0A) (rev s))"

definition ready_socket_from_line :: "string \<Rightarrow> service_error + path" where
  "ready_socket_from_line line =
     (case strip_prefix line WORKER_READY_PREFIX of
        None \<Rightarrow> Inl (WorkerReadiness line)
      | Some v \<Rightarrow> Inr (trim_line_end v))"

definition probe_worker_socket :: "path \<Rightarrow> world \<Rightarrow> service_error + unit" where
  "probe_worker_socket socket w = map_err (WorkerSocketProbe socket) (w_probe w socket (w_now w))"

definition finish_worker_ready :: "string \<Rightarrow> u32 \<Rightarrow> u64 \<Rightarrow> path \<Rightarrow> world \<Rightarrow> service_error + svc_slot" where
  "finish_worker_ready line wid generation expected w =
     and_then (ready_socket_from_line line) (\<lambda>got.
     if \<not> path_eq got expected then Inl (WorkerReadyWrongSocket expected got)
     else
       and_then (map_err (\<lambda>_. WorkerSocketInvalid expected ''validation'')
         (validate_worker_socket_path (w_files w (w_now w)) expected)) (\<lambda>_.
       and_then (probe_worker_socket expected w) (\<lambda>_.
       Inr (ready_slot wid generation expected))))"

definition reader_error :: "string \<Rightarrow> service_error" where
  "reader_error source =
     (if contains_str source pre_ready_cap_message then WorkerReadinessOutputTooLarge else WorkerReadyIo source)"

lemma recv_timeout_now: "recv_timeout ms pending w = (None, w1) \<Longrightarrow> w1 = sleep ms w"
  by (auto simp: recv_timeout_def split: option.splits prod.splits if_splits)

function wait_ready_loop ::
  "pid \<Rightarrow> pending_ready \<Rightarrow> u32 \<Rightarrow> u64 \<Rightarrow> path \<Rightarrow> nat \<Rightarrow> world \<Rightarrow> (service_error + svc_slot option) \<times> world" where
  "wait_ready_loop pid pending wid generation expected deadline w =
     (if shutdown_requested w then (Inr None, terminate_child pid w)
      else
        (case try_wait w pid of
           Inl err \<Rightarrow> (Inl (WaitFailed err), w)
         | Inr (Some status) \<Rightarrow> (Inl (ChildExited ''worker'' status), w)
         | Inr None \<Rightarrow>
             (case recv_timeout 25 pending w of
                (Some (ReadyLine line), w1) \<Rightarrow>
                  (case finish_worker_ready line wid generation expected w1 of
                     Inr slot \<Rightarrow> (Inr (Some slot), w1)
                   | Inl err \<Rightarrow> (Inl err, terminate_child pid w1))
              | (Some ReadyEof, w1) \<Rightarrow> (Inl WorkerReadyDisconnected, terminate_child pid w1)
              | (Some (ReadyErr source), w1) \<Rightarrow> (Inl (reader_error source), terminate_child pid w1)
              | (None, w1) \<Rightarrow>
                  if w_now w1 < deadline then wait_ready_loop pid pending wid generation expected deadline w1
                  else (Inl WorkerReadyTimeout, terminate_child pid w1))))"
  by pat_completeness auto
termination
  by (relation "measure (\<lambda>(pid, pending, wid, generation, expected, deadline, w). deadline - w_now w)")
    (auto dest!: recv_timeout_now [OF sym] recv_timeout_now)

declare wait_ready_loop.simps [simp del]

definition wait_for_worker_ready ::
  "pid \<Rightarrow> pending_ready \<Rightarrow> u32 \<Rightarrow> u64 \<Rightarrow> path \<Rightarrow> millis \<Rightarrow> world \<Rightarrow> (service_error + svc_slot option) \<times> world" where
  "wait_for_worker_ready pid pending wid generation expected timeout w =
     wait_ready_loop pid pending wid generation expected (w_now w + timeout) w"

section \<open>Readiness of a listener\<close>

text \<open>
  \<open>wait_for_edge_ready\<close>, \<open>wait_for_cable_ready\<close> and \<open>wait_for_grpc_ready\<close> are one loop with three names; a
  failed connect takes at most its timeout of 50 ms.
\<close>

function wait_listener_loop ::
  "string \<Rightarrow> service_error \<Rightarrow> pid \<Rightarrow> socket_addr \<Rightarrow> nat \<Rightarrow> world \<Rightarrow> (service_error + unit) \<times> world" where
  "wait_listener_loop role timeout_error pid bind deadline w =
     (case try_wait w pid of
        Inl err \<Rightarrow> (Inl (WaitFailed err), w)
      | Inr (Some status) \<Rightarrow> (Inl (ChildExited role status), w)
      | Inr None \<Rightarrow>
          (let (accepted, elapsed) = w_connect w bind (w_now w); w1 = sleep (min elapsed 50) w in
           if accepted then (Inr (), w1)
           else if deadline \<le> w_now w1 then (Inl timeout_error, terminate_child pid w1)
           else wait_listener_loop role timeout_error pid bind deadline (sleep 25 w1)))"
  by pat_completeness auto
termination
  by (relation "measure (\<lambda>(role, timeout_error, pid, bind, deadline, w). deadline - w_now w)") auto

declare wait_listener_loop.simps [simp del]

definition wait_for_edge_ready :: "pid \<Rightarrow> socket_addr \<Rightarrow> world \<Rightarrow> (service_error + unit) \<times> world" where
  "wait_for_edge_ready pid bind w = wait_listener_loop ''edge'' (EdgeReadyTimeout bind) pid bind (w_now w + 15000) w"

definition wait_for_cable_ready :: "pid \<Rightarrow> socket_addr \<Rightarrow> world \<Rightarrow> (service_error + unit) \<times> world" where
  "wait_for_cable_ready pid bind w = wait_listener_loop ''cable'' (CableReadyTimeout bind) pid bind (w_now w + 15000) w"

definition wait_for_grpc_ready :: "pid \<Rightarrow> socket_addr \<Rightarrow> world \<Rightarrow> (service_error + unit) \<times> world" where
  "wait_for_grpc_ready pid bind w = wait_listener_loop ''grpc'' (GrpcReadyTimeout bind) pid bind (w_now w + 15000) w"

section \<open>What the operations on one child keep\<close>

text \<open>
  \<open>calms w w'\<close>: nothing was started on the way from \<open>w\<close> to \<open>w'\<close>, time did not go back, and no process
  that had ended lives again.
\<close>

definition calms :: "world \<Rightarrow> world \<Rightarrow> bool" where
  "calms w w' \<longleftrightarrow>
     w_now w \<le> w_now w' \<and> w_signals w' = w_signals w \<and> w_wait_error w' = w_wait_error w \<and> w_count w' = w_count w \<and>
     dom (w_procs w') = dom (w_procs w) \<and> (\<forall>pid. alive w' pid \<longrightarrow> alive w pid)"

definition reliable :: "world \<Rightarrow> bool" where
  "reliable w \<longleftrightarrow> (\<forall>pid t. w_wait_error w pid t = None)"

lemma calms_refl [simp]: "calms w w"
  by (simp add: calms_def)

lemma calms_trans [trans]: "calms u v \<Longrightarrow> calms v w \<Longrightarrow> calms u w"
  by (auto simp: calms_def)

lemma calms_dead: "calms w w' \<Longrightarrow> \<not> alive w pid \<Longrightarrow> \<not> alive w' pid"
  by (auto simp: calms_def)

lemma calms_reliable: "calms w w' \<Longrightarrow> reliable w' = reliable w"
  by (simp add: calms_def reliable_def)

lemma due_mono: "due t now \<Longrightarrow> now \<le> now' \<Longrightarrow> due t now'"
  by (cases t) auto

lemma proc_dead_mono: "proc_dead now pr \<Longrightarrow> now \<le> now' \<Longrightarrow> proc_dead now' pr"
  by (auto simp: proc_dead_def intro: due_mono)

lemma calms_sleep [simp]: "calms w (sleep ms w)"
  by (auto simp: calms_def alive_def split: option.splits dest: proc_dead_mono [where now' = "w_now w + ms"])

lemma calms_log [simp]: "calms w (log e w)" "calms w (notify_systemd message w)"
  by (simp_all add: calms_def log_def notify_systemd_def alive_def cong: option.case_cong)

lemma alive_log [simp]: "alive (log e w) = alive w" "alive (notify_systemd message w) = alive w"
  by (simp_all add: fun_eq_iff log_def notify_systemd_def alive_def cong: option.case_cong)

lemma calms_signal [simp]: "calms w (terminate_process_group sig pid w)"
  by (auto simp: terminate_process_group_def calms_def log_def alive_def split: option.splits if_splits)

lemma killed_dead [simp]: "\<not> alive (terminate_process_group Kill pid w) pid"
  by (auto simp: terminate_process_group_def log_def alive_def proc_dead_def split: option.splits)

lemma has_exited_dead: "has_exited w pid \<Longrightarrow> \<not> alive w pid"
  by (auto simp: has_exited_def try_wait_def split: option.splits if_splits sum.splits)

lemma try_wait_reliable:
  "reliable w \<Longrightarrow> try_wait w pid \<noteq> Inl err" "try_wait w pid = Inr (Some status) \<Longrightarrow> \<not> alive w pid"
  by (auto simp: reliable_def try_wait_def split: option.splits if_splits)

lemma wait_child_calms: "wait_child_until_deadline pid deadline w = (r, w') \<Longrightarrow> calms w w' \<and> (r \<longrightarrow> \<not> alive w' pid)"
proof (induction pid deadline w arbitrary: r w' rule: wait_child_until_deadline.induct)
  case (1 pid deadline w)
  show ?case
  proof (cases "try_wait w pid = Inr None \<and> \<not> 1 < w_signals w (w_now w) \<and> w_now w < deadline")
    case True
    then have "wait_child_until_deadline pid deadline (sleep 20 w) = (r, w')"
      using "1.prems" by (simp add: wait_child_until_deadline.simps [of pid deadline w])
    with True "1.IH" [of None] have "calms (sleep 20 w) w' \<and> (r \<longrightarrow> \<not> alive w' pid)" by simp
    then show ?thesis using calms_sleep calms_trans by blast
  next
    case False
    then show ?thesis using "1.prems" try_wait_reliable(2) [of w pid]
      by (auto simp: wait_child_until_deadline.simps [of pid deadline w] split: sum.splits option.splits if_splits)
  qed
qed

lemma terminate_child_calms [simp]: "calms w (terminate_child pid w)"
proof (cases "has_exited w pid")
  case False
  obtain gone w2 where w2: "wait_child_until_deadline pid (w_now (terminate_process_group Term pid w) + CHILD_TERM_TIMEOUT)
      (terminate_process_group Term pid w) = (gone, w2)" by fastforce
  then have "calms w w2" using wait_child_calms calms_trans [OF calms_signal] by blast
  then have "calms w (if gone then w2 else kill_and_wait pid w2)"
    using calms_trans [OF _ calms_signal] by (simp add: kill_and_wait_def)
  with False w2 show ?thesis
    using calms_trans [OF _ calms_signal] by (simp add: terminate_child_def wait_child_until_def Let_def)
qed (simp add: terminate_child_def)

lemma terminate_child_dead [simp]: "\<not> alive (terminate_child pid w) pid"
  by (simp add: terminate_child_def Let_def)

lemma terminate_all_calms [simp]: "calms w (terminate_all pids w)"
  unfolding terminate_all_def
proof (induction pids arbitrary: w)
  case (Cons pid pids)
  have "calms w (terminate_child pid w)" "calms (terminate_child pid w) (fold terminate_child pids (terminate_child pid w))"
    using Cons.IH by simp_all
  then have "calms w (fold terminate_child pids (terminate_child pid w))" by (rule calms_trans)
  then show ?case by simp
qed simp

lemma terminate_all_dead: "pid \<in> set pids \<Longrightarrow> \<not> alive (terminate_all pids w) pid"
proof (induction pids arbitrary: w)
  case (Cons p pids)
  show ?case
  proof (cases "pid = p")
    case True
    then show ?thesis using calms_dead [OF terminate_all_calms terminate_child_dead] by (simp add: terminate_all_def)
  next
    case False
    with Cons show ?thesis by (simp add: terminate_all_def)
  qed
qed simp

lemma request_calms [simp]: "calms w (request_child_term pid w)" "calms w (force_child_shutdown pid w)"
  by (simp_all add: request_child_term_def force_child_shutdown_def kill_and_wait_def)

lemma force_dead [simp]: "\<not> alive (force_child_shutdown pid w) pid"
  by (simp add: force_child_shutdown_def kill_and_wait_def has_exited_dead)

lemma sleep_until_calms: "sleep_until_or_shutdown deadline w = (r, w') \<Longrightarrow> calms w w'"
proof (induction deadline w arbitrary: r w' rule: sleep_until_or_shutdown.induct)
  case (1 deadline w)
  show ?case
  proof (cases "shutdown_requested w \<or> deadline \<le> w_now w")
    case True
    then show ?thesis
      using "1.prems" by (auto simp: sleep_until_or_shutdown.simps [of deadline w] split: if_splits)
  next
    case False
    with "1.prems" "1.IH" have "calms (sleep (min (deadline - w_now w) MONITOR_INTERVAL) w) w'"
      by (simp add: sleep_until_or_shutdown.simps [of deadline w])
    then show ?thesis using calms_trans [OF calms_sleep] by blast
  qed
qed

lemma recv_calms: "recv_timeout ms pending w = (m, w') \<Longrightarrow> calms w w'"
  by (auto simp: recv_timeout_def split: option.splits prod.splits if_splits)

lemma wait_ready_calms:
  "wait_ready_loop pid pending wid generation expected deadline w = (r, w') \<Longrightarrow>
     calms w w' \<and> (reliable w \<longrightarrow> (\<forall>slot. r \<noteq> Inr (Some slot)) \<longrightarrow> \<not> alive w' pid) \<and>
     (\<forall>slot. r = Inr (Some slot) \<longrightarrow> slot = ready_slot wid generation expected)"
proof (induction pid pending wid generation expected deadline w arbitrary: r w' rule: wait_ready_loop.induct)
  case (1 pid pending wid generation expected deadline w)
  obtain m w1 where m: "recv_timeout 25 pending w = (m, w1)" by fastforce
  note c1 = recv_calms [OF m]
  have ended: "calms w (terminate_child pid w1)" using calms_trans [OF c1 terminate_child_calms] .
  show ?case
  proof (cases "\<not> shutdown_requested w \<and> try_wait w pid = Inr None \<and> m = None \<and> w_now w1 < deadline")
    case True
    then have "wait_ready_loop pid pending wid generation expected deadline w1 = (r, w')"
      using "1.prems" m by (simp add: wait_ready_loop.simps [of pid pending wid generation expected deadline w])
    with True "1.IH" [of None None w1] m have
      "calms w1 w' \<and> (reliable w1 \<longrightarrow> (\<forall>slot. r \<noteq> Inr (Some slot)) \<longrightarrow> \<not> alive w' pid) \<and>
       (\<forall>slot. r = Inr (Some slot) \<longrightarrow> slot = ready_slot wid generation expected)" by simp
    then show ?thesis using calms_trans [OF c1] calms_reliable [OF c1] by blast
  next
    case False
    have finish: "finish_worker_ready line wid generation expected w1 = Inr slot \<Longrightarrow> slot = ready_slot wid generation expected"
      for line slot by (auto simp: finish_worker_ready_def and_then_eq_Inr split: if_splits)
    from False "1.prems" m show ?thesis
      using ended c1 try_wait_reliable [of w pid] finish
      by (auto simp: wait_ready_loop.simps [of pid pending wid generation expected deadline w]
          split: sum.splits option.splits if_splits ready_msg.splits)
  qed
qed

lemma wait_listener_calms:
  "wait_listener_loop role timeout_error pid bind deadline w = (r, w') \<Longrightarrow>
     calms w w' \<and> (reliable w \<longrightarrow> (\<forall>u. r \<noteq> Inr u) \<longrightarrow> \<not> alive w' pid)"
proof (induction role timeout_error pid bind deadline w arbitrary: r w' rule: wait_listener_loop.induct)
  case (1 role timeout_error pid bind deadline w)
  obtain accepted elapsed where conn: "w_connect w bind (w_now w) = (accepted, elapsed)" by fastforce
  let ?w1 = "sleep (min elapsed 50) w"
  have ended: "calms w (terminate_child pid ?w1)" using calms_trans [OF calms_sleep terminate_child_calms] .
  show ?case
  proof (cases "try_wait w pid = Inr None \<and> \<not> accepted \<and> \<not> deadline \<le> w_now ?w1")
    case True
    then have "wait_listener_loop role timeout_error pid bind deadline (sleep 25 ?w1) = (r, w')"
      using "1.prems" conn by (simp add: wait_listener_loop.simps [of role timeout_error pid bind deadline w])
    with True "1.IH" [of None "(accepted, elapsed)" accepted elapsed ?w1] conn
    have "calms (sleep 25 ?w1) w' \<and> (reliable (sleep 25 ?w1) \<longrightarrow> (\<forall>u. r \<noteq> Inr u) \<longrightarrow> \<not> alive w' pid)" by simp
    moreover have "calms w (sleep 25 ?w1)" using calms_trans [OF calms_sleep calms_sleep] .
    ultimately show ?thesis using calms_trans calms_reliable by blast
  next
    case False
    with "1.prems" conn show ?thesis
      using ended try_wait_reliable [of w pid]
      by (auto simp: wait_listener_loop.simps [of role timeout_error pid bind deadline w] Let_def
          split: sum.splits option.splits if_splits)
  qed
qed

end
