(* ===== verification/Service_Runner.thy ===== *)
theory Service_Runner
  imports Service_World
begin

text \<open>
  The supervisor itself, \<open>ServiceRunner::run\<close> of \<open>crates/oxo-pingora-edge/src/service.rs\<close>: booting the worker
  pool one by one or all at once, the sidecars and the edge, the monitor loop with its restarts,
  the certificate reload, and the staged drain. Each function takes the world and returns it.
\<close>

section \<open>Starting children\<close>

record managed_worker =
  mw_slot :: svc_slot
  mw_child :: pid
  mw_crash_count :: u32
  mw_last_started :: nat

definition worker_pids :: "managed_worker list \<Rightarrow> pid list" where
  "worker_pids workers = map mw_child workers"

definition stop_slot :: "managed_worker \<Rightarrow> managed_worker" where
  "stop_slot m = m\<lparr>mw_slot := (mw_slot m)\<lparr>sl_state := SvcStopped\<rparr>\<rparr>"

definition terminate_workers :: "managed_worker list \<Rightarrow> world \<Rightarrow> world" where
  "terminate_workers workers w = terminate_all (worker_pids workers) w"

definition opt_pids :: "pid option \<Rightarrow> pid list" where
  "opt_pids child = (case child of Some pid \<Rightarrow> [pid] | None \<Rightarrow> [])"

text \<open>The command of a worker: the per-slot settings come after the shared ones and win.\<close>

definition slot_env :: "service_config \<Rightarrow> u32 \<Rightarrow> u64 \<Rightarrow> path \<Rightarrow> child_env" where
  "slot_env conf wid generation socket =
     sf_worker_env conf @
     [(''OXO_WORKER_SOCKET'', socket), (''OXO_WORKER_ID'', show_int wid), (''OXO_WORKER_GENERATION'', show_int generation),
      (''OXO_WORKER_POOL_SIZE'', to_string (sf_worker_count conf)),
      (''OXO_WORKER_MULTIPROCESS'', if 1 < sf_worker_count conf then ''1'' else ''0'')]"

definition worker_command :: "service_config \<Rightarrow> u32 \<Rightarrow> u64 \<Rightarrow> path \<Rightarrow> command" where
  "worker_command conf wid generation socket =
     (case sf_worker_launch conf of
        LaunchClassic \<Rightarrow>
          \<lparr>cmd_program = unwrap_or (sf_worker_bin conf) [], cmd_args = [], cmd_cwd = None,
           cmd_env = slot_env conf wid generation socket\<rparr>
      | LaunchAsync bundle_bin ruby_bin script app_root \<Rightarrow>
          \<lparr>cmd_program = bundle_bin, cmd_args = [''exec'', ruby_bin, script, socket], cmd_cwd = Some app_root,
           cmd_env = slot_env conf wid generation socket\<rparr>)"

definition spawn_worker_slot :: "service_config \<Rightarrow> u32 \<Rightarrow> u64 \<Rightarrow> path \<Rightarrow> world \<Rightarrow> (service_error + pid) \<times> world" where
  "spawn_worker_slot conf wid generation socket w =
     spawn_command ''worker'' (worker_command conf wid generation socket) w"

definition spawn_ready_worker ::
  "service_config \<Rightarrow> u32 \<Rightarrow> u64 \<Rightarrow> millis \<Rightarrow> world \<Rightarrow> (service_error + managed_worker option) \<times> world" where
  "spawn_ready_worker conf wid generation timeout w =
     (let socket = sf_worker_sockets conf ! unat wid in
      case spawn_worker_slot conf wid generation socket w of
        (Inl err, w1) \<Rightarrow> (Inl err, w1)
      | (Inr child, w1) \<Rightarrow>
          (case attach_worker_readiness child w1 of
             Inl err \<Rightarrow> (Inl err, terminate_child child w1)
           | Inr pending \<Rightarrow>
               (case wait_for_worker_ready child pending wid generation socket timeout w1 of
                  (Inl err, w2) \<Rightarrow> (Inl err, w2)
                | (Inr None, w2) \<Rightarrow> (Inr None, w2)
                | (Inr (Some slot), w2) \<Rightarrow>
                    (Inr (Some \<lparr>mw_slot = slot, mw_child = child, mw_crash_count = 0, mw_last_started = w_now w2\<rparr>), w2))))"

fun spawn_workers_from ::
  "service_config \<Rightarrow> nat list \<Rightarrow> managed_worker list \<Rightarrow> world \<Rightarrow> (service_error + managed_worker list option) \<times> world" where
  "spawn_workers_from conf [] workers w = (Inr (Some workers), w)"
| "spawn_workers_from conf (i # rest) workers w =
     (case spawn_ready_worker conf (of_nat i) 1 (sf_worker_ready_timeout conf) w of
        (Inr (Some m), w1) \<Rightarrow> spawn_workers_from conf rest (workers @ [m]) w1
      | (Inr None, w1) \<Rightarrow> (Inr None, terminate_workers workers w1)
      | (Inl err, w1) \<Rightarrow> (Inl err, terminate_workers workers w1))"

section \<open>Booting an async pool\<close>

record boot_slot =
  bs_id :: u32
  bs_socket :: path
  bs_child :: pid
  bs_pending :: pending_ready

type_synonym ready_slots = "managed_worker option list"

definition fail_boot :: "boot_slot list \<Rightarrow> ready_slots \<Rightarrow> world \<Rightarrow> world" where
  "fail_boot booting ready w = terminate_workers (List.map_filter id ready) (terminate_all (map bs_child booting) w)"

fun launch_batch ::
  "service_config \<Rightarrow> nat list \<Rightarrow> boot_slot list \<Rightarrow> world \<Rightarrow> (service_error + boot_slot list) \<times> world" where
  "launch_batch conf [] booting w = (Inr booting, w)"
| "launch_batch conf (i # rest) booting w =
     (let socket = sf_worker_sockets conf ! i in
      case spawn_worker_slot conf (of_nat i) 1 socket w of
        (Inl err, w1) \<Rightarrow> (Inl err, fail_boot booting [] w1)
      | (Inr child, w1) \<Rightarrow>
          (case attach_worker_readiness child w1 of
             Inl err \<Rightarrow> (Inl err, fail_boot booting [] (terminate_child child w1))
           | Inr pending \<Rightarrow>
               launch_batch conf rest
                 (booting @ [\<lparr>bs_id = of_nat i, bs_socket = socket, bs_child = child, bs_pending = pending\<rparr>]) w1))"

definition try_recv :: "pending_ready \<Rightarrow> world \<Rightarrow> ready_msg option" where
  "try_recv pending w = (case pending of Some (t, m) \<Rightarrow> if t \<le> w_now w then Some m else None | None \<Rightarrow> None)"

text \<open>One look at one booting slot: still waiting, ready, or a reason to give up the whole pool.\<close>

datatype slot_poll = StillBooting | BecameReady svc_slot | BootFailed service_error

definition poll_boot_slot :: "boot_slot \<Rightarrow> world \<Rightarrow> slot_poll" where
  "poll_boot_slot b w =
     (case try_wait w (bs_child b) of
        Inl err \<Rightarrow> BootFailed (WaitFailed err)
      | Inr (Some status) \<Rightarrow> BootFailed (ChildExited ''worker'' status)
      | Inr None \<Rightarrow>
          (case try_recv (bs_pending b) w of
             None \<Rightarrow> StillBooting
           | Some (ReadyLine line) \<Rightarrow>
               (case finish_worker_ready line (bs_id b) 1 (bs_socket b) w of
                  Inr slot \<Rightarrow> BecameReady slot
                | Inl err \<Rightarrow> BootFailed err)
           | Some ReadyEof \<Rightarrow> BootFailed WorkerReadyDisconnected
           | Some (ReadyErr source) \<Rightarrow> BootFailed (reader_error source)))"

text \<open>The inner loop over the booting slots: those passed stay, a ready one is taken out.\<close>

fun poll_batch ::
  "boot_slot list \<Rightarrow> boot_slot list \<Rightarrow> ready_slots \<Rightarrow> world \<Rightarrow> service_error + (boot_slot list \<times> ready_slots)" where
  "poll_batch passed [] ready w = Inr (passed, ready)"
| "poll_batch passed (b # bs) ready w =
     (case poll_boot_slot b w of
        BootFailed err \<Rightarrow> Inl err
      | StillBooting \<Rightarrow> poll_batch (passed @ [b]) bs ready w
      | BecameReady slot \<Rightarrow>
          poll_batch passed bs
            (ready[unat (bs_id b) := Some \<lparr>mw_slot = slot, mw_child = bs_child b, mw_crash_count = 0, mw_last_started = w_now w\<rparr>]) w)"

text \<open>What \<open>fail\<close> tears down after an error in the middle of that loop.\<close>

fun failed_batch :: "boot_slot list \<Rightarrow> boot_slot list \<Rightarrow> ready_slots \<Rightarrow> world \<Rightarrow> boot_slot list \<times> ready_slots" where
  "failed_batch passed [] ready w = (passed, ready)"
| "failed_batch passed (b # bs) ready w =
     (case poll_boot_slot b w of
        BootFailed err \<Rightarrow> (passed @ b # bs, ready)
      | StillBooting \<Rightarrow> failed_batch (passed @ [b]) bs ready w
      | BecameReady slot \<Rightarrow>
          failed_batch passed bs
            (ready[unat (bs_id b) := Some \<lparr>mw_slot = slot, mw_child = bs_child b, mw_crash_count = 0, mw_last_started = w_now w\<rparr>]) w)"

lemma poll_batch_shorter: "poll_batch passed bs ready w = Inr (bs', ready') \<Longrightarrow> length bs' \<le> length passed + length bs"
  by (induction passed bs ready w rule: poll_batch.induct) (auto split: slot_poll.splits)

function boot_loop ::
  "service_config \<Rightarrow> boot_slot list \<Rightarrow> ready_slots \<Rightarrow> nat \<Rightarrow> world \<Rightarrow> (service_error + managed_worker list option) \<times> world" where
  "boot_loop conf booting ready deadline w =
     (if booting = [] then (Inr (Some (List.map_filter id ready)), w)
      else if shutdown_requested w then (Inr None, fail_boot booting ready w)
      else
        (case poll_batch [] booting ready w of
           Inl err \<Rightarrow> (let (b, r) = failed_batch [] booting ready w in (Inl err, fail_boot b r w))
         | Inr (booting', ready') \<Rightarrow>
             if length booting' < length booting then
               boot_loop conf booting' ready' (w_now w + sf_worker_ready_timeout conf) w
             else if deadline \<le> w_now w then (Inl WorkerReadyTimeout, fail_boot booting' ready' w)
             else boot_loop conf booting' ready' deadline (sleep (min MONITOR_INTERVAL 25) w)))"
  by pat_completeness auto
termination
  by (relation "measures [\<lambda>(conf, booting, ready, deadline, w). length booting,
      \<lambda>(conf, booting, ready, deadline, w). deadline - w_now w]")
    (auto simp: MONITOR_INTERVAL_def dest!: poll_batch_shorter [OF sym] poll_batch_shorter)

declare boot_loop.simps [simp del]

definition spawn_worker_pool_batched ::
  "service_config \<Rightarrow> world \<Rightarrow> (service_error + managed_worker list option) \<times> world" where
  "spawn_worker_pool_batched conf w =
     (let n = length (sf_worker_sockets conf) in
      case launch_batch conf [0..<n] [] w of
        (Inl err, w1) \<Rightarrow> (Inl err, w1)
      | (Inr booting, w1) \<Rightarrow> boot_loop conf booting (replicate n None) (w_now w1 + sf_worker_ready_timeout conf) w1)"

definition spawn_worker_pool :: "service_config \<Rightarrow> world \<Rightarrow> (service_error + managed_worker list option) \<times> world" where
  "spawn_worker_pool conf w =
     (if launch_is_async (sf_worker_launch conf) then spawn_worker_pool_batched conf w
      else spawn_workers_from conf [0..<length (sf_worker_sockets conf)] [] w)"

section \<open>The sidecars and the edge\<close>

definition plain_command :: "path \<Rightarrow> os_string list \<Rightarrow> child_env \<Rightarrow> command" where
  "plain_command program args envs = \<lparr>cmd_program = program, cmd_args = args, cmd_cwd = None, cmd_env = envs\<rparr>"

definition spawn_cable :: "service_config \<Rightarrow> world \<Rightarrow> (service_error + pid option) \<times> world" where
  "spawn_cable conf w =
     (case sf_cable_bin conf of
        None \<Rightarrow> (Inr None, w)
      | Some bin \<Rightarrow>
          (case sf_cable_bind conf of
             None \<Rightarrow> (Inl (MissingEnv ''OXO_CABLE_BIND''), w)
           | Some bind \<Rightarrow>
               (case spawn_command ''cable'' (plain_command bin [] (sf_cable_env conf)) w of
                  (Inl err, w1) \<Rightarrow> (Inl err, w1)
                | (Inr child, w1) \<Rightarrow>
                    (case wait_for_cable_ready child bind w1 of
                       (Inl err, w2) \<Rightarrow> (Inl err, w2)
                     | (Inr _, w2) \<Rightarrow> (Inr (Some child), w2)))))"

definition spawn_grpc :: "service_config \<Rightarrow> world \<Rightarrow> (service_error + pid option) \<times> world" where
  "spawn_grpc conf w =
     (case sf_grpc_bin conf of
        None \<Rightarrow> (Inr None, w)
      | Some bin \<Rightarrow>
          (case sf_grpc_bind conf of
             None \<Rightarrow> (Inl (MissingEnv ''OXO_GRPC_BIND''), w)
           | Some bind \<Rightarrow>
               (case spawn_command ''grpc'' (plain_command bin [] (sf_grpc_env conf)) w of
                  (Inl err, w1) \<Rightarrow> (Inl err, w1)
                | (Inr child, w1) \<Rightarrow>
                    (case wait_for_grpc_ready child bind w1 of
                       (Inl err, w2) \<Rightarrow> (Inl err, w2)
                     | (Inr _, w2) \<Rightarrow> (Inr (Some child), w2)))))"

definition spawn_edge :: "service_config \<Rightarrow> world \<Rightarrow> (service_error + pid) \<times> world" where
  "spawn_edge conf w = spawn_command ''edge'' (plain_command (sf_edge_bin conf) (sf_edge_args conf) (sf_edge_env conf)) w"

definition spawn_renew_child :: "service_config \<Rightarrow> acme_renew_config \<Rightarrow> world \<Rightarrow> (service_error + pid) \<times> world" where
  "spawn_renew_child conf acme w =
     spawn_command ''acme-renew'' (plain_command (sf_edge_bin conf) (ar_renew_args acme) (w_ca_env w)) w"

definition ready_status :: "bool \<Rightarrow> bool \<Rightarrow> string" where
  "ready_status cable grpc =
     (if cable \<and> grpc then ''READY=1'' @ [CHR 0x0A] @ ''STATUS=Oxo edge, workers, standalone Action Cable, and standalone gRPC are ready''
      else if cable then ''READY=1'' @ [CHR 0x0A] @ ''STATUS=Oxo edge, workers, and standalone Action Cable are ready''
      else if grpc then ''READY=1'' @ [CHR 0x0A] @ ''STATUS=Oxo edge, workers, and standalone gRPC are ready''
      else ''READY=1'' @ [CHR 0x0A] @ ''STATUS=Oxo edge and workers are ready'')"

section \<open>The staged drain\<close>

definition bounded_stage_deadline :: "nat \<Rightarrow> millis \<Rightarrow> world \<Rightarrow> nat" where
  "bounded_stage_deadline service_deadline stage w =
     (let stage_deadline = w_now w + stage in
      if stage_deadline < service_deadline then stage_deadline else service_deadline)"

definition wait_opt :: "pid option \<Rightarrow> nat \<Rightarrow> world \<Rightarrow> bool \<times> world" where
  "wait_opt child deadline w =
     (case child of Some pid \<Rightarrow> wait_child_until_deadline pid deadline w | None \<Rightarrow> (True, w))"

definition request_opt :: "pid option \<Rightarrow> world \<Rightarrow> world" where
  "request_opt child w = (case child of Some pid \<Rightarrow> request_child_term pid w | None \<Rightarrow> w)"

definition force_opt :: "pid option \<Rightarrow> world \<Rightarrow> world" where
  "force_opt child w = (case child of Some pid \<Rightarrow> force_child_shutdown pid w | None \<Rightarrow> w)"

fun wait_each :: "pid list \<Rightarrow> nat \<Rightarrow> world \<Rightarrow> world" where
  "wait_each [] deadline w = w"
| "wait_each (pid # pids) deadline w = wait_each pids deadline (snd (wait_child_until_deadline pid deadline w))"

text \<open>
  The three stages. The slot states the source writes on the way (draining, then stopped) are those
  of \<open>drain_slot\<close> and \<open>stop_slot\<close>; nothing reads them before the function returns.
\<close>

definition drain_slot :: "managed_worker \<Rightarrow> managed_worker" where
  "drain_slot m = m\<lparr>mw_slot := (mw_slot m)\<lparr>sl_state := SvcDraining, sl_draining := True\<rparr>\<rparr>"

definition drain_service ::
  "pid \<Rightarrow> pid option \<Rightarrow> pid option \<Rightarrow> managed_worker list \<Rightarrow> millis \<Rightarrow> millis \<Rightarrow> millis \<Rightarrow> world
     \<Rightarrow> managed_worker list \<times> world" where
  "drain_service edge cable grpc workers grace edge_grace worker_drain_wait w =
     (let w1 = request_child_term edge w;
          service_deadline = w_now w1 + grace;
          (edge_done, w2) = wait_child_until_deadline edge (bounded_stage_deadline service_deadline edge_grace w1) w1;
          w3 = request_opt grpc (request_opt cable w2);
          sidecar_deadline = bounded_stage_deadline service_deadline SIDECAR_DRAIN_WAIT w3;
          (cable_done, w4) = wait_opt cable sidecar_deadline w3;
          (grpc_done, w5) = wait_opt grpc sidecar_deadline w4;
          w6 = fold request_child_term (worker_pids workers) w5;
          w7 = wait_each (worker_pids workers) (bounded_stage_deadline service_deadline worker_drain_wait w6) w6;
          w8 = (if edge_done then w7 else force_child_shutdown edge w7);
          w9 = (if cable_done then w8 else force_opt cable w8);
          w10 = (if grpc_done then w9 else force_opt grpc w9)
      in (map (stop_slot \<circ> drain_slot) workers, fold force_child_shutdown (worker_pids workers) w10))"

section \<open>Restarting a worker\<close>

definition RESTART_BACKOFF_BASE :: millis where "RESTART_BACKOFF_BASE = 100"
definition RESTART_BACKOFF_MAX_DOUBLINGS :: u32 where "RESTART_BACKOFF_MAX_DOUBLINGS = 5"

definition restart_backoff :: "u32 \<Rightarrow> millis" where
  "restart_backoff crash_count =
     (let doublings = min (saturating_sub crash_count 1) RESTART_BACKOFF_MAX_DOUBLINGS in
      RESTART_BACKOFF_BASE * unat (push_bit (unat doublings) 1 :: u32))"

definition next_crash_count :: "managed_worker \<Rightarrow> nat \<Rightarrow> u32" where
  "next_crash_count m now =
     (if now - mw_last_started m < 5000 then saturating_add (mw_crash_count m) 1 else 1)"

definition fail_slot :: "managed_worker \<Rightarrow> managed_worker" where
  "fail_slot m = m\<lparr>mw_slot := (mw_slot m)\<lparr>sl_state := SvcFailed\<rparr>\<rparr>"

text \<open>The part after the backoff: a new process for the slot, on the shorter budget of a warm boot.\<close>

definition respawn_worker ::
  "service_config \<Rightarrow> managed_worker \<Rightarrow> world \<Rightarrow> (service_error + unit) \<times> managed_worker \<times> world" where
  "respawn_worker conf m w =
     (let generation = saturating_add (sl_generation (mw_slot m)) 1;
          wid = sl_id (mw_slot m);
          socket = sl_socket (mw_slot m)
      in
      case spawn_worker_slot conf wid generation socket w of
        (Inl err, w1) \<Rightarrow> (Inl err, m, w1)
      | (Inr child, w1) \<Rightarrow>
          (case attach_worker_readiness child w1 of
             Inl err \<Rightarrow> (Inl err, m, terminate_child child w1)
           | Inr pending \<Rightarrow>
               (case wait_for_worker_ready child pending wid generation socket (sf_worker_respawn_ready_timeout conf) w1 of
                  (Inr (Some slot), w2) \<Rightarrow> (Inr (), m\<lparr>mw_child := child, mw_slot := slot, mw_last_started := w_now w2\<rparr>, w2)
                | (Inr None, w2) \<Rightarrow> (Inr (), m, w2)
                | (Inl err, w2) \<Rightarrow> (Inl err, m, terminate_child child w2))))"

definition count_crash :: "managed_worker \<Rightarrow> nat \<Rightarrow> managed_worker" where
  "count_crash m now = m\<lparr>mw_crash_count := next_crash_count m now\<rparr>"

definition restart_worker ::
  "service_config \<Rightarrow> managed_worker \<Rightarrow> world \<Rightarrow> (service_error + unit) \<times> managed_worker \<times> world" where
  "restart_worker conf m w =
     (if shutdown_requested w then (Inr (), fail_slot m, w)
      else
        (let m1 = count_crash (fail_slot m) (w_now w) in
         case sleep_unless_shutdown (restart_backoff (mw_crash_count m1)) w of
           (False, w1) \<Rightarrow> (Inr (), m1, w1)
         | (True, w1) \<Rightarrow> respawn_worker conf m1 w1))"

section \<open>Reloading the edge's certificate\<close>

definition drain_edge_for_reload :: "pid \<Rightarrow> millis \<Rightarrow> world \<Rightarrow> world" where
  "drain_edge_for_reload edge edge_grace w =
     (let (gone, w1) = wait_child_until edge edge_grace (request_child_term edge w) in
      if gone then w1 else force_child_shutdown edge w1)"

definition acme_result :: "string + 'a \<Rightarrow> service_error + 'a" where
  "acme_result r = map_err AcmeReload r"

definition consume_reload_marker :: "world \<Rightarrow> (service_error + unit) \<times> world" where
  "consume_reload_marker w =
     (case acme_result (w_consume w (w_now w)) of
        Inl err \<Rightarrow> (Inl err, w)
      | Inr _ \<Rightarrow> (Inr (), log (MarkerConsumed (w_now w)) w))"

text \<open>The attempts with the new pair: \<open>Some True\<close> booted, \<open>Some False\<close> failed, \<open>None\<close> a shutdown came first.\<close>

fun try_new_pair :: "nat \<Rightarrow> service_config \<Rightarrow> pid \<Rightarrow> world \<Rightarrow> (service_error + bool option) \<times> pid \<times> world" where
  "try_new_pair 0 conf edge w = (Inr (Some False), edge, w)"
| "try_new_pair (Suc n) conf edge w =
     (if shutdown_requested w then (Inr None, edge, w)
      else
        (case spawn_edge conf w of
           (Inl err, w1) \<Rightarrow> (Inl err, edge, w1)
         | (Inr edge1, w1) \<Rightarrow>
             (case wait_for_edge_ready edge1 (sf_edge_bind conf) w1 of
                (Inr _, w2) \<Rightarrow> (Inr (Some True), edge1, w2)
              | (Inl _, w2) \<Rightarrow> try_new_pair n conf edge1 (terminate_child edge1 w2))))"

definition restart_edge :: "service_config \<Rightarrow> pid \<Rightarrow> world \<Rightarrow> (service_error + unit) \<times> pid \<times> world" where
  "restart_edge conf edge w =
     (let w1 = drain_edge_for_reload edge (sf_edge_drain_grace conf)
                 (notify_systemd ''STATUS=Oxo edge restarting for certificate reload'' w) in
      case try_new_pair 2 conf edge w1 of
        (Inl err, edge1, w2) \<Rightarrow> (Inl err, edge1, w2)
      | (Inr None, edge1, w2) \<Rightarrow> (Inr (), edge1, w2)
      | (Inr (Some True), edge1, w2) \<Rightarrow>
          (case consume_reload_marker w2 of
             (Inl err, w3) \<Rightarrow> (Inl err, edge1, w3)
           | (Inr _, w3) \<Rightarrow> (Inr (), edge1, notify_systemd ''STATUS=Oxo edge reloaded a renewed certificate'' w3))
      | (Inr (Some False), edge1, w2) \<Rightarrow>
          (case acme_result (w_rollback w2 (w_now w2)) of
             Inl err \<Rightarrow> (Inl err, edge1, w2)
           | Inr _ \<Rightarrow>
               if shutdown_requested w2 then (Inr (), edge1, w2)
               else
                 (case spawn_edge conf w2 of
                    (Inl err, w3) \<Rightarrow> (Inl err, edge1, w3)
                  | (Inr edge2, w3) \<Rightarrow>
                      (case wait_for_edge_ready edge2 (sf_edge_bind conf) w3 of
                         (Inl err, w4) \<Rightarrow> (Inl err, edge2, w4)
                       | (Inr _, w4) \<Rightarrow>
                           (Inr (), edge2, notify_systemd ''STATUS=Oxo edge restarted on the rolled-back certificate'' w4)))))"

definition maybe_reload_edge :: "service_config \<Rightarrow> pid \<Rightarrow> world \<Rightarrow> (service_error + unit) \<times> pid \<times> world" where
  "maybe_reload_edge conf edge w =
     (case acme_result (w_marker w (w_now w)) of
        Inl err \<Rightarrow> (Inl err, edge, w)
      | Inr None \<Rightarrow> (Inr (), edge, w)
      | Inr (Some _) \<Rightarrow> restart_edge conf edge w)"

definition reconcile_boot_marker :: "service_config \<Rightarrow> u64 \<Rightarrow> pid \<Rightarrow> world \<Rightarrow> (service_error + unit) \<times> pid \<times> world" where
  "reconcile_boot_marker conf boot_epoch edge w =
     (case acme_result (w_marker w (w_now w)) of
        Inl err \<Rightarrow> (Inl err, edge, w)
      | Inr None \<Rightarrow> (Inr (), edge, w)
      | Inr (Some updated_at) \<Rightarrow>
          if updated_at \<le> boot_epoch then (case consume_reload_marker w of (r, w1) \<Rightarrow> (r, edge, w1))
          else restart_edge conf edge w)"

section \<open>The monitor loop\<close>

record runner_state =
  rs_workers :: "managed_worker list"
  rs_edge :: pid
  rs_cable :: "pid option"
  rs_grpc :: "pid option"
  rs_renew :: "(pid \<times> nat) option"
  rs_next_renew :: "nat option"

definition renew_pids :: "runner_state \<Rightarrow> pid list" where
  "renew_pids st = opt_pids (map_option fst (rs_renew st))"

definition all_pids :: "runner_state \<Rightarrow> pid list" where
  "all_pids st = rs_edge st # opt_pids (rs_cable st) @ opt_pids (rs_grpc st) @ renew_pids st @ worker_pids (rs_workers st)"

type_synonym verdict = "(service_error + unit) option"

text \<open>A fatal exit: systemd is told, the children named are terminated in order, the error is the result.\<close>

definition give_up :: "string \<Rightarrow> pid list \<Rightarrow> service_error \<Rightarrow> runner_state \<Rightarrow> world \<Rightarrow> verdict \<times> runner_state \<times> world" where
  "give_up message pids err st w =
     (Some (Inl err), st\<lparr>rs_workers := map stop_slot (rs_workers st)\<rparr>,
      terminate_all pids (notify_systemd (''STOPPING=1'' @ [CHR 0x0A] @ ''STATUS=Oxo '' @ message) w))"

definition poll_opt :: "pid option \<Rightarrow> world \<Rightarrow> string + int option" where
  "poll_opt child w = (case child of Some pid \<Rightarrow> try_wait w pid | None \<Rightarrow> Inr None)"

fun first_exited :: "nat \<Rightarrow> managed_worker list \<Rightarrow> world \<Rightarrow> string + nat option" where
  "first_exited i [] w = Inr None"
| "first_exited i (m # ms) w =
     (case try_wait w (mw_child m) of
        Inl err \<Rightarrow> Inl err
      | Inr (Some _) \<Rightarrow> Inr (Some i)
      | Inr None \<Rightarrow> first_exited (Suc i) ms w)"

text \<open>The part of an iteration that looks after the workers.\<close>

definition monitor_workers :: "service_config \<Rightarrow> runner_state \<Rightarrow> world \<Rightarrow> verdict \<times> runner_state \<times> world" where
  "monitor_workers conf st w =
     (case first_exited 0 (rs_workers st) w of
        Inl err \<Rightarrow> (Some (Inl (WaitFailed err)), st, w)
      | Inr None \<Rightarrow> (None, st, w)
      | Inr (Some i) \<Rightarrow>
          (case restart_worker conf (rs_workers st ! i) (notify_systemd ''STATUS=Oxo worker restarting'' w) of
             (r, m, w1) \<Rightarrow>
               (let st1 = st\<lparr>rs_workers := (rs_workers st)[i := m]\<rparr> in
                case r of
                  Inr _ \<Rightarrow> (None, st1, w1)
                | Inl err \<Rightarrow>
                    give_up ''worker restart failed''
                      (renew_pids st1 @ rs_edge st1 # opt_pids (rs_grpc st1) @ opt_pids (rs_cable st1) @
                       worker_pids (rs_workers st1)) err st1 w1)))"

text \<open>The part that looks after the renewal child: reap it or end it on timeout, start the next one.\<close>

definition reload_after_reap :: "service_config \<Rightarrow> runner_state \<Rightarrow> world \<Rightarrow> verdict \<times> runner_state \<times> world" where
  "reload_after_reap conf st w =
     (case maybe_reload_edge conf (rs_edge st) w of
        (Inr _, edge, w1) \<Rightarrow> (None, st\<lparr>rs_renew := None, rs_edge := edge\<rparr>, w1)
      | (Inl err, edge, w1) \<Rightarrow>
          give_up ''certificate reload failed''
            (opt_pids (rs_grpc st) @ opt_pids (rs_cable st) @ worker_pids (rs_workers st)) err
            (st\<lparr>rs_renew := None, rs_edge := edge\<rparr>) w1)"

definition start_renewal :: "service_config \<Rightarrow> acme_renew_config \<Rightarrow> runner_state \<Rightarrow> world \<Rightarrow> runner_state \<times> world" where
  "start_renewal conf acme st w =
     (if due (rs_next_renew st) (w_now w) \<and> \<not> shutdown_requested w then
        (case spawn_renew_child conf acme w of
           (Inr child, w1) \<Rightarrow> (st\<lparr>rs_renew := Some (child, w_now w1), rs_next_renew := Some (w_now w1 + ar_interval acme)\<rparr>, w1)
         | (Inl _, w1) \<Rightarrow> (st\<lparr>rs_next_renew := Some (w_now w1 + ar_interval acme)\<rparr>, w1))
      else (st, w))"

definition monitor_renewal :: "service_config \<Rightarrow> runner_state \<Rightarrow> world \<Rightarrow> verdict \<times> runner_state \<times> world" where
  "monitor_renewal conf st w =
     (case sf_acme_renew conf of
        None \<Rightarrow> (None, st, w)
      | Some acme \<Rightarrow>
          (case rs_renew st of
             None \<Rightarrow> (case start_renewal conf acme st w of (st1, w1) \<Rightarrow> (None, st1, w1))
           | Some (child, started) \<Rightarrow>
               (case try_wait w child of
                  Inl err \<Rightarrow> (Some (Inl (WaitFailed err)), st, w)
                | Inr (Some _) \<Rightarrow> reload_after_reap conf st w
                | Inr None \<Rightarrow>
                    if ar_timeout acme \<le> w_now w - started then reload_after_reap conf st (terminate_child child w)
                    else (None, st, w))))"

definition monitor_step :: "service_config \<Rightarrow> runner_state \<Rightarrow> world \<Rightarrow> verdict \<times> runner_state \<times> world" where
  "monitor_step conf st w =
     (if shutdown_requested w then
        (let w1 = terminate_all (renew_pids st)
               (notify_systemd (''STOPPING=1'' @ [CHR 0x0A] @ ''STATUS=Oxo draining after shutdown signal'') w);
             (workers, w2) = drain_service (rs_edge st) (rs_cable st) (rs_grpc st) (rs_workers st) (sf_drain_grace conf)
               (sf_edge_drain_grace conf) (sf_worker_drain_wait conf) w1
         in (Some (Inr ()), st\<lparr>rs_workers := workers\<rparr>, w2))
      else
        (case try_wait w (rs_edge st) of
           Inl err \<Rightarrow> (Some (Inl (WaitFailed err)), st, w)
         | Inr (Some status) \<Rightarrow>
             give_up ''edge exited''
               (renew_pids st @ opt_pids (rs_grpc st) @ opt_pids (rs_cable st) @ worker_pids (rs_workers st))
               (ChildExited ''edge'' status) st w
         | Inr None \<Rightarrow>
             (case poll_opt (rs_cable st) w of
                Inl err \<Rightarrow> (Some (Inl (WaitFailed err)), st, w)
              | Inr (Some status) \<Rightarrow>
                  give_up ''Action Cable exited''
                    (renew_pids st @ rs_edge st # opt_pids (rs_grpc st) @ worker_pids (rs_workers st))
                    (ChildExited ''cable'' status) st w
              | Inr None \<Rightarrow>
                  (case poll_opt (rs_grpc st) w of
                     Inl err \<Rightarrow> (Some (Inl (WaitFailed err)), st, w)
                   | Inr (Some status) \<Rightarrow>
                       give_up ''gRPC exited''
                         (renew_pids st @ rs_edge st # opt_pids (rs_cable st) @ worker_pids (rs_workers st))
                         (ChildExited ''grpc'' status) st w
                   | Inr None \<Rightarrow>
                       (case monitor_workers conf st w of
                          (Some r, st1, w1) \<Rightarrow> (Some r, st1, w1)
                        | (None, st1, w1) \<Rightarrow>
                            (case monitor_renewal conf st1 w1 of
                               (Some r, st2, w2) \<Rightarrow> (Some r, st2, w2)
                             | (None, st2, w2) \<Rightarrow> (None, st2, sleep MONITOR_INTERVAL w2)))))))"

text \<open>The loop, with fuel for the iterations it may take; it runs until a step returns.\<close>

fun monitor_children :: "nat \<Rightarrow> service_config \<Rightarrow> runner_state \<Rightarrow> world \<Rightarrow> ((service_error + unit) \<times> world) option" where
  "monitor_children 0 conf st w = None"
| "monitor_children (Suc fuel) conf st w =
     (case monitor_step conf st w of
        (Some r, st1, w1) \<Rightarrow> Some (r, w1)
      | (None, st1, w1) \<Rightarrow> monitor_children fuel conf st1 w1)"

section \<open>The run of the service\<close>

definition abort_start :: "string \<Rightarrow> pid list \<Rightarrow> service_error \<Rightarrow> world \<Rightarrow> (service_error + runner_state) \<times> world" where
  "abort_start message pids err w =
     (Inl err, terminate_all pids (notify_systemd (''STOPPING=1'' @ [CHR 0x0A] @ ''STATUS=Oxo '' @ message) w))"

definition start_edge ::
  "service_config \<Rightarrow> managed_worker list \<Rightarrow> pid option \<Rightarrow> pid option \<Rightarrow> world \<Rightarrow> (service_error + runner_state) \<times> world" where
  "start_edge conf workers cable grpc w =
     (let others = opt_pids grpc @ opt_pids cable @ worker_pids workers; boot_epoch = w_epoch w (w_now w) in
      case spawn_edge conf w of
        (Inl err, w1) \<Rightarrow> abort_start ''edge spawn failed'' others err w1
      | (Inr edge, w1) \<Rightarrow>
          (case wait_for_edge_ready edge (sf_edge_bind conf) w1 of
             (Inl err, w2) \<Rightarrow> abort_start ''edge readiness failed'' (edge # others) err w2
           | (Inr _, w2) \<Rightarrow>
               (case (if sf_acme_renew conf = None then (Inr (), edge, w2)
                      else reconcile_boot_marker conf boot_epoch edge w2) of
                  (Inl err, edge1, w3) \<Rightarrow> abort_start ''boot certificate reconcile failed'' (edge1 # others) err w3
                | (Inr _, edge1, w3) \<Rightarrow>
                    (let w4 = notify_systemd (ready_status (cable \<noteq> None) (grpc \<noteq> None)) w3 in
                     (Inr \<lparr>rs_workers = workers, rs_edge = edge1, rs_cable = cable, rs_grpc = grpc, rs_renew = None,
                        rs_next_renew = map_option (\<lambda>acme. w_now w4 + ar_interval acme) (sf_acme_renew conf)\<rparr>, w4)))))"

text \<open>Everything before the monitor loop: \<open>Inr None\<close> when a drain was requested while the pool was booting.\<close>

definition start_service :: "service_config \<Rightarrow> world \<Rightarrow> (service_error + runner_state option) \<times> world" where
  "start_service conf w =
     (case spawn_worker_pool conf w of
        (Inl err, w1) \<Rightarrow> (Inl err, w1)
      | (Inr None, w1) \<Rightarrow>
          (Inr None, notify_systemd (''STOPPING=1'' @ [CHR 0x0A] @ ''STATUS=Oxo draining during startup'') w1)
      | (Inr (Some workers), w1) \<Rightarrow>
          (case spawn_cable conf w1 of
             (Inl err, w2) \<Rightarrow>
               (case abort_start ''Action Cable spawn failed'' (worker_pids workers) err w2 of (r, w3) \<Rightarrow> (Inl err, w3))
           | (Inr cable, w2) \<Rightarrow>
               (case spawn_grpc conf w2 of
                  (Inl err, w3) \<Rightarrow>
                    (case abort_start ''gRPC spawn failed'' (opt_pids cable @ worker_pids workers) err w3 of
                       (r, w4) \<Rightarrow> (Inl err, w4))
                | (Inr grpc, w3) \<Rightarrow>
                    (case start_edge conf workers cable grpc w3 of
                       (Inl err, w4) \<Rightarrow> (Inl err, w4)
                     | (Inr st, w4) \<Rightarrow> (Inr (Some st), w4)))))"

text \<open>
  The service process after its signal handlers are installed. The source then clears the signal
  flag and counter, which a signal of a moment before may have set; \<open>w_signals\<close> counts the signals
  since that clearing.
\<close>

definition run_service :: "nat \<Rightarrow> service_config \<Rightarrow> world \<Rightarrow> ((service_error + unit) \<times> world) option" where
  "run_service fuel conf w =
     (case start_service conf w of
        (Inl err, w1) \<Rightarrow> Some (Inl err, w1)
      | (Inr None, w1) \<Rightarrow> Some (Inr (), w1)
      | (Inr (Some st), w1) \<Rightarrow> monitor_children fuel conf st w1)"

definition service_run_from_args ::
  "nat \<Rightarrow> service_env \<Rightarrow> os_string list \<Rightarrow> world \<Rightarrow> ((service_error + unit) \<times> world) option" where
  "service_run_from_args fuel se args w =
     (case service_from_args se args of
        Inl err \<Rightarrow> Some (Inl err, w)
      | Inr (conf, _) \<Rightarrow> if sf_check_config conf then Some (Inr (), w) else run_service fuel conf w)"

end
