(* ===== verification/Service_Start.thy ===== *)
theory Service_Start
  imports Service_Config
begin

text \<open>
  What a start of the service guarantees, over the configuration that \<open>Service_Config\<close> resolves: each
  child's environment is its own, the log shows none of its values, the edge child reads back the
  settings the service resolved, and every worker's socket lies in the directory that was checked.
\<close>

section \<open>A sample installation\<close>

definition sample_service :: service_env where
  "sample_service =
     \<lparr>se_env = map_of [(''OXO_WORKER_SOCKET'', ''/run/oxo/w.sock''), (''OXO_WORKER_COUNT'', ''2''), (''OXO_WORKER_APP'', ''/app''),
        (''SECRET_KEY_BASE'', ''s3''), (''OXO_WORKER_DISPATCH'', ''rr'')],
      se_stat = (\<lambda>p. if p = ''/opt/oxo-worker'' \<or> p = ''/opt/oxo-pingora-edge''
                     then Inr \<lparr>md_file_type = FtFile, md_mode = 0x1ED\<rparr>
                     else if p = ''/run/oxo'' then Inr \<lparr>md_file_type = FtDir, md_mode = 0x1C0\<rparr>
                     else Inl (NotFound ''no such file'')),
      se_create_dir = (\<lambda>_. Inr ()), se_chmod = (\<lambda>_ _. Inr ()), se_exe = Some ''/opt/oxo-pingora-service'', se_acme_built = True\<rparr>"

lemma sample_strings:
  "rust_str ''2''" "rust_str ''rr''" "trim ''2'' = ''2''"
  "os_parent ''/run/oxo/w.sock'' = Some ''/run/oxo''" "os_parent ''/opt/oxo-pingora-service'' = Some ''/opt''"
  "file_stem ''/run/oxo/w.sock'' = Some ''w''" "extension ''/run/oxo/w.sock'' = Some ''sock''" "rust_str ''w''" "rust_str ''sock''"
  "starts_with ''/opt/oxo-worker'' ''/mnt/'' = False" "starts_with ''/opt/oxo-pingora-edge'' ''/mnt/'' = False"
  "is_absolute ''/opt/oxo-worker''" "is_absolute ''/opt/oxo-pingora-edge''"
  "worker_socket_name ''w'' (Some ''sock'') 0 = ''w-0.sock''" "worker_socket_name ''w'' (Some ''sock'') (Suc 0) = ''w-1.sock''"
  "path_join ''/opt'' ''oxo-worker'' = ''/opt/oxo-worker''" "path_join ''/opt'' ''oxo-pingora-edge'' = ''/opt/oxo-pingora-edge''"
  "path_join ''/run/oxo'' ''w-0.sock'' = ''/run/oxo/w-0.sock''" "path_join ''/run/oxo'' ''w-1.sock'' = ''/run/oxo/w-1.sock''"
  by code_simp+

lemma path_display_ascii: "ascii_str p \<Longrightarrow> path_display p = p"
proof -
  have "ascii_str p \<Longrightarrow> lossy_bytes (as_bytes p) = as_bytes p"
    by (induction p) (auto simp: ascii_str_def as_bytes_def word_less_nat_alt unat_byte)
  then show "ascii_str p \<Longrightarrow> path_display p = p" by (simp add: path_display_def)
qed

lemma parse_two: "parse_uint U64_MAX ''2'' = Some 2"
proof -
  have "to_string 2 = ''2''" by code_simp
  then show ?thesis using parse_uint_to_string [of 2 U64_MAX] by simp
qed

lemma sample_env_reads:
  "se_env sample_service ''OXO_WORKER_SOCKET'' = Some ''/run/oxo/w.sock''" "se_env sample_service ''OXO_WORKER_APP'' = Some ''/app''"
  "svc_string_env (se_env sample_service) ''OXO_WORKER_COUNT'' = Inr (Some ''2'')"
  by (simp_all add: sample_service_def svc_string_env_def required_string_def env_var_def sample_strings)

lemma sample_env_absent:
  assumes "name \<notin> set [''OXO_WORKER_SOCKET'', ''OXO_WORKER_COUNT'', ''OXO_WORKER_APP'', ''SECRET_KEY_BASE'',
    ''OXO_WORKER_DISPATCH'']"
  shows "svc_string_env (se_env sample_service) name = Inr None" "svc_optional_path (se_env sample_service) name = None"
    "svc_u64_env (se_env sample_service) name = Inr None" "svc_u16_env (se_env sample_service) name = Inr None"
    "svc_bool_env (se_env sample_service) name = Inr None" "svc_socket_addr_env (se_env sample_service) name = Inr None"
    "svc_env_bool (se_env sample_service) name d = Inr d" "svc_env_usize (se_env sample_service) name n = Inr n"
    "env_var (se_env sample_service) name = Inl NotPresent"
  using assms
  by (simp_all add: sample_service_def svc_string_env_def env_var_def svc_optional_path_def svc_u64_env_def svc_u16_env_def
      svc_bool_env_def svc_socket_addr_env_def svc_parsed_env_def svc_env_bool_def svc_env_usize_def unwrap_or_def)

definition service_cli :: edge_cli_config where
  "service_cli = default_cli\<lparr>ec_http_bind := Some (SockV4 0x7F000001 80)\<rparr>"

definition sample_child :: edge_cli_config where
  "sample_child = default_cli\<lparr>ec_worker_sockets := [''/run/oxo/w-0.sock'', ''/run/oxo/w-1.sock''], ec_drain_grace_ms := Some 2000,
     ec_http_bind := Some (SockV4 0x7F000001 80)\<rparr>"

lemma sample_child_cli:
  "resolve_child_cli (se_env sample_service) [''/run/oxo/w-0.sock'', ''/run/oxo/w-1.sock''] (SockV4 0x7F000001 80) service_cli 2000 =
     Inr sample_child"
  by (simp add: resolve_child_cli_def child_listener_def edge_uses_tls_def sample_env_absent cli_else_def or_else_def
      child_acme_def switch_else_def list_else_def child_venues_def child_serving_def child_limits_def unwrap_or_def
      sample_child_def service_cli_def default_cli_def)

lemma sample_stat:
  "se_stat sample_service ''/opt/oxo-worker'' = Inr \<lparr>md_file_type = FtFile, md_mode = 0x1ED\<rparr>"
  "se_stat sample_service ''/opt/oxo-pingora-edge'' = Inr \<lparr>md_file_type = FtFile, md_mode = 0x1ED\<rparr>"
  "se_stat sample_service ''/run/oxo'' = Inr \<lparr>md_file_type = FtDir, md_mode = 0x1C0\<rparr>"
  "se_exe sample_service = Some ''/opt/oxo-pingora-service''" "se_acme_built sample_service"
  by (simp_all add: sample_service_def)

lemma sample_bins:
  "configured_binary sample_service ''OXO_WORKER_BIN'' ''oxo-worker'' False ''worker'' = Inr ''/opt/oxo-worker''"
  "configured_binary sample_service ''OXO_EDGE_BIN'' ''oxo-pingora-edge'' False ''edge'' = Inr ''/opt/oxo-pingora-edge''"
  by (simp_all add: configured_binary_def sample_env_absent sibling_binary_def unwrap_or_def validate_executable_def
      validate_executable_permissions_def sample_strings path_display_ascii ascii_str_def sample_stat)

lemma sample_sockets:
  "required_path (se_env sample_service) ''OXO_WORKER_SOCKET'' = Inr ''/run/oxo/w.sock''"
  "worker_socket_paths ''/run/oxo/w.sock'' 2 = Inr [''/run/oxo/w-0.sock'', ''/run/oxo/w-1.sock'']"
  "svc_env_usize (se_env sample_service) ''OXO_WORKER_COUNT'' (Suc 0) = Inr 2"
  "ensure_runtime_dir sample_service ''/run/oxo/w.sock'' False = Inr (DirVerified ''/run/oxo'')"
  by (simp_all add: required_path_def svc_optional_path_def sample_env_reads worker_socket_paths_def sample_strings unwrap_or_def
      utf8_str_def svc_env_usize_def svc_parsed_env_def parse_two ensure_runtime_dir_def path_exists_def sample_stat upt_rec)

lemma sample_started:
  "\<exists>conf. service_from_cli sample_service service_cli = Inr (conf, DirVerified ''/run/oxo'') \<and>
     sf_worker_sockets conf = [''/run/oxo/w-0.sock'', ''/run/oxo/w-1.sock''] \<and> sf_edge_args conf = to_edge_args sample_child \<and>
     sf_drain_grace conf = 5000 \<and> sf_edge_drain_grace conf = 2000 \<and> sf_worker_drain_wait conf = 1000 \<and>
     sf_worker_launch conf = LaunchClassic \<and> sf_worker_bin conf = Some ''/opt/oxo-worker'' \<and> sf_cable_bin conf = None \<and>
     sf_grpc_bin conf = None \<and> sf_acme_renew conf = None \<and> sf_edge_bind conf = SockV4 0x7F000001 80 \<and>
     sf_worker_env conf \<noteq> []"
proof -
  have "\<exists>envs. resolve_worker_env sample_service LaunchClassic ''/run/oxo/w.sock'' = Inr envs \<and> envs \<noteq> []"
    by (simp add: resolve_worker_env_def collect_worker_env_def push_required_env_def svc_optional_path_def sample_env_reads
        apply_env_allowlist_def sample_env_absent push_env_value_def)
  then obtain envs where env: "resolve_worker_env sample_service LaunchClassic ''/run/oxo/w.sock'' = Inr envs" "envs \<noteq> []" by blast
  have launch: "read_worker_launch sample_service = Inr LaunchClassic"
    by (simp add: read_worker_launch_def sample_env_absent)
  have sat: "saturating_add (2000 :: u64) 999 div 1000 = 2" by (simp add: saturating_add_def)
  have grace: "resolve_edge_drain_grace (se_env sample_service) service_cli = Inr (2000, 2000)"
    by (simp add: resolve_edge_drain_grace_def service_cli_def default_cli_def sample_env_absent DEFAULT_EDGE_DRAIN_GRACE_def sat)
  have bind: "resolve_edge_bind (se_env sample_service) service_cli = Inr (SockV4 0x7F000001 80)"
    by (simp add: resolve_edge_bind_def service_cli_def default_cli_def)
  have check: "ec_check_config service_cli = False" by (simp add: service_cli_def default_cli_def)
  show ?thesis
    by (simp add: service_from_cli_def sample_env_absent launch resolve_worker_bin_def sample_bins sample_sockets check
        read_worker_ready_timeout_def read_nonzero_duration_ms_def read_worker_respawn_ready_timeout_def
        read_worker_drain_wait_def validate_frame_pool_idle_env_def validate_edge_pool_env_def bind resolve_cable_def
        resolve_grpc_def resolve_sidecar_def env env_duration_ms_def grace validate_drain_grace_hierarchy_def
        DEFAULT_DRAIN_GRACE_def SIDECAR_DRAIN_WAIT_def WORKER_DRAIN_WAIT_def collect_edge_args_def sample_child_cli
        resolve_acme_renew_def sample_stat read_acme_renew_config_def)
qed

section \<open>Every worker's socket is in the checked directory\<close>

lemma split_on_app: "c \<notin> set w \<Longrightarrow> split_on c (w @ c # r) = w # split_on c r"
  by (induction w) auto

lemma split_on_none: "c \<notin> set w \<Longrightarrow> split_on c w = [w]"
  by (induction w) auto

lemma split_on_pieces_joined:
  "\<forall>w \<in> set ws. c \<notin> set w \<Longrightarrow> c \<notin> set h \<Longrightarrow> split_on c (h @ concat (map ((#) c) ws)) = h # ws"
proof (induction ws arbitrary: h)
  case (Cons w ws)
  then have "split_on c (h @ c # (w @ concat (map ((#) c) ws))) = h # split_on c (w @ concat (map ((#) c) ws))"
    by (intro split_on_app) auto
  with Cons show ?case by simp
qed (simp add: split_on_none)

lemma trim_components_props:
  "trim_components (trim_components ps) = trim_components ps"
  "set (trim_components ps) \<subseteq> set ps"
  "trim_components ps \<noteq> [] \<Longrightarrow> \<not> no_component (last (trim_components ps))"
  "\<not> no_component p \<Longrightarrow> trim_components (ps @ [p]) = ps @ [p]"
proof -
  show "trim_components ps \<noteq> [] \<Longrightarrow> \<not> no_component (last (trim_components ps))"
    unfolding trim_components_def last_rev by (rule hd_dropWhile) simp
qed (auto simp: trim_components_def dest: set_dropWhileD)

text \<open>A file name put into the directory that \<open>Path::parent\<close> found is in that directory.\<close>

definition plain_name :: "string \<Rightarrow> bool" where
  "plain_name s \<longleftrightarrow> CHR ''/'' \<notin> set s \<and> \<not> no_component s"

lemma joined_ends:
  assumes "\<forall>w \<in> set qs. CHR ''/'' \<notin> set w" and "qs \<noteq> []" and "\<not> no_component (last qs)"
  shows "last (h @ concat (map ((#) (CHR ''/'')) qs)) \<noteq> CHR ''/''"
proof -
  from assms(2) obtain rs q where q: "qs = rs @ [q]" by (metis rev_exhaust)
  with assms have "q \<noteq> []" "CHR ''/'' \<notin> set q" by (auto simp: no_component_def)
  then have "last (h @ concat (map ((#) (CHR ''/'')) qs)) = last q" by (simp add: q)
  with \<open>q \<noteq> []\<close> \<open>CHR ''/'' \<notin> set q\<close> show ?thesis using last_in_set [of q] by metis
qed

lemma directory_pieces:
  "\<forall>w \<in> set (trim_components (butlast (trim_components (tl (split_on (CHR ''/'') p))))). CHR ''/'' \<notin> set w"
proof
  fix w assume "w \<in> set (trim_components (butlast (trim_components (tl (split_on (CHR ''/'') p)))))"
  then have "w \<in> set (split_on (CHR ''/'') p)"
    by (meson in_set_butlastD list.set_sel(2) split_on_nonempty subsetD trim_components_props(2))
  then show "CHR ''/'' \<notin> set w" by (rule split_on_pieces)
qed

lemma relative_parent:
  assumes "g \<noteq> []" "CHR ''/'' \<notin> set g" "\<forall>w \<in> set rs. CHR ''/'' \<notin> set w" "trim_components rs = rs"
  shows "os_parent (g @ concat (map ((#) (CHR ''/'')) rs)) =
      (if rs = [] then Some [] else Some (join_pieces (g # trim_components (butlast rs))))"
proof -
  have "\<not> is_absolute (g @ concat (map ((#) (CHR ''/'')) rs))" using assms by (cases g) (auto simp: is_absolute_def starts_with_def)
  moreover have "relative_pieces (g @ concat (map ((#) (CHR ''/'')) rs)) = g # rs"
    using assms split_on_pieces_joined [of rs "CHR ''/''" g] by (simp add: relative_pieces_def)
  ultimately show ?thesis using assms by (simp add: os_parent_def)
qed

lemma parent_join_absolute:
  assumes "is_absolute p" and "path_parent p = Some parent" and "plain_name name"
  shows "os_parent (path_join parent name) = Some parent" and "starts_with parent ''/''"
proof -
  define qs where "qs = trim_components (butlast (trim_components (tl (split_on (CHR ''/'') p))))"
  have parent: "parent = join_path qs" using assms(2) by (auto simp: path_parent_def qs_def Let_def split: if_splits)
  have qs: "\<forall>w \<in> set qs. CHR ''/'' \<notin> set w" unfolding qs_def by (rule directory_pieces)
  have trimmed: "trim_components qs = qs" unfolding qs_def by (rule trim_components_props(1))
  have joined: "path_join parent name = concat (map ((#) (CHR ''/'')) (qs @ [name]))"
    using joined_ends [OF qs, of "[]"] trim_components_props(3) [of qs] assms(3) trimmed
    by (auto simp: parent join_path_def path_join_def plain_name_def starts_with_append)
  have "split_on (CHR ''/'') (path_join parent name) = [] # qs @ [name]"
    unfolding joined using split_on_pieces_joined [of "qs @ [name]" "CHR ''/''" "[]"] qs assms(3) by (simp add: plain_name_def)
  moreover have "is_absolute (path_join parent name)"
    unfolding joined by (cases qs) (auto simp: is_absolute_def starts_with_def)
  ultimately show "os_parent (path_join parent name) = Some parent"
    using assms(3) by (simp add: os_parent_def path_parent_def Let_def trim_components_props(4) plain_name_def trimmed parent)
  show "starts_with parent ''/''" by (cases qs) (simp_all add: parent join_path_def starts_with_def)
qed

lemma parent_join_relative:
  assumes "\<not> is_absolute p" and "os_parent p = Some parent" and "plain_name name"
  shows "os_parent (path_join parent name) = Some parent"
proof -
  define h where "h = hd (split_on (CHR ''/'') p)"
  define ts where "ts = trim_components (tl (split_on (CHR ''/'') p))"
  define qs where "qs = trim_components (butlast ts)"
  have pieces: "relative_pieces p = h # ts" by (simp add: relative_pieces_def h_def ts_def Let_def)
  have name: "CHR ''/'' \<notin> set name" "name \<noteq> []" using assms(3) by (auto simp: plain_name_def no_component_def)
  show ?thesis
  proof (cases "ts = []")
    case True
    then have "parent = []" using assms(1,2) pieces by (auto simp: os_parent_def Let_def split: if_splits)
    then show ?thesis using relative_parent [of name "[]"] name by (auto simp: path_join_def starts_with_append trim_components_def)
  next
    case False
    then have parent: "parent = h @ concat (map ((#) (CHR ''/'')) qs)"
      using assms(1,2) pieces by (auto simp: os_parent_def join_pieces_def qs_def)
    have slash: "CHR ''/'' \<notin> set h" unfolding h_def by (rule split_on_pieces [of _ _ p]) (simp add: hd_in_set)
    have "h \<noteq> []" using False assms(1) unfolding h_def ts_def is_absolute_def
      by (cases p) (auto simp: starts_with_def trim_components_def split: list.splits if_splits)
    have qs: "\<forall>w \<in> set qs. CHR ''/'' \<notin> set w" unfolding qs_def ts_def by (rule directory_pieces)
    have "last parent \<noteq> CHR ''/''" "parent \<noteq> []"
      using joined_ends [OF qs, of h] trim_components_props(3) [of "butlast ts"] slash \<open>h \<noteq> []\<close>
      by (cases "qs = []"; auto simp: parent qs_def dest: last_in_set)+
    then have "path_join parent name = h @ concat (map ((#) (CHR ''/'')) (qs @ [name]))"
      using name by (auto simp: path_join_def starts_with_append parent)
    moreover have "trim_components qs = qs" unfolding qs_def by (rule trim_components_props(1))
    ultimately show ?thesis
      using relative_parent [of h "qs @ [name]"] \<open>h \<noteq> []\<close> slash qs assms(3)
      by (simp add: plain_name_def trim_components_props(4) join_pieces_def parent)
  qed
qed

lemma parent_join: "os_parent p = Some parent \<Longrightarrow> plain_name name \<Longrightarrow> os_parent (path_join parent name) = Some parent"
  using parent_join_absolute parent_join_relative by (cases "is_absolute p") (auto simp: os_parent_def)

lemma component_plain:
  assumes "file_name p = Some s"
  shows "CHR ''/'' \<notin> set s"
proof -
  have "last (path_components p) = s" "path_components p \<noteq> []" "s \<noteq> ''/''"
    using assms by (auto simp: file_name_def Let_def split: if_splits)
  then have "s \<in> set (path_components p)" by auto
  then have "s \<in> set (split_on (CHR ''/'') p)"
    using \<open>s \<noteq> ''/''\<close> hd_in_set [OF split_on_nonempty] list.set_sel(2) [OF split_on_nonempty]
    by (fastforce simp: path_components_def Let_def split: if_splits)
  then show ?thesis by (rule split_on_pieces)
qed

lemma rsplit_plain: "rsplit_once c name = Some (before, after) \<Longrightarrow> set before \<subseteq> set name \<and> set after \<subseteq> set name"
  by (auto simp: rsplit_once_Some)

lemma stem_extension_plain:
  "file_stem p = Some s \<Longrightarrow> CHR ''/'' \<notin> set s" "extension p = Some e \<Longrightarrow> CHR ''/'' \<notin> set e"
proof -
  assume "file_stem p = Some s"
  then obtain name where name: "file_name p = Some name"
    and s: "s = (case rsplit_once (CHR ''.'') name of None \<Rightarrow> name | Some (b, a) \<Rightarrow> if b = [] then name else b)"
    by (auto simp: file_stem_def)
  then have "set s \<subseteq> set name" using rsplit_plain [of "CHR ''.''" name] by (auto split: option.splits prod.splits if_splits)
  with component_plain [OF name] show "CHR ''/'' \<notin> set s" by blast
next
  assume "extension p = Some e"
  then obtain name where name: "file_name p = Some name"
    and e: "(case rsplit_once (CHR ''.'') name of None \<Rightarrow> None | Some (b, a) \<Rightarrow> if b = [] then None else Some a) = Some e"
    unfolding extension_def by (cases "file_name p") simp_all
  then have "set e \<subseteq> set name" using rsplit_plain [of "CHR ''.''" name] by (simp split: option.splits prod.splits if_splits)
  with component_plain [OF name] show "CHR ''/'' \<notin> set e" by blast
qed

lemma worker_socket_name_plain:
  assumes "CHR ''/'' \<notin> set stem" and "pred_option (\<lambda>e. CHR ''/'' \<notin> set e) ext"
  shows "plain_name (worker_socket_name stem ext wid)"
proof -
  have "CHR ''/'' \<notin> set (to_string wid)"
  proof
    assume "CHR ''/'' \<in> set (to_string wid)"
    then have "is_ascii_digit (byte (CHR ''/''))" using to_string_digits [of wid] by (auto simp: list_all_iff)
    then show False by (simp add: is_ascii_digit_def byte_def)
  qed
  moreover have "worker_socket_name stem ext wid \<noteq> ''.''" "worker_socket_name stem ext wid \<noteq> []"
    by (auto simp: worker_socket_name_def append_eq_Cons_conv split: option.splits)
  ultimately show ?thesis
    using assms by (auto simp: plain_name_def no_component_def worker_socket_name_def split: option.splits)
qed

lemma worker_socket_name_inj:
  assumes "worker_socket_name stem ext i = worker_socket_name stem ext j"
  shows "i = j"
proof -
  have "to_string i = to_string j"
    using assms by (simp add: worker_socket_name_def del: to_string.simps split: option.splits if_splits)
  then have "digits_value 0 (to_string i) = digits_value 0 (to_string j)" by (rule arg_cong)
  then show ?thesis by (simp only: to_string_value)
qed

lemma path_join_inj:
  "plain_name a \<Longrightarrow> plain_name b \<Longrightarrow> path_join p a = path_join p b \<Longrightarrow> a = b"
  by (auto simp: path_join_def plain_name_def starts_with_append split: if_splits)

lemma worker_sockets_spread:
  assumes "worker_socket_paths base n = Inr sockets" and "os_parent base = Some parent"
  shows "length sockets = n \<and> distinct sockets \<and> (\<forall>s \<in> set sockets. os_parent s = Some parent)"
proof (cases "n = 1")
  case False
  define stem where "stem = unwrap_or (Option.bind (utf8_str (file_stem base)) (\<lambda>s. if s = [] then None else Some s)) ''worker''"
  define ext where "ext = utf8_str (extension base)"
  have sockets: "sockets = map (\<lambda>wid. path_join parent (worker_socket_name stem ext wid)) [0..<n]"
    using assms False by (simp add: worker_socket_paths_def Let_def stem_def ext_def)
  have "CHR ''/'' \<notin> set stem" "pred_option (\<lambda>e. CHR ''/'' \<notin> set e) ext"
    using stem_extension_plain
    by (auto simp: stem_def ext_def unwrap_or_def utf8_str_def pred_option_def split: option.splits Option.bind_splits if_splits)
  then have plain: "plain_name (worker_socket_name stem ext wid)" for wid by (rule worker_socket_name_plain)
  then have "distinct sockets"
    unfolding sockets distinct_map using path_join_inj worker_socket_name_inj by (auto intro!: inj_onI) blast
  then show ?thesis using sockets plain parent_join [OF assms(2)] by auto
qed (use assms in \<open>auto simp: worker_socket_paths_def\<close>)

text \<open>What \<open>ensure_runtime_dir\<close> leaves behind for a real start: a directory closed to group and others.\<close>

definition dir_closed :: "service_env \<Rightarrow> dir_effect \<Rightarrow> bool" where
  "dir_closed se eff =
     (case eff of
        DirVerified dir \<Rightarrow> (\<exists>md. se_stat se dir = Inr md \<and> md_file_type md = FtDir \<and> md_mode md AND 0x3F = 0)
      | DirCreated dir \<Rightarrow> \<not> path_exists se dir \<and> se_create_dir se dir = Inr () \<and> se_chmod se dir 0x1C0 = Inr ()
      | DirDeferred _ \<Rightarrow> False)"

fun effect_dir :: "dir_effect \<Rightarrow> path" where
  "effect_dir (DirVerified dir) = dir"
| "effect_dir (DirCreated dir) = dir"
| "effect_dir (DirDeferred dir) = dir"

lemma mode_bits: "(m AND 0x1FF) AND 0x3F = (m AND 0x3F :: u32)"
  by (simp add: and.assoc)

lemma ensured_runtime_dir:
  assumes "ensure_runtime_dir se socket check = Inr eff"
  shows "os_parent socket = Some (effect_dir eff)" and "effect_dir eff \<noteq> []"
    and "if check \<and> \<not> path_exists se (effect_dir eff) then eff = DirDeferred (effect_dir eff) else dir_closed se eff"
  using assms
  by (auto simp: ensure_runtime_dir_def and_then_eq_Inr ok_or_eq_Inr map_err_eq_Inr Let_def invalid_env_def dir_closed_def
      mode_bits split: if_splits Option.bind_splits)

text \<open>
  C20: Worker sockets are private: when the service starts for real it has one socket path per worker, no two
  are the same, and all of them are in one directory, the parent of \<open>OXO_WORKER_SOCKET\<close>, which is
  either an existing directory with no permission for group or others or one the service just
  made and restricted to mode 0700.
\<close>
theorem worker_sockets_private:
  assumes "service_from_cli se cli = Inr (conf, eff)" and "\<not> ec_check_config cli"
  shows "length (sf_worker_sockets conf) = sf_worker_count conf \<and> 0 < sf_worker_count conf \<and>
    distinct (sf_worker_sockets conf) \<and>
    (\<forall>s \<in> set (sf_worker_sockets conf). os_parent s = Some (effect_dir eff)) \<and> dir_closed se eff"
proof -
  note dir = ensured_runtime_dir [OF service_from_cli_facts(9) [OF assms(1)]]
  have "dir_closed se eff" using dir(3) assms(2) by simp
  moreover note worker_sockets_spread [OF service_from_cli_facts(7) [OF assms(1)] dir(1)]
  moreover note service_from_cli_facts(8) [OF assms(1)]
  ultimately show ?thesis by simp
qed

theorem worker_sockets_private_witness:
  "\<exists>conf. service_from_cli sample_service service_cli = Inr (conf, DirVerified ''/run/oxo'') \<and>
     (\<forall>s \<in> set (sf_worker_sockets conf). os_parent s = Some ''/run/oxo'') \<and> distinct (sf_worker_sockets conf)"
proof -
  obtain conf where "service_from_cli sample_service service_cli = Inr (conf, DirVerified ''/run/oxo'')"
    using sample_started by blast
  moreover have "\<not> ec_check_config service_cli" by (simp add: service_cli_def default_cli_def)
  ultimately show ?thesis using worker_sockets_private [of sample_service service_cli conf "DirVerified ''/run/oxo''"] by auto
qed

section \<open>Isolation of the children\<close>

text \<open>
  C17: Each child gets its own part of the environment: no entry that the service puts into a worker's, the
  Action Cable child's or the gRPC child's environment has an edge-only name, and each is either
  one of the five values the service sets itself or what the service's own environment holds
  under that name; the edge's environment has at most the five names of its settings, none of which
  holds a secret, so no application credential reaches the process that faces the network.
\<close>
theorem child_env_isolation:
  assumes "service_from_cli se cli = Inr (conf, eff)"
  shows "(\<forall>(n, v) \<in> set (sf_worker_env conf @ sf_cable_env conf @ sf_grpc_env conf).
      \<not> is_edge_only_env_name n \<and> (n \<in> set service_set_names \<or> se_env se n = Some v)) \<and>
    (\<forall>(n, v) \<in> set (sf_edge_env conf). n \<in> set edge_child_names \<and> \<not> is_sensitive_env_name n)"
proof -
  have "list_all (child_entry_ok (se_env se) service_set_names) (sf_worker_env conf @ sf_cable_env conf @ sf_grpc_env conf)"
    using worker_env_ok [OF service_from_cli_facts(1) [OF assms]] service_sidecars(1,2) [OF assms] by simp
  then have "\<forall>(n, v) \<in> set (sf_worker_env conf @ sf_cable_env conf @ sf_grpc_env conf).
      \<not> is_edge_only_env_name n \<and> (n \<in> set service_set_names \<or> se_env se n = Some v)"
    unfolding list_all_iff child_entry_ok_def case_prod_unfold by blast
  moreover have "\<forall>(n, v) \<in> set (sf_edge_env conf). n \<in> set edge_child_names \<and> \<not> is_sensitive_env_name n"
    unfolding service_from_cli_facts(4) [OF assms] using edge_env_names edge_names_plain by blast
  ultimately show ?thesis by blast
qed

theorem child_env_isolation_witness:
  "\<exists>conf. service_from_cli sample_service service_cli = Inr (conf, DirVerified ''/run/oxo'') \<and> sf_worker_env conf \<noteq> [] \<and>
     (\<forall>(n, v) \<in> set (sf_worker_env conf). \<not> is_edge_only_env_name n) \<and>
     (\<forall>(n, v) \<in> set (sf_edge_env conf). \<not> is_sensitive_env_name n)"
proof -
  obtain conf where conf: "service_from_cli sample_service service_cli = Inr (conf, DirVerified ''/run/oxo'')" "sf_worker_env conf \<noteq> []"
    using sample_started by blast
  from child_env_isolation [OF conf(1)] have "\<forall>(n, v) \<in> set (sf_worker_env conf). \<not> is_edge_only_env_name n"
    "\<forall>(n, v) \<in> set (sf_edge_env conf). \<not> is_sensitive_env_name n" by auto
  with conf show ?thesis by blast
qed

text \<open>Two environments that look the same in the log: the same names, and the same values are empty.\<close>

definition same_log_shape :: "child_env \<Rightarrow> child_env \<Rightarrow> bool" where
  "same_log_shape xs ys \<longleftrightarrow> map fst xs = map fst ys \<and> map (\<lambda>e. snd e = []) xs = map (\<lambda>e. snd e = []) ys"

lemma path_display_empty: "path_display v = [] \<longleftrightarrow> v = []"
proof (cases v)
  case (Cons c r)
  have "lossy_bytes (as_bytes (c # r)) \<noteq> []"
    by (auto simp: as_bytes_def replacement_def split: list.splits)
  with Cons show ?thesis by (simp add: path_display_def)
qed (simp add: path_display_def as_bytes_def)

lemma redacted_same:
  assumes "same_log_shape xs ys"
  shows "map (\<lambda>(n, v). let name = path_display n in name @ ''='' @ redacted_env_value name v) xs =
    map (\<lambda>(n, v). let name = path_display n in name @ ''='' @ redacted_env_value name v) ys"
proof -
  have "length xs = length ys" using assms by (metis length_map same_log_shape_def)
  then show ?thesis using assms
    by (induction xs ys rule: list_induct2)
      (auto simp: same_log_shape_def redacted_env_value_def path_display_empty)
qed

text \<open>
  The contract line in the log leaks no value: the summary the service prints of a child's
  environment is a function of the names and of which values are empty, so two environments that
  agree on those, whatever their passwords and tokens, print the same line.
\<close>
theorem log_hides_values:
  assumes "same_log_shape xs ys"
  shows "redacted_env_summary xs = redacted_env_summary ys"
  unfolding redacted_env_summary_def redacted_same [OF assms] ..

theorem log_hides_values_witness:
  "redacted_env_summary [(''SECRET_KEY_BASE'', ''s3''), (''PATH'', [])] =
     redacted_env_summary [(''SECRET_KEY_BASE'', ''other''), (''PATH'', [])]"
  by (rule log_hides_values) (simp add: same_log_shape_def)

section \<open>The edge child reads back what the service resolved\<close>

lemma svc_reads_printable: "svc_string_env env name = Inr v \<Longrightarrow> pred_option str_ok v"
  by (cases v) (auto simp: svc_string_env_Some str_ok_def)

lemma cli_else_printable:
  "cli_else cli_value (svc_string_env env name) = Inr v \<Longrightarrow> pred_option str_ok cli_value \<Longrightarrow> pred_option str_ok v"
  by (auto simp: cli_else_def and_then_eq_Inr or_else_def dest: svc_reads_printable split: option.splits)

lemma trimmed_parts_printable:
  assumes "byte sep < 0x80" and "rust_str raw"
  shows "list_all str_ok (trimmed_parts sep raw)"
  using split_on_rust_str [OF assms] by (auto simp: trimmed_parts_def list_all_iff str_ok_def trim_rust_str)

lemma list_else_printable:
  assumes "list_else cli_value env name sep = Inr v" and "list_all str_ok cli_value" and "byte sep < 0x80"
  shows "list_all str_ok v"
  using assms trimmed_parts_printable [OF assms(3)]
  by (auto simp: list_else_def and_then_eq_Inr svc_string_env_Some split: if_splits option.splits)

lemma separators: "byte (CHR '','') < 0x80" "byte (CHR '';'') < 0x80"
  by (simp_all add: byte_def)

text \<open>The string settings of a configuration, and its socket addresses: the two halves of \<open>printable\<close>.\<close>

definition texts_ok :: "edge_cli_config \<Rightarrow> bool" where
  "texts_ok c \<longleftrightarrow>
     list_all (pred_option str_ok) [ec_fqdn c, ec_acme_directory_url c, ec_public_mode c, ec_public_identity c, ec_request_log c,
       ec_worker_hop c, ec_worker_dispatch c] \<and>
     list_all (list_all str_ok) [ec_acme_contacts c, ec_trusted_proxy_cidrs c, ec_static_mounts c]"

definition sockets_ok :: "edge_cli_config \<Rightarrow> bool" where
  "sockets_ok c \<longleftrightarrow>
     list_all (pred_option sock_ok) [ec_http_bind c, ec_https_bind c, ec_admin_bind c, ec_action_cable_bind c, ec_grpc_bind c]"

lemma printable_halves: "printable c \<longleftrightarrow> texts_ok c \<and> sockets_ok c"
  by (auto simp: printable_def texts_ok_def sockets_ok_def)

lemma child_listener_texts:
  assumes "child_listener env cli bind c = Inr d" and "texts_ok cli" and "texts_ok c"
  shows "texts_ok d"
proof -
  have fqdn: "cli_else (ec_fqdn cli) (svc_string_env env name) = Inr v \<Longrightarrow> pred_option str_ok v" for name v
    using assms(2) by (auto simp: texts_ok_def elim: cli_else_printable)
  from assms(1,3) show ?thesis
    unfolding child_listener_def Let_def
    by (elim and_then_InrE) (auto simp: texts_ok_def dest!: fqdn split: if_splits elim!: and_then_InrE)
qed

lemma child_acme_texts:
  assumes "child_acme env cli c = Inr d" and "texts_ok cli" and "texts_ok c"
  shows "texts_ok d"
  using assms unfolding child_acme_def
  by (elim and_then_InrE) (clarsimp simp: texts_ok_def, blast intro: cli_else_printable list_else_printable separators)

lemma child_venues_texts:
  assumes "child_venues env cli c = Inr d" and "texts_ok cli" and "texts_ok c"
  shows "texts_ok d"
  using assms unfolding child_venues_def
  by (elim and_then_InrE) (clarsimp simp: texts_ok_def, blast intro: cli_else_printable)

lemma child_serving_texts:
  assumes "child_serving env cli c = Inr d" and "texts_ok cli" and "texts_ok c"
  shows "texts_ok d"
  using assms unfolding child_serving_def
  by (elim and_then_InrE) (clarsimp simp: texts_ok_def, blast intro: cli_else_printable list_else_printable separators)

lemma child_limits_texts:
  assumes "child_limits env cli c = Inr d" and "texts_ok cli" and "texts_ok c"
  shows "texts_ok d"
  using assms unfolding child_limits_def
  by (elim and_then_InrE) (clarsimp simp: texts_ok_def, blast intro: list_else_printable separators)

lemma resolve_child_cliE:
  assumes "resolve_child_cli env sockets bind cli grace = Inr c"
  obtains c1 c2 c3 c4 where
    "child_listener env cli bind (default_cli\<lparr>ec_worker_sockets := sockets, ec_drain_grace_ms := Some grace\<rparr>) = Inr c1"
    "child_acme env cli c1 = Inr c2" "child_venues env cli c2 = Inr c3" "child_serving env cli c3 = Inr c4"
    "child_limits env cli c4 = Inr c"
    "\<not> (ec_public_mode c \<noteq> None \<and> ec_trusted_proxy_cidrs c \<noteq> [] \<and> ec_public_identity c \<noteq> Some ''trusted-proxy'')"
  using assms unfolding resolve_child_cli_def by (elim and_then_InrE guard_InrE) simp

lemma child_texts:
  assumes "resolve_child_cli env sockets bind cli grace = Inr c" and "texts_ok cli"
  shows "texts_ok c"
proof -
  have "texts_ok (default_cli\<lparr>ec_worker_sockets := sockets, ec_drain_grace_ms := Some grace\<rparr>)"
    by (simp add: texts_ok_def default_cli_def)
  with assms show ?thesis
    by (elim resolve_child_cliE)
      (blast intro: child_listener_texts child_acme_texts child_venues_texts child_serving_texts child_limits_texts)
qed

text \<open>The fields that only the service decides.\<close>

definition service_fields where
  "service_fields c =
     (ec_worker_sockets c, ec_drain_grace_ms c, ec_worker_dispatch c, ec_worker_cap c, ec_acme_allow_production_directory c,
      ec_check_config c)"

lemma later_groups_keep:
  "child_acme env cli c = Inr d \<Longrightarrow> service_fields d = service_fields c \<and> ec_http_bind d = ec_http_bind c \<and> ec_https_bind d = ec_https_bind c"
  "child_venues env cli c = Inr d \<Longrightarrow> service_fields d = service_fields c \<and> ec_http_bind d = ec_http_bind c \<and> ec_https_bind d = ec_https_bind c"
  "child_serving env cli c = Inr d \<Longrightarrow> service_fields d = service_fields c \<and> ec_http_bind d = ec_http_bind c \<and> ec_https_bind d = ec_https_bind c"
  "child_limits env cli c = Inr d \<Longrightarrow> service_fields d = service_fields c \<and> ec_http_bind d = ec_http_bind c \<and> ec_https_bind d = ec_https_bind c"
  unfolding child_acme_def child_venues_def child_serving_def child_limits_def
  by (elim and_then_InrE, clarsimp simp: service_fields_def)+

lemma child_listener_binds:
  assumes "child_listener env cli bind c = Inr d" and "edge_uses_tls env cli = Inr tls"
  shows "service_fields d = service_fields c \<and> ec_http_bind d = (if tls then ec_http_bind c else Some bind) \<and>
    ec_https_bind d = (if tls then Some bind else ec_https_bind c)"
  using assms unfolding child_listener_def Let_def
  by (elim and_then_InrE) (auto simp: service_fields_def split: if_splits elim!: and_then_InrE)

lemma child_fields:
  assumes "resolve_child_cli env sockets bind cli grace = Inr c"
  shows "service_fields c = (sockets, Some grace, None, None, False, False)"
    and "\<exists>tls. edge_uses_tls env cli = Inr tls \<and> ec_http_bind c = (if tls then None else Some bind) \<and>
      ec_https_bind c = (if tls then Some bind else None)"
proof -
  obtain c1 c2 c3 c4 where groups:
    "child_listener env cli bind (default_cli\<lparr>ec_worker_sockets := sockets, ec_drain_grace_ms := Some grace\<rparr>) = Inr c1"
    "child_acme env cli c1 = Inr c2" "child_venues env cli c2 = Inr c3" "child_serving env cli c3 = Inr c4"
    "child_limits env cli c4 = Inr c" using assms by (rule resolve_child_cliE)
  obtain tls where tls: "edge_uses_tls env cli = Inr tls"
    using groups(1) unfolding child_listener_def by (elim and_then_InrE) blast
  note keep = child_listener_binds [OF groups(1) tls] later_groups_keep(1) [OF groups(2)] later_groups_keep(2) [OF groups(3)]
    later_groups_keep(3) [OF groups(4)] later_groups_keep(4) [OF groups(5)]
  show "service_fields c = (sockets, Some grace, None, None, False, False)"
    using keep by (simp add: service_fields_def default_cli_def)
  show "\<exists>tls. edge_uses_tls env cli = Inr tls \<and> ec_http_bind c = (if tls then None else Some bind) \<and>
      ec_https_bind c = (if tls then Some bind else None)"
    using keep tls by (simp add: default_cli_def)
qed

text \<open>
  C18: The edge child starts with exactly the settings the service resolved: its argument list parses
  back to the resolved configuration (when the socket addresses have a textual form, which every
  IPv4 address has), in which the workers are the service's own sockets, the application listener
  is the bind the service waits on, on one of the two schemes only, and no dry run is requested.
  The string settings may come from the command line or from any UTF-8 environment value, whole or
  split and trimmed.
\<close>
theorem edge_child_settings:
  assumes "service_from_cli se cli = Inr (conf, eff)" and "texts_ok cli"
  shows "\<exists>c grace. resolve_child_cli (se_env se) (sf_worker_sockets conf) (sf_edge_bind conf) cli grace = Inr c \<and>
    (sockets_ok c \<longrightarrow> parse_from_args (sf_edge_bin conf # sf_edge_args conf) = Inr c) \<and>
    ec_worker_sockets c = sf_worker_sockets conf \<and> ec_drain_grace_ms c = Some grace \<and> \<not> ec_check_config c \<and>
    (ec_http_bind c, ec_https_bind c) \<in> {(Some (sf_edge_bind conf), None), (None, Some (sf_edge_bind conf))}"
proof -
  obtain grace c where c: "resolve_child_cli (se_env se) (sf_worker_sockets conf) (sf_edge_bind conf) cli grace = Inr c"
    and args: "sf_edge_args conf = to_edge_args c"
    using service_from_cli_facts(5) [OF assms(1)] by (auto simp: collect_edge_args_def and_then_eq_Inr)
  have "texts_ok c" by (rule child_texts [OF c assms(2)])
  then have "sockets_ok c \<longrightarrow> parse_from_args (sf_edge_bin conf # sf_edge_args conf) = Inr c"
    unfolding args by (simp add: parse_edge_args printable_halves)
  moreover from child_fields(2) [OF c]
  have "(ec_http_bind c, ec_https_bind c) \<in> {(Some (sf_edge_bind conf), None), (None, Some (sf_edge_bind conf))}" by auto
  ultimately show ?thesis using c child_fields(1) [OF c] by (auto simp: service_fields_def)
qed

theorem edge_child_settings_witness:
  "\<exists>conf c. service_from_cli sample_service service_cli = Inr (conf, DirVerified ''/run/oxo'') \<and>
     parse_from_args (sf_edge_bin conf # sf_edge_args conf) = Inr c \<and> ec_worker_sockets c = sf_worker_sockets conf"
proof -
  obtain conf where conf: "service_from_cli sample_service service_cli = Inr (conf, DirVerified ''/run/oxo'')"
    and args: "sf_edge_args conf = to_edge_args sample_child" "sf_worker_sockets conf = [''/run/oxo/w-0.sock'', ''/run/oxo/w-1.sock'']"
    "sf_edge_bind conf = SockV4 0x7F000001 80"
    using sample_started by blast
  have "texts_ok service_cli" by (simp add: texts_ok_def service_cli_def default_cli_def)
  from edge_child_settings [OF conf this] obtain c grace where
    c: "resolve_child_cli (se_env sample_service) (sf_worker_sockets conf) (sf_edge_bind conf) service_cli grace = Inr c"
    and parse: "sockets_ok c \<longrightarrow> parse_from_args (sf_edge_bin conf # sf_edge_args conf) = Inr c"
    and sockets: "ec_worker_sockets c = sf_worker_sockets conf" by blast
  have "sockets_ok c" using c unfolding args
    by (auto simp: resolve_child_cli_def child_listener_def edge_uses_tls_def sample_env_absent cli_else_def or_else_def
        child_acme_def switch_else_def list_else_def child_venues_def child_serving_def child_limits_def unwrap_or_def
        service_cli_def default_cli_def sockets_ok_def sock_ok_v4)
  with conf parse sockets show ?thesis by blast
qed

text \<open>
  The settings that the child does not get: \<open>--worker-dispatch\<close>, \<open>--worker-cap\<close> and
  \<open>--acme-allow-production-directory\<close> are accepted on the service's command line, and no value of theirs
  reaches the edge.
\<close>

lemma child_ignores_worker_flags:
  assumes "resolve_child_cli env sockets bind cli grace = Inr c"
  shows "ec_worker_dispatch c = None \<and> ec_worker_cap c = None \<and> \<not> ec_acme_allow_production_directory c"
  using child_fields(1) [OF assms] by (simp add: service_fields_def)

lemma groups_ignore_worker_flags:
  "child_listener env (cli\<lparr>ec_worker_cap := cap, ec_worker_dispatch := dispatch\<rparr>) = child_listener env cli"
  "child_acme env (cli\<lparr>ec_worker_cap := cap, ec_worker_dispatch := dispatch\<rparr>) = child_acme env cli"
  "child_venues env (cli\<lparr>ec_worker_cap := cap, ec_worker_dispatch := dispatch\<rparr>) = child_venues env cli"
  "child_serving env (cli\<lparr>ec_worker_cap := cap, ec_worker_dispatch := dispatch\<rparr>) = child_serving env cli"
  "child_limits env (cli\<lparr>ec_worker_cap := cap, ec_worker_dispatch := dispatch\<rparr>) = child_limits env cli"
  by (simp_all add: fun_eq_iff child_listener_def child_acme_def child_venues_def child_serving_def child_limits_def
      edge_uses_tls_def Let_def cong: if_cong)

text \<open>
  A worker cap given on the service's command line is silently dropped: starting the service with any
  \<open>--worker-cap\<close> and any \<open>--worker-dispatch\<close> gives the edge child the same command line as starting it
  without them.
\<close>
theorem service_drops_worker_flags:
  "collect_edge_args env sockets bind (cli\<lparr>ec_worker_cap := cap, ec_worker_dispatch := dispatch\<rparr>) grace =
     collect_edge_args env sockets bind cli grace"
  unfolding collect_edge_args_def resolve_child_cli_def groups_ignore_worker_flags ..

section \<open>The stages of a drain fit into the service's grace\<close>

lemma svc_usize_bound: "svc_env_usize env name d = Inr n \<Longrightarrow> d \<le> U64_MAX \<Longrightarrow> n \<le> U64_MAX"
  by (auto simp: svc_env_usize_def svc_parsed_env_def and_then_eq_Inr unwrap_or_def invalid_env_def
      dest: parse_uint_bound split: option.splits)

lemma round_up_millis: "(n :: nat) \<le> 1000 * ((n + 999) div 1000)"
proof -
  have "(n + 999) div 1000 * 1000 + (n + 999) mod 1000 = n + 999" by (rule div_mult_mod_eq)
  moreover have "(n + 999) mod 1000 < 1000" by simp
  ultimately show ?thesis by linarith
qed

lemma edge_grace_rounds_up:
  assumes "1000 * unat (saturating_add n 999 div 1000) + 1150 < U64_MAX"
  shows "unat (n :: u64) \<le> 1000 * unat (saturating_add n 999 div 1000)"
proof -
  have word: "unat (saturating_add n 999 div 1000) = unat (saturating_add n 999) div 1000"
    by (simp add: unat_div)
  show ?thesis
  proof (cases "unat n + 999 < 2 ^ 64")
    case True
    then have "unat (saturating_add n 999) = unat n + 999"
      using unat_saturating_add [of n 999] by simp
    then show ?thesis unfolding word using round_up_millis [of "unat n"] by metis
  next
    case False
    then have "unat (saturating_add n 999) = 18446744073709551615"
      using unat_saturating_add [of n 999] by simp
    then show ?thesis using assms unfolding word by simp
  qed
qed

lemma nonzero_duration: "read_nonzero_duration_ms env name d = Inr n \<Longrightarrow> 0 < d \<Longrightarrow> 0 < n"
  unfolding read_nonzero_duration_ms_def
  by (elim and_then_InrE) (auto simp: invalid_env_def unat_gt_0 split: option.split_asm if_split_asm)

lemma worker_wait_bound: "read_worker_drain_wait env launch = Inr w \<Longrightarrow> 150 < w"
  unfolding read_worker_drain_wait_def
  by (cases "launch_is_async launch") (auto simp: WORKER_DRAIN_WAIT_def elim!: and_then_InrE dest!: nonzero_duration)

text \<open>
  The drain stages fit: for every accepted configuration the edge's stage, the sidecars' and the
  workers' together take less than the service's own grace, and the edge's stage, which the service
  rounds up to whole seconds with a saturating addition, is never shorter than the grace in
  milliseconds the edge child is started with (near the top of the 64-bit range, where the
  addition saturates and the rounding would shorten it, the configuration is refused).
\<close>
theorem drain_stages_fit:
  assumes "service_from_cli se cli = Inr (conf, eff)"
  shows "sf_edge_drain_grace conf + SIDECAR_DRAIN_WAIT + sf_worker_drain_wait conf < sf_drain_grace conf \<and>
    (\<exists>grace. collect_edge_args (se_env se) (sf_worker_sockets conf) (sf_edge_bind conf) cli grace = Inr (sf_edge_args conf) \<and>
       0 < grace \<and> unat grace \<le> sf_edge_drain_grace conf)"
proof -
  note facts = service_from_cli_facts [OF assms]
  have fits: "sf_edge_drain_grace conf + SIDECAR_DRAIN_WAIT + sf_worker_drain_wait conf < sf_drain_grace conf"
    using facts(6) by (auto simp: validate_drain_grace_hierarchy_def invalid_env_def split: if_splits)
  moreover have "sf_drain_grace conf \<le> U64_MAX"
    by (rule svc_usize_bound [OF facts(13) [unfolded env_duration_ms_def]]) (simp add: DEFAULT_DRAIN_GRACE_def)
  ultimately have "sf_edge_drain_grace conf + 1150 < U64_MAX"
    using worker_wait_bound [OF facts(10)] by (simp add: SIDECAR_DRAIN_WAIT_def)
  moreover obtain grace where grace: "resolve_edge_drain_grace (se_env se) cli = Inr (grace, sf_edge_drain_grace conf)"
    and args: "collect_edge_args (se_env se) (sf_worker_sockets conf) (sf_edge_bind conf) cli grace = Inr (sf_edge_args conf)"
    using facts(5) by blast
  moreover from grace have "grace \<noteq> 0" "sf_edge_drain_grace conf = 1000 * unat (saturating_add grace 999 div 1000)"
    by (auto simp: resolve_edge_drain_grace_def and_then_eq_Inr invalid_env_def split: if_splits)
  ultimately show ?thesis using fits edge_grace_rounds_up [of grace] by (auto simp: word_gt_0)
qed

theorem drain_stages_fit_witness:
  "\<exists>conf. service_from_cli sample_service service_cli = Inr (conf, DirVerified ''/run/oxo'') \<and>
     sf_edge_drain_grace conf + SIDECAR_DRAIN_WAIT + sf_worker_drain_wait conf < sf_drain_grace conf"
  using sample_started drain_stages_fit by blast

end
