(* ===== verification/Service_Lifecycle.thy ===== *)
theory Service_Lifecycle
  imports Service_Runner Service_Start
begin

text \<open>
  Who may be alive after each operation of the supervisor. The judgment \<open>settles w w' S\<close> says that only the
  children in \<open>S\<close> may still be running after a call; it is proved for every function from the spawn of one
  worker to a whole iteration of the monitor loop and to the boot of the service, together with how
  long a drain takes and which signals it sends.
\<close>

section \<open>Who may be alive\<close>

definition only_alive :: "world \<Rightarrow> pid set \<Rightarrow> bool" where
  "only_alive w S \<longleftrightarrow> (\<forall>pid. alive w pid \<longrightarrow> pid \<in> S)"

definition onward :: "world \<Rightarrow> world \<Rightarrow> bool" where
  "onward w w' \<longleftrightarrow> w_now w \<le> w_now w' \<and> w_signals w' = w_signals w \<and> w_wait_error w' = w_wait_error w"

lemma onward_refl [simp]: "onward w w"
  by (simp add: onward_def)

lemma onward_trans [trans]: "onward u v \<Longrightarrow> onward v w \<Longrightarrow> onward u w"
  by (simp add: onward_def)

lemma calms_onward: "calms w w' \<Longrightarrow> onward w w'"
  by (simp add: calms_def onward_def)

lemma onward_reliable: "onward w w' \<Longrightarrow> reliable w' = reliable w"
  by (simp add: onward_def reliable_def)

lemma only_alive_mono: "only_alive w S \<Longrightarrow> S \<subseteq> T \<Longrightarrow> only_alive w T"
  by (auto simp: only_alive_def)

lemma calms_only: "calms w w' \<Longrightarrow> only_alive w S \<Longrightarrow> only_alive w' S"
  by (auto simp: only_alive_def calms_def)

lemma calms_only_dead: "calms w w' \<Longrightarrow> only_alive w S \<Longrightarrow> \<not> alive w' pid \<Longrightarrow> S - {pid} \<subseteq> T \<Longrightarrow> only_alive w' T"
  by (auto simp: only_alive_def calms_def)

lemma terminate_child_only: "only_alive w S \<Longrightarrow> S - {pid} \<subseteq> T \<Longrightarrow> only_alive (terminate_child pid w) T"
  by (rule calms_only_dead [OF terminate_child_calms]) simp_all

lemma terminate_all_only: "only_alive w S \<Longrightarrow> S - set pids \<subseteq> T \<Longrightarrow> only_alive (terminate_all pids w) T"
  using terminate_all_dead terminate_all_calms by (fastforce simp: only_alive_def calms_def)

lemma spawn_only:
  assumes "spawn_command role cmd w = (r, w')" and "only_alive w S"
  shows "onward w w' \<and> only_alive w' (case r of Inr pid \<Rightarrow> insert pid S | Inl _ \<Rightarrow> S)"
proof (cases "w_spawn w (w_count w) (w_now w)")
  case (Inl message)
  then have r: "r = Inl (Spawn role (cmd_program cmd) message)" "w' = w\<lparr>w_count := Suc (w_count w)\<rparr>"
    using assms(1) by (auto simp: spawn_command_def)
  then have "alive w' = alive w" by (simp add: fun_eq_iff alive_def cong: option.case_cong)
  with r assms(2) show ?thesis by (simp add: only_alive_def onward_def)
next
  case (Inr pr)
  let ?w1 = "w\<lparr>w_count := Suc (w_count w), w_procs := (w_procs w)(w_count w \<mapsto> pr\<lparr>pr_term_at := None, pr_killed := False\<rparr>)\<rparr>"
  from Inr have r: "r = Inr (w_count w)" "w' = log (Launched (w_count w) cmd) ?w1"
    using assms(1) by (auto simp: spawn_command_def Let_def)
  have "alive ?w1 pid \<Longrightarrow> pid \<noteq> w_count w \<Longrightarrow> alive w pid" for pid
    by (simp add: alive_def cong: option.case_cong)
  then have "only_alive w' (insert (w_count w) S)" using assms(2) unfolding r(2) only_alive_def alive_log by blast
  moreover have "onward w w'" by (simp add: r(2) onward_def log_def)
  ultimately show ?thesis by (simp add: r(1))
qed

text \<open>The judgment on a call that ends in \<open>w'\<close>: time moved on and only \<open>S\<close> may still be alive.\<close>

definition settles :: "world \<Rightarrow> world \<Rightarrow> pid set \<Rightarrow> bool" where
  "settles w w' S \<longleftrightarrow> onward w w' \<and> only_alive w' S"

lemma settles_mono: "settles w w' S \<Longrightarrow> S \<subseteq> T \<Longrightarrow> settles w w' T"
  by (auto simp: settles_def intro: only_alive_mono)

lemma settles_trans: "settles w w' S \<Longrightarrow> settles w' w'' T \<Longrightarrow> settles w w'' T"
  by (auto simp: settles_def intro: onward_trans)

lemma settles_calms: "calms w w' \<Longrightarrow> only_alive w S \<Longrightarrow> settles w w' S"
  by (simp add: settles_def calms_onward calms_only)

lemma settles_then_calms: "settles w w' S \<Longrightarrow> calms w' w'' \<Longrightarrow> settles w w'' S"
  by (auto simp: settles_def intro: onward_trans calms_onward calms_only)

lemma settles_terminate: "settles w w' S \<Longrightarrow> S - set pids \<subseteq> T \<Longrightarrow> settles w (terminate_all pids w') T"
  using onward_trans [OF _ calms_onward [OF terminate_all_calms]] terminate_all_only by (auto simp: settles_def)

lemma settles_terminate_child: "settles w w' S \<Longrightarrow> S - {pid} \<subseteq> T \<Longrightarrow> settles w (terminate_child pid w') T"
  using onward_trans [OF _ calms_onward [OF terminate_child_calms]] terminate_child_only by (auto simp: settles_def)

lemma settles_ended: "settles w w' S \<Longrightarrow> \<not> alive w' pid \<Longrightarrow> S - {pid} \<subseteq> T \<Longrightarrow> settles w w' T"
  by (auto simp: settles_def only_alive_def)

lemma settles_reliable: "settles w w' S \<Longrightarrow> reliable w \<Longrightarrow> reliable w'"
  by (auto simp: settles_def dest: onward_reliable)

section \<open>Booting\<close>

lemma spawn_ready_worker_settles:
  assumes "spawn_ready_worker conf wid generation timeout w = (r, w')" and "reliable w" and "only_alive w S"
  shows "settles w w' (case r of Inr (Some m) \<Rightarrow> insert (mw_child m) S | _ \<Rightarrow> S)"
proof -
  let ?socket = "sf_worker_sockets conf ! unat wid"
  obtain r1 w1 where spawned: "spawn_worker_slot conf wid generation ?socket w = (r1, w1)" by fastforce
  from spawn_only [OF spawned [unfolded spawn_worker_slot_def] assms(3)]
  have s1: "settles w w1 (case r1 of Inr pid \<Rightarrow> insert pid S | Inl _ \<Rightarrow> S)" by (simp add: settles_def)
  show ?thesis
  proof (cases r1)
    case (Inl err)
    with assms(1) spawned s1 show ?thesis by (auto simp: spawn_ready_worker_def)
  next
    case child: (Inr child)
    with s1 have alive1: "settles w w1 (insert child S)" by simp
    show ?thesis
    proof (cases "attach_worker_readiness child w1")
      case (Inl err)
      with assms(1) spawned child settles_terminate_child [OF alive1] show ?thesis by (auto simp: spawn_ready_worker_def)
    next
      case (Inr pending)
      obtain r2 w2 where waited: "wait_for_worker_ready child pending wid generation ?socket timeout w1 = (r2, w2)" by fastforce
      note ready = wait_ready_calms [OF waited [unfolded wait_for_worker_ready_def]]
      have "settles w w2 (insert child S)" using settles_then_calms [OF alive1] ready by blast
      moreover have "settles w w2 S" if "\<forall>slot. r2 \<noteq> Inr (Some slot)"
        using settles_ended [OF calculation, of child S] ready that settles_reliable [OF alive1 assms(2)] by auto
      ultimately show ?thesis
        using assms(1) spawned child Inr waited by (auto simp: spawn_ready_worker_def split: sum.splits option.splits)
    qed
  qed
qed

lemma spawn_workers_settles:
  assumes "spawn_workers_from conf is workers w = (r, w')" and "reliable w" and "only_alive w (S \<union> set (worker_pids workers))"
  shows "settles w w' (case r of Inr (Some ws) \<Rightarrow> S \<union> set (worker_pids ws) | _ \<Rightarrow> S)"
  using assms
proof (induction "is" arbitrary: workers w)
  case Nil
  then show ?case by (auto simp: settles_def)
next
  case (Cons i rest)
  obtain r1 w1 where one: "spawn_ready_worker conf (of_nat i) 1 (sf_worker_ready_timeout conf) w = (r1, w1)" by fastforce
  note s1 = spawn_ready_worker_settles [OF one Cons.prems(2,3)]
  show ?case
  proof (cases "\<exists>m. r1 = Inr (Some m)")
    case True
    then obtain m where m: "r1 = Inr (Some m)" by blast
    with s1 have "only_alive w1 (S \<union> set (worker_pids (workers @ [m])))"
      by (auto simp: settles_def worker_pids_def elim!: only_alive_mono)
    with m Cons.prems(1) one Cons.IH settles_reliable [OF s1 Cons.prems(2)]
    have "settles w1 w' (case r of Inr (Some ws) \<Rightarrow> S \<union> set (worker_pids ws) | _ \<Rightarrow> S)" by simp
    with s1 show ?thesis by (rule settles_trans)
  next
    case False
    then have "settles w w1 (S \<union> set (worker_pids workers))" using s1 by (auto split: sum.splits option.splits)
    then have "settles w (terminate_workers workers w1) S"
      unfolding terminate_workers_def by (rule settles_terminate) blast
    with False Cons.prems(1) one show ?thesis by (auto split: sum.splits option.splits)
  qed
qed

definition boot_pids :: "boot_slot list \<Rightarrow> pid set" where
  "boot_pids bs = set (map bs_child bs)"

definition ready_pids :: "ready_slots \<Rightarrow> pid set" where
  "ready_pids ready = set (worker_pids (List.map_filter id ready))"

lemma ready_pids_alt: "ready_pids ready = mw_child ` {m. Some m \<in> set ready}"
  by (induction ready) (auto simp: ready_pids_def worker_pids_def List.map_filter_simps split: option.splits)

lemma ready_pids_update:
  assumes "i < length ready" and "ready ! i = None"
  shows "ready_pids (ready[i := Some m]) = insert (mw_child m) (ready_pids ready)"
proof -
  have "{x. Some x \<in> set (ready[i := Some m])} = insert m {x. Some x \<in> set ready}"
  proof (intro set_eqI iffI; simp)
    fix x assume "Some x \<in> set (ready[i := Some m])"
    then show "x = m \<or> Some x \<in> set ready" using set_update_subset_insert [of ready i "Some m"] by auto
  next
    fix x assume "x = m \<or> Some x \<in> set ready"
    then show "Some x \<in> set (ready[i := Some m])"
      using assms by (metis in_set_conv_nth length_list_update nth_list_update_eq nth_list_update_neq option.distinct(1))
  qed
  then show ?thesis by (simp add: ready_pids_alt)
qed

text \<open>Every slot still booting has a free place of its own among the ready ones.\<close>

definition boot_ok :: "boot_slot list \<Rightarrow> ready_slots \<Rightarrow> bool" where
  "boot_ok bs ready \<longleftrightarrow>
     distinct (map bs_id bs) \<and> (\<forall>b \<in> set bs. unat (bs_id b) < length ready \<and> ready ! unat (bs_id b) = None)"

lemma boot_ok_take:
  assumes "boot_ok (passed @ b # bs) ready"
  shows "boot_ok (passed @ bs) (ready[unat (bs_id b) := Some m])"
proof -
  have other: "unat (bs_id b) \<noteq> unat (bs_id c)" if "c \<in> set (passed @ bs)" for c
    using assms that unfolding word_unat_eq_iff [symmetric] by (auto simp: boot_ok_def image_iff)
  have "ready[unat (bs_id b) := Some m] ! unat (bs_id c) = None" if "c \<in> set (passed @ bs)" for c
    unfolding nth_list_update_neq [OF other [OF that]] using assms that by (auto simp: boot_ok_def)
  then show ?thesis using assms by (auto simp: boot_ok_def)
qed

lemma boot_ok_pids:
  assumes "boot_ok (passed @ b # bs) ready" and "mw_child m = bs_child b"
  shows "boot_pids (passed @ bs) \<union> ready_pids (ready[unat (bs_id b) := Some m]) =
    boot_pids (passed @ b # bs) \<union> ready_pids ready"
proof -
  have "unat (bs_id b) < length ready" "ready ! unat (bs_id b) = None" using assms by (auto simp: boot_ok_def)
  from ready_pids_update [OF this] assms(2) show ?thesis by (auto simp: boot_pids_def)
qed

lemma poll_batch_keeps:
  assumes "poll_batch passed bs ready w = Inr (bs', ready')" and "boot_ok (passed @ bs) ready"
  shows "boot_ok bs' ready' \<and> boot_pids bs' \<union> ready_pids ready' = boot_pids (passed @ bs) \<union> ready_pids ready"
  using assms
proof (induction passed bs ready w rule: poll_batch.induct)
  case (2 passed b bs ready w)
  show ?case
  proof (cases "poll_boot_slot b w")
    case (BecameReady slot)
    let ?m = "\<lparr>mw_slot = slot, mw_child = bs_child b, mw_crash_count = 0, mw_last_started = w_now w\<rparr>"
    have "boot_pids (passed @ bs) \<union> ready_pids (ready[unat (bs_id b) := Some ?m]) = boot_pids (passed @ b # bs) \<union> ready_pids ready"
      by (rule boot_ok_pids [OF "2.prems"(2)]) simp
    with 2 BecameReady boot_ok_take [OF "2.prems"(2)] show ?thesis by simp
  qed (use 2 in auto)
qed simp

lemma failed_batch_pids:
  assumes "failed_batch passed bs ready w = (bs', ready')" and "boot_ok (passed @ bs) ready"
  shows "boot_pids bs' \<union> ready_pids ready' = boot_pids (passed @ bs) \<union> ready_pids ready"
  using assms
proof (induction passed bs ready w rule: failed_batch.induct)
  case (2 passed b bs ready w)
  show ?case
  proof (cases "poll_boot_slot b w")
    case (BecameReady slot)
    let ?m = "\<lparr>mw_slot = slot, mw_child = bs_child b, mw_crash_count = 0, mw_last_started = w_now w\<rparr>"
    have "boot_pids (passed @ bs) \<union> ready_pids (ready[unat (bs_id b) := Some ?m]) = boot_pids (passed @ b # bs) \<union> ready_pids ready"
      by (rule boot_ok_pids [OF "2.prems"(2)]) simp
    with 2 BecameReady boot_ok_take [OF "2.prems"(2)] show ?thesis by simp
  qed (use 2 in auto)
qed simp

lemma fail_boot_settles:
  assumes "settles w w1 S" and "S - (boot_pids booting \<union> ready_pids ready) \<subseteq> T"
  shows "settles w (fail_boot booting ready w1) T"
proof -
  have "settles w (terminate_all (map bs_child booting) w1) (S - boot_pids booting)"
    using assms(1) by (rule settles_terminate) (auto simp: boot_pids_def)
  then show ?thesis unfolding fail_boot_def terminate_workers_def
    by (rule settles_terminate) (use assms(2) in \<open>auto simp: ready_pids_def\<close>)
qed

lemma boot_loop_settles:
  assumes "boot_loop conf booting ready deadline w = (r, w')" and "boot_ok booting ready"
    and "only_alive w (S \<union> boot_pids booting \<union> ready_pids ready)"
  shows "settles w w' (case r of Inr (Some ws) \<Rightarrow> S \<union> set (worker_pids ws) | _ \<Rightarrow> S)"
  using assms
proof (induction conf booting ready deadline w arbitrary: r rule: boot_loop.induct)
  case (1 conf booting ready deadline w)
  note unfold = boot_loop.simps [of conf booting ready deadline w]
  have here: "settles w w (S \<union> boot_pids booting \<union> ready_pids ready)" using "1.prems"(3) by (simp add: settles_def)
  consider "booting = []" | "booting \<noteq> []" "shutdown_requested w"
    | err where "booting \<noteq> []" "\<not> shutdown_requested w" "poll_batch [] booting ready w = Inl err"
    | bs' ready' where "booting \<noteq> []" "\<not> shutdown_requested w" "poll_batch [] booting ready w = Inr (bs', ready')"
    by (metis sum.exhaust surj_pair)
  then show ?case
  proof cases
    case 1
    with "1.prems"(1) have "r = Inr (Some (List.map_filter id ready))" "w' = w"
      by (simp_all add: boot_loop.simps [of conf "[]"])
    with 1 here show ?thesis by (auto simp: boot_pids_def ready_pids_def elim!: settles_mono)
  next
    case 2
    have "settles w (fail_boot booting ready w) S" using here by (rule fail_boot_settles) blast
    with 2 "1.prems"(1) show ?thesis by (auto simp: unfold)
  next
    case (3 err)
    obtain b q where fb: "failed_batch [] booting ready w = (b, q)" by fastforce
    from failed_batch_pids [OF this] "1.prems"(2) have "boot_pids b \<union> ready_pids q = boot_pids booting \<union> ready_pids ready" by simp
    with fail_boot_settles [OF here, of b q S] have "settles w (fail_boot b q w) S" by auto
    with "1.prems"(1) 3 fb show ?thesis by (auto simp: unfold)
  next
    case (4 bs' ready')
    from poll_batch_keeps [OF 4(3)] "1.prems"(2)
    have ok: "boot_ok bs' ready'" and pids: "boot_pids bs' \<union> ready_pids ready' = boot_pids booting \<union> ready_pids ready" by simp_all
    then have next_alive: "only_alive v (S \<union> boot_pids bs' \<union> ready_pids ready')" if "calms w v" for v
      using calms_only [OF that "1.prems"(3)] by (simp add: Un_assoc)
    consider "length bs' < length booting" | "\<not> length bs' < length booting" "deadline \<le> w_now w"
      | "\<not> length bs' < length booting" "\<not> deadline \<le> w_now w" by blast
    then show ?thesis
    proof cases
      case 1
      with "1.IH"(1) [OF 4(1,2,3) refl 1 _ ok next_alive] "1.prems"(1) 4 show ?thesis by (simp add: unfold)
    next
      case 2
      have "settles w (fail_boot bs' ready' w) S"
        using fail_boot_settles [OF here, of bs' ready' S] pids by auto
      with "1.prems"(1) 4 2 show ?thesis by (auto simp: unfold)
    next
      case 3
      let ?v = "sleep (min MONITOR_INTERVAL 25) w"
      have "settles ?v w' (case r of Inr (Some ws) \<Rightarrow> S \<union> set (worker_pids ws) | _ \<Rightarrow> S)"
        using "1.IH"(2) [OF 4(1,2,3) refl 3 _ ok next_alive] "1.prems"(1) 4 3 by (simp add: unfold)
      then show ?thesis using settles_trans [OF settles_calms [OF calms_sleep "1.prems"(3)]] by blast
    qed
  qed
qed

lemma launch_batch_settles:
  assumes "launch_batch conf is booting w = (r, w')" and "only_alive w (S \<union> boot_pids booting)"
  shows "settles w w' (case r of Inr bs \<Rightarrow> S \<union> boot_pids bs | Inl _ \<Rightarrow> S)"
  using assms
proof (induction "is" arbitrary: booting w)
  case Nil
  then show ?case by (auto simp: settles_def)
next
  case (Cons i rest)
  let ?socket = "sf_worker_sockets conf ! i"
  obtain r1 w1 where spawned: "spawn_worker_slot conf (of_nat i) 1 ?socket w = (r1, w1)" by fastforce
  from spawn_only [OF spawned [unfolded spawn_worker_slot_def] Cons.prems(2)]
  have s1: "settles w w1 (case r1 of Inr pid \<Rightarrow> insert pid (S \<union> boot_pids booting) | Inl _ \<Rightarrow> S \<union> boot_pids booting)"
    by (simp add: settles_def)
  show ?case
  proof (cases r1)
    case (Inl err)
    with s1 fail_boot_settles [of w w1 _ booting "[]" S] have "settles w (fail_boot booting [] w1) S" by auto
    with Inl Cons.prems(1) spawned show ?thesis by auto
  next
    case child: (Inr child)
    show ?thesis
    proof (cases "attach_worker_readiness child w1")
      case (Inl err)
      have "settles w (terminate_child child w1) (S \<union> boot_pids booting)"
        using s1 child by (auto intro: settles_terminate_child)
      then have "settles w (fail_boot booting [] (terminate_child child w1)) S" by (rule fail_boot_settles) auto
      with Inl child Cons.prems(1) spawned show ?thesis by auto
    next
      case (Inr pending)
      let ?b = "\<lparr>bs_id = of_nat i, bs_socket = ?socket, bs_child = child, bs_pending = pending\<rparr>"
      have "only_alive w1 (S \<union> boot_pids (booting @ [?b]))"
        using s1 child by (auto simp: settles_def boot_pids_def elim!: only_alive_mono)
      from Cons.IH [OF _ this] Cons.prems(1) spawned child Inr
      have "settles w1 w' (case r of Inr bs \<Rightarrow> S \<union> boot_pids bs | Inl _ \<Rightarrow> S)" by simp
      with s1 show ?thesis by (rule settles_trans)
    qed
  qed
qed

lemma launch_batch_ids:
  "launch_batch conf is booting w = (Inr bs, w') \<Longrightarrow> map bs_id bs = map bs_id booting @ map of_nat is"
  by (induction conf "is" booting w rule: launch_batch.induct) (auto simp: Let_def split: prod.splits sum.splits)

lemma fresh_boot_ok:
  assumes "map bs_id bs = map of_nat [0..<n]" and "n < 2 ^ 32"
  shows "boot_ok bs (replicate n None)"
proof -
  have small: "unat (of_nat i :: u32) = i" if "i < n" for i
    using that assms(2) by (simp add: unat_of_nat take_bit_nat_eq_self)
  have "inj_on (of_nat :: nat \<Rightarrow> u32) {0..<n}" by (rule inj_onI) (metis small atLeastLessThan_iff)
  then have "distinct (map bs_id bs)" unfolding assms(1) by (simp add: distinct_map)
  moreover have "unat (bs_id b) < n" if "b \<in> set bs" for b
  proof -
    have "bs_id b \<in> set (map of_nat [0..<n])" using that assms(1) by (metis list.set_map imageI)
    then show ?thesis using small by auto
  qed
  ultimately show ?thesis by (simp add: boot_ok_def)
qed

lemma spawn_worker_pool_settles:
  assumes "spawn_worker_pool conf w = (r, w')" and "reliable w" and "only_alive w {}"
    and "length (sf_worker_sockets conf) < 2 ^ 32"
  shows "settles w w' (case r of Inr (Some ws) \<Rightarrow> set (worker_pids ws) | _ \<Rightarrow> {})"
proof (cases "launch_is_async (sf_worker_launch conf)")
  case False
  with assms spawn_workers_settles [of conf _ "[]" w r w' "{}"] show ?thesis
    by (auto simp: spawn_worker_pool_def worker_pids_def split: sum.splits option.splits)
next
  case True
  let ?n = "length (sf_worker_sockets conf)"
  obtain r1 w1 where batch: "launch_batch conf [0..<?n] [] w = (r1, w1)" by fastforce
  have s1: "settles w w1 (case r1 of Inr bs \<Rightarrow> boot_pids bs | Inl _ \<Rightarrow> {})"
    using launch_batch_settles [OF batch, of "{}"] assms(3) by (auto simp: boot_pids_def split: sum.splits)
  show ?thesis
  proof (cases r1)
    case (Inl err)
    with True assms(1) batch s1 show ?thesis by (auto simp: spawn_worker_pool_def spawn_worker_pool_batched_def)
  next
    case (Inr bs)
    have ok: "boot_ok bs (replicate ?n None)"
      using launch_batch_ids [of conf _ "[]" w bs w1] batch Inr assms(4) by (intro fresh_boot_ok) simp_all
    have "ready_pids (replicate ?n None) = {}" by (simp add: ready_pids_alt)
    with s1 Inr have "only_alive w1 ({} \<union> boot_pids bs \<union> ready_pids (replicate ?n None))" by (simp add: settles_def)
    from boot_loop_settles [OF _ ok this] True assms(1) batch Inr
    have "settles w1 w' (case r of Inr (Some ws) \<Rightarrow> {} \<union> set (worker_pids ws) | _ \<Rightarrow> {})"
      by (simp add: spawn_worker_pool_def spawn_worker_pool_batched_def)
    with s1 show ?thesis unfolding Un_empty_left by (rule settles_trans)
  qed
qed

section \<open>The sidecars and the edge\<close>

lemma listener_settles:
  assumes "wait_listener_loop role e child bind deadline w1 = (r, w2)" and "settles w w1 (insert child S)" and "reliable w"
  shows "settles w w2 (case r of Inr _ \<Rightarrow> insert child S | Inl _ \<Rightarrow> S)"
proof -
  note waited = wait_listener_calms [OF assms(1)]
  have s2: "settles w w2 (insert child S)" using settles_then_calms [OF assms(2)] waited by blast
  show ?thesis
  proof (cases r)
    case (Inl err)
    with waited settles_reliable [OF assms(2,3)] have "\<not> alive w2 child" by auto
    with Inl settles_ended [OF s2, of child S] show ?thesis by auto
  qed (use s2 in simp)
qed

lemma spawn_settles:
  assumes "spawn_command role cmd w = (r, w')" and "settles v w S"
  shows "settles v w' (case r of Inr pid \<Rightarrow> insert pid S | Inl _ \<Rightarrow> S)"
  using spawn_only [OF assms(1), of S] assms(2) onward_trans unfolding settles_def by blast

lemma sidecar_settles:
  assumes "settles v w S" and "reliable v"
  shows "spawn_cable conf w = (r, w') \<Longrightarrow> settles v w' (case r of Inr c \<Rightarrow> S \<union> set (opt_pids c) | Inl _ \<Rightarrow> S)"
    and "spawn_grpc conf w = (r, w') \<Longrightarrow> settles v w' (case r of Inr c \<Rightarrow> S \<union> set (opt_pids c) | Inl _ \<Rightarrow> S)"
proof -
  have one: "settles v w2 (case r2 of Inr _ \<Rightarrow> insert child S | Inl _ \<Rightarrow> S)"
    if "spawn_command role cmd w = (Inr child, w1)" "wait_listener_loop role' e child bind deadline w1 = (r2, w2)"
    for role cmd child w1 role' e bind deadline r2 w2
    using listener_settles [OF that(2) _ assms(2)] spawn_settles [OF that(1) assms(1)] by simp
  have failed: "settles v w1 S" if "spawn_command role cmd w = (Inl err, w1)" for role cmd err w1
    using spawn_settles [OF that assms(1)] by simp
  show "spawn_cable conf w = (r, w') \<Longrightarrow> settles v w' (case r of Inr c \<Rightarrow> S \<union> set (opt_pids c) | Inl _ \<Rightarrow> S)"
    using assms(1) by (auto simp: spawn_cable_def wait_for_cable_ready_def opt_pids_def dest: failed dest!: one
        split: option.splits prod.splits sum.splits)
  show "spawn_grpc conf w = (r, w') \<Longrightarrow> settles v w' (case r of Inr c \<Rightarrow> S \<union> set (opt_pids c) | Inl _ \<Rightarrow> S)"
    using assms(1) by (auto simp: spawn_grpc_def wait_for_grpc_ready_def opt_pids_def dest: failed dest!: one
        split: option.splits prod.splits sum.splits)
qed

section \<open>Restarts\<close>

lemma respawn_worker_settles:
  assumes "respawn_worker conf m w = (r, m', w')" and "settles v w S" and "reliable v"
  shows "settles v w' (case r of Inr _ \<Rightarrow> insert (mw_child m') S | Inl _ \<Rightarrow> S)"
proof -
  let ?g = "saturating_add (sl_generation (mw_slot m)) 1" and ?i = "sl_id (mw_slot m)" and ?s = "sl_socket (mw_slot m)"
  obtain r1 w1 where spawned: "spawn_worker_slot conf ?i ?g ?s w = (r1, w1)" by fastforce
  note s1 = spawn_settles [OF spawned [unfolded spawn_worker_slot_def] assms(2)]
  show ?thesis
  proof (cases r1)
    case (Inl err)
    with assms(1) spawned s1 show ?thesis by (auto simp: respawn_worker_def)
  next
    case child: (Inr child)
    with s1 have s1: "settles v w1 (insert child S)" by simp
    show ?thesis
    proof (cases "attach_worker_readiness child w1")
      case (Inl err)
      with assms(1) spawned child settles_terminate_child [OF s1, of child S] show ?thesis by (auto simp: respawn_worker_def)
    next
      case (Inr pending)
      obtain r2 w2 where
        waited: "wait_for_worker_ready child pending ?i ?g ?s (sf_worker_respawn_ready_timeout conf) w1 = (r2, w2)" by fastforce
      note ready = wait_ready_calms [OF waited [unfolded wait_for_worker_ready_def]]
      have s2: "settles v w2 (insert child S)" using settles_then_calms [OF s1] ready by blast
      have "settles v w2 S" if "\<forall>slot. r2 \<noteq> Inr (Some slot)"
        using settles_ended [OF s2, of child S] ready that settles_reliable [OF s1 assms(3)] by auto
      moreover have "settles v (terminate_child child w2) S" using s2 by (rule settles_terminate_child) blast
      moreover have "settles v w2 S \<Longrightarrow> settles v w2 (insert c S)" for c by (auto elim: settles_mono)
      ultimately show ?thesis
        using assms(1) spawned child Inr waited s2
        by (auto simp: respawn_worker_def split: sum.splits option.splits)
    qed
  qed
qed

lemma restart_worker_settles:
  assumes "restart_worker conf m w = (r, m', w')" and "settles v w S" and "reliable v"
  shows "settles v w' (case r of Inr _ \<Rightarrow> insert (mw_child m') S | Inl _ \<Rightarrow> S)"
proof (cases "shutdown_requested w")
  case True
  with assms show ?thesis by (auto simp: restart_worker_def elim!: settles_mono)
next
  case False
  let ?m = "count_crash (fail_slot m) (w_now w)"
  obtain slept w1 where slept: "sleep_unless_shutdown (restart_backoff (mw_crash_count ?m)) w = (slept, w1)" by fastforce
  have s1: "settles v w1 S"
    using settles_then_calms [OF assms(2)] sleep_until_calms slept by (auto simp: sleep_unless_shutdown_def)
  show ?thesis
  proof (cases slept)
    case True
    with False assms(1) slept respawn_worker_settles [OF _ s1 assms(3)] show ?thesis by (simp add: restart_worker_def)
  next
    case stopped: False
    with False assms(1) slept s1 show ?thesis by (auto simp: restart_worker_def elim!: settles_mono)
  qed
qed

lemma drain_edge_settles:
  assumes "settles v w S"
  shows "settles v (drain_edge_for_reload edge grace w) (S - {edge})"
proof -
  obtain gone w1 where waited: "wait_child_until edge grace (request_child_term edge w) = (gone, w1)" by fastforce
  note waits = wait_child_calms [OF waited [unfolded wait_child_until_def]]
  have s1: "settles v w1 S" using settles_then_calms [OF settles_then_calms [OF assms request_calms(1)]] waits by blast
  show ?thesis
  proof (cases gone)
    case True
    with waits settles_ended [OF s1] waited show ?thesis by (auto simp: drain_edge_for_reload_def)
  next
    case False
    have "settles v (force_child_shutdown edge w1) (S - {edge})"
      using settles_ended [OF settles_then_calms [OF s1 request_calms(2)] force_dead] by blast
    with False waited show ?thesis by (simp add: drain_edge_for_reload_def)
  qed
qed

lemma try_new_pair_settles:
  assumes "try_new_pair n conf edge w = (r, edge', w')" and "settles v w S" and "reliable v"
  shows "settles v w' (case r of Inr (Some True) \<Rightarrow> insert edge' S | _ \<Rightarrow> S)"
  using assms(1,2)
proof (induction n conf edge w rule: try_new_pair.induct)
  case (2 n conf edge w)
  show ?case
  proof (cases "shutdown_requested w")
    case True
    with "2.prems" show ?thesis by auto
  next
    case False
    obtain r1 w1 where spawned: "spawn_edge conf w = (r1, w1)" by fastforce
    note s1 = spawn_settles [OF spawned [unfolded spawn_edge_def] "2.prems"(2)]
    show ?thesis
    proof (cases r1)
      case (Inl err)
      with False "2.prems"(1) spawned s1 show ?thesis by auto
    next
      case child: (Inr edge1)
      obtain r2 w2 where waited: "wait_for_edge_ready edge1 (sf_edge_bind conf) w1 = (r2, w2)" by fastforce
      have s2: "settles v w2 (case r2 of Inr _ \<Rightarrow> insert edge1 S | Inl _ \<Rightarrow> S)"
        using listener_settles [OF waited [unfolded wait_for_edge_ready_def] _ assms(3)] s1 child by simp
      show ?thesis
      proof (cases r2)
        case (Inl err)
        have "settles v (terminate_child edge1 w2) S" using s2 Inl by (auto intro: settles_terminate_child)
        from "2.IH" [OF False spawned [symmetric] child waited [symmetric] Inl _ this] "2.prems"(1) False spawned child waited Inl
        show ?thesis by simp
      next
        case (Inr u)
        with False "2.prems"(1) spawned child waited s2 show ?thesis by auto
      qed
    qed
  qed
qed auto

text \<open>After a reload at most the current edge is added; after a failed one it is left only by an ACME error.\<close>

definition reload_settles :: "world \<Rightarrow> (service_error + unit) \<Rightarrow> pid \<Rightarrow> world \<Rightarrow> pid set \<Rightarrow> bool" where
  "reload_settles v r edge w S \<longleftrightarrow>
     settles v w (insert edge S) \<and> (\<forall>err. r = Inl err \<longrightarrow> (\<forall>message. err \<noteq> AcmeReload message) \<longrightarrow> settles v w S)"

lemma reload_settlesI: "settles v w S \<Longrightarrow> reload_settles v r edge w S"
  by (auto simp: reload_settles_def elim: settles_mono)

lemma reload_settles_ok: "settles v w (insert edge S) \<Longrightarrow> reload_settles v (Inr u) edge w S"
  "settles v w (insert edge S) \<Longrightarrow> reload_settles v (Inl (AcmeReload message)) edge w S"
  by (auto simp: reload_settles_def)

lemma consume_marker_cases:
  assumes "consume_reload_marker w = (r, w')"
  shows "calms w w' \<and> (r = Inr () \<or> (\<exists>message. r = Inl (AcmeReload message)))"
  using assms by (cases "w_consume w (w_now w)") (auto simp: consume_reload_marker_def acme_result_def)

lemma restart_edge_settles:
  assumes "restart_edge conf edge w = (r, edge', w')" and "settles v w S" and "reliable v"
  shows "reload_settles v r edge' w' (S - {edge})"
proof -
  define w1 where "w1 = drain_edge_for_reload edge (sf_edge_drain_grace conf)
      (notify_systemd ''STATUS=Oxo edge restarting for certificate reload'' w)"
  have s1: "settles v w1 (S - {edge})"
    unfolding w1_def by (rule drain_edge_settles [OF settles_then_calms [OF assms(2) calms_log(2)]])
  obtain r2 edge2 w2 where tried: "try_new_pair 2 conf edge w1 = (r2, edge2, w2)" by (metis prod_cases3)
  note s2 = try_new_pair_settles [OF tried s1 assms(3)]
  note start = assms(1) [unfolded restart_edge_def Let_def w1_def [symmetric] tried]
  consider (failed) err where "r2 = Inl err" | (stopped) "r2 = Inr None" | (booted) "r2 = Inr (Some True)" | (bad) "r2 = Inr (Some False)"
    by (metis (full_types) option.exhaust sum.exhaust)
  then show ?thesis
  proof cases
    case booted
    obtain r3 w3 where consumed: "consume_reload_marker w2 = (r3, w3)" by fastforce
    note c = consume_marker_cases [OF consumed]
    have s3: "settles v w3 (insert edge2 (S - {edge}))" using settles_then_calms [of v w2] s2 c booted by auto
    then have "settles v (notify_systemd m w3) (insert edge2 (S - {edge}))" for m by (rule settles_then_calms) simp
    with s3 c start booted consumed show ?thesis by (auto simp: reload_settles_def)
  next
    case bad
    then have s2: "settles v w2 (S - {edge})" using s2 by simp
    show ?thesis
    proof (cases "is_ok (w_rollback w2 (w_now w2)) \<and> \<not> shutdown_requested w2")
      case False
      with start bad s2 show ?thesis
        by (cases "w_rollback w2 (w_now w2)") (auto simp: acme_result_def intro: reload_settlesI)
    next
      case True
      obtain r3 w3 where spawned: "spawn_edge conf w2 = (r3, w3)" by fastforce
      note s3 = spawn_settles [OF spawned [unfolded spawn_edge_def] s2]
      show ?thesis
      proof (cases r3)
        case (Inl err)
        with start bad True spawned s3 show ?thesis by (auto simp: acme_result_def is_ok_iff intro: reload_settlesI)
      next
        case (Inr edge3)
        obtain r4 w4 where waited: "wait_for_edge_ready edge3 (sf_edge_bind conf) w3 = (r4, w4)" by fastforce
        have s4: "settles v w4 (case r4 of Inr _ \<Rightarrow> insert edge3 (S - {edge}) | Inl _ \<Rightarrow> S - {edge})"
          using listener_settles [OF waited [unfolded wait_for_edge_ready_def] _ assms(3)] s3 Inr by simp
        then have "settles v (notify_systemd m w4) (case r4 of Inr _ \<Rightarrow> insert edge3 (S - {edge}) | Inl _ \<Rightarrow> S - {edge})" for m
          by (rule settles_then_calms) simp
        with start bad True spawned Inr waited s4 show ?thesis
          by (auto simp: acme_result_def is_ok_iff intro: reload_settlesI reload_settles_ok split: sum.splits)
      qed
    qed
  qed (use start s2 in \<open>auto intro: reload_settlesI\<close>)
qed

lemma maybe_reload_settles:
  assumes "maybe_reload_edge conf edge w = (r, edge', w')" and "settles v w S" and "reliable v"
  shows "reload_settles v r edge' w' (S - {edge})"
proof -
  have "settles v w (insert edge (S - {edge}))" using assms(2) by (rule settles_mono) blast
  with assms restart_edge_settles show ?thesis
    by (cases "w_marker w (w_now w)") (auto simp: maybe_reload_edge_def acme_result_def intro: reload_settles_ok split: option.splits)
qed

lemma reconcile_settles:
  assumes "reconcile_boot_marker conf epoch edge w = (r, edge', w')" and "settles v w S" and "reliable v"
  shows "reload_settles v r edge' w' (S - {edge})"
proof -
  have here: "settles v w (insert edge (S - {edge}))" using assms(2) by (rule settles_mono) blast
  obtain r1 w1 where consumed: "consume_reload_marker w = (r1, w1)" by fastforce
  have "settles v w1 (insert edge (S - {edge}))"
    using settles_then_calms [OF here] consume_marker_cases [OF consumed] by blast
  with assms restart_edge_settles here consumed consume_marker_cases [OF consumed] show ?thesis
    by (cases "w_marker w (w_now w)")
      (auto simp: reconcile_boot_marker_def acme_result_def intro: reload_settles_ok split: option.splits if_splits)
qed

section \<open>One turn of the monitor\<close>

lemma give_up_settles:
  assumes "settles v w S" and "S \<subseteq> set pids" and "give_up message pids err st w = (r, st', w')"
  shows "settles v w' {}"
  using settles_terminate [OF settles_then_calms [OF assms(1) calms_log(2)], of pids "{}"] assms(2,3)
  by (auto simp: give_up_def)

lemma first_exited_dead:
  "first_exited i ms w = Inr (Some j) \<Longrightarrow> i \<le> j \<and> j - i < length ms \<and> \<not> alive w (mw_child (ms ! (j - i)))"
proof (induction i ms w rule: first_exited.induct)
  case (2 i m ms w)
  show ?case
  proof (cases "try_wait w (mw_child m)")
    case (Inr status)
    show ?thesis
    proof (cases status)
      case None
      with 2 Inr have "Suc i \<le> j \<and> j - Suc i < length ms \<and> \<not> alive w (mw_child (ms ! (j - Suc i)))" by simp
      moreover from this have "j - i = Suc (j - Suc i)" by linarith
      ultimately show ?thesis by simp
    next
      case (Some code)
      with 2 Inr try_wait_reliable(2) [of w "mw_child m" code] show ?thesis by auto
    qed
  qed (use 2 in simp)
qed simp

lemma first_exited_reliable: "reliable w \<Longrightarrow> first_exited i ms w \<noteq> Inl err"
  by (induction i ms w rule: first_exited.induct) (auto simp: try_wait_reliable split: sum.splits option.splits)

lemma all_pids_set:
  "set (all_pids st) = insert (rs_edge st) (set (opt_pids (rs_cable st)) \<union> set (opt_pids (rs_grpc st)) \<union> set (renew_pids st) \<union>
     set (worker_pids (rs_workers st)))"
  by (auto simp: all_pids_def)

text \<open>What a turn keeps: when it goes on, only the children of the state may be alive, when it ends, nobody.\<close>

definition turn_settles :: "world \<Rightarrow> verdict \<Rightarrow> runner_state \<Rightarrow> world \<Rightarrow> bool" where
  "turn_settles v r st w \<longleftrightarrow>
     (case r of
        None \<Rightarrow> settles v w (set (all_pids st))
      | Some res \<Rightarrow> onward v w \<and> ((\<forall>message. res \<noteq> Inl (AcmeReload message)) \<longrightarrow> only_alive w {}))"

lemma turn_ended: "settles v w {} \<Longrightarrow> turn_settles v (Some res) st w"
  by (simp add: turn_settles_def settles_def)

lemma gave_up:
  assumes "give_up message pids err st w = (r, st', w')" and "settles v w S" and "S \<subseteq> set pids"
  shows "turn_settles v r st' w'"
  using turn_ended [OF give_up_settles [OF assms(2,3,1)]] assms(1) by (auto simp: give_up_def)

lemma replaced_worker:
  assumes "i < length ms"
  shows "insert (mw_child m) (set (worker_pids ms) - {mw_child (ms ! i)}) \<subseteq> set (worker_pids (ms[i := m]))"
proof
  fix p assume p: "p \<in> insert (mw_child m) (set (worker_pids ms) - {mw_child (ms ! i)})"
  show "p \<in> set (worker_pids (ms[i := m]))"
  proof (cases "p = mw_child m")
    case True
    then show ?thesis using assms by (auto simp: worker_pids_def intro!: image_eqI [of _ _ m] set_update_memI)
  next
    case False
    with p obtain j where "j < length ms" "p = mw_child (ms ! j)" by (auto simp: worker_pids_def in_set_conv_nth)
    moreover from this False p have "j \<noteq> i" by auto
    ultimately have "ms[i := m] ! j = ms ! j" "j < length (ms[i := m])" by simp_all
    then have "ms ! j \<in> set (ms[i := m])" by (metis nth_mem)
    with \<open>p = mw_child (ms ! j)\<close> show ?thesis by (simp add: worker_pids_def)
  qed
qed

lemma monitor_workers_settles:
  assumes "monitor_workers conf st w = (r, st', w')" and "settles v w (set (all_pids st))" and "reliable v"
  shows "turn_settles v r st' w'"
proof (cases "first_exited 0 (rs_workers st) w")
  case (Inl err)
  then show ?thesis using first_exited_reliable settles_reliable [OF assms(2,3)] by blast
next
  case (Inr found)
  show ?thesis
  proof (cases found)
    case None
    with Inr assms(1,2) show ?thesis by (auto simp: monitor_workers_def turn_settles_def)
  next
    case (Some i)
    let ?old = "mw_child (rs_workers st ! i)"
    from first_exited_dead [of 0 "rs_workers st" w i] Inr Some have i: "i < length (rs_workers st)" "\<not> alive w ?old" by auto
    let ?w0 = "notify_systemd ''STATUS=Oxo worker restarting'' w"
    have "settles v w (set (all_pids st) - {?old})" using settles_ended [OF assms(2) i(2)] by simp
    then have s0: "settles v ?w0 (set (all_pids st) - {?old})" by (rule settles_then_calms) simp
    obtain q m w1 where restarted: "restart_worker conf (rs_workers st ! i) ?w0 = (q, m, w1)" by (metis prod_cases3)
    note s1 = restart_worker_settles [OF restarted s0 assms(3)]
    let ?st1 = "st\<lparr>rs_workers := (rs_workers st)[i := m]\<rparr>"
    have grow: "insert (mw_child m) (set (all_pids st) - {?old}) \<subseteq> set (all_pids ?st1)"
      using replaced_worker [OF i(1), of m] by (auto simp: all_pids_set renew_pids_def)
    show ?thesis
    proof (cases q)
      case ok: (Inr u)
      with s1 have "settles v w1 (insert (mw_child m) (set (all_pids st) - {?old}))" by simp
      then have "settles v w1 (set (all_pids ?st1))" using grow by (rule settles_mono)
      with assms(1) Inr Some restarted ok show ?thesis by (auto simp: monitor_workers_def turn_settles_def)
    next
      case failed: (Inl err)
      with s1 have "settles v w1 (set (all_pids st) - {?old})" by simp
      then have "settles v w1 (set (all_pids ?st1))" using grow by (auto elim: settles_mono)
      moreover from assms(1) Inr Some restarted failed have "give_up ''worker restart failed''
          (renew_pids ?st1 @ rs_edge ?st1 # opt_pids (rs_grpc ?st1) @ opt_pids (rs_cable ?st1) @ worker_pids (rs_workers ?st1))
          err ?st1 w1 = (r, st', w')" by (simp add: monitor_workers_def Let_def)
      ultimately show ?thesis by (rule_tac gave_up) (auto simp: all_pids_set)
    qed
  qed
qed

lemma reload_after_reap_settles:
  assumes "reload_after_reap conf st w = (r, st', w')" and "settles v w (set (all_pids st) - set (renew_pids st))" and "reliable v"
  shows "turn_settles v r st' w'"
proof -
  obtain q edge w1 where reloaded: "maybe_reload_edge conf (rs_edge st) w = (q, edge, w1)" by (metis prod_cases3)
  let ?T = "set (all_pids st) - set (renew_pids st) - {rs_edge st}"
  note s = maybe_reload_settles [OF reloaded assms(2,3)]
  let ?st1 = "st\<lparr>rs_renew := None, rs_edge := edge\<rparr>"
  have grow: "insert edge ?T \<subseteq> set (all_pids ?st1)" by (auto simp: all_pids_set renew_pids_def opt_pids_def)
  show ?thesis
  proof (cases q)
    case (Inr u)
    with s have "settles v w1 (set (all_pids ?st1))" using grow by (auto simp: reload_settles_def elim!: settles_mono)
    with assms(1) reloaded Inr show ?thesis by (auto simp: reload_after_reap_def turn_settles_def)
  next
    case (Inl err)
    let ?pids = "opt_pids (rs_grpc st) @ opt_pids (rs_cable st) @ worker_pids (rs_workers st)"
    have gave: "give_up ''certificate reload failed'' ?pids err ?st1 w1 = (r, st', w')"
      using assms(1) reloaded Inl by (simp add: reload_after_reap_def)
    have all: "?T \<subseteq> set ?pids" by (auto simp: all_pids_set)
    show ?thesis
    proof (cases "\<exists>message. err = AcmeReload message")
      case False
      with s Inl have "settles v w1 ?T" by (auto simp: reload_settles_def)
      from gave_up [OF gave this all] show ?thesis .
    next
      case True
      have "onward v w1" using s by (simp add: reload_settles_def settles_def)
      then have "onward v w'" using gave
        by (auto simp: give_up_def intro: onward_trans calms_onward calms_trans [OF calms_log(2) terminate_all_calms])
      with True gave show ?thesis by (auto simp: turn_settles_def give_up_def)
    qed
  qed
qed

lemma start_renewal_settles:
  assumes "start_renewal conf acme st w = (st', w')" and "settles v w (set (all_pids st))" and "rs_renew st = None"
  shows "settles v w' (set (all_pids st'))"
proof (cases "due (rs_next_renew st) (w_now w) \<and> \<not> shutdown_requested w")
  case True
  obtain q w1 where spawned: "spawn_renew_child conf acme w = (q, w1)" by fastforce
  note s1 = spawn_settles [OF spawned [unfolded spawn_renew_child_def] assms(2)]
  with assms(1,3) True spawned show ?thesis
    by (cases q) (auto simp: start_renewal_def all_pids_set renew_pids_def opt_pids_def elim!: settles_mono)
qed (use assms(1,2) in \<open>auto simp: start_renewal_def\<close>)

lemma turn_goes_on: "settles v w (set (all_pids st)) \<Longrightarrow> turn_settles v None st w"
  by (simp add: turn_settles_def)

lemma monitor_renewal_settles:
  assumes "monitor_renewal conf st w = (r, st', w')" and "settles v w (set (all_pids st))" and "reliable v"
  shows "turn_settles v r st' w'"
proof (cases "sf_acme_renew conf")
  case None
  with assms(1,2) show ?thesis by (auto simp: monitor_renewal_def turn_settles_def)
next
  case acme: (Some acme)
  show ?thesis
  proof (cases "rs_renew st")
    case None
    with assms acme start_renewal_settles show ?thesis by (auto simp: monitor_renewal_def turn_settles_def split: prod.splits)
  next
    case (Some child_started)
    then obtain child started where renew: "rs_renew st = Some (child, started)" by (cases child_started) simp
    then have pids: "set (renew_pids st) = {child}" by (simp add: renew_pids_def opt_pids_def)
    have "settles v (terminate_child child w) (set (all_pids st) - set (renew_pids st))"
      using assms(2) unfolding pids by (rule settles_terminate_child) blast
    note timed_out = reload_after_reap_settles [OF _ this assms(3)]
    have "settles v w (set (all_pids st) - set (renew_pids st))" if "try_wait w child = Inr (Some status)" for status
      unfolding pids using settles_ended [OF assms(2) try_wait_reliable(2) [OF that]] by blast
    note reaped = reload_after_reap_settles [OF _ this assms(3)]
    from try_wait_reliable(1) [OF settles_reliable [OF assms(2,3)], of child]
    consider "try_wait w child = Inr None" | status where "try_wait w child = Inr (Some status)"
      by (metis option.exhaust sum.exhaust)
    then show ?thesis
    proof cases
      case 1
      with assms(1) acme renew timed_out turn_goes_on [OF assms(2)] show ?thesis
        by (auto simp: monitor_renewal_def split: if_splits)
    next
      case 2
      with assms(1) acme renew reaped show ?thesis by (simp add: monitor_renewal_def)
    qed
  qed
qed

section \<open>The drain\<close>

lemma wait_opt_calms: "wait_opt child deadline w = (r, w') \<Longrightarrow> calms w w' \<and> (r \<longrightarrow> (\<forall>pid \<in> set (opt_pids child). \<not> alive w' pid))"
  by (auto simp: wait_opt_def opt_pids_def dest: wait_child_calms split: option.splits)

lemma opt_calms [simp]: "calms w (request_opt child w)" "calms w (force_opt child w)"
  by (simp_all add: request_opt_def force_opt_def split: option.splits)

lemma force_opt_dead: "pid \<in> set (opt_pids child) \<Longrightarrow> \<not> alive (force_opt child w) pid"
  by (auto simp: force_opt_def opt_pids_def split: option.splits)

lemma wait_each_calms [simp]: "calms w (wait_each pids deadline w)"
proof (induction pids deadline w rule: wait_each.induct)
  case (2 pid pids deadline w)
  then show ?case using wait_child_calms [of pid deadline w] calms_trans by (cases "wait_child_until_deadline pid deadline w") auto
qed simp

lemma fold_calms: "(\<And>pid w. calms w (f pid w)) \<Longrightarrow> calms w (fold f pids w)"
proof (induction pids arbitrary: w)
  case (Cons pid pids)
  then have "calms w (f pid w)" "calms (f pid w) (fold f pids (f pid w))" by blast+
  then show ?case using calms_trans by simp
qed simp

lemma fold_force_dead: "pid \<in> set pids \<Longrightarrow> \<not> alive (fold force_child_shutdown pids w) pid"
proof (induction pids arbitrary: w)
  case (Cons p pids)
  show ?case
  proof (cases "pid = p")
    case True
    then show ?thesis using calms_dead [OF fold_calms [of force_child_shutdown, OF request_calms(2)] force_dead] by simp
  qed (use Cons in simp)
qed simp

text \<open>A wait ends when the child is gone, the deadline has passed or a second signal has come, and within one poll of it.\<close>

definition stage_over :: "world \<Rightarrow> pid set \<Rightarrow> nat \<Rightarrow> bool" where
  "stage_over w pids deadline \<longleftrightarrow>
     (\<forall>pid \<in> pids. \<not> alive w pid) \<or> deadline \<le> w_now w \<or> (\<exists>t \<le> w_now w. 1 < w_signals w t)"

lemma stage_over_later: "stage_over w pids deadline \<Longrightarrow> calms w w' \<Longrightarrow> stage_over w' pids deadline"
  unfolding stage_over_def calms_def by (metis order_trans)

lemma stage_over_both: "stage_over w A deadline \<Longrightarrow> stage_over w B deadline \<Longrightarrow> stage_over w (A \<union> B) deadline"
  by (auto simp: stage_over_def)

lemma wait_child_over:
  assumes "wait_child_until_deadline pid deadline w = (r, w')"
  shows "w_trace w' = w_trace w \<and> w_now w' \<le> max (w_now w) (deadline + 19) \<and>
    (1 < w_signals w (w_now w) \<longrightarrow> w_now w' = w_now w) \<and> (reliable w \<longrightarrow> stage_over w' {pid} deadline)"
  using assms
proof (induction pid deadline w arbitrary: r w' rule: wait_child_until_deadline.induct)
  case (1 pid deadline w)
  show ?case
  proof (cases "try_wait w pid = Inr None \<and> \<not> 1 < w_signals w (w_now w) \<and> w_now w < deadline")
    case True
    then have "wait_child_until_deadline pid deadline (sleep 20 w) = (r, w')"
      using "1.prems" by (simp add: wait_child_until_deadline.simps [of pid deadline w])
    with True "1.IH" [of None] have "w_trace w' = w_trace (sleep 20 w) \<and> w_now w' \<le> max (w_now (sleep 20 w)) (deadline + 19) \<and>
        (reliable (sleep 20 w) \<longrightarrow> stage_over w' {pid} deadline)" by blast
    with True show ?thesis by (auto simp: reliable_def)
  next
    case False
    then show ?thesis using "1.prems" try_wait_reliable [of w pid]
      by (auto simp: wait_child_until_deadline.simps [of pid deadline w] stage_over_def split: sum.splits option.splits if_splits)
  qed
qed

lemma untimed [simp]:
  "w_now (terminate_process_group sig pid w) = w_now w" "w_now (request_child_term pid w) = w_now w"
  "w_now (force_child_shutdown pid w) = w_now w" "w_now (request_opt child w) = w_now w" "w_now (force_opt child w) = w_now w"
  by (simp_all add: terminate_process_group_def log_def request_child_term_def force_child_shutdown_def kill_and_wait_def
      request_opt_def force_opt_def split: option.splits)

lemma fold_untimed [simp]:
  "w_now (fold request_child_term pids w) = w_now w" "w_now (fold force_child_shutdown pids w) = w_now w"
  by (induction pids arbitrary: w) simp_all

lemma wait_each_over:
  assumes "wait_each pids deadline w = w'"
  shows "w_trace w' = w_trace w \<and> w_now w' \<le> max (w_now w) (deadline + 19) \<and> (1 < w_signals w (w_now w) \<longrightarrow> w_now w' = w_now w) \<and>
    (reliable w \<longrightarrow> stage_over w' (set pids) deadline)"
  using assms
proof (induction pids deadline w rule: wait_each.induct)
  case (2 pid pids deadline w)
  obtain r w1 where w1: "wait_child_until_deadline pid deadline w = (r, w1)" by fastforce
  have c: "calms w w1" "calms w1 w'" using wait_child_calms [OF w1] wait_each_calms [of w1 pids deadline] 2 w1 by auto
  have "w_signals w1 = w_signals w" using c by (simp add: calms_def)
  moreover have "stage_over w' ({pid} \<union> set pids) deadline" if "reliable w"
  proof (rule stage_over_both)
    show "stage_over w' {pid} deadline" using that wait_child_over [OF w1] stage_over_later [OF _ c(2)] by blast
    show "stage_over w' (set pids) deadline" using that 2 w1 calms_reliable [OF c(1)] by simp
  qed
  ultimately show ?case using 2 w1 wait_child_over [OF w1] by fastforce
qed (simp add: stage_over_def)

lemma wait_opt_over:
  assumes "wait_opt child deadline w = (r, w')"
  shows "w_trace w' = w_trace w \<and> w_now w' \<le> max (w_now w) (deadline + 19) \<and>
    (1 < w_signals w (w_now w) \<longrightarrow> w_now w' = w_now w) \<and> (reliable w \<longrightarrow> stage_over w' (set (opt_pids child)) deadline)"
  using assms wait_child_over by (auto simp: wait_opt_def opt_pids_def stage_over_def split: option.splits)

text \<open>A second signal, whenever it comes, ends all waiting within one poll.\<close>

definition hurries :: "world \<Rightarrow> world \<Rightarrow> bool" where
  "hurries w w' \<longleftrightarrow> (\<forall>t. (\<forall>u \<ge> t. 1 < w_signals w u) \<longrightarrow> w_now w' \<le> max (w_now w) (t + 19))"

lemma hurries_still: "w_now w' = w_now w \<Longrightarrow> hurries w w'"
  by (simp add: hurries_def)

lemma hurries_trans:
  assumes "hurries u v" and "hurries v w" and "calms u v"
  shows "hurries u w"
  unfolding hurries_def
proof (intro allI impI)
  fix t assume signals: "\<forall>x \<ge> t. 1 < w_signals u x"
  with assms(1) have "w_now v \<le> max (w_now u) (t + 19)" by (simp add: hurries_def)
  moreover from signals assms(2,3) have "w_now w \<le> max (w_now v) (t + 19)" by (simp add: hurries_def calms_def)
  ultimately show "w_now w \<le> max (w_now u) (t + 19)" by simp
qed

lemma wait_child_hurries: "wait_child_until_deadline pid deadline w = (r, w') \<Longrightarrow> hurries w w'"
proof (induction pid deadline w arbitrary: r w' rule: wait_child_until_deadline.induct)
  case (1 pid deadline w)
  show ?case
  proof (cases "try_wait w pid = Inr None \<and> \<not> 1 < w_signals w (w_now w) \<and> w_now w < deadline")
    case True
    then have "wait_child_until_deadline pid deadline (sleep 20 w) = (r, w')"
      using "1.prems" by (simp add: wait_child_until_deadline.simps [of pid deadline w])
    with True "1.IH" [of None] have "hurries (sleep 20 w) w'" by blast
    then have later: "(\<forall>u \<ge> t. 1 < w_signals w u) \<longrightarrow> w_now w' \<le> max (w_now w + 20) (t + 19)" for t
      by (simp add: hurries_def)
    show ?thesis unfolding hurries_def
    proof (intro allI impI)
      fix t assume signals: "\<forall>u \<ge> t. 1 < w_signals w u"
      with True have "w_now w < t" by (meson not_less)
      with later signals show "w_now w' \<le> max (w_now w) (t + 19)" by fastforce
    qed
  next
    case False
    then have "w' = w" using "1.prems"
      by (auto simp: wait_child_until_deadline.simps [of pid deadline w] split: sum.splits option.splits if_splits)
    then show ?thesis by (simp add: hurries_still)
  qed
qed

lemma wait_opt_hurries: "wait_opt child deadline w = (r, w') \<Longrightarrow> hurries w w'"
  using wait_child_hurries by (auto simp: wait_opt_def hurries_still split: option.splits)

lemma wait_each_hurries: "hurries w (wait_each pids deadline w)"
proof (induction pids deadline w rule: wait_each.induct)
  case (2 pid pids deadline w)
  obtain r w1 where w1: "wait_child_until_deadline pid deadline w = (r, w1)" by fastforce
  with 2 hurries_trans [OF wait_child_hurries [OF w1]] wait_child_calms [OF w1] show ?case by simp
qed (simp add: hurries_still)

text \<open>Only this signal, and only to these children, on the way from one world to the next.\<close>

definition signals_only :: "termination_signal \<Rightarrow> pid set \<Rightarrow> world \<Rightarrow> world \<Rightarrow> bool" where
  "signals_only sig pids w w' \<longleftrightarrow>
     (\<exists>es. w_trace w' = w_trace w @ es \<and> (\<forall>e \<in> set es. \<exists>pid \<in> pids. \<exists>t. e = Signalled pid sig t))"

lemma signals_only_refl: "w_trace w' = w_trace w \<Longrightarrow> signals_only sig pids w w'"
  by (simp add: signals_only_def)

lemma signals_only_trans [trans]: "signals_only sig pids u v \<Longrightarrow> signals_only sig pids v w \<Longrightarrow> signals_only sig pids u w"
  unfolding signals_only_def by (metis (no_types, lifting) Un_iff append_assoc set_append)

lemma signal_trace: "w_trace (terminate_process_group sig pid w) = w_trace w @ [Signalled pid sig (w_now w)]"
  by (simp add: terminate_process_group_def log_def split: option.splits)

lemma child_signals:
  "pid \<in> pids \<Longrightarrow> signals_only Term pids w (request_child_term pid w)"
  "pid \<in> pids \<Longrightarrow> signals_only Kill pids w (force_child_shutdown pid w)"
  by (auto simp: request_child_term_def force_child_shutdown_def kill_and_wait_def signals_only_def signal_trace)

lemma opt_signals:
  "set (opt_pids child) \<subseteq> pids \<Longrightarrow> signals_only Term pids w (request_opt child w)"
  "set (opt_pids child) \<subseteq> pids \<Longrightarrow> signals_only Kill pids w (force_opt child w)"
  using child_signals by (auto simp: request_opt_def force_opt_def opt_pids_def signals_only_refl split: option.splits)

lemma fold_signals:
  assumes "\<And>pid w. pid \<in> pids \<Longrightarrow> signals_only sig pids w (f pid w)" and "set ps \<subseteq> pids"
  shows "signals_only sig pids w (fold f ps w)"
  using assms(2)
proof (induction ps arbitrary: w)
  case (Cons p ps)
  then have "signals_only sig pids w (f p w)" "signals_only sig pids (f p w) (fold f ps (f p w))" using assms(1) by auto
  then show ?case using signals_only_trans by simp
qed (simp add: signals_only_refl)

text \<open>Every one of these children that is alive is sent SIGTERM now.\<close>

definition asked :: "pid set \<Rightarrow> world \<Rightarrow> world \<Rightarrow> bool" where
  "asked pids w w' \<longleftrightarrow> (\<forall>pid \<in> pids. alive w pid \<longrightarrow> Signalled pid Term (w_now w) \<in> set (w_trace w'))"

lemma asked_later: "asked pids w w1 \<Longrightarrow> signals_only sig ps w1 w2 \<Longrightarrow> asked pids w w2"
  by (auto simp: asked_def signals_only_def)

lemma asked_Un: "asked A w w' \<Longrightarrow> asked B w w' \<Longrightarrow> asked (A \<union> B) w w'"
  by (auto simp: asked_def)

lemma request_asks: "asked {pid} w (request_child_term pid w)"
  by (auto simp: asked_def request_child_term_def signal_trace dest: has_exited_dead)

lemma signal_procs: "q \<noteq> pid \<Longrightarrow> w_procs (terminate_process_group sig pid w) q = w_procs w q"
  by (simp add: terminate_process_group_def log_def split: option.splits)

lemma request_others: "q \<noteq> pid \<Longrightarrow> alive (request_child_term pid w) q = alive w q"
  by (simp add: alive_def request_child_term_def signal_procs cong: option.case_cong)

lemma asked_after_request: "asked A (request_child_term pid w) w' \<Longrightarrow> asked {pid} w w' \<Longrightarrow> asked A w w'"
  unfolding asked_def by (metis request_others singletonI untimed(2))

lemma fold_request_asks: "asked (set ps) w (fold request_child_term ps w)"
proof (induction ps arbitrary: w)
  case (Cons p ps)
  let ?w' = "fold request_child_term ps (request_child_term p w)"
  have "signals_only Term (set ps) (request_child_term p w) ?w'"
    by (rule fold_signals [OF child_signals(1)]) simp_all
  then have "asked {p} w ?w'" using request_asks asked_later by blast
  moreover have "asked (set ps) w ?w'" using asked_after_request [OF Cons.IH \<open>asked {p} w ?w'\<close>] .
  ultimately show ?case using asked_Un [of "{p}" w ?w' "set ps"] by simp
qed (simp add: asked_def)

lemma request_opt_fold: "request_opt child w = fold request_child_term (opt_pids child) w"
  by (simp add: request_opt_def opt_pids_def split: option.split)

lemma sidecars_asked:
  "asked (set (opt_pids cable) \<union> set (opt_pids grpc)) w (request_opt grpc (request_opt cable w))"
  using fold_request_asks [of "opt_pids cable @ opt_pids grpc" w] by (simp add: request_opt_fold)

text \<open>The worlds between the stages of a drain.\<close>

lemma drain_serviceE:
  assumes "drain_service edge cable grpc workers grace edge_grace wait w = (ws, w')"
  obtains edge_done w2 cable_done w4 grpc_done w5 w7 where
    "wait_child_until_deadline edge (min (w_now w + edge_grace) (w_now w + grace)) (request_child_term edge w) = (edge_done, w2)"
    "wait_opt cable (min (w_now w2 + SIDECAR_DRAIN_WAIT) (w_now w + grace)) (request_opt grpc (request_opt cable w2)) = (cable_done, w4)"
    "wait_opt grpc (min (w_now w2 + SIDECAR_DRAIN_WAIT) (w_now w + grace)) w4 = (grpc_done, w5)"
    "w7 = wait_each (worker_pids workers) (min (w_now w5 + wait) (w_now w + grace)) (fold request_child_term (worker_pids workers) w5)"
    "w' = fold force_child_shutdown (worker_pids workers)
       ((if grpc_done then id else force_opt grpc) ((if cable_done then id else force_opt cable)
         ((if edge_done then id else force_child_shutdown edge) w7)))"
    "ws = map (stop_slot \<circ> drain_slot) workers"
proof -
  have stage: "bounded_stage_deadline d s u = min (w_now u + s) d" for d s u
    by (auto simp: bounded_stage_deadline_def min_def Let_def)
  obtain edge_done w2 where e2: "wait_child_until_deadline edge (min (w_now w + edge_grace) (w_now w + grace))
      (request_child_term edge w) = (edge_done, w2)" by fastforce
  obtain cable_done w4 where e4: "wait_opt cable (min (w_now w2 + SIDECAR_DRAIN_WAIT) (w_now w + grace))
      (request_opt grpc (request_opt cable w2)) = (cable_done, w4)" by fastforce
  obtain grpc_done w5 where e5: "wait_opt grpc (min (w_now w2 + SIDECAR_DRAIN_WAIT) (w_now w + grace)) w4 = (grpc_done, w5)"
    by fastforce
  show thesis
    by (rule that [OF e2 e4 e5 refl]) (use assms in \<open>auto simp: drain_service_def stage e2 e4 e5 Let_def\<close>)
qed

lemma drain_settles:
  assumes "drain_service edge cable grpc workers grace edge_grace wait w = (ws, w')"
  shows "calms w w'"
    and "pid \<in> {edge} \<union> set (opt_pids cable) \<union> set (opt_pids grpc) \<union> set (worker_pids workers) \<Longrightarrow> \<not> alive w' pid"
proof -
  obtain edge_done w2 cable_done w4 grpc_done w5 w7 where e:
    "wait_child_until_deadline edge (min (w_now w + edge_grace) (w_now w + grace)) (request_child_term edge w) = (edge_done, w2)"
    "wait_opt cable (min (w_now w2 + SIDECAR_DRAIN_WAIT) (w_now w + grace)) (request_opt grpc (request_opt cable w2)) = (cable_done, w4)"
    "wait_opt grpc (min (w_now w2 + SIDECAR_DRAIN_WAIT) (w_now w + grace)) w4 = (grpc_done, w5)"
    "w7 = wait_each (worker_pids workers) (min (w_now w5 + wait) (w_now w + grace)) (fold request_child_term (worker_pids workers) w5)"
    "w' = fold force_child_shutdown (worker_pids workers)
       ((if grpc_done then id else force_opt grpc) ((if cable_done then id else force_opt cable)
         ((if edge_done then id else force_child_shutdown edge) w7)))"
    "ws = map (stop_slot \<circ> drain_slot) workers" using assms by (rule drain_serviceE)
  have c2: "calms w w2" using calms_trans [OF request_calms(1)] wait_child_calms [OF e(1)] by blast
  have c4: "calms w2 w4"
    using calms_trans [OF calms_trans [OF opt_calms(1) opt_calms(1)]] wait_opt_calms [OF e(2)] by blast
  have c5: "calms w4 w5" using wait_opt_calms [OF e(3)] by blast
  have c7: "calms w5 w7" unfolding e(4) by (rule calms_trans [OF fold_calms [of request_child_term, OF request_calms(1)] wait_each_calms])
  let ?w8 = "(if edge_done then id else force_child_shutdown edge) w7"
  let ?w9 = "(if cable_done then id else force_opt cable) ?w8"
  let ?w10 = "(if grpc_done then id else force_opt grpc) ?w9"
  have c8: "calms w7 ?w8" and c9: "calms ?w8 ?w9" and c10: "calms ?w9 ?w10" by simp_all
  have c': "calms ?w10 w'" unfolding e(5) by (rule fold_calms) simp
  note chain = calms_trans [OF c2 calms_trans [OF c4 calms_trans [OF c5 c7]]]
  note tail = calms_trans [OF c8 calms_trans [OF c9 calms_trans [OF c10 c']]]
  show "calms w w'" using calms_trans [OF chain tail] .
  have "\<not> alive ?w8 edge"
    using wait_child_calms [OF e(1)] calms_dead [OF calms_trans [OF c4 calms_trans [OF c5 calms_trans [OF c7 c8]]]]
    by (cases edge_done) auto
  then have edge: "\<not> alive w' edge" using calms_dead [OF calms_trans [OF c9 calms_trans [OF c10 c']]] by blast
  have "\<not> alive ?w9 p" if "p \<in> set (opt_pids cable)" for p
    using that wait_opt_calms [OF e(2)] calms_dead [OF calms_trans [OF c5 calms_trans [OF c7 calms_trans [OF c8 c9]]]] force_opt_dead
    by (cases cable_done) auto
  then have cable: "\<not> alive w' p" if "p \<in> set (opt_pids cable)" for p using that calms_dead [OF calms_trans [OF c10 c']] by blast
  have "\<not> alive ?w10 p" if "p \<in> set (opt_pids grpc)" for p
    using that wait_opt_calms [OF e(3)] calms_dead [OF calms_trans [OF c7 calms_trans [OF c8 calms_trans [OF c9 c10]]]] force_opt_dead
    by (cases grpc_done) auto
  then have grpc: "\<not> alive w' p" if "p \<in> set (opt_pids grpc)" for p using that calms_dead [OF c'] by blast
  show "pid \<in> {edge} \<union> set (opt_pids cable) \<union> set (opt_pids grpc) \<union> set (worker_pids workers) \<Longrightarrow> \<not> alive w' pid"
    using edge cable grpc fold_force_dead unfolding e(5) by blast
qed

lemma drain_time:
  assumes "drain_service edge cable grpc workers grace edge_grace wait w = (ws, w')"
  shows "w_now w' \<le> w_now w + grace + 19" and "1 < w_signals w (w_now w) \<Longrightarrow> w_now w' = w_now w" and "hurries w w'"
proof -
  obtain edge_done w2 cable_done w4 grpc_done w5 w7 where e:
    "wait_child_until_deadline edge (min (w_now w + edge_grace) (w_now w + grace)) (request_child_term edge w) = (edge_done, w2)"
    "wait_opt cable (min (w_now w2 + SIDECAR_DRAIN_WAIT) (w_now w + grace)) (request_opt grpc (request_opt cable w2)) = (cable_done, w4)"
    "wait_opt grpc (min (w_now w2 + SIDECAR_DRAIN_WAIT) (w_now w + grace)) w4 = (grpc_done, w5)"
    "w7 = wait_each (worker_pids workers) (min (w_now w5 + wait) (w_now w + grace)) (fold request_child_term (worker_pids workers) w5)"
    "w' = fold force_child_shutdown (worker_pids workers)
       ((if grpc_done then id else force_opt grpc) ((if cable_done then id else force_opt cable)
         ((if edge_done then id else force_child_shutdown edge) w7)))"
    "ws = map (stop_slot \<circ> drain_slot) workers" using assms by (rule drain_serviceE)
  have signals: "w_signals w2 = w_signals w" "w_signals w4 = w_signals w" "w_signals w5 = w_signals w"
    using wait_child_calms [OF e(1)] wait_opt_calms [OF e(2)] wait_opt_calms [OF e(3)] request_calms(1) [of w edge]
      calms_trans [OF opt_calms(1) opt_calms(1), of w2] by (simp_all add: calms_def)
  have now: "w_now w' = w_now w7" unfolding e(5) by simp
  have t2: "w_now w2 \<le> max (w_now w) (w_now w + grace + 19)" using wait_child_over [OF e(1)] by auto
  have t4: "w_now w4 \<le> max (w_now w2) (w_now w + grace + 19)" using wait_opt_over [OF e(2)] by auto
  have t5: "w_now w5 \<le> max (w_now w4) (w_now w + grace + 19)" using wait_opt_over [OF e(3)] by auto
  have "w_now w7 \<le> max (w_now w5) (w_now w + grace + 19)" using wait_each_over [OF e(4) [symmetric]] by auto
  with now t2 t4 t5 show "w_now w' \<le> w_now w + grace + 19" by linarith
  show "1 < w_signals w (w_now w) \<Longrightarrow> w_now w' = w_now w"
    using now wait_child_over [OF e(1)] wait_opt_over [OF e(2)] wait_opt_over [OF e(3)] wait_each_over [OF e(4) [symmetric]]
      signals calms_trans [OF opt_calms(1) opt_calms(1), of w2] request_calms(1) [of w edge]
      fold_calms [of request_child_term, OF request_calms(1)]
    by (simp add: calms_def)
  have c2: "calms w w2" using calms_trans [OF request_calms(1)] wait_child_calms [OF e(1)] by blast
  have c4: "calms w2 w4" using calms_trans [OF calms_trans [OF opt_calms(1) opt_calms(1)]] wait_opt_calms [OF e(2)] by blast
  have c5: "calms w4 w5" using wait_opt_calms [OF e(3)] by blast
  have h2: "hurries w w2" using hurries_trans [OF hurries_still wait_child_hurries [OF e(1)] request_calms(1)] by simp
  have h4: "hurries w2 w4"
    using hurries_trans [OF hurries_still wait_opt_hurries [OF e(2)] calms_trans [OF opt_calms(1) opt_calms(1)]] by simp
  have h7: "hurries w5 w7" unfolding e(4)
    using hurries_trans [OF hurries_still wait_each_hurries fold_calms [of request_child_term, OF request_calms(1)]] by simp
  have "hurries w w7"
    using hurries_trans [OF h2 hurries_trans [OF h4 hurries_trans [OF wait_opt_hurries [OF e(3)] h7 c5] c4] c2] .
  with now show "hurries w w'" by (simp add: hurries_def)
qed

lemma drain_stages:
  assumes "drain_service edge cable grpc workers grace edge_grace wait w = (ws, w')" and "reliable w"
  shows "\<exists>w2 w5 w7.
    signals_only Term {edge} w w2 \<and> asked {edge} w w2 \<and>
    stage_over w2 {edge} (min (w_now w + edge_grace) (w_now w + grace)) \<and>
    signals_only Term (set (opt_pids cable) \<union> set (opt_pids grpc)) w2 w5 \<and>
    asked (set (opt_pids cable) \<union> set (opt_pids grpc)) w2 w5 \<and>
    stage_over w5 (set (opt_pids cable) \<union> set (opt_pids grpc)) (min (w_now w2 + SIDECAR_DRAIN_WAIT) (w_now w + grace)) \<and>
    signals_only Term (set (worker_pids workers)) w5 w7 \<and> asked (set (worker_pids workers)) w5 w7 \<and>
    stage_over w7 (set (worker_pids workers)) (min (w_now w5 + wait) (w_now w + grace)) \<and>
    signals_only Kill ({edge} \<union> set (opt_pids cable) \<union> set (opt_pids grpc) \<union> set (worker_pids workers)) w7 w'"
proof -
  obtain edge_done w2 cable_done w4 grpc_done w5 w7 where e:
    "wait_child_until_deadline edge (min (w_now w + edge_grace) (w_now w + grace)) (request_child_term edge w) = (edge_done, w2)"
    "wait_opt cable (min (w_now w2 + SIDECAR_DRAIN_WAIT) (w_now w + grace)) (request_opt grpc (request_opt cable w2)) = (cable_done, w4)"
    "wait_opt grpc (min (w_now w2 + SIDECAR_DRAIN_WAIT) (w_now w + grace)) w4 = (grpc_done, w5)"
    "w7 = wait_each (worker_pids workers) (min (w_now w5 + wait) (w_now w + grace)) (fold request_child_term (worker_pids workers) w5)"
    "w' = fold force_child_shutdown (worker_pids workers)
       ((if grpc_done then id else force_opt grpc) ((if cable_done then id else force_opt cable)
         ((if edge_done then id else force_child_shutdown edge) w7)))"
    "ws = map (stop_slot \<circ> drain_slot) workers" using assms(1) by (rule drain_serviceE)
  let ?S = "set (opt_pids cable) \<union> set (opt_pids grpc)" and ?W = "set (worker_pids workers)"
  let ?All = "{edge} \<union> set (opt_pids cable) \<union> set (opt_pids grpc) \<union> ?W"
  have r1: "reliable (request_child_term edge w)" using calms_reliable [OF request_calms(1)] assms(2) by blast
  then have r2: "reliable w2" using calms_reliable wait_child_calms [OF e(1)] by blast
  then have r3: "reliable (request_opt grpc (request_opt cable w2))"
    using calms_reliable [OF calms_trans [OF opt_calms(1) opt_calms(1)]] by blast
  then have r4: "reliable w4" using calms_reliable wait_opt_calms [OF e(2)] by blast
  then have "reliable w5" using calms_reliable wait_opt_calms [OF e(3)] by blast
  then have r6: "reliable (fold request_child_term (worker_pids workers) w5)"
    using calms_reliable [OF fold_calms [of request_child_term, OF request_calms(1)]] by blast
  have s2: "signals_only Term {edge} w w2"
    using signals_only_trans [OF child_signals(1)] signals_only_refl wait_child_over [OF e(1)] by blast
  have "signals_only Term ?S w2 (request_opt grpc (request_opt cable w2))"
    by (rule signals_only_trans [OF opt_signals(1) opt_signals(1)]) auto
  then have s5: "signals_only Term ?S w2 w5"
    using signals_only_trans signals_only_refl wait_opt_over [OF e(2)] wait_opt_over [OF e(3)] by blast
  have o5: "stage_over w5 ?S (min (w_now w2 + SIDECAR_DRAIN_WAIT) (w_now w + grace))"
    using stage_over_both stage_over_later wait_opt_over [OF e(2)] wait_opt_over [OF e(3)] r3 r4 wait_opt_calms [OF e(3)] by metis
  have s7: "signals_only Term ?W w5 w7"
    using signals_only_trans [OF fold_signals [of ?W Term request_child_term, OF child_signals(1)]] signals_only_refl
      wait_each_over [OF e(4) [symmetric]] by blast
  have a2: "asked {edge} w w2"
    using asked_later [OF request_asks signals_only_refl] wait_child_over [OF e(1)] by blast
  have "asked ?S w2 w4" using asked_later [OF sidecars_asked signals_only_refl] wait_opt_over [OF e(2)] by blast
  then have a5: "asked ?S w2 w5" using asked_later [OF _ signals_only_refl] wait_opt_over [OF e(3)] by blast
  have a7: "asked ?W w5 w7"
    using asked_later [OF fold_request_asks signals_only_refl] wait_each_over [OF e(4) [symmetric]] by blast
  have k8: "signals_only Kill ?All w7 ((if edge_done then id else force_child_shutdown edge) w7)"
    by (auto intro: child_signals signals_only_refl)
  have k9: "signals_only Kill ?All v ((if cable_done then id else force_opt cable) v)"
    "signals_only Kill ?All v ((if grpc_done then id else force_opt grpc) v)" for v
    by (auto intro: opt_signals signals_only_refl)
  have "signals_only Kill ?All w7 w'" unfolding e(5)
    by (rule signals_only_trans [OF signals_only_trans [OF signals_only_trans [OF k8 k9(1)] k9(2)] fold_signals])
      (auto intro: child_signals)
  with s2 s5 o5 s7 a2 a5 a7 wait_child_over [OF e(1)] r1 wait_each_over [OF e(4) [symmetric]] r6 show ?thesis by blast
qed

section \<open>A whole run\<close>

lemma poll_opt_cases:
  assumes "reliable w"
  obtains "poll_opt child w = Inr None" | status pid where "poll_opt child w = Inr (Some status)" "child = Some pid" "\<not> alive w pid"
proof (cases child)
  case (Some pid)
  from try_wait_reliable(1) [OF assms, of pid]
  consider "try_wait w pid = Inr None" | status where "try_wait w pid = Inr (Some status)"
    by (metis option.exhaust sum.exhaust)
  then show thesis
    using that Some try_wait_reliable(2) [of w pid] by cases (auto simp: poll_opt_def)
qed (use that in \<open>auto simp: poll_opt_def\<close>)

lemma monitor_drain_settles:
  assumes "settles v w (set (all_pids st))" and "shutdown_requested w" and "monitor_step conf st w = (r, st', w')"
  shows "turn_settles v r st' w' \<and> r = Some (Inr ())"
proof -
  define w1 where "w1 = terminate_all (renew_pids st)
      (notify_systemd (''STOPPING=1'' @ [CHR 0x0A] @ ''STATUS=Oxo draining after shutdown signal'') w)"
  obtain ws w2 where drained: "drain_service (rs_edge st) (rs_cable st) (rs_grpc st) (rs_workers st) (sf_drain_grace conf)
      (sf_edge_drain_grace conf) (sf_worker_drain_wait conf) w1 = (ws, w2)" by fastforce
  have s1: "settles v w1 (set (all_pids st) - set (renew_pids st))"
    unfolding w1_def by (rule settles_terminate [OF settles_then_calms [OF assms(1) calms_log(2)]]) simp
  have "settles v w2 {}"
    using settles_then_calms [OF s1 drain_settles(1) [OF drained]] drain_settles(2) [OF drained]
    by (auto simp: settles_def only_alive_def all_pids_set)
  moreover have "r = Some (Inr ())" "w' = w2"
    using assms(2,3) drained [unfolded w1_def] by (auto simp: monitor_step_def Let_def)
  ultimately show ?thesis using turn_ended by simp
qed

lemma monitor_step_settles:
  assumes "monitor_step conf st w = (r, st', w')" and "settles v w (set (all_pids st))" and "reliable v"
  shows "turn_settles v r st' w'"
proof (cases "shutdown_requested w")
  case True
  then show ?thesis using monitor_drain_settles assms by blast
next
  case False
  have rel: "reliable w" using settles_reliable [OF assms(2,3)] .
  have gone: "settles v w (set (all_pids st) - {pid})" if "\<not> alive w pid" for pid using settles_ended [OF assms(2) that] by simp
  show ?thesis
  proof (cases rule: poll_opt_cases [OF rel, of "Some (rs_edge st)"])
    case 1
    show ?thesis
    proof (cases rule: poll_opt_cases [OF rel, of "rs_cable st"])
      case cable: 1
      show ?thesis
      proof (cases rule: poll_opt_cases [OF rel, of "rs_grpc st"])
        case grpc: 1
        obtain q st1 w1 where workers: "monitor_workers conf st w = (q, st1, w1)" by (metis prod_cases3)
        note turn1 = monitor_workers_settles [OF workers assms(2,3)]
        show ?thesis
        proof (cases q)
          case None
          obtain q2 st2 w2 where renewal: "monitor_renewal conf st1 w1 = (q2, st2, w2)" by (metis prod_cases3)
          from turn1 None have "settles v w1 (set (all_pids st1))" by (simp add: turn_settles_def)
          note turn2 = monitor_renewal_settles [OF renewal this assms(3)]
          with settles_then_calms [OF _ calms_sleep] False 1 cable grpc workers None renewal assms(1) show ?thesis
            by (cases q2) (auto simp: monitor_step_def poll_opt_def turn_settles_def)
        next
          case (Some res)
          with False 1 cable grpc workers assms(1) turn1 show ?thesis by (simp add: monitor_step_def poll_opt_def)
        qed
      next
        case (2 status pid)
        with False 1 cable assms(1) have "give_up ''gRPC exited''
            (renew_pids st @ rs_edge st # opt_pids (rs_cable st) @ worker_pids (rs_workers st)) (ChildExited ''grpc'' status) st w =
            (r, st', w')" by (simp add: monitor_step_def poll_opt_def)
        from gave_up [OF this gone [OF 2(3)]] 2(2) show ?thesis by (auto simp: all_pids_set opt_pids_def)
      qed
    next
      case (2 status pid)
      with False 1 assms(1) have "give_up ''Action Cable exited''
          (renew_pids st @ rs_edge st # opt_pids (rs_grpc st) @ worker_pids (rs_workers st)) (ChildExited ''cable'' status) st w =
          (r, st', w')" by (simp add: monitor_step_def poll_opt_def)
      from gave_up [OF this gone [OF 2(3)]] 2(2) show ?thesis by (auto simp: all_pids_set opt_pids_def)
    qed
  next
    case (2 status pid)
    with False assms(1) have "give_up ''edge exited''
        (renew_pids st @ opt_pids (rs_grpc st) @ opt_pids (rs_cable st) @ worker_pids (rs_workers st)) (ChildExited ''edge'' status) st w =
        (r, st', w')" by (simp add: monitor_step_def poll_opt_def)
    from gave_up [OF this gone [OF 2(3)]] 2(2) show ?thesis by (auto simp: all_pids_set)
  qed
qed

lemma monitor_children_settles:
  assumes "monitor_children fuel conf st w = Some (r, w')" and "settles v w (set (all_pids st))" and "reliable v"
    and "\<forall>message. r \<noteq> Inl (AcmeReload message)"
  shows "only_alive w' {}"
  using assms(1,2)
proof (induction fuel arbitrary: st w)
  case (Suc fuel)
  obtain q st1 w1 where step: "monitor_step conf st w = (q, st1, w1)" by (metis prod_cases3)
  note turn = monitor_step_settles [OF step Suc.prems(2) assms(3)]
  with Suc step assms(4) show ?case by (cases q) (auto simp: turn_settles_def)
qed simp

lemma abort_start_settles:
  assumes "settles v w S" and "S \<subseteq> set pids" and "abort_start message pids err w = (r, w')"
  shows "settles v w' {}" and "settles v w' (case r of Inr st \<Rightarrow> f st | Inl _ \<Rightarrow> {})"
  using settles_terminate [OF settles_then_calms [OF assms(1) calms_log(2)], of pids "{}"] assms(2,3)
  by (auto simp: abort_start_def)

lemma start_edge_settles:
  assumes "start_edge conf workers cable grpc w = (r, w')" and "reliable v"
    and "settles v w (set (worker_pids workers) \<union> set (opt_pids cable) \<union> set (opt_pids grpc))"
  shows "settles v w' (case r of Inr st \<Rightarrow> set (all_pids st) | Inl _ \<Rightarrow> {})"
proof -
  let ?others = "opt_pids grpc @ opt_pids cable @ worker_pids workers"
  have s0: "settles v w (set ?others)" using assms(3) by (rule settles_mono) auto
  obtain r1 w1 where spawned: "spawn_edge conf w = (r1, w1)" by fastforce
  note s1 = spawn_settles [OF spawned [unfolded spawn_edge_def] s0]
  show ?thesis
  proof (cases r1)
    case (Inl err)
    with s1 have "settles v w1 (set ?others)" by simp
    from abort_start_settles(2) [OF this subset_refl] assms(1) spawned Inl show ?thesis by (auto simp: start_edge_def Let_def)
  next
    case edge: (Inr edge)
    obtain r2 w2 where waited: "wait_for_edge_ready edge (sf_edge_bind conf) w1 = (r2, w2)" by fastforce
    have s2: "settles v w2 (case r2 of Inr _ \<Rightarrow> insert edge (set ?others) | Inl _ \<Rightarrow> set ?others)"
      using listener_settles [OF waited [unfolded wait_for_edge_ready_def] _ assms(2)] s1 edge by simp
    show ?thesis
    proof (cases r2)
      case (Inl err)
      with s2 have s2: "settles v w2 (set ?others)" by simp
      from assms(1) spawned edge waited Inl have "abort_start ''edge readiness failed'' (edge # ?others) err w2 = (r, w')"
        by (simp add: start_edge_def Let_def)
      then show ?thesis by (rule abort_start_settles(2) [OF s2, rotated]) auto
    next
      case (Inr u)
      with s2 have s2: "settles v w2 (insert edge (set ?others))" by simp
      let ?next = "if sf_acme_renew conf = None then (Inr (), edge, w2)
          else reconcile_boot_marker conf (w_epoch w (w_now w)) edge w2"
      obtain r3 edge3 w3 where third: "?next = (r3, edge3, w3)" by (metis prod_cases3)
      have "reload_settles v r3 edge3 w3 (insert edge (set ?others) - {edge})"
      proof (cases "sf_acme_renew conf = None")
        case True
        with third s2 show ?thesis using reload_settles_ok(1) [of v w2 edge "insert edge (set ?others) - {edge}"] by auto
      next
        case False
        with third show ?thesis by (intro reconcile_settles [OF _ s2 assms(2)]) simp
      qed
      then have s3: "settles v w3 (insert edge3 (set ?others))" by (auto simp: reload_settles_def elim!: settles_mono)
      show ?thesis
      proof (cases r3)
        case (Inl err)
        with assms(1) spawned edge waited Inr third
        have "abort_start ''boot certificate reconcile failed'' (edge3 # ?others) err w3 = (r, w')"
          by (simp add: start_edge_def Let_def)
        then show ?thesis by (rule abort_start_settles(2) [OF s3, rotated]) auto
      next
        case ready: (Inr u3)
        have "settles v w3 (insert edge3 (set (opt_pids cable) \<union> set (opt_pids grpc) \<union> set (worker_pids workers)))"
          using s3 by (rule settles_mono) auto
        then have "settles v (notify_systemd m w3)
            (insert edge3 (set (opt_pids cable) \<union> set (opt_pids grpc) \<union> set (worker_pids workers)))" for m
          by (rule settles_then_calms) simp
        moreover have "opt_pids None = []" by (simp add: opt_pids_def)
        ultimately show ?thesis using assms(1) spawned edge waited Inr third ready
          by (auto simp: start_edge_def Let_def all_pids_set renew_pids_def)
      qed
    qed
  qed
qed

lemma start_service_settles:
  assumes "start_service conf w = (r, w')" and "reliable w" and "only_alive w {}" and "length (sf_worker_sockets conf) < 2 ^ 32"
  shows "settles w w' (case r of Inr (Some st) \<Rightarrow> set (all_pids st) | _ \<Rightarrow> {})"
proof -
  obtain r1 w1 where pool: "spawn_worker_pool conf w = (r1, w1)" by fastforce
  note s1 = spawn_worker_pool_settles [OF pool assms(2,3,4)]
  consider (failed) "\<forall>ws. r1 \<noteq> Inr (Some ws)" | (booted) ws where "r1 = Inr (Some ws)" by blast
  then show ?thesis
  proof cases
    case failed
    then have "settles w w1 {}" using s1 by (auto split: sum.splits option.splits)
    moreover from this have "settles w (notify_systemd m w1) {}" for m by (rule settles_then_calms) simp
    ultimately show ?thesis using assms(1) pool failed by (auto simp: start_service_def split: sum.splits option.splits)
  next
    case (booted ws)
    with s1 have s1: "settles w w1 (set (worker_pids ws))" by simp
    obtain r2 w2 where cable: "spawn_cable conf w1 = (r2, w2)" by fastforce
    note s2 = sidecar_settles(1) [OF s1 assms(2) cable]
    show ?thesis
    proof (cases r2)
      case (Inl err)
      with s2 have "settles w w2 (set (worker_pids ws))" by simp
      from abort_start_settles(1) [OF this subset_refl] assms(1) pool booted cable Inl show ?thesis
        by (auto simp: start_service_def split: prod.splits)
    next
      case c: (Inr c)
      with s2 have s2: "settles w w2 (set (worker_pids ws) \<union> set (opt_pids c))" by simp
      obtain r3 w3 where grpc: "spawn_grpc conf w2 = (r3, w3)" by fastforce
      note s3 = sidecar_settles(2) [OF s2 assms(2) grpc]
      show ?thesis
      proof (cases r3)
        case (Inl err)
        with s3 have "settles w w3 (set (worker_pids ws) \<union> set (opt_pids c))" by simp
        then have "abort_start m (opt_pids c @ worker_pids ws) err w3 = (q, u) \<Longrightarrow> settles w u {}" for m q u
          by (rule abort_start_settles(1)) auto
        with assms(1) pool booted cable c grpc Inl show ?thesis
          by (auto simp: start_service_def split: prod.splits)
      next
        case g: (Inr g)
        obtain r4 w4 where edge: "start_edge conf ws c g w3 = (r4, w4)" by fastforce
        have "settles w w4 (case r4 of Inr st \<Rightarrow> set (all_pids st) | Inl _ \<Rightarrow> {})"
          using start_edge_settles [OF edge assms(2)] s3 g by simp
        with assms(1) pool booted cable c grpc g edge show ?thesis
          by (auto simp: start_service_def split: sum.splits)
      qed
    qed
  qed
qed

end
