(* ===== verification/Service_Run.thy ===== *)
theory Service_Run
  imports Service_Lifecycle
begin

text \<open>
  What the supervisor guarantees over a whole run: no child outlives it, a shutdown signal ends it, the
  drain is staged and bounded, a restarted worker keeps its place, and what a failed certificate
  reload leaves behind.
\<close>

section \<open>A small service\<close>

text \<open>One worker and the edge, each of which ends at once on SIGTERM; the signal comes after 50 ms.\<close>

definition run_sample_conf :: service_config where
  "run_sample_conf =
     \<lparr>sf_worker_bin = Some ''/opt/oxo-worker'', sf_worker_launch = LaunchClassic, sf_worker_ready_timeout = 15000,
      sf_worker_respawn_ready_timeout = 15000, sf_worker_drain_wait = 1000, sf_edge_bin = ''/opt/oxo-pingora-edge'',
      sf_worker_socket = ''/r/w'', sf_worker_sockets = [''/r/w''], sf_worker_count = 1, sf_edge_bind = SockV4 0x7F000001 80,
      sf_check_config = False, sf_cable_bin = None, sf_cable_bind = None, sf_grpc_bin = None, sf_grpc_bind = None,
      sf_drain_grace = 5000, sf_edge_drain_grace = 2000, sf_worker_env = [], sf_edge_env = [], sf_edge_args = [],
      sf_cable_env = [], sf_grpc_env = [], sf_acme_renew = None\<rparr>"

definition run_sample_proc :: proc where
  "run_sample_proc =
     \<lparr>pr_exit_at = None, pr_term_delay = Some 0, pr_status = 0, pr_stdout = True, pr_stderr = True,
      pr_reads = [(0, ReadLine ''OXO_WORKER_READY=/r/w'')], pr_term_at = None, pr_killed = False\<rparr>"

definition run_sample_files :: file_system where
  "run_sample_files p =
     (if p = ''/r'' then Inr \<lparr>md_file_type = FtDir, md_mode = 0x1C0\<rparr>
      else if p = ''/r/w'' then Inr \<lparr>md_file_type = FtSocket, md_mode = 0x180\<rparr>
      else Inl (NotFound ''no such file''))"

definition run_sample_world :: world where
  "run_sample_world =
     \<lparr>w_now = 0, w_signals = (\<lambda>t. if t < 50 then 0 else 1), w_spawn = (\<lambda>_ _. Inr run_sample_proc), w_connect = (\<lambda>_ _. (True, 0)),
      w_probe = (\<lambda>_ _. Inr ()), w_files = (\<lambda>_. run_sample_files), w_wait_error = (\<lambda>_ _. None), w_marker = (\<lambda>_. Inr None),
      w_consume = (\<lambda>_. Inr ()), w_rollback = (\<lambda>_. Inr ()), w_epoch = (\<lambda>_. 0), w_ca_env = [], w_count = 0,
      w_procs = (\<lambda>_. None), w_trace = []\<rparr>"

lemma run_sample_ready:
  "finish_worker_ready ''OXO_WORKER_READY=/r/w'' wid generation ''/r/w'' w = Inr (ready_slot wid generation ''/r/w'')"
  if "w_files w = (\<lambda>_. run_sample_files)" "w_probe w = (\<lambda>_ _. Inr ())"
proof -
  have strings: "ready_socket_from_line ''OXO_WORKER_READY=/r/w'' = Inr ''/r/w''" "path_eq ''/r/w'' ''/r/w''"
    "validate_worker_socket_path run_sample_files ''/r/w'' = Inr ()"
    by code_simp+
  show ?thesis by (simp add: finish_worker_ready_def strings that probe_worker_socket_def)
qed

definition run_sample_child :: "nat \<Rightarrow> command \<Rightarrow> world \<Rightarrow> world" where
  "run_sample_child pid cmd w =
     log (Launched pid cmd) (w\<lparr>w_count := Suc pid, w_procs := (w_procs w)(pid \<mapsto> run_sample_proc)\<rparr>)"

lemma run_sample_child_fields [simp]:
  "w_now (run_sample_child pid cmd w) = w_now w" "w_signals (run_sample_child pid cmd w) = w_signals w"
  "w_spawn (run_sample_child pid cmd w) = w_spawn w" "w_connect (run_sample_child pid cmd w) = w_connect w"
  "w_probe (run_sample_child pid cmd w) = w_probe w" "w_files (run_sample_child pid cmd w) = w_files w"
  "w_wait_error (run_sample_child pid cmd w) = w_wait_error w" "w_count (run_sample_child pid cmd w) = Suc pid"
  "w_procs (run_sample_child pid cmd w) = (w_procs w)(pid \<mapsto> run_sample_proc)"
  "w_epoch (run_sample_child pid cmd w) = w_epoch w"
  by (simp_all add: run_sample_child_def log_def)

lemma run_sample_world_fields [simp]:
  "w_now run_sample_world = 0" "w_signals run_sample_world = (\<lambda>t. if t < 50 then 0 else 1)"
  "w_spawn run_sample_world = (\<lambda>_ _. Inr run_sample_proc)" "w_connect run_sample_world = (\<lambda>_ _. (True, 0))"
  "w_probe run_sample_world = (\<lambda>_ _. Inr ())" "w_files run_sample_world = (\<lambda>_. run_sample_files)"
  "w_wait_error run_sample_world = (\<lambda>_ _. None)" "w_count run_sample_world = 0" "w_procs run_sample_world = (\<lambda>_. None)"
  by (simp_all add: run_sample_world_def)

lemma notify_fields [simp]:
  "w_now (notify_systemd message w) = w_now w" "w_signals (notify_systemd message w) = w_signals w"
  "w_wait_error (notify_systemd message w) = w_wait_error w"
  by (simp_all add: notify_systemd_def log_def)

lemma run_sample_conf_fields [simp]:
  "sf_worker_launch run_sample_conf = LaunchClassic" "sf_worker_ready_timeout run_sample_conf = 15000"
  "sf_worker_drain_wait run_sample_conf = 1000" "sf_worker_sockets run_sample_conf = [''/r/w'']"
  "sf_cable_bin run_sample_conf = None" "sf_grpc_bin run_sample_conf = None" "sf_drain_grace run_sample_conf = 5000"
  "sf_edge_drain_grace run_sample_conf = 2000" "sf_acme_renew run_sample_conf = None"
  by (simp_all add: run_sample_conf_def)

lemma run_sample_spawn:
  "w_spawn w = (\<lambda>_ _. Inr run_sample_proc) \<Longrightarrow> spawn_command role cmd w = (Inr (w_count w), run_sample_child (w_count w) cmd w)"
  by (simp add: spawn_command_def run_sample_child_def run_sample_proc_def Let_def)

lemma run_sample_alive [simp]: "alive (run_sample_child pid cmd w) q = (q = pid \<or> alive w q)"
  by (simp add: alive_def run_sample_proc_def proc_dead_def term_due_def cong: option.case_cong)

lemma sleep_zero [simp]: "sleep 0 w = w"
  by (simp add: sleep_def)

definition run_sample_state :: runner_state where
  "run_sample_state =
     \<lparr>rs_workers = [\<lparr>mw_slot = ready_slot 0 1 ''/r/w'', mw_child = 0, mw_crash_count = 0, mw_last_started = 0\<rparr>],
      rs_edge = 1, rs_cable = None, rs_grpc = None, rs_renew = None, rs_next_renew = None\<rparr>"

lemma run_sample_booted:
  "spawn_worker_pool run_sample_conf run_sample_world =
     (Inr (Some (rs_workers run_sample_state)),
      run_sample_child 0 (worker_command run_sample_conf 0 1 ''/r/w'') run_sample_world)" (is "_ = (_, ?w)")
proof -
  have reads: "attach_worker_readiness 0 ?w = Inr (Some (0, ReadyLine ''OXO_WORKER_READY=/r/w''))"
    by (simp add: attach_worker_readiness_def run_sample_proc_def) code_simp
  have "wait_ready_loop 0 (Some (0, ReadyLine ''OXO_WORKER_READY=/r/w'')) 0 1 ''/r/w'' 15000 ?w =
      (Inr (Some (ready_slot 0 1 ''/r/w'')), ?w)"
    by (subst wait_ready_loop.simps) (simp add: shutdown_requested_def try_wait_def recv_timeout_def run_sample_ready)
  with reads show ?thesis
    by (simp add: spawn_worker_pool_def spawn_ready_worker_def spawn_worker_slot_def run_sample_spawn wait_for_worker_ready_def
        run_sample_state_def Let_def)
qed

lemma run_sample_started:
  "\<exists>w1. start_service run_sample_conf run_sample_world = (Inr (Some run_sample_state), w1) \<and> w_now w1 = 0 \<and>
     w_signals w1 = w_signals run_sample_world \<and> w_wait_error w1 = w_wait_error run_sample_world \<and> alive w1 1 \<and> alive w1 0"
proof -
  let ?w = "run_sample_child 0 (worker_command run_sample_conf 0 1 ''/r/w'') run_sample_world"
  have "wait_listener_loop ''edge'' err 1 bind 15000 (run_sample_child 1 cmd ?w) = (Inr (), run_sample_child 1 cmd ?w)"
    for err bind cmd
    by (subst wait_listener_loop.simps) (simp add: try_wait_def)
  then show ?thesis
    by (simp add: start_service_def run_sample_booted spawn_cable_def spawn_grpc_def start_edge_def spawn_edge_def run_sample_spawn
        wait_for_edge_ready_def Let_def run_sample_state_def)
qed

lemma run_sample_quiet: "reliable run_sample_world" "\<forall>pid. \<not> alive run_sample_world pid"
  by (simp_all add: reliable_def alive_def)

lemma run_sample_runs: "\<exists>w1. run_service 2 run_sample_conf run_sample_world = Some (Inr (), w1)"
proof -
  obtain w1 where w1: "start_service run_sample_conf run_sample_world = (Inr (Some run_sample_state), w1)" "w_now w1 = 0"
    "w_signals w1 = w_signals run_sample_world" "w_wait_error w1 = w_wait_error run_sample_world" "alive w1 1" "alive w1 0"
    using run_sample_started by blast
  then have "monitor_step run_sample_conf run_sample_state w1 = (None, run_sample_state, sleep 100 w1)"
    by (simp add: monitor_step_def shutdown_requested_def try_wait_def run_sample_state_def poll_opt_def monitor_workers_def
        monitor_renewal_def MONITOR_INTERVAL_def)
  moreover have "\<exists>st w2. monitor_step run_sample_conf run_sample_state (sleep 100 w1) = (Some (Inr ()), st, w2)"
    using w1 by (simp add: monitor_step_def shutdown_requested_def Let_def split: prod.splits)
  ultimately show ?thesis using w1(1) by (auto simp: run_service_def numeral_2_eq_2)
qed

section \<open>A whole run\<close>

text \<open>
  C3: No child outlives the service. Whenever \<open>run\<close> returns, normally or with any error but a failed
  certificate reload, from whatever point of its life (a worker that never became ready, a sidecar or
  the edge that would not start, an exited child, a failed restart, a drain), no process it started
  is still alive; this covers the sequential and the batched boot, the renewal child and the
  restarted workers and edges, for every behaviour of the processes and every timing of the
  signals, as long as \<open>waitpid\<close> itself does not fail.
\<close>
theorem no_orphans:
  assumes "run_service fuel conf w = Some (r, w')" and "reliable w" and "\<forall>pid. \<not> alive w pid"
    and "length (sf_worker_sockets conf) < 2 ^ 32" and "\<forall>message. r \<noteq> Inl (AcmeReload message)"
  shows "\<forall>pid. \<not> alive w' pid"
proof -
  have "only_alive w {}" using assms(3) by (simp add: only_alive_def)
  obtain q w1 where started: "start_service conf w = (q, w1)" by fastforce
  note s = start_service_settles [OF started assms(2) \<open>only_alive w {}\<close> assms(4)]
  consider err where "q = Inl err" | "q = Inr None" | st where "q = Inr (Some st)" by (metis option.exhaust sum.exhaust)
  then have "only_alive w' {}"
  proof cases
    case (3 st)
    with s have "settles w w1 (set (all_pids st))" by simp
    from monitor_children_settles [OF _ this assms(2,5)] 3 assms(1) started show ?thesis by (simp add: run_service_def)
  qed (use assms(1) started s in \<open>auto simp: run_service_def settles_def\<close>)
  then show ?thesis by (simp add: only_alive_def)
qed

theorem no_orphans_witness:
  "\<exists>w1. run_service 2 run_sample_conf run_sample_world = Some (Inr (), w1) \<and> (\<forall>pid. \<not> alive w1 pid)"
  using run_sample_runs no_orphans [of 2 run_sample_conf run_sample_world "Inr ()"] run_sample_quiet by auto

lemma monitor_step_None:
  assumes "monitor_step conf st w = (None, st', w')"
  obtains st1 w1 w2 where "monitor_workers conf st w = (None, st1, w1)" "monitor_renewal conf st1 w1 = (None, st', w2)"
    "w' = sleep MONITOR_INTERVAL w2" "\<not> shutdown_requested w"
proof -
  obtain q st1 w1 where workers: "monitor_workers conf st w = (q, st1, w1)" by (metis prod_cases3)
  obtain q2 st2 w2 where renewal: "monitor_renewal conf st1 w1 = (q2, st2, w2)" by (metis prod_cases3)
  show thesis
    using that assms workers renewal
    by (auto simp: monitor_step_def give_up_def Let_def split: if_splits sum.splits option.splits prod.splits)
qed

lemma monitor_advances:
  assumes "monitor_step conf st w = (None, st', w')" and "settles v w (set (all_pids st))" and "reliable v"
  shows "w_now w + MONITOR_INTERVAL \<le> w_now w' \<and> \<not> shutdown_requested w"
proof -
  obtain st1 w1 w2 where parts: "monitor_workers conf st w = (None, st1, w1)" "monitor_renewal conf st1 w1 = (None, st', w2)"
    "w' = sleep MONITOR_INTERVAL w2" "\<not> shutdown_requested w" using assms(1) by (rule monitor_step_None)
  have here: "settles w w (set (all_pids st))" "reliable w"
    using assms(2) settles_reliable [OF assms(2,3)] by (auto simp: settles_def)
  have "settles w w1 (set (all_pids st1))" using monitor_workers_settles [OF parts(1) here] by (simp add: turn_settles_def)
  from monitor_renewal_settles [OF parts(2) this here(2)] have "w_now w \<le> w_now w2"
    by (simp add: turn_settles_def settles_def onward_def)
  with parts(3,4) show ?thesis by simp
qed

lemma monitor_children_returns:
  assumes "settles v w (set (all_pids st))" and "reliable v" and "\<forall>t \<ge> T. 0 < w_signals v t" and "T \<le> w_now w + 100 * n"
  shows "\<exists>r w'. monitor_children (Suc n) conf st w = Some (r, w')"
  using assms(1,4)
proof (induction n arbitrary: st w)
  case 0
  then have "shutdown_requested w" using assms(3) by (auto simp: shutdown_requested_def settles_def onward_def)
  obtain q st1 w1 where step: "monitor_step conf st w = (q, st1, w1)" by (metis prod_cases3)
  with \<open>shutdown_requested w\<close> have "q = Some (Inr ())"
    by (auto simp: monitor_step_def Let_def split: prod.splits)
  with step show ?case by simp
next
  case (Suc n)
  obtain q st1 w1 where step: "monitor_step conf st w = (q, st1, w1)" by (metis prod_cases3)
  show ?case
  proof (cases q)
    case None
    have "settles v w1 (set (all_pids st1))"
      using monitor_step_settles [OF step Suc.prems(1) assms(2)] None by (simp add: turn_settles_def)
    moreover have "T \<le> w_now w1 + 100 * n"
      using monitor_advances [OF _ Suc.prems(1) assms(2)] step None Suc.prems(2) by (fastforce simp: MONITOR_INTERVAL_def)
    ultimately obtain r w' where "monitor_children (Suc n) conf st1 w1 = Some (r, w')" using Suc.IH by blast
    with step None show ?thesis by simp
  qed (use step in simp)
qed

text \<open>
  C15: A shutdown signal ends the service. If a signal has come by time \<open>T\<close> (in milliseconds), the run
  returns, within \<open>T / 100 + 2\<close> turns of the monitor loop: no boot, readiness wait, backoff, restart,
  reload or teardown loops forever, whatever the children and the network do, and every turn that
  does not end the loop takes at least the monitor interval.
\<close>
theorem shutdown_ends_service:
  assumes "reliable w" and "\<forall>pid. \<not> alive w pid" and "length (sf_worker_sockets conf) < 2 ^ 32"
    and "\<forall>t \<ge> T. 0 < w_signals w t"
  shows "\<exists>r w'. run_service (T div 100 + 2) conf w = Some (r, w')"
proof -
  have "only_alive w {}" using assms(2) by (simp add: only_alive_def)
  obtain q w1 where started: "start_service conf w = (q, w1)" by fastforce
  note s = start_service_settles [OF started assms(1) \<open>only_alive w {}\<close> assms(3)]
  consider err where "q = Inl err" | "q = Inr None" | st where "q = Inr (Some st)" by (metis option.exhaust sum.exhaust)
  then show ?thesis
  proof cases
    case (3 st)
    with s have "settles w w1 (set (all_pids st))" by simp
    moreover have "T \<le> w_now w1 + 100 * (T div 100 + 1)"
    proof -
      have "T < 100 * Suc (T div 100)" using dividend_less_times_div [of 100 T] by simp
      then show ?thesis by simp
    qed
    ultimately have "\<exists>r w'. monitor_children (Suc (T div 100 + 1)) conf st w1 = Some (r, w')"
      using monitor_children_returns assms(1,4) by blast
    with 3 started show ?thesis by (simp add: run_service_def)
  qed (use started in \<open>auto simp: run_service_def\<close>)
qed

theorem shutdown_ends_service_witness: "\<exists>r w1. run_service (50 div 100 + 2) run_sample_conf run_sample_world = Some (r, w1)"
  by (rule shutdown_ends_service [OF run_sample_quiet]) auto

section \<open>The drain\<close>

text \<open>
  C19: A drain keeps to its budget and leaves nothing behind: \<open>drain_service\<close> ends at most one poll of 20 ms after
  the grace period the configuration sets, whatever the children do and however many there are. A
  second signal cuts it short whenever it comes: if two signals have come by time \<open>t\<close>, before the
  drain or in the middle of any of its stages, it ends within one poll of \<open>t\<close>, and no time at all
  passes when both had come before it began. When it returns the edge, the sidecars and every
  worker are dead, even if \<open>waitpid\<close> fails on the way.
\<close>
theorem drain_bounded:
  assumes "drain_service edge cable grpc workers grace edge_grace wait w = (ws, w')"
  shows "w_now w' < w_now w + grace + 20 \<and> (1 < w_signals w (w_now w) \<longrightarrow> w_now w' = w_now w) \<and>
    (\<forall>t. (\<forall>u \<ge> t. 1 < w_signals w u) \<longrightarrow> w_now w' \<le> max (w_now w) (t + 19)) \<and>
    (\<forall>pid \<in> {edge} \<union> set (opt_pids cable) \<union> set (opt_pids grpc) \<union> set (worker_pids workers). \<not> alive w' pid)"
proof -
  have "w_now w' < w_now w + grace + 20" using drain_time(1) [OF assms] by simp
  moreover have "\<forall>t. (\<forall>u \<ge> t. 1 < w_signals w u) \<longrightarrow> w_now w' \<le> max (w_now w) (t + 19)"
    using drain_time(3) [OF assms] by (simp add: hurries_def)
  ultimately show ?thesis using drain_time(2) [OF assms] drain_settles(2) [OF assms] by blast
qed

text \<open>An edge that ignores SIGTERM, and a second signal after 40 ms.\<close>

definition stubborn_world :: world where
  "stubborn_world =
     run_sample_world\<lparr>w_signals := \<lambda>t. if t < 40 then 1 else 2, w_count := 2,
       w_procs := (\<lambda>_. None)(1 \<mapsto> run_sample_proc\<lparr>pr_term_delay := None\<rparr>)\<rparr>"

theorem drain_bounded_witness:
  "\<exists>ws w1. alive stubborn_world 1 \<and> drain_service 1 None None [] 5000 2000 1000 stubborn_world = (ws, w1) \<and>
     w_now w1 \<le> 59 \<and> \<not> alive w1 1"
proof -
  obtain ws w1 where d: "drain_service 1 None None [] 5000 2000 1000 stubborn_world = (ws, w1)" by fastforce
  have signals: "\<forall>u \<ge> 40. 1 < w_signals stubborn_world u" "w_now stubborn_world = 0" by (simp_all add: stubborn_world_def)
  have "w_now w1 \<le> max (w_now stubborn_world) (40 + 19)" "\<not> alive w1 1"
    using drain_bounded [OF d] signals(1) by blast+
  moreover have "alive stubborn_world 1"
    by (simp add: stubborn_world_def alive_def proc_dead_def term_due_def run_sample_proc_def)
  ultimately show ?thesis using d signals(2) by auto
qed

text \<open>
  C16: A drain is staged. First only the edge is told to stop, at once if it is alive, and nobody else is
  signalled until it is gone, its own grace has passed or a second signal has come; then every
  sidecar that is alive, and only those; every worker that is alive gets its SIGTERM only when the
  sidecars' stage is over too, so no request that the edge or a sidecar still carries loses its
  worker; SIGKILL comes last of all, and only to the service's own children.
\<close>
theorem drain_staged:
  assumes "drain_service edge cable grpc workers grace edge_grace wait w = (ws, w')" and "reliable w"
  shows "\<exists>w2 w5 w7.
    signals_only Term {edge} w w2 \<and> asked {edge} w w2 \<and>
    stage_over w2 {edge} (min (w_now w + edge_grace) (w_now w + grace)) \<and>
    signals_only Term (set (opt_pids cable) \<union> set (opt_pids grpc)) w2 w5 \<and>
    asked (set (opt_pids cable) \<union> set (opt_pids grpc)) w2 w5 \<and>
    stage_over w5 (set (opt_pids cable) \<union> set (opt_pids grpc)) (min (w_now w2 + SIDECAR_DRAIN_WAIT) (w_now w + grace)) \<and>
    signals_only Term (set (worker_pids workers)) w5 w7 \<and> asked (set (worker_pids workers)) w5 w7 \<and>
    stage_over w7 (set (worker_pids workers)) (min (w_now w5 + wait) (w_now w + grace)) \<and>
    signals_only Kill ({edge} \<union> set (opt_pids cable) \<union> set (opt_pids grpc) \<union> set (worker_pids workers)) w7 w'"
  using assms by (rule drain_stages)

theorem drain_staged_witness:
  "\<exists>ws w1 w2. drain_service 1 None None [] 5000 2000 1000 stubborn_world = (ws, w1) \<and>
     signals_only Term {1} stubborn_world w2 \<and> Signalled 1 Term 0 \<in> set (w_trace w2) \<and> stage_over w2 {1} 2000"
proof -
  obtain ws w1 where d: "drain_service 1 None None [] 5000 2000 1000 stubborn_world = (ws, w1)" by fastforce
  have "reliable stubborn_world" by (simp add: reliable_def stubborn_world_def)
  from drain_staged [OF d this] obtain w2 where w2: "signals_only Term {1} stubborn_world w2" "asked {1} stubborn_world w2"
    "stage_over w2 {1} (min (w_now stubborn_world + 2000) (w_now stubborn_world + 5000))" by blast
  have now: "w_now stubborn_world = 0" by (simp add: stubborn_world_def)
  have "alive stubborn_world 1"
    by (simp add: stubborn_world_def alive_def proc_dead_def term_due_def run_sample_proc_def)
  with w2(2) now have "Signalled 1 Term 0 \<in> set (w_trace w2)" by (simp add: asked_def)
  with d w2(1,3) now show ?thesis by auto
qed

section \<open>Restarting a worker\<close>

lemma unat_doublings: "n \<le> 5 \<Longrightarrow> unat (2 ^ n :: u32) = 2 ^ n"
proof -
  assume "n \<le> 5"
  then have "n = 0 \<or> n = 1 \<or> n = 2 \<or> n = 3 \<or> n = 4 \<or> n = 5" by arith
  then show ?thesis by auto
qed

lemma restart_backoff_form: "restart_backoff n = 100 * 2 ^ min (unat n - 1) 5 \<and> restart_backoff n \<in> {100..3200}"
proof -
  have "unat (min (saturating_sub n 1) RESTART_BACKOFF_MAX_DOUBLINGS) = min (unat n - 1) 5"
    by (auto simp: saturating_sub_def RESTART_BACKOFF_MAX_DOUBLINGS_def min_def word_le_nat_alt unat_sub_if' word_less_nat_alt)
  then have form: "restart_backoff n = 100 * 2 ^ min (unat n - 1) 5"
    by (simp add: restart_backoff_def Let_def RESTART_BACKOFF_BASE_def unat_doublings)
  have "(1 :: nat) \<le> 2 ^ min (unat n - 1) 5" "(2 :: nat) ^ min (unat n - 1) 5 \<le> 2 ^ 5"
    by (simp, rule power_increasing) simp_all
  with form show ?thesis by simp
qed


text \<open>
  The pause before a restart doubles with every crash in a row, from 100 ms, and stops doubling after five: it
  is never shorter than 100 ms and never longer than 3.2 s, for every value of the crash counter,
  zero and the largest included; the shift cannot overflow.
\<close>
theorem restart_backoff_closed_form:
  "restart_backoff n = 100 * 2 ^ min (unat n - 1) 5 \<and> restart_backoff n \<in> {100..3200}"
  by (rule restart_backoff_form)









section \<open>A certificate reload that fails\<close>

lemma wait_child_procs: "wait_child_until_deadline pid deadline w = (r, w') \<Longrightarrow> w_procs w' = w_procs w"
proof (induction pid deadline w arbitrary: r w' rule: wait_child_until_deadline.induct)
  case (1 pid deadline w)
  then show ?case
    by (auto simp: wait_child_until_deadline.simps [of pid deadline w] split: sum.splits option.splits if_splits)
qed

lemma terminate_child_procs: "q \<noteq> pid \<Longrightarrow> w_procs (terminate_child pid w) q = w_procs w q"
proof -
  assume "q \<noteq> pid"
  obtain gone w2 where "wait_child_until pid CHILD_TERM_TIMEOUT (terminate_process_group Term pid w) = (gone, w2)" by fastforce
  moreover from this have "w_procs w2 q = w_procs w q"
    using wait_child_procs \<open>q \<noteq> pid\<close> by (metis signal_procs wait_child_until_def)
  ultimately show ?thesis using \<open>q \<noteq> pid\<close> by (simp add: terminate_child_def kill_and_wait_def signal_procs Let_def)
qed

lemma terminate_all_procs: "q \<notin> set pids \<Longrightarrow> w_procs (terminate_all pids w) q = w_procs w q"
  unfolding terminate_all_def by (induction pids arbitrary: w) (auto simp: terminate_child_procs)

text \<open>
  C40: The one exit that leaves a child behind. When the renewal child has been reaped and the reload marker
  cannot be read, the monitor gives up with that error and every sidecar and every worker is dead
  when it returns, but not the edge: one that does not exit by itself is still alive and has been
  sent no signal. The comment in the source calls this a teardown of the whole service with no
  orphans, as every other fatal branch is; here the edge is not among the children it terminates.
\<close>
theorem reload_error_leaves_edge:
  assumes "w_marker w (w_now w) = Inl message" and "w_procs w (rs_edge st) = Some pr"
    and "pr_exit_at pr = None" and "pr_term_at pr = None" and "\<not> pr_killed pr"
    and "rs_edge st \<notin> set (opt_pids (rs_grpc st) @ opt_pids (rs_cable st) @ worker_pids (rs_workers st))"
  shows "\<exists>st' w'. reload_after_reap conf st w = (Some (Inl (AcmeReload message)), st', w') \<and>
    (\<forall>pid \<in> set (opt_pids (rs_grpc st) @ opt_pids (rs_cable st) @ worker_pids (rs_workers st)). \<not> alive w' pid) \<and>
    alive w' (rs_edge st) \<and> w_procs w' (rs_edge st) = Some pr"
proof -
  let ?others = "opt_pids (rs_grpc st) @ opt_pids (rs_cable st) @ worker_pids (rs_workers st)"
  let ?w' = "\<lambda>s. terminate_all ?others (notify_systemd s w)"
  have pr: "w_procs (?w' s) (rs_edge st) = Some pr" for s
    using terminate_all_procs [OF assms(6), of "notify_systemd s w"] assms(2) by (simp add: notify_systemd_def log_def)
  then have "alive (?w' s) (rs_edge st)" for s
    using assms(3,4,5) by (simp add: alive_def proc_dead_def term_due_def)
  moreover have "\<forall>pid \<in> set ?others. \<not> alive (?w' s) pid" for s using terminate_all_dead by blast
  ultimately show ?thesis using assms(1) pr
    by (simp add: reload_after_reap_def maybe_reload_edge_def acme_result_def give_up_def)
qed

theorem reload_error_leaves_edge_witness:
  "\<exists>w st' w'. alive w 0 \<and> reload_after_reap run_sample_conf run_sample_state w =
       (Some (Inl (AcmeReload ''unreadable'')), st', w') \<and> \<not> alive w' 0 \<and> alive w' 1"
proof -
  let ?w = "run_sample_child 1 (plain_command ''/opt/oxo-pingora-edge'' [] [])
    (run_sample_child 0 (plain_command ''/opt/oxo-worker'' [] []) (run_sample_world\<lparr>w_marker := \<lambda>_. Inl ''unreadable''\<rparr>))"
  let ?others = "opt_pids (rs_grpc run_sample_state) @ opt_pids (rs_cable run_sample_state) @ worker_pids (rs_workers run_sample_state)"
  have others: "?others = [0]" and edge: "rs_edge run_sample_state = 1"
    by (simp_all add: run_sample_state_def opt_pids_def worker_pids_def)
  have "w_marker ?w (w_now ?w) = Inl ''unreadable''" "w_procs ?w (rs_edge run_sample_state) = Some run_sample_proc"
    "rs_edge run_sample_state \<notin> set ?others"
    by (simp_all add: others edge run_sample_child_def log_def)
  from reload_error_leaves_edge [OF this(1,2) _ _ _ this(3), of run_sample_conf]
  obtain st' w' where gone: "reload_after_reap run_sample_conf run_sample_state ?w = (Some (Inl (AcmeReload ''unreadable'')), st', w')"
    and dead: "\<not> alive w' 0" and left: "alive w' 1"
    unfolding others edge by (auto simp: run_sample_proc_def)
  have up: "alive ?w 0" by simp
  show ?thesis by (intro exI conjI) (rule up, rule gone, rule dead, rule left)
qed

end
