(* ===== verification/Worker_Rack.thy ===== *)
theory Worker_Rack
  imports Worker_Frame
begin

text \<open>
  The Rack side of \<open>crates/oxo-worker/src/native/ruby.rs\<close>: how a \<open>worker_request\<close> becomes the
  environment hash of the application (\<open>call_ruby\<close> and the helper module's \<open>build_env\<close>) and how
  the application's headers come back (\<open>flatten_headers\<close>, \<open>call_ruby\<close>). A Ruby hash is a map.
  Ruby's \<open>String#upcase\<close> is the parameter \<open>upcase\<close>; what the code relies on is that it maps
  ASCII letters as usual, the hypothesis \<open>ascii_upcase\<close>.
\<close>

section \<open>The environment\<close>

datatype rack_value = RStr string | RBool bool | RInput "u8 list" | RErrors

type_synonym rack_env = "string \<rightharpoonup> rack_value"

record worker_options =
  wo_multithread :: bool
  wo_multiprocess :: bool

definition http_key_names :: "string list" where
  "http_key_names =
     [''accept'', ''accept-encoding'', ''accept-language'', ''accept-charset'', ''authorization'',
      ''cache-control'', ''cookie'', ''host'', ''if-modified-since'', ''if-none-match'', ''if-match'',
      ''if-unmodified-since'', ''origin'', ''pragma'', ''range'', ''referer'', ''user-agent'', ''via'',
      ''date'', ''upgrade-insecure-requests'', ''x-request-id'', ''x-requested-with'',
      ''sec-fetch-dest'', ''sec-fetch-mode'', ''sec-fetch-site'', ''sec-fetch-user'']"

definition tr_dash :: "string \<Rightarrow> string" where
  "tr_dash s = map (\<lambda>c. if c = CHR ''-'' then CHR ''_'' else c) s"

definition http_key :: "(string \<Rightarrow> string) \<Rightarrow> string \<Rightarrow> string" where
  "http_key upcase k = ''HTTP_'' @ tr_dash (upcase k)"

definition http_key_table :: "(string \<Rightarrow> string) \<Rightarrow> (string \<times> string) list" where
  "http_key_table upcase = map (\<lambda>k. (k, http_key upcase k)) http_key_names"

definition flat_push :: "header list \<Rightarrow> string list" where
  "flat_push hs = concat (map (\<lambda>(k, v). [k, v]) hs)"

definition env_key :: "(string \<Rightarrow> string) \<Rightarrow> string \<Rightarrow> string" where
  "env_key upcase k =
     (if k = ''content-length'' then ''CONTENT_LENGTH''
      else if k = ''content-type'' then ''CONTENT_TYPE''
      else (case map_of (http_key_table upcase) k of Some key \<Rightarrow> key | None \<Rightarrow> http_key upcase k))"

fun put_headers :: "(string \<Rightarrow> string) \<Rightarrow> string list \<Rightarrow> rack_env \<Rightarrow> rack_env" where
  "put_headers upcase (k # v # rest) env = put_headers upcase rest (env(env_key upcase k \<mapsto> RStr v))"
| "put_headers upcase _ env = env"

definition base_env :: "worker_request \<Rightarrow> worker_options \<Rightarrow> rack_env" where
  "base_env req opts =
     [''REQUEST_METHOD'' \<mapsto> RStr (wq_method req), ''SCRIPT_NAME'' \<mapsto> RStr [],
      ''PATH_INFO'' \<mapsto> RStr (wq_path req), ''QUERY_STRING'' \<mapsto> RStr (wq_query req),
      ''SERVER_NAME'' \<mapsto> RStr (wq_server_name req),
      ''SERVER_PORT'' \<mapsto> RStr (to_string (unat (wq_server_port req))),
      ''SERVER_PROTOCOL'' \<mapsto> RStr ''HTTP/1.1'', ''REMOTE_ADDR'' \<mapsto> RStr (wq_remote_addr req),
      ''rack.url_scheme'' \<mapsto> RStr (wq_url_scheme req), ''rack.input'' \<mapsto> RInput (wq_body req),
      ''rack.errors'' \<mapsto> RErrors, ''rack.multithread'' \<mapsto> RBool (wo_multithread opts),
      ''rack.multiprocess'' \<mapsto> RBool (wo_multiprocess opts), ''rack.run_once'' \<mapsto> RBool False]"

definition build_env :: "(string \<Rightarrow> string) \<Rightarrow> worker_request \<Rightarrow> worker_options \<Rightarrow> rack_env" where
  "build_env upcase req opts = put_headers upcase (flat_push (wq_headers req)) (base_env req opts)"

section \<open>The response\<close>

text \<open>Ruby's \<open>split\<close> with a separator: trailing empty pieces are dropped.\<close>

definition ruby_split_lines :: "string \<Rightarrow> string list" where
  "ruby_split_lines s = rev (dropWhile (\<lambda>w. w = []) (rev (split_on (CHR 0x0A) s)))"

definition header_segments :: "string \<Rightarrow> string list" where
  "header_segments v =
     (let segs = ruby_split_lines v; segs = (if segs = [] then [[]] else segs)
      in filter (\<lambda>seg. \<not> (seg = [] \<and> length segs > 1)) segs)"

text \<open>The application's headers: each key with the values of its \<open>Array(v)\<close>.\<close>

definition flatten_headers :: "(string \<times> string list) list \<Rightarrow> string list" where
  "flatten_headers headers =
     concat (map (\<lambda>(k, vs). concat (map (\<lambda>v. concat (map (\<lambda>seg. [k, seg]) (header_segments v))) vs)) headers)"

fun pair_up :: "string list \<Rightarrow> header list" where
  "pair_up (k # v # rest) = (k, v) # pair_up rest"
| "pair_up _ = []"

text \<open>\<open>status as u16\<close> keeps the low 16 bits of the \<open>i64\<close>.\<close>

definition call_ruby_response :: "int \<Rightarrow> string list \<Rightarrow> u8 list \<Rightarrow> worker_response" where
  "call_ruby_response status flat body =
     \<lparr>wr_status = word_of_int status, wr_headers = pair_up flat, wr_body = body\<rparr>"

section \<open>Which keys a header can set\<close>

definition is_ascii_str :: "string \<Rightarrow> bool" where
  "is_ascii_str s \<longleftrightarrow> list_all (\<lambda>c. byte c < 0x80) s"

definition ascii_upcase :: "(string \<Rightarrow> string) \<Rightarrow> bool" where
  "ascii_upcase upcase \<longleftrightarrow> (\<forall>s. is_ascii_str s \<longrightarrow> upcase s = map upper_char s)"

lemma http_key_ascii:
  "ascii_upcase upcase \<Longrightarrow> is_ascii_str k \<Longrightarrow> http_key upcase k = cgi_key k"
  by (simp add: ascii_upcase_def http_key_def cgi_key_def tr_dash_def cgi_char_def comp_def cong: map_cong)

lemma env_key_table: "k \<noteq> ''content-length'' \<Longrightarrow> k \<noteq> ''content-type'' \<Longrightarrow> env_key upcase k = http_key upcase k"
  by (auto simp: env_key_def http_key_table_def split: option.split dest: map_of_SomeD)

lemma put_headers_keys:
  "put_headers upcase (flat_push hs) env key \<noteq> env key \<Longrightarrow>
     \<exists>h \<in> set hs. env_key upcase (fst h) = key"
proof (induction hs arbitrary: env)
  case (Cons h hs)
  obtain k v where h: "h = (k, v)" by (cases h)
  show ?case
  proof (cases "env_key upcase k = key")
    case False
    let ?env = "env(env_key upcase k \<mapsto> RStr v)"
    have "put_headers upcase (flat_push (h # hs)) env = put_headers upcase (flat_push hs) ?env"
      by (simp add: flat_push_def h)
    moreover have "?env key = env key" using False by simp
    ultimately have "put_headers upcase (flat_push hs) ?env key \<noteq> ?env key"
      using Cons.prems by (simp del: fun_upd_apply)
    from Cons.IH [OF this] show ?thesis by auto
  qed (simp add: h)
qed (simp add: flat_push_def)

lemma env_key_shape:
  "env_key upcase k = ''CONTENT_LENGTH'' \<or> env_key upcase k = ''CONTENT_TYPE'' \<or>
   starts_with (env_key upcase k) ''HTTP_''"
  using env_key_table [of k upcase]
  by (cases "k = ''content-length'' \<or> k = ''content-type''")
    (auto simp: env_key_def http_key_def starts_with_def)

lemma flat_push_pair_up: "pair_up (flat_push hs) = hs"
  by (induction hs) (auto simp: flat_push_def)

lemma ascii_lower: "is_ascii_str s \<Longrightarrow> is_ascii_str (to_ascii_lowercase s)"
proof -
  have "byte (lower_char c) < 0x80" if "byte c < 0x80" for c
  proof (cases "is_ascii_uppercase (byte c)")
    case True
    from lower_char_upper_range [OF this] show ?thesis by (simp add: word_less_nat_alt)
  qed (use that in \<open>simp add: lower_char_def\<close>)
  then show "is_ascii_str s \<Longrightarrow> is_ascii_str (to_ascii_lowercase s)"
    by (auto simp: is_ascii_str_def to_ascii_lowercase_def list_all_iff)
qed

lemma base_env_keys:
  assumes "key \<in> dom (base_env req opts)"
  shows "key \<noteq> ''CONTENT_LENGTH''" "key \<noteq> ''CONTENT_TYPE''" "\<not> starts_with key ''HTTP_''"
  using assms by (auto simp: base_env_def starts_with_def split: if_splits)

lemma base_env_http: "base_env req opts (cgi_key n) = None"
  by (simp add: base_env_def cgi_key_def)

lemma build_env_trusted:
  assumes "key \<in> dom (base_env req opts)"
  shows "build_env upcase req opts key = base_env req opts key"
proof (rule ccontr)
  assume "build_env upcase req opts key \<noteq> base_env req opts key"
  from put_headers_keys [OF this [unfolded build_env_def]]
  obtain h :: header where "env_key upcase (fst h) = key" by blast
  with env_key_shape [of upcase "fst h"] base_env_keys [OF assms] show False by auto
qed

lemma build_env_forged:
  assumes up: "ascii_upcase upcase"
    and hs: "\<forall>h \<in> set (wq_headers req). app_header_name (fst h) \<and> is_ascii_str (fst h)"
    and n: "to_ascii_lowercase n = n" "CHR ''_'' \<notin> set n" "\<not> app_header_name n"
  shows "build_env upcase req opts (cgi_key n) = None"
proof (rule ccontr)
  assume "build_env upcase req opts (cgi_key n) \<noteq> None"
  then have "put_headers upcase (flat_push (wq_headers req)) (base_env req opts) (cgi_key n) \<noteq>
      base_env req opts (cgi_key n)"
    by (simp add: build_env_def base_env_http)
  from put_headers_keys [OF this]
  obtain h where h: "h \<in> set (wq_headers req)" and key: "env_key upcase (fst h) = cgi_key n" by blast
  from h hs have app: "app_header_name (fst h)" and ascii: "is_ascii_str (fst h)" by auto
  have "fst h \<noteq> ''content-length''" "fst h \<noteq> ''content-type''"
    using key by (auto simp: env_key_def cgi_key_def)
  then have "cgi_key (fst h) = cgi_key n"
    using key env_key_table [of "fst h" upcase] http_key_ascii [OF up ascii] by simp
  moreover have "to_ascii_lowercase (fst h) = fst h" "CHR ''_'' \<notin> set (fst h)"
    using app by (simp_all add: app_header_name_def)
  ultimately have "fst h = n" using n(1,2) by (rule cgi_key_inj)
  with app n(3) show False by simp
qed

lemma token_ascii: "valid_token s \<Longrightarrow> is_ascii_str s"
  by (auto simp: valid_token_def is_ascii_str_def list_all_iff as_bytes_def valid_token_byte_def
      is_ascii_alphanumeric_def is_ascii_digit_def is_ascii_uppercase_def is_ascii_lowercase_def
      word_le_nat_alt word_less_nat_alt byte_def)

definition spoof_name :: "string \<Rightarrow> bool" where
  "spoof_name n \<longleftrightarrow>
     to_ascii_lowercase n = n \<and> CHR ''_'' \<notin> set n \<and>
     (is_client_forwarding_header n \<or> starts_with n ''x-oxo-'')"

lemma spoof_not_app: "spoof_name n \<Longrightarrow> \<not> app_header_name n"
  by (auto simp: spoof_name_def app_header_name_def)

text \<open>
  C24: The Rack environment of a frame request cannot be spoofed by headers. Whatever (ASCII-named)
  headers the frame carries, in any letter case and with underscores or dashes, every variable
  the worker sets itself, REMOTE\_ADDR, SERVER\_NAME, SERVER\_PORT, rack.url\_scheme and the rest,
  keeps the value of the trusted frame field, and no CGI variable of a forwarding header or of a
  reserved x-oxo header exists.
\<close>

theorem frame_rack_env_spoof_safe:
  assumes "ascii_upcase upcase" and "\<forall>h \<in> set (rf_headers f). is_ascii_str (fst h)"
  shows "build_env upcase (request_frame_to_worker_request f) opts ''REMOTE_ADDR'' =
      Some (RStr (rf_remote_addr f)) \<and>
    (\<forall>key \<in> dom (base_env (request_frame_to_worker_request f) opts).
       build_env upcase (request_frame_to_worker_request f) opts key =
         base_env (request_frame_to_worker_request f) opts key) \<and>
    (\<forall>n. spoof_name n \<longrightarrow>
       build_env upcase (request_frame_to_worker_request f) opts (cgi_key n) = None)"
proof -
  let ?r = "request_frame_to_worker_request f"
  have vis: "\<forall>h \<in> set (rf_headers f). (\<lambda>_. True) h" by simp
  have "app_header_name (fst h) \<and> is_ascii_str (fst h)" if "h \<in> set (wq_headers ?r)" for h
  proof -
    from that have in_run: "h \<in> set (List.map_filter frame_keep (rf_headers f))"
      by (simp add: request_frame_to_worker_request_def)
    then obtain m where "(m, snd h) \<in> set (rf_headers f)" "fst h = to_ascii_lowercase m"
      using frame_filter.run_origin [OF vis, of "fst h" "snd h"] by auto
    with assms(2) have "is_ascii_str (fst h)" by (auto simp: ascii_lower)
    with frame_filter.run_safe [OF vis in_run] show ?thesis by simp
  qed
  then have "build_env upcase ?r opts (cgi_key n) = None" if "spoof_name n" for n
    using that build_env_forged [OF assms(1), of ?r n opts] spoof_not_app [OF that]
    by (auto simp: spoof_name_def)
  moreover have "build_env upcase ?r opts ''REMOTE_ADDR'' = Some (RStr (rf_remote_addr f))"
    using build_env_trusted [of "''REMOTE_ADDR''" ?r opts upcase]
    by (auto simp: base_env_def request_frame_to_worker_request_def)
  ultimately show ?thesis using build_env_trusted by blast
qed

definition sample_options :: worker_options where
  "sample_options = \<lparr>wo_multithread = True, wo_multiprocess = False\<rparr>"

theorem frame_rack_env_spoof_safe_witness:
  "build_env (map upper_char) (request_frame_to_worker_request
       (sample_request\<lparr>rf_headers := [(''X-Forwarded-For'', ''6.6.6.6''), (''accept'', ''a'')]\<rparr>))
     sample_options (cgi_key ''x-forwarded-for'') = None"
  using frame_rack_env_spoof_safe [of "map upper_char"
      "sample_request\<lparr>rf_headers := [(''X-Forwarded-For'', ''6.6.6.6''), (''accept'', ''a'')]\<rparr>" sample_options]
  by (simp add: ascii_upcase_def is_ascii_str_def spoof_name_def is_client_forwarding_header_def
      starts_with_def eval_bytes to_ascii_lowercase_def lower_char_def)

text \<open>
  The same for the direct HTTP path: an accepted request's environment takes every variable
  of the worker's own from the trusted request fields and has no CGI variable of a forwarding
  or reserved name.
\<close>

theorem http_rack_env_spoof_safe:
  assumes "ascii_upcase upcase" and "parse_request iter src max_body = Inr r" and "lists_entries iter"
  shows "build_env upcase r opts ''REMOTE_ADDR'' = Some (RStr (wq_remote_addr r)) \<and>
    (\<forall>key \<in> dom (base_env r opts). build_env upcase r opts key = base_env r opts key) \<and>
    (\<forall>n. spoof_name n \<longrightarrow> build_env upcase r opts (cgi_key n) = None)"
proof -
  from assms(2,3) obtain m target host hs body where
    hs: "parsed_headers hs" and r: "r = apply_header (base_request m target host body) (iter hs)" and
    it: "set (iter hs) = set hs"
    by (elim parse_request_Inr)
  have vis: "\<forall>h \<in> set (iter hs). parsed_header h" using hs it by (simp add: parsed_headers_def)
  have "app_header_name (fst h) \<and> is_ascii_str (fst h)" if "h \<in> set (wq_headers r)" for h
  proof -
    from that have in_run: "h \<in> set (List.map_filter http_keep (iter hs))"
      by (simp add: r apply_header_def base_request_def)
    then obtain g where "g \<in> set (iter hs)" "http_keep g = Some h" by (auto simp: map_filter_def)
    with vis http_keep_same have "parsed_header h" by metis
    with http_filter.run_safe [OF vis in_run] show ?thesis by (simp add: parsed_header_def token_ascii)
  qed
  then have "build_env upcase r opts (cgi_key n) = None" if "spoof_name n" for n
    using that build_env_forged [OF assms(1), of r n opts] spoof_not_app [OF that]
    by (auto simp: spoof_name_def)
  moreover have "build_env upcase r opts ''REMOTE_ADDR'' = Some (RStr (wq_remote_addr r))"
    using build_env_trusted [of "''REMOTE_ADDR''" r opts upcase] by (auto simp: base_env_def)
  ultimately show ?thesis using build_env_trusted by blast
qed

theorem http_rack_env_spoof_safe_witness:
  "build_env (map upper_char) sample_http_request sample_options ''REMOTE_ADDR'' = Some (RStr ''1.2.3.4'')"
  using http_rack_env_spoof_safe [OF _ sample_http_parses lists_entries_id, of "map upper_char" sample_options]
  by (simp add: ascii_upcase_def sample_http_request_def)

definition dotless_name :: string where
  "dotless_name = ''client-'' @ [CHR 0xC4, CHR 0xB1] @ ''p''"

text \<open>
  Where the frame path's guarantee ends. The frame decoder checks header names for control
  bytes only, so a direct frame client can send the name client-ip with U+0131 (dotless i) in
  place of the letter i. No filter recognises it, and Ruby's upcase maps U+0131 to the letter I:
  the application then sees HTTP\_CLIENT\_IP, one of the variables Rails reads the client's
  address from, with the value the client chose.
\<close>

theorem frame_unicode_name_forges_client_ip:
  assumes "upcase dotless_name = ''CLIENT-IP''"
  shows "request_ok sample_caps (sample_request\<lparr>rf_headers := [(dotless_name, ''6.6.6.6'')]\<rparr>) \<and>
    build_env upcase (request_frame_to_worker_request
      (sample_request\<lparr>rf_headers := [(dotless_name, ''6.6.6.6'')]\<rparr>)) opts (cgi_key ''client-ip'') =
      Some (RStr ''6.6.6.6'')"
proof
  show "request_ok sample_caps (sample_request\<lparr>rf_headers := [(dotless_name, ''6.6.6.6'')]\<rparr>)"
    using sample_request_ok
    by (simp add: ok_defs dotless_name_def header_size_def no_control_bytes_def rust_str_def as_bytes_def byte_def
        utf8_cont_def sample_caps_def)
  have "frame_keep (dotless_name, ''6.6.6.6'') = Some (dotless_name, ''6.6.6.6'')"
    by (simp add: frame_keep_def dotless_name_def to_ascii_lowercase_def lower_char_def
        is_ascii_uppercase_def byte_def is_client_forwarding_header_def starts_with_def
        normalize_header_name_def Let_def)
  moreover have "env_key upcase dotless_name = ''HTTP_CLIENT_IP''"
    using env_key_table [of dotless_name upcase] assms
    by (simp add: http_key_def tr_dash_def) (simp add: dotless_name_def)
  moreover have "cgi_key ''client-ip'' = ''HTTP_CLIENT_IP''"
    by (simp add: cgi_key_def cgi_char_def upper_char_def eval_bytes)
  ultimately show "build_env upcase (request_frame_to_worker_request
      (sample_request\<lparr>rf_headers := [(dotless_name, ''6.6.6.6'')]\<rparr>)) opts (cgi_key ''client-ip'') =
      Some (RStr ''6.6.6.6'')"
    by (simp add: build_env_def request_frame_to_worker_request_def map_filter_simps flat_push_def)
qed

theorem frame_unicode_name_forges_client_ip_witness:
  "build_env (\<lambda>s. if s = dotless_name then ''CLIENT-IP'' else map upper_char s)
     (request_frame_to_worker_request (sample_request\<lparr>rf_headers := [(dotless_name, ''6.6.6.6'')]\<rparr>))
     sample_options (cgi_key ''client-ip'') = Some (RStr ''6.6.6.6'')"
  using frame_unicode_name_forges_client_ip
    [of "\<lambda>s. if s = dotless_name then ''CLIENT-IP'' else map upper_char s" sample_options]
  by simp

section \<open>The application's headers\<close>

definition header_pairs :: "(string \<times> string list) list \<Rightarrow> header list" where
  "header_pairs headers =
     concat (map (\<lambda>(k, vs). concat (map (\<lambda>v. map (\<lambda>seg. (k, seg)) (header_segments v)) vs)) headers)"

lemma flat_push_append: "flat_push (a @ b) = flat_push a @ flat_push b"
  by (simp add: flat_push_def)

lemma flat_push_concat: "flat_push (concat xs) = concat (map flat_push xs)"
  by (induction xs) (simp_all add: flat_push_append, simp add: flat_push_def)

lemma flatten_headers_pairs: "flatten_headers headers = flat_push (header_pairs headers)"
proof -
  have "concat (map (\<lambda>seg. [k, seg]) segs) = flat_push (map (\<lambda>seg. (k, seg)) segs)" for k segs
    by (induction segs) (simp_all add: flat_push_def)
  then show ?thesis
    by (simp add: flatten_headers_def header_pairs_def flat_push_concat comp_def split_def)
qed

lemma header_segments_no_lf: "seg \<in> set (header_segments v) \<Longrightarrow> CHR 0x0A \<notin> set seg"
  using split_on_pieces [of seg "CHR 0x0A" v]
  by (auto simp: header_segments_def ruby_split_lines_def Let_def split: if_splits dest: set_dropWhileD)

lemma header_segments_nonempty: "header_segments v \<noteq> []"
proof (cases "ruby_split_lines v")
  case (Cons s ss)
  let ?t = "dropWhile (\<lambda>w. w = []) (rev (split_on (CHR 0x0A) v))"
  have "?t \<noteq> []" using Cons by (auto simp: ruby_split_lines_def)
  then have "hd ?t \<noteq> []" by (rule hd_dropWhile)
  moreover have "hd ?t \<in> set (ruby_split_lines v)" using \<open>?t \<noteq> []\<close> by (simp add: ruby_split_lines_def)
  ultimately show ?thesis using Cons by (auto simp: header_segments_def filter_empty_conv)
qed (simp add: header_segments_def)

text \<open>
  How the application's response headers reach the wire. A value that joins several header
  lines with newlines, or an array of values, becomes one header per line under the same name, in
  order and with at least one header per value; no resulting value contains a newline, so none is
  lost to the writer's control-byte check for that reason. The status is truncated to 16 bits.
\<close>

theorem application_headers_flattened:
  "wr_headers (call_ruby_response status (flatten_headers headers) body) = header_pairs headers \<and>
   CHR 0x0A \<notin> (\<Union>h \<in> set (header_pairs headers). set (snd h)) \<and>
   header_segments v \<noteq> [] \<and>
   uint (wr_status (call_ruby_response status (flatten_headers headers) body)) = status mod 65536"
proof -
  have "CHR 0x0A \<notin> (\<Union>h \<in> set (header_pairs headers). set (snd h))"
    using header_segments_no_lf by (fastforce simp: header_pairs_def)
  then show ?thesis
    by (simp add: call_ruby_response_def flatten_headers_pairs flat_push_pair_up header_segments_nonempty
        uint_word_of_int)
qed

end
