(* ===== verification/Edge_Sidecar.thy ===== *)
theory Edge_Sidecar
  imports Edge_Proxy Core_Lib
begin

text \<open>
  The hooks of \<open>EdgeProxy\<close> that the proxy framework calls for a request handed to a sidecar (Action
  Cable or gRPC), \<open>crates/oxo-pingora-edge/src/platform/proxy.rs\<close> from \<open>upstream_request_filter\<close> to
  \<open>fail_to_proxy\<close>. Headers are a list; removing a header removes every field of that name, and
  inserting one replaces all of them (the framework's header map keeps no order between names).
\<close>

section \<open>The upstream request\<close>

definition remove_header :: "string \<Rightarrow> header list \<Rightarrow> header list" where
  "remove_header name hs = filter (\<lambda>(n, _). to_ascii_lowercase n \<noteq> name) hs"

definition insert_header :: "string \<Rightarrow> string \<Rightarrow> header list \<Rightarrow> header list" where
  "insert_header name v hs = remove_header name hs @ [(name, v)]"

definition sidecar_stripped :: "string list" where
  "sidecar_stripped =
     [''forwarded'', ''x-forwarded-for'', ''x-forwarded-host'', ''x-forwarded-port'', ''x-forwarded-proto'',
      ''x-real-ip'', ''x-request-id'', ''x-oxo-remote-addr'', ''x-oxo-url-scheme'', ''x-oxo-server-name'',
      ''x-oxo-server-port'', ''x-oxo-request-id'']"

definition public_upstream_host :: "edge_proxy \<Rightarrow> string" where
  "public_upstream_host p =
     (if (ep_url_scheme p, ep_server_port p) \<in> {(''http'', 80), (''https'', 443)} then ep_server_name p
      else ep_server_name p @ '':'' @ to_string (unat (ep_server_port p)))"

definition upstream_request_filter :: "edge_proxy \<Rightarrow> request_context \<Rightarrow> header list \<Rightarrow> header list" where
  "upstream_request_filter p ctx hs =
     (if cx_route ctx = RouteWorker then hs
      else
        (let hs = fold remove_header sidecar_stripped hs;
             hs = insert_header ''host'' (public_upstream_host p) hs;
             hs = insert_header ''x-oxo-url-scheme'' (ep_url_scheme p) hs;
             hs = insert_header ''x-oxo-server-name'' (ep_server_name p) hs;
             hs = insert_header ''x-oxo-server-port'' (to_string (unat (ep_server_port p))) hs
         in case cx_request_id ctx of Some rid \<Rightarrow> insert_header ''x-oxo-request-id'' rid hs | None \<Rightarrow> hs))"

section \<open>Bodies and outcomes\<close>

definition is_grpc :: "edge_route \<Rightarrow> bool" where
  "is_grpc route = (case route of RouteGrpc _ \<Rightarrow> True | _ \<Rightarrow> False)"

definition request_body_filter :: "edge_proxy \<Rightarrow> u8 list option \<Rightarrow> request_context \<Rightarrow> (u16 + unit) \<times> request_context" where
  "request_body_filter p body ctx =
     (case body of
        Some bytes \<Rightarrow>
          if is_grpc (cx_route ctx) then
            (let seen = saturating_add (cx_grpc_request_bytes ctx) (of_nat (length bytes))
             in (if seen > ep_max_body p then Inl 413 else Inr (), ctx\<lparr>cx_grpc_request_bytes := seen\<rparr>))
          else (Inr (), ctx)
      | None \<Rightarrow> (Inr (), ctx))"

definition note_outcome :: "(string \<Rightarrow> telemetry \<Rightarrow> telemetry) \<Rightarrow> request_context \<Rightarrow> edge_state \<Rightarrow> request_context \<times> edge_state" where
  "note_outcome rec ctx st =
     (if cx_outcome_recorded ctx then (ctx, st)
      else (ctx\<lparr>cx_outcome_recorded := True\<rparr>,
            case cx_request_id ctx of Some rid \<Rightarrow> noted (rec rid) st | None \<Rightarrow> st))"

definition response_filter :: "u16 \<Rightarrow> request_context \<Rightarrow> edge_state \<Rightarrow> request_context \<times> edge_state" where
  "response_filter status ctx st =
     (if cx_route ctx = RouteWorker then (ctx, st)
      else note_outcome (\<lambda>rid. record_response rid status) ctx st)"

definition complete_long_lived :: "request_context \<Rightarrow> request_context" where
  "complete_long_lived ctx = ctx\<lparr>cx_long_lived := map_option admission_complete (cx_long_lived ctx)\<rparr>"

definition stream_bytes :: "u64 \<Rightarrow> request_context \<Rightarrow> edge_state \<Rightarrow> bool \<times> request_context \<times> edge_state" where
  "stream_bytes n ctx st =
     (case cx_long_lived ctx of
        Some a \<Rightarrow>
          (let (ok, a, reg) = record_bytes n a (es_registry st)
           in (ok, ctx\<lparr>cx_long_lived := Some a\<rparr>, st\<lparr>es_registry := reg\<rparr>))
      | None \<Rightarrow> (True, ctx, st))"

definition response_body_filter ::
  "edge_proxy \<Rightarrow> u8 list option \<Rightarrow> bool \<Rightarrow> request_context \<Rightarrow> edge_state \<Rightarrow> (u16 + unit) \<times> request_context \<times> edge_state" where
  "response_body_filter p body end_of_stream ctx st =
     (if \<not> is_grpc (cx_route ctx) then (Inr (), ctx, st)
      else
        (let (ok, ctx, st) =
               (case body of
                  None \<Rightarrow> (True, ctx, st)
                | Some bytes \<Rightarrow>
                    (let seen = saturating_add (cx_grpc_response_bytes ctx) (of_nat (length bytes));
                         ctx = ctx\<lparr>cx_grpc_response_bytes := seen\<rparr>
                     in if seen > ep_max_body p then (False, ctx, st)
                        else stream_bytes (of_nat (length bytes)) ctx st))
         in if \<not> ok then (Inl 502, ctx, st)
            else (Inr (), if end_of_stream then complete_long_lived ctx else ctx, st)))"

definition logging :: "bool \<Rightarrow> request_context \<Rightarrow> request_context" where
  "logging failed ctx = (if \<not> failed \<and> cx_route ctx \<noteq> RouteWorker then complete_long_lived ctx else ctx)"

datatype error_source = SrcUpstream | SrcDownstream | SrcInternal | SrcUnset

datatype error_type = HttpStatus u16 | OtherError

definition fail_code :: "error_type \<Rightarrow> error_source \<Rightarrow> u16" where
  "fail_code etype source =
     (case etype of
        HttpStatus code \<Rightarrow> code
      | OtherError \<Rightarrow> (case source of SrcUpstream \<Rightarrow> 502 | SrcDownstream \<Rightarrow> 400 | _ \<Rightarrow> 500))"

definition fail_to_proxy ::
  "error_type \<Rightarrow> error_source \<Rightarrow> request_context \<Rightarrow> edge_state \<Rightarrow> u16 \<times> request_context \<times> edge_state" where
  "fail_to_proxy etype source ctx st =
     (let code = fail_code etype source; (ctx, st) = note_outcome (\<lambda>rid. record_rejection rid code) ctx st
      in (code, ctx, st))"

text \<open>The end of the request: its context goes out of scope and with it the guards.\<close>

definition context_drop :: "request_context \<Rightarrow> edge_state \<Rightarrow> edge_state" where
  "context_drop ctx st =
     (let st = (case cx_long_lived ctx of
                  Some a \<Rightarrow> st\<lparr>es_registry := admission_drop a (es_registry st)\<rparr>
                | None \<Rightarrow> st)
      in drop_global (cx_global ctx) (drop_identity (cx_identity ctx) st))"

section \<open>Runs of hooks\<close>

text \<open>The calls the framework makes between the request filter and the end of the request.\<close>

datatype hook =
    HkRequestBody "u8 list option"
  | HkResponse u16
  | HkResponseBody "u8 list option" bool
  | HkFail error_type error_source
  | HkLogging bool

definition run_hook :: "edge_proxy \<Rightarrow> hook \<Rightarrow> request_context \<times> edge_state \<Rightarrow> request_context \<times> edge_state" where
  "run_hook p h s =
     (case s of (ctx, st) \<Rightarrow>
      case h of
        HkRequestBody body \<Rightarrow> (snd (request_body_filter p body ctx), st)
      | HkResponse status \<Rightarrow> response_filter status ctx st
      | HkResponseBody body fin \<Rightarrow> snd (response_body_filter p body fin ctx st)
      | HkFail etype source \<Rightarrow> snd (fail_to_proxy etype source ctx st)
      | HkLogging failed \<Rightarrow> (logging failed ctx, st))"

definition is_outcome :: "hook \<Rightarrow> bool" where
  "is_outcome h = (case h of HkResponse _ \<Rightarrow> True | HkFail _ _ \<Rightarrow> True | _ \<Rightarrow> False)"

section \<open>What a sidecar receives\<close>

lemma fold_remove_header:
  "fold remove_header names hs = filter (\<lambda>(n, _). to_ascii_lowercase n \<notin> set names) hs"
  by (induction names arbitrary: hs) (auto simp: remove_header_def intro!: filter_cong)

lemma remove_header_filter: "remove_header name (filter P hs) = filter (\<lambda>(n, v). P (n, v) \<and> to_ascii_lowercase n \<noteq> name) hs"
  by (auto simp: remove_header_def intro: filter_cong)

lemma remove_header_append [simp]: "remove_header name (xs @ ys) = remove_header name xs @ remove_header name ys"
  by (simp add: remove_header_def)

lemma edge_names_lower:
  "to_ascii_lowercase ''host'' = ''host''" "to_ascii_lowercase ''x-oxo-url-scheme'' = ''x-oxo-url-scheme''"
  "to_ascii_lowercase ''x-oxo-server-name'' = ''x-oxo-server-name''"
  "to_ascii_lowercase ''x-oxo-server-port'' = ''x-oxo-server-port''"
  "to_ascii_lowercase ''x-oxo-request-id'' = ''x-oxo-request-id''" "to_ascii_lowercase ''client-ip'' = ''client-ip''"
  by code_simp+

lemma upstream_request_filter_eq:
  assumes "cx_route ctx \<noteq> RouteWorker"
  shows "upstream_request_filter p ctx hs =
    filter (\<lambda>(n, _). to_ascii_lowercase n \<notin> set (''host'' # sidecar_stripped)) hs @
    [(''host'', public_upstream_host p), (''x-oxo-url-scheme'', ep_url_scheme p),
     (''x-oxo-server-name'', ep_server_name p), (''x-oxo-server-port'', to_string (unat (ep_server_port p)))] @
    (case cx_request_id ctx of Some rid \<Rightarrow> [(''x-oxo-request-id'', rid)] | None \<Rightarrow> [])"
  using assms
  by (simp add: upstream_request_filter_def fold_remove_header insert_header_def remove_header_def edge_names_lower Let_def
      split: option.split)
    (auto simp: sidecar_stripped_def intro!: filter_cong)

text \<open>The values a header list has under a name, in their order.\<close>

definition values_of :: "string \<Rightarrow> header list \<Rightarrow> string list" where
  "values_of name hs = map snd (filter (\<lambda>(n, _). to_ascii_lowercase n = name) hs)"

lemma values_of_filtered:
  "values_of name (filter (\<lambda>(n, _). to_ascii_lowercase n \<notin> names) hs) = (if name \<in> names then [] else values_of name hs)"
proof -
  have "filter (\<lambda>(n, _). to_ascii_lowercase n = name) (filter (\<lambda>(n, _). to_ascii_lowercase n \<notin> names) hs) =
      (if name \<in> names then [] else filter (\<lambda>(n, _). to_ascii_lowercase n = name) hs)"
    by (induction hs) auto
  then show ?thesis by (simp add: values_of_def)
qed

lemma values_of_append: "values_of name (as @ bs) = values_of name as @ values_of name bs"
  by (simp add: values_of_def)

lemma values_of_edge:
  "values_of name [(''host'', a), (''x-oxo-url-scheme'', b), (''x-oxo-server-name'', c), (''x-oxo-server-port'', d),
      (''x-oxo-request-id'', e)] =
    (if name = ''host'' then [a] else if name = ''x-oxo-url-scheme'' then [b] else if name = ''x-oxo-server-name'' then [c]
     else if name = ''x-oxo-server-port'' then [d] else if name = ''x-oxo-request-id'' then [e] else [])"
  by (auto simp: values_of_def edge_names_lower)

lemma values_of_upstream:
  assumes "cx_route ctx \<noteq> RouteWorker" and "cx_request_id ctx = Some rid"
  shows "values_of name (upstream_request_filter p ctx hs) =
    (if name = ''host'' then [public_upstream_host p] else if name = ''x-oxo-url-scheme'' then [ep_url_scheme p]
     else if name = ''x-oxo-server-name'' then [ep_server_name p]
     else if name = ''x-oxo-server-port'' then [to_string (unat (ep_server_port p))]
     else if name = ''x-oxo-request-id'' then [rid]
     else if name \<in> set sidecar_stripped then [] else values_of name hs)"
  unfolding upstream_request_filter_eq [OF assms(1)] assms(2) option.case append_Cons append_Nil
    values_of_append values_of_filtered values_of_edge
  by (simp add: sidecar_stripped_def)

section \<open>Client addresses at a sidecar\<close>

definition cable_request :: client_request where
  "cable_request = \<lparr>cr_method = ''GET'', cr_http2 = False, cr_scheme = None, cr_authority = None, cr_path = ''/cable'',
     cr_path_and_query = Some ''/cable''\<rparr>"

definition cable_headers :: "header list" where
  "cable_headers = [(''host'', ''h''), (''connection'', ''upgrade''), (''upgrade'', ''websocket''),
     (''sec-websocket-key'', ''AAAAAAAAAAAAAAAAAAAAAA==''), (''sec-websocket-version'', ''13''),
     (''sec-websocket-protocol'', ''actioncable-v1-json''), (''origin'', ''http://h''), (''client-ip'', ''6.6.6.6'')]"

lemma cable_lowered:
  "map (\<lambda>(n, v). lowered_lower (lowered_new n v)) cable_headers = map fst cable_headers"
  by code_simp

lemma cable_values:
  "list_all (\<lambda>(n, v). is_valid_header_name (as_bytes n)) cable_headers"
  "eq_ignore_ascii_case (trim ''upgrade'') ''upgrade''" "split_on (CHR '','') ''upgrade'' = [''upgrade'']"
  "eq_ignore_ascii_case (trim ''websocket'') ''websocket''" "is_valid_websocket_key ''AAAAAAAAAAAAAAAAAAAAAA==''"
  "trim ''13'' = ''13''" "split_on (CHR '','') ''actioncable-v1-json'' = [''actioncable-v1-json'']"
  "eq_ignore_ascii_case (trim ''actioncable-v1-json'') ''actioncable-v1-json''"
  "host_matches_server_name ''h'' ''h''" "origin_matches_edge ''http://h'' ''http'' ''h'' 80"
  by code_simp+

lemma cable_accepted:
  "validate_action_cable_request cable_request (map (\<lambda>(n, v). lowered_new n v) cable_headers) None ''http'' ''h'' 80 = Inr ()"
proof -
  have fields: "lh_name (lowered_new n v) = n" "lh_value (lowered_new n v) = v" for n v by (simp_all add: lowered_new_def)
  show ?thesis
    using cable_lowered cable_values(1)
    by (simp add: validate_action_cable_request_def cable_request_def cable_headers_def fields MAX_REQUEST_HEADERS_def
        accumulate_header_bytes_def usize_saturating_add_def MAX_REQUEST_HEADER_BYTES_def cable_header_def cable_values
        Let_def)
qed

text \<open>
  The header list of the sidecars is narrower than the one of the Rack workers. A client's
  \<open>Client-IP\<close> is a forwarding header by the edge's own predicate, an Action Cable upgrade that
  carries one passes the Action Cable validator, and whatever the edge's configuration the
  sidecar receives the client's value unchanged.
\<close>
theorem sidecar_forwards_client_ip:
  "is_client_forwarding_header ''client-ip'' \<and>
   validate_action_cable_request cable_request (map (\<lambda>(n, v). lowered_new n v) cable_headers) None ''http'' ''h'' 80 =
     Inr () \<and>
   (''client-ip'', ''6.6.6.6'') \<in> set (upstream_request_filter p (ctx\<lparr>cx_route := RouteActionCable bind\<rparr>) cable_headers)"
  by (simp add: cable_accepted upstream_request_filter_eq)
    (simp add: cable_headers_def sidecar_stripped_def is_client_forwarding_header_def edge_names_lower)

end
