(* ===== verification/Http_Hop.thy ===== *)
theory Http_Hop
  imports Edge_Request Worker_Serve
begin

text \<open>
  The HTTP hop from the edge to a worker and back: what the worker's request parser makes of the
  bytes that the edge's \<open>build_worker_request\<close> writes. No definition of the program is added
  here; the theory composes \<open>Edge_Headers\<close>, \<open>Edge_Request\<close>, \<open>Worker_Parser\<close> and \<open>Worker_Serve\<close>.
\<close>

section \<open>Lines\<close>

lemma split_crlf_nonempty [simp]: "split_crlf s \<noteq> []"
  by (induction s rule: split_crlf.induct) (auto split: list.split)

lemma split_crlf_append: "split_crlf (t @ crlf @ rest) = split_crlf t @ split_crlf rest"
proof (induction t rule: split_crlf.induct)
  case (3 x y xs)
  show ?case
  proof (cases "x = CHR 0x0D \<and> y = CHR 0x0A")
    case True
    with 3(1) show ?thesis by simp
  next
    case False
    with 3(2) have "split_crlf (y # xs @ crlf @ rest) = split_crlf (y # xs) @ split_crlf rest" by simp
    with False show ?thesis by (cases "split_crlf (y # xs)") auto
  qed
qed (auto simp: crlf_def)

definition crlf_lines :: "string list \<Rightarrow> string" where
  "crlf_lines ls = concat (map (\<lambda>l. l @ crlf) ls)"

lemma crlf_lines_simps [simp]:
  "crlf_lines [] = []" "crlf_lines (l # ls) = l @ crlf @ crlf_lines ls"
  "crlf_lines (xs @ ys) = crlf_lines xs @ crlf_lines ys"
  by (simp_all add: crlf_lines_def)

text \<open>A head is its lines, none of them empty or with a carriage return, and the blank line.\<close>

definition head_lines :: "string list \<Rightarrow> bool" where
  "head_lines ls \<longleftrightarrow> ls \<noteq> [] \<and> list_all (\<lambda>l. l \<noteq> [] \<and> CHR 0x0D \<notin> set l) ls"

lemma split_head:
  assumes "head_lines ls"
  shows "split_crlf (crlf_lines ls @ crlf) = ls @ [[], []]"
proof -
  have "split_crlf (crlf_lines (ls @ [[]]) @ []) = (ls @ [[]]) @ split_crlf []"
    unfolding crlf_lines_def using assms
    by (intro split_crlf_lines) (auto simp: head_lines_def list_all_iff)
  then show ?thesis by simp
qed

lemma crlfcrlf_text: "CRLFCRLF = as_bytes (crlf @ crlf)"
  by (simp add: CRLFCRLF_def crlf_def as_bytes_def byte_def)

lemma head_text_first:
  assumes "head_lines ls" and "crlf_lines ls @ crlf = t @ crlf @ crlf @ u"
  shows "u = []"
proof -
  have "ls @ [[], []] = split_crlf t @ [] # split_crlf u"
    using split_head [OF assms(1)] split_crlf_append [of t "crlf @ u"] split_crlf_append [of "[]" u]
    unfolding assms(2) by simp
  moreover have "[] \<notin> set ls" using assms(1) by (auto simp: head_lines_def list_all_iff)
  ultimately have "split_crlf u = [[]]"
    using split_crlf_nonempty [of u]
    by (auto simp: append_eq_append_conv2 append_eq_Cons_conv Cons_eq_append_conv)
  then show ?thesis
    by (cases u rule: split_crlf.cases) (auto split: if_splits list.splits)
qed

lemma read_head_lines:
  assumes "head_lines ls" and "read_head (as_bytes (crlf_lines ls @ crlf) @ body, fin) = Inr (h, r)"
  shows "h = as_bytes (crlf_lines ls @ crlf) \<and> r = body"
proof -
  let ?head = "as_bytes (crlf_lines ls @ crlf)"
  from assms(2) have split: "h @ r = ?head @ body" and h: "complete_head h"
    using read_head_loop_iff [of 0 "[]" "?head @ body" fin h r]
    by (auto simp: read_head_def head_in_progress_def not_ends_with_Nil)
  obtain ls' l where ls: "ls = ls' @ [l]" using assms(1) by (cases ls rule: rev_cases) (auto simp: head_lines_def)
  have ends: "ends_with ?head CRLFCRLF"
    unfolding ends_with_CRLFCRLF_iff by (auto simp: ls crlfcrlf_text)
  from split [unfolded append_eq_append_conv2]
  consider d where "?head = h @ d" "r = d @ body" | d where "h = ?head @ d" "body = d @ r" by metis
  then show ?thesis
  proof cases
    case 1
    from h obtain t where t: "h = t @ CRLFCRLF" by (auto simp: complete_head_def ends_with_CRLFCRLF_iff)
    have "map byte_char ?head = map byte_char (t @ CRLFCRLF @ d)" using 1 t by simp
    then have "crlf_lines ls @ crlf = map byte_char t @ crlf @ crlf @ map byte_char d"
      unfolding crlfcrlf_text by simp
    from head_text_first [OF assms(1) this] have "d = []" by simp
    with 1 show ?thesis by simp
  next
    case 2
    have "d = []"
    proof (rule ccontr)
      assume "d \<noteq> []"
      then have "length ?head < length h" "take (length ?head) h = ?head" using 2 by simp_all
      with ends h show False by (auto simp: complete_head_def)
    qed
    with 2 show ?thesis by simp
  qed
qed

section \<open>The request as lines\<close>

definition sent_headers :: "client_request \<Rightarrow> header list \<Rightarrow> u8 list \<Rightarrow> header list" where
  "sent_headers req headers body =
     (if list_ex (\<lambda>(name, _). eq_ignore_ascii_case name ''host'') headers then []
      else (case cr_authority req of Some a \<Rightarrow> [(''Host'', a)] | None \<Rightarrow> [])) @
     filter (\<lambda>(n, _). \<not> eq_ignore_ascii_case n ''connection'' \<and> \<not> eq_ignore_ascii_case n ''content-length'')
       headers @
     [(''Content-Length'', to_string (length body)), (''Connection'', ''close'')]"

definition line_ok :: "header \<Rightarrow> bool" where
  "line_ok h \<longleftrightarrow> is_valid_header_name (as_bytes (fst h)) \<and> \<not> has_invalid_header_value_bytes (as_bytes (snd h))"

definition request_line :: "client_request \<Rightarrow> string \<Rightarrow> string" where
  "request_line req pq = cr_method req @ '' '' @ pq @ '' HTTP/1.1''"

lemma crlf_bytes: "[0x0D, 0x0A] = as_bytes crlf"
  by (simp add: crlf_def as_bytes_def byte_def)

lemma as_bytes_Cons: "as_bytes (c # s) = byte c # as_bytes s" "as_bytes [] = []"
  by (simp_all add: as_bytes_def)

lemma append_header_line_Inr:
  "append_header_line request n v = Inr out \<longleftrightarrow>
     line_ok (n, v) \<and> out = request @ as_bytes (header_text (n, v) @ crlf)"
  by (auto simp: append_header_line_def line_ok_def header_text_def crlf_bytes as_bytes_Cons)

lemma append_header_lines_Inr:
  "append_header_lines request hs = Inr out \<longleftrightarrow>
     (let sent = filter (\<lambda>(n, _). \<not> eq_ignore_ascii_case n ''connection'' \<and>
        \<not> eq_ignore_ascii_case n ''content-length'') hs
      in list_all line_ok sent \<and> out = request @ as_bytes (crlf_lines (map header_text sent)))"
proof (induction hs arbitrary: request)
  case (Cons h hs)
  then show ?case
    by (cases h) (auto simp: and_then_eq_Inr append_header_line_Inr Let_def)
qed (auto simp: as_bytes_def)

lemma build_worker_request_Inr:
  assumes "cr_path_and_query req = Some pq"
  shows "build_worker_request req headers body = Inr bytes \<longleftrightarrow>
    list_all line_ok (sent_headers req headers body) \<and>
    bytes = as_bytes (crlf_lines (request_line req pq # map header_text (sent_headers req headers body)) @ crlf) @ body"
  using assms
  by (auto simp: build_worker_request_def and_then_eq_Inr append_header_lines_Inr append_header_line_Inr
      sent_headers_def request_line_def crlf_bytes as_bytes_Cons Let_def split: option.split)

lemma build_worker_request_path:
  "build_worker_request req headers body = Inr bytes \<Longrightarrow> \<exists>pq. cr_path_and_query req = Some pq"
  by (auto simp: build_worker_request_def ok_or_eq_Inr elim!: and_then_InrE)

section \<open>The worker's reading of the lines\<close>

lemma header_names_agree: "is_valid_header_name (as_bytes n) = valid_token n"
proof -
  have "valid_token_byte b \<longleftrightarrow> is_ascii_alphanumeric b \<or>
      b \<in> {33, 35, 36, 37, 38, 39, 42, 43, 45, 46, 94, 95, 96, 124, 126}" for b
    by (auto simp: valid_token_byte_def as_bytes_def byte_def)
  then show ?thesis by (simp add: is_valid_header_name_def valid_token_def list_all_iff as_bytes_def)
qed

lemma no_colon_token: "valid_token s \<Longrightarrow> CHR '':'' \<notin> set s"
  by (auto simp: valid_token_def as_bytes_def list_all_iff valid_token_byte_def
      is_ascii_alphanumeric_def is_ascii_digit_def is_ascii_uppercase_def is_ascii_lowercase_def byte_def)

lemma split_once_first: "c \<notin> set a \<Longrightarrow> split_once c (a @ c # b) = Some (a, b)"
  by (induction a) auto

definition worker_view :: "header \<Rightarrow> header" where
  "worker_view h = (to_ascii_lowercase (fst h), trim_blanks (snd h))"

lemma trim_blanks_space: "trim_blanks (CHR '' '' # v) = trim_blanks v"
  by (simp add: trim_blanks_def)

lemma parse_header_line_text:
  assumes "valid_token (fst h)" and "parse_header_line hs (header_text h) = Inr h'"
  shows "h' = worker_view h"
proof -
  have "split_once (CHR '':'') (header_text h) = Some (fst h, CHR '' '' # snd h)"
    using split_once_first [OF no_colon_token [OF assms(1)]] by (simp add: header_text_def)
  with assms(2) show ?thesis
    by (auto simp: parse_header_line_def worker_view_def trim_blanks_space Let_def split: if_split_asm)
qed

lemma header_text_nonempty: "header_text h \<noteq> []"
  by (simp add: header_text_def)

lemma parse_header_lines_text:
  assumes "list_all (\<lambda>h. valid_token (fst h)) sent"
    and "parse_header_lines n hs (map header_text sent @ [[], []]) = Inr out"
  shows "out = hs @ map worker_view sent"
  using assms
proof (induction sent arbitrary: n hs)
  case (Cons h sent)
  then obtain h' where "parse_header_line hs (header_text h) = Inr h'"
    and rest: "parse_header_lines (n + 1) (hs @ [h']) (map header_text sent @ [[], []]) = Inr out"
    by (auto simp: header_text_nonempty Let_def and_then_eq_Inr split: if_split_asm)
  with parse_header_line_text Cons.prems(1) have "h' = worker_view h" by simp
  with Cons.IH [OF _ rest] Cons.prems(1) show ?case by simp
qed simp

lemma split_on_snoc: "split_on c (a @ c # b) = split_on c a @ split_on c b"
  by (induction a) (auto split: list.split)

lemma split_on_singleton: "split_on c s = [w] \<Longrightarrow> w = s"
  by (induction s arbitrary: w) (auto split: list.splits if_splits)

lemma parse_request_line_sent:
  assumes "parse_request_line (request_line req pq) = Inr (m, target, version)"
  shows "m = cr_method req \<and> target = pq"
proof -
  let ?parts = "split_on (CHR '' '') (request_line req pq)"
  have parts: "?parts = split_on (CHR '' '') (cr_method req) @ split_on (CHR '' '') pq @ [''HTTP/1.1'']"
    by (simp add: request_line_def split_on_snoc)
  with assms have len: "length ?parts = 3" and eq: "m = ?parts ! 0" "target = ?parts ! 1"
    by (auto simp: parse_request_line_def Let_def split: if_split_asm)
  obtain a b where "split_on (CHR '' '') (cr_method req) = [a]" "split_on (CHR '' '') pq = [b]"
    using len parts split_on_nonempty [of "CHR '' ''" "cr_method req"] split_on_nonempty [of "CHR '' ''" pq]
    by (cases "split_on (CHR '' '') (cr_method req)"; cases "split_on (CHR '' '') pq") auto
  with eq parts show ?thesis by (auto dest: split_on_singleton)
qed

lemma sent_line_facts:
  assumes "list_all line_ok hs" and "h \<in> set hs"
  shows "valid_token (fst h)" and "header_text h \<noteq> []" and "CHR 0x0D \<notin> set (header_text h)"
proof -
  from assms have h: "valid_token (fst h)" "\<not> has_invalid_header_value_bytes (as_bytes (snd h))"
    by (auto simp: list_all_iff line_ok_def header_names_agree)
  then show "valid_token (fst h)" "header_text h \<noteq> []" by (simp_all add: header_text_def)
  have "CHR 0x0D \<notin> set (snd h)"
    using h(2) by (auto simp: has_invalid_header_value_bytes_def list_ex_iff as_bytes_def byte_def)
  with no_cr_token [OF h(1)] show "CHR 0x0D \<notin> set (header_text h)" by (simp add: header_text_def)
qed

lemma parse_head_text:
  assumes "parse_head (as_bytes t) = Inr (m, target, version, hs)" and "split_crlf t = l # ls"
  shows "parse_request_line l = Inr (m, target, version) \<and> parse_header_lines 0 [] ls = Inr hs"
  using assms by (auto simp: parse_head_def and_then_eq_Inr ok_or_eq_Inr split: if_split_asm)

lemma trim_blanks_id:
  "s = [] \<or> (hd s \<noteq> CHR '' '' \<and> hd s \<noteq> CHR 0x09 \<and> last s \<noteq> CHR '' '' \<and> last s \<noteq> CHR 0x09) \<Longrightarrow> trim_blanks s = s"
  by (auto simp: trim_blanks_def dropWhile_eq_self_iff [THEN iffD2] hd_rev)

lemma trim_blanks_digits [simp]: "trim_blanks (to_string n) = to_string n"
proof (rule trim_blanks_id)
  have "\<forall>c \<in> set (to_string n). c \<noteq> CHR '' '' \<and> c \<noteq> CHR 0x09"
    using to_string_digits [of n] by (auto simp: list_all_iff is_ascii_digit_def byte_def)
  then show "to_string n = [] \<or> (hd (to_string n) \<noteq> CHR '' '' \<and> hd (to_string n) \<noteq> CHR 0x09 \<and>
      last (to_string n) \<noteq> CHR '' '' \<and> last (to_string n) \<noteq> CHR 0x09)" by simp
qed

lemma parse_uint_to_string_only: "parse_uint lim (to_string n) = Some k \<Longrightarrow> k = n"
  by (auto simp: parse_uint_def strip_plus_digits to_string_digits to_string_value Let_def split: if_splits)

lemma lower_sent_names:
  "to_ascii_lowercase ''Content-Length'' = ''content-length''" "to_ascii_lowercase ''Connection'' = ''connection''"
  "to_ascii_lowercase ''Host'' = ''host''"
  by (simp_all add: to_ascii_lowercase_def lower_char_def is_ascii_uppercase_def byte_def byte_char_def
      char_of_eq_iff)

text \<open>What the worker parses of a request the edge wrote, when it accepts it.\<close>

lemma worker_parses_sent:
  assumes build: "build_worker_request req headers body = Inr bytes"
    and clean: "CHR 0x0D \<notin> set (cr_method req)" "pred_option (\<lambda>pq. CHR 0x0D \<notin> set pq) (cr_path_and_query req)"
    and parts: "parse_request_parts (bytes, fin) max_body = Inr (m, target, host, hs, got)"
  shows "m = cr_method req" and "cr_path_and_query req = Some target"
    and "hs = map worker_view (sent_headers req headers body)" and "got = body"
proof -
  let ?sent = "sent_headers req headers body"
  from build obtain pq where pq: "cr_path_and_query req = Some pq" and ok: "list_all line_ok ?sent"
    and bytes: "bytes = as_bytes (crlf_lines (request_line req pq # map header_text ?sent) @ crlf) @ body"
    using build_worker_request_path build_worker_request_Inr by metis
  have lines: "head_lines (request_line req pq # map header_text ?sent)"
    using clean pq sent_line_facts [OF ok] by (auto simp: head_lines_def request_line_def list_all_iff)
  from parts obtain head rest version len where
    head: "read_head (bytes, fin) = Inr (head, rest)" and parse: "parse_head head = Inr (m, target, version, hs)" and
    len: "request_body_length hs max_body = Inr len" and rb: "read_body rest len = Inr got"
    by (elim parse_request_parts_Inr)
  from read_head_lines [OF lines head [unfolded bytes]]
  have h: "head = as_bytes (crlf_lines (request_line req pq # map header_text ?sent) @ crlf)" "rest = body" by simp_all
  from parse have pl: "parse_request_line (request_line req pq) = Inr (m, target, version)"
    and ph: "parse_header_lines 0 [] (map header_text ?sent @ [[], []]) = Inr hs"
    using parse_head_text [OF _ split_head [OF lines, unfolded append_Cons]] h(1) by auto
  show "m = cr_method req" "cr_path_and_query req = Some target"
    using parse_request_line_sent [OF pl] pq by simp_all
  show hs: "hs = map worker_view ?sent"
    using parse_header_lines_text [OF _ ph] sent_line_facts(1) [OF ok] by (simp add: list_all_iff)
  have "parsed_headers hs" using parse by (rule parse_head_Inr(1))
  then have d: "distinct (map fst hs)" by (simp add: parsed_headers_def)
  have "worker_view (''Content-Length'', to_string (length body)) \<in> set hs"
    unfolding hs by (simp add: sent_headers_def)
  then have "map_of hs ''content-length'' = Some (to_string (length body))"
    using d by (simp add: worker_view_def lower_sent_names)
  then have "parse_uint U64_MAX (to_string (length body)) = Some len"
    using request_body_length_Inr [OF len] by simp
  from parse_uint_to_string_only [OF this] show "got = body"
    using read_body_Inr [OF rb] h(2) by simp
qed

section \<open>The hop\<close>

lemma metadata_sent:
  assumes "sanitize_with_protocols raw m protocols = Inr s" and "h \<in> set (metadata_headers m)"
  shows "h \<in> set (sent_headers req (sr_headers s) body)"
proof -
  have "to_ascii_lowercase (fst h) = fst h" "starts_with (fst h) ''x-oxo-''"
    using metadata_names [of "fst h" "snd h" m] assms(2) by simp_all
  then have "\<not> eq_ignore_ascii_case (fst h) ''connection''" "\<not> eq_ignore_ascii_case (fst h) ''content-length''"
    by (auto simp: eq_ignore_ascii_case_def starts_with_append to_ascii_lowercase_def lower_char_def
        is_ascii_uppercase_def byte_def)
  moreover have "h \<in> set (sr_headers s)"
    using sanitize_with_protocols_Inr(1) [OF assms(1)] assms(2) by simp
  ultimately show ?thesis by (cases h) (auto simp: sent_headers_def)
qed

text \<open>
  C14: The HTTP hop is faithful and cannot be smuggled. Whatever headers a client sent, when the
  edge sanitizes and writes its request and the worker accepts the bytes, the worker's request
  has the edge's method, path and query, exactly the edge's body, and as its trusted fields the
  edge's own metadata (the scheme when it is http or https); the application sees no headers but
  those the edge sent, under the worker's filter. The method and target must be free of carriage
  returns, which the edge's HTTP library guarantees.
\<close>
theorem http_hop_faithful:
  assumes "sanitize_with_protocols raw meta protocols = Inr s"
    and "build_worker_request req (sr_headers s) body = Inr bytes"
    and "CHR 0x0D \<notin> set (cr_method req)" and "pred_option (\<lambda>pq. CHR 0x0D \<notin> set pq) (cr_path_and_query req)"
    and "parse_request iter (bytes, fin) max_body = Inr wq" and "lists_entries iter"
  shows "wq_method wq = cr_method req
    \<and> map_option split_target (cr_path_and_query req) = Some (wq_path wq, wq_query wq)
    \<and> wq_body wq = body
    \<and> wq_remote_addr wq = trim_blanks (tm_remote_addr meta)
    \<and> wq_server_name wq = trim_blanks (tm_server_name meta)
    \<and> wq_server_port wq = tm_server_port meta
    \<and> wq_url_scheme wq =
        (if trim_blanks (tm_url_scheme meta) = ''https'' then ''https'' else ''http'')
    \<and> mset (wq_headers wq) =
        mset (List.map_filter http_keep (map worker_view (sent_headers req (sr_headers s) body)))"
proof -
  let ?sent = "sent_headers req (sr_headers s) body"
  from assms(5,6) obtain m target host hs got where
    parts: "parse_request_parts (bytes, fin) max_body = Inr (m, target, host, hs, got)" and
    parsed: "parsed_headers hs" and r: "wq = apply_header (base_request m target host got) (iter hs)" and
    it: "map_of (iter hs) = map_of hs"
    by (elim parse_request_Inr)
  note sent = worker_parses_sent [OF assms(2-4) parts]
  have look: "map_of hs n = Some (trim_blanks v)" if "(n, v) \<in> set (metadata_headers meta)" for n v
  proof -
    have "worker_view (n, v) \<in> set hs"
      using metadata_sent [OF assms(1) that] unfolding sent(3) by simp
    moreover have "fst (worker_view (n, v)) = n"
      using metadata_names(1) [OF that] by (simp add: worker_view_def)
    ultimately show ?thesis
      using parsed by (simp add: parsed_headers_def worker_view_def)
  qed
  have "parse_uint U16_MAX (to_string (unat (tm_server_port meta))) = Some (unat (tm_server_port meta))"
    using unsigned_less [of "tm_server_port meta", where 'a = nat] by (intro parse_uint_to_string) simp
  then have fields: "wq_remote_addr wq = trim_blanks (tm_remote_addr meta)"
    "wq_server_name wq = trim_blanks (tm_server_name meta)" "wq_server_port wq = tm_server_port meta"
    "wq_url_scheme wq = (if trim_blanks (tm_url_scheme meta) = ''https'' then ''https'' else ''http'')"
    using look by (auto simp: r apply_header_def base_request_def it metadata_headers_def unwrap_or_def
        resolved_scheme_def resolved_port_def)
  have "mset (wq_headers wq) = mset (List.map_filter http_keep (map worker_view ?sent))"
    using assms(6) map_filter_mset [of "iter hs" hs http_keep] unfolding sent(3) lists_entries_def
    by (simp add: r apply_header_def base_request_def sent(3))
  with fields sent show ?thesis
    by (simp add: r apply_header_def base_request_def)
qed

section \<open>A sample exchange\<close>

definition hop_metadata :: trusted_hop_metadata where
  "hop_metadata = \<lparr>tm_remote_addr = ''9.9.9.9'', tm_url_scheme = ''https'', tm_server_name = ''app'',
     tm_server_port = 443, tm_request_id = None\<rparr>"

definition hop_request :: client_request where
  "hop_request = \<lparr>cr_method = ''GET'', cr_http2 = False, cr_scheme = None, cr_authority = None,
     cr_path = ''/a'', cr_path_and_query = Some ''/a?b=1''\<rparr>"

definition hop_headers :: "header list" where
  "hop_headers = [(''Host'', ''app''), (''x-oxo-remote-addr'', ''9.9.9.9''), (''x-oxo-url-scheme'', ''https''),
     (''x-oxo-server-name'', ''app''), (''x-oxo-server-port'', ''443''), (''connection'', ''close'')]"

definition hop_head :: string where
  "hop_head = ''GET /a?b=1 HTTP/1.1'' @ crlf @ ''Host: app'' @ crlf @ ''x-oxo-remote-addr: 9.9.9.9'' @ crlf @
     ''x-oxo-url-scheme: https'' @ crlf @ ''x-oxo-server-name: app'' @ crlf @ ''x-oxo-server-port: 443'' @ crlf @
     ''Content-Length: 2'' @ crlf @ ''Connection: close'' @ crlf @ crlf"

lemma hop_lower:
  "to_ascii_lowercase ''x-oxo-remote-addr'' = ''x-oxo-remote-addr''"
  "to_ascii_lowercase ''x-oxo-url-scheme'' = ''x-oxo-url-scheme''"
  "to_ascii_lowercase ''x-oxo-server-name'' = ''x-oxo-server-name''"
  "to_ascii_lowercase ''x-oxo-server-port'' = ''x-oxo-server-port''"
  "to_ascii_lowercase ''connection'' = ''connection''" "to_ascii_lowercase ''host'' = ''host''"
  "to_ascii_lowercase ''content-length'' = ''content-length''" "to_ascii_lowercase ''close'' = ''close''"
  by (simp_all add: to_ascii_lowercase_def lower_char_def is_ascii_uppercase_def byte_def)

lemma hop_digits: "to_string 443 = ''443''" "to_string (Suc (Suc 0)) = ''2''"
  by (simp_all add: to_string.simps digit_char_def char_of_eq_iff)

lemma hop_sanitized:
  "\<exists>s. sanitize_with_protocols [(''Host'', ''app'')] hop_metadata \<lparr>ps_sse = False\<rparr> = Inr s \<and> sr_headers s = hop_headers"
proof -
  have "header_tokens (lowered_all [(''Host'', ''app'')]) = []"
    by (simp add: header_tokens_def lower_sent_names)
  then have "sanitize_bare (lowered_all [(''Host'', ''app'')]) \<lparr>ps_sse = False\<rparr> =
      Inr \<lparr>sr_headers = [(''Host'', ''app'')], sr_stripped_headers = []\<rparr>"
    unfolding sanitize_bare_eq survivors_raw stripped_raw
    by (simp add: header_rejection_def lower_sent_names starts_with_def should_strip_header_def
        hop_by_hop_name_def is_client_forwarding_header_def)
  then show ?thesis
    by (simp add: sanitize_with_protocols_def sanitize_lowered_def lowered_all_def hop_headers_def
        metadata_headers_def hop_metadata_def hop_digits)
qed

lemma hop_line_ok: "list_all line_ok (sent_headers hop_request hop_headers (as_bytes ''hi''))"
  by (simp add: line_ok_def sent_headers_def hop_headers_def hop_digits eq_ignore_ascii_case_def lower_sent_names
      hop_lower is_valid_header_name_def has_invalid_header_value_bytes_def eval_bytes)

lemma hop_built:
  "build_worker_request hop_request hop_headers (as_bytes ''hi'') = Inr (as_bytes hop_head @ as_bytes ''hi'')"
proof -
  have "crlf_lines (request_line hop_request ''/a?b=1'' #
      map header_text (sent_headers hop_request hop_headers (as_bytes ''hi''))) @ crlf = hop_head"
    by (simp add: request_line_def hop_request_def header_text_def sent_headers_def hop_headers_def hop_digits
        hop_head_def eq_ignore_ascii_case_def lower_sent_names hop_lower)
  then show ?thesis
    using hop_line_ok build_worker_request_Inr [of hop_request "''/a?b=1''" hop_headers "as_bytes ''hi''"]
    by (simp add: hop_request_def)
qed

lemma hop_head_read: "read_head (as_bytes hop_head @ as_bytes ''hi'', Eof) = Inr (as_bytes hop_head, as_bytes ''hi'')"
  by (simp add: read_head_def hop_head_def crlf_def as_bytes_def byte_def ends_with_def CRLFCRLF_def
      MAX_HEADER_BYTES_def Let_def)

lemma eq_char_of: "c = char_of n \<longleftrightarrow> of_char c = n mod (256 :: nat)"
  by (simp add: eq_commute [of c] char_of_eq_iff take_bit_eq_mod eq_commute [of "of_char c"])

lemma hop_head_parsed:
  "\<exists>hs. parse_head (as_bytes hop_head) = Inr (''GET'', ''/a?b=1'', ''HTTP/1.1'', hs) \<and>
     map_of hs ''host'' = Some ''app'' \<and> map_of hs ''content-length'' = Some ''2'' \<and> map_of hs ''content-type'' = None"
proof -
  have "rust_str hop_head" by (simp add: rust_str_def hop_head_def crlf_def as_bytes_def byte_def)
  then show ?thesis
    by (simp add: parse_head_def) (simp add: hop_head_def crlf_def parse_request_line_def eval_header_line
        eq_ignore_ascii_case_def MAX_HEADERS_def eq_char_of)
qed

lemma hop_accepted: "\<exists>wq. parse_request id (as_bytes hop_head @ as_bytes ''hi'', Eof) 10 = Inr wq"
proof -
  obtain hs where "parse_head (as_bytes hop_head) = Inr (''GET'', ''/a?b=1'', ''HTTP/1.1'', hs)"
    "map_of hs ''host'' = Some ''app''" "map_of hs ''content-length'' = Some ''2''" "map_of hs ''content-type'' = None"
    using hop_head_parsed by blast
  then show ?thesis
    by (simp add: parse_request_def hop_head_read) (simp add: check_target_def starts_with_def request_body_length_def
        read_body_def parse_content_length_def unwrap_or_def parse_uint_def strip_plus_def digit_value_def eval_bytes
        split_def)
qed

theorem http_hop_faithful_witness:
  "\<exists>wq. parse_request id (as_bytes hop_head @ as_bytes ''hi'', Eof) 10 = Inr wq \<and>
     wq_method wq = ''GET'' \<and> wq_body wq = as_bytes ''hi'' \<and> wq_remote_addr wq = trim_blanks ''9.9.9.9'' \<and>
     wq_server_port wq = 443"
proof -
  obtain s where s: "sanitize_with_protocols [(''Host'', ''app'')] hop_metadata \<lparr>ps_sse = False\<rparr> = Inr s"
    "sr_headers s = hop_headers" using hop_sanitized by blast
  obtain wq where wq: "parse_request id (as_bytes hop_head @ as_bytes ''hi'', Eof) 10 = Inr wq"
    using hop_accepted by blast
  have "build_worker_request hop_request (sr_headers s) (as_bytes ''hi'') = Inr (as_bytes hop_head @ as_bytes ''hi'')"
    by (simp only: s(2) hop_built)
  from http_hop_faithful [OF s(1) this _ _ wq lists_entries_id] wq show ?thesis
    by (simp add: hop_request_def hop_metadata_def)
qed

end
