(* ===== verification/Edge_Filter.thy ===== *)
theory Edge_Filter
  imports Edge_Sidecar Http_Hop
begin

text \<open>
  What the request path of \<open>Edge_Proxy\<close> and the sidecar hooks of \<open>Edge_Sidecar\<close> guarantee: over all
  interleavings of requests that are begun, served, dropped or open at a sidecar, every request
  is accounted for exactly once and every admission guard is given back exactly when its request
  ends; and nothing reaches a worker before the request was validated, admitted, sanitized and
  read completely.
\<close>

section \<open>Streaming gives its admission back\<close>

abbreviation relay_gate :: "'z relay_out_scheme \<Rightarrow> gate" where
  "relay_gate s \<equiv> rg_gate (rl_registry s)"

named_theorems gate_kept \<open>operations of the relays that leave the gate of the long-lived registry alone\<close>

lemma relay_gate_then_do:
  assumes "relay_gate (snd r) = g" and "\<And>x s. relay_gate s = g \<Longrightarrow> relay_gate (snd (f x s)) = g"
  shows "relay_gate (snd (then_do r f)) = g"
  using assms by (cases r; cases "fst r") (auto simp: then_do_def)

lemma registry_gate_kept [gate_kept]:
  "rg_gate (record_downstream_write_error b reg) = rg_gate reg"
  "rg_gate (snd (complete_drained a reg)) = rg_gate reg"
  "rg_gate (snd (snd (record_bytes n a reg))) = rg_gate reg"
  by (auto simp: record_downstream_write_error_def complete_drained_def record_bytes_def Let_def)

lemma write_gate_kept [gate_kept]:
  "relay_gate (snd (write_long_lived w s)) = relay_gate s"
  "relay_gate (snd (write_pending_header s)) = relay_gate s"
  by (auto simp: write_long_lived_def write_pending_header_def gate_kept split: prod.split sum.split option.split)

lemma finish_gate_kept [gate_kept]: "relay_gate (snd (finish_drained_chunked_response s)) = relay_gate s"
  unfolding finish_drained_chunked_response_def
  by (intro relay_gate_then_do) (simp_all add: gate_kept case_prod_beta)

lemma frame_relay_gate_kept [gate_kept]:
  "relay_gate (snd (drained_end s)) = relay_gate s"
  "relay_gate (snd (relay_end s)) = relay_gate s"
  "relay_gate (snd (relay_chunk data s)) = relay_gate s"
proof -
  show "relay_gate (snd (drained_end s)) = relay_gate s"
    unfolding drained_end_def by (intro relay_gate_then_do) (simp_all add: gate_kept)
  show "relay_gate (snd (relay_end s)) = relay_gate s"
    unfolding relay_end_def by (intro relay_gate_then_do) (simp_all add: gate_kept)
  have writes: "relay_gate (snd (then_do (write_pending_header t) (\<lambda>_ s.
      then_do (write_long_lived w s) (\<lambda>_ s. (Inr None :: u16 + bool option, s))))) = relay_gate t"
    for t :: frame_relay and w by (intro relay_gate_then_do) (simp_all add: gate_kept)
  show "relay_gate (snd (relay_chunk data s)) = relay_gate s"
    by (simp add: relay_chunk_def Let_def case_prod_beta writes gate_kept)
qed

lemma relay_step_gate_kept [gate_kept]: "relay_gate (snd (relay_step caps s)) = relay_gate s"
  by (auto simp: relay_step_def Let_def frame_relay_gate_kept
      split: prod.split sum.split option.split response_frame.split)

lemma relay_loop_gate_kept [gate_kept]: "relay_gate (snd (relay_loop caps s)) = relay_gate s"
proof (induction caps s rule: relay_loop.induct)
  case (1 caps s)
  obtain r t where step: "relay_step caps s = (r, t)" by fastforce
  with relay_step_gate_kept [of caps s] have "relay_gate t = relay_gate s" by simp
  with 1 step show ?case
    by (subst relay_loop.simps) (auto split: sum.split option.split)
qed

lemma read_gate_kept [gate_kept]:
  "relay_gate (snd (read_more_worker_bytes_or_drain s)) = relay_gate s"
  by (auto simp: read_more_worker_bytes_or_drain_def split: list.split prod.split worker_read.split)

lemma read_until_gate_kept [gate_kept]:
  "relay_gate (snd (read_until_crlf_or_drain s)) = relay_gate s"
  "relay_gate (snd (read_until_available_or_drain len s)) = relay_gate s"
proof -
  show "relay_gate (snd (read_until_crlf_or_drain s)) = relay_gate s"
  proof (induction s rule: read_until_crlf_or_drain.induct)
    case (1 s)
    obtain r t where read: "read_more_worker_bytes_or_drain s = (r, t)" by fastforce
    with read_gate_kept [of s] have "relay_gate t = relay_gate s" by simp
    with 1 read show ?case
      by (subst read_until_crlf_or_drain.simps) (auto split: sum.split option.split bool.split)
  qed
  show "relay_gate (snd (read_until_available_or_drain len s)) = relay_gate s"
  proof (induction len s rule: read_until_available_or_drain.induct)
    case (1 len s)
    obtain r t where read: "read_more_worker_bytes_or_drain s = (r, t)" by fastforce
    with read_gate_kept [of s] have "relay_gate t = relay_gate s" by simp
    with 1 read show ?case
      by (subst read_until_available_or_drain.simps) (auto split: sum.split bool.split)
  qed
qed

lemma chunk_gate_kept [gate_kept]:
  "relay_gate (snd (drained_out s)) = relay_gate s"
  "relay_gate (snd (last_chunk s)) = relay_gate s"
  "relay_gate (snd (data_chunk sz s)) = relay_gate s"
proof -
  have drained [simp]: "relay_gate (snd (drained_out t)) = relay_gate t" for t
    unfolding drained_out_def by (intro relay_gate_then_do) (simp_all add: gate_kept)
  then show "relay_gate (snd (drained_out s)) = relay_gate s" .
  have ending [simp]: "relay_gate (snd (then_do (write_pending_header t) (\<lambda>_ s.
      then_do (write_long_lived w s) (\<lambda>_ s. (Inr b :: u16 + bool, f s))))) = relay_gate t"
    if "\<And>s. relay_gate (f s) = relay_gate s" for t :: relay and w b f
    by (intro relay_gate_then_do) (simp_all add: gate_kept that)
  show "relay_gate (snd (last_chunk s)) = relay_gate s"
    unfolding last_chunk_def
    by (rule relay_gate_then_do, simp add: gate_kept, simp add: ending [where f = "\<lambda>s. s\<lparr>rl_admission := admission_complete (rl_admission s)\<rparr>"])
  have body: "relay_gate (snd (then_do (read_until_available_or_drain n t) (\<lambda>available s.
      if \<not> available then drained_out s
      else if take 2 (drop sz (rl_pending s)) \<noteq> [0x0D, 0x0A] then (Inl 502, s)
      else
        (let chunk = take sz (rl_pending s); s = s\<lparr>rl_pending := drop (sz + 2) (rl_pending s)\<rparr> in
         then_do (write_pending_header s) (\<lambda>_ s.
         then_do (write_long_lived (DownBody (Some chunk) False) s) (\<lambda>_ s. (Inr True, s))))))) = relay_gate t" for n t
    by (rule relay_gate_then_do, simp add: gate_kept, simp add: Let_def ending [where f = "\<lambda>s. s"])
  show "relay_gate (snd (data_chunk sz s)) = relay_gate s"
    by (simp add: data_chunk_def Let_def case_prod_beta body gate_kept split: option.split)
qed

lemma next_chunk_gate_kept [gate_kept]: "relay_gate (snd (next_chunk s)) = relay_gate s"
  unfolding next_chunk_def
  by (rule relay_gate_then_do) (auto simp: gate_kept Let_def split: option.split sum.split)

lemma stream_loop_gate_kept [gate_kept]: "relay_gate (snd (stream_loop s)) = relay_gate s"
proof (induction s rule: stream_loop.induct)
  case (1 s)
  obtain r t where step: "next_chunk s = (r, t)" by fastforce
  with next_chunk_gate_kept [of s] have "relay_gate t = relay_gate s" by simp
  with 1 step show ?case
    by (subst stream_loop.simps) (auto split: sum.split bool.split)
qed

text \<open>Connections counted as long-lived.\<close>

abbreviation long_lived_active :: "registry \<Rightarrow> u64" where
  "long_lived_active reg \<equiv> gt_active (rg_gate reg)"

lemma try_admit_active:
  "try_admit reg = (None, reg') \<Longrightarrow> long_lived_active reg' = long_lived_active reg"
  "try_admit reg = (Some a, reg') \<Longrightarrow> long_lived_active reg' = long_lived_active reg + 1"
  by (auto simp: try_admit_def global_acquire_def record_max_active_def Let_def
      split: if_splits prod.splits sum.splits)

lemma admission_drop_active: "long_lived_active (admission_drop a reg) = long_lived_active reg - 1"
  by (simp add: admission_drop_def Let_def global_release_def)

lemma streams_balanced:
  "long_lived_active (fst (snd (stream_chunked_worker_response rs header pending reg d))) = long_lived_active reg"
  "long_lived_active (fst (snd (snd (stream_frames_downstream caps header status ds c reg d)))) = long_lived_active reg"
proof -
  obtain a reg' where admit: "try_admit reg = (a, reg')" by fastforce
  then show "long_lived_active (fst (snd (stream_chunked_worker_response rs header pending reg d))) = long_lived_active reg"
    "long_lived_active (fst (snd (snd (stream_frames_downstream caps header status ds c reg d)))) = long_lived_active reg"
    using try_admit_active [of reg]
    by (auto simp: stream_chunked_worker_response_def stream_frames_downstream_def case_prod_beta Let_def
        admission_drop_active gate_kept split: option.split)
qed

lemma read_response_balanced:
  "long_lived_active (fst (snd (read_worker_response_and_write rs keepalive reg d))) = long_lived_active reg"
  using streams_balanced(1)
  by (auto simp: read_worker_response_and_write_def case_prod_beta Let_def split: sum.split bool.split)

lemma exchange_balanced:
  "long_lived_active (fst (snd (snd (exchange_frames accepts caps keepalive ds c reg d)))) = long_lived_active reg"
  using streams_balanced(2)
  by (auto simp: exchange_frames_def case_prod_beta Let_def split: sum.split option.split response_frame.split)

abbreviation hop_active :: "hop_state \<Rightarrow> u64" where
  "hop_active s \<equiv> long_lived_active (hs_registry s)"

lemma run_exchange_balanced: "hop_active (snd (snd (snd (run_exchange cfg ds conn s)))) = hop_active s"
  using exchange_balanced by (simp add: run_exchange_def case_prod_beta Let_def)

lemma hop_counters [simp]:
  "hs_registry (count_fresh s) = hs_registry s" "hs_registry (count_stale s) = hs_registry s"
  "hs_registry (checkin_hop idx conn s) = hs_registry s"
  by (simp_all add: count_fresh_def count_stale_def checkin_hop_def)

lemma send_to_worker_balanced: "hop_active (snd (snd (send_to_worker cfg idx env s))) = hop_active s"
proof -
  have conn: "hs_registry (snd (connection_for idx env s)) = hs_registry s"
    by (auto simp: connection_for_def case_prod_beta Let_def split: option.split)
  have retry: "hop_active (snd (snd (retry_exchange cfg idx env n t))) = hop_active t" for n t
    using run_exchange_balanced
    by (auto simp: retry_exchange_def case_prod_beta Let_def split: option.split sum.split)
  show ?thesis
    using conn retry run_exchange_balanced
    by (auto simp: send_to_worker_def case_prod_beta Let_def split: option.split sum.split exchange_error.split)
qed

lemma try_candidates_balanced: "hop_active (snd (snd (try_candidates cfg pinned envs failed full order s))) = hop_active s"
proof (induction order arbitrary: failed full s)
  case (Cons idx order)
  have "hop_active (snd (snd (send_to_worker cfg idx (envs idx) s))) = hop_active s" by (rule send_to_worker_balanced)
  with Cons show ?case
    by (auto simp: case_prod_beta Let_def split: sum.split frame_send_error.split)
qed simp

lemma dispatch_balanced:
  "dispatch_passes cfg mode sockets pinned woken pes st s = Some (answer, n, st', s') \<Longrightarrow> hop_active s' = hop_active s"
proof (induction pes arbitrary: pinned woken st s answer n st' s')
  case (Cons pe pes)
  obtain order pinned' st1 where order: "pass_order mode sockets pinned woken pe st = (order, pinned', st1)"
    by (metis prod_cases3)
  obtain r k s1 where pass: "try_candidates cfg pinned' (pe_attempts pe) False 0 order s = (r, k, s1)"
    by (metis prod_cases3)
  have "hop_active s1 = hop_active s"
    using try_candidates_balanced [of cfg pinned' "pe_attempts pe" False 0 order s] pass by simp
  with Cons order pass show ?case
    by (auto split: pass_result.splits if_splits option.splits sum.splits)
qed simp

lemma frame_pool_balanced:
  "send_worker_frame_to_pool cfg mode sockets key g parked looks pes st s = Some (answer, n, st', s') \<Longrightarrow>
     hop_active s' = hop_active s"
  using dispatch_balanced
  by (auto simp: send_worker_frame_to_pool_def Let_def split: if_splits prod.splits option.splits sum.splits)

section \<open>Guards and outcomes of one request\<close>

definition guard_of :: "string option \<Rightarrow> string multiset" where
  "guard_of g = (case g of Some i \<Rightarrow> {#i#} | None \<Rightarrow> {#})"

text \<open>The limiter's map stands for exactly these guards.\<close>

definition tracks :: "string multiset \<Rightarrow> identity_limiter \<Rightarrow> bool" where
  "tracks held l \<longleftrightarrow> (case il_max_per_identity l of None \<Rightarrow> held = {#} | Some m \<Rightarrow> identity_inv m held l)"

lemma identity_acquire_tracks:
  assumes "tracks held l"
  shows "identity_acquire i l = (Inl u, l') \<Longrightarrow> tracks held l'"
    and "identity_acquire i l = (Inr g, l') \<Longrightarrow> tracks (held + guard_of g) l'"
proof -
  show "tracks held l'" if "identity_acquire i l = (Inl u, l')"
  proof -
    have "l' = l \<or> l' = l\<lparr>il_saturation_total := il_saturation_total l + 1\<rparr>"
      using that by (auto simp: identity_acquire_def Let_def split: option.splits if_splits)
    with assms show ?thesis by (auto simp: tracks_def identity_inv_saturation split: option.splits)
  qed
  show "tracks (held + guard_of g) l'" if acq: "identity_acquire i l = (Inr g, l')"
  proof (cases "il_max_per_identity l")
    case None
    with acq assms show ?thesis by (auto simp: tracks_def identity_acquire_def guard_of_def)
  next
    case (Some m)
    with assms have inv: "identity_inv m held l" by (simp add: tracks_def)
    from acq identity_acquire_eq [OF inv, of i] have "\<not> unat m \<le> count held i" "g = Some i"
      "l' = l\<lparr>il_active := AList.update i (of_nat (count held i) + 1) (il_active l),
         il_admitted_total := il_admitted_total l + 1\<rparr>"
      by (auto split: if_splits)
    with identity_admit_inv [OF inv, of i "il_admitted_total l + 1"] Some show ?thesis
      by (simp add: tracks_def guard_of_def)
  qed
qed

lemma identity_release_limit [simp]: "il_max_per_identity (identity_release i l) = il_max_per_identity l"
  by (simp add: identity_release_def split: option.split)

lemma drop_identity_tracks:
  "tracks (held + guard_of g) (es_identity st) \<Longrightarrow> tracks held (es_identity (drop_identity g st))"
  using identity_release_inv [of _ "held + guard_of g" _ "the g"]
  by (cases g) (auto simp: tracks_def drop_identity_def guard_of_def split: option.splits)

text \<open>The change a part of the request path makes to the edge's books.\<close>

definition accounted :: "nat \<Rightarrow> u64 \<Rightarrow> string multiset \<Rightarrow> u64 \<Rightarrow> edge_state \<Rightarrow> edge_state \<Rightarrow> bool" where
  "accounted n g ids l st st' \<longleftrightarrow>
     outcomes (es_telemetry st') = outcomes (es_telemetry st) + n \<and>
     classified (es_telemetry st') = classified (es_telemetry st) + n \<and>
     tl_requests_total (es_telemetry st') = tl_requests_total (es_telemetry st) \<and>
     tl_in_flight (es_telemetry st') = tl_in_flight (es_telemetry st) \<and>
     gt_active (es_gate st') = gt_active (es_gate st) + g \<and>
     (\<forall>held. tracks held (es_identity st) \<longrightarrow> tracks (held + ids) (es_identity st')) \<and>
     long_lived_active (es_registry st') = long_lived_active (es_registry st) + l"

definition sidecar :: "filter_result \<Rightarrow> bool" where
  "sidecar r = (case r of ToSidecar _ \<Rightarrow> True | _ \<Rightarrow> False)"

lemma drop_simps [simp]:
  "es_telemetry (drop_global h st) = es_telemetry st" "es_identity (drop_global h st) = es_identity st"
  "es_registry (drop_global h st) = es_registry st" "es_gate (drop_identity g st) = es_gate st"
  "es_telemetry (drop_identity g st) = es_telemetry st" "es_registry (drop_identity g st) = es_registry st"
  "gt_active (es_gate (drop_global h st)) = gt_active (es_gate st) - of_bool h"
  by (simp_all add: drop_global_def drop_identity_def global_release_def split: option.split)

lemma noted_simps [simp]:
  "es_telemetry (noted f st) = f (es_telemetry st)" "es_gate (noted f st) = es_gate st"
  "es_identity (noted f st) = es_identity st" "es_registry (noted f st) = es_registry st"
  by (simp_all add: noted_def)

lemma global_acquire_active:
  "global_acquire m g = (Inl u, g') \<Longrightarrow> gt_active g' = gt_active g"
  "global_acquire m g = (Inr h, g') \<Longrightarrow> gt_active g' = gt_active g + of_bool h"
  by (auto simp: global_acquire_def record_max_active_def split: option.splits if_splits)

lemma respond_not_sidecar: "respond status ses = (r, ses') \<Longrightarrow> \<not> sidecar r"
  by (cases "se_respond_ok ses") (auto simp: respond_def sidecar_def)

lemma reject_accounted:
  assumes "reject rid status ses st = (r, ses', st')"
  shows "accounted 1 0 {#} 0 st st' \<and> \<not> sidecar r"
  using assms by (auto simp: reject_def accounted_def respond_not_sidecar split: prod.splits)

lemma admit_accounted:
  assumes "admit p raw rid want ses st = (x, ses', st')"
  shows "case x of
      Inl r \<Rightarrow> accounted 1 0 {#} 0 st st' \<and> \<not> sidecar r
    | Inr a \<Rightarrow> accounted 0 (of_bool (ad_global a)) (guard_of (ad_identity a)) (of_bool want) st st' \<and>
        (ad_long_lived a \<noteq> None \<longleftrightarrow> want)"
proof (cases x)
  case (Inl r)
  with assms show ?thesis
    by (auto simp: admit_def Let_def reject_def respond_not_sidecar accounted_def
        split: prod.splits sum.splits if_splits option.splits
        dest!: global_acquire_active try_admit_active
        dest: identity_acquire_tracks(1) intro!: drop_identity_tracks)
      (metis identity_acquire_tracks(2))
next
  case (Inr a)
  with assms show ?thesis
    by (auto simp: admit_def Let_def reject_def accounted_def
        split: prod.splits sum.splits if_splits option.splits
        dest!: global_acquire_active try_admit_active dest: identity_acquire_tracks)
qed

lemma http_hop_books:
  assumes "http_hop attempts keepalive sockets st d = (r, n, st', d')"
  shows "es_telemetry st' = es_telemetry st \<and> es_gate st' = es_gate st \<and> es_identity st' = es_identity st \<and>
    long_lived_active (es_registry st') = long_lived_active (es_registry st) \<and> n \<le> 1"
proof -
  have "fst (snd (read_worker_response_and_write rs keepalive reg d)) = reg' \<Longrightarrow>
      long_lived_active reg' = long_lived_active reg" for rs reg d reg'
    using read_response_balanced by blast
  with assms show ?thesis
    by (auto simp: http_hop_def case_prod_beta Let_def split: if_splits)
qed

lemma frame_hop_books:
  assumes "frame_hop p io ses st = Some (r, n, ses', st')"
  shows "es_telemetry st' = es_telemetry st \<and> es_gate st' = es_gate st \<and> es_identity st' = es_identity st \<and>
    long_lived_active (es_registry st') = long_lived_active (es_registry st)"
  using assms frame_pool_balanced by (fastforce simp: frame_hop_def Let_def)

lemma run_hop_books:
  assumes "run_hop p io raw remote prep body ses st = Some (r, sent, ses', st')"
  shows "accounted 0 0 {#} 0 st st'"
proof -
  have "es_telemetry st' = es_telemetry st \<and> es_gate st' = es_gate st \<and> es_identity st' = es_identity st \<and>
      long_lived_active (es_registry st') = long_lived_active (es_registry st)"
    using assms
    by (auto simp: run_hop_def split: hop_prep.splits sum.splits prod.splits
        dest!: frame_hop_books http_hop_books)
  then show ?thesis by (simp add: accounted_def)
qed

lemma accounted_trans:
  assumes "accounted n g ids l st1 st2" and "accounted n' g' ids' l' st2 st3"
  shows "accounted (n + n') (g + g') (ids + ids') (l + l') st1 st3"
proof -
  have "tracks (held + (ids + ids')) (es_identity st3)" if "tracks held (es_identity st1)" for held
    using assms that unfolding accounted_def by (metis add.assoc)
  with assms show ?thesis unfolding accounted_def by simp
qed

lemma accounted_noted:
  "accounted 1 0 {#} 0 st (noted (record_response rid status) st)"
  by (simp add: accounted_def)

lemma worker_route_accounted:
  assumes "worker_route p io raw rid content_len remote ses st = Some (r, sent, ses', st')"
  shows "accounted 1 0 {#} 0 st st' \<and> \<not> sidecar r"
proof (cases "static_answer p io ses")
  case (Some answer)
  with assms show ?thesis
    by (cases answer) (auto simp: worker_route_def unsent_def accounted_def sidecar_def)
next
  case None
  note static = None
  show ?thesis
  proof (cases "prepare_hop p raw remote rid")
    case (Inl e)
    with assms static show ?thesis
      by (auto simp: worker_route_def unsent_def split: prod.splits dest: reject_accounted)
  next
    case (Inr prep)
    note prep = Inr
    show ?thesis
    proof (cases "read_complete_body (cr_http2 (se_request ses)) content_len (ep_max_body p) (se_body ses)")
      case (Inl e)
      with assms static prep show ?thesis
        by (auto simp: worker_route_def unsent_def split: prod.splits dest: reject_accounted)
    next
      case (Inr body)
      with assms static prep obtain x sent1 ses1 st1 where
        run: "run_hop p io raw remote prep body ses st = Some (x, sent1, ses1, st1)" and
        fin: "(case x of Inr status \<Rightarrow> (Handled, sent1, ses1, noted (record_response rid status) st1)
           | Inl status \<Rightarrow> (case reject rid status ses1 st1 of (r, ses, st) \<Rightarrow> (r, sent1, ses, st))) = (r, sent, ses', st')"
        by (auto simp: worker_route_def)
      have "accounted 1 0 {#} 0 st1 st' \<and> \<not> sidecar r"
        using fin accounted_noted
        by (cases x) (auto simp: sidecar_def split: prod.splits dest: reject_accounted)
      with accounted_trans [OF run_hop_books [OF run]] show ?thesis by fastforce
    qed
  qed
qed

text \<open>The context's share of the books.\<close>

definition context_ok :: "request_context \<Rightarrow> bool" where
  "context_ok ctx \<longleftrightarrow> cx_route ctx \<noteq> RouteWorker \<and> cx_request_id ctx \<noteq> None \<and> cx_long_lived ctx \<noteq> None"

fun result_accounted :: "filter_result \<Rightarrow> edge_state \<Rightarrow> edge_state \<Rightarrow> bool" where
  "result_accounted (ToSidecar ctx) st st' \<longleftrightarrow>
     accounted 0 (of_bool (cx_global ctx)) (guard_of (cx_identity ctx)) 1 st st' \<and> context_ok ctx \<and>
     \<not> cx_outcome_recorded ctx"
| "result_accounted _ st st' \<longleftrightarrow> accounted 1 0 {#} 0 st st'"

lemma not_sidecar_accounted:
  "accounted 1 0 {#} 0 st st' \<and> \<not> sidecar r \<Longrightarrow> result_accounted r st st'"
  by (cases r) (auto simp: sidecar_def)

lemma sidecar_route_accounted:
  assumes "sidecar_route p raw rid route checked ses st = (r, ses', st')" and "route \<noteq> RouteWorker"
  shows "result_accounted r st st'"
proof (cases checked)
  case (Inl e)
  with assms show ?thesis by (auto simp: sidecar_route_def intro!: not_sidecar_accounted dest: reject_accounted)
next
  case (Inr u)
  obtain x ses1 st1 where admit: "admit p raw rid True ses st = (x, ses1, st1)" by (metis prod_cases3)
  note books = admit_accounted [OF admit]
  show ?thesis
  proof (cases x)
    case (Inl r1)
    with assms Inr admit books show ?thesis by (intro not_sidecar_accounted) (auto simp: sidecar_route_def)
  next
    case (Inr a)
    with assms \<open>checked = Inr u\<close> admit books show ?thesis by (auto simp: sidecar_route_def context_ok_def)
  qed
qed

section \<open>The phases of a request\<close>

text \<open>
  \<open>request_filter\<close> is asynchronous: other requests run while a Rack request waits for its turn at a
  worker and for the answer, and its admission guards stay alive all that time. Its two phases are
  named here: \<open>request_begin\<close> up to the admission, where every other request is already settled, and
  \<open>request_serve\<close> from there to the end of the function, where the guards and the observation go
  out of scope. \<open>request_cancel\<close> is the second phase of a future that is dropped before it has an
  outcome. \<open>request_filter_phases\<close> below shows that the two phases in a row are the request filter.
\<close>

record pending_request =
  pq_id :: string
  pq_raw :: "lowered_header list"
  pq_content_len :: "u64 option"
  pq_admission :: admission
  pq_session :: session

datatype request_start = Settled filter_result session | Admitted pending_request

definition settled :: "filter_result \<times> session \<times> edge_state \<Rightarrow> request_start \<times> edge_state" where
  "settled out = (case out of (r, ses, st) \<Rightarrow> (Settled r ses, st))"

definition rack_begin ::
  "edge_proxy \<Rightarrow> lowered_header list \<Rightarrow> string \<Rightarrow> session \<Rightarrow> edge_state \<Rightarrow> request_start \<times> edge_state" where
  "rack_begin p raw rid ses st =
     (case validate_client_request (client_request.truncate (se_request ses)) raw (ep_max_body p)
             (ep_public_server_name p) of
        Inl status \<Rightarrow> settled (reject rid status ses st)
      | Inr content_len \<Rightarrow>
          (case admit p raw rid False ses st of
             (Inl r, ses, st) \<Rightarrow> settled (r, ses, st)
           | (Inr a, ses, st) \<Rightarrow>
               (Admitted \<lparr>pq_id = rid, pq_raw = raw, pq_content_len = content_len, pq_admission = a, pq_session = ses\<rparr>, st)))"

definition route_begin ::
  "edge_proxy \<Rightarrow> hop_env \<Rightarrow> string \<Rightarrow> session \<Rightarrow> edge_state \<Rightarrow> request_start \<times> edge_state" where
  "route_begin p io rid ses st =
     (case collect_request_headers (io_to_str io) (se_raw_headers ses) of
        Inl status \<Rightarrow> settled (reject rid status ses st)
      | Inr raw \<Rightarrow>
          (let req = client_request.truncate (se_request ses) in
           if io_draining io then settled (reject rid 503 (ses\<lparr>se_keepalive := None\<rparr>) st)
           else case (if is_action_cable_upgrade_attempt req raw then ep_cable_bind p else None) of
             Some bind \<Rightarrow>
               settled (sidecar_route p raw rid (RouteActionCable bind)
                 (validate_action_cable_request req raw (ep_public_server_name p) (ep_url_scheme p)
                    (ep_server_name p) (ep_server_port p)) ses st)
           | None \<Rightarrow>
               (case (if is_native_grpc_request_attempt raw then ep_grpc_bind p else None) of
                  Some bind \<Rightarrow>
                    settled (sidecar_route p raw rid (RouteGrpc bind)
                      (validate_grpc_unary_request req raw (ep_max_body p) (ep_public_server_name p)) ses st)
                | None \<Rightarrow> rack_begin p raw rid ses st)))"

definition request_begin ::
  "edge_proxy \<Rightarrow> hop_env \<Rightarrow> session \<Rightarrow> edge_state \<Rightarrow> request_start \<times> edge_state" where
  "request_begin p io ses st =
     (let seq = es_sequence st;
          (start, st) = route_begin p io (request_id_text (ep_pid p) seq) (apply_keepalive_posture p ses)
            (noted (start_request seq) (st\<lparr>es_sequence := seq + 1\<rparr>))
      in case start of Settled r ses \<Rightarrow> (start, noted observation_drop st) | Admitted q \<Rightarrow> (start, st))"

definition request_cancel :: "pending_request \<Rightarrow> edge_state \<Rightarrow> edge_state" where
  "request_cancel q st =
     noted observation_drop
       (drop_global (ad_global (pq_admission q)) (drop_identity (ad_identity (pq_admission q)) st))"

definition request_serve :: "edge_proxy \<Rightarrow> hop_env \<Rightarrow> pending_request \<Rightarrow> edge_state \<Rightarrow> filter_out option" where
  "request_serve p io q st =
     map_option (\<lambda>(r, sent, ses, st). (r, sent, ses, request_cancel q st))
       (worker_route p io (pq_raw q) (pq_id q) (pq_content_len q) (ad_remote_addr (pq_admission q)) (pq_session q) st)"

definition finish_route ::
  "edge_proxy \<Rightarrow> hop_env \<Rightarrow> request_start \<times> edge_state \<Rightarrow> filter_out option" where
  "finish_route p io out =
     (case out of
        (Settled r ses, st) \<Rightarrow> Some (r, None, ses, st)
      | (Admitted q, st) \<Rightarrow>
          map_option (release_admission (pq_admission q))
            (worker_route p io (pq_raw q) (pq_id q) (pq_content_len q) (ad_remote_addr (pq_admission q)) (pq_session q) st))"

lemma finish_settled [simp]: "finish_route p io (settled out) = unsent out"
  by (simp add: finish_route_def settled_def unsent_def split: prod.split)

lemma rack_route_phases: "rack_route p io raw rid ses st = finish_route p io (rack_begin p raw rid ses st)"
  by (auto simp: rack_route_def rack_begin_def split: sum.split prod.split) (simp_all add: finish_route_def)

lemma route_request_phases: "route_request p io rid ses st = finish_route p io (route_begin p io rid ses st)"
  by (simp add: route_request_def route_begin_def rack_route_phases Let_def split: sum.split option.split)

text \<open>The two phases in a row are the request filter.\<close>

lemma request_filter_phases:
  "request_filter p io ses st =
     (case request_begin p io ses st of
        (Settled r ses', st') \<Rightarrow> Some (r, None, ses', st')
      | (Admitted q, st') \<Rightarrow> request_serve p io q st')"
  by (auto simp: request_filter_def request_begin_def route_request_phases finish_route_def request_serve_def Let_def
      release_admission_def request_cancel_def option.map_comp intro!: map_option_cong
      split: prod.split request_start.split)

text \<open>The books of each phase.\<close>

fun start_accounted :: "request_start \<Rightarrow> edge_state \<Rightarrow> edge_state \<Rightarrow> bool" where
  "start_accounted (Settled r ses) st st' \<longleftrightarrow> result_accounted r st st'"
| "start_accounted (Admitted q) st st' \<longleftrightarrow>
     accounted 0 (of_bool (ad_global (pq_admission q))) (guard_of (ad_identity (pq_admission q))) 0 st st'"

lemma settled_accounted:
  assumes "settled out = (start, st')" and "\<And>r ses. out = (r, ses, st') \<Longrightarrow> result_accounted r st st'"
  shows "start_accounted start st st'"
  using assms by (cases out) (auto simp: settled_def)

lemma rejected_accounted:
  assumes "settled (reject rid status ses st) = (start, st')"
  shows "start_accounted start st st'"
  using settled_accounted [OF assms] reject_accounted not_sidecar_accounted by blast

lemma rack_begin_accounted:
  assumes "rack_begin p raw rid ses st = (start, st')"
  shows "start_accounted start st st'"
proof (cases "validate_client_request (client_request.truncate (se_request ses)) raw (ep_max_body p) (ep_public_server_name p)")
  case (Inl e)
  with assms rejected_accounted show ?thesis by (simp add: rack_begin_def)
next
  case (Inr content_len)
  obtain x ses1 st1 where admit: "admit p raw rid False ses st = (x, ses1, st1)" by (metis prod_cases3)
  show ?thesis
    using assms Inr admit admit_accounted [OF admit] not_sidecar_accounted [of st st1]
    by (cases x) (auto simp: rack_begin_def settled_def)
qed

lemma route_begin_accounted:
  assumes "route_begin p io rid ses st = (start, st')"
  shows "start_accounted start st st'"
proof -
  have side: "start_accounted start st st'"
    if "settled (sidecar_route p raw rid route checked ses st) = (start, st')" "route \<noteq> RouteWorker" for raw route checked
    using settled_accounted [OF that(1)] sidecar_route_accounted [OF _ that(2)] by blast
  from assms show ?thesis
    by (auto simp: route_begin_def Let_def split: sum.splits if_splits option.splits
        intro: rejected_accounted rack_begin_accounted side)
qed

lemma request_begin_accounted:
  assumes "request_begin p io ses st = (start, st')"
  obtains st1 where "start_accounted start (noted (start_request (es_sequence st)) (st\<lparr>es_sequence := es_sequence st + 1\<rparr>)) st1"
    and "st' = (case start of Settled r ses \<Rightarrow> noted observation_drop st1 | Admitted q \<Rightarrow> st1)"
  using assms
  by (auto simp: request_begin_def Let_def split: prod.splits request_start.splits dest!: route_begin_accounted)

section \<open>All requests\<close>

text \<open>
  The life of the edge: requests arrive, admitted Rack requests are served by the workers or
  dropped, the hooks of outstanding sidecar requests run, and contexts go out of scope, in any
  order. \<open>lost\<close> counts the requests that ended without an outcome: Rack requests whose future
  was dropped and sidecar requests that ended without an answer or a failure. One exchange with
  the workers, from the static probe to the recorded answer, is one step.
\<close>

type_synonym edge_run = "pending_request list \<times> request_context list \<times> nat \<times> edge_state"

inductive edge_step :: "edge_proxy \<Rightarrow> edge_run \<Rightarrow> edge_run \<Rightarrow> bool" for p where
  finished: "request_begin p io ses st = (Settled r ses', st') \<Longrightarrow>
    edge_step p (qs, ctxs, lost, st) (qs, ctxs @ (case r of ToSidecar ctx \<Rightarrow> [ctx] | _ \<Rightarrow> []), lost, st')"
| admitted: "request_begin p io ses st = (Admitted q, st') \<Longrightarrow>
    edge_step p (qs, ctxs, lost, st) (qs @ [q], ctxs, lost, st')"
| served: "request_serve p io q st = Some (r, sent, ses', st') \<Longrightarrow>
    edge_step p (as @ q # bs, ctxs, lost, st) (as @ bs, ctxs, lost, st')"
| cancelled: "edge_step p (as @ q # bs, ctxs, lost, st) (as @ bs, ctxs, lost + 1, request_cancel q st)"
| hooked: "run_hook p h (ctx, st) = (ctx', st') \<Longrightarrow>
    edge_step p (qs, as @ ctx # bs, lost, st) (qs, as @ ctx' # bs, lost, st')"
| ended: "edge_step p (qs, as @ ctx # bs, lost, st)
    (qs, as @ bs, if cx_outcome_recorded ctx then lost else lost + 1, context_drop ctx st)"

definition edge_start :: "edge_run \<Rightarrow> bool" where
  "edge_start run \<longleftrightarrow>
     (\<exists>st limits per_identity mode. run = ([], [], 0, st) \<and> es_gate st = gate_new \<and>
        es_identity st = identity_limiter_new per_identity \<and> es_registry st = registry_new limits \<and>
        es_telemetry st = telemetry_new mode)"

definition guards :: "pending_request list \<Rightarrow> request_context list \<Rightarrow> string multiset" where
  "guards qs ctxs =
     sum_list (map (\<lambda>q. guard_of (ad_identity (pq_admission q))) qs) + sum_list (map (\<lambda>ctx. guard_of (cx_identity ctx)) ctxs)"

text \<open>How many requests hold a slot of the global gate, and one of the identity \<open>i\<close>.\<close>

definition gate_holders :: "pending_request list \<Rightarrow> request_context list \<Rightarrow> nat" where
  "gate_holders qs ctxs = length (filter (\<lambda>q. ad_global (pq_admission q)) qs) + length (filter cx_global ctxs)"

definition identity_holders :: "string \<Rightarrow> pending_request list \<Rightarrow> request_context list \<Rightarrow> nat" where
  "identity_holders i qs ctxs =
     length (filter (\<lambda>q. ad_identity (pq_admission q) = Some i) qs) + length (filter (\<lambda>ctx. cx_identity ctx = Some i) ctxs)"

definition unrecorded :: "request_context list \<Rightarrow> nat" where
  "unrecorded ctxs = length (filter (\<lambda>ctx. \<not> cx_outcome_recorded ctx) ctxs)"

definition edge_inv :: "edge_run \<Rightarrow> bool" where
  "edge_inv run =
     (case run of (qs, ctxs, lost, st) \<Rightarrow>
       list_all context_ok ctxs \<and>
       tl_in_flight (es_telemetry st) = of_nat (length qs) \<and>
       tl_requests_total (es_telemetry st) = outcomes (es_telemetry st) + length qs + unrecorded ctxs + lost \<and>
       classified (es_telemetry st) = outcomes (es_telemetry st) \<and>
       gt_active (es_gate st) = of_nat (gate_holders qs ctxs) \<and>
       tracks (guards qs ctxs) (es_identity st) \<and>
       long_lived_active (es_registry st) = of_nat (length ctxs))"

lemma edge_inv_start: "edge_start run \<Longrightarrow> edge_inv run"
  by (auto simp: edge_start_def edge_inv_def telemetry_new_def outcomes_def classified_def unrecorded_def gate_new_def
      guards_def gate_holders_def tracks_def identity_limiter_new_def identity_inv_def registry_new_def split: option.split)

lemma guards_simps [simp]:
  "guards (as @ q # bs) ctxs = guards (as @ bs) ctxs + guard_of (ad_identity (pq_admission q))"
  "guards (qs @ [q]) ctxs = guards qs ctxs + guard_of (ad_identity (pq_admission q))"
  "guards qs (cs @ ctx # ds) = guards qs (cs @ ds) + guard_of (cx_identity ctx)"
  "guards qs (ctxs @ [ctx]) = guards qs ctxs + guard_of (cx_identity ctx)"
  by (simp_all add: guards_def)

lemma gate_holders_simps [simp]:
  "gate_holders (as @ q # bs) ctxs = gate_holders (as @ bs) ctxs + of_bool (ad_global (pq_admission q))"
  "gate_holders (qs @ [q]) ctxs = gate_holders qs ctxs + of_bool (ad_global (pq_admission q))"
  "gate_holders qs (cs @ ctx # ds) = gate_holders qs (cs @ ds) + of_bool (cx_global ctx)"
  "gate_holders qs (ctxs @ [ctx]) = gate_holders qs ctxs + of_bool (cx_global ctx)"
  by (simp_all add: gate_holders_def)

lemma unrecorded_simps [simp]:
  "unrecorded [] = 0" "unrecorded (ctx # ctxs) = (if cx_outcome_recorded ctx then 0 else 1) + unrecorded ctxs"
  "unrecorded (as @ bs) = unrecorded as + unrecorded bs"
  by (simp_all add: unrecorded_def)

lemma edge_inv_begun:
  assumes "edge_inv (qs, ctxs, lost, st)" and "request_begin p io ses st = (start, st')"
  shows "case start of
      Settled r ses' \<Rightarrow> edge_inv (qs, ctxs @ (case r of ToSidecar ctx \<Rightarrow> [ctx] | _ \<Rightarrow> []), lost, st')
    | Admitted q \<Rightarrow> edge_inv (qs @ [q], ctxs, lost, st')"
proof -
  obtain st1 where books: "start_accounted start (noted (start_request (es_sequence st)) (st\<lparr>es_sequence := es_sequence st + 1\<rparr>)) st1"
    and st': "st' = (case start of Settled r ses \<Rightarrow> noted observation_drop st1 | Admitted q \<Rightarrow> st1)"
    by (rule request_begin_accounted [OF assms(2)])
  show ?thesis
  proof (cases start)
    case (Settled r ses')
    with assms(1) books st' show ?thesis by (cases r) (auto simp: edge_inv_def accounted_def)
  next
    case (Admitted q)
    with assms(1) books st' show ?thesis by (auto simp: edge_inv_def accounted_def)
  qed
qed

lemma edge_inv_released:
  assumes "edge_inv (as @ q # bs, ctxs, lost, st)" and "accounted n 0 {#} 0 st st'" and "n \<le> 1"
  shows "edge_inv (as @ bs, ctxs, lost + (1 - n), request_cancel q st')"
  using assms by (auto simp: edge_inv_def accounted_def request_cancel_def intro!: drop_identity_tracks)

lemma edge_inv_served:
  assumes "edge_inv (as @ q # bs, ctxs, lost, st)" and "request_serve p io q st = Some (r, sent, ses', st')"
  shows "edge_inv (as @ bs, ctxs, lost, st')"
proof -
  obtain ses st1 where "worker_route p io (pq_raw q) (pq_id q) (pq_content_len q) (ad_remote_addr (pq_admission q))
      (pq_session q) st = Some (r, sent, ses, st1)" and st': "st' = request_cancel q st1"
    using assms(2) by (auto simp: request_serve_def)
  from worker_route_accounted [OF this(1)] edge_inv_released [OF assms(1), of 1 st1] st' show ?thesis by simp
qed

lemma run_hook_books:
  assumes "run_hook p h (ctx, st) = (ctx', st')" and "context_ok ctx"
  shows "context_ok ctx' \<and> cx_global ctx' = cx_global ctx \<and> cx_identity ctx' = cx_identity ctx \<and>
    accounted (if cx_outcome_recorded ctx' \<and> \<not> cx_outcome_recorded ctx then 1 else 0) 0 {#} 0 st st' \<and>
    (cx_outcome_recorded ctx \<longrightarrow> cx_outcome_recorded ctx')"
proof (cases h)
  case (HkResponseBody body fin)
  have "rg_gate reg = rg_gate (es_registry st)" if "record_bytes n a (es_registry st) = (ok, a', reg)" for n a ok a' reg
    using registry_gate_kept(3) that by (metis snd_conv)
  with HkResponseBody assms show ?thesis
    by (auto simp: run_hook_def response_body_filter_def stream_bytes_def complete_long_lived_def context_ok_def
        accounted_def Let_def split: if_splits option.splits prod.splits)
qed (use assms in \<open>auto simp: run_hook_def request_body_filter_def response_filter_def note_outcome_def fail_to_proxy_def
    logging_def complete_long_lived_def context_ok_def accounted_def Let_def split: if_splits option.splits prod.splits\<close>)

lemma context_drop_books:
  assumes "context_ok ctx"
  shows "es_telemetry (context_drop ctx st) = es_telemetry st"
    and "gt_active (es_gate (context_drop ctx st)) = gt_active (es_gate st) - of_bool (cx_global ctx)"
    and "tracks (held + guard_of (cx_identity ctx)) (es_identity st) \<Longrightarrow> tracks held (es_identity (context_drop ctx st))"
    and "long_lived_active (es_registry (context_drop ctx st)) = long_lived_active (es_registry st) - 1"
  using assms
  by (auto simp: context_drop_def context_ok_def Let_def admission_drop_active intro!: drop_identity_tracks split: option.split)

lemma edge_inv_step:
  assumes "edge_inv s" and "edge_step p s t"
  shows "edge_inv t"
  using assms(2)
proof cases
  case (finished io ses st r ses' st' qs ctxs lost)
  with assms(1) edge_inv_begun [of qs ctxs lost st p io ses] show ?thesis by fastforce
next
  case (admitted io ses st q st' qs ctxs lost)
  with assms(1) edge_inv_begun [of qs ctxs lost st p io ses] show ?thesis by fastforce
next
  case (served io q st r sent ses' st' as bs ctxs lost)
  with assms(1) edge_inv_served show ?thesis by blast
next
  case (cancelled as q bs ctxs lost st)
  have "accounted 0 0 {#} 0 st st" by (simp add: accounted_def)
  from edge_inv_released [OF _ this] cancelled assms(1) show ?thesis by simp
next
  case (hooked h ctx st ctx' st' qs as bs lost)
  with assms(1) have "context_ok ctx" by (simp add: edge_inv_def)
  from run_hook_books [OF hooked(3) this] hooked assms(1) show ?thesis
    by (auto simp: edge_inv_def accounted_def)
next
  case (ended qs as ctx bs lost st)
  with assms(1) have "context_ok ctx" by (simp add: edge_inv_def)
  from context_drop_books [OF this] ended assms(1) show ?thesis
    by (auto simp: edge_inv_def ac_simps)
qed

interpretation edge_machine: invariant_machine edge_start "edge_step p" edge_inv for p
  by unfold_locales (erule edge_inv_start, erule edge_inv_step)

lemma count_guard_list: "count (sum_list (map (\<lambda>x. guard_of (f x)) xs)) i = length (filter (\<lambda>x. f x = Some i) xs)"
  by (induction xs) (auto simp: guard_of_def split: option.split)

lemma count_guards: "count (guards qs ctxs) i = identity_holders i qs ctxs"
  by (simp add: guards_def identity_holders_def count_guard_list)

lemma tracks_count:
  assumes "tracks held l" and "il_max_per_identity l = Some m"
  shows "(case map_of (il_active l) i of Some n \<Rightarrow> unat n | None \<Rightarrow> 0) = count held i"
proof -
  have inv: "identity_inv m held l" using assms by (simp add: tracks_def)
  then show ?thesis
    using unat_count [OF inv, of i] by (auto simp: identity_inv_def not_in_iff)
qed

text \<open>
  C4: The edge's books always balance. Take any order of arrivals, completed worker exchanges,
  dropped requests, hooks of sidecar requests and ends of sidecar requests. Every request counted
  has exactly one of four fates: it was answered or rejected, once and in one status class; it is
  an admitted Rack request that is still waiting; it is open at a sidecar with no outcome yet; or
  it ended without an outcome, because its future was dropped or the sidecar request ended
  unanswered (\<open>lost\<close>). The in-flight counter is the number of waiting Rack requests. The
  global gate and the per-identity limiter count exactly the waiting Rack requests and the open
  sidecar requests that were given a slot, and the long-lived registry counts the open sidecar
  requests: no slot leaks on any path and none is given back before its request ends. The slot
  a streamed Rack answer takes in the registry lives inside one exchange with the workers, which
  is one step here.
\<close>
theorem edge_accounting:
  assumes "edge_start s" and "(edge_step p)\<^sup>*\<^sup>* s (qs, ctxs, lost, st)"
  shows "tl_requests_total (es_telemetry st) = outcomes (es_telemetry st) + length qs + unrecorded ctxs + lost \<and>
    classified (es_telemetry st) = outcomes (es_telemetry st) \<and>
    tl_in_flight (es_telemetry st) = of_nat (length qs) \<and>
    gt_active (es_gate st) = of_nat (gate_holders qs ctxs) \<and>
    (il_max_per_identity (es_identity st) \<noteq> None \<longrightarrow>
       (\<forall>i. (case map_of (il_active (es_identity st)) i of Some n \<Rightarrow> unat n | None \<Rightarrow> 0) = identity_holders i qs ctxs)) \<and>
    long_lived_active (es_registry st) = of_nat (length ctxs)"
proof -
  have inv: "edge_inv (qs, ctxs, lost, st)" using assms by (rule edge_machine.reachable_inv)
  moreover have "(case map_of (il_active (es_identity st)) i of Some n \<Rightarrow> unat n | None \<Rightarrow> 0) = identity_holders i qs ctxs"
    if "il_max_per_identity (es_identity st) = Some m" for i m
    using tracks_count [OF _ that, of "guards qs ctxs" i] inv by (simp add: edge_inv_def count_guards)
  ultimately show ?thesis by (auto simp: edge_inv_def)
qed

section \<open>Checks before the workers\<close>

lemma truncate_fields [simp]:
  "cr_http2 (client_request.truncate r) = cr_http2 r" "cr_method (client_request.truncate r) = cr_method r"
  "cr_path (client_request.truncate r) = cr_path r"
  by (simp_all add: client_request.truncate_def)

definition hop_made ::
  "edge_proxy \<Rightarrow> string \<Rightarrow> lowered_header list \<Rightarrow> string \<Rightarrow> u8 list \<Rightarrow> session \<Rightarrow> u8 list \<Rightarrow> bool" where
  "hop_made p rid raw remote body ses bytes \<longleftrightarrow>
     (case ep_worker_hop p of
        HopFrame \<Rightarrow>
          (\<exists>plan. sanitize_frame_headers raw \<lparr>ps_sse = ep_sse p\<rparr> = Inr plan \<and>
             build_request_frame_bytes_into [] (se_request ses) raw plan body (ep_url_scheme p) (ep_server_name p)
               (ep_server_port p) remote = Inr bytes)
      | HopHttp \<Rightarrow>
          (\<exists>s. sanitize_lowered raw \<lparr>tm_remote_addr = remote, tm_url_scheme = ep_url_scheme p,
               tm_server_name = ep_server_name p, tm_server_port = ep_server_port p, tm_request_id = Some rid\<rparr>
               \<lparr>ps_sse = ep_sse p\<rparr> = Inr s \<and>
             build_worker_request (client_request.truncate (se_request ses)) (sr_headers s) body = Inr bytes))"

definition worker_side :: "session \<Rightarrow> edge_state \<Rightarrow> worker_frame_pool \<times> sticky_store \<times> u64 \<times> downstream" where
  "worker_side ses st = (es_pool st, es_sticky st, es_next_worker st, se_down ses)"

lemma reject_worker_side:
  "reject rid status ses st = (r, ses', st') \<Longrightarrow> worker_side ses' st' = worker_side ses st"
  by (auto simp: reject_def respond_def worker_side_def noted_def)

lemma drop_worker_side [simp]:
  "worker_side ses (drop_global h st) = worker_side ses st" "worker_side ses (drop_identity g st) = worker_side ses st"
  "worker_side ses (noted f st) = worker_side ses st"
  by (simp_all add: worker_side_def drop_global_def drop_identity_def noted_def split: option.split)

lemma admit_worker_side:
  assumes "admit p raw rid want ses st = (x, ses', st')"
  shows "worker_side ses' st' = worker_side ses st"
    and "x = Inr a \<Longrightarrow> client_identity (ep_identity p) (se_client_addr ses) raw = Inr (ad_remote_addr a) \<and> ses' = ses"
  using assms
  by (auto simp: admit_def Let_def reject_def respond_def worker_side_def noted_def drop_global_def drop_identity_def
      split: prod.splits sum.splits if_splits option.splits)

lemma prepare_hop_Inr:
  assumes "prepare_hop p raw remote rid = Inr prep" and "run_hop p io raw remote prep body ses st = Some (x, sent, ses', st')"
  shows "case sent of None \<Rightarrow> worker_side ses' st' = worker_side ses st | Some (bytes, n) \<Rightarrow> hop_made p rid raw remote body ses bytes"
  using assms
  by (cases "ep_worker_hop p")
    (auto simp: prepare_hop_def Let_def run_hop_def hop_made_def elim!: and_then_InrE
      split: sum.splits prod.splits)

text \<open>What is known of a request when bytes were sent for it, and that nothing happened otherwise.\<close>

definition checked_route ::
  "edge_proxy \<Rightarrow> string \<Rightarrow> lowered_header list \<Rightarrow> u64 option \<Rightarrow> string \<Rightarrow> session \<Rightarrow> edge_state \<Rightarrow> filter_out \<Rightarrow> bool" where
  "checked_route p rid raw content_len remote ses st out =
     (case out of (r, sent, ses', st') \<Rightarrow>
      case sent of
        None \<Rightarrow> worker_side ses' st' = worker_side ses st
      | Some (bytes, n) \<Rightarrow>
          (\<exists>body. read_complete_body (cr_http2 (se_request ses)) content_len (ep_max_body p) (se_body ses) = Inr body \<and>
             hop_made p rid raw remote body ses bytes))"

lemma rejected_checked:
  assumes "unsent (reject rid status ses st) = Some out"
  shows "checked_route p rid raw content_len remote ses st out"
  using assms reject_worker_side by (auto simp: unsent_def checked_route_def split: prod.splits)

lemma worker_route_checked:
  assumes "worker_route p io raw rid content_len remote ses st = Some out"
  shows "checked_route p rid raw content_len remote ses st out"
proof (cases "static_answer p io ses")
  case (Some answer)
  with assms show ?thesis
    by (cases answer) (auto simp: worker_route_def unsent_def checked_route_def worker_side_def noted_def)
next
  case None
  note static = None
  show ?thesis
  proof (cases "prepare_hop p raw remote rid")
    case (Inl e)
    with assms static rejected_checked show ?thesis by (simp add: worker_route_def)
  next
    case (Inr prep)
    note prep = Inr
    show ?thesis
    proof (cases "read_complete_body (cr_http2 (se_request ses)) content_len (ep_max_body p) (se_body ses)")
      case (Inl e)
      with assms static prep rejected_checked show ?thesis by (simp add: worker_route_def)
    next
      case (Inr body)
      with assms static prep obtain x sent ses1 st1 where
        run: "run_hop p io raw remote prep body ses st = Some (x, sent, ses1, st1)" and
        fin: "out = (case x of Inr status \<Rightarrow> (Handled, sent, ses1, noted (record_response rid status) st1)
           | Inl status \<Rightarrow> (case reject rid status ses1 st1 of (r, ses, st) \<Rightarrow> (r, sent, ses, st)))"
        by (auto simp: worker_route_def)
      have "fst (snd out) = sent" "worker_side (fst (snd (snd out))) (snd (snd (snd out))) = worker_side ses1 st1"
        using fin reject_worker_side [of rid _ ses1 st1] by (cases x; auto split: prod.splits)+
      with prepare_hop_Inr [OF prep run] Inr show ?thesis
        by (auto simp: checked_route_def split: option.splits prod.splits)
    qed
  qed
qed

definition vetted ::
  "edge_proxy \<Rightarrow> string \<Rightarrow> lowered_header list \<Rightarrow> session \<Rightarrow> u8 list \<Rightarrow> bool" where
  "vetted p rid raw ses bytes \<longleftrightarrow>
     (\<exists>content_len remote body.
        validate_client_request (client_request.truncate (se_request ses)) raw (ep_max_body p) (ep_public_server_name p) =
          Inr content_len \<and>
        client_identity (ep_identity p) (se_client_addr ses) raw = Inr remote \<and>
        read_complete_body (cr_http2 (se_request ses)) content_len (ep_max_body p) (se_body ses) = Inr body \<and>
        hop_made p rid raw remote body ses bytes)"

lemma vetted_posture [simp]: "vetted p rid raw (apply_keepalive_posture p ses) = vetted p rid raw ses"
proof -
  have same: "se_request (apply_keepalive_posture p ses) = se_request ses"
    "se_client_addr (apply_keepalive_posture p ses) = se_client_addr ses"
    "se_body (apply_keepalive_posture p ses) = se_body ses"
    by (simp_all add: apply_keepalive_posture_def)
  show ?thesis unfolding vetted_def hop_made_def same ..
qed

lemma rack_route_checked:
  assumes "rack_route p io raw rid ses st = Some (r, sent, ses', st')"
  shows "case sent of None \<Rightarrow> worker_side ses' st' = worker_side ses st | Some (bytes, n) \<Rightarrow> vetted p rid raw ses bytes"
proof (cases "validate_client_request (client_request.truncate (se_request ses)) raw (ep_max_body p) (ep_public_server_name p)")
  case (Inl e)
  with assms reject_worker_side show ?thesis by (auto simp: rack_route_def unsent_def split: prod.splits)
next
  case (Inr content_len)
  obtain x ses1 st1 where admit: "admit p raw rid False ses st = (x, ses1, st1)" by (metis prod_cases3)
  note side = admit_worker_side [OF admit]
  show ?thesis
  proof (cases x)
    case (Inl r1)
    with assms Inr admit side show ?thesis by (auto simp: rack_route_def unsent_def)
  next
    case a: (Inr a)
    with assms Inr admit obtain st2 where
      route: "worker_route p io raw rid content_len (ad_remote_addr a) ses1 st1 = Some (r, sent, ses', st2)" and
      st': "st' = drop_global (ad_global a) (drop_identity (ad_identity a) st2)"
      by (auto simp: rack_route_def release_admission_def)
    from worker_route_checked [OF route] side a st' Inr show ?thesis
      by (auto simp: checked_route_def vetted_def split: option.splits)
  qed
qed

text \<open>
  C1: Nothing reaches a worker before every check has passed. When the request path sent bytes to
  a worker, the edge was not draining, all header values were text, the request was accepted by
  the request validator, its client address was resolved by the identity policy, its whole body
  was read within the cap, and the bytes are the ones the hop's builder makes of the sanitized
  headers, that body and that address. On every other path, rejections, static files and sidecar
  routes included, the connection pool, the pins, the worker rotation and the response side of
  the session are untouched.
\<close>
theorem worker_contact_checked:
  assumes "request_filter p io ses st = Some (r, sent, ses', st')"
  shows "case sent of
      None \<Rightarrow> es_pool st' = es_pool st \<and> es_sticky st' = es_sticky st \<and> es_next_worker st' = es_next_worker st \<and>
        se_down ses' = se_down ses
    | Some (bytes, n) \<Rightarrow>
        \<not> io_draining io \<and>
        (\<exists>raw content_len remote body.
           collect_request_headers (io_to_str io) (se_raw_headers ses) = Inr raw \<and>
           validate_client_request (client_request.truncate (se_request ses)) raw (ep_max_body p) (ep_public_server_name p) =
             Inr content_len \<and>
           client_identity (ep_identity p) (se_client_addr ses) raw = Inr remote \<and>
           read_complete_body (cr_http2 (se_request ses)) content_len (ep_max_body p) (se_body ses) = Inr body \<and>
           hop_made p (request_id_text (ep_pid p) (es_sequence st)) raw remote body ses bytes)"
proof -
  let ?rid = "request_id_text (ep_pid p) (es_sequence st)"
  let ?ses = "apply_keepalive_posture p ses"
  let ?st = "noted (start_request (es_sequence st)) (st\<lparr>es_sequence := es_sequence st + 1\<rparr>)"
  obtain st1 where route: "route_request p io ?rid ?ses ?st = Some (r, sent, ses', st1)"
    and st': "st' = noted observation_drop st1"
    using assms by (auto simp: request_filter_def Let_def)
  have start: "worker_side ?ses ?st = worker_side ses st" and raw: "se_raw_headers ?ses = se_raw_headers ses"
    by (simp_all add: worker_side_def noted_def apply_keepalive_posture_def)
  have quiet: "sent = None \<and> worker_side ses' st1 = worker_side ses st"
    if "unsent (reject ?rid status ses1 ?st) = Some (r, sent, ses', st1)" "worker_side ses1 ?st = worker_side ses st"
    for status ses1
    using that by (auto simp: unsent_def split: prod.splits dest!: reject_worker_side)
  have side: "sent = None \<and> worker_side ses' st1 = worker_side ses st"
    if "unsent (sidecar_route p raw ?rid route checked ?ses ?st) = Some (r, sent, ses', st1)" for raw route checked
    using that start
    by (auto simp: unsent_def sidecar_route_def split: prod.splits sum.splits dest!: reject_worker_side admit_worker_side(1))
  have "case sent of
      None \<Rightarrow> worker_side ses' st1 = worker_side ses st
    | Some (bytes, n) \<Rightarrow> \<not> io_draining io \<and>
        (\<exists>raw. collect_request_headers (io_to_str io) (se_raw_headers ses) = Inr raw \<and> vetted p ?rid raw ses bytes)"
  proof (cases "collect_request_headers (io_to_str io) (se_raw_headers ses)")
    case (Inl e)
    with route have "unsent (reject ?rid e ?ses ?st) = Some (r, sent, ses', st1)" by (simp add: route_request_def raw)
    from quiet [OF this start] show ?thesis by simp
  next
    case (Inr raw)
    let ?req = "client_request.truncate (se_request ses)"
    from route Inr consider
        (draining) "unsent (reject ?rid 503 (?ses\<lparr>se_keepalive := None\<rparr>) ?st) = Some (r, sent, ses', st1)"
      | (sidecar) rt checked where "unsent (sidecar_route p raw ?rid rt checked ?ses ?st) = Some (r, sent, ses', st1)"
      | (rack) "\<not> io_draining io" "rack_route p io raw ?rid ?ses ?st = Some (r, sent, ses', st1)"
      by (auto simp: route_request_def Let_def raw split: if_splits option.splits)
    then show ?thesis
    proof cases
      case draining
      from quiet [OF draining] start show ?thesis by (simp add: worker_side_def)
    next
      case sidecar
      from side [OF sidecar] show ?thesis by simp
    next
      case rack
      with rack_route_checked [OF rack(2)] start Inr show ?thesis by (auto split: option.splits)
    qed
  qed
  then show ?thesis by (cases sent) (auto simp: st' worker_side_def noted_def vetted_def)
qed

section \<open>What a sidecar receives\<close>

definition sidecar_context :: "string \<Rightarrow> filter_result \<Rightarrow> bool" where
  "sidecar_context rid r =
     (case r of ToSidecar ctx \<Rightarrow> cx_route ctx \<noteq> RouteWorker \<and> cx_request_id ctx = Some rid | _ \<Rightarrow> True)"

lemma not_sidecar_context: "\<not> sidecar r \<Longrightarrow> sidecar_context rid r"
  by (cases r) (simp_all add: sidecar_def sidecar_context_def)

lemma rejected_context: "unsent (reject rid status ses st) = Some (r, sent, ses', st') \<Longrightarrow> sidecar_context rid r"
  using reject_accounted [of rid status ses st] not_sidecar_context by (fastforce simp: unsent_def split: prod.splits)

lemma sidecar_route_context:
  assumes "unsent (sidecar_route p raw rid route checked ses st) = Some (r, sent, ses', st')" and "route \<noteq> RouteWorker"
  shows "sidecar_context rid r"
proof (cases checked)
  case (Inl status)
  with assms(1) rejected_context show ?thesis by (simp add: sidecar_route_def)
next
  case (Inr u)
  obtain x ses1 st1 where admit: "admit p raw rid True ses st = (x, ses1, st1)" by (metis prod_cases3)
  show ?thesis
    using assms Inr admit admit_accounted [OF admit] not_sidecar_context
    by (cases x) (auto simp: unsent_def sidecar_route_def sidecar_context_def)
qed

lemma rack_route_context:
  assumes "rack_route p io raw rid ses st = Some (r, sent, ses', st')"
  shows "sidecar_context rid r"
proof (cases "validate_client_request (client_request.truncate (se_request ses)) raw (ep_max_body p) (ep_public_server_name p)")
  case (Inl e)
  with assms rejected_context show ?thesis by (simp add: rack_route_def)
next
  case (Inr content_len)
  obtain x ses1 st1 where admit: "admit p raw rid False ses st = (x, ses1, st1)" by (metis prod_cases3)
  show ?thesis
    using assms Inr admit admit_accounted [OF admit] not_sidecar_context
    by (cases x) (auto simp: rack_route_def unsent_def release_admission_def dest!: worker_route_accounted)
qed

lemma request_filter_context:
  assumes "request_filter p io ses st = Some (r, sent, ses', st')"
  shows "sidecar_context (request_id_text (ep_pid p) (es_sequence st)) r"
  using assms
  by (auto simp: request_filter_def route_request_def Let_def split: sum.splits if_splits option.splits
      intro: rejected_context sidecar_route_context rack_route_context)

text \<open>
  C36: What a sidecar receives of a client's header fields. When the request filter hands an Action
  Cable or gRPC request to its sidecar, the fields sent upstream carry, under each of Host,
  x-oxo-url-scheme, x-oxo-server-name, x-oxo-server-port and x-oxo-request-id, exactly one value,
  the edge's own, the last being the id under which the edge counts this very request; nothing
  under the eight client-address and correlation names listed here; and under every other name
  the client's values unchanged and in their order. The list is fixed: other address headers, such
  as Client-IP, and other x-oxo names are among the ones passed on, against what the threat model
  says (\<open>Edge_Sidecar\<close>, \<open>sidecar_forwards_client_ip\<close>).
\<close>
theorem sidecar_headers_exact:
  assumes "request_filter p io ses st = Some (ToSidecar ctx, sent, ses', st')"
  shows "values_of ''host'' (upstream_request_filter p ctx hs) = [public_upstream_host p] \<and>
    values_of ''x-oxo-url-scheme'' (upstream_request_filter p ctx hs) = [ep_url_scheme p] \<and>
    values_of ''x-oxo-server-name'' (upstream_request_filter p ctx hs) = [ep_server_name p] \<and>
    values_of ''x-oxo-server-port'' (upstream_request_filter p ctx hs) = [to_string (unat (ep_server_port p))] \<and>
    values_of ''x-oxo-request-id'' (upstream_request_filter p ctx hs) = [request_id_text (ep_pid p) (es_sequence st)] \<and>
    (\<forall>name. name \<notin> {''host'', ''x-oxo-url-scheme'', ''x-oxo-server-name'', ''x-oxo-server-port'', ''x-oxo-request-id''} \<longrightarrow>
       values_of name (upstream_request_filter p ctx hs) =
         (if name \<in> {''forwarded'', ''x-forwarded-for'', ''x-forwarded-host'', ''x-forwarded-port'', ''x-forwarded-proto'',
               ''x-real-ip'', ''x-request-id'', ''x-oxo-remote-addr''}
          then [] else values_of name hs))"
proof -
  have "cx_route ctx \<noteq> RouteWorker" "cx_request_id ctx = Some (request_id_text (ep_pid p) (es_sequence st))"
    using request_filter_context [OF assms] by (simp_all add: sidecar_context_def)
  then show ?thesis by (simp add: values_of_upstream sidecar_stripped_def)
qed

section \<open>A concrete request\<close>

definition sample_edge :: edge_proxy where
  "sample_edge = \<lparr>ep_sockets = [''w0''], ep_max_body = 1024, ep_server_name = ''localhost'', ep_server_port = 8080,
     ep_url_scheme = ''http'', ep_public_server_name = None, ep_identity = DirectPublic, ep_max_requests = Some 4,
     ep_sse = False, ep_cable_bind = None, ep_grpc_bind = None, ep_static = False, ep_prod_pin = None,
     ep_keepalive_enabled = True, ep_keepalive_secs = 60, ep_worker_hop = HopHttp, ep_hop = hop_for Async, ep_mode = Rr,
     ep_pid = 7\<rparr>"

definition sample_edge_state :: edge_state where
  "sample_edge_state = \<lparr>es_gate = gate_new, es_identity = identity_limiter_new (Some 2),
     es_registry = registry_new \<lparr>ll_max_connections = 1, ll_max_buffered_bytes = 100\<rparr>, es_telemetry = telemetry_new LogOff,
     es_pool = from_ceiling 8 CeilingDefault 20, es_sticky = sticky_new, es_next_worker = 0, es_sequence = 5\<rparr>"

definition sample_session :: session where
  "sample_session = \<lparr>se_request = \<lparr>cr_method = ''GET'', cr_http2 = False, cr_scheme = None, cr_authority = None, cr_path = ''/'',
       cr_path_and_query = Some ''/'', cr_query = None\<rparr>,
     se_raw_headers = [(''Host'', [0x6C, 0x6F, 0x63, 0x61, 0x6C, 0x68, 0x6F, 0x73, 0x74])], se_client_addr = None,
     se_established_nanos = None, se_body = [BodyEnd], se_down = \<lparr>dn_written = [], dn_fails = (\<lambda>_. None)\<rparr>,
     se_keepalive = None, se_errors = [], se_respond_ok = True\<rparr>"

definition sample_io :: hop_env where
  "sample_io = \<lparr>io_to_str = (\<lambda>_. Some ''localhost''), io_hash = (\<lambda>_ n. n), io_draining = False,
     io_static = None,
     io_attempts = (\<lambda>_. \<lparr>ha_drain = False, ha_connect = True, ha_write = True, ha_shutdown = True, ha_reads = []\<rparr>),
     io_gauges = (\<lambda>_. 0), io_parked = 0, io_looks = [], io_passes = []\<rparr>"

definition sample_raw :: "lowered_header list" where
  "sample_raw = [lowered_new ''Host'' ''localhost'']"

lemma sample_header:
  "lowered_lower (lowered_new ''Host'' ''localhost'') = ''host''" "lh_name (lowered_new ''Host'' ''localhost'') = ''Host''"
  "lh_value (lowered_new ''Host'' ''localhost'') = ''localhost''"
  by code_simp+

lemma sample_names:
  "is_valid_header_name (as_bytes ''Host'')" "starts_with ''/'' ''/''" "\<not> eq_ignore_ascii_case ''GET'' ''CONNECT''"
  by code_simp+

lemma sample_collected:
  "collect_request_headers (io_to_str sample_io) (se_raw_headers sample_session) = Inr sample_raw"
  by (simp add: sample_io_def sample_session_def sample_raw_def)

lemma sample_validated:
  "validate_client_request (client_request.truncate (se_request sample_session)) sample_raw 1024 None = Inr None"
  by (simp add: sample_session_def sample_raw_def client_request.truncate_def validate_client_request_def
      check_request_target_def sample_names MAX_REQUEST_HEADERS_def accumulate_header_bytes_def sample_header
      MAX_REQUEST_HEADER_BYTES_def note_host_def refused_request_header_def check_hosts_def check_body_cap_def
      content_length_def Let_def usize_saturating_add_def lower_sent_names)

lemma sample_routed:
  "client_identity DirectPublic (se_client_addr sample_session) sample_raw = Inr ''127.0.0.1''"
  "read_complete_body False None 1024 (se_body sample_session) = Inr []"
  by (simp_all add: sample_session_def client_identity_def direct_public_remote_addr_def read_complete_body_def)

lemma sample_numbers: "to_string 8080 = ''8080''" "to_string 7 = ''7''" "to_string 5 = ''5''"
  by (simp_all add: to_string.simps digit_char_def char_of_eq_iff)

definition sample_fields :: "header list" where
  "sample_fields = [(''Host'', ''localhost''), (''x-oxo-remote-addr'', ''127.0.0.1''), (''x-oxo-url-scheme'', ''http''),
     (''x-oxo-server-name'', ''localhost''), (''x-oxo-server-port'', ''8080''), (''x-oxo-request-id'', ''oxo-7-5''),
     (''connection'', ''close'')]"

lemma sample_prepared: "prepare_hop sample_edge sample_raw ''127.0.0.1'' ''oxo-7-5'' = Inr (PrepHttp sample_fields)"
proof -
  have "sanitize_bare sample_raw \<lparr>ps_sse = False\<rparr> =
      Inr \<lparr>sr_headers = [(''Host'', ''localhost'')], sr_stripped_headers = []\<rparr>"
    by code_simp
  then show ?thesis
    by (simp add: prepare_hop_def sanitize_lowered_def sample_edge_def metadata_headers_def sample_fields_def sample_numbers)
qed

lemma sample_built:
  "\<exists>bytes. build_worker_request (client_request.truncate (se_request sample_session)) sample_fields [] = Inr bytes"
proof -
  let ?req = "client_request.truncate (se_request sample_session)"
  have "to_ascii_lowercase ''x-oxo-request-id'' = ''x-oxo-request-id''" "to_string 0 = ''0''"
    by (code_simp, simp add: to_string.simps digit_char_def char_of_eq_iff)
  then have "list_all line_ok (sent_headers ?req sample_fields [])"
    by (simp add: line_ok_def sent_headers_def sample_fields_def eq_ignore_ascii_case_def lower_sent_names
        hop_lower is_valid_header_name_def has_invalid_header_value_bytes_def eval_bytes)
  then show ?thesis
    using build_worker_request_Inr [of ?req "''/''"] by (simp add: sample_session_def client_request.truncate_def)
qed

lemma sample_edge_fields:
  "ep_sockets sample_edge = [''w0'']" "ep_max_body sample_edge = 1024" "ep_public_server_name sample_edge = None"
  "ep_identity sample_edge = DirectPublic" "ep_max_requests sample_edge = Some 4" "ep_cable_bind sample_edge = None"
  "ep_grpc_bind sample_edge = None" "ep_static sample_edge = False" "ep_pid sample_edge = 7" "cr_http2 (se_request sample_session) = False"
  by (simp_all add: sample_edge_def sample_session_def)

lemma sample_sent:
  "\<exists>r bytes ses' st'. request_filter sample_edge sample_io sample_session sample_edge_state =
     Some (r, Some (bytes, 1), ses', st') \<and> \<not> sidecar r"
proof -
  let ?ses = "apply_keepalive_posture sample_edge sample_session"
  let ?st = "noted (start_request 5) (sample_edge_state\<lparr>es_sequence := 6\<rparr>)"
  have ses: "se_request ?ses = se_request sample_session" "se_raw_headers ?ses = se_raw_headers sample_session"
    "se_client_addr ?ses = se_client_addr sample_session" "se_body ?ses = se_body sample_session"
    by (simp_all add: apply_keepalive_posture_def)
  obtain bytes where built: "build_worker_request (client_request.truncate (se_request sample_session)) sample_fields [] = Inr bytes"
    using sample_built by blast
  obtain a st1 where admitted: "admit sample_edge sample_raw ''oxo-7-5'' False ?ses ?st = (Inr a, ?ses, st1)"
    "ad_remote_addr a = ''127.0.0.1''"
    by (simp add: admit_def sample_edge_fields ses sample_routed noted_def sample_edge_state_def gate_new_def global_acquire_def
      identity_acquire_def identity_limiter_new_def Let_def)
  have ran: "\<exists>x st2 d. http_hop (io_attempts sample_io) k [''w0''] st1 dn = (x, 1, st2, d)" for k dn
    by (auto simp: http_hop_def send_worker_request_to_pool_def http_steps_def sample_io_def Let_def
        send_worker_request_def map_err_def split: prod.splits sum.splits)
  obtain x st2 d where "run_hop sample_edge sample_io sample_raw ''127.0.0.1'' (PrepHttp sample_fields) [] ?ses st1 =
      Some (x, Some (bytes, 1), ?ses\<lparr>se_down := d\<rparr>, st2)"
    using ran [of "ep_keepalive_enabled sample_edge" "se_down ?ses"] by (auto simp: run_hop_def built ses sample_edge_fields)
  then obtain r ses2 st3 where "worker_route sample_edge sample_io sample_raw ''oxo-7-5'' None ''127.0.0.1'' ?ses st1 =
      Some (r, Some (bytes, 1), ses2, st3)"
    by (cases x) (auto simp: worker_route_def static_answer_def ses sample_edge_fields sample_prepared sample_routed
        reject_def respond_def Let_def split: prod.splits)
  with admitted have "\<exists>r ses' st'. rack_route sample_edge sample_io sample_raw ''oxo-7-5'' ?ses ?st =
      Some (r, Some (bytes, 1), ses', st') \<and> \<not> sidecar r"
    using worker_route_accounted by (fastforce simp: rack_route_def ses sample_edge_fields sample_validated release_admission_def)
  moreover have "request_id_text 7 5 = ''oxo-7-5''" by (simp add: request_id_text_def sample_numbers)
  moreover have "es_sequence sample_edge_state = 5" "io_draining sample_io = False"
    by (simp_all add: sample_edge_state_def sample_io_def)
  ultimately show ?thesis
    by (auto simp: request_filter_def route_request_def sample_collected ses sample_edge_fields Let_def)
qed

theorem edge_accounting_witness:
  "\<exists>q st' r sent ses'' st''. request_begin sample_edge sample_io sample_session sample_edge_state = (Admitted q, st') \<and>
     tl_in_flight (es_telemetry st') = 1 \<and> gt_active (es_gate st') = of_bool (ad_global (pq_admission q)) \<and>
     request_serve sample_edge sample_io q st' = Some (r, sent, ses'', st'') \<and>
     tl_requests_total (es_telemetry st'') = outcomes (es_telemetry st'') \<and> gt_active (es_gate st'') = 0"
proof -
  obtain r bytes ses' st' where
    run: "request_filter sample_edge sample_io sample_session sample_edge_state = Some (r, Some (bytes, 1), ses', st')"
    using sample_sent by blast
  then obtain q st1 where begun: "request_begin sample_edge sample_io sample_session sample_edge_state = (Admitted q, st1)"
    and served: "request_serve sample_edge sample_io q st1 = Some (r, Some (bytes, 1), ses', st')"
    by (auto simp: request_filter_phases split: prod.splits request_start.splits)
  have start: "edge_start ([], [], 0, sample_edge_state)" by (auto simp: edge_start_def sample_edge_state_def)
  have one: "(edge_step sample_edge)\<^sup>*\<^sup>* ([], [], 0, sample_edge_state) ([q], [], 0, st1)"
    using edge_step.admitted [OF begun, of "[]"] by auto
  moreover have "edge_step sample_edge ([q], [], 0, st1) ([], [], 0, st')"
    using edge_step.served [OF served, of "[]" "[]"] by simp
  ultimately have two: "(edge_step sample_edge)\<^sup>*\<^sup>* ([], [], 0, sample_edge_state) ([], [], 0, st')" by simp
  show ?thesis
    using edge_accounting [OF start one] edge_accounting [OF start two] begun served
    by (auto simp: unrecorded_def gate_holders_def)
qed

theorem worker_contact_checked_witness:
  "\<exists>r bytes ses' st' remote.
     request_filter sample_edge sample_io sample_session sample_edge_state = Some (r, Some (bytes, 1), ses', st') \<and>
     client_identity DirectPublic (se_client_addr sample_session) sample_raw = Inr remote \<and>
     hop_made sample_edge (request_id_text 7 5) sample_raw remote [] sample_session bytes"
proof -
  obtain r bytes ses' st' where
    run: "request_filter sample_edge sample_io sample_session sample_edge_state = Some (r, Some (bytes, 1), ses', st')"
    using sample_sent by blast
  moreover have "es_sequence sample_edge_state = 5" by (simp add: sample_edge_state_def)
  ultimately show ?thesis
    using worker_contact_checked [OF run]
    by (auto simp: sample_collected sample_validated sample_routed sample_edge_fields)
qed

definition cable_edge :: edge_proxy where
  "cable_edge = sample_edge\<lparr>ep_cable_bind := Some (SockV4 0x7F000001 28080), ep_server_name := ''h'', ep_server_port := 80\<rparr>"

definition cable_session :: session where
  "cable_session = sample_session\<lparr>se_request := client_request.extend cable_request \<lparr>cr_query = None\<rparr>,
     se_raw_headers := map (\<lambda>(n, v). (n, as_bytes v)) cable_headers\<rparr>"

definition cable_io :: hop_env where
  "cable_io = sample_io\<lparr>io_to_str := \<lambda>bs. Some (map byte_char bs)\<rparr>"

lemma cable_collected:
  "collect_request_headers (io_to_str cable_io) (se_raw_headers cable_session) = Inr (map (\<lambda>(n, v). lowered_new n v) cable_headers)"
  by (simp add: cable_io_def cable_session_def cable_headers_def)

lemma cable_attempt: "is_action_cable_upgrade_attempt cable_request (map (\<lambda>(n, v). lowered_new n v) cable_headers)"
  by code_simp

lemma cable_filtered:
  "\<exists>ctx ses' st'. request_filter cable_edge cable_io cable_session sample_edge_state = Some (ToSidecar ctx, None, ses', st')"
proof -
  let ?ses = "apply_keepalive_posture cable_edge cable_session"
  have ses: "client_request.truncate (se_request ?ses) = cable_request" "se_raw_headers ?ses = se_raw_headers cable_session"
    "se_client_addr ?ses = None"
    by (simp_all add: apply_keepalive_posture_def cable_session_def sample_session_def client_request.defs cable_request_def)
  have edge: "ep_cable_bind cable_edge = Some (SockV4 0x7F000001 28080)" "ep_public_server_name cable_edge = None"
    "ep_url_scheme cable_edge = ''http''" "ep_server_name cable_edge = ''h''" "ep_server_port cable_edge = 80"
    "ep_max_requests cable_edge = Some 4" "ep_identity cable_edge = DirectPublic" "io_draining cable_io = False"
    by (simp_all add: cable_edge_def sample_edge_def cable_io_def sample_io_def)
  obtain a st1 where "admit cable_edge (map (\<lambda>(n, v). lowered_new n v) cable_headers) (request_id_text (ep_pid cable_edge) 5) True
      ?ses (noted (start_request 5) (sample_edge_state\<lparr>es_sequence := 6\<rparr>)) = (Inr a, ?ses, st1)"
    by (simp add: admit_def edge ses client_identity_def noted_def sample_edge_state_def gate_new_def global_acquire_def
        identity_acquire_def identity_limiter_new_def try_admit_def registry_new_def record_max_active_def Let_def)
  moreover have "es_sequence sample_edge_state = 5" by (simp add: sample_edge_state_def)
  ultimately show ?thesis
    by (simp add: request_filter_def route_request_def Let_def ses edge cable_collected cable_attempt cable_accepted
        sidecar_route_def unsent_def)
qed

theorem sidecar_headers_exact_witness:
  "\<exists>ctx ses' st'. request_filter cable_edge cable_io cable_session sample_edge_state = Some (ToSidecar ctx, None, ses', st') \<and>
     values_of ''host'' (upstream_request_filter cable_edge ctx cable_headers) = [public_upstream_host cable_edge] \<and>
     values_of ''x-oxo-request-id'' (upstream_request_filter cable_edge ctx cable_headers) = [''oxo-7-5'']"
proof -
  obtain ctx ses' st' where
    run: "request_filter cable_edge cable_io cable_session sample_edge_state = Some (ToSidecar ctx, None, ses', st')"
    using cable_filtered by blast
  have "request_id_text (ep_pid cable_edge) (es_sequence sample_edge_state) = ''oxo-7-5''"
    by (simp add: request_id_text_def sample_numbers cable_edge_def sample_edge_def sample_edge_state_def)
  with run sidecar_headers_exact [OF run, of cable_headers] show ?thesis by auto
qed

end
