(* ===== verification/Edge_Boot.thy ===== *)
theory Edge_Boot
  imports Edge_Settings Edge_Filter
begin

text \<open>
  The boot of the edge: \<open>run_with_cli\<close> of \<open>crates/oxo-pingora-edge/src/platform/config.rs\<close>, and \<open>run_edge\<close> and
  \<open>EdgeProxy::new\<close> of \<open>proxy.rs\<close> up to the point where the server starts. The source's one long function
  is split into the four groups of settings it resolves in order; each group is a record.
  \<open>server_env\<close> adds the libraries only the boot calls: certificate issuance and its state
  file, the admin listener and the TLS settings of the proxy library.
\<close>

section \<open>Exposure: listener, public mode, identity, limits\<close>

record server_env = boot_env +
  sv_acme_issue :: "edge_cli_config \<Rightarrow> edge_error + unit"
  sv_acme_renew :: "edge_cli_config \<Rightarrow> edge_error + unit"
  sv_certificate_json :: "path \<Rightarrow> edge_error + string option"
  sv_admin_listen :: "socket_addr \<Rightarrow> edge_error + unit"
  sv_tls_settings :: "path \<Rightarrow> path \<Rightarrow> string + unit"
  sv_accepts :: "header \<Rightarrow> bool"
  sv_pid :: u32

record exposure =
  xp_bind :: socket_addr
  xp_sockets :: "path list"
  xp_max_body :: u64
  xp_listener :: listener_mode
  xp_server_name :: string
  xp_origin_port :: "u16 option"
  xp_mode :: "public_mode option"
  xp_identity :: identity_policy
  xp_fairness :: identity_limiter
  xp_max_requests :: "u64 option"

abbreviation boot_of :: "server_env \<Rightarrow> boot_env" where
  "boot_of sv \<equiv> boot_env.truncate sv"

definition resolve_exposure :: "boot_env \<Rightarrow> edge_cli_config \<Rightarrow> edge_error + exposure" where
  "resolve_exposure be cli =
     and_then (read_bind (be_env be) cli) (\<lambda>(bind, kind).
     and_then (read_worker_sockets (be_env be) cli) (\<lambda>sockets.
     and_then (read_max_body (be_env be) cli) (\<lambda>(max_body, max_body_explicit).
     and_then (read_listener_mode be cli kind) (\<lambda>listener.
     and_then (validate_future_acme_state_path (be_env be) cli) (\<lambda>_.
     and_then (read_server_name (be_env be) cli) (\<lambda>(server_name, server_name_explicit).
     and_then (read_public_origin_port (be_env be) cli) (\<lambda>origin_port.
     and_then (read_public_mode_gate (be_env be) bind listener cli max_body_explicit server_name_explicit) (\<lambda>mode.
     and_then (read_public_identity_policy (be_env be) mode cli) (\<lambda>identity.
     and_then (read_identity_fairness (be_env be) mode cli) (\<lambda>fairness.
     and_then (read_global_in_flight (be_env be) mode cli) (\<lambda>max_requests.
     Inr \<lparr>xp_bind = bind, xp_sockets = sockets, xp_max_body = max_body, xp_listener = listener,
          xp_server_name = server_name, xp_origin_port = origin_port, xp_mode = mode, xp_identity = identity,
          xp_fairness = fairness, xp_max_requests = max_requests\<rparr>)))))))))))"

section \<open>Tuning: presets, clients, threads, the worker hop\<close>

record tuning =
  tn_rails :: "serve_rails_plan option"
  tn_preset :: "path option"
  tn_slow_client :: slow_client_policy
  tn_long_lived :: registry
  tn_drain :: edge_drain_config
  tn_threads :: edge_threads_config
  tn_tasks :: listener_tasks_config
  tn_request_log :: request_log_mode
  tn_hop :: worker_hop
  tn_dispatch :: dispatch_mode
  tn_cap :: "usize option"
  tn_kind :: edge_worker_kind

definition resolve_tuning :: "boot_env \<Rightarrow> edge_cli_config \<Rightarrow> exposure \<Rightarrow> edge_error + tuning" where
  "resolve_tuning be cli xp =
     (let root = resolve_serve_rails (ec_serve_rails cli) (be_env be); workers = length (xp_sockets xp) in
      and_then (read_static_rails_preset (be_env be) cli) (\<lambda>preset.
      and_then (case root of
          Some r \<Rightarrow> and_then (plan_serve_rails be r preset) (\<lambda>plan. Inr (Some plan)) | None \<Rightarrow> Inr None) (\<lambda>rails.
      and_then (read_slow_client_policy (be_env be) cli (rails \<noteq> None)) (\<lambda>slow.
      and_then (read_long_lived_registry (be_env be) cli) (\<lambda>long_lived.
      and_then (read_edge_drain_config (be_env be) cli) (\<lambda>drain.
      and_then (read_edge_threads be cli) (\<lambda>threads.
      and_then (read_listener_tasks (be_env be) cli) (\<lambda>tasks.
      and_then (read_request_log (be_env be) cli) (\<lambda>(log, _).
      and_then (read_worker_hop (be_env be) cli (xp_max_body xp)) (\<lambda>(hop, _).
      and_then (read_worker_dispatch (be_env be) cli workers) (\<lambda>(dispatch, _).
      and_then (read_worker_cap (be_env be) cli workers (xp_max_requests xp)) (\<lambda>cap.
      and_then (read_worker_kind (be_env be)) (\<lambda>kind.
      Inr \<lparr>tn_rails = rails, tn_preset = preset, tn_slow_client = slow, tn_long_lived = long_lived, tn_drain = drain,
           tn_threads = threads, tn_tasks = tasks, tn_request_log = log, tn_hop = hop, tn_dispatch = dispatch,
           tn_cap = cap, tn_kind = kind\<rparr>)))))))))))))"

section \<open>Venue: names, sidecars, static files, the checked configuration\<close>

record venue =
  vn_admin :: "socket_addr option"
  vn_cable :: "socket_addr option"
  vn_grpc :: "socket_addr option"
  vn_prod :: bool
  vn_h2 :: h2_policy
  vn_mounts :: "mount_spec list"
  vn_edge :: edge_config

definition resolve_venue :: "boot_env \<Rightarrow> edge_cli_config \<Rightarrow> exposure \<Rightarrow> tuning \<Rightarrow> edge_error + venue" where
  "resolve_venue be cli xp tn =
     and_then (validate_public_tls_identity be (xp_mode xp) (xp_listener xp) (xp_server_name xp)) (\<lambda>_.
     and_then (read_admin_bind (be_env be) (xp_mode xp) cli) (\<lambda>admin.
     and_then (read_action_cable_bind (be_env be) cli) (\<lambda>cable.
     and_then (read_grpc_bind (be_env be) cli) (\<lambda>grpc.
     and_then (read_sse_enabled (be_env be) cli (tn_rails tn \<noteq> None)) (\<lambda>sse.
     and_then (read_prod_enabled (be_env be) cli) (\<lambda>(prod, _).
     and_then (read_h2_policy (be_env be) cli) (\<lambda>h2.
     and_then (read_static_mounts be cli (tn_preset tn) (tn_rails tn)) (\<lambda>mounts.
     and_then (new_edge_config (be_fs be) (xp_bind xp) (xp_sockets xp) (xp_max_body xp) (xp_mode xp \<noteq> None)) (\<lambda>edge.
     Inr \<lparr>vn_admin = admin, vn_cable = cable, vn_grpc = grpc, vn_prod = prod, vn_h2 = h2, vn_mounts = mounts,
          vn_edge = with_sse_enabled sse edge\<rparr>)))))))))"

section \<open>The pool and the descriptor budget\<close>

record pool_plan =
  pp_idle :: "usize \<times> idle_ceiling_source"
  pp_unwrap_ms :: u64

text \<open>\<open>env::var(..).ok()\<close>: a value that is not text counts as absent.\<close>

definition env_ok :: "os_env \<Rightarrow> string \<Rightarrow> string option" where
  "env_ok env name = (case env_var env name of Inr v \<Rightarrow> Some v | Inl _ \<Rightarrow> None)"

definition resolve_pool :: "boot_env \<Rightarrow> exposure \<Rightarrow> venue \<Rightarrow> edge_error + pool_plan" where
  "resolve_pool be xp vn =
     (let workers = length (xp_sockets xp);
          idle = resolve_idle_ceiling (env_ok (be_env be) ''OXO_EDGE_FRAME_POOL_IDLE'') workers
      in
      and_then (map_err (\<lambda>message. ConfigEnv ''OXO_EDGE_POOL'' (OtherMessage message))
        (parse_pool_impl (be_quote be) (env_ok (be_env be) ''OXO_EDGE_POOL''))) (\<lambda>_.
      and_then (map_err (\<lambda>message. ConfigEnv ''OXO_EDGE_UNWRAP_WAIT_MS'' (OtherMessage message))
        (parse_unwrap_wait_ms (be_quote be) (env_ok (be_env be) ''OXO_EDGE_UNWRAP_WAIT_MS''))) (\<lambda>unwrap.
      case fd_refusal (make_fd_budget (be_nofile be) (1 + of_bool (vn_admin vn \<noteq> None)) (of_nat workers)
             (of_nat (fst idle)) (xp_max_requests xp)) of
        Some message \<Rightarrow> Inl (ConfigEnv ''RLIMIT_NOFILE'' (OtherMessage message))
      | None \<Rightarrow> Inr \<lparr>pp_idle = idle, pp_unwrap_ms = unwrap\<rparr>)))"

section \<open>The settings of one edge\<close>

record edge_settings =
  sg_exposure :: exposure
  sg_tuning :: tuning
  sg_venue :: venue
  sg_pool :: pool_plan

definition resolve_settings :: "boot_env \<Rightarrow> edge_cli_config \<Rightarrow> edge_error + edge_settings" where
  "resolve_settings be cli =
     and_then (resolve_exposure be cli) (\<lambda>xp.
     and_then (resolve_tuning be cli xp) (\<lambda>tn.
     and_then (resolve_venue be cli xp tn) (\<lambda>vn.
     and_then (resolve_pool be xp vn) (\<lambda>pp.
     Inr \<lparr>sg_exposure = xp, sg_tuning = tn, sg_venue = vn, sg_pool = pp\<rparr>))))"

section \<open>The server\<close>

definition edge_proxy_new :: "server_env \<Rightarrow> edge_settings \<Rightarrow> string list option \<Rightarrow> edge_proxy" where
  "edge_proxy_new sv s prod_pin =
     (let xp = sg_exposure s; tn = sg_tuning s; vn = sg_venue s; edge = vn_edge vn; slow = tn_slow_client tn in
      \<lparr>ep_sockets = map path_display (ready_sockets (eg_worker_set edge)), ep_max_body = eg_max_body_bytes edge,
       ep_server_name = xp_server_name xp,
       ep_server_port = (case xp_origin_port xp of Some port \<Rightarrow> port | None \<Rightarrow> sock_port (eg_bind edge)),
       ep_url_scheme = listener_url_scheme (xp_listener xp),
       ep_public_server_name = map_option (\<lambda>_. xp_server_name xp) (xp_mode xp),
       ep_identity = xp_identity xp, ep_max_requests = xp_max_requests xp, ep_sse = eg_sse_enabled edge,
       ep_cable_bind = vn_cable vn, ep_grpc_bind = vn_grpc vn, ep_static = (vn_mounts vn \<noteq> []), ep_prod_pin = prod_pin,
       ep_keepalive_enabled = sp_keepalive_enabled slow, ep_keepalive_secs = keepalive_idle_secs slow,
       ep_worker_hop = tn_hop tn,
       ep_hop = \<lparr>hc_accepts = sv_accepts sv, hc_kind = tn_kind tn, hc_cap = tn_cap tn,
         hc_keepalive = sp_keepalive_enabled slow\<rparr>,
       ep_mode = tn_dispatch tn, ep_pid = sv_pid sv\<rparr>)"

definition edge_state_new :: "edge_settings \<Rightarrow> edge_state" where
  "edge_state_new s =
     (let (idle, source) = pp_idle (sg_pool s) in
      \<lparr>es_gate = gate_new, es_identity = xp_fairness (sg_exposure s), es_registry = tn_long_lived (sg_tuning s),
       es_telemetry = telemetry_new (tn_request_log (sg_tuning s)),
       es_pool = from_ceiling idle source (unat (pp_unwrap_ms (sg_pool s))), es_sticky = sticky_new,
       es_next_worker = 0, es_sequence = 1\<rparr>)"

definition build_static :: "boot_env \<Rightarrow> bool \<Rightarrow> mount_spec list \<Rightarrow> edge_error + string list option" where
  "build_static be pinned mounts =
     and_then (if pinned \<and> mounts \<noteq> [] then
         and_then (build_prod_pin_set (be_read_dir be) mounts) (\<lambda>pin. Inr (Some pin))
       else Inr None) (\<lambda>pin.
     and_then (if mounts = [] then Inr ()
       else map_err (\<lambda>message. ConfigEnv ''OXO_EDGE_STATIC_MOUNTS'' (OtherMessage message)) (be_static_server be mounts)) (\<lambda>_.
     Inr pin))"

record server_conf =
  sc_grace_period_seconds :: u64
  sc_graceful_shutdown_timeout_seconds :: u64
  sc_threads :: usize
  sc_listener_tasks :: usize
  sc_keepalive_request_limit :: "u32 option"
  sc_h2 :: h2_policy
  sc_listener :: listener_mode
  sc_bind :: socket_addr

definition make_server_conf :: "edge_settings \<Rightarrow> server_conf" where
  "make_server_conf s =
     \<lparr>sc_grace_period_seconds = dc_grace_period_seconds (tn_drain (sg_tuning s)),
      sc_graceful_shutdown_timeout_seconds = dc_graceful_shutdown_timeout_seconds (tn_drain (sg_tuning s)),
      sc_threads = et_threads (tn_threads (sg_tuning s)), sc_listener_tasks = lt_tasks (tn_tasks (sg_tuning s)),
      sc_keepalive_request_limit = sp_keepalive_request_limit (tn_slow_client (sg_tuning s)),
      sc_h2 = vn_h2 (sg_venue s), sc_listener = xp_listener (sg_exposure s), sc_bind = eg_bind (vn_edge (sg_venue s))\<rparr>"

text \<open>What the server that \<open>run_forever\<close> starts is made of, or the error before it.\<close>

definition run_edge :: "server_env \<Rightarrow> edge_settings \<Rightarrow> edge_error + (edge_proxy \<times> edge_state \<times> server_conf)" where
  "run_edge sv s =
     and_then (build_static (boot_of sv) (vn_prod (sg_venue s)) (vn_mounts (sg_venue s))) (\<lambda>pin.
     and_then (case vn_admin (sg_venue s) of Some a \<Rightarrow> sv_admin_listen sv a | None \<Rightarrow> Inr ()) (\<lambda>_.
     and_then (case xp_listener (sg_exposure s) of
         Plain \<Rightarrow> Inr ()
       | Tls cert key _ \<Rightarrow> map_err Pingora (sv_tls_settings sv (path_display cert) (path_display key))) (\<lambda>_.
     Inr (edge_proxy_new sv s pin, edge_state_new s, make_server_conf s))))"

datatype boot_result = Finished | Serving edge_proxy edge_state server_conf

definition read_certificate_admin_json :: "server_env \<Rightarrow> edge_cli_config \<Rightarrow> edge_error + string option" where
  "read_certificate_admin_json sv cli =
     (case acme_state_path (be_env sv) cli of Some p \<Rightarrow> sv_certificate_json sv p | None \<Rightarrow> Inr None)"

definition run_with_cli :: "server_env \<Rightarrow> edge_cli_config \<Rightarrow> edge_error + boot_result" where
  "run_with_cli sv cli =
     and_then (reject_socket_activation_env (be_env sv)) (\<lambda>_.
     if ec_acme_issue_once cli \<and> ec_acme_renew_once cli then
       config_env ''argv'' ''--acme-issue-once and --acme-renew-once are mutually exclusive''
     else if ec_acme_issue_once cli then and_then (sv_acme_issue sv cli) (\<lambda>_. Inr Finished)
     else if ec_acme_renew_once cli then and_then (sv_acme_renew sv cli) (\<lambda>_. Inr Finished)
     else
       and_then (resolve_settings (boot_of sv) cli) (\<lambda>s.
       if ec_check_config cli then
         and_then (build_static (boot_of sv) (vn_prod (sg_venue s)) (vn_mounts (sg_venue s))) (\<lambda>_. Inr Finished)
       else
         and_then (read_certificate_admin_json sv cli) (\<lambda>_.
         and_then (run_edge sv s) (\<lambda>(p, st, conf). Inr (Serving p st conf)))))"

definition run_from_args :: "server_env \<Rightarrow> os_string list \<Rightarrow> edge_error + boot_result" where
  "run_from_args sv args = and_then (parse_from_args args) (run_with_cli sv)"

definition run_from_env :: "server_env \<Rightarrow> edge_error + boot_result" where
  "run_from_env sv = run_with_cli sv default_cli"

section \<open>What the readers guarantee\<close>

lemma config_env_Inr [simp]: "config_env name message \<noteq> Inr x" "not_unicode name err \<noteq> Inr x"
  by (simp_all add: config_env_def not_unicode_def)

lemma loopback_mode_gate_Inr: "loopback_mode_gate env cli = Inr mode \<Longrightarrow> mode = None"
  by (auto simp: loopback_mode_gate_def elim!: and_then_InrE split: if_splits)

lemma read_public_mode_gate_Inr:
  assumes "read_public_mode_gate env bind listener cli body_explicit name_explicit = Inr mode"
  shows "is_loopback (sock_ip bind) \<Longrightarrow> mode = None"
    and "mode \<noteq> None \<Longrightarrow> is_tls listener \<and> body_explicit \<and> name_explicit"
  using assms loopback_mode_gate_Inr
  by (auto simp: read_public_mode_gate_def elim!: and_then_InrE split: if_splits option.splits)

lemma read_listener_mode_Inr:
  assumes "read_listener_mode be cli kind = Inr (Tls cert key h2)"
  shows "validate_tls_file (be_fs be) ''certificate'' cert False = Inr ()"
    and "validate_tls_file (be_fs be) ''private key'' key True = Inr ()"
  using assms by (auto simp: read_listener_mode_def Let_def elim!: and_then_InrE split: if_splits)

lemma read_public_identity_policy_Inr:
  "read_public_identity_policy env None cli = Inr policy \<Longrightarrow> policy = DirectPublic"
  by (simp add: read_public_identity_policy_def)

lemma read_identity_fairness_Inr:
  assumes "read_identity_fairness env mode cli = Inr l"
  obtains m where "l = identity_limiter_new m" "m \<noteq> Some 0" "mode \<noteq> None \<Longrightarrow> m \<noteq> None"
  using assms
  by (auto simp: read_identity_fairness_def DEFAULT_PUBLIC_MAX_IN_FLIGHT_PER_IDENTITY_def elim!: and_then_InrE
      split: if_splits option.splits)

lemma read_global_in_flight_Inr:
  "read_global_in_flight env mode cli = Inr g \<Longrightarrow> g \<noteq> Some 0 \<and> (mode = Some SmokeBeta \<longrightarrow> g \<noteq> None)"
  by (auto simp: read_global_in_flight_def elim!: and_then_InrE split: if_splits option.splits)

lemma loopback_bind_Inr: "loopback_bind name message bind = Inr (Some a) \<Longrightarrow> is_loopback (sock_ip a)"
  by (auto simp: loopback_bind_def split: option.splits if_splits)

lemma loopback_bind_Some [simp]:
  "loopback_bind name message (Some a) = Inr bind \<longleftrightarrow> bind = Some a \<and> is_loopback (sock_ip a)"
  by (auto simp: loopback_bind_def)

lemma read_sidecar_binds_Inr:
  "read_action_cable_bind env cli = Inr (Some a) \<Longrightarrow> is_loopback (sock_ip a)"
  "read_grpc_bind env cli = Inr (Some a) \<Longrightarrow> is_loopback (sock_ip a)"
  by (auto simp: read_action_cable_bind_def read_grpc_bind_def elim!: and_then_InrE dest: loopback_bind_Inr)

lemma read_admin_bind_Inr:
  assumes "read_admin_bind env mode cli = Inr bind"
  shows "bind = Some a \<Longrightarrow> is_loopback (sock_ip a)" and "mode = Some SmokeBeta \<Longrightarrow> bind \<noteq> None"
  using assms
  by (auto simp: read_admin_bind_def requires_admin_health_def Let_def
      split: option.splits sum.splits var_error.splits if_splits)

lemma validate_public_tls_identity_Inr:
  assumes "validate_public_tls_identity be (Some mode) (Tls cert key h2) name = Inr ()"
  shows "is_single_ascii_fqdn name"
    and "\<exists>names. be_certificate be cert = CertDnsNames names \<and> list_ex (\<lambda>n. eq_ignore_ascii_case n name) names"
  using assms
  by (auto simp: validate_public_tls_identity_def validate_tls_certificate_name_def
      split: if_splits certificate_names.splits)

lemma new_edge_config_Inr:
  assumes "new_edge_config fs bind sockets max_body alpha = Inr c"
  shows "is_loopback (sock_ip bind) \<or> alpha" and "max_body \<noteq> 0" and "sockets \<noteq> []"
    and "list_all (socket_path_safe fs) sockets" and "eg_bind c = bind" and "eg_max_body_bytes c = max_body"
    and "ready_sockets (eg_worker_set c) = sockets"
  using assms validate_all_iff [of fs sockets]
  by (auto simp: new_edge_config_def elim!: and_then_InrE split: if_splits)

lemma read_worker_hop_Inr: "read_worker_hop env cli max_body = Inr (HopFrame, source) \<Longrightarrow> max_body \<le> 0xFFFFFFFF"
  by (auto simp: read_worker_hop_def Let_def elim!: and_then_InrE split: if_splits)

lemma read_worker_dispatch_Inr:
  "read_worker_dispatch env cli workers = Inr (mode, source) \<Longrightarrow> mode = Rr \<or> workers \<le> MAX_WORKERS"
  by (auto simp: read_worker_dispatch_def Let_def elim!: and_then_InrE split: if_splits)

lemma saturating_mul_less:
  assumes "saturating_mul k n < (g :: u64)"
  shows "unat k * unat n < unat g"
proof -
  have "min (unat k * unat n) (2 ^ 64 - 1) < unat g"
    using assms unat_saturating_mul [of k n] by (simp add: word_less_nat_alt)
  moreover have "unat g \<le> 2 ^ 64 - 1" using unsigned_less [of g, where ?'a = nat] by simp
  ultimately show ?thesis by linarith
qed

lemma read_worker_cap_Inr:
  assumes "read_worker_cap env cli workers global = Inr (Some k)"
  shows "0 < k" and "workers \<le> MAX_WORKERS" and "global = Some g \<Longrightarrow> k * workers < unat g"
proof -
  obtain w where w: "k = unat w" "w \<noteq> 0" "workers \<le> MAX_WORKERS"
    "\<forall>g. global = Some g \<longrightarrow> saturating_mul w (of_nat workers) < g"
    using assms by (auto simp: read_worker_cap_def elim!: and_then_InrE split: option.splits if_splits)
  then show "0 < k" "workers \<le> MAX_WORKERS" by (simp_all add: unat_gt_0)
  have "unat (of_nat workers :: u64) = workers"
    using w(3) by (simp add: MAX_WORKERS_def unat_of_nat take_bit_nat_eq_self)
  then show "k * workers < unat g" if "global = Some g"
    using w that saturating_mul_less [of w "of_nat workers" g] by simp
qed

lemma read_threads_Inr:
  "read_edge_threads be cli = Inr c \<Longrightarrow> 1 \<le> et_threads c \<and> (et_threads c \<le> 1024 \<or> et_threads c = et_nproc c)"
  "read_listener_tasks env cli = Inr t \<Longrightarrow> 1 \<le> lt_tasks t \<and> lt_tasks t \<le> 64"
  by (auto simp: read_edge_threads_def read_listener_tasks_def MAX_EDGE_THREADS_def MAX_LISTENER_TASKS_def Let_def
      word_less_nat_alt unat_gt_0 Suc_le_eq elim!: and_then_InrE split: option.splits if_splits)

section \<open>What a served configuration guarantees\<close>

lemma exposure_public:
  assumes "resolve_exposure be cli = Inr xp"
  shows "is_loopback (sock_ip (xp_bind xp)) \<Longrightarrow> xp_mode xp = None"
    and "xp_mode xp \<noteq> None \<Longrightarrow> \<exists>cert key h2. xp_listener xp = Tls cert key h2 \<and>
      validate_tls_file (be_fs be) ''certificate'' cert False = Inr () \<and>
      validate_tls_file (be_fs be) ''private key'' key True = Inr ()"
    and "xp_mode xp = None \<Longrightarrow> xp_identity xp = DirectPublic"
    and "\<exists>m. xp_fairness xp = identity_limiter_new m \<and> m \<noteq> Some 0 \<and> (xp_mode xp \<noteq> None \<longrightarrow> m \<noteq> None)"
    and "xp_max_requests xp \<noteq> Some 0 \<and> (xp_mode xp = Some SmokeBeta \<longrightarrow> xp_max_requests xp \<noteq> None)"
    and "xp_mode xp \<noteq> None \<Longrightarrow> read_max_body (be_env be) cli = Inr (xp_max_body xp, True) \<and>
      read_server_name (be_env be) cli = Inr (xp_server_name xp, True)"
proof -
  obtain bind kind body_explicit name_explicit where
    body: "read_max_body (be_env be) cli = Inr (xp_max_body xp, body_explicit)" and
    name: "read_server_name (be_env be) cli = Inr (xp_server_name xp, name_explicit)" and
    listener: "read_listener_mode be cli kind = Inr (xp_listener xp)" and
    gate: "read_public_mode_gate (be_env be) (xp_bind xp) (xp_listener xp) cli body_explicit name_explicit = Inr (xp_mode xp)" and
    identity: "read_public_identity_policy (be_env be) (xp_mode xp) cli = Inr (xp_identity xp)" and
    fair: "read_identity_fairness (be_env be) (xp_mode xp) cli = Inr (xp_fairness xp)" and
    glob: "read_global_in_flight (be_env be) (xp_mode xp) cli = Inr (xp_max_requests xp)"
    using assms unfolding resolve_exposure_def by (auto elim!: and_then_InrE split: prod.splits)
  note gate' = read_public_mode_gate_Inr [OF gate]
  show "is_loopback (sock_ip (xp_bind xp)) \<Longrightarrow> xp_mode xp = None" by (rule gate'(1))
  show "xp_mode xp \<noteq> None \<Longrightarrow> read_max_body (be_env be) cli = Inr (xp_max_body xp, True) \<and>
      read_server_name (be_env be) cli = Inr (xp_server_name xp, True)"
    using gate'(2) body name by simp
  show "xp_mode xp = None \<Longrightarrow> xp_identity xp = DirectPublic"
    using identity read_public_identity_policy_Inr by simp
  show "\<exists>m. xp_fairness xp = identity_limiter_new m \<and> m \<noteq> Some 0 \<and> (xp_mode xp \<noteq> None \<longrightarrow> m \<noteq> None)"
    using fair by (rule read_identity_fairness_Inr) auto
  show "xp_max_requests xp \<noteq> Some 0 \<and> (xp_mode xp = Some SmokeBeta \<longrightarrow> xp_max_requests xp \<noteq> None)"
    by (rule read_global_in_flight_Inr [OF glob])
  show "\<exists>cert key h2. xp_listener xp = Tls cert key h2 \<and>
      validate_tls_file (be_fs be) ''certificate'' cert False = Inr () \<and>
      validate_tls_file (be_fs be) ''private key'' key True = Inr ()" if "xp_mode xp \<noteq> None"
    using gate'(2) [OF that] listener read_listener_mode_Inr by (cases "xp_listener xp") auto
qed

lemma tuning_limits:
  assumes "resolve_tuning be cli xp = Inr tn"
  shows "tn_hop tn = HopFrame \<Longrightarrow> xp_max_body xp \<le> 0xFFFFFFFF"
    and "tn_dispatch tn = Rr \<or> length (xp_sockets xp) \<le> MAX_WORKERS"
    and "tn_cap tn = Some k \<Longrightarrow> 0 < k \<and> length (xp_sockets xp) \<le> MAX_WORKERS \<and>
      (\<forall>g. xp_max_requests xp = Some g \<longrightarrow> k * length (xp_sockets xp) < unat g)"
    and "1 \<le> et_threads (tn_threads tn) \<and> (et_threads (tn_threads tn) \<le> 1024 \<or> et_threads (tn_threads tn) = et_nproc (tn_threads tn))"
    and "1 \<le> lt_tasks (tn_tasks tn) \<and> lt_tasks (tn_tasks tn) \<le> 64"
    and "\<exists>limits. tn_long_lived tn = registry_new limits"
proof -
  obtain hop_source dispatch_source where
    hop: "read_worker_hop (be_env be) cli (xp_max_body xp) = Inr (tn_hop tn, hop_source)" and
    dispatch: "read_worker_dispatch (be_env be) cli (length (xp_sockets xp)) = Inr (tn_dispatch tn, dispatch_source)" and
    cap: "read_worker_cap (be_env be) cli (length (xp_sockets xp)) (xp_max_requests xp) = Inr (tn_cap tn)" and
    threads: "read_edge_threads be cli = Inr (tn_threads tn)" and
    tasks: "read_listener_tasks (be_env be) cli = Inr (tn_tasks tn)" and
    registry: "read_long_lived_registry (be_env be) cli = Inr (tn_long_lived tn)"
    using assms unfolding resolve_tuning_def Let_def by (elim and_then_InrE) (auto elim!: and_then_InrE split: prod.splits)
  show "tn_hop tn = HopFrame \<Longrightarrow> xp_max_body xp \<le> 0xFFFFFFFF" using hop read_worker_hop_Inr by simp
  show "tn_dispatch tn = Rr \<or> length (xp_sockets xp) \<le> MAX_WORKERS" using dispatch by (rule read_worker_dispatch_Inr)
  show "0 < k \<and> length (xp_sockets xp) \<le> MAX_WORKERS \<and>
      (\<forall>g. xp_max_requests xp = Some g \<longrightarrow> k * length (xp_sockets xp) < unat g)" if "tn_cap tn = Some k"
    using read_worker_cap_Inr [OF cap [unfolded that]] by blast
  show "1 \<le> et_threads (tn_threads tn) \<and> (et_threads (tn_threads tn) \<le> 1024 \<or> et_threads (tn_threads tn) = et_nproc (tn_threads tn))"
    using threads by (rule read_threads_Inr(1))
  show "1 \<le> lt_tasks (tn_tasks tn) \<and> lt_tasks (tn_tasks tn) \<le> 64" using tasks by (rule read_threads_Inr(2))
  show "\<exists>limits. tn_long_lived tn = registry_new limits"
    using registry by (auto simp: read_long_lived_registry_def elim!: and_then_InrE dest!: sym [of "registry_new _"])
qed

lemma venue_private:
  assumes "resolve_venue be cli xp tn = Inr vn"
  shows "vn_cable vn = Some a \<Longrightarrow> is_loopback (sock_ip a)" and "vn_grpc vn = Some a \<Longrightarrow> is_loopback (sock_ip a)"
    and "vn_admin vn = Some a \<Longrightarrow> is_loopback (sock_ip a)" and "xp_mode xp = Some SmokeBeta \<Longrightarrow> vn_admin vn \<noteq> None"
    and "validate_public_tls_identity be (xp_mode xp) (xp_listener xp) (xp_server_name xp) = Inr ()"
    and "\<exists>edge sse. vn_edge vn = with_sse_enabled sse edge \<and>
      new_edge_config (be_fs be) (xp_bind xp) (xp_sockets xp) (xp_max_body xp) (xp_mode xp \<noteq> None) = Inr edge"
proof -
  have parts: "validate_public_tls_identity be (xp_mode xp) (xp_listener xp) (xp_server_name xp) = Inr ()"
    "read_admin_bind (be_env be) (xp_mode xp) cli = Inr (vn_admin vn)"
    "read_action_cable_bind (be_env be) cli = Inr (vn_cable vn)" "read_grpc_bind (be_env be) cli = Inr (vn_grpc vn)"
    "\<exists>edge sse. vn_edge vn = with_sse_enabled sse edge \<and>
      new_edge_config (be_fs be) (xp_bind xp) (xp_sockets xp) (xp_max_body xp) (xp_mode xp \<noteq> None) = Inr edge"
    using assms unfolding resolve_venue_def by (auto elim!: and_then_InrE split: prod.splits)
  show "vn_cable vn = Some a \<Longrightarrow> is_loopback (sock_ip a)" "vn_grpc vn = Some a \<Longrightarrow> is_loopback (sock_ip a)"
    using parts(3,4) read_sidecar_binds_Inr by simp_all
  show "vn_admin vn = Some a \<Longrightarrow> is_loopback (sock_ip a)" "xp_mode xp = Some SmokeBeta \<Longrightarrow> vn_admin vn \<noteq> None"
    using read_admin_bind_Inr [OF parts(2)] by blast+
  show "validate_public_tls_identity be (xp_mode xp) (xp_listener xp) (xp_server_name xp) = Inr ()"
    "\<exists>edge sse. vn_edge vn = with_sse_enabled sse edge \<and>
      new_edge_config (be_fs be) (xp_bind xp) (xp_sockets xp) (xp_max_body xp) (xp_mode xp \<noteq> None) = Inr edge"
    by (rule parts)+
qed

lemma boot_of_fields [simp]:
  "be_env (boot_of sv) = be_env sv" "be_fs (boot_of sv) = be_fs sv" "be_certificate (boot_of sv) = be_certificate sv"
  "be_nofile (boot_of sv) = be_nofile sv"
  by (simp_all add: boot_env.truncate_def)

lemma served_settings:
  assumes "run_with_cli sv cli = Inr (Serving p st conf)"
  obtains s pin where "resolve_settings (boot_of sv) cli = Inr s" "p = edge_proxy_new sv s pin" "st = edge_state_new s"
    "conf = make_server_conf s"
  using assms
  by (auto simp: run_with_cli_def run_edge_def elim!: and_then_InrE split: if_splits prod.splits)

lemma resolve_settings_Inr:
  assumes "resolve_settings be cli = Inr s"
  shows "resolve_exposure be cli = Inr (sg_exposure s)"
    and "resolve_tuning be cli (sg_exposure s) = Inr (sg_tuning s)"
    and "resolve_venue be cli (sg_exposure s) (sg_tuning s) = Inr (sg_venue s)"
    and "resolve_pool be (sg_exposure s) (sg_venue s) = Inr (sg_pool s)"
  using assms by (auto simp: resolve_settings_def elim!: and_then_InrE)

lemma venue_edge:
  assumes "resolve_venue be cli xp tn = Inr vn"
  shows "eg_bind (vn_edge vn) = xp_bind xp" and "eg_max_body_bytes (vn_edge vn) = xp_max_body xp" and "xp_max_body xp \<noteq> 0"
    and "ready_sockets (eg_worker_set (vn_edge vn)) = xp_sockets xp" and "xp_sockets xp \<noteq> []"
    and "list_all (socket_path_safe (be_fs be)) (xp_sockets xp)"
    and "\<not> is_loopback (sock_ip (xp_bind xp)) \<Longrightarrow> xp_mode xp \<noteq> None"
proof -
  obtain edge sse where vn: "vn_edge vn = with_sse_enabled sse edge" and
    edge: "new_edge_config (be_fs be) (xp_bind xp) (xp_sockets xp) (xp_max_body xp) (xp_mode xp \<noteq> None) = Inr edge"
    using venue_private(6) [OF assms] by blast
  note facts = new_edge_config_Inr [OF edge]
  show "eg_bind (vn_edge vn) = xp_bind xp" "eg_max_body_bytes (vn_edge vn) = xp_max_body xp" "xp_max_body xp \<noteq> 0"
    "ready_sockets (eg_worker_set (vn_edge vn)) = xp_sockets xp" "xp_sockets xp \<noteq> []"
    "list_all (socket_path_safe (be_fs be)) (xp_sockets xp)"
    using facts by (simp_all add: vn with_sse_enabled_def)
  show "\<not> is_loopback (sock_ip (xp_bind xp)) \<Longrightarrow> xp_mode xp \<noteq> None" using facts(1) by blast
qed

text \<open>
  C2: An edge never serves beyond loopback by accident. When the boot ends in a serving edge on a
  loopback address, there is no public name and forwarding headers are ignored. On any
  other address it serves TLS with a certificate and a private key file that passed their checks,
  the body cap and the server name were given explicitly, the name is a DNS name the certificate
  lists and the one Host is checked against, and every client identity is limited. In both cases
  the sidecars are reached on loopback only, the body cap is not zero, and every worker socket
  is a private socket path.
\<close>
theorem boot_public_safe:
  assumes "run_with_cli sv cli = Inr (Serving p st conf)"
  shows "(if is_loopback (sock_ip (sc_bind conf)) then ep_public_server_name p = None \<and> ep_identity p = DirectPublic
     else \<exists>cert key h2 names m.
       sc_listener conf = Tls cert key h2 \<and> ep_url_scheme p = ''https'' \<and>
       validate_tls_file (be_fs sv) ''certificate'' cert False = Inr () \<and>
       validate_tls_file (be_fs sv) ''private key'' key True = Inr () \<and>
       read_max_body (be_env sv) cli = Inr (ep_max_body p, True) \<and>
       read_server_name (be_env sv) cli = Inr (ep_server_name p, True) \<and>
       is_single_ascii_fqdn (ep_server_name p) \<and> be_certificate sv cert = CertDnsNames names \<and>
       list_ex (\<lambda>n. eq_ignore_ascii_case n (ep_server_name p)) names \<and>
       ep_public_server_name p = Some (ep_server_name p) \<and>
       il_max_per_identity (es_identity st) = Some m \<and> m \<noteq> 0) \<and>
    pred_option (\<lambda>a. is_loopback (sock_ip a)) (ep_cable_bind p) \<and>
    pred_option (\<lambda>a. is_loopback (sock_ip a)) (ep_grpc_bind p) \<and> ep_max_body p \<noteq> 0 \<and>
    (\<exists>sockets. sockets \<noteq> [] \<and> list_all (socket_path_safe (be_fs sv)) sockets \<and> ep_sockets p = map path_display sockets)"
proof -
  obtain s pin where s: "resolve_settings (boot_of sv) cli = Inr s" and p: "p = edge_proxy_new sv s pin"
    and st: "st = edge_state_new s" and conf: "conf = make_server_conf s"
    using assms by (rule served_settings)
  note xp = exposure_public [OF resolve_settings_Inr(1) [OF s]]
  note vn = venue_private [OF resolve_settings_Inr(3) [OF s]] and edge = venue_edge [OF resolve_settings_Inr(3) [OF s]]
  have proxy: "ep_public_server_name p = map_option (\<lambda>_. xp_server_name (sg_exposure s)) (xp_mode (sg_exposure s))"
    "ep_identity p = xp_identity (sg_exposure s)" "ep_server_name p = xp_server_name (sg_exposure s)"
    "ep_url_scheme p = listener_url_scheme (xp_listener (sg_exposure s))" "ep_max_body p = xp_max_body (sg_exposure s)"
    "ep_cable_bind p = vn_cable (sg_venue s)" "ep_grpc_bind p = vn_grpc (sg_venue s)"
    "ep_sockets p = map path_display (xp_sockets (sg_exposure s))"
    "es_identity st = xp_fairness (sg_exposure s)" "sc_bind conf = xp_bind (sg_exposure s)"
    "sc_listener conf = xp_listener (sg_exposure s)"
    by (simp_all add: p st conf edge_proxy_new_def edge_state_new_def make_server_conf_def Let_def edge split_def)
  have public: "\<exists>cert key h2 names m.
       sc_listener conf = Tls cert key h2 \<and> ep_url_scheme p = ''https'' \<and>
       validate_tls_file (be_fs sv) ''certificate'' cert False = Inr () \<and>
       validate_tls_file (be_fs sv) ''private key'' key True = Inr () \<and>
       read_max_body (be_env sv) cli = Inr (ep_max_body p, True) \<and>
       read_server_name (be_env sv) cli = Inr (ep_server_name p, True) \<and>
       is_single_ascii_fqdn (ep_server_name p) \<and> be_certificate sv cert = CertDnsNames names \<and>
       list_ex (\<lambda>n. eq_ignore_ascii_case n (ep_server_name p)) names \<and>
       ep_public_server_name p = Some (ep_server_name p) \<and>
       il_max_per_identity (es_identity st) = Some m \<and> m \<noteq> 0" if mode: "xp_mode (sg_exposure s) = Some mode" for mode
  proof -
    obtain cert key h2 where tls: "xp_listener (sg_exposure s) = Tls cert key h2"
      "validate_tls_file (be_fs sv) ''certificate'' cert False = Inr ()"
      "validate_tls_file (be_fs sv) ''private key'' key True = Inr ()" using xp(2) mode by auto
    obtain m where "xp_fairness (sg_exposure s) = identity_limiter_new (Some m)" "m \<noteq> 0" using xp(4) mode by fastforce
    with tls validate_public_tls_identity_Inr [OF vn(5) [unfolded mode tls]] xp(6) mode show ?thesis
      by (auto simp: proxy identity_limiter_new_def)
  qed
  show ?thesis
    using xp(1,3) vn(1,2) edge public
    by (auto simp: proxy pred_option_def split: option.splits)
qed

text \<open>
  C38: The limits of a serving edge fit together. Bodies fit the 32-bit length fields of the frame
  hop; a dispatch that reads the per-worker counters has at most as many workers as there are
  counters; a per-worker cap is at least one and, over all workers, strictly below the global cap
  in exact arithmetic, so that waiting requests cannot occupy every slot; a global cap and a
  connection's idle timeout are never zero; and the server gets at least one thread and from one to
  64 accept tasks.
\<close>
theorem boot_limits_consistent:
  assumes "run_with_cli sv cli = Inr (Serving p st conf)"
  shows "(ep_worker_hop p = HopFrame \<longrightarrow> unat (ep_max_body p) < 2 ^ 32) \<and>
    (ep_mode p = Rr \<or> length (ep_sockets p) \<le> MAX_WORKERS) \<and>
    (\<forall>k. hc_cap (ep_hop p) = Some k \<longrightarrow> 0 < k \<and> length (ep_sockets p) \<le> MAX_WORKERS \<and>
       (\<forall>g. ep_max_requests p = Some g \<longrightarrow> k * length (ep_sockets p) < unat g)) \<and>
    ep_max_requests p \<noteq> Some 0 \<and> ep_keepalive_secs p \<noteq> 0 \<and> 1 \<le> sc_threads conf \<and>
    1 \<le> sc_listener_tasks conf \<and> sc_listener_tasks conf \<le> 64"
proof -
  obtain s pin where s: "resolve_settings (boot_of sv) cli = Inr s" and p: "p = edge_proxy_new sv s pin"
    and conf: "conf = make_server_conf s"
    using assms by (rule served_settings)
  note xp = exposure_public [OF resolve_settings_Inr(1) [OF s]] and tn = tuning_limits [OF resolve_settings_Inr(2) [OF s]]
  note edge = venue_edge [OF resolve_settings_Inr(3) [OF s]]
  have proxy: "ep_worker_hop p = tn_hop (sg_tuning s)" "ep_max_body p = xp_max_body (sg_exposure s)"
    "ep_mode p = tn_dispatch (sg_tuning s)" "length (ep_sockets p) = length (xp_sockets (sg_exposure s))"
    "hc_cap (ep_hop p) = tn_cap (sg_tuning s)" "ep_max_requests p = xp_max_requests (sg_exposure s)"
    "ep_keepalive_secs p = keepalive_idle_secs (tn_slow_client (sg_tuning s))"
    "sc_threads conf = et_threads (tn_threads (sg_tuning s))" "sc_listener_tasks conf = lt_tasks (tn_tasks (sg_tuning s))"
    by (simp_all add: p conf edge_proxy_new_def make_server_conf_def Let_def edge)
  have "keepalive_idle_secs sp \<noteq> 0" for sp by (auto simp: keepalive_idle_secs_def max_def)
  moreover have "unat (xp_max_body (sg_exposure s)) < 2 ^ 32" if "tn_hop (sg_tuning s) = HopFrame"
    using tn(1) [OF that] by (simp add: word_le_nat_alt)
  ultimately show ?thesis using xp(5) tn by (auto simp: proxy)
qed

section \<open>The dry run\<close>

lemma check_flag_ignored [simp]:
  "read_bind env (cli\<lparr>ec_check_config := b\<rparr>) = read_bind env cli"
  "read_worker_sockets env (cli\<lparr>ec_check_config := b\<rparr>) = read_worker_sockets env cli"
  "read_max_body env (cli\<lparr>ec_check_config := b\<rparr>) = read_max_body env cli"
  "read_listener_mode be (cli\<lparr>ec_check_config := b\<rparr>) kind = read_listener_mode be cli kind"
  "validate_future_acme_state_path env (cli\<lparr>ec_check_config := b\<rparr>) = validate_future_acme_state_path env cli"
  "read_server_name env (cli\<lparr>ec_check_config := b\<rparr>) = read_server_name env cli"
  "read_public_origin_port env (cli\<lparr>ec_check_config := b\<rparr>) = read_public_origin_port env cli"
  "read_public_mode_gate env bind listener (cli\<lparr>ec_check_config := b\<rparr>) x y =
    read_public_mode_gate env bind listener cli x y"
  "read_public_identity_policy env mode (cli\<lparr>ec_check_config := b\<rparr>) = read_public_identity_policy env mode cli"
  "read_identity_fairness env mode (cli\<lparr>ec_check_config := b\<rparr>) = read_identity_fairness env mode cli"
  "read_global_in_flight env mode (cli\<lparr>ec_check_config := b\<rparr>) = read_global_in_flight env mode cli"
  by (simp_all add: read_bind_def read_worker_sockets_def read_max_body_def read_listener_mode_def acme_state_path_def
      validate_future_acme_state_path_def read_server_name_def read_public_origin_port_def read_public_mode_gate_def
      loopback_mode_gate_def read_public_identity_policy_def read_trusted_proxy_cidrs_def read_identity_fairness_def
      read_global_in_flight_def Let_def cong: if_cong option.case_cong sum.case_cong)

lemma check_flag_ignored_tuning [simp]:
  "read_static_rails_preset env (cli\<lparr>ec_check_config := b\<rparr>) = read_static_rails_preset env cli"
  "read_slow_client_policy env (cli\<lparr>ec_check_config := b\<rparr>) a = read_slow_client_policy env cli a"
  "read_long_lived_registry env (cli\<lparr>ec_check_config := b\<rparr>) = read_long_lived_registry env cli"
  "read_edge_drain_config env (cli\<lparr>ec_check_config := b\<rparr>) = read_edge_drain_config env cli"
  "read_edge_threads be (cli\<lparr>ec_check_config := b\<rparr>) = read_edge_threads be cli"
  "read_listener_tasks env (cli\<lparr>ec_check_config := b\<rparr>) = read_listener_tasks env cli"
  "read_request_log env (cli\<lparr>ec_check_config := b\<rparr>) = read_request_log env cli"
  "read_worker_hop env (cli\<lparr>ec_check_config := b\<rparr>) n = read_worker_hop env cli n"
  "read_worker_dispatch env (cli\<lparr>ec_check_config := b\<rparr>) k = read_worker_dispatch env cli k"
  "read_worker_cap env (cli\<lparr>ec_check_config := b\<rparr>) k g = read_worker_cap env cli k g"
  by (simp_all add: read_static_rails_preset_def read_slow_client_policy_def read_long_lived_registry_def
      read_edge_drain_config_def read_edge_threads_def read_listener_tasks_def read_request_log_def read_worker_hop_def
      read_worker_dispatch_def read_worker_cap_def Let_def cong: if_cong option.case_cong sum.case_cong)

lemma check_flag_ignored_venue [simp]:
  "read_admin_bind env mode (cli\<lparr>ec_check_config := b\<rparr>) = read_admin_bind env mode cli"
  "read_action_cable_bind env (cli\<lparr>ec_check_config := b\<rparr>) = read_action_cable_bind env cli"
  "read_grpc_bind env (cli\<lparr>ec_check_config := b\<rparr>) = read_grpc_bind env cli"
  "read_sse_enabled env (cli\<lparr>ec_check_config := b\<rparr>) a = read_sse_enabled env cli a"
  "read_prod_enabled env (cli\<lparr>ec_check_config := b\<rparr>) = read_prod_enabled env cli"
  "read_h2_policy env (cli\<lparr>ec_check_config := b\<rparr>) = read_h2_policy env cli"
  "read_static_mounts be (cli\<lparr>ec_check_config := b\<rparr>) preset rails = read_static_mounts be cli preset rails"
  by (simp_all add: read_admin_bind_def read_action_cable_bind_def read_grpc_bind_def read_sse_enabled_def
      read_prod_enabled_def read_h2_policy_def read_static_mounts_def explicit_specs_def Let_def
      cong: if_cong option.case_cong sum.case_cong)

lemma resolve_settings_check [simp]:
  "resolve_settings be (cli\<lparr>ec_check_config := b\<rparr>) = resolve_settings be cli"
  by (simp add: resolve_settings_def resolve_exposure_def resolve_tuning_def resolve_venue_def)

text \<open>
  C37: The dry run tells the truth about the configuration. For the same command line and
  environment, outside the certificate commands: what \<open>--check-config\<close> refuses, the boot
  refuses with the same error, unless it fails on the certificate state first; and when
  \<open>--check-config\<close> passes, the boot can only fail for one of three reasons the dry run does not
  try: reading the certificate state for the admin page, opening the admin listener, or loading
  the key pair into the TLS library.
\<close>
theorem check_config_predicts_boot:
  assumes "\<not> ec_acme_issue_once cli" and "\<not> ec_acme_renew_once cli"
  shows "case run_with_cli sv (cli\<lparr>ec_check_config := True\<rparr>) of
      Inl e \<Rightarrow> run_with_cli sv (cli\<lparr>ec_check_config := False\<rparr>) = Inl e \<or>
        (\<exists>e'. read_certificate_admin_json sv cli = Inl e' \<and> run_with_cli sv (cli\<lparr>ec_check_config := False\<rparr>) = Inl e')
    | Inr r \<Rightarrow> r = Finished \<and>
        (case run_with_cli sv (cli\<lparr>ec_check_config := False\<rparr>) of
           Inr r' \<Rightarrow> \<exists>p st conf. r' = Serving p st conf
         | Inl e \<Rightarrow> read_certificate_admin_json sv cli = Inl e \<or> (\<exists>a. sv_admin_listen sv a = Inl e) \<or>
             (\<exists>cert key m. sv_tls_settings sv cert key = Inl m \<and> e = Pingora m))"
proof (cases "reject_socket_activation_env (be_env sv)")
  case (Inl e)
  then show ?thesis by (simp add: run_with_cli_def)
next
  case activation: (Inr u)
  have json: "read_certificate_admin_json sv (cli\<lparr>ec_check_config := b\<rparr>) = read_certificate_admin_json sv cli" for b
    by (simp add: read_certificate_admin_json_def acme_state_path_def)
  show ?thesis
  proof (cases "resolve_settings (boot_of sv) cli")
    case (Inl e)
    with activation assms show ?thesis by (simp add: run_with_cli_def)
  next
    case settings: (Inr s)
    let ?static = "build_static (boot_of sv) (vn_prod (sg_venue s)) (vn_mounts (sg_venue s))"
    have check: "run_with_cli sv (cli\<lparr>ec_check_config := True\<rparr>) = and_then ?static (\<lambda>_. Inr Finished)"
      and boot: "run_with_cli sv (cli\<lparr>ec_check_config := False\<rparr>) =
        and_then (read_certificate_admin_json sv cli) (\<lambda>_. and_then (run_edge sv s) (\<lambda>(p, st, conf). Inr (Serving p st conf)))"
      using activation assms settings json by (simp_all add: run_with_cli_def)
    have served: "run_edge sv s = Inl e \<Longrightarrow> ?static = Inr pin \<Longrightarrow>
        (\<exists>a. sv_admin_listen sv a = Inl e) \<or> (\<exists>cert key m. sv_tls_settings sv cert key = Inl m \<and> e = Pingora m)" for e pin
      by (auto simp: run_edge_def and_then_eq_Inl map_err_def split: option.splits listener_mode.splits sum.splits)
    show ?thesis
    proof (cases ?static)
      case (Inl e)
      then have "run_edge sv s = Inl e" by (simp add: run_edge_def)
      with Inl show ?thesis unfolding check boot by (cases "read_certificate_admin_json sv cli") auto
    next
      case (Inr pin)
      with served show ?thesis
        unfolding check boot by (cases "read_certificate_admin_json sv cli"; cases "run_edge sv s") auto
    qed
  qed
qed

section \<open>Addresses as public names\<close>

lemma octet_label: "n \<le> 255 \<Longrightarrow> fqdn_label (to_string n)"
proof -
  assume n: "n \<le> 255"
  have digit: "is_ascii_digit (byte c) \<and> c \<noteq> CHR ''-''" if "c \<in> set (to_string n)" for c
    using that to_string_digits [of n] by (auto simp: list_all_iff is_ascii_digit_def byte_def)
  moreover have "hd (to_string n) \<in> set (to_string n)" "last (to_string n) \<in> set (to_string n)" by simp_all
  ultimately have "hd (to_string n) \<noteq> CHR ''-''" "last (to_string n) \<noteq> CHR ''-''" by blast+
  with n digit to_string_length3 [of n] show "fqdn_label (to_string n)"
    by (auto simp: fqdn_label_def list_all_iff is_ascii_alphanumeric_def)
qed

lemma to_string_dotless: "CHR ''.'' \<notin> set (to_string n)"
  using to_string_digits [of n] not_digit_dot by (auto simp: list_all_iff)

lemma split_on_to_string: "split_on (CHR ''.'') (to_string n) = [to_string n]"
proof -
  have "CHR ''.'' \<notin> set s \<Longrightarrow> split_on (CHR ''.'') s = [s]" for s by (induction s) auto
  with to_string_dotless show ?thesis by blast
qed

lemma show_ipv4_labels:
  "split_on (CHR ''.'') (show_ipv4 a) =
    [to_string (unat (drop_bit 24 a)), to_string (unat (take_bit 8 (drop_bit 16 a))),
     to_string (unat (take_bit 8 (drop_bit 8 a))), to_string (unat (take_bit 8 a))]"
  by (simp add: show_ipv4_def split_on_snoc split_on_to_string)

text \<open>
  The test for a public name accepts addresses. The name check of public mode, which
  is to refuse wildcards, ports and IP literals, takes every dotted IPv4 address for a DNS name,
  because its labels are made of digits.
\<close>
theorem fqdn_check_accepts_ipv4:
  "is_single_ascii_fqdn (show_ipv4 a) \<and> parse_ip (show_ipv4 a) = Some (V4 a)"
proof
  show "parse_ip (show_ipv4 a) = Some (V4 a)"
    using read_ipv4_show [of "[]" a] by (simp add: parse_ip_def parse_all_input_def read_ip_def)
  have "last (to_string n) \<noteq> CHR ''.''" for n
    using to_string_dotless [of n] last_in_set [OF to_string_nonempty [of n]] by metis
  then have "last (show_ipv4 a) \<noteq> CHR ''.''" by (simp add: show_ipv4_def)
  then have name: "trim_end_dots (show_ipv4 a) = show_ipv4 a"
    by (cases "show_ipv4 a" rule: rev_cases) (auto simp: trim_end_dots_def)
  have digits: "c = CHR ''.'' \<or> is_ascii_digit (byte c)" if "c \<in> set (show_ipv4 a)" for c
    using that to_string_digits by (auto simp: show_ipv4_def list_all_iff)
  have "length (show_ipv4 a) \<le> 15"
    using to_string_length3 [OF octet_bound(2) [of a]] to_string_length3 [OF octet_bound(1) [of a]]
      to_string_length3 [OF octet_bound(1) [of "drop_bit 8 a"]] to_string_length3 [OF octet_bound(1) [of "drop_bit 16 a"]]
    by (simp add: show_ipv4_def)
  moreover have "show_ipv4 a \<noteq> []" by (simp add: show_ipv4_def)
  moreover have "(of_char c :: nat) < 128 \<and> c \<noteq> CHR '':'' \<and> c \<noteq> CHR ''*''" if "c \<in> set (show_ipv4 a)" for c
    using digits [OF that] by (auto simp: is_ascii_digit_def word_le_nat_alt unat_byte)
  ultimately show "is_single_ascii_fqdn (show_ipv4 a)"
    using octet_label octet_bound
    by (auto simp: is_single_ascii_fqdn_def name show_ipv4_labels Let_def ascii_str_def list_all_iff)
qed

section \<open>A public edge\<close>

definition sample_fs :: file_system where
  "sample_fs p =
     (if p = ''/run/oxo'' then Inr \<lparr>md_file_type = FtDir, md_mode = 0x1C0\<rparr>
      else if p = ''/c'' \<or> p = ''/k'' then Inr \<lparr>md_file_type = FtFile, md_mode = 0x180\<rparr>
      else Inl (NotFound ''no such file''))"

definition sample_server :: server_env where
  "sample_server = \<lparr>be_env = (\<lambda>_. None), be_fs = sample_fs, be_is_dir = (\<lambda>_. False), be_exists = (\<lambda>_. False),
     be_nproc = Some 4, be_nofile = NofileUnknown, be_tls_built = True, be_certificate = (\<lambda>_. CertDnsNames [''a.io'']),
     be_quote = id, be_parse_mount = Inl, be_read_dir = Inl, be_static_server = (\<lambda>_. Inr ()),
     sv_acme_issue = (\<lambda>_. Inr ()), sv_acme_renew = (\<lambda>_. Inr ()), sv_certificate_json = (\<lambda>_. Inr None),
     sv_admin_listen = (\<lambda>_. Inr ()), sv_tls_settings = (\<lambda>_ _. Inr ()), sv_accepts = (\<lambda>_. True), sv_pid = 7\<rparr>"

definition public_cli :: edge_cli_config where
  "public_cli = default_cli\<lparr>ec_worker_sockets := [''/run/oxo/w''], ec_max_body_bytes := Some 1000,
     ec_https_bind := Some (SockV4 0xCB007105 443), ec_fqdn := Some ''a.io'', ec_tls_cert := Some ''/c'', ec_tls_key := Some ''/k'',
     ec_public_mode := Some ''alpha'', ec_public_identity := Some ''direct-public''\<rparr>"

lemma absent [simp]:
  "env_var (\<lambda>_. None) name = Inl NotPresent" "optional_string_env (\<lambda>_. None) name = Inr None"
  "optional_u64_env (\<lambda>_. None) name = Inr None" "optional_path_env (\<lambda>_. None) name = None"
  "optional_bool_env (\<lambda>_. None) name = Inr None" "edge_env_bool (\<lambda>_. None) name d = Inr d"
  "optional_bind_env (\<lambda>_. None) name = Inr None" "env_ok (\<lambda>_. None) name = None"
  by (simp_all add: env_var_def optional_string_env_def optional_u64_env_def optional_path_env_def optional_bool_env_def
      edge_env_bool_def optional_bind_env_def env_ok_def)

lemma sample_names_checked:
  "trim ''a.io'' \<noteq> []" "is_single_ascii_fqdn ''a.io''" "eq_ignore_ascii_case ''a.io'' ''a.io''"
  "path_parent ''/run/oxo/w'' = Some ''/run/oxo''" "is_absolute ''/run/oxo/w''"
  by code_simp+

definition sample_exposed :: exposure where
  "sample_exposed = \<lparr>xp_bind = SockV4 0xCB007105 443, xp_sockets = [''/run/oxo/w''], xp_max_body = 1000,
     xp_listener = Tls ''/c'' ''/k'' True, xp_server_name = ''a.io'', xp_origin_port = None, xp_mode = Some Alpha,
     xp_identity = DirectPublic, xp_fairness = identity_limiter_new (Some 64), xp_max_requests = None\<rparr>"

lemma sample_exposure: "resolve_exposure (boot_of sample_server) public_cli = Inr sample_exposed"
  by (simp add: sample_exposed_def resolve_exposure_def sample_server_def public_cli_def default_cli_def boot_env.truncate_def read_bind_def
      read_worker_sockets_def read_max_body_def read_listener_mode_def required_tls_path_def or_else_def
      validate_future_acme_state_path_def acme_state_path_def read_server_name_def sample_names_checked
      read_public_origin_port_def read_public_mode_gate_def parse_public_mode_def read_public_identity_policy_def
      read_identity_fairness_def read_global_in_flight_def cli_or_env_def validate_tls_file_def sample_fs_def
      DEFAULT_PUBLIC_MAX_IN_FLIGHT_PER_IDENTITY_def Let_def)

lemma sample_tuning:
  "\<exists>tn. resolve_tuning (boot_of sample_server) public_cli sample_exposed = Inr tn \<and> tn_rails tn = None \<and> tn_preset tn = None"
  by (simp add: sample_exposed_def resolve_tuning_def sample_server_def public_cli_def default_cli_def boot_env.truncate_def
      resolve_serve_rails_def
      or_else_def read_static_rails_preset_def read_slow_client_policy_def required_nonzero_u64_def optional_nonzero_u64_def
      cli_or_env_def preset_bool_def requests_per_connection_to_reuse_limit_def read_long_lived_registry_def
      read_edge_drain_config_def drain_from_millis_def read_edge_threads_def read_listener_tasks_def read_request_log_def
      read_worker_hop_def read_worker_dispatch_def read_worker_cap_def read_worker_kind_def MAX_WORKERS_def Let_def
      DEFAULT_HEADER_READ_TIMEOUT_MS_def DEFAULT_KEEPALIVE_IDLE_TIMEOUT_MS_def DEFAULT_MAX_REQUESTS_PER_CONNECTION_def
      DEFAULT_LONG_LIVED_MAX_CONNECTIONS_def DEFAULT_LONG_LIVED_MAX_BUFFERED_BYTES_def DEFAULT_LONG_LIVED_WRITE_TIMEOUT_MS_def
      MAX_RESPONSE_BYTES_def DEFAULT_EDGE_DRAIN_GRACE_MS_def)

lemma sample_venue:
  assumes "tn_rails tn = None" and "tn_preset tn = None"
  shows "\<exists>vn. resolve_venue (boot_of sample_server) public_cli sample_exposed tn = Inr vn \<and> vn_mounts vn = [] \<and> vn_admin vn = None"
  using assms
  by (simp add: sample_exposed_def resolve_venue_def sample_server_def public_cli_def default_cli_def boot_env.truncate_def
      validate_public_tls_identity_def validate_tls_certificate_name_def sample_names_checked read_admin_bind_def
      requires_admin_health_def read_action_cable_bind_def read_grpc_bind_def loopback_bind_def read_sse_enabled_def
      preset_bool_def read_prod_enabled_def read_h2_policy_def required_nonzero_u64_def cli_or_env_def
      DEFAULT_H2_MAX_CONCURRENT_STREAMS_def DEFAULT_H2_MAX_RESET_STREAMS_def read_static_mounts_def explicit_specs_def
      derived_mount_def derived_specs_def new_edge_config_def validate_worker_socket_path_def validate_runtime_dir_def
      validate_socket_if_present_def sample_fs_def Let_def)

lemma sample_served:
  "\<exists>p st conf. run_with_cli sample_server public_cli = Inr (Serving p st conf) \<and> sc_bind conf = SockV4 0xCB007105 443 \<and>
     ep_server_name p = ''a.io''"
proof -
  obtain tn where tn: "resolve_tuning (boot_of sample_server) public_cli sample_exposed = Inr tn" "tn_rails tn = None"
    "tn_preset tn = None" using sample_tuning by blast
  obtain vn where vn: "resolve_venue (boot_of sample_server) public_cli sample_exposed tn = Inr vn" "vn_mounts vn = []"
    "vn_admin vn = None" using sample_venue [OF tn(2,3)] by blast
  obtain pp where pp: "resolve_pool (boot_of sample_server) sample_exposed vn = Inr pp"
    by (simp add: resolve_pool_def sample_server_def boot_env.truncate_def parse_pool_impl_def parse_unwrap_wait_ms_def
        make_fd_budget_def fd_refusal_def Let_def)
  let ?s = "\<lparr>sg_exposure = sample_exposed, sg_tuning = tn, sg_venue = vn, sg_pool = pp\<rparr>"
  have s: "resolve_settings (boot_of sample_server) public_cli = Inr ?s"
    by (simp add: resolve_settings_def sample_exposure tn vn pp)
  have "run_edge sample_server ?s = Inr (edge_proxy_new sample_server ?s None, edge_state_new ?s, make_server_conf ?s)"
    by (simp add: run_edge_def build_static_def vn sample_exposed_def) (simp add: sample_server_def)
  moreover have "sc_bind (make_server_conf ?s) = SockV4 0xCB007105 443" "ep_server_name (edge_proxy_new sample_server ?s None) = ''a.io''"
    using venue_edge(1) [OF vn(1)] by (simp_all add: make_server_conf_def edge_proxy_new_def Let_def sample_exposed_def)
  moreover have "\<not> ec_acme_issue_once public_cli" "\<not> ec_acme_renew_once public_cli" "\<not> ec_check_config public_cli"
    "read_certificate_admin_json sample_server public_cli = Inr None" "reject_socket_activation_env (be_env sample_server) = Inr ()"
    by (simp_all add: public_cli_def default_cli_def read_certificate_admin_json_def sample_server_def acme_state_path_def
        or_else_def reject_socket_activation_env_def socket_activation_env_name_def SOCKET_ACTIVATION_ENV_def)
  ultimately show ?thesis by (simp add: run_with_cli_def s)
qed

theorem boot_public_safe_witness:
  "\<exists>p st conf. run_with_cli sample_server public_cli = Inr (Serving p st conf) \<and>
     (\<exists>cert key h2. sc_listener conf = Tls cert key h2 \<and>
        validate_tls_file sample_fs ''private key'' key True = Inr ()) \<and> ep_public_server_name p = Some ''a.io''"
proof -
  obtain p st conf where run: "run_with_cli sample_server public_cli = Inr (Serving p st conf)"
    and conf: "sc_bind conf = SockV4 0xCB007105 443" "ep_server_name p = ''a.io''" using sample_served by blast
  have fs: "be_fs sample_server = sample_fs" by (simp add: sample_server_def)
  from boot_public_safe [OF run] have "\<exists>cert key h2. sc_listener conf = Tls cert key h2 \<and>
      validate_tls_file sample_fs ''private key'' key True = Inr ()" "ep_public_server_name p = Some ''a.io''"
    unfolding conf fs by auto
  with run show ?thesis by blast
qed

theorem boot_limits_consistent_witness:
  "\<exists>p st conf. run_with_cli sample_server public_cli = Inr (Serving p st conf) \<and> ep_keepalive_secs p \<noteq> 0 \<and>
     sc_listener_tasks conf \<le> 64"
  using sample_served boot_limits_consistent by blast

theorem check_config_predicts_boot_witness:
  "\<exists>r p st conf. run_with_cli sample_server (public_cli\<lparr>ec_check_config := True\<rparr>) = Inr r \<and> r = Finished \<and>
     run_with_cli sample_server (public_cli\<lparr>ec_check_config := False\<rparr>) = Inr (Serving p st conf)"
proof -
  have cli: "\<not> ec_acme_issue_once public_cli" "\<not> ec_acme_renew_once public_cli"
    "public_cli\<lparr>ec_check_config := False\<rparr> = public_cli"
    "read_certificate_admin_json sample_server public_cli = Inr None"
    by (simp_all add: public_cli_def default_cli_def read_certificate_admin_json_def sample_server_def acme_state_path_def
        or_else_def)
  from check_config_predicts_boot [OF cli(1,2), of sample_server] sample_served show ?thesis
    unfolding cli by (auto split: sum.splits)
qed

end
