(* ===== verification/Http_Reply.thy ===== *)
theory Http_Reply
  imports Http_Hop Edge_Response
begin

text \<open>
  The way back over the HTTP hop: what the edge's response reader makes of the bytes that the
  worker's response writers produce, for every way the byte stream is cut into reads. Buffered
  responses go through \<open>parse_worker_response\<close>, streamed ones through the chunked relay.
\<close>

section \<open>Response heads as lines\<close>

fun join_crlf :: "string list \<Rightarrow> string" where
  "join_crlf [] = []"
| "join_crlf [l] = l"
| "join_crlf (l # ls) = l @ crlf @ join_crlf ls"

lemma crlf_lines_join: "ls \<noteq> [] \<Longrightarrow> crlf_lines ls = join_crlf ls @ crlf"
  by (induction ls rule: join_crlf.induct) auto

lemma find_window_first:
  assumes "starts_with (drop n bs) w" and "\<And>k. k < n \<Longrightarrow> \<not> starts_with (drop k bs) w" and "w \<noteq> []"
  shows "find_window w bs = Some n"
  using assms(1,2)
proof (induction bs arbitrary: n)
  case Nil
  then show ?case using assms(3) by (simp add: starts_with_def)
next
  case (Cons b bs)
  show ?case
  proof (cases n)
    case (Suc m)
    then have "find_window w bs = Some m"
      using Cons.prems(1) Cons.prems(2) [of "Suc k" for k] by (intro Cons.IH) auto
    with Suc Cons.prems(2) [of 0] show ?thesis by simp
  qed (use Cons.prems in simp)
qed

lemma append_long_prefix: "xs @ ys = p @ r \<Longrightarrow> length p \<le> length xs \<Longrightarrow> \<exists>d. xs = p @ d"
  by (auto simp: append_eq_append_conv2)

lemma find_header_end_head:
  assumes "head_lines ls"
  shows "find_header_end (as_bytes (crlf_lines ls @ crlf) @ body) = Some (length (join_crlf ls))"
proof -
  let ?head = "crlf_lines ls @ crlf"
  have head: "?head = join_crlf ls @ crlf @ crlf"
    using assms crlf_lines_join [of ls] by (simp add: head_lines_def)
  define hb where "hb = as_bytes ?head"
  have w: "[0x0D, 0x0A, 0x0D, 0x0A] = as_bytes (crlf @ crlf)"
    by (simp add: crlf_def as_bytes_def byte_def)
  have "\<not> starts_with (drop k (as_bytes ?head @ body)) (as_bytes (crlf @ crlf))"
    if k: "k < length (join_crlf ls)" for k
  proof
    assume "starts_with (drop k (as_bytes ?head @ body)) (as_bytes (crlf @ crlf))"
    then obtain r where r: "drop k (as_bytes ?head) @ body = as_bytes (crlf @ crlf) @ r"
      using k by (auto simp: starts_with_append head)
    have "length (as_bytes (crlf @ crlf)) \<le> length (drop k (as_bytes ?head))"
      using k by (simp add: head)
    then obtain d where "drop k (as_bytes ?head) = as_bytes (crlf @ crlf) @ d"
      using append_long_prefix [OF r] by blast
    then have split: "hb = take k hb @ as_bytes (crlf @ crlf) @ d" unfolding hb_def by (metis append_take_drop_id)
    have "map byte_char hb = ?head" by (simp add: hb_def)
    with arg_cong [OF split, of "map byte_char"]
    have "?head = map byte_char (take k hb) @ crlf @ crlf @ map byte_char d" by simp
    from head_text_first [OF assms this] have "d = []" by simp
    with \<open>drop k (as_bytes ?head) = as_bytes (crlf @ crlf) @ d\<close> have "length (drop k (as_bytes ?head)) = 4"
      by (simp add: crlf_def)
    moreover have "length ?head = length (join_crlf ls) + 4" unfolding head by (simp add: crlf_def)
    ultimately show False using k by simp
  qed
  then show ?thesis
    unfolding find_header_end_def w
    by (intro find_window_first) (simp_all add: head starts_with_append, simp add: crlf_def as_bytes_def)
qed

section \<open>Parsing the lines\<close>

definition plain_line :: "string \<Rightarrow> bool" where
  "plain_line l \<longleftrightarrow> l \<noteq> [] \<and> CHR 0x0D \<notin> set l \<and> CHR 0x0A \<notin> set l"

definition stands_for :: "u8 list \<Rightarrow> string \<Rightarrow> bool" where
  "stands_for raw l \<longleftrightarrow> strip_trailing_cr raw = as_bytes l"

lemma split_on_no_sep: "c \<notin> set s \<Longrightarrow> split_on c s = [s]"
  by (induction s) auto

lemma cr_lf_bytes: "byte (CHR 0x0A) = 0x0A" "byte (CHR 0x0D) = 0x0D"
  by (simp_all add: byte_def)

lemma byte_mem: "byte c \<in> set (as_bytes l) \<longleftrightarrow> c \<in> set l"
  by (auto simp: as_bytes_def)

lemma strip_plain:
  "plain_line l \<Longrightarrow> strip_trailing_cr (as_bytes l) = as_bytes l"
  "strip_trailing_cr (as_bytes l @ [0x0D]) = as_bytes l"
proof -
  show "strip_trailing_cr (as_bytes l @ [0x0D]) = as_bytes l" by (simp add: strip_trailing_cr_def)
  assume l: "plain_line l"
  then have "last (as_bytes l) \<in> set (as_bytes l)" by (intro last_in_set) (simp add: plain_line_def as_bytes_def)
  moreover have "0x0D \<notin> set (as_bytes l)" using l byte_mem [of "CHR 0x0D" l] by (simp add: plain_line_def cr_lf_bytes)
  ultimately show "strip_trailing_cr (as_bytes l) = as_bytes l" by (auto simp: strip_trailing_cr_def)
qed

lemma response_lines:
  assumes "list_all plain_line ls" and "ls \<noteq> []"
  shows "list_all2 stands_for (split_on 0x0A (as_bytes (join_crlf ls))) ls"
  using assms
proof (induction ls rule: join_crlf.induct)
  case (2 l)
  then have "0x0A \<notin> set (as_bytes l)" using byte_mem [of "CHR 0x0A" l] by (simp add: plain_line_def cr_lf_bytes)
  with 2 strip_plain(1) show ?case by (simp add: split_on_no_sep stands_for_def)
next
  case (3 l l' ls)
  have "0x0A \<notin> set (as_bytes l @ [0x0D])"
    using 3(2) byte_mem [of "CHR 0x0A" l] by (simp add: plain_line_def cr_lf_bytes)
  moreover have "as_bytes (join_crlf (l # l' # ls)) = (as_bytes l @ [0x0D]) @ 0x0A # as_bytes (join_crlf (l' # ls))"
    by (simp add: crlf_def as_bytes_def cr_lf_bytes)
  ultimately have "split_on 0x0A (as_bytes (join_crlf (l # l' # ls))) =
      (as_bytes l @ [0x0D]) # split_on 0x0A (as_bytes (join_crlf (l' # ls)))"
    by (simp only: split_on_snoc split_on_no_sep append_Cons append_Nil not_False_eq_True)
  with 3 strip_plain(2) [of l] show ?case by (simp add: stands_for_def)
qed simp

definition field_ok :: "header \<Rightarrow> bool" where
  "field_ok h \<longleftrightarrow> kept_response_header h \<and> rust_str (trim_blanks (snd h))"

definition edge_view :: "header \<Rightarrow> header" where
  "edge_view h = (fst h, trim_blanks (snd h))"

lemma blank_bytes: "byte (CHR '' '') = 0x20" "byte (CHR 0x09) = 0x09"
  by (simp_all add: byte_def)

lemma trim_bytes: "trim_optional_whitespace (as_bytes v) = as_bytes (trim_blanks v)"
proof -
  have blank: "is_blank (byte c) \<longleftrightarrow> c = CHR '' '' \<or> c = CHR 0x09" for c
    by (metis is_blank_def byte_eq_iff blank_bytes)
  have "dropWhile is_blank (map byte s) = map byte (dropWhile (\<lambda>c. c = CHR '' '' \<or> c = CHR 0x09) s)" for s
    by (induction s) (auto simp: blank)
  then show ?thesis
    by (simp add: trim_optional_whitespace_def trim_blanks_def as_bytes_def rev_map)
qed

lemma token_byte_ascii: "valid_token_byte b \<Longrightarrow> unat b < 128"
  by (auto simp: valid_token_byte_def is_ascii_alphanumeric_def is_ascii_digit_def is_ascii_uppercase_def
      is_ascii_lowercase_def as_bytes_def byte_def word_le_nat_alt)

lemma token_byte_graphic: "valid_token_byte b \<Longrightarrow> b \<noteq> 0x20 \<and> b \<noteq> 0x09"
  by (auto simp: valid_token_byte_def is_ascii_alphanumeric_def is_ascii_digit_def is_ascii_uppercase_def
      is_ascii_lowercase_def as_bytes_def byte_def)

lemma token_rust_str: "valid_token s \<Longrightarrow> rust_str s"
  using token_byte_ascii
  by (intro ascii_rust_str)
    (auto simp: ascii_str_def valid_token_def list_all_iff as_bytes_def unat_byte [symmetric])

lemma split_header_line_text:
  assumes tok: "valid_token (fst h)" and v: "valid_response_header_value (snd h)"
    and raw: "stands_for raw (header_text h)"
  shows "split_header_line raw = Inr (as_bytes (fst h), as_bytes (trim_blanks (snd h)))"
proof -
  have colon: "0x3A \<notin> set (as_bytes (fst h))"
    using no_colon_token [OF tok] byte_mem [of "CHR '':''" "fst h"] by (simp add: byte_def)
  have line: "strip_trailing_cr raw = as_bytes (fst h) @ 0x3A # as_bytes (CHR '' '' # snd h)"
    using raw by (simp add: stands_for_def header_text_def as_bytes_def byte_def)
  have first: "hd (as_bytes (fst h)) \<noteq> 0x20" "hd (as_bytes (fst h)) \<noteq> 0x09" "fst h \<noteq> []"
    using tok token_byte_graphic hd_in_set [of "as_bytes (fst h)"]
    by (auto simp: valid_token_def list_all_iff as_bytes_def)
  have "\<not> has_invalid_header_value_bytes (as_bytes (trim_blanks (snd h)))"
  proof -
    have "set (trim_blanks (snd h)) \<subseteq> set (snd h)"
      by (auto simp: trim_blanks_def dest!: set_dropWhileD)
    then have "\<forall>b \<in> set (as_bytes (trim_blanks (snd h))). b \<ge> 0x20 \<and> b \<noteq> 0x7F"
      using v by (auto simp: valid_response_header_value_def list_all_iff as_bytes_def)
    then show ?thesis
      by (auto simp: has_invalid_header_value_bytes_def list_ex_iff word_le_nat_alt)
  qed
  then show ?thesis
    using first tok split_once_first [OF colon] header_names_agree [of "fst h"]
    by (cases "as_bytes (fst h)")
      (auto simp: split_header_line_def line starts_with_def trim_bytes trim_blanks_space Let_def)
qed

definition writable :: "header \<Rightarrow> bool" where
  "writable h \<longleftrightarrow> valid_token (fst h) \<and> valid_response_header_value (snd h) \<and> rust_str (trim_blanks (snd h))"

lemma response_fields_text:
  assumes "list_all2 stands_for raws (map header_text hs)" and "list_all writable hs"
  shows "response_fields acc raws =
    Inr (acc @ map edge_view (filter (\<lambda>h. \<not> dropped_response_header (to_ascii_lowercase (fst h))) hs))"
  using assms
proof (induction hs arbitrary: raws acc)
  case (Cons h hs)
  then obtain raw raws' where raws: "raws = raw # raws'" "stands_for raw (header_text h)"
    "list_all2 stands_for raws' (map header_text hs)"
    by (auto simp: list_all2_Cons2)
  have "writable h" using Cons.prems(2) by simp
  then show ?case
    using Cons raws split_header_line_text [OF _ _ raws(2)] token_rust_str
    by (simp add: writable_def edge_view_def)
qed simp

lemma chunked_scan_text:
  assumes "list_all2 stands_for raws (map header_text hs)" and "list_all writable hs"
    and "list_all (\<lambda>h. to_ascii_lowercase (fst h) = ''transfer-encoding'' \<longrightarrow> snd h = ''chunked'') hs"
  shows "chunked_scan b raws = Inr (b \<or> list_ex (\<lambda>h. to_ascii_lowercase (fst h) = ''transfer-encoding'') hs)"
  using assms
proof (induction hs arbitrary: raws b)
  case (Cons h hs)
  then obtain raw raws' where raws: "raws = raw # raws'" "stands_for raw (header_text h)"
    "list_all2 stands_for raws' (map header_text hs)"
    by (auto simp: list_all2_Cons2)
  have te: "to_ascii_lowercase ''transfer-encoding'' = ''transfer-encoding''" "trim_blanks ''chunked'' = ''chunked''"
    by (simp_all add: to_ascii_lowercase_def lower_char_def is_ascii_uppercase_def byte_def trim_blanks_def)
  have "writable h" using Cons.prems(2) by simp
  then show ?case
    using Cons raws split_header_line_text [OF _ _ raws(2)] token_rust_str te
    by (auto simp: writable_def eq_ignore_ascii_case_def)
qed simp

lemma strip_any_graphic: "is_ascii_graphic (byte (hd s)) \<Longrightarrow> strip_any white_space s = None"
  using white_space_ends(2) by (auto simp: strip_any_None) (metis starts_with_hd)

lemma split_whitespace_word:
  "list_all (\<lambda>c. is_ascii_graphic (byte c)) w \<Longrightarrow>
     split_whitespace_acc (length w + n) acc (w @ s) = split_whitespace_acc n (acc @ w) s"
  by (induction w arbitrary: acc) (simp_all add: strip_any_graphic)

lemma split_whitespace_space:
  "acc \<noteq> [] \<Longrightarrow> split_whitespace_acc (Suc n) acc (CHR '' '' # s) = acc # split_whitespace_acc n [] s"
  by (simp add: white_space_def starts_with_def)

lemma split_whitespace_first:
  assumes "list_all (\<lambda>c. is_ascii_graphic (byte c)) w" and "w \<noteq> []"
  shows "split_whitespace (w @ CHR '' '' # s) = w # split_whitespace s"
  using split_whitespace_word [OF assms(1), of "Suc (length s)" "[]" "CHR '' '' # s"] assms(2)
  by (simp add: split_whitespace_def split_whitespace_space del: split_whitespace_acc.simps)

lemma parse_status_line_text:
  assumes "n \<le> U16_MAX" and "rust_str (''HTTP/1.1 '' @ to_string n @ '' '' @ reason)"
  shows "parse_status_line (as_bytes (''HTTP/1.1 '' @ to_string n @ '' '' @ reason)) =
    (if 100 \<le> n \<and> n \<le> 599 then Inr (of_nat n) else Inl 502)"
proof -
  have http: "list_all (\<lambda>c. is_ascii_graphic (byte c)) ''HTTP/1.1''" by (simp add: is_ascii_graphic_def byte_def)
  have digits: "list_all (\<lambda>c. is_ascii_graphic (byte c)) (to_string n)"
    using to_string_digits [of n] by (auto simp: list_all_iff is_ascii_graphic_def is_ascii_digit_def word_le_nat_alt)
  have "split_whitespace (''HTTP/1.1 '' @ to_string n @ '' '' @ reason) =
      ''HTTP/1.1'' # to_string n # split_whitespace reason"
    using split_whitespace_first [OF http, of "to_string n @ '' '' @ reason"] split_whitespace_first [OF digits, of reason]
    by simp
  moreover have "parse_uint U16_MAX (to_string n) = Some n" using assms by (intro parse_uint_to_string) simp
  ultimately show ?thesis
    using assms by (simp add: parse_status_line_def del: append.simps as_bytes_append)
qed

section \<open>The worker's head\<close>

definition written_status :: "u16 \<Rightarrow> u16" where
  "written_status status = (if 100 \<le> status \<and> status \<le> 999 then status else 500)"

definition framing_field :: "response_body_mode \<Rightarrow> header" where
  "framing_field mode =
     (case mode of
        Fixed len \<Rightarrow> (''content-length'', to_string len)
      | Chunked \<Rightarrow> (''transfer-encoding'', ''chunked''))"

definition reply_fields :: "header list \<Rightarrow> response_body_mode \<Rightarrow> header list" where
  "reply_fields headers mode =
     filter kept_response_header headers @ [framing_field mode, (''connection'', ''close'')]"

definition reply_lines :: "u16 \<Rightarrow> header list \<Rightarrow> response_body_mode \<Rightarrow> string list" where
  "reply_lines status headers mode = status_line status # map header_text (reply_fields headers mode)"

lemma response_head_text: "response_head status headers mode = crlf_lines (reply_lines status headers mode) @ crlf"
proof -
  have "header_text (framing_field mode) = framing_line mode" "header_text (''connection'', ''close'') = ''connection: close''"
    by (simp_all add: header_text_def framing_field_def framing_line_def split: response_body_mode.split)
  then show ?thesis
    by (simp add: response_head_lines reply_lines_def reply_fields_def crlf_lines_def)
qed

lemma to_string_ascii: "c \<in> set (to_string n) \<Longrightarrow> of_char c < (128 :: nat)"
proof -
  assume "c \<in> set (to_string n)"
  then have "is_ascii_digit (byte c)" using to_string_digits [of n] by (simp add: list_all_iff)
  then show ?thesis by (simp add: is_ascii_digit_def word_le_nat_alt unat_byte)
qed

lemma value_ok_digits: "valid_response_header_value (to_string n)"
  using to_string_digits [of n]
  by (auto simp: valid_response_header_value_def list_all_iff as_bytes_def is_ascii_digit_def word_le_nat_alt)

lemma framing_writable: "writable (framing_field mode)" "writable (''connection'', ''close'')"
proof -
  have "rust_str (trim_blanks (to_string n))" for n
    using to_string_ascii by (auto intro!: ascii_rust_str simp: ascii_str_def list_all_iff)
  then show "writable (framing_field mode)"
    by (simp add: writable_def framing_field_def value_ok_digits valid_token_def valid_token_byte_def eval_bytes
        valid_response_header_value_def [of "''chunked''"] trim_blanks_def [of "''chunked''"] rust_str_def
        split: response_body_mode.split)
  show "writable (''connection'', ''close'')"
    by (simp add: writable_def valid_token_def valid_token_byte_def eval_bytes valid_response_header_value_def
        trim_blanks_def rust_str_def)
qed

lemma plain_header_text: "writable h \<Longrightarrow> plain_line (header_text h)"
proof -
  assume h: "writable h"
  then have "CHR 0x0A \<notin> set (fst h)" "CHR 0x0A \<notin> set (snd h)"
    by (auto simp: writable_def valid_token_def as_bytes_def list_all_iff valid_token_byte_def byte_def
        is_ascii_alphanumeric_def is_ascii_digit_def is_ascii_uppercase_def is_ascii_lowercase_def
        valid_response_header_value_def)
  with h no_cr_token no_cr_value show ?thesis
    by (auto simp: writable_def plain_line_def header_text_def)
qed

lemma plain_status_line: "plain_line (status_line status)"
proof -
  have "CHR 0x0A \<notin> set (to_string n)" for n
    using to_string_digits [of n] by (auto simp: list_all_iff is_ascii_digit_def byte_def)
  then show ?thesis
    using no_cr_digits by (simp add: plain_line_def status_line_def Let_def status_reason_def)
qed

lemma reply_lines_plain:
  assumes "list_all (\<lambda>h. rust_str (trim_blanks (snd h))) headers"
  shows "list_all writable (reply_fields headers mode)" and "list_all plain_line (reply_lines status headers mode)"
    and "head_lines (reply_lines status headers mode)"
proof -
  show w: "list_all writable (reply_fields headers mode)"
    using assms framing_writable by (auto simp: reply_fields_def list_all_iff writable_def kept_response_header_def)
  then show p: "list_all plain_line (reply_lines status headers mode)"
    using plain_header_text plain_status_line by (auto simp: reply_lines_def list_all_iff)
  then show "head_lines (reply_lines status headers mode)"
    by (auto simp: head_lines_def plain_line_def list_all_iff reply_lines_def)
qed

lemma reply_head_read:
  assumes "list_all (\<lambda>h. rust_str (trim_blanks (snd h))) headers"
  shows "find_header_end (as_bytes (response_head status headers mode) @ rest) =
      Some (length (join_crlf (reply_lines status headers mode)))"
    and "take (length (join_crlf (reply_lines status headers mode))) (as_bytes (response_head status headers mode) @ rest) =
      as_bytes (join_crlf (reply_lines status headers mode))"
    and "drop (length (join_crlf (reply_lines status headers mode)) + 4) (as_bytes (response_head status headers mode) @ rest) = rest"
proof -
  show "find_header_end (as_bytes (response_head status headers mode) @ rest) =
      Some (length (join_crlf (reply_lines status headers mode)))"
    unfolding response_head_text by (rule find_header_end_head [OF reply_lines_plain(3) [OF assms]])
  have "response_head status headers mode = join_crlf (reply_lines status headers mode) @ crlf @ crlf"
    unfolding response_head_text by (subst crlf_lines_join) (simp_all add: reply_lines_def)
  then show "take (length (join_crlf (reply_lines status headers mode))) (as_bytes (response_head status headers mode) @ rest) =
      as_bytes (join_crlf (reply_lines status headers mode))"
    "drop (length (join_crlf (reply_lines status headers mode)) + 4) (as_bytes (response_head status headers mode) @ rest) = rest"
    by (simp_all add: crlf_def as_bytes_Cons)
qed

lemma reply_head_lines:
  assumes "list_all (\<lambda>h. rust_str (trim_blanks (snd h))) headers"
  obtains raw raws where
    "split_on 0x0A (as_bytes (join_crlf (reply_lines status headers mode))) = raw # raws"
    "strip_trailing_cr raw = as_bytes (status_line status)"
    "list_all2 stands_for raws (map header_text (reply_fields headers mode))"
proof -
  have "list_all2 stands_for (split_on 0x0A (as_bytes (join_crlf (reply_lines status headers mode))))
      (reply_lines status headers mode)"
    using reply_lines_plain(2) [OF assms] by (intro response_lines) (simp_all add: reply_lines_def)
  then show thesis
    using that unfolding reply_lines_def by (auto simp: list_all2_Cons2 stands_for_def)
qed

lemma status_line_str: "rust_str (status_line status)"
proof -
  show ?thesis
    using to_string_ascii by (intro ascii_rust_str) (auto simp: ascii_str_def list_all_iff status_line_def Let_def status_reason_def)
qed

lemma parse_status_line_reply:
  "parse_status_line (as_bytes (status_line status)) =
     (if written_status status \<le> 599 then Inr (written_status status) else Inl 502)"
proof -
  let ?n = "unat (written_status status)"
  have line: "status_line status = ''HTTP/1.1 '' @ to_string ?n @ '' '' @ status_reason (written_status status)"
    by (simp add: status_line_def written_status_def Let_def)
  have "?n \<le> U16_MAX" using unsigned_less [of "written_status status", where 'a = nat] by simp
  then have "parse_status_line (as_bytes (status_line status)) =
      (if 100 \<le> ?n \<and> ?n \<le> 599 then Inr (of_nat ?n) else Inl 502)"
    using status_line_str [of status] unfolding line by (rule parse_status_line_text)
  moreover have "100 \<le> ?n" by (simp add: written_status_def word_le_nat_alt)
  ultimately show ?thesis by (simp add: word_le_nat_alt)
qed

lemma parse_response_head_reply:
  assumes "list_all (\<lambda>h. rust_str (trim_blanks (snd h))) headers"
  shows "parse_response_head (as_bytes (join_crlf (reply_lines status headers mode))) =
    (if written_status status \<le> 599
     then Inr \<lparr>rh_status = written_status status, rh_fields = map edge_view (filter kept_response_header headers)\<rparr>
     else Inl 502)"
proof -
  obtain raw raws where
    split: "split_on 0x0A (as_bytes (join_crlf (reply_lines status headers mode))) = raw # raws"
    "strip_trailing_cr raw = as_bytes (status_line status)"
    "list_all2 stands_for raws (map header_text (reply_fields headers mode))"
    using assms by (rule reply_head_lines)
  have "filter (\<lambda>h. \<not> dropped_response_header (to_ascii_lowercase (fst h))) (reply_fields headers mode) =
      filter kept_response_header headers"
  proof -
    have "dropped_response_header (to_ascii_lowercase (fst (framing_field mode)))"
      "dropped_response_header (to_ascii_lowercase ''connection'')"
      by (simp_all add: framing_field_def dropped_response_header_def hop_lower to_ascii_lowercase_def lower_char_def
          is_ascii_uppercase_def byte_def split: response_body_mode.split)
    moreover have "filter (\<lambda>h. \<not> dropped_response_header (to_ascii_lowercase (fst h))) (filter kept_response_header headers) =
        filter kept_response_header headers"
      by (intro filter_True) (auto simp: kept_response_header_def dropped_response_header_def framing_header_def)
    ultimately show ?thesis by (simp add: reply_fields_def)
  qed
  then show ?thesis
    using response_fields_text [OF split(3) reply_lines_plain(1) [OF assms], of "[]"] split(1,2)
    by (simp add: parse_response_head_def parse_status_line_reply Let_def)
qed

section \<open>Reads\<close>

text \<open>
  \<open>delivers rs bs\<close>: the reads return the bytes \<open>bs\<close>, cut into pieces in some way, with whatever
  drain flags.
\<close>

fun read_bytes :: "bool \<times> worker_read \<Rightarrow> u8 list" where
  "read_bytes (_, RdBytes bs) = bs"
| "read_bytes (_, RdFail) = []"

definition delivers :: "reads \<Rightarrow> u8 list \<Rightarrow> bool" where
  "delivers rs bs \<longleftrightarrow> list_all (\<lambda>r. read_bytes r \<noteq> []) rs \<and> concat (map read_bytes rs) = bs"

lemma delivers_Nil: "delivers [] bs \<longleftrightarrow> bs = []"
  by (auto simp: delivers_def)

lemma delivers_Cons:
  "delivers (r # rs) bs \<longleftrightarrow> (\<exists>d b bs'. r = (d, RdBytes b) \<and> b \<noteq> [] \<and> bs = b @ bs' \<and> delivers rs bs')"
  by (cases r rule: read_bytes.cases) (auto simp: delivers_def)

lemma starts_with_take: "length w \<le> length xs \<Longrightarrow> starts_with (xs @ ys) w = starts_with xs w"
  by (simp add: starts_with_def)

lemma find_window_append: "find_window w xs = Some m \<Longrightarrow> find_window w (xs @ ys) = Some m"
proof (induction w xs arbitrary: m rule: find_window.induct)
  case (2 w b bs)
  show ?case
  proof (cases "starts_with (b # bs) w")
    case True
    with 2(2) show ?thesis using starts_with_take [of w "b # bs" ys] starts_with_length [OF True] by simp
  next
    case False
    with 2(2) obtain m' where m': "m = Suc m'" "find_window w bs = Some m'" by auto
    have "length w \<le> length (b # bs)"
      using find_window_Some [OF m'(2)] starts_with_length [of "drop m' bs" w] by simp
    then have "\<not> starts_with (b # bs @ ys) w" using False starts_with_take [of w "b # bs" ys] by simp
    with 2(1) [OF False m'(2)] m'(1) show ?thesis by simp
  qed
qed simp

lemma find_window_None: "find_window w xs = None \<Longrightarrow> n < length xs \<Longrightarrow> \<not> starts_with (drop n xs) w"
proof (induction w xs arbitrary: n rule: find_window.induct)
  case (2 w b bs)
  then show ?case by (cases n) (auto split: if_splits)
qed simp

lemma find_window_short:
  assumes "find_window w xs = None" and "find_window w (xs @ ys) = Some n" and "w \<noteq> []"
  shows "length xs < n + length w"
proof (rule ccontr)
  assume "\<not> length xs < n + length w"
  then have n: "n + length w \<le> length xs" by simp
  have "starts_with (drop n (xs @ ys)) w" using find_window_Some [OF assms(2)] by simp
  with n have "starts_with (drop n xs) w" using starts_with_take [of w "drop n xs" ys] by simp
  moreover have "n < length xs" using n assms(3) by (cases w) auto
  ultimately show False using find_window_None [OF assms(1)] by blast
qed

lemma find_header_end_split:
  assumes "find_header_end response = Some k" and "find_header_end (response @ bs) = Some he"
  shows "k = he" and "he + 4 \<le> length response"
proof -
  show k: "k = he"
    using find_window_append [of _ response k bs] assms by (simp add: find_header_end_def)
  have "starts_with (drop he response) [0x0D, 0x0A, 0x0D, 0x0A]" "he < length response"
    using find_window_Some [OF assms(1) [unfolded find_header_end_def k]] by simp_all
  then show "he + 4 \<le> length response"
    using starts_with_length [of "drop he response" "[0x0D, 0x0A, 0x0D, 0x0A]"] by simp
qed

lemma read_response_head_delivers:
  assumes "delivers rs bs" and "find_header_end response = None" and "find_header_end (response @ bs) = Some he"
    and "he + 4 \<le> MAX_RESPONSE_HEADER_BYTES"
  shows "(\<exists>got rs' rest. read_response_head response (rs @ more_reads) = Inr (he, got, rs' @ more_reads) \<and>
      delivers rs' rest \<and> got @ rest = response @ bs \<and> he + 4 \<le> length got \<and> length got \<le> MAX_RESPONSE_BYTES) \<or>
    read_response_head response (rs @ more_reads) = Inl 502 \<and> MAX_RESPONSE_BYTES < length (response @ bs)"
  using assms(1-3)
proof (induction rs arbitrary: response bs)
  case Nil
  then show ?case by (simp add: delivers_Nil)
next
  case (Cons r rs)
  then obtain d b bs' where r: "r = (d, RdBytes b)" "b \<noteq> []" "bs = b @ bs'" "delivers rs bs'"
    by (auto simp: delivers_Cons)
  note step = read_response_head.simps [of response "(r # rs) @ more_reads"]
  show ?case
  proof (cases "MAX_RESPONSE_BYTES < length (response @ b)")
    case True
    with step r show ?thesis by (simp add: plain_read_def)
  next
    case small: False
    show ?thesis
    proof (cases "find_header_end (response @ b)")
      case None
      then have "length (response @ b) < he + 4"
        using Cons.prems(3) r(3) find_window_short [of "[0x0D, 0x0A, 0x0D, 0x0A]" "response @ b" bs' he]
        by (simp add: find_header_end_def)
      then have "read_response_head response ((r # rs) @ more_reads) = read_response_head (response @ b) (rs @ more_reads)"
        using step small r(1,2) None assms(4) by (simp add: plain_read_def)
      with Cons.IH [OF r(4) None] Cons.prems(3) r(3) show ?thesis by (simp only: append_assoc)
    next
      case (Some k)
      note he = find_header_end_split [OF Some, of bs' he]
      have "read_response_head response ((r # rs) @ more_reads) = Inr (he, response @ b, rs @ more_reads)"
        using step small he Some r Cons.prems(3) assms(4) by (simp add: plain_read_def)
      with r(3,4) small he Cons.prems(3) show ?thesis by force
    qed
  qed
qed

lemma read_response_head_too_long:
  assumes "delivers rs bs" and "find_header_end response = None" and "find_header_end (response @ bs) = Some he"
    and "MAX_RESPONSE_HEADER_BYTES < he"
  shows "read_response_head response (rs @ more_reads) = Inl 502"
  using assms(1-3)
proof (induction rs arbitrary: response bs)
  case Nil
  then show ?case by (simp add: delivers_Nil)
next
  case (Cons r rs)
  then obtain d b bs' where r: "r = (d, RdBytes b)" "b \<noteq> []" "bs = b @ bs'" "delivers rs bs'"
    by (auto simp: delivers_Cons)
  have "k = he" if "find_header_end (response @ b) = Some k" for k
    using find_header_end_split(1) [OF that, of bs' he] Cons.prems(3) r(3) by simp
  with Cons.IH [OF r(4), of "response @ b"] Cons.prems(3) r assms(4) show ?case
    by (subst read_response_head.simps) (auto simp: plain_read_def split: option.split)
qed

lemma read_to_end_too_long:
  assumes "delivers rs bs" and "MAX_RESPONSE_BYTES < length (response @ bs)" and "length response \<le> MAX_RESPONSE_BYTES"
  shows "read_to_end response (rs @ more_reads) = Inl 502"
  using assms
proof (induction rs arbitrary: response bs)
  case Nil
  then show ?case by (simp add: delivers_Nil)
next
  case (Cons r rs)
  then show ?case by (subst read_to_end.simps) (auto simp: delivers_Cons plain_read_def)
qed

lemma read_to_end_delivers:
  assumes "delivers rs bs" and "length (response @ bs) \<le> MAX_RESPONSE_BYTES"
  shows "read_to_end response (rs @ [(d, RdBytes [])]) = Inr (response @ bs)"
  using assms
proof (induction rs arbitrary: response bs)
  case Nil
  then show ?case by (subst read_to_end.simps) (simp add: delivers_Nil plain_read_def)
next
  case (Cons r rs)
  then show ?case by (subst read_to_end.simps) (auto simp: delivers_Cons plain_read_def)
qed

section \<open>Buffered responses\<close>

lemma worker_response_is_chunked_reply:
  assumes "list_all (\<lambda>h. rust_str (trim_blanks (snd h))) headers"
  shows "worker_response_is_chunked (as_bytes (join_crlf (reply_lines status headers mode))) = Inr (mode = Chunked)"
proof -
  obtain raw raws where
    split: "split_on 0x0A (as_bytes (join_crlf (reply_lines status headers mode))) = raw # raws"
    "list_all2 stands_for raws (map header_text (reply_fields headers mode))"
    using assms by (rule reply_head_lines)
  have low: "to_ascii_lowercase ''transfer-encoding'' = ''transfer-encoding''"
    by (simp add: to_ascii_lowercase_def lower_char_def is_ascii_uppercase_def byte_def)
  have te: "to_ascii_lowercase (fst h) \<noteq> ''transfer-encoding''" if "h \<in> set (filter kept_response_header headers)" for h
    using that by (auto simp: kept_response_header_def framing_header_def)
  have "list_all (\<lambda>h. to_ascii_lowercase (fst h) = ''transfer-encoding'' \<longrightarrow> snd h = ''chunked'') (reply_fields headers mode)"
    using te by (auto simp: reply_fields_def list_all_iff framing_field_def hop_lower split: response_body_mode.split)
  moreover have "list_ex (\<lambda>h. to_ascii_lowercase (fst h) = ''transfer-encoding'') (reply_fields headers mode) \<longleftrightarrow> mode = Chunked"
    using te by (auto simp: reply_fields_def list_ex_iff framing_field_def hop_lower low split: response_body_mode.split)
  ultimately show ?thesis
    using chunked_scan_text [OF split(2) reply_lines_plain(1) [OF assms]] split(1)
    by (simp add: worker_response_is_chunked_def)
qed

definition reply_header :: "u16 \<Rightarrow> header list \<Rightarrow> response_header" where
  "reply_header status headers =
     \<lparr>rh_status = written_status status, rh_fields = map edge_view (filter kept_response_header headers)\<rparr>"

lemma head_size_join:
  "length (join_crlf (reply_lines status headers mode)) + 4 = length (response_head status headers mode)"
  unfolding response_head_text by (subst crlf_lines_join) (simp_all add: reply_lines_def crlf_def)

lemma find_header_end_Nil: "find_header_end [] = None"
  by (simp add: find_header_end_def)

text \<open>The response the edge makes of the worker's, and writing it to a downstream that may fail.\<close>

definition relayed_reply :: "bool \<Rightarrow> worker_response \<Rightarrow> edge_worker_response" where
  "relayed_reply keepalive resp =
     (let h = reply_header (wr_status resp) (wr_headers resp) in
      \<lparr>er_status = written_status (wr_status resp),
       er_header = add_close keepalive (h\<lparr>rh_fields := rh_fields h @ [(''Content-Length'', to_string (length (wr_body resp)))]\<rparr>),
       er_body = wr_body resp\<rparr>)"

lemma reply_bytes:
  "sk_out (snd (write_response resp \<lparr>sk_out = [], sk_room = None\<rparr>)) =
     as_bytes (response_head (wr_status resp) (wr_headers resp) (Fixed (length (wr_body resp)))) @ wr_body resp"
  by (simp add: write_response_def write_response_head_def write_all_def then_write_def)

lemma parse_worker_response_reply:
  assumes "list_all (\<lambda>h. rust_str (trim_blanks (snd h))) (wr_headers resp)"
    and "length (response_head (wr_status resp) (wr_headers resp) (Fixed (length (wr_body resp)))) \<le> MAX_RESPONSE_HEADER_BYTES"
    and "length (sk_out (snd (write_response resp \<lparr>sk_out = [], sk_room = None\<rparr>))) \<le> MAX_RESPONSE_BYTES"
  shows "parse_worker_response (sk_out (snd (write_response resp \<lparr>sk_out = [], sk_room = None\<rparr>))) keepalive =
    (if written_status (wr_status resp) \<le> 599 then Inr (relayed_reply keepalive resp) else Inl 502)"
proof -
  let ?lines = "reply_lines (wr_status resp) (wr_headers resp) (Fixed (length (wr_body resp)))"
  note read = reply_head_read [OF assms(1), of "wr_status resp" "Fixed (length (wr_body resp))" "wr_body resp"]
  have "length (join_crlf ?lines) + 4 \<le> MAX_RESPONSE_HEADER_BYTES"
    using assms(2) head_size_join by simp
  then show ?thesis
    using read assms(3) parse_response_head_reply [OF assms(1)]
    unfolding reply_bytes
    by (simp add: parse_worker_response_def relayed_reply_def reply_header_def Let_def del: append_assoc)
qed

lemma write_downstream_outcome:
  "write_downstream_response resp d =
     (case dn_fails d (length (dn_written d)) of
        Some _ \<Rightarrow> (Inl 502, d)
      | None \<Rightarrow>
          (case dn_fails d (Suc (length (dn_written d))) of
             Some _ \<Rightarrow> (Inl 502, d\<lparr>dn_written := dn_written d @ [DownHeader (er_header resp) False]\<rparr>)
           | None \<Rightarrow>
               (Inr (er_status resp), d\<lparr>dn_written := dn_written d @
                  [DownHeader (er_header resp) False, DownBody (Some (er_body resp)) True]\<rparr>)))"
  by (auto simp: write_downstream_response_def write_with_timeout_def write_down_def map_err_def Let_def split: option.split)

lemma reply_head_got:
  assumes "list_all (\<lambda>h. rust_str (trim_blanks (snd h))) (wr_headers resp)"
    and "delivers rs (sk_out (snd (write_response resp \<lparr>sk_out = [], sk_room = None\<rparr>)))"
    and "length (response_head (wr_status resp) (wr_headers resp) (Fixed (length (wr_body resp)))) \<le> 65536"
  obtains (big) "read_response_head [] (rs @ eof) = Inl 502"
      "MAX_RESPONSE_BYTES < length (sk_out (snd (write_response resp \<lparr>sk_out = [], sk_room = None\<rparr>)))"
    | (got) he got rs' rest where "read_response_head [] (rs @ eof) = Inr (he, got, rs' @ eof)" "delivers rs' rest"
      "got @ rest = sk_out (snd (write_response resp \<lparr>sk_out = [], sk_room = None\<rparr>))" "length got \<le> MAX_RESPONSE_BYTES"
      "take he got = as_bytes (join_crlf (reply_lines (wr_status resp) (wr_headers resp) (Fixed (length (wr_body resp)))))"
proof -
  let ?lines = "reply_lines (wr_status resp) (wr_headers resp) (Fixed (length (wr_body resp)))"
  let ?he = "length (join_crlf ?lines)"
  note read = reply_head_read [OF assms(1), of "wr_status resp" "Fixed (length (wr_body resp))" "wr_body resp",
      folded reply_bytes]
  have len: "?he + 4 \<le> MAX_RESPONSE_HEADER_BYTES"
    using assms(3) head_size_join by (simp add: MAX_RESPONSE_HEADER_BYTES_def)
  have "take ?he xs = as_bytes (join_crlf ?lines)"
    if "xs @ ys = sk_out (snd (write_response resp \<lparr>sk_out = [], sk_room = None\<rparr>))" "?he + 4 \<le> length xs" for xs ys
  proof -
    have "take ?he xs = take ?he (xs @ ys)" using that(2) by simp
    then show ?thesis using read(2) that(1) by simp
  qed
  with read_response_head_delivers [OF assms(2) find_header_end_Nil _ len, of eof] read(1) show thesis
    using big got by (metis append_Nil)
qed

text \<open>
  C31: A buffered response through the HTTP hop, for every response of the application with text
  header values (values that are UTF-8 once trimmed), however the worker's bytes are cut into
  reads. It is relayed when its head is at most 64 KiB, the whole at most 64 MiB and its status at
  most 599: the edge writes the status, the application's safe headers in order with their values
  trimmed, the body's length, and then the body unchanged, without the worker's own framing
  headers; when the client refuses the header write or the body write the answer is a 502 and
  nothing more is written. Otherwise it becomes a 502 with nothing written. (For the four head
  lengths just above 64 KiB the cuts decide which, and the property says nothing.)
\<close>
theorem buffered_reply_relayed:
  assumes "list_all (\<lambda>h. rust_str (trim_blanks (snd h))) (wr_headers resp)"
    and "delivers rs (sk_out (snd (write_response resp \<lparr>sk_out = [], sk_room = None\<rparr>)))"
    and "length (response_head (wr_status resp) (wr_headers resp) (Fixed (length (wr_body resp)))) \<notin> {65537..65540}"
  shows "read_worker_response_and_write (rs @ [(dr, RdBytes [])]) keepalive reg d =
    (if length (response_head (wr_status resp) (wr_headers resp) (Fixed (length (wr_body resp)))) \<le> 65536 \<and>
        length (sk_out (snd (write_response resp \<lparr>sk_out = [], sk_room = None\<rparr>))) \<le> 64 * 1024 * 1024 \<and>
        written_status (wr_status resp) \<le> 599
     then
       (let header = add_close keepalive \<lparr>rh_status = written_status (wr_status resp),
              rh_fields = map edge_view (filter kept_response_header (wr_headers resp)) @
                [(''Content-Length'', to_string (length (wr_body resp)))]\<rparr>
        in case dn_fails d (length (dn_written d)) of
             Some _ \<Rightarrow> (Inl 502, reg, d)
           | None \<Rightarrow>
               (case dn_fails d (Suc (length (dn_written d))) of
                  Some _ \<Rightarrow> (Inl 502, reg, d\<lparr>dn_written := dn_written d @ [DownHeader header False]\<rparr>)
                | None \<Rightarrow> (Inr (written_status (wr_status resp)), reg,
                    d\<lparr>dn_written := dn_written d @ [DownHeader header False, DownBody (Some (wr_body resp)) True]\<rparr>)))
     else (Inl 502, reg, d))"
proof (cases "length (response_head (wr_status resp) (wr_headers resp) (Fixed (length (wr_body resp)))) \<le> 65536")
  case small: True
  let ?bytes = "sk_out (snd (write_response resp \<lparr>sk_out = [], sk_room = None\<rparr>))"
  let ?eof = "[(dr, RdBytes [])]"
  from assms(1,2) small show ?thesis
  proof (cases rule: reply_head_got [where eof = ?eof])
    case big
    then show ?thesis by (simp add: read_worker_response_and_write_def MAX_RESPONSE_BYTES_def)
  next
    case (got he got rs' rest)
    note first = read_worker_response_and_write_def got(1,5) worker_response_is_chunked_reply [OF assms(1)]
    show ?thesis
    proof (cases "length ?bytes \<le> MAX_RESPONSE_BYTES")
      case True
      have "read_to_end got (rs' @ ?eof) = Inr ?bytes"
        using read_to_end_delivers [OF got(2), of got dr] True got(3) by simp
      with True small parse_worker_response_reply [OF assms(1) _ True] show ?thesis
        by (simp add: first write_downstream_outcome relayed_reply_def reply_header_def MAX_RESPONSE_HEADER_BYTES_def
            MAX_RESPONSE_BYTES_def Let_def split: option.split)
    next
      case False
      with read_to_end_too_long [OF got(2), of got ?eof] got(3,4) show ?thesis
        by (simp add: first MAX_RESPONSE_BYTES_def)
    qed
  qed
next
  case False
  have "MAX_RESPONSE_HEADER_BYTES < length (join_crlf (reply_lines (wr_status resp) (wr_headers resp) (Fixed (length (wr_body resp)))))"
    using False assms(3) head_size_join [of "wr_status resp" "wr_headers resp" "Fixed (length (wr_body resp))"]
    by (simp add: MAX_RESPONSE_HEADER_BYTES_def)
  with read_response_head_too_long [OF assms(2) find_header_end_Nil] reply_head_read(1) [OF assms(1)] False show ?thesis
    by (simp add: read_worker_response_and_write_def reply_bytes)
qed

definition sample_reply :: worker_response where
  "sample_reply = \<lparr>wr_status = 200, wr_headers = [(''X-A'', ''b'')], wr_body = [104, 105]\<rparr>"

definition sample_reply_head :: string where
  "sample_reply_head = ''HTTP/1.1 200 OK'' @ crlf @ ''X-A: b'' @ crlf @ ''content-length: 2'' @ crlf @
     ''connection: close'' @ crlf @ crlf"

lemma sample_reply_kept: "kept_response_header (''X-A'', ''b'')"
  by (simp add: kept_response_header_def framing_header_def valid_token_def valid_response_header_value_def
      to_ascii_lowercase_def lower_char_def is_ascii_uppercase_def eval_bytes valid_token_byte_def)

lemma sample_reply_bytes:
  "sk_out (snd (write_response sample_reply \<lparr>sk_out = [], sk_room = None\<rparr>)) = as_bytes sample_reply_head @ [104, 105]"
  "length (response_head 200 [(''X-A'', ''b'')] (Fixed (Suc (Suc 0)))) \<le> 65536"
proof -
  have line: "response_header_line (''X-A'', ''b'') = ''X-A: b'' @ crlf"
    using sample_reply_kept by (simp add: kept_response_header_def response_header_line_def)
  have head: "response_head 200 [(''X-A'', ''b'')] (Fixed (Suc (Suc 0))) = sample_reply_head"
    by (simp add: response_head_def line sample_reply_head_def hop_digits status_reason_def to_string.simps
        digit_char_def char_of_eq_iff)
  show "sk_out (snd (write_response sample_reply \<lparr>sk_out = [], sk_room = None\<rparr>)) = as_bytes sample_reply_head @ [104, 105]"
    using head by (simp add: write_response_def write_response_head_def write_all_def then_write_def sample_reply_def)
  show "length (response_head 200 [(''X-A'', ''b'')] (Fixed (Suc (Suc 0)))) \<le> 65536"
    by (simp add: head sample_reply_head_def crlf_def)
qed

definition quiet_downstream :: downstream where
  "quiet_downstream = \<lparr>dn_written = [], dn_fails = (\<lambda>_. None)\<rparr>"

definition sample_limits :: long_lived_limits where
  "sample_limits = \<lparr>ll_max_connections = 1, ll_max_buffered_bytes = 100\<rparr>"

theorem buffered_reply_relayed_witness:
  "read_worker_response_and_write
     [(False, RdBytes (as_bytes sample_reply_head)), (False, RdBytes [104]), (True, RdBytes [105]), (False, RdBytes [])]
     False (registry_new sample_limits) quiet_downstream =
   (Inr 200, (registry_new sample_limits), \<lparr>dn_written =
      [DownHeader \<lparr>rh_status = 200, rh_fields = [(''X-A'', ''b''), (''Content-Length'', ''2''), (''Connection'', ''close'')]\<rparr> False,
       DownBody (Some [104, 105]) True], dn_fails = (\<lambda>_. None)\<rparr>)"
proof -
  let ?rs = "[(False, RdBytes (as_bytes sample_reply_head)), (False, RdBytes [104]), (True, RdBytes [105])]"
  have sent: "delivers ?rs (sk_out (snd (write_response sample_reply \<lparr>sk_out = [], sk_room = None\<rparr>)))"
    by (simp add: sample_reply_bytes delivers_def as_bytes_def sample_reply_head_def)
  have trim: "trim_blanks ''b'' = ''b''" by (simp add: trim_blanks_def)
  have rust: "rust_str ''b''" by (simp add: rust_str_def as_bytes_def byte_def)
  have size: "length (as_bytes sample_reply_head) + 2 \<le> 64 * 1024 * 1024"
    by (simp add: sample_reply_head_def crlf_def)
  from buffered_reply_relayed [OF _ sent, of False False "registry_new sample_limits" "quiet_downstream"]
  show ?thesis
    using sample_reply_bytes trim rust size
    by (simp add: hop_digits sample_reply_def quiet_downstream_def Let_def written_status_def sample_reply_kept edge_view_def add_close_def)
qed

end
