(* ===== verification/Frame_Reply.thy ===== *)
theory Frame_Reply
  imports Frame_Response
begin

text \<open>
  The binary hop in the other direction: what the worker of \<open>Worker_Frame\<close> writes as its answer,
  cut into reads in any way, is relayed by the edge of \<open>Frame_Response\<close> unchanged.
\<close>

section \<open>A connection that delivers\<close>

definition calm :: "pooled_conn \<Rightarrow> bool" where
  "calm c \<longleftrightarrow> list_all (\<lambda>r. frame_read_bytes r \<noteq> []) (pc_reads c)"

lemma calm_compact [simp]: "calm (compact_buffer c) = calm c"
  by (simp add: calm_def compact_conn)

lemma read_some_calm:
  assumes "calm c" and "conn_ok c" and "available c < length (conn_rest c)"
  obtains c' where "read_some e c = (Inr True, c')" and "calm c'"
proof -
  from assms(2,3) obtain r rs where reads: "pc_reads c = r # rs"
    by (cases "pc_reads c") (auto simp: conn_rest_def available_def conn_ok_def)
  with assms(1) obtain bs where "r = FrBytes bs" "bs \<noteq> []" by (cases r) (auto simp: calm_def)
  with reads assms(1) that show thesis by (simp add: read_some_def Let_def calm_def)
qed

lemma fill_to_calm:
  assumes "calm c" and "conn_ok c" and "needed \<le> length (conn_rest c)"
  obtains c' where "fill_to needed e c = (Inr True, c')" and "calm c'"
  using assms
proof (induction needed e c arbitrary: thesis rule: fill_to.induct)
  case (1 needed e c)
  show ?case
  proof (cases "available c < needed")
    case True
    with "1.prems" obtain c1 where c1: "read_some e c = (Inr True, c1)" "calm c1"
      using read_some_calm [of c e] by auto
    have ok: "conn_ok c1" "conn_rest c1 = conn_rest c" using read_some_conn [OF c1(1)] "1.prems"(3) by simp_all
    obtain c' where "fill_to needed e c1 = (Inr True, c')" "calm c'"
      using "1.IH" [OF True c1(1) [symmetric] refl refl _ c1(2) ok(1)] "1.prems"(4) ok(2) by auto
    then show ?thesis using "1.prems"(1) True c1(1) by (subst (asm) (2) fill_to.simps) (simp add: fill_to.simps)
  next
    case False
    with "1.prems" show ?thesis by (subst (asm) fill_to.simps) simp
  qed
qed

definition calm_drain :: "bool list \<Rightarrow> bool" where
  "calm_drain ds \<longleftrightarrow> list_all Not ds"

lemma calm_drain_step: "calm_drain ds \<Longrightarrow> \<not> drain_seen ds \<and> calm_drain (tl ds)"
  by (cases ds) (simp_all add: calm_drain_def drain_seen_def)

lemma fill_or_drain_calm:
  assumes "calm c" and "conn_ok c" and "needed \<le> length (conn_rest c)" and "calm_drain ds"
  obtains ds' c' where "fill_or_drain needed (ds, c) = (Inr True, ds', c')" and "calm c'" and "calm_drain ds'"
  using assms
proof (induction needed "(ds, c)" arbitrary: ds c thesis rule: fill_or_drain.induct)
  case (1 needed ds c)
  note drain = calm_drain_step [OF "1.prems"(5)]
  show ?case
  proof (cases "available c < needed")
    case True
    with "1.prems" obtain c1 where c1: "read_some False c = (Inr True, c1)" "calm c1"
      using read_some_calm [of c False] by auto
    have ok: "conn_ok c1" "conn_rest c1 = conn_rest c" using read_some_conn [OF c1(1)] "1.prems"(3) by simp_all
    obtain ds' c' where "fill_or_drain needed (tl ds, c1) = (Inr True, ds', c')" "calm c'" "calm_drain ds'"
      using "1.hyps" [OF _ True c1(1) [symmetric] refl refl _ c1(2) ok(1)] drain "1.prems"(4) ok(2) by auto
    then show ?thesis using "1.prems"(1) True c1(1) drain by (simp add: fill_or_drain.simps [of needed ds c])
  next
    case False
    with "1.prems" drain show ?thesis by (subst (asm) fill_or_drain.simps) simp
  qed
qed

section \<open>Reading one frame\<close>

definition response_acceptable :: "frame_caps \<Rightarrow> response_frame \<Rightarrow> bool" where
  "response_acceptable caps f \<longleftrightarrow>
     response_ok caps f \<and> length (response_envelope f) \<le> U32_MAX \<and>
     length (response_envelope f) \<le> 4096 + unat (max_header_bytes caps) + unat (max_body_bytes caps)"

lemma prefix_of_wire:
  assumes "response_acceptable caps f" and "conn_rest c = response_wire f @ rest" and "PREFIX_LEN \<le> available c"
  shows "FramePrefix_parse (prefix_bytes c) caps = Inr (of_nat (length (response_envelope f)))"
    and "PREFIX_LEN + unat (of_nat (length (response_envelope f)) :: u32) = length (response_wire f)"
proof -
  have "prefix_bytes c = take PREFIX_LEN (conn_rest c)"
    using assms(3) by (simp add: prefix_bytes_def conn_rest_def available_def)
  also have "\<dots> = take PREFIX_LEN (frame_of (response_envelope f))"
    using assms(2) by (simp add: response_wire_def frame_of_def PREFIX_LEN_def)
  finally show "FramePrefix_parse (prefix_bytes c) caps = Inr (of_nat (length (response_envelope f)))"
    using assms(1) by (simp add: response_acceptable_def prefix_accepts_iff)
  show "PREFIX_LEN + unat (of_nat (length (response_envelope f)) :: u32) = length (response_wire f)"
    using assms(1) unat_of_nat_u32 [of "length (response_envelope f)"]
    by (simp add: response_acceptable_def response_wire_def frame_of_def PREFIX_LEN_def)
qed

lemma decode_front_calm:
  assumes "response_acceptable caps f" and "conn_rest c = response_wire f @ rest"
    and "length (response_wire f) \<le> available c"
  shows "decode_front (length (response_wire f)) caps c =
    (Inr f, c\<lparr>pc_pos := pc_pos c + length (response_wire f)\<rparr>)"
proof -
  let ?n = "length (response_wire f)"
  have "take ?n (drop (pc_pos c) (pc_buf c)) = take ?n (conn_rest c)"
    using assms(3) by (simp add: conn_rest_def available_def)
  also have "\<dots> = frame_of (response_envelope f)" using assms(2) by (simp add: response_wire_def)
  finally have "take ?n (drop (pc_pos c) (pc_buf c)) = frame_of (response_envelope f)" .
  moreover have "decode_response (response_envelope f) caps = Inr f"
    using assms(1) by (simp add: response_env.decode_iff response_acceptable_def)
  ultimately show ?thesis by (simp add: decode_front_def frame_of_parts)
qed

lemma complete_frame_calm:
  assumes "response_acceptable caps f" and "conn_rest c = response_wire f @ rest" and "PREFIX_LEN \<le> available c"
    and "calm c" and "conn_ok c"
  obtains c' where "complete_frame caps c = (Inr f, c')" and "conn_rest c' = rest" and "calm c'" and "conn_ok c'"
proof -
  note prefix = prefix_of_wire [OF assms(1,2,3)]
  obtain c1 where c1: "fill_to (length (response_wire f)) False c = (Inr True, c1)" "calm c1"
    using fill_to_calm [OF assms(4,5), of "length (response_wire f)" False] assms(2) by auto
  have ok: "conn_ok c1" "conn_rest c1 = response_wire f @ rest" "length (response_wire f) \<le> available c1"
    using fill_to_conn [OF c1(1) assms(5)] assms(2) by simp_all
  let ?c' = "c1\<lparr>pc_pos := pc_pos c1 + length (response_wire f)\<rparr>"
  have comp: "complete_frame caps c = (Inr f, ?c')"
    using prefix c1(1) decode_front_calm [OF assms(1) ok(2,3)] by (simp add: complete_frame_def then_do_def)
  from complete_frame_wire [OF this assms(5,3)] assms(2) have "conn_rest ?c' = rest" "conn_ok ?c'" by simp_all
  then show thesis using that [OF comp] c1(2) by (simp add: calm_def)
qed

lemma wire_long: "PREFIX_LEN \<le> length (response_wire f)"
  by (simp add: response_wire_def frame_of_def PREFIX_LEN_def)

lemma read_frame_calm:
  assumes "response_acceptable caps f" and "conn_rest c = response_wire f @ rest" and "calm c"
  obtains c' where "read_frame caps first c = (Inr (Some f), c')" and "conn_rest c' = rest" and "calm c'" and "conn_ok c'"
proof -
  obtain c1 where c1: "fill_to PREFIX_LEN first (compact_buffer c) = (Inr True, c1)" "calm c1"
    using fill_to_calm [of "compact_buffer c" PREFIX_LEN first] assms(2,3) wire_long [of f] by (auto simp: compact_conn)
  have ok: "conn_ok c1" "conn_rest c1 = response_wire f @ rest" "PREFIX_LEN \<le> available c1"
    using fill_to_conn [OF c1(1) compact_conn(1)] assms(2) by (simp_all add: compact_conn)
  obtain c' where "complete_frame caps c1 = (Inr f, c')" "conn_rest c' = rest" "calm c'" "conn_ok c'"
    using complete_frame_calm [OF assms(1) ok(2,3) c1(2) ok(1)] .
  then show thesis using that c1(1) by (simp add: read_frame_def then_do_def)
qed

lemma read_frame_or_drain_calm:
  assumes "response_acceptable caps f" and "conn_rest c = response_wire f @ rest" and "calm c" and "calm_drain ds"
  obtains ds' c' where "read_frame_or_drain caps (ds, c) = (Inr (Some f), ds', c')" and "conn_rest c' = rest"
    and "calm c'" and "calm_drain ds'"
proof -
  let ?c = "compact_buffer c"
  have rest: "conn_rest ?c = response_wire f @ rest" using assms(2) by (simp add: compact_conn)
  show thesis
  proof (cases "length (response_wire f) \<le> available ?c")
    case True
    have "buffered_frame_len caps ?c = Inr (Some (length (response_wire f)))"
      using True prefix_of_wire [OF assms(1) rest] wire_long [of f] by (simp add: buffered_frame_len_def Let_def)
    moreover note dec = decode_front_calm [OF assms(1) rest True]
    moreover have "conn_rest (?c\<lparr>pc_pos := pc_pos ?c + length (response_wire f)\<rparr>) = rest"
      using decode_front_wire [OF prefix_of_wire(1) [OF assms(1) rest] prefix_of_wire(2) [OF assms(1) rest, symmetric] True dec]
        True wire_long [of f] rest by simp
    ultimately show thesis
      using that [of ds "?c\<lparr>pc_pos := pc_pos ?c + length (response_wire f)\<rparr>"] assms(3,4)
      by (simp add: read_frame_or_drain_def calm_def compact_conn Let_def)
  next
    case False
    have none: "buffered_frame_len caps ?c = Inr None"
      using False prefix_of_wire [OF assms(1) rest] by (simp add: buffered_frame_len_def Let_def)
    obtain ds' c1 where c1: "fill_or_drain PREFIX_LEN (ds, ?c) = (Inr True, ds', c1)" "calm c1" "calm_drain ds'"
      using fill_or_drain_calm [of ?c PREFIX_LEN ds] assms(3,4) rest wire_long [of f] by (auto simp: compact_conn)
    have ok: "conn_ok c1" "conn_rest c1 = response_wire f @ rest" "PREFIX_LEN \<le> available c1"
      using fill_or_drain_conn [OF c1(1) compact_conn(1)] rest by simp_all
    obtain c' where "complete_frame caps c1 = (Inr f, c')" "conn_rest c' = rest" "calm c'" "conn_ok c'"
      using complete_frame_calm [OF assms(1) ok(2,3) c1(2) ok(1)] .
    then show thesis using that c1 none by (simp add: read_frame_or_drain_def then_do_def)
  qed
qed

section \<open>The streamed response\<close>

text \<open>A relay whose writes succeed and that may still stream \<open>n\<close> bytes.\<close>

definition room :: "frame_relay \<Rightarrow> nat \<Rightarrow> bool" where
  "room s n \<longleftrightarrow>
     never_fails (rl_down s) \<and> unat (fr_streamed s) + n \<le> MAX_RESPONSE_BYTES \<and>
     unat (la_bytes_streamed (rl_admission s)) + n \<le> unat (ll_max_buffered_bytes (rg_limits (rl_registry s)))"

lemma write_long_lived_calm: "never_fails (rl_down s) \<Longrightarrow> write_long_lived w s = (Inr (), written [w] s)"
  by (simp add: write_long_lived_def write_down_def never_fails_def written_def)

lemma write_pending_header_calm:
  "never_fails (rl_down s) \<Longrightarrow>
     write_pending_header s = (Inr (), written (pending_header s) (s\<lparr>rl_header := None\<rparr>))"
  by (cases "rl_header s")
    (simp_all add: write_pending_header_def pending_header_def write_long_lived_calm written_def)

lemma never_fails_written [simp]: "never_fails (rl_down (written ws s)) = never_fails (rl_down s)"
  by (simp add: never_fails_def)

lemma unat_saturating_add_small:
  assumes "unat a + n < 2 ^ 64"
  shows "unat (saturating_add a (of_nat n :: u64)) = unat a + n"
proof -
  have "unat (of_nat n :: u64) = n" using assms by (simp add: unat_of_nat)
  then show ?thesis using assms by (simp add: unat_saturating_add)
qed

lemma relay_chunk_room:
  assumes "data \<noteq> []" and "room s (length data + n)"
  obtains s' where "relay_chunk data s = (Inr None, s')" and "room s' n" and "fr_drain s' = fr_drain s"
proof -
  let ?k = "of_nat (length data) :: u64"
  let ?a = "(rl_admission s)\<lparr>la_bytes_streamed := saturating_add (la_bytes_streamed (rl_admission s)) ?k\<rparr>"
  let ?r = "(rl_registry s)\<lparr>rg_bytes_streamed_total := rg_bytes_streamed_total (rl_registry s) + unat ?k\<rparr>"
  let ?s1 = "s\<lparr>fr_streamed := saturating_add (fr_streamed s) ?k, rl_admission := ?a, rl_registry := ?r\<rparr>"
  let ?s' = "written [DownBody (Some data) False] (written (pending_header ?s1) (?s1\<lparr>rl_header := None\<rparr>))"
  from assms(2) have ok: "never_fails (rl_down s)"
    and b: "unat (fr_streamed s) + length data + n \<le> MAX_RESPONSE_BYTES"
    "unat (la_bytes_streamed (rl_admission s)) + length data + n \<le>
       unat (ll_max_buffered_bytes (rg_limits (rl_registry s)))"
    by (simp_all add: room_def)
  have top: "unat (ll_max_buffered_bytes (rg_limits (rl_registry s))) < 2 ^ 64"
    using unsigned_less [of "ll_max_buffered_bytes (rg_limits (rl_registry s))", where 'a = nat] by simp
  have streamed: "unat (saturating_add (fr_streamed s) ?k) = unat (fr_streamed s) + length data"
    using b(1) by (intro unat_saturating_add_small) (simp add: MAX_RESPONSE_BYTES_def)
  have bytes: "unat (saturating_add (la_bytes_streamed (rl_admission s)) ?k) =
      unat (la_bytes_streamed (rl_admission s)) + length data"
    using b(2) top by (intro unat_saturating_add_small) simp
  have "\<not> saturating_add (fr_streamed s) ?k > of_nat MAX_RESPONSE_BYTES"
    using streamed b(1) by (simp add: word_less_nat_alt MAX_RESPONSE_BYTES_def)
  moreover have "saturating_add (la_bytes_streamed (rl_admission s)) ?k \<le>
      ll_max_buffered_bytes (rg_limits (rl_registry s))"
    using bytes b(2) by (simp add: word_le_nat_alt)
  ultimately have "relay_chunk data s = (Inr None, ?s')"
    using assms(1) ok
    by (simp add: relay_chunk_def record_bytes_def Let_def then_do_def write_pending_header_calm write_long_lived_calm)
  moreover have "room ?s' n" using ok streamed bytes b by (simp add: room_def)
  ultimately show thesis using that by simp
qed

lemma relay_step_read:
  assumes "\<not> drain_seen (fr_drain s)"
    and "read_frame_or_drain caps (tl (fr_drain s), fr_conn s) = (Inr (Some f), ds, c)"
  shows "relay_step caps s =
    (let s = s\<lparr>fr_drain := ds, fr_conn := c\<rparr> in
     case f of Resp_Chunk data \<Rightarrow> relay_chunk data s | Resp_End \<Rightarrow> relay_end s | _ \<Rightarrow> (Inl 502, s))"
  using assms by (simp add: relay_step_def split: response_frame.split)

lemma relay_loop_calm:
  assumes "conn_rest (fr_conn s) = stream_wire chunks True @ rest" and "calm (fr_conn s)"
    and "calm_drain (fr_drain s)" and "room s (sum_list (map length chunks))"
    and "list_all (\<lambda>c. c \<noteq> [] \<and> response_acceptable caps (Resp_Chunk c)) chunks"
    and "response_acceptable caps Resp_End"
  obtains s' where "relay_loop caps s = (Inr (available (fr_conn s') = 0), s')"
    and "relay_record s chunks True (available (fr_conn s') = 0) s'" and "conn_rest (fr_conn s') = rest"
  using assms
proof (induction chunks arbitrary: s thesis)
  case Nil
  from calm_drain_step [OF Nil.prems(4)] have ds: "\<not> drain_seen (fr_drain s)" "calm_drain (tl (fr_drain s))" by simp_all
  from Nil.prems(2) have "conn_rest (fr_conn s) = response_wire Resp_End @ rest" by (simp add: stream_wire_def)
  then obtain ds' c where read: "read_frame_or_drain caps (tl (fr_drain s), fr_conn s) = (Inr (Some Resp_End), ds', c)"
    and c: "conn_rest c = rest"
    using read_frame_or_drain_calm [OF Nil.prems(7) _ Nil.prems(3) ds(2)] by metis
  let ?s = "s\<lparr>fr_drain := ds', fr_conn := c\<rparr>"
  have ok: "never_fails (rl_down s)" using Nil.prems(5) by (simp add: room_def)
  then obtain s' where s': "relay_end ?s = (Inr (Some (available c = 0)), s')"
    by (simp add: relay_end_def then_do_def write_pending_header_calm write_long_lived_calm has_surplus_def)
  from relay_end_Inr [OF this] have "fr_conn s' = c"
    "dn_written (rl_down s') = dn_written (rl_down s) @ final_writes s" by (simp_all add: final_writes_def pending_header_def)
  moreover have "relay_loop caps s = (Inr (available c = 0), s')"
    using relay_step_read [OF ds(1) read] s' by (subst relay_loop.simps) simp
  ultimately show ?case
    using Nil.prems(1) [of s'] Nil.prems(2) c
    by (simp add: relay_record_def final_writes_def chunk_writes_def)
next
  case (Cons data chunks)
  from calm_drain_step [OF Cons.prems(4)] have ds: "\<not> drain_seen (fr_drain s)" "calm_drain (tl (fr_drain s))" by simp_all
  have acc: "response_acceptable caps (Resp_Chunk data)" and ne: "data \<noteq> []" using Cons.prems(6) by simp_all
  have "conn_rest (fr_conn s) = response_wire (Resp_Chunk data) @ stream_wire chunks True @ rest"
    using Cons.prems(2) by (simp add: stream_wire_def)
  then obtain ds' c where read:
    "read_frame_or_drain caps (tl (fr_drain s), fr_conn s) = (Inr (Some (Resp_Chunk data)), ds', c)"
    and c: "conn_rest c = stream_wire chunks True @ rest" "calm c" "calm_drain ds'"
    using read_frame_or_drain_calm [OF acc _ Cons.prems(3) ds(2)] by metis
  let ?s = "s\<lparr>fr_drain := ds', fr_conn := c\<rparr>"
  have "room ?s (length data + sum_list (map length chunks))" using Cons.prems(5) by (simp add: room_def)
  from relay_chunk_room [OF ne this] obtain s1 where s1: "relay_chunk data ?s = (Inr None, s1)"
    "room s1 (sum_list (map length chunks))" "fr_drain s1 = ds'" by auto
  from relay_chunk_Inr [OF s1(1)] ne have conn: "fr_conn s1 = c" and w: "rl_header s1 = None"
    "dn_written (rl_down s1) = dn_written (rl_down s) @ pending_header s @ [DownBody (Some data) False]"
    by (simp_all add: pending_header_def)
  obtain s' where ih: "relay_loop caps s1 = (Inr (available (fr_conn s') = 0), s')"
    "relay_record s1 chunks True (available (fr_conn s') = 0) s'" "conn_rest (fr_conn s') = rest"
    using Cons.IH [of s1] c conn s1(2,3) Cons.prems(6,7) by auto
  have "relay_loop caps s = relay_loop caps s1"
    using relay_step_read [OF ds(1) read] s1(1) by (subst relay_loop.simps) simp
  moreover have "relay_record s (data # chunks) True (available (fr_conn s') = 0) s'"
    using ih(2) w ne Cons.prems(2) ih(3)
    by (simp add: relay_record_def chunk_writes_def pending_header_def)
  ultimately show ?case using Cons.prems(1) [of s'] ih by simp
qed

section \<open>The worker's answer\<close>

lemma client_header_built:
  "list_all accepts headers \<Longrightarrow>
     build_response_chunked_header accepts status headers keepalive = Inr (client_header keepalive status headers []) \<and>
     build_response_header accepts status headers n keepalive =
       Inr (client_header keepalive status headers [(''Content-Length'', to_string n)])"
proof -
  assume "list_all accepts headers"
  then have "list_all accepts (filter (\<lambda>h. \<not> is_framing_header (fst h)) headers)" by (simp add: list_all_iff)
  then have "append_headers accepts \<lparr>rh_status = status, rh_fields = []\<rparr> headers =
      Inr \<lparr>rh_status = status, rh_fields = filter (\<lambda>h. \<not> is_framing_header (fst h)) headers\<rparr>"
    by (simp add: append_headers_Inr)
  then show ?thesis
    by (simp add: build_response_chunked_header_def build_response_header_def client_header_def)
qed

lemma response_caps_values [simp]:
  "unat (max_body_bytes response_frame_caps) = 67108864" "unat (max_header_bytes response_frame_caps) = 65536"
  "unat (max_headers response_frame_caps) = 100"
  by (simp_all add: response_frame_caps_def MAX_RESPONSE_BYTES_def MAX_RESPONSE_HEADER_BYTES_def)

lemma chunk_acceptable:
  "length c \<le> MAX_RESPONSE_BYTES \<Longrightarrow> response_acceptable response_frame_caps (Resp_Chunk c)"
  by (simp add: response_acceptable_def response_ok_def response_envelope_def long_bytes_def MAX_RESPONSE_BYTES_def)

lemma end_acceptable: "response_acceptable caps Resp_End"
  by (simp add: response_acceptable_def response_ok_def response_envelope_def)

lemma event_chunks_nonempty: "c \<in> set (event_chunks evs) \<Longrightarrow> c \<noteq> []"
  by (induction evs rule: event_chunks.induct) (auto split: if_splits)

lemma response_acceptable_fits: "response_acceptable caps f \<Longrightarrow> response_fits f"
  using response_ok_fits by (auto simp: response_acceptable_def)

lemma conn_new_rest [simp]:
  "conn_rest (conn_new rs ws) = concat (map frame_read_bytes rs)"
  "calm (conn_new rs ws) = list_all (\<lambda>r. frame_read_bytes r \<noteq> []) rs"
  "write_ok (conn_new rs (w # ws)) = w" "(conn_new rs ws)\<lparr>pc_writes := vs\<rparr> = conn_new rs vs" "pc_writes (conn_new rs ws) = ws"
  by (simp_all add: conn_new_def conn_rest_def calm_def write_ok_def)

lemma available_empty: "conn_rest c = [] \<Longrightarrow> available c = 0"
  by (simp add: conn_rest_def available_def)

text \<open>What a worker's event stream amounts to.\<close>

definition reply_status :: "worker_event list \<Rightarrow> u16" where
  "reply_status rx = wh_status (fst (first_head rx))"

definition reply_headers :: "worker_event list \<Rightarrow> header list" where
  "reply_headers rx = sanitize_response_headers (wh_headers (fst (first_head rx)))"

definition reply_chunks :: "worker_event list \<Rightarrow> u8 list list" where
  "reply_chunks rx = event_chunks (snd (first_head rx))"

text \<open>
  C32: A streamed answer survives the binary hop. Take any events a worker sends for a request,
  within the edge's limits, and cut the bytes the worker writes for them into reads in any way:
  the edge writes the status, the sanitized headers and the non-empty chunks in order, ends the
  response, and gets the connection back ready for the next request, with nothing left in it.
  The header library accepts the worker's headers, the client keeps reading and the edge is not
  draining.
\<close>
theorem streamed_answer_relayed:
  assumes "response_acceptable response_frame_caps (Resp_Head (reply_status rx) (reply_headers rx))"
    and "list_all accepts (reply_headers rx)"
    and "concat (map frame_read_bytes rs) = sk_out (snd (write_streaming_frames rx \<lparr>sk_out = [], sk_room = None\<rparr>))"
    and "list_all (\<lambda>r. frame_read_bytes r \<noteq> []) rs" and "calm_drain ds"
    and "try_admit reg = (Some a, reg')"
    and "sum_list (map length (reply_chunks rx)) \<le> MAX_RESPONSE_BYTES"
    and "sum_list (map length (reply_chunks rx)) \<le> unat (ll_max_buffered_bytes (rg_limits reg))"
    and "never_fails d"
  shows "\<exists>c' reg'' d'. exchange_frames accepts response_frame_caps keepalive ds (conn_new rs (True # ws)) reg d =
      (Inr (reply_status rx, True), c', reg'', d') \<and> conn_rest c' = [] \<and>
      dn_written d' = dn_written d @
        [DownHeader (client_header keepalive (reply_status rx) (reply_headers rx) []) False] @
        map (\<lambda>c. DownBody (Some c) False) (reply_chunks rx) @ [DownBody None True]"
proof -
  let ?caps = response_frame_caps and ?st = "reply_status rx" and ?hs = "reply_headers rx" and ?cs = "reply_chunks rx"
  have each: "length c \<le> MAX_RESPONSE_BYTES" if "c \<in> set ?cs" for c
    using member_le_sum_list [of "length c" "map length ?cs"] that assms(7) by simp
  have chunks: "list_all (\<lambda>c. c \<noteq> [] \<and> response_acceptable ?caps (Resp_Chunk c)) ?cs"
    using each chunk_acceptable event_chunks_nonempty by (auto simp: list_all_iff reply_chunks_def)
  have fits: "response_fits (Resp_Head ?st ?hs)" by (rule response_acceptable_fits [OF assms(1)])
  have "\<forall>c \<in> set ?cs. length c \<le> U32_MAX - 5" using each by (fastforce simp: MAX_RESPONSE_BYTES_def)
  then have "concat (map frame_read_bytes rs) = response_wire (Resp_Head ?st ?hs) @ stream_wire ?cs True"
    using assms(3) streaming_frames_wellformed [of rx "[]"] fits
    by (simp add: stream_wire_def reply_status_def reply_headers_def reply_chunks_def comp_def)
  then obtain c1 where c1: "read_frame ?caps True (conn_new rs ws) = (Inr (Some (Resp_Head ?st ?hs)), c1)"
    "conn_rest c1 = stream_wire ?cs True @ []" "calm c1"
    using read_frame_calm [OF assms(1), of "conn_new rs ws" "stream_wire ?cs True" True] assms(4)
    by auto
  let ?s = "\<lparr>rl_header = Some (client_header keepalive ?st ?hs []), rl_admission = a, rl_registry = reg', rl_down = d,
     fr_drain = ds, fr_conn = c1, fr_streamed = 0\<rparr>"
  have adm: "la_bytes_streamed a = 0" "rg_limits reg' = rg_limits reg"
    using assms(6) by (auto simp: try_admit_def Let_def split: prod.splits sum.splits)
  have "room ?s (sum_list (map length ?cs))" using assms(7,8,9) adm by (simp add: room_def)
  from relay_loop_calm [of ?s ?cs "[]" ?caps] this c1(2,3) assms(5) chunks end_acceptable
  obtain s' where s': "relay_loop ?caps ?s = (Inr (available (fr_conn s') = 0), s')"
    "relay_record ?s ?cs True (available (fr_conn s') = 0) s'" "conn_rest (fr_conn s') = []" by auto
  have cw: "chunk_writes ?cs = map (\<lambda>c. DownBody (Some c) False) ?cs"
    using chunks by (auto simp: chunk_writes_def list_all_iff filter_id_conv)
  have "exchange_frames accepts ?caps keepalive ds (conn_new rs (True # ws)) reg d =
      (Inr (?st, True), fr_conn s', admission_drop (rl_admission s') (rl_registry s'), rl_down s')"
    using c1(1) client_header_built [OF assms(2)] s'(1) assms(6) available_empty [OF s'(3)]
    by (simp add: exchange_frames_def stream_frames_downstream_def map_err_def Let_def)
  then show ?thesis using s'(2,3) cw by (simp add: relay_record_def pending_header_def)
qed

definition sample_events :: "worker_event list" where
  "sample_events = [EvStart \<lparr>wh_status = 200, wh_headers = []\<rparr>, EvChunk [1], EvChunk [], EvChunk [2, 3], EvEnd]"

definition sample_answer :: "u8 list" where
  "sample_answer = sk_out (snd (write_streaming_frames sample_events \<lparr>sk_out = [], sk_room = None\<rparr>))"

definition sample_registry :: registry where
  "sample_registry = registry_new \<lparr>ll_max_connections = 1, ll_max_buffered_bytes = 100\<rparr>"

lemma sample_events_reply:
  "reply_status sample_events = 200" "reply_headers sample_events = []" "reply_chunks sample_events = [[1], [2, 3]]"
  by (simp_all add: sample_events_def reply_status_def reply_headers_def reply_chunks_def first_head_def
      sanitize_response_headers_def)

lemma sample_head_acceptable: "response_acceptable response_frame_caps (Resp_Head 200 [])"
  by (simp add: response_acceptable_def ok_defs bytes_defs)

lemma sample_answer_long: "9 < length sample_answer"
proof -
  have "write_streaming_frames sample_events \<lparr>sk_out = [], sk_room = None\<rparr> =
      (True, \<lparr>sk_out = concat (map response_wire [Resp_Head 200 [], Resp_Chunk [1], Resp_Chunk [2, 3], Resp_End]),
        sk_room = None\<rparr>)"
    using streaming_frames_wellformed [of sample_events "[]"] response_acceptable_fits [OF sample_head_acceptable]
      sample_events_reply
    by (simp add: reply_status_def reply_headers_def reply_chunks_def)
  then show ?thesis by (simp add: sample_answer_def response_wire_def frame_of_def bytes_defs)
qed

theorem streamed_answer_relayed_witness:
  "\<exists>c' reg'' d'. exchange_frames (\<lambda>_. True) response_frame_caps False []
      (conn_new [FrBytes (take 9 sample_answer), FrBytes (drop 9 sample_answer)] [True]) sample_registry
      \<lparr>dn_written = [], dn_fails = (\<lambda>_. None)\<rparr> = (Inr (200, True), c', reg'', d') \<and> conn_rest c' = [] \<and>
    dn_written d' = [DownHeader (client_header False 200 [] []) False, DownBody (Some [1]) False,
      DownBody (Some [2, 3]) False, DownBody None True]"
proof -
  have ne: "sample_answer \<noteq> []" using sample_answer_long by auto
  obtain a reg' where "try_admit sample_registry = (Some a, reg')"
    by (simp add: sample_registry_def try_admit_def registry_new_def global_acquire_def gate_new_def Let_def)
  from streamed_answer_relayed [where rx = sample_events and accepts = "\<lambda>_. True" and ds = "[]"
      and rs = "[FrBytes (take 9 sample_answer), FrBytes (drop 9 sample_answer)]" and keepalive = False
      and d = "\<lparr>dn_written = [], dn_fails = (\<lambda>_. None)\<rparr>" and ws = "[]", OF _ _ _ _ _ this]
  show ?thesis
    using sample_answer_long sample_head_acceptable ne
    by (auto simp: sample_events_reply calm_drain_def never_fails_def MAX_RESPONSE_BYTES_def sample_registry_def
        registry_new_def sample_answer_def [symmetric] list_all_iff)
qed

theorem exchange_exact_witness:
  "\<exists>reusable c' reg' d'. exchange_frames (\<lambda>_. True) response_frame_caps True []
      (conn_new [FrBytes (response_wire (Resp_Full 200 [] [7])), FrBytes [9]] [True]) sample_registry
      \<lparr>dn_written = [], dn_fails = (\<lambda>_. None)\<rparr> = (Inr (200, reusable), c', reg', d') \<and> dn_written d' \<noteq> []"
proof -
  let ?f = "Resp_Full 200 [] [7]" and ?c = "conn_new [FrBytes (response_wire (Resp_Full 200 [] [7])), FrBytes [9]] [True]"
  let ?d = "\<lparr>dn_written = [], dn_fails = (\<lambda>_. None)\<rparr> :: downstream"
  have acc: "response_acceptable response_frame_caps ?f" by (simp add: response_acceptable_def ok_defs bytes_defs)
  obtain c1 where c1: "read_frame response_frame_caps True (?c\<lparr>pc_writes := []\<rparr>) = (Inr (Some ?f), c1)"
    using read_frame_calm [OF acc, of "?c\<lparr>pc_writes := []\<rparr>" "[9]" True] response_wire_nonempty [of ?f] by auto
  obtain h where "build_response_header (\<lambda>_. True) 200 [] (length [7 :: u8]) True = Inr h"
    using client_header_built [of "\<lambda>_. True" "[]"] by fastforce
  with c1 obtain reusable c' reg' d' where
    run: "exchange_frames (\<lambda>_. True) response_frame_caps True [] ?c sample_registry ?d = (Inr (200, reusable), c', reg', d')"
    by (simp add: exchange_frames_def write_full_def then_do_def write_with_timeout_def write_down_def
        Let_def map_err_def)
  from exchange_exact [OF this] have "dn_written d' \<noteq> []" by auto
  with run show ?thesis by blast
qed

end
