(* ===== verification/Spec2Isabelle.thy ===== *)
theory Spec2Isabelle
  imports Service_Run Worker_Rack Fd_Budget Edge_Boot Http_Reply Frame_Request Frame_Reply Frame_Send
begin

text \<open>
  Oxo is an application server for Ruby written in Rust. A public process, the edge
  (\<open>crates/oxo-pingora-edge\<close>), terminates HTTP on the Pingora proxy library, checks every request,
  and hands it over a Unix socket to one of several worker processes (\<open>crates/oxo-worker\<close>), which
  run the Rack application. The hop has two wire formats: a binary frame over pooled connections
  (the default) and one-shot HTTP/1.1. \<open>crates/oxo-core\<close> holds what both sides share: the frame
  codec, the process configuration and the header predicates. WebSocket upgrades and gRPC
  requests go to sidecars over the proxy library instead of to a worker. A supervisor,
  \<open>oxo-pingora-service\<close>, resolves the configuration of all of them, starts them, watches them, restarts
  workers, reloads renewed certificates and drains everything on a signal.

  \<^bold>\<open>How the parts interact.\<close> A request enters \<open>request_filter\<close> (\<open>Edge_Proxy\<close>): its headers are collected and
  validated (\<open>Edge_Request\<close>), it is admitted by the global gate, the per-identity limiter and, for
  sidecars, the long-lived registry (\<open>Fairness\<close>), under the address that \<open>Edge_Identity\<close> resolves. For a
  worker its headers are sanitized (\<open>Edge_Headers\<close>), the body is read, and it is sent as a frame
  (\<open>Frame_Request\<close>, \<open>Frame_Send\<close> with \<open>Frame_Dispatch\<close> and \<open>Frame_Pool\<close>) or as HTTP text (\<open>Edge_Request\<close>).
  The worker decodes it (\<open>Hop_Frame\<close> and \<open>Worker_Frame\<close>, or \<open>Worker_Parser\<close>), queues it and answers
  (\<open>Worker_Serve\<close>) with the environment of \<open>Worker_Rack\<close>; the answer returns through \<open>Frame_Response\<close> or
  \<open>Edge_Response\<close>. \<open>Edge_Sidecar\<close> holds the hooks of a sidecar request and \<open>Edge_Telemetry\<close> the counters that
  all paths update. The supervisor hands the edge its settings as the arguments that \<open>Edge_Cli\<close> parses
  (\<open>Service_Start\<close>), and the edge resolves them and boots (\<open>Edge_Settings\<close>, \<open>Edge_Boot\<close>).

  \<^bold>\<open>The theories.\<close> Definitions carry the names of the source; every theory opens with the files it models.
  \<^item> \<open>Oxo_Prelude\<close>, \<open>Rust_Str\<close>, \<open>Rust_Net\<close>: machine integers, \<open>Result\<close> as a sum with the combinators of the
    sources, \<open>str\<close> and integer parsing, IP and socket addresses with their parsers and printers; the
    locale \<open>invariant_machine\<close> through which invariants of step relations are proved.
  \<^item> \<open>Hop_Frame\<close> (\<open>oxo-core/src/hop_frame.rs\<close>) and \<open>Core_Lib\<close> (\<open>oxo-core/src/lib.rs\<close>): the codec with exactness and
    round-trip theorems, the configuration and its safety; the header predicates of the hops.
  \<^item> \<open>Header_Policy\<close>: the contract of a header filter, as locales interpreted on the worker's two
    header paths and on the edge's two sanitizers.
  \<^item> \<open>Worker_Parser\<close>, \<open>Worker_Serve\<close>, \<open>Worker_Frame\<close>, \<open>Worker_Rack\<close> (\<open>oxo-worker/src/native/*.rs\<close>): the HTTP parser, the
    job queue and response writers, frame connections and the Rack environment.
  \<^item> \<open>Edge_Cli\<close>, \<open>Edge_Config\<close>, \<open>Edge_Headers\<close>, \<open>Edge_Identity\<close>: \<open>oxo-pingora-edge/src/lib.rs\<close> by subject, with the file
    checks of \<open>platform/fs_validate.rs\<close>. \<open>Fd_Budget\<close>: \<open>fd_budget.rs\<close>. \<open>Fairness\<close>: \<open>platform/fairness.rs\<close>.
  \<^item> \<open>Edge_Request\<close>, \<open>Edge_Response\<close>: \<open>platform/worker_wire.rs\<close>. \<open>Http_Hop\<close> and \<open>Http_Reply\<close> add no definition of
    the program: they compose the edge's writer with the worker's parser, and back.
  \<^item> \<open>Frame_Pool\<close> (\<open>platform/frame_pool.rs\<close>); \<open>Frame_Request\<close>, \<open>Frame_Response\<close>, \<open>Frame_Dispatch\<close>, \<open>Frame_Send\<close>
    (\<open>platform/frame_hop.rs\<close>); \<open>Frame_Reply\<close> composes the worker's frame writer with the edge's relay.
  \<^item> \<open>Edge_Settings\<close> and \<open>Edge_Boot\<close> (\<open>platform/config.rs\<close>): every setting from the command line and the
    environment, the dry run and the boot up to the start of the server.
  \<^item> \<open>Rust_Text\<close>, \<open>Service_Config\<close>, \<open>Service_World\<close>, \<open>Service_Runner\<close> (\<open>service.rs\<close>): the supervisor's configuration,
    the operations on one child process, and the run: boot, readiness, monitor loop, restarts,
    certificate reload and drain. The operating system is the record \<open>world\<close>: a clock, the signals
    that have come, the process table and what the environment answers. \<open>Service_Start\<close> states what
    an accepted configuration guarantees; \<open>Service_Lifecycle\<close> holds the judgment \<open>settles\<close> on who may be
    alive after each operation, and \<open>Service_Run\<close> the guarantees over a whole run.
  \<^item> \<open>Edge_Telemetry\<close> (\<open>platform/telemetry.rs\<close>, \<open>drain.rs\<close>), \<open>Edge_Proxy\<close> and \<open>Edge_Sidecar\<close> (\<open>platform/proxy.rs\<close>),
    and \<open>Edge_Filter\<close> with the phases of a request, the interleaving of requests in those phases and what
    they guarantee together.

  \<^bold>\<open>State and operations.\<close> A struct is a record whose fields keep the source's names behind a short
  prefix, an enum a datatype, and \<open>Result\<close> a sum with the error on the left. Integers whose width
  matters are words; a \<open>usize\<close> that counts elements in memory is a natural number. Text is its UTF-8
  bytes, one character per byte. Functions on shared state take and return that state; where threads
  interleave (the in-flight counters, the pool, the edge's requests) the atomic steps form a step
  relation. Leaving the scope of a guard object is a call of its drop function.

  \<^bold>\<open>Parameters.\<close> Code outside the repository is an argument: the header library's reading of values and
  acceptance of names, the static file server's answer, the connection hash, the order in which
  a hash map lists its entries, file metadata, the application itself. A connection is the list of what its reads
  and writes return; its end stands for the timeout, so every theorem covers every cut of the bytes.

  \<^bold>\<open>What the theorems show.\<close>
  \<^item> Codec: the decoders accept exactly the canonical encodings within the caps, and encoding is inverted.
  \<^item> Fidelity of the hops: what the worker reads is what the edge meant, for frames and for HTTP; answers,
    full and streamed, arrive whole and a connection is reused only at a clean boundary.
  \<^item> Header and identity boundary: sanitizers and parsers let only application headers through, the two
    sanitizers agree, the client address cannot be spoofed from the left of the chain.
  \<^item> Delivery: at most one worker gets a request over the HTTP hop and from asynchronous workers over the frame
    hop; over classic workers a request can be written once to every worker, which is proved with its bound.
  \<^item> Accounting: pool, pins, in-flight counters, limiters and telemetry balance in every reachable state, with
    any number of requests waiting at workers, dropped, or open at sidecars.
  \<^item> Request path: nothing reaches a worker before every check has passed.
  \<^item> Configuration: what parses prints back, and a configuration that is accepted is safe.
  \<^item> Supervision: each child gets its own environment and private sockets, no child outlives the service, a
    signal ends it, and the drain is staged and within its budget; the one exit that leaves the edge
    running, a failed certificate reload, is proved as found.

  \<^bold>\<open>Bounds and fuel.\<close> Loops are structural recursion over the remaining input, or functions with a measure. A
  dispatch that parks for a slot runs over a list of passes and is \<open>None\<close> when the list ends first: the
  theorems hold for every list. The monitor loop takes fuel for its iterations; \<open>T / 100 + 2\<close> is enough when a
  signal has come by millisecond \<open>T\<close>, since every turn that goes on sleeps 100 ms, and the safety
  theorems hold for every amount. Statistics counters are unbounded numbers, all limits keep their width.

  \<^bold>\<open>Not modelled.\<close> The proxy, TLS, static file and ACME libraries and the async runtime. Of the supervisor: the
  relaying of child output, the installation of the signal handlers (a run starts
  when the signal counters have been cleared), the log line and the texts of
  errors; a process group is its leader, so grandchildren are outside the model. The embedded
  supervisor \<open>oxo-edge/src/supervised.rs\<close>, certificate issuance and its state files (\<open>acme/\<close>), the scratch
  buffers (\<open>scratch.rs\<close>), the Ruby FFI beyond the environment it builds (\<open>ruby.rs\<close>, \<open>oxo-embedded\<close>), the bodies of
  the health and metrics pages, timing and allocation counters, and the features that exist for
  benchmarks only.
\<close>

end
